(* ===== verification/Weave_Prelude.thy ===== *)
theory Weave_Prelude
  imports Main "HOL-Library.Word"
begin

text \<open>
  Shared vocabulary of the development: the machine integers of the C++ sources, the error
  codes the modelled functions return, the early-exit idiom of
  \<^verbatim>\<open>src/src/lib/support/CodeUtils.h\<close>, the collections of rewrite rules the component
  theories fill, and generic lemmas on lists and words.
\<close>

unbundle bit_operations_syntax

section \<open>Machine integers\<close>

type_synonym u8 = "8 word"
type_synonym u16 = "16 word"
type_synonym u32 = "32 word"
type_synonym u64 = "64 word"

section \<open>Error codes\<close>

text \<open>
  The codes of \<^verbatim>\<open>WeaveError.h\<close> and \<^verbatim>\<open>InetError.h\<close> the modelled functions return, by name; \<open>PLATFORM_ERROR\<close> stands for
  whatever else a platform service (random numbers, storage, key store) reports.  The last constructor
  is not a code of the source: a model function returns it where the C++ would read or write
  through a pointer that lies outside the buffer it belongs to, so that memory safety is the
  statement that it is never returned.
\<close>

datatype WEAVE_ERROR =
    WEAVE_NO_ERROR
  | WEAVE_END_OF_TLV
  | WEAVE_ERROR_TLV_UNDERRUN
  | WEAVE_ERROR_INVALID_TLV_ELEMENT
  | WEAVE_ERROR_INVALID_TLV_TAG
  | WEAVE_ERROR_UNKNOWN_IMPLICIT_TLV_TAG
  | WEAVE_ERROR_WRONG_TLV_TYPE
  | WEAVE_ERROR_TLV_CONTAINER_OPEN
  | WEAVE_ERROR_TLV_TAG_NOT_FOUND
  | WEAVE_ERROR_UNEXPECTED_TLV_ELEMENT
  | WEAVE_ERROR_INCORRECT_STATE
  | WEAVE_ERROR_INVALID_ARGUMENT
  | WEAVE_ERROR_BUFFER_TOO_SMALL
  | WEAVE_ERROR_NO_MEMORY
  | WEAVE_ERROR_NOT_IMPLEMENTED
  | WEAVE_ERROR_MAX
  | WEAVE_ERROR_INVALID_MESSAGE_LENGTH
  | WEAVE_ERROR_INVALID_MESSAGE_FLAG
  | WEAVE_ERROR_UNSUPPORTED_MESSAGE_VERSION
  | WEAVE_ERROR_UNSUPPORTED_ENCRYPTION_TYPE
  | WEAVE_ERROR_WRONG_ENCRYPTION_TYPE
  | WEAVE_ERROR_MESSAGE_TOO_LONG
  | WEAVE_ERROR_MESSAGE_INCOMPLETE
  | WEAVE_ERROR_INTEGRITY_CHECK_FAILED
  | WEAVE_ERROR_INVALID_ADDRESS
  | WEAVE_ERROR_INVALID_DESTINATION_NODE_ID
  | WEAVE_ERROR_NO_MESSAGE_HANDLER
  | WEAVE_ERROR_INVALID_KEY_ID
  | WEAVE_ERROR_KEY_NOT_FOUND
  | WEAVE_ERROR_WRONG_KEY_TYPE
  | WEAVE_ERROR_UNKNOWN_KEY_TYPE
  | WEAVE_ERROR_DUPLICATE_KEY_ID
  | WEAVE_ERROR_TOO_MANY_KEYS
  | WEAVE_ERROR_INVALID_USE_OF_SESSION_KEY
  | WEAVE_ERROR_TOO_MANY_SHARED_SESSION_END_NODES
  | WEAVE_ERROR_INVALID_INTEGER_VALUE
  | WEAVE_ERROR_PERSISTED_STORAGE_VALUE_NOT_FOUND
  | WEAVE_ERROR_UNSUPPORTED_CLOCK
  | WEAVE_ERROR_TIME_NOT_SYNCED_YET
  | WEAVE_ERROR_MESSAGE_NOT_ACKNOWLEDGED
  | WEAVE_ERROR_RETRANS_TABLE_FULL
  | WEAVE_ERROR_SEND_THROTTLED
  | WEAVE_ERROR_SENDING_BLOCKED
  | WEAVE_ERROR_WRONG_MSG_VERSION_FOR_EXCHANGE
  | WEAVE_ERROR_UNSUPPORTED_EXCHANGE_VERSION
  | WEAVE_ERROR_NOT_CONNECTED
  | WEAVE_ERROR_NO_ENDPOINT
  | WEAVE_ERROR_INVALID_ACK_ID
  | WEAVE_ERROR_UNSOLICITED_MSG_NO_ORIGINATOR
  | WEAVE_ERROR_TOO_MANY_UNSOLICITED_MESSAGE_HANDLERS
  | WEAVE_ERROR_NO_UNSOLICITED_MESSAGE_HANDLER
  | INET_ERROR_NOT_IMPLEMENTED
  | INET_ERROR_OUTBOUND_MESSAGE_TRUNCATED
  | INET_ERROR_MESSAGE_TOO_LONG
  | INET_ERROR_NO_MEMORY
  | PLATFORM_ERROR nat
  | UNDEFINED_BEHAVIOR

text \<open>\<^verbatim>\<open>SuccessOrExit(err)\<close>: go on only when the last step reported no error.\<close>

definition SuccessOrExit :: "WEAVE_ERROR \<times> 's \<Rightarrow> ('s \<Rightarrow> WEAVE_ERROR \<times> 's) \<Rightarrow> WEAVE_ERROR \<times> 's" where
  "SuccessOrExit res k = (case res of (err, s) \<Rightarrow> if err = WEAVE_NO_ERROR then k s else (err, s))"

lemma SuccessOrExit_ok [simp]: "SuccessOrExit (WEAVE_NO_ERROR, s) k = k s"
  by (simp add: SuccessOrExit_def)

lemma SuccessOrExit_err [simp]: "err \<noteq> WEAVE_NO_ERROR \<Longrightarrow> SuccessOrExit (err, s) k = (err, s)"
  by (simp add: SuccessOrExit_def)

lemma SuccessOrExit_pair:
  "SuccessOrExit (err, s) k = (if err = WEAVE_NO_ERROR then k s else (err, s))"
  by (simp add: SuccessOrExit_def)

lemma SuccessOrExit_cong [fundef_cong]:
  "\<lbrakk>res = res'; \<And>s. res' = (WEAVE_NO_ERROR, s) \<Longrightarrow> k s = k' s\<rbrakk>
    \<Longrightarrow> SuccessOrExit res k = SuccessOrExit res' k'"
  by (auto simp: SuccessOrExit_def split: prod.splits)

lemma SuccessOrExit_okE:
  assumes "SuccessOrExit res k = (WEAVE_NO_ERROR, t)"
  obtains s where "res = (WEAVE_NO_ERROR, s)" and "k s = (WEAVE_NO_ERROR, t)"
  using assms by (cases res) (auto simp: SuccessOrExit_pair split: if_splits)

section \<open>Rule collections\<close>

named_theorems tlv_simps
named_theorems tlv_type_simps
named_theorems consume_intros

section \<open>Lists\<close>

lemma take_drop_length_append [simp]:
  "length xs = n \<Longrightarrow> take n (xs @ ys) = xs"
  "length xs = n \<Longrightarrow> drop n (xs @ ys) = ys"
  by auto

lemma sum_list_tl_le: "sum_list (map length (tl xss)) \<le> sum_list (map length xss)"
  by (cases xss) auto

lemma length_take_eq: "n \<le> length xs \<Longrightarrow> length (take n xs) = n"
  by simp

lemma take_take_append: "take k (take k xs @ ys) = take k (xs @ ys)"
  by (cases "k \<le> length xs") auto

section \<open>Words\<close>

lemma unat_u16_less: "unat (x :: u16) < 65536"
  by (rule order_less_le_trans [OF unsigned_less]) simp

lemma unat_of_nat_u16: "n < 65536 \<Longrightarrow> unat (of_nat n :: u16) = n"
  by (simp add: unat_of_nat take_bit_nat_eq_self)

lemma unat_word_of_int_u16: "\<lbrakk>0 \<le> i; i < 65536\<rbrakk> \<Longrightarrow> unat (word_of_int i :: u16) = nat i"
  by (simp add: unsigned_of_int take_bit_int_eq_self)

lemma unat_u32_less: "unat (x :: u32) < 4294967296"
  by (rule order_less_le_trans [OF unsigned_less]) simp

lemma unat_of_nat_u32: "n < 2 ^ 32 \<Longrightarrow> unat (of_nat n :: u32) = n"
  by (simp add: unat_of_nat take_bit_nat_eq_self)

lemma unat_sub_u32: "b \<le> a \<Longrightarrow> unat (a - b :: u32) = unat a - unat b"
  by (rule unat_sub)

lemma unat_add_u32: "unat a + unat b < 2 ^ 32 \<Longrightarrow> unat (a + b :: u32) = unat a + unat b"
  by (simp add: unat_word_ariths)

text \<open>Two words are equal if their bits are, one by one; with masks given as numbers this is how fields are separated.\<close>

lemma upt_32: "[0..<32] =
    [0, 1, 2, 3, 4, 5, 6, 7, 8, 9, 10, 11, 12, 13, 14, 15, 16, 17, 18, 19, 20, 21, 22, 23, 24, 25, 26,
     27, 28, 29, 30, 31]"
  by (simp add: upt_rec numeral_eq_Suc)

lemma upt_64: "[0..<64] =
    [0, 1, 2, 3, 4, 5, 6, 7, 8, 9, 10, 11, 12, 13, 14, 15, 16, 17, 18, 19, 20, 21, 22, 23, 24, 25, 26,
     27, 28, 29, 30, 31, 32, 33, 34, 35, 36, 37, 38, 39, 40, 41, 42, 43, 44, 45, 46, 47, 48, 49, 50, 51,
     52, 53, 54, 55, 56, 57, 58, 59, 60, 61, 62, 63]"
  by (simp add: upt_rec numeral_eq_Suc)

lemma u32_eqI: "list_all (\<lambda>n. bit x n = bit y n) [0..<32] \<Longrightarrow> x = (y :: u32)"
  by (rule bit_word_eqI) (simp add: list_all_iff)

lemma u64_eqI: "list_all (\<lambda>n. bit x n = bit y n) [0..<64] \<Longrightarrow> x = (y :: u64)"
  by (rule bit_word_eqI) (simp add: list_all_iff)

lemmas word_bits = bit_simps upt_32 upt_64

section \<open>Flags\<close>

definition GetFlag :: "u8 \<Rightarrow> u8 \<Rightarrow> bool" where
  "GetFlag inFlags inFlag \<longleftrightarrow> inFlags AND inFlag = inFlag"

definition SetFlag :: "u8 \<Rightarrow> bool \<Rightarrow> u8 \<Rightarrow> u8" where
  "SetFlag inFlag inValue outFlags =
     (let setValue = GetFlag outFlags inFlag in
      if setValue \<noteq> inValue then if \<not> setValue then outFlags OR inFlag else outFlags AND NOT inFlag else outFlags)"

end
