(* ===== verification/Weave_Encoding.thy ===== *)
theory Weave_Encoding
  imports Weave_Prelude
begin

text \<open>
  Byte order: the little-endian readers and writers of
  \<^verbatim>\<open>src/src/lib/core/WeaveEncoding.h\<close>.  A pointer that a C++ function reads through and
  advances is the list of the bytes it can still reach; a pointer that is written through is the
  list of the bytes written.  The generic \<open>to_le\<close> / \<open>from_le\<close> carry the proofs, the
  operations of the header are their instances, and the round-trip laws are stated once as a
  locale that every width interprets.
\<close>

section \<open>Little-endian strings of any width\<close>

primrec to_le :: "nat \<Rightarrow> 'a::len word \<Rightarrow> u8 list" where
  "to_le 0 v = []"
| "to_le (Suc n) v = ucast v # to_le n (drop_bit 8 v)"

primrec from_le :: "u8 list \<Rightarrow> 'a::len word" where
  "from_le [] = 0"
| "from_le (b # bs) = ucast b OR push_bit 8 (from_le bs)"

lemma length_to_le [simp]: "length (to_le n v) = n"
  by (induction n arbitrary: v) auto

lemma from_le_to_le: "from_le (to_le n v) = (take_bit (8 * n) v :: 'a::len word)"
proof (induction n arbitrary: v)
  case 0
  show ?case by simp
next
  case (Suc n)
  have "ucast (ucast v :: u8) OR push_bit 8 (take_bit (8 * n) (drop_bit 8 v)) = take_bit (8 * Suc n) v"
    by (rule bit_word_eqI) (auto simp: bit_simps)
  with Suc show ?case by simp
qed

lemma from_le_take_bit: "take_bit (8 * length bs) (from_le bs) = (from_le bs :: 'a::len word)"
proof (induction bs)
  case Nil
  show ?case by simp
next
  case (Cons b bs)
  have "take_bit (8 * Suc (length bs)) (ucast b OR push_bit 8 (from_le bs)) =
      ucast b OR push_bit 8 (take_bit (8 * length bs) (from_le bs :: 'a word))"
    by (rule bit_word_eqI) (auto simp: bit_simps dest: bit_imp_le_length)
  with Cons show ?case by simp
qed

lemma to_le_from_le:
  "8 * length bs \<le> LENGTH('a) \<Longrightarrow> to_le (length bs) (from_le bs :: 'a::len word) = bs"
proof (induction bs)
  case Nil
  show ?case by simp
next
  case (Cons b bs)
  let ?v = "from_le bs :: 'a word"
  have "ucast (ucast b OR push_bit 8 ?v) = b"
    using Cons.prems by (intro bit_word_eqI) (auto simp: bit_simps)
  moreover have "drop_bit 8 (ucast b OR push_bit 8 ?v) = ?v"
  proof (rule bit_word_eqI)
    fix n assume "n < LENGTH('a)"
    have "n < 8 * length bs" if "bit ?v n"
      using that from_le_take_bit [of bs, where 'a = 'a] bit_take_bit_iff [of "8 * length bs" ?v n] by simp
    then have "bit ?v n \<Longrightarrow> 8 + n < LENGTH('a)" using Cons.prems by fastforce
    then show "bit (drop_bit 8 (ucast b OR push_bit 8 ?v)) n = bit ?v n"
      by (auto simp: bit_simps dest: bit_imp_le_length)
  qed
  ultimately show ?case using Cons by simp
qed

section \<open>The operations of the header\<close>

text \<open>
  \<^verbatim>\<open>Read8\<close>, \<^verbatim>\<open>LittleEndian::Read16/32/64\<close> return the value and the advanced pointer;
  \<^verbatim>\<open>Write8\<close>, \<^verbatim>\<open>LittleEndian::Write16/32/64\<close> return the bytes they store.  A read past
  the end of the list has no C++ counterpart in the callers, which size their input first.
\<close>

definition Read8 :: "u8 list \<Rightarrow> u8 \<times> u8 list" where
  "Read8 p = (from_le (take 1 p), drop 1 p)"

definition Read16 :: "u8 list \<Rightarrow> u16 \<times> u8 list" where
  "Read16 p = (from_le (take 2 p), drop 2 p)"

definition Read32 :: "u8 list \<Rightarrow> u32 \<times> u8 list" where
  "Read32 p = (from_le (take 4 p), drop 4 p)"

definition Read64 :: "u8 list \<Rightarrow> u64 \<times> u8 list" where
  "Read64 p = (from_le (take 8 p), drop 8 p)"

definition Write8 :: "u8 \<Rightarrow> u8 list" where
  "Write8 v = to_le 1 v"

definition Write16 :: "u16 \<Rightarrow> u8 list" where
  "Write16 v = to_le 2 v"

definition Write32 :: "u32 \<Rightarrow> u8 list" where
  "Write32 v = to_le 4 v"

definition Write64 :: "u64 \<Rightarrow> u8 list" where
  "Write64 v = to_le 8 v"

lemmas Write_defs = Write8_def Write16_def Write32_def Write64_def
lemmas Read_defs = Read8_def Read16_def Read32_def Read64_def

section \<open>The contract of a fixed-width codec\<close>

text \<open>
  What every caller relies on: the writer emits \<open>width\<close> bytes, the reader gives the value
  back and leaves what follows, and bytes that were read are the ones the writer would emit.
\<close>

locale fixed_codec =
  fixes width :: nat
    and put :: "'v \<Rightarrow> u8 list"
    and get :: "u8 list \<Rightarrow> 'v \<times> u8 list"
  assumes put_length: "length (put v) = width"
    and get_put: "get (put v @ rest) = (v, rest)"
    and put_get: "width \<le> length p \<Longrightarrow> put (fst (get p)) @ snd (get p) = p"
begin

lemma put_inject: "put v @ r = put w @ s \<longleftrightarrow> v = w \<and> r = s"
  by (metis get_put prod.inject)

lemma put_nonempty: "0 < width \<Longrightarrow> put v \<noteq> []"
  using put_length [of v] by auto

lemma get_take: "width \<le> length p \<Longrightarrow> put (fst (get p)) = take width p"
  by (metis append_eq_conv_conj put_get put_length)

end

lemma le_codec:
  assumes "LENGTH('a) = 8 * n"
  shows "fixed_codec n (to_le n :: 'a::len word \<Rightarrow> u8 list) (\<lambda>p. (from_le (take n p), drop n p))"
proof
  fix v :: "'a word" and rest p :: "u8 list"
  show "length (to_le n v) = n" by simp
  show "(from_le (take n (to_le n v @ rest)), drop n (to_le n v @ rest)) = (v, rest)"
    using assms by (simp add: from_le_to_le flip: assms)
  assume "n \<le> length p"
  then show "to_le n (fst (from_le (take n p) :: 'a word, drop n p)) @
      snd (from_le (take n p) :: 'a word, drop n p) = p"
    using assms to_le_from_le [of "take n p", where 'a = 'a] by (simp add: min_absorb2)
qed

interpretation codec8: fixed_codec 1 Write8 Read8
  unfolding Write8_def [abs_def] Read8_def [abs_def] by (rule le_codec) simp

interpretation codec16: fixed_codec 2 Write16 Read16
  unfolding Write16_def [abs_def] Read16_def [abs_def] by (rule le_codec) simp

interpretation codec32: fixed_codec 4 Write32 Read32
  unfolding Write32_def [abs_def] Read32_def [abs_def] by (rule le_codec) simp

interpretation codec64: fixed_codec 8 Write64 Read64
  unfolding Write64_def [abs_def] Read64_def [abs_def] by (rule le_codec) simp

lemmas [simp] =
  codec8.put_length codec16.put_length codec32.put_length codec64.put_length
  codec8.get_put codec16.get_put codec32.get_put codec64.get_put

lemma Read_Write_Nil [simp]:
  "Read8 (Write8 a) = (a, [])" "Read16 (Write16 b) = (b, [])"
  "Read32 (Write32 c) = (c, [])" "Read64 (Write64 d) = (d, [])"
  using codec8.get_put [of a "[]"] codec16.get_put [of b "[]"]
    codec32.get_put [of c "[]"] codec64.get_put [of d "[]"] by simp_all

end
