(* ===== verification/TLV_Types.thy ===== *)
theory TLV_Types
  imports Weave_Encoding
begin

text \<open>
  The constants and inline functions of \<^verbatim>\<open>WeaveTLVTypes.h\<close> and \<^verbatim>\<open>WeaveTLVTags.h\<close>.  The C++
  enumerations are converted to and from integers throughout (casts, \<^verbatim>\<open>|\<close>, \<^verbatim>\<open>&\<close>, the value
  \<^verbatim>\<open>-1\<close>), so an enumerator is the integer the header gives it.
\<close>

section \<open>Element types\<close>

type_synonym TLVType = int
type_synonym TLVElementType = int
type_synonym TLVFieldSize = int
type_synonym TLVTagControl = int

abbreviation (input) kTLVType_NotSpecified :: TLVType where "kTLVType_NotSpecified \<equiv> - 1"
abbreviation (input) kTLVType_UnknownContainer :: TLVType where "kTLVType_UnknownContainer \<equiv> - 2"
abbreviation (input) kTLVType_SignedInteger :: TLVType where "kTLVType_SignedInteger \<equiv> 0x00"
abbreviation (input) kTLVType_UnsignedInteger :: TLVType where "kTLVType_UnsignedInteger \<equiv> 0x04"
abbreviation (input) kTLVType_Boolean :: TLVType where "kTLVType_Boolean \<equiv> 0x08"
abbreviation (input) kTLVType_FloatingPointNumber :: TLVType where "kTLVType_FloatingPointNumber \<equiv> 0x0A"
abbreviation (input) kTLVType_UTF8String :: TLVType where "kTLVType_UTF8String \<equiv> 0x0C"
abbreviation (input) kTLVType_ByteString :: TLVType where "kTLVType_ByteString \<equiv> 0x10"
abbreviation (input) kTLVType_Null :: TLVType where "kTLVType_Null \<equiv> 0x14"
abbreviation (input) kTLVType_Structure :: TLVType where "kTLVType_Structure \<equiv> 0x15"
abbreviation (input) kTLVType_Array :: TLVType where "kTLVType_Array \<equiv> 0x16"
abbreviation (input) kTLVType_Path :: TLVType where "kTLVType_Path \<equiv> 0x17"

abbreviation (input) kTLVElementType_NotSpecified :: TLVElementType where "kTLVElementType_NotSpecified \<equiv> - 1"
abbreviation (input) kTLVElementType_Int8 :: TLVElementType where "kTLVElementType_Int8 \<equiv> 0x00"
abbreviation (input) kTLVElementType_Int16 :: TLVElementType where "kTLVElementType_Int16 \<equiv> 0x01"
abbreviation (input) kTLVElementType_Int32 :: TLVElementType where "kTLVElementType_Int32 \<equiv> 0x02"
abbreviation (input) kTLVElementType_Int64 :: TLVElementType where "kTLVElementType_Int64 \<equiv> 0x03"
abbreviation (input) kTLVElementType_UInt8 :: TLVElementType where "kTLVElementType_UInt8 \<equiv> 0x04"
abbreviation (input) kTLVElementType_UInt16 :: TLVElementType where "kTLVElementType_UInt16 \<equiv> 0x05"
abbreviation (input) kTLVElementType_UInt32 :: TLVElementType where "kTLVElementType_UInt32 \<equiv> 0x06"
abbreviation (input) kTLVElementType_UInt64 :: TLVElementType where "kTLVElementType_UInt64 \<equiv> 0x07"
abbreviation (input) kTLVElementType_BooleanFalse :: TLVElementType where "kTLVElementType_BooleanFalse \<equiv> 0x08"
abbreviation (input) kTLVElementType_BooleanTrue :: TLVElementType where "kTLVElementType_BooleanTrue \<equiv> 0x09"
abbreviation (input) kTLVElementType_FloatingPointNumber32 :: TLVElementType
  where "kTLVElementType_FloatingPointNumber32 \<equiv> 0x0A"
abbreviation (input) kTLVElementType_FloatingPointNumber64 :: TLVElementType
  where "kTLVElementType_FloatingPointNumber64 \<equiv> 0x0B"
abbreviation (input) kTLVElementType_UTF8String_1ByteLength :: TLVElementType
  where "kTLVElementType_UTF8String_1ByteLength \<equiv> 0x0C"
abbreviation (input) kTLVElementType_ByteString_8ByteLength :: TLVElementType
  where "kTLVElementType_ByteString_8ByteLength \<equiv> 0x13"
abbreviation (input) kTLVElementType_Null :: TLVElementType where "kTLVElementType_Null \<equiv> 0x14"
abbreviation (input) kTLVElementType_Structure :: TLVElementType where "kTLVElementType_Structure \<equiv> 0x15"
abbreviation (input) kTLVElementType_Array :: TLVElementType where "kTLVElementType_Array \<equiv> 0x16"
abbreviation (input) kTLVElementType_Path :: TLVElementType where "kTLVElementType_Path \<equiv> 0x17"
abbreviation (input) kTLVElementType_EndOfContainer :: TLVElementType
  where "kTLVElementType_EndOfContainer \<equiv> 0x18"

abbreviation (input) kTLVFieldSize_0Byte :: TLVFieldSize where "kTLVFieldSize_0Byte \<equiv> - 1"
abbreviation (input) kTLVFieldSize_1Byte :: TLVFieldSize where "kTLVFieldSize_1Byte \<equiv> 0"
abbreviation (input) kTLVFieldSize_2Byte :: TLVFieldSize where "kTLVFieldSize_2Byte \<equiv> 1"
abbreviation (input) kTLVFieldSize_4Byte :: TLVFieldSize where "kTLVFieldSize_4Byte \<equiv> 2"
abbreviation (input) kTLVFieldSize_8Byte :: TLVFieldSize where "kTLVFieldSize_8Byte \<equiv> 3"

text \<open>
  The inline predicates take a \<^verbatim>\<open>uint8_t\<close>: an enumerator passed to them is reduced modulo 256,
  so \<^verbatim>\<open>kTLVElementType_NotSpecified\<close> arrives as 255.
\<close>

definition IsValidTLVType :: "int \<Rightarrow> bool" where
  "IsValidTLVType type = (type mod 256 \<le> kTLVElementType_EndOfContainer)"

definition TLVTypeHasValue :: "int \<Rightarrow> bool" where
  "TLVTypeHasValue type =
     (type mod 256 \<le> kTLVElementType_UInt64 \<or>
      (type mod 256 \<ge> kTLVElementType_FloatingPointNumber32 \<and>
       type mod 256 \<le> kTLVElementType_ByteString_8ByteLength))"

definition TLVTypeHasLength :: "int \<Rightarrow> bool" where
  "TLVTypeHasLength type =
     (type mod 256 \<ge> kTLVElementType_UTF8String_1ByteLength \<and>
      type mod 256 \<le> kTLVElementType_ByteString_8ByteLength)"

definition TLVTypeIsContainer :: "int \<Rightarrow> bool" where
  "TLVTypeIsContainer type =
     (type mod 256 \<ge> kTLVElementType_Structure \<and> type mod 256 \<le> kTLVElementType_Path)"

definition TLVTypeIsString :: "int \<Rightarrow> bool" where
  "TLVTypeIsString type =
     (type mod 256 \<ge> kTLVElementType_UTF8String_1ByteLength \<and>
      type mod 256 \<le> kTLVElementType_ByteString_8ByteLength)"

definition GetTLVFieldSize :: "int \<Rightarrow> TLVFieldSize" where
  "GetTLVFieldSize type = (if TLVTypeHasValue type then (type mod 256) AND 0x03 else kTLVFieldSize_0Byte)"

definition TLVFieldSizeToBytes :: "TLVFieldSize \<Rightarrow> nat" where
  "TLVFieldSizeToBytes fieldSize = (if fieldSize \<noteq> kTLVFieldSize_0Byte then 2 ^ nat fieldSize else 0)"

lemmas TLVType_pred_defs [tlv_type_simps] =
  IsValidTLVType_def TLVTypeHasValue_def TLVTypeHasLength_def TLVTypeIsContainer_def
  TLVTypeIsString_def

section \<open>Tags\<close>

abbreviation (input) kProfileIdNotSpecified :: u32 where "kProfileIdNotSpecified \<equiv> 0xFFFFFFFF"
abbreviation (input) kCommonProfileId :: u32 where "kCommonProfileId \<equiv> 0"
abbreviation (input) kProfileIdMask :: u64 where "kProfileIdMask \<equiv> 0xFFFFFFFF00000000"
abbreviation (input) kTagNumMask :: u64 where "kTagNumMask \<equiv> 0x00000000FFFFFFFF"
abbreviation (input) kSpecialTagMarker :: u64 where "kSpecialTagMarker \<equiv> 0xFFFFFFFF00000000"
abbreviation (input) kContextTagMaxNum :: u32 where "kContextTagMaxNum \<equiv> 256"

abbreviation (input) kTLVTagControl_Anonymous :: TLVTagControl where "kTLVTagControl_Anonymous \<equiv> 0x00"
abbreviation (input) kTLVTagControl_ContextSpecific :: TLVTagControl where "kTLVTagControl_ContextSpecific \<equiv> 0x20"
abbreviation (input) kTLVTagControl_CommonProfile_2Bytes :: TLVTagControl
  where "kTLVTagControl_CommonProfile_2Bytes \<equiv> 0x40"
abbreviation (input) kTLVTagControl_CommonProfile_4Bytes :: TLVTagControl
  where "kTLVTagControl_CommonProfile_4Bytes \<equiv> 0x60"
abbreviation (input) kTLVTagControl_ImplicitProfile_2Bytes :: TLVTagControl
  where "kTLVTagControl_ImplicitProfile_2Bytes \<equiv> 0x80"
abbreviation (input) kTLVTagControl_ImplicitProfile_4Bytes :: TLVTagControl
  where "kTLVTagControl_ImplicitProfile_4Bytes \<equiv> 0xA0"
abbreviation (input) kTLVTagControl_FullyQualified_6Bytes :: TLVTagControl
  where "kTLVTagControl_FullyQualified_6Bytes \<equiv> 0xC0"
abbreviation (input) kTLVTagControl_FullyQualified_8Bytes :: TLVTagControl
  where "kTLVTagControl_FullyQualified_8Bytes \<equiv> 0xE0"

text \<open>\<^verbatim>\<open>ProfileTag\<close> is overloaded: with a profile id, and with a vendor id and a profile number.\<close>

definition ProfileTag :: "u32 \<Rightarrow> u32 \<Rightarrow> u64" where
  "ProfileTag profileId tagNum = push_bit 32 (ucast profileId) OR ucast tagNum"

definition ProfileTag3 :: "u16 \<Rightarrow> u16 \<Rightarrow> u32 \<Rightarrow> u64" where
  "ProfileTag3 vendorId profileNum tagNum =
     push_bit 48 (ucast vendorId) OR push_bit 32 (ucast profileNum) OR ucast tagNum"

definition ContextTag :: "u8 \<Rightarrow> u64" where
  "ContextTag tagNum = kSpecialTagMarker OR ucast tagNum"

definition CommonTag :: "u32 \<Rightarrow> u64" where
  "CommonTag tagNum = ProfileTag kCommonProfileId tagNum"

abbreviation (input) AnonymousTag :: u64 where "AnonymousTag \<equiv> 0xFFFFFFFFFFFFFFFF"
abbreviation (input) UnknownImplicitTag :: u64 where "UnknownImplicitTag \<equiv> 0xFFFFFFFFFFFFFFFE"

definition ProfileIdFromTag :: "u64 \<Rightarrow> u32" where
  "ProfileIdFromTag tag = ucast (drop_bit 32 (tag AND kProfileIdMask))"

definition ProfileNumFromTag :: "u64 \<Rightarrow> u16" where
  "ProfileNumFromTag tag = ucast (drop_bit 32 (tag AND kProfileIdMask))"

definition TagNumFromTag :: "u64 \<Rightarrow> u32" where
  "TagNumFromTag tag = ucast (tag AND kTagNumMask)"

definition VendorIdFromTag :: "u64 \<Rightarrow> u16" where
  "VendorIdFromTag tag = ucast (drop_bit 48 (tag AND kProfileIdMask))"

definition IsProfileTag :: "u64 \<Rightarrow> bool" where
  "IsProfileTag tag = (tag AND kProfileIdMask \<noteq> kSpecialTagMarker)"

definition IsContextTag :: "u64 \<Rightarrow> bool" where
  "IsContextTag tag = (tag AND kProfileIdMask = kSpecialTagMarker \<and> TagNumFromTag tag < kContextTagMaxNum)"

definition IsSpecialTag :: "u64 \<Rightarrow> bool" where
  "IsSpecialTag tag = (tag AND kProfileIdMask = kSpecialTagMarker)"

section \<open>Bit-level facts on tags\<close>

lemma mask32_u64: "(0x00000000FFFFFFFF :: u64) = mask 32"
  by (simp add: mask_eq_exp_minus_1)

lemma TagNumFromTag_ucast: "TagNumFromTag tag = ucast tag"
  unfolding TagNumFromTag_def mask32_u64 by (rule bit_word_eqI) (auto simp: bit_simps)

lemma high_mask_u64: "(0xFFFFFFFF00000000 :: u64) = push_bit 32 (mask 32)"
  by (simp add: mask_eq_exp_minus_1)

lemma ProfileIdFromTag_drop: "ProfileIdFromTag tag = ucast (drop_bit 32 tag)"
  unfolding ProfileIdFromTag_def high_mask_u64
  by (rule bit_word_eqI) (auto simp: bit_simps)

lemma tag_split: "tag = ProfileTag (ProfileIdFromTag tag) (TagNumFromTag tag)"
  unfolding ProfileTag_def ProfileIdFromTag_drop TagNumFromTag_ucast
  by (rule bit_word_eqI) (auto simp: bit_simps)

lemma ProfileIdFromTag_ProfileTag [simp]: "ProfileIdFromTag (ProfileTag p t) = p"
  unfolding ProfileTag_def ProfileIdFromTag_drop
  by (rule bit_word_eqI) (auto simp: bit_simps dest: bit_imp_le_length)

lemma TagNumFromTag_ProfileTag [simp]: "TagNumFromTag (ProfileTag p t) = t"
  unfolding ProfileTag_def TagNumFromTag_ucast
  by (rule bit_word_eqI) (auto simp: bit_simps dest: bit_imp_le_length)

lemma ProfileTag3_eq: "ProfileTag3 (ucast (drop_bit 16 p)) (ucast p) t = ProfileTag p t"
proof (unfold ProfileTag3_def ProfileTag_def, rule bit_word_eqI)
  fix n assume "n < LENGTH(64)"
  have "48 \<le> n \<Longrightarrow> 16 + (n - 48) = n - 32" by simp
  then show "bit (push_bit 48 (ucast (ucast (drop_bit 16 p) :: u16)) OR push_bit 32 (ucast (ucast p :: u16))
      OR ucast t :: u64) n = bit (push_bit 32 (ucast p) OR ucast t :: u64) n"
    using \<open>n < LENGTH(64)\<close> by (cases "48 \<le> n") (auto simp: bit_simps dest: bit_imp_le_length)
qed

lemma ContextTag_ProfileTag: "ContextTag t = ProfileTag kProfileIdNotSpecified (ucast t)"
proof -
  have *: "kProfileIdNotSpecified = mask 32" by (simp add: mask_eq_exp_minus_1)
  show ?thesis
    unfolding ContextTag_def ProfileTag_def high_mask_u64 *
    by (rule bit_word_eqI) (auto simp: bit_simps dest: bit_imp_le_length)
qed

lemma AnonymousTag_ProfileTag: "AnonymousTag = ProfileTag kProfileIdNotSpecified 0xFFFFFFFF"
  by (simp add: ProfileTag_def)

lemma UnknownImplicitTag_ProfileTag: "UnknownImplicitTag = ProfileTag kProfileIdNotSpecified 0xFFFFFFFE"
  by (simp add: ProfileTag_def)

lemma ProfileTag_inject [simp]: "ProfileTag p t = ProfileTag p' t' \<longleftrightarrow> p = p' \<and> t = t'"
  by (metis ProfileIdFromTag_ProfileTag TagNumFromTag_ProfileTag)

lemma high_bits_ProfileTag: "tag AND kProfileIdMask = ProfileTag (ProfileIdFromTag tag) 0"
  unfolding ProfileTag_def ProfileIdFromTag_drop high_mask_u64
  by (rule bit_word_eqI) (auto simp: bit_simps)

lemma IsSpecialTag_iff: "IsSpecialTag tag \<longleftrightarrow> ProfileIdFromTag tag = kProfileIdNotSpecified"
proof -
  have "kSpecialTagMarker = ProfileTag kProfileIdNotSpecified 0" by (simp add: ProfileTag_def)
  then show ?thesis unfolding IsSpecialTag_def high_bits_ProfileTag by (metis ProfileTag_inject)
qed

lemma IsProfileTag_iff: "IsProfileTag tag \<longleftrightarrow> \<not> IsSpecialTag tag"
  by (simp add: IsProfileTag_def IsSpecialTag_def)

lemma IsContextTag_iff:
  "IsContextTag tag \<longleftrightarrow> IsSpecialTag tag \<and> TagNumFromTag tag < kContextTagMaxNum"
  by (simp add: IsContextTag_def IsSpecialTag_def)

lemma ucast_u8_less_256: "(ucast (t :: u8) :: u32) < 256"
proof -
  have "unat t < 256" by (rule order_less_le_trans [OF unsigned_less]) simp
  then have "unat (ucast t :: u32) < 256"
    by (simp add: unsigned_ucast_eq take_bit_nat_eq_self)
  then show ?thesis by (simp add: word_less_nat_alt)
qed

lemma IsContextTag_ContextTag [simp]: "IsContextTag (ContextTag t)"
  by (simp add: IsContextTag_iff IsSpecialTag_iff ContextTag_ProfileTag ucast_u8_less_256)

end
