(* ===== verification/TLV_Reader.thy ===== *)
theory TLV_Reader
  imports TLV_Types
begin

text \<open>
  The pull parser \<^verbatim>\<open>TLVReader\<close> of \<^verbatim>\<open>src/src/lib/core/WeaveTLVReader.cpp\<close>: its state, every
  method that moves it or reads a value, and the proofs that each of them ends, stays inside its
  input and keeps the reader's invariant.

  The two pointers \<^verbatim>\<open>mReadPoint\<close> and \<^verbatim>\<open>mBufEnd\<close> are the bytes between them, \<open>mInput\<close>.
  \<^verbatim>\<open>mBufHandle\<close> is the chain of PacketBuffers from the current one on (empty for a plain
  buffer), each as its data.  \<^verbatim>\<open>EnsureData\<close> lets \<^verbatim>\<open>GetNextBuffer\<close> overwrite \<^verbatim>\<open>mReadPoint\<close>
  before it looks at the length of the new buffer, and leaves \<^verbatim>\<open>mBufEnd\<close> alone when that length
  is 0; the flag \<open>mReadPointStray\<close> records that the two no longer delimit a buffer.
  Where the C++ then reads through \<^verbatim>\<open>mReadPoint\<close>, the model returns \<open>UNDEFINED_BEHAVIOR\<close>.
  A buffer is shorter than \<open>2 ^ 32\<close> bytes, so the 32-bit pointer differences of the source are
  plain lengths.  The feed function is one of the two the class itself installs.
\<close>

section \<open>State\<close>

datatype GetNextBufferFunct = NoNextBuffer | GetNextPacketBuffer

record TLVReader =
  mBufHandle :: "u8 list list"
  mInput :: "u8 list"
  mReadPointStray :: bool
  mLenRead :: u32
  mMaxLen :: u32
  mElemTag :: u64
  mElemLenOrVal :: u64
  mControlByte :: u16
  mContainerType :: TLVType
  mContainerOpen :: bool
  ImplicitProfileId :: u32
  GetNextBuffer :: GetNextBufferFunct

abbreviation (input) kTLVControlByte_NotSpecified :: u16 where "kTLVControlByte_NotSpecified \<equiv> 0xFFFF"

definition Reader_Init_buf :: "u8 list \<Rightarrow> TLVReader" where
  "Reader_Init_buf data =
     \<lparr>mBufHandle = [], mInput = data, mReadPointStray = False, mLenRead = 0,
      mMaxLen = of_nat (length data), mElemTag = AnonymousTag, mElemLenOrVal = 0,
      mControlByte = kTLVControlByte_NotSpecified, mContainerType = kTLVType_NotSpecified,
      mContainerOpen = False, ImplicitProfileId = kProfileIdNotSpecified, GetNextBuffer = NoNextBuffer\<rparr>"

text \<open>
  \<^verbatim>\<open>Init(PacketBuffer *, uint32_t, bool)\<close>; with \<open>False\<close> it is \<^verbatim>\<open>Init(PacketBuffer *, uint32_t)\<close>.
  The chain \<open>bufs\<close> starts with the given buffer.  The whole of the first buffer is
  readable, whatever \<open>maxLen\<close> says.
\<close>

definition Reader_Init_packet :: "u8 list list \<Rightarrow> u32 \<Rightarrow> bool \<Rightarrow> TLVReader" where
  "Reader_Init_packet bufs maxLen allowDiscontiguousBuffers =
     \<lparr>mBufHandle = bufs, mInput = (case bufs of [] \<Rightarrow> [] | b # _ \<Rightarrow> b), mReadPointStray = False,
      mLenRead = 0, mMaxLen = maxLen, mElemTag = AnonymousTag, mElemLenOrVal = 0,
      mControlByte = kTLVControlByte_NotSpecified, mContainerType = kTLVType_NotSpecified,
      mContainerOpen = False, ImplicitProfileId = kProfileIdNotSpecified,
      GetNextBuffer = (if allowDiscontiguousBuffers then GetNextPacketBuffer else NoNextBuffer)\<rparr>"

text \<open>\<^verbatim>\<open>Init(const TLVReader &)\<close> copies every member.\<close>

definition Reader_Init_copy :: "TLVReader \<Rightarrow> TLVReader" where
  "Reader_Init_copy aReader = aReader"

definition ClearElementState :: "TLVReader \<Rightarrow> TLVReader" where
  "ClearElementState r =
     r\<lparr>mElemTag := AnonymousTag, mControlByte := kTLVControlByte_NotSpecified, mElemLenOrVal := 0\<rparr>"

definition ElementType :: "TLVReader \<Rightarrow> TLVElementType" where
  "ElementType r =
     (if mControlByte r = kTLVControlByte_NotSpecified then kTLVElementType_NotSpecified
      else uint (mControlByte r AND 0x1F))"

definition GetType :: "TLVReader \<Rightarrow> TLVType" where
  "GetType r =
     (let elemType = ElementType r in
      if elemType = kTLVElementType_EndOfContainer then kTLVType_NotSpecified
      else if elemType = kTLVElementType_FloatingPointNumber32 \<or>
              elemType = kTLVElementType_FloatingPointNumber64 then kTLVType_FloatingPointNumber
      else if elemType = kTLVElementType_NotSpecified \<or> elemType \<ge> kTLVElementType_Null then elemType
      else elemType AND NOT 0x03)"

definition GetControlByte :: "TLVReader \<Rightarrow> u16" where
  "GetControlByte r = mControlByte r"

definition GetTag :: "TLVReader \<Rightarrow> u64" where
  "GetTag r = mElemTag r"

definition GetLength :: "TLVReader \<Rightarrow> u32" where
  "GetLength r = (if TLVTypeHasLength (ElementType r) then ucast (mElemLenOrVal r) else 0)"

definition GetContainerType :: "TLVReader \<Rightarrow> TLVType" where
  "GetContainerType r = mContainerType r"

definition GetLengthRead :: "TLVReader \<Rightarrow> u32" where
  "GetLengthRead r = mLenRead r"

definition GetRemainingLength :: "TLVReader \<Rightarrow> u32" where
  "GetRemainingLength r = mMaxLen r - mLenRead r"

section \<open>Feeding data\<close>

text \<open>
  \<^verbatim>\<open>GetNextPacketBuffer\<close>: the new handle and the data of the buffer it denotes; at the end of
  the chain the start pointer is NULL and the length 0, which the empty list stands for.
\<close>

definition NextPacketBuffer :: "u8 list list \<Rightarrow> u8 list list \<times> u8 list" where
  "NextPacketBuffer buf =
     (let buf' = (if buf \<noteq> [] then tl buf else buf)
      in (buf', case buf' of [] \<Rightarrow> [] | b # _ \<Rightarrow> b))"

definition EnsureData :: "WEAVE_ERROR \<Rightarrow> TLVReader \<Rightarrow> WEAVE_ERROR \<times> TLVReader" where
  "EnsureData noDataErr r =
     (if \<not> mReadPointStray r \<and> mInput r = [] then
        (if mLenRead r = mMaxLen r then (noDataErr, r)
         else case GetNextBuffer r of
           NoNextBuffer \<Rightarrow> (noDataErr, r)
         | GetNextPacketBuffer \<Rightarrow>
             (let (h, b) = NextPacketBuffer (mBufHandle r);
                  r1 = r\<lparr>mBufHandle := h\<rparr> in
              if b = [] then (noDataErr, r1\<lparr>mReadPointStray := True\<rparr>)
              else let overallLenRemaining = mMaxLen r1 - mLenRead r1
                   in (WEAVE_NO_ERROR, r1\<lparr>mInput := take (unat overallLenRemaining) b\<rparr>)))
      else (WEAVE_NO_ERROR, r))"

text \<open>The bytes the reader can still reach: a bound on how often it can go on.\<close>

definition avail :: "TLVReader \<Rightarrow> nat" where
  "avail r = length (mInput r) + sum_list (map length (tl (mBufHandle r)))"

lemma EnsureData_input:
  "\<lbrakk>EnsureData e r = (WEAVE_NO_ERROR, r'); e \<noteq> WEAVE_NO_ERROR; \<not> mReadPointStray r'\<rbrakk> \<Longrightarrow> mInput r' \<noteq> []"
  by (auto simp: EnsureData_def Let_def unat_eq_0 split: if_splits GetNextBufferFunct.splits prod.splits)

lemma EnsureData_avail: "EnsureData e r = (err, r') \<Longrightarrow> avail r' \<le> avail r"
  by (cases "mBufHandle r"; cases "tl (mBufHandle r)")
    (auto simp: EnsureData_def NextPacketBuffer_def avail_def Let_def min_def
      split: if_splits GetNextBufferFunct.splits prod.splits)

lemma of_nat_min_u32: "unat (of_nat (min (unat (len :: u32)) n) :: u32) = min (unat len) n"
  by (rule unat_of_nat_u32) (use unsigned_less [of len] in \<open>auto simp: min_def\<close>)

lemma sub_of_nat_min_u32: "unat (len - of_nat (min (unat (len :: u32)) n)) = unat len - min (unat len) n"
  by (subst unat_sub) (auto simp: word_le_nat_alt of_nat_min_u32)

lemma ReadData_decr:
  fixes len :: u32
  assumes "EnsureData WEAVE_ERROR_TLV_UNDERRUN r = (WEAVE_NO_ERROR, r1)" "len \<noteq> 0" "\<not> mReadPointStray r1"
  shows "unat (len - of_nat (min (unat len) (length (mInput r1)))) < unat len"
proof -
  from assms have "mInput r1 \<noteq> []" by (auto dest: EnsureData_input)
  then have "0 < min (unat len) (length (mInput r1))" using assms(2) by (simp add: unat_gt_0)
  then show ?thesis unfolding sub_of_nat_min_u32 by (intro diff_less) auto
qed

text \<open>
  \<^verbatim>\<open>ReadData\<close>, with the bytes it copies to \<^verbatim>\<open>buf\<close>.  \<^verbatim>\<open>SkipData\<close> calls it with a NULL
  destination, where the bytes are dropped.
\<close>

function ReadData :: "u32 \<Rightarrow> TLVReader \<Rightarrow> WEAVE_ERROR \<times> u8 list \<times> TLVReader" where
  "ReadData len r =
     (if len = 0 then (WEAVE_NO_ERROR, [], r)
      else case EnsureData WEAVE_ERROR_TLV_UNDERRUN r of (err, r1) \<Rightarrow>
        if err \<noteq> WEAVE_NO_ERROR then (err, [], r1)
        else if mReadPointStray r1 then (UNDEFINED_BEHAVIOR, [], r1)
        else
          let readLen = min (unat len) (length (mInput r1));
              r2 = r1\<lparr>mInput := drop readLen (mInput r1), mLenRead := mLenRead r1 + of_nat readLen\<rparr>
          in case ReadData (len - of_nat readLen) r2 of (err', bs, r3) \<Rightarrow>
               (err', take readLen (mInput r1) @ bs, r3))"
  by pat_completeness auto
termination
  by (relation "measure (\<lambda>(len, r). unat len)")
    (auto intro: ReadData_decr [OF sym] simp: Let_def)

declare ReadData.simps [simp del]

definition SkipData :: "TLVReader \<Rightarrow> WEAVE_ERROR \<times> TLVReader" where
  "SkipData r =
     (if TLVTypeHasLength (ElementType r)
      then case ReadData (ucast (mElemLenOrVal r)) r of (err, _, r') \<Rightarrow> (err, r')
      else (WEAVE_NO_ERROR, r))"

section \<open>Reading an element head\<close>

definition sTagSizes :: "nat list" where
  "sTagSizes = [0, 1, 2, 4, 2, 4, 6, 8]"

text \<open>
  \<^verbatim>\<open>ReadTag\<close> with the advanced pointer.  Where an implicit tag meets an unknown profile id the
  tag bytes are not skipped.
\<close>

definition ReadTag :: "u32 \<Rightarrow> TLVTagControl \<Rightarrow> u8 list \<Rightarrow> u64 \<times> u8 list" where
  "ReadTag implicitProfileId tagControl p =
     (if tagControl = kTLVTagControl_ContextSpecific then
        (let (t, p) = Read8 p in (ContextTag t, p))
      else if tagControl = kTLVTagControl_CommonProfile_2Bytes then
        (let (t, p) = Read16 p in (CommonTag (ucast t), p))
      else if tagControl = kTLVTagControl_CommonProfile_4Bytes then
        (let (t, p) = Read32 p in (CommonTag t, p))
      else if tagControl = kTLVTagControl_ImplicitProfile_2Bytes then
        (if implicitProfileId = kProfileIdNotSpecified then (UnknownImplicitTag, p)
         else let (t, p) = Read16 p in (ProfileTag implicitProfileId (ucast t), p))
      else if tagControl = kTLVTagControl_ImplicitProfile_4Bytes then
        (if implicitProfileId = kProfileIdNotSpecified then (UnknownImplicitTag, p)
         else let (t, p) = Read32 p in (ProfileTag implicitProfileId t, p))
      else if tagControl = kTLVTagControl_FullyQualified_6Bytes then
        (let (vendorId, p) = Read16 p; (profileNum, p) = Read16 p; (t, p) = Read16 p
         in (ProfileTag3 vendorId profileNum (ucast t), p))
      else if tagControl = kTLVTagControl_FullyQualified_8Bytes then
        (let (vendorId, p) = Read16 p; (profileNum, p) = Read16 p; (t, p) = Read32 p
         in (ProfileTag3 vendorId profileNum t, p))
      else (AnonymousTag, p))"

definition VerifyElement :: "TLVReader \<Rightarrow> WEAVE_ERROR" where
  "VerifyElement r =
     (let err =
        (if ElementType r = kTLVElementType_EndOfContainer then
           (if mContainerType r = kTLVType_NotSpecified then WEAVE_ERROR_INVALID_TLV_ELEMENT
            else if mElemTag r \<noteq> AnonymousTag then WEAVE_ERROR_INVALID_TLV_TAG
            else WEAVE_NO_ERROR)
         else if mElemTag r = UnknownImplicitTag then WEAVE_ERROR_UNKNOWN_IMPLICIT_TLV_TAG
         else if mContainerType r = kTLVType_NotSpecified then
           (if IsContextTag (mElemTag r) then WEAVE_ERROR_INVALID_TLV_TAG else WEAVE_NO_ERROR)
         else if mContainerType r = kTLVType_Structure \<or> mContainerType r = kTLVType_Path then
           (if mElemTag r = AnonymousTag then WEAVE_ERROR_INVALID_TLV_TAG else WEAVE_NO_ERROR)
         else if mContainerType r = kTLVType_Array then
           (if mElemTag r \<noteq> AnonymousTag then WEAVE_ERROR_INVALID_TLV_TAG else WEAVE_NO_ERROR)
         else if mContainerType r = kTLVType_UnknownContainer then WEAVE_NO_ERROR
         else WEAVE_ERROR_INCORRECT_STATE)
      in if err \<noteq> WEAVE_NO_ERROR then err
         else if TLVTypeHasLength (ElementType r) \<and>
                 mMaxLen r - mLenRead r < ucast (mElemLenOrVal r)
         then WEAVE_ERROR_TLV_UNDERRUN
         else WEAVE_NO_ERROR)"

text \<open>The length/value field of an element head, as the switch at the end of \<^verbatim>\<open>ReadElement\<close> reads it.\<close>

definition ReadLenOrVal :: "TLVFieldSize \<Rightarrow> u8 list \<Rightarrow> u64" where
  "ReadLenOrVal lenOrValFieldSize p =
     (if lenOrValFieldSize = kTLVFieldSize_1Byte then ucast (fst (Read8 p))
      else if lenOrValFieldSize = kTLVFieldSize_2Byte then ucast (fst (Read16 p))
      else if lenOrValFieldSize = kTLVFieldSize_4Byte then ucast (fst (Read32 p))
      else if lenOrValFieldSize = kTLVFieldSize_8Byte then fst (Read64 p)
      else 0)"

text \<open>
  The size of an element's head: the control byte, the tag, and the length or value field.
  \<^verbatim>\<open>ReadElement\<close> and \<^verbatim>\<open>GetElementHeadLength\<close> compute it the same way from the control byte.
\<close>

definition ElemHeadBytes :: "u16 \<Rightarrow> TLVElementType \<Rightarrow> nat" where
  "ElemHeadBytes controlByte elemType =
     (let tagControl = uint (controlByte AND 0xE0);
          tagBytes = sTagSizes ! nat (drop_bit 5 tagControl);
          lenOrValFieldSize = GetTLVFieldSize elemType;
          valOrLenBytes = TLVFieldSizeToBytes lenOrValFieldSize
      in 1 + tagBytes + valOrLenBytes)"

text \<open>
  The head is read into the staging buffer when it overlaps the end of the input buffer, and in
  place otherwise.
\<close>

definition ReadHead :: "nat \<Rightarrow> TLVReader \<Rightarrow> WEAVE_ERROR \<times> u8 list \<times> TLVReader" where
  "ReadHead elemHeadBytes r =
     (if elemHeadBytes > length (mInput r) then ReadData (of_nat elemHeadBytes) r
      else (WEAVE_NO_ERROR, take elemHeadBytes (mInput r),
            r\<lparr>mInput := drop elemHeadBytes (mInput r), mLenRead := mLenRead r + of_nat elemHeadBytes\<rparr>))"

text \<open>The tag and the length or value are taken from the head bytes that follow the control byte.\<close>

definition ParseHead :: "TLVElementType \<Rightarrow> u8 list \<Rightarrow> TLVReader \<Rightarrow> TLVReader" where
  "ParseHead elemType p r =
     (let tagControl = uint (mControlByte r AND 0xE0);
          (tag, p) = ReadTag (ImplicitProfileId r) tagControl (tl p)
      in r\<lparr>mElemTag := tag, mElemLenOrVal := ReadLenOrVal (GetTLVFieldSize elemType) p\<rparr>)"

definition ReadElement :: "TLVReader \<Rightarrow> WEAVE_ERROR \<times> TLVReader" where
  "ReadElement r =
     (case EnsureData WEAVE_END_OF_TLV r of (err, r1) \<Rightarrow>
      if err \<noteq> WEAVE_NO_ERROR then (err, r1)
      else if mReadPointStray r1 then (UNDEFINED_BEHAVIOR, r1)
      else
        let r2 = r1\<lparr>mControlByte := ucast (hd (mInput r1))\<rparr>;
            elemType = ElementType r2 in
        if \<not> IsValidTLVType elemType then (WEAVE_ERROR_INVALID_TLV_ELEMENT, r2)
        else case ReadHead (ElemHeadBytes (mControlByte r2) elemType) r2 of (err, p, r3) \<Rightarrow>
            if err \<noteq> WEAVE_NO_ERROR then (err, r3)
            else let r4 = ParseHead elemType p r3 in (VerifyElement r4, r4))"

text \<open>The head length of the element the reader is on.\<close>

definition GetElementHeadLength :: "TLVReader \<Rightarrow> WEAVE_ERROR \<times> nat option" where
  "GetElementHeadLength r =
     (let elemType = ElementType r in
      if \<not> IsValidTLVType elemType then (WEAVE_ERROR_INVALID_TLV_ELEMENT, None)
      else (WEAVE_NO_ERROR, Some (ElemHeadBytes (mControlByte r) elemType)))"

section \<open>Consumption: why the loops end\<close>

lemma avail_simps [simp]:
  "avail (r\<lparr>mControlByte := a\<rparr>) = avail r" "avail (r\<lparr>mElemTag := b\<rparr>) = avail r"
  "avail (r\<lparr>mElemLenOrVal := c\<rparr>) = avail r" "avail (r\<lparr>mContainerType := d\<rparr>) = avail r"
  "avail (r\<lparr>mContainerOpen := e\<rparr>) = avail r" "avail (r\<lparr>mLenRead := f\<rparr>) = avail r"
  by (simp_all add: avail_def)

lemma avail_advance:
  fixes n :: nat
  shows "avail (r\<lparr>mInput := drop n (mInput r), mLenRead := l\<rparr>) + min n (length (mInput r)) = avail r"
  by (auto simp: avail_def min_def)

lemma ReadData_avail: "ReadData len r = (err, bs, r') \<Longrightarrow> avail r' + length bs \<le> avail r"
proof (induction len r arbitrary: err bs r' rule: ReadData.induct)
  case (1 len r)
  show ?case
  proof (cases "len = 0")
    case True
    with "1.prems" show ?thesis by (simp add: ReadData.simps)
  next
    case False
    obtain e1 r1 where ens: "EnsureData WEAVE_ERROR_TLV_UNDERRUN r = (e1, r1)" by fastforce
    then have r1: "avail r1 \<le> avail r" by (rule EnsureData_avail)
    let ?n = "min (unat len) (length (mInput r1))"
    let ?r2 = "r1\<lparr>mInput := drop ?n (mInput r1), mLenRead := mLenRead r1 + of_nat ?n\<rparr>"
    obtain e3 cs r3 where rd: "ReadData (len - of_nat ?n) ?r2 = (e3, cs, r3)" by (metis prod_cases3)
    show ?thesis
    proof (cases "e1 = WEAVE_NO_ERROR \<and> \<not> mReadPointStray r1")
      case True
      have "avail r3 + length cs \<le> avail ?r2"
        by (rule "1.IH" [OF False ens [symmetric] _ _ refl refl rd]) (use True in auto)
      moreover have "avail ?r2 + ?n = avail r1"
        using avail_advance [where n = ?n and r = r1] by simp
      moreover have "r' = r3 \<and> length bs = ?n + length cs"
        using "1.prems" False ens True rd by (auto simp: ReadData.simps [of len r] Let_def)
      ultimately show ?thesis using r1 by simp
    next
      case False2: False
      with "1.prems" False ens r1 show ?thesis
        by (auto simp: ReadData.simps [of len r] split: if_splits)
    qed
  qed
qed

lemma ReadData_len: "ReadData len r = (WEAVE_NO_ERROR, bs, r') \<Longrightarrow> length bs = unat len"
proof (induction len r arbitrary: bs r' rule: ReadData.induct)
  case (1 len r)
  show ?case
  proof (cases "len = 0")
    case True
    with "1.prems" show ?thesis by (simp add: ReadData.simps)
  next
    case False
    obtain e1 r1 where ens: "EnsureData WEAVE_ERROR_TLV_UNDERRUN r = (e1, r1)" by fastforce
    with "1.prems" False have ok: "e1 = WEAVE_NO_ERROR" "\<not> mReadPointStray r1"
      by (auto simp: ReadData.simps [of len r] split: if_splits)
    let ?n = "min (unat len) (length (mInput r1))"
    let ?r2 = "r1\<lparr>mInput := drop ?n (mInput r1), mLenRead := mLenRead r1 + of_nat ?n\<rparr>"
    obtain e3 cs r3 where rd: "ReadData (len - of_nat ?n) ?r2 = (e3, cs, r3)" by (metis prod_cases3)
    have eq: "e3 = WEAVE_NO_ERROR" "bs = take ?n (mInput r1) @ cs"
      using "1.prems" False ens ok rd by (auto simp: ReadData.simps [of len r] Let_def)
    have "length cs = unat (len - of_nat ?n)"
      by (rule "1.IH" [OF False ens [symmetric] _ _ refl refl]) (use ok rd eq in auto)
    then show ?thesis using eq by (simp add: sub_of_nat_min_u32)
  qed
qed

lemma SkipData_avail: "SkipData r = (err, r') \<Longrightarrow> avail r' \<le> avail r"
  by (auto simp: SkipData_def dest!: ReadData_avail split: if_splits prod.splits)

lemma and_3_mod_4: "(x :: int) AND 3 = x mod 4"
  using take_bit_eq_mask [of 2 x] by (simp add: take_bit_eq_mod mask_eq_exp_minus_1)

lemma TLVFieldSizeToBytes_le: "TLVFieldSizeToBytes (GetTLVFieldSize ty) \<le> 8"
proof -
  have "nat (ty mod 256 mod 4) \<le> 3" by simp
  then have "(2 :: nat) ^ nat (ty mod 256 mod 4) \<le> 2 ^ 3" by (intro power_increasing) auto
  then show ?thesis by (simp add: TLVFieldSizeToBytes_def GetTLVFieldSize_def and_3_mod_4)
qed

lemma tag_control_index: "nat (drop_bit 5 (uint (cb AND 0xE0 :: u16))) < 8"
proof -
  have "cb AND 0xE0 \<le> 0xE0" by (rule word_and_le1)
  then have "uint (cb AND 0xE0) \<le> 0xE0" by (simp add: word_le_def)
  then have "drop_bit 5 (uint (cb AND 0xE0)) < 8" by (simp add: drop_bit_eq_div)
  then show ?thesis by linarith
qed

lemma ElemHeadBytes_bounds: "1 \<le> ElemHeadBytes cb ty" "ElemHeadBytes cb ty \<le> 17"
proof -
  have "sTagSizes ! i \<le> 8" if "i < 8" for i
  proof -
    have "\<forall>i < 8. sTagSizes ! i \<le> 8" unfolding sTagSizes_def by code_simp
    with that show ?thesis by blast
  qed
  from this [OF tag_control_index [of cb]] TLVFieldSizeToBytes_le [of ty]
  show "ElemHeadBytes cb ty \<le> 17" "1 \<le> ElemHeadBytes cb ty" by (simp_all add: ElemHeadBytes_def Let_def)
qed

lemma ReadHead_avail:
  assumes "ReadHead n r = (WEAVE_NO_ERROR, p, r')" "n < 2 ^ 32"
  shows "avail r' + n \<le> avail r"
proof (cases "n > length (mInput r)")
  case True
  with assms have rd: "ReadData (of_nat n) r = (WEAVE_NO_ERROR, p, r')" by (simp add: ReadHead_def)
  from ReadData_avail [OF rd] ReadData_len [OF rd] unat_of_nat_u32 [OF assms(2)] show ?thesis by simp
next
  case False
  with assms avail_advance [where n = n and r = r and l = "mLenRead r + of_nat n"] show ?thesis
    by (auto simp: ReadHead_def)
qed

lemma ReadElement_avail:
  assumes "ReadElement r = (WEAVE_NO_ERROR, r')"
  shows "avail r' < avail r"
proof -
  obtain e1 r1 where ens: "EnsureData WEAVE_END_OF_TLV r = (e1, r1)" by fastforce
  let ?r2 = "r1\<lparr>mControlByte := ucast (hd (mInput r1))\<rparr>"
  let ?n = "ElemHeadBytes (mControlByte ?r2) (ElementType ?r2)"
  obtain e3 p r3 where rd: "ReadHead ?n ?r2 = (e3, p, r3)" by (metis prod_cases3)
  have e3: "e3 = WEAVE_NO_ERROR" and r': "avail r' = avail r3"
    using assms ens rd
    by (auto simp: ReadElement_def ParseHead_def Let_def split: if_splits prod.splits)
  have "avail r3 + ?n \<le> avail ?r2"
    using rd [unfolded e3] by (rule ReadHead_avail) (rule le_less_trans [OF ElemHeadBytes_bounds(2)], simp)
  moreover have "1 \<le> ?n" by (rule ElemHeadBytes_bounds)
  moreover have "avail ?r2 = avail r1" by simp
  moreover have "avail r1 \<le> avail r" using ens by (rule EnsureData_avail)
  ultimately show ?thesis using r' by linarith
qed

section \<open>Moving through a container\<close>

text \<open>
  The loop of \<^verbatim>\<open>SkipToEndOfContainer\<close>.  Each level of nesting is opened by an element the
  reader consumed, so \<^verbatim>\<open>nestLevel\<close> stays below the number of bytes read and a natural number
  has the behaviour of the 32-bit counter.
\<close>

definition SkipLevel :: "TLVType \<Rightarrow> nat \<Rightarrow> TLVReader \<Rightarrow> nat \<times> TLVReader" where
  "SkipLevel outerContainerType nestLevel r =
     (let elemType = ElementType r in
      if elemType = kTLVElementType_EndOfContainer then
        (nestLevel - 1,
         r\<lparr>mContainerType := (if nestLevel - 1 = 0 then outerContainerType else kTLVType_UnknownContainer)\<rparr>)
      else if TLVTypeIsContainer elemType then (nestLevel + 1, r\<lparr>mContainerType := elemType\<rparr>)
      else (nestLevel, r))"

function SkipLoop :: "TLVType \<Rightarrow> nat \<Rightarrow> TLVReader \<Rightarrow> WEAVE_ERROR \<times> TLVReader" where
  "SkipLoop outerContainerType nestLevel r =
     (if ElementType r = kTLVElementType_EndOfContainer \<and> nestLevel = 0 then (WEAVE_NO_ERROR, r)
      else
        SuccessOrExit (SkipData (snd (SkipLevel outerContainerType nestLevel r))) (\<lambda>r2.
        SuccessOrExit (ReadElement r2) (\<lambda>r3.
        SkipLoop outerContainerType (fst (SkipLevel outerContainerType nestLevel r)) r3)))"
  by pat_completeness auto
termination
proof (relation "measure (\<lambda>(outer, nest, r). avail r)", goal_cases)
  case 1
  show ?case by simp
next
  case (2 outer nest r r2 r3)
  have "avail r3 < avail r2" using 2(3) by (rule ReadElement_avail)
  moreover have "avail r2 \<le> avail (snd (SkipLevel outer nest r))" using 2(2) by (rule SkipData_avail)
  moreover have "avail (snd (SkipLevel outer nest r)) = avail r"
    by (simp add: SkipLevel_def Let_def)
  ultimately show ?case by simp
qed

declare SkipLoop.simps [simp del]

lemma SkipLoop_stop [simp]:
  "ElementType r = kTLVElementType_EndOfContainer \<Longrightarrow> SkipLoop outer 0 r = (WEAVE_NO_ERROR, r)"
  by (simp add: SkipLoop.simps)

lemma SkipLoop_step:
  "\<not> (ElementType r = kTLVElementType_EndOfContainer \<and> nest = 0) \<Longrightarrow>
     SkipLoop outer nest r =
       SuccessOrExit (SkipData (snd (SkipLevel outer nest r))) (\<lambda>r2.
       SuccessOrExit (ReadElement r2) (\<lambda>r3. SkipLoop outer (fst (SkipLevel outer nest r)) r3))"
  by (subst SkipLoop.simps) auto

definition SkipToEndOfContainer :: "TLVReader \<Rightarrow> WEAVE_ERROR \<times> TLVReader" where
  "SkipToEndOfContainer r = SkipLoop (mContainerType r) 0 (r\<lparr>mContainerOpen := False\<rparr>)"

text \<open>\<^verbatim>\<open>EnterContainer\<close> and \<^verbatim>\<open>ExitContainer\<close>; the outer type is the value the caller keeps.\<close>

definition EnterContainer :: "TLVReader \<Rightarrow> WEAVE_ERROR \<times> TLVType option \<times> TLVReader" where
  "EnterContainer r =
     (let elemType = ElementType r in
      if \<not> TLVTypeIsContainer elemType then (WEAVE_ERROR_INCORRECT_STATE, None, r)
      else (WEAVE_NO_ERROR, Some (mContainerType r),
            (ClearElementState (r\<lparr>mContainerType := elemType\<rparr>))\<lparr>mContainerOpen := False\<rparr>))"

definition ExitContainer :: "TLVType \<Rightarrow> TLVReader \<Rightarrow> WEAVE_ERROR \<times> TLVReader" where
  "ExitContainer outerContainerType r =
     SuccessOrExit (SkipToEndOfContainer r) (\<lambda>r1.
       (WEAVE_NO_ERROR, ClearElementState (r1\<lparr>mContainerType := outerContainerType\<rparr>)))"

text \<open>\<^verbatim>\<open>OpenContainer\<close> returns the container reader beside the parent.\<close>

definition OpenContainer :: "TLVReader \<Rightarrow> WEAVE_ERROR \<times> TLVReader option \<times> TLVReader" where
  "OpenContainer r =
     (let elemType = ElementType r in
      if \<not> TLVTypeIsContainer elemType then (WEAVE_ERROR_INCORRECT_STATE, None, r)
      else (WEAVE_NO_ERROR,
            Some ((ClearElementState r)\<lparr>mContainerType := elemType, mContainerOpen := False\<rparr>),
            r\<lparr>mContainerOpen := True\<rparr>))"

definition CloseContainer :: "TLVReader \<Rightarrow> TLVReader \<Rightarrow> WEAVE_ERROR \<times> TLVReader \<times> TLVReader" where
  "CloseContainer containerReader r =
     (if \<not> mContainerOpen r then (WEAVE_ERROR_INCORRECT_STATE, containerReader, r)
      else if mContainerType containerReader \<noteq> ElementType r
        then (WEAVE_ERROR_INCORRECT_STATE, containerReader, r)
      else case SkipToEndOfContainer containerReader of (err, c) \<Rightarrow>
        if err \<noteq> WEAVE_NO_ERROR then (err, c, r)
        else (WEAVE_NO_ERROR, c,
          ClearElementState (r\<lparr>mBufHandle := mBufHandle c, mInput := mInput c,
            mReadPointStray := mReadPointStray c, mLenRead := mLenRead c, mMaxLen := mMaxLen c\<rparr>)))"

definition Skip :: "TLVReader \<Rightarrow> WEAVE_ERROR \<times> TLVReader" where
  "Skip r =
     (let elemType = ElementType r in
      if elemType = kTLVElementType_EndOfContainer then (WEAVE_END_OF_TLV, r)
      else if TLVTypeIsContainer elemType then
        (case EnterContainer r of
           (err, Some outerContainerType, r1) \<Rightarrow>
             if err \<noteq> WEAVE_NO_ERROR then (err, r1) else ExitContainer outerContainerType r1
         | (err, None, r1) \<Rightarrow> (err, r1))
      else SuccessOrExit (SkipData r) (\<lambda>r1. (WEAVE_NO_ERROR, ClearElementState r1)))"

definition Next :: "TLVReader \<Rightarrow> WEAVE_ERROR \<times> TLVReader" where
  "Next r =
     SuccessOrExit (Skip r) (\<lambda>r1.
     SuccessOrExit (ReadElement r1) (\<lambda>r2.
       if ElementType r2 = kTLVElementType_EndOfContainer then (WEAVE_END_OF_TLV, r2)
       else (WEAVE_NO_ERROR, r2)))"

definition Next_expect :: "TLVType \<Rightarrow> u64 \<Rightarrow> TLVReader \<Rightarrow> WEAVE_ERROR \<times> TLVReader" where
  "Next_expect expectedType expectedTag r =
     SuccessOrExit (Next r) (\<lambda>r1.
       if GetType r1 \<noteq> expectedType then (WEAVE_ERROR_WRONG_TLV_TYPE, r1)
       else if mElemTag r1 \<noteq> expectedTag then (WEAVE_ERROR_UNEXPECTED_TLV_ELEMENT, r1)
       else (WEAVE_NO_ERROR, r1))"

definition VerifyEndOfContainer :: "TLVReader \<Rightarrow> WEAVE_ERROR \<times> TLVReader" where
  "VerifyEndOfContainer r =
     (case Next r of (err, r1) \<Rightarrow>
        if err = WEAVE_END_OF_TLV then (WEAVE_NO_ERROR, r1)
        else if err = WEAVE_NO_ERROR then (WEAVE_ERROR_UNEXPECTED_TLV_ELEMENT, r1)
        else (err, r1))"

section \<open>Values\<close>

text \<open>
  The \<^verbatim>\<open>Get\<close> overloads.  An out-parameter the method does not assign keeps the value the caller
  passes; the narrower integer overloads start from a local 0 and truncate.
\<close>

definition Get_bool :: "TLVReader \<Rightarrow> bool \<Rightarrow> WEAVE_ERROR \<times> bool" where
  "Get_bool r v =
     (if ElementType r = kTLVElementType_BooleanFalse then (WEAVE_NO_ERROR, False)
      else if ElementType r = kTLVElementType_BooleanTrue then (WEAVE_NO_ERROR, True)
      else (WEAVE_ERROR_WRONG_TLV_TYPE, v))"

definition Get_u64 :: "TLVReader \<Rightarrow> u64 \<Rightarrow> WEAVE_ERROR \<times> u64" where
  "Get_u64 r v =
     (let elemType = ElementType r in
      if elemType = kTLVElementType_Int8 then (WEAVE_NO_ERROR, scast (ucast (mElemLenOrVal r) :: u8))
      else if elemType = kTLVElementType_Int16 then (WEAVE_NO_ERROR, scast (ucast (mElemLenOrVal r) :: u16))
      else if elemType = kTLVElementType_Int32 then (WEAVE_NO_ERROR, scast (ucast (mElemLenOrVal r) :: u32))
      else if elemType \<in> {kTLVElementType_Int64, kTLVElementType_UInt8, kTLVElementType_UInt16,
                         kTLVElementType_UInt32, kTLVElementType_UInt64}
        then (WEAVE_NO_ERROR, mElemLenOrVal r)
      else (WEAVE_ERROR_WRONG_TLV_TYPE, v))"

definition Get_i64 :: "TLVReader \<Rightarrow> WEAVE_ERROR \<times> u64" where
  "Get_i64 r = Get_u64 r 0"

text \<open>The signed overloads yield the same bits as the unsigned ones, read as two's complement.\<close>

definition Get_i8 :: "TLVReader \<Rightarrow> WEAVE_ERROR \<times> u8" where
  "Get_i8 r = (case Get_u64 r 0 of (err, v64) \<Rightarrow> (err, ucast v64))"

definition Get_i16 :: "TLVReader \<Rightarrow> WEAVE_ERROR \<times> u16" where
  "Get_i16 r = (case Get_u64 r 0 of (err, v64) \<Rightarrow> (err, ucast v64))"

definition Get_i32 :: "TLVReader \<Rightarrow> WEAVE_ERROR \<times> u32" where
  "Get_i32 r = (case Get_u64 r 0 of (err, v64) \<Rightarrow> (err, ucast v64))"

definition Get_u8 :: "TLVReader \<Rightarrow> WEAVE_ERROR \<times> u8" where
  "Get_u8 r = (case Get_u64 r 0 of (err, v64) \<Rightarrow> (err, ucast v64))"

definition Get_u16 :: "TLVReader \<Rightarrow> WEAVE_ERROR \<times> u16" where
  "Get_u16 r = (case Get_u64 r 0 of (err, v64) \<Rightarrow> (err, ucast v64))"

definition Get_u32 :: "TLVReader \<Rightarrow> WEAVE_ERROR \<times> u32" where
  "Get_u32 r = (case Get_u64 r 0 of (err, v64) \<Rightarrow> (err, ucast v64))"

text \<open>
  A floating point value is given by its bit pattern: the \<^verbatim>\<open>union\<close> of the source reinterprets the
  bits, and a single-precision value is then widened.
\<close>

datatype tlv_float = Float32 u32 | Float64 u64

definition Get_double :: "TLVReader \<Rightarrow> tlv_float \<Rightarrow> WEAVE_ERROR \<times> tlv_float" where
  "Get_double r v =
     (if ElementType r = kTLVElementType_FloatingPointNumber32
        then (WEAVE_NO_ERROR, Float32 (ucast (mElemLenOrVal r)))
      else if ElementType r = kTLVElementType_FloatingPointNumber64
        then (WEAVE_NO_ERROR, Float64 (mElemLenOrVal r))
      else (WEAVE_ERROR_WRONG_TLV_TYPE, v))"

text \<open>The bytes stored at the start of the caller's buffer are the second component.\<close>

definition GetBytes :: "u32 \<Rightarrow> TLVReader \<Rightarrow> WEAVE_ERROR \<times> u8 list \<times> TLVReader" where
  "GetBytes bufSize r =
     (if \<not> TLVTypeIsString (ElementType r) then (WEAVE_ERROR_WRONG_TLV_TYPE, [], r)
      else if mElemLenOrVal r > ucast bufSize then (WEAVE_ERROR_BUFFER_TOO_SMALL, [], r)
      else case ReadData (ucast (mElemLenOrVal r)) r of (err, bs, r1) \<Rightarrow>
        if err \<noteq> WEAVE_NO_ERROR then (err, bs, r1)
        else (WEAVE_NO_ERROR, bs, r1\<lparr>mElemLenOrVal := 0\<rparr>))"

text \<open>
  \<^verbatim>\<open>GetString\<close> stores the terminator at index \<^verbatim>\<open>mElemLenOrVal\<close> before it reads; the result is
  the string with its terminator.  An index outside the caller's buffer is undefined behaviour.
\<close>

definition GetString :: "u32 \<Rightarrow> TLVReader \<Rightarrow> WEAVE_ERROR \<times> u8 list \<times> TLVReader" where
  "GetString bufSize r =
     (if \<not> TLVTypeIsString (ElementType r) then (WEAVE_ERROR_WRONG_TLV_TYPE, [], r)
      else if mElemLenOrVal r + 1 > ucast bufSize then (WEAVE_ERROR_BUFFER_TOO_SMALL, [], r)
      else if mElemLenOrVal r \<ge> ucast bufSize then (UNDEFINED_BEHAVIOR, [], r)
      else case GetBytes (bufSize - 1) r of (err, bs, r1) \<Rightarrow>
        (err, (if err = WEAVE_NO_ERROR then bs @ [0] else bs), r1))"

text \<open>
  \<^verbatim>\<open>malloc\<close> is a parameter: whether a block of the given size can be had.  \<^verbatim>\<open>DupString\<close> reads
  the low 32 bits of the length and stores the terminator at the full length: where they differ
  the bytes in between are never written.
\<close>

definition DupBytes :: "(u64 \<Rightarrow> bool) \<Rightarrow> TLVReader \<Rightarrow> WEAVE_ERROR \<times> u8 list option \<times> TLVReader" where
  "DupBytes malloc r =
     (if \<not> TLVTypeIsString (ElementType r) then (WEAVE_ERROR_WRONG_TLV_TYPE, None, r)
      else if \<not> malloc (mElemLenOrVal r) then (WEAVE_ERROR_NO_MEMORY, None, r)
      else case ReadData (ucast (mElemLenOrVal r)) r of (err, bs, r1) \<Rightarrow>
        if err \<noteq> WEAVE_NO_ERROR then (err, None, r1)
        else (WEAVE_NO_ERROR, Some bs, r1\<lparr>mElemLenOrVal := 0\<rparr>))"

definition DupString :: "(u64 \<Rightarrow> bool) \<Rightarrow> TLVReader \<Rightarrow> WEAVE_ERROR \<times> u8 list option \<times> TLVReader" where
  "DupString malloc r =
     (if \<not> TLVTypeIsString (ElementType r) then (WEAVE_ERROR_WRONG_TLV_TYPE, None, r)
      else if \<not> malloc (mElemLenOrVal r + 1) then (WEAVE_ERROR_NO_MEMORY, None, r)
      else if mElemLenOrVal r \<ge> 0x100000000 then (UNDEFINED_BEHAVIOR, None, r)
      else case ReadData (ucast (mElemLenOrVal r)) r of (err, bs, r1) \<Rightarrow>
        if err \<noteq> WEAVE_NO_ERROR then (err, None, r1)
        else (WEAVE_NO_ERROR, Some (bs @ [0]), r1\<lparr>mElemLenOrVal := 0\<rparr>))"

text \<open>The pointer \<^verbatim>\<open>GetDataPtr\<close> returns is given by the bytes readable through it.\<close>

definition GetDataPtr :: "TLVReader \<Rightarrow> WEAVE_ERROR \<times> u8 list option \<times> TLVReader" where
  "GetDataPtr r =
     (if \<not> TLVTypeIsString (ElementType r) then (WEAVE_ERROR_WRONG_TLV_TYPE, None, r)
      else case EnsureData WEAVE_ERROR_TLV_UNDERRUN r of (err, r1) \<Rightarrow>
        if err \<noteq> WEAVE_NO_ERROR then (err, None, r1)
        else if mReadPointStray r1 then (UNDEFINED_BEHAVIOR, None, r1)
        else if length (mInput r1) < unat (ucast (mElemLenOrVal r1) :: u32)
          then (WEAVE_ERROR_TLV_UNDERRUN, None, r1)
        else (WEAVE_NO_ERROR, Some (mInput r1), r1))"

end
