(* ===== verification/TLV_Stream.thy ===== *)
theory TLV_Stream
  imports TLV_Reader
begin

text \<open>
  What a reader delivers does not depend on how its input is cut into buffers, as long as none of them is
  empty.  The bytes of the chain from the read point on, up to \<^verbatim>\<open>mMaxLen\<close>, form the reader's \<open>stream\<close>;
  \<open>flatten\<close> is the reader over one contiguous buffer that holds them, and the operations of the reader commute
  with it.  The invariant \<open>in_bounds\<close> says that the read point lies inside the input, that the input ends within
  \<^verbatim>\<open>mMaxLen\<close>, and that no buffer still to come is empty: \<^verbatim>\<open>EnsureData\<close> takes an empty buffer for the end of the chain.
\<close>

section \<open>The invariant and the abstraction\<close>

definition in_bounds :: "TLVReader \<Rightarrow> bool" where
  "in_bounds r \<longleftrightarrow> \<not> mReadPointStray r \<and> unat (mLenRead r) + length (mInput r) \<le> unat (mMaxLen r) \<and>
     (GetNextBuffer r = NoNextBuffer \<or> [] \<notin> set (tl (mBufHandle r)))"

definition rest_chain :: "TLVReader \<Rightarrow> u8 list" where
  "rest_chain r =
     (if GetNextBuffer r = NoNextBuffer then [] else concat (tl (mBufHandle r)))"

definition stream :: "TLVReader \<Rightarrow> u8 list" where
  "stream r = take (unat (mMaxLen r - mLenRead r)) (mInput r @ rest_chain r)"

definition flatten :: "TLVReader \<Rightarrow> TLVReader" where
  "flatten r = r\<lparr>mBufHandle := [], mInput := stream r, GetNextBuffer := NoNextBuffer\<rparr>"

definition advance :: "nat \<Rightarrow> TLVReader \<Rightarrow> TLVReader" where
  "advance n r = r\<lparr>mInput := drop n (mInput r), mLenRead := mLenRead r + of_nat n\<rparr>"

definition contiguous :: "TLVReader \<Rightarrow> bool" where
  "contiguous r \<longleftrightarrow> in_bounds r \<and> GetNextBuffer r = NoNextBuffer"

lemma advance_advance [simp]: "advance m (advance n r) = advance (n + m) r"
  by (simp add: advance_def add.commute add.left_commute)

lemma in_bounds_lenRead:
  assumes "in_bounds r"
  shows "mLenRead r \<le> mMaxLen r" "unat (mMaxLen r - mLenRead r) = unat (mMaxLen r) - unat (mLenRead r)"
proof -
  show "mLenRead r \<le> mMaxLen r" using assms by (simp add: in_bounds_def word_le_nat_alt)
  then show "unat (mMaxLen r - mLenRead r) = unat (mMaxLen r) - unat (mLenRead r)" by (rule unat_sub)
qed

lemma stream_unfold:
  "in_bounds r \<Longrightarrow> stream r = mInput r @
     take (unat (mMaxLen r) - unat (mLenRead r) - length (mInput r)) (rest_chain r)"
  using in_bounds_lenRead [of r] by (auto simp: stream_def in_bounds_def)

lemma length_stream: "in_bounds r \<Longrightarrow> unat (mLenRead r) + length (stream r) \<le> unat (mMaxLen r)"
  using in_bounds_lenRead [of r] by (auto simp: stream_def in_bounds_def min_def word_le_nat_alt)

lemma stream_contiguous: "contiguous r \<Longrightarrow> stream r = mInput r"
  by (simp add: contiguous_def stream_unfold rest_chain_def)

lemma flatten_contiguous: "contiguous r \<Longrightarrow> mBufHandle r = [] \<Longrightarrow> flatten r = r"
  by (simp add: flatten_def stream_contiguous) (simp add: contiguous_def)

lemma contiguous_flatten: "in_bounds r \<Longrightarrow> contiguous (flatten r)"
  using length_stream [of r] by (simp add: contiguous_def in_bounds_def flatten_def)

lemma unat_lenRead_advance:
  "\<lbrakk>in_bounds r; n \<le> length (mInput r)\<rbrakk> \<Longrightarrow> unat (mLenRead r + of_nat n) = unat (mLenRead r) + n"
proof -
  assume a: "in_bounds r" "n \<le> length (mInput r)"
  then have "unat (mLenRead r) + n \<le> unat (mMaxLen r)" by (simp add: in_bounds_def)
  then have "unat (mLenRead r) + n < 2 ^ 32" using unat_u32_less [of "mMaxLen r"] by simp
  moreover from this have "unat (of_nat n :: u32) = n" by (intro unat_of_nat_u32) simp
  ultimately show ?thesis using unat_add_u32 [of "mLenRead r" "of_nat n"] by simp
qed

lemma in_bounds_advance: "\<lbrakk>in_bounds r; n \<le> length (mInput r)\<rbrakk> \<Longrightarrow> in_bounds (advance n r)"
  using unat_lenRead_advance [of r n] by (simp add: in_bounds_def advance_def)

lemma flatten_advance:
  assumes "in_bounds r" "n \<le> length (mInput r)"
  shows "flatten (advance n r) = advance n (flatten r)"
proof -
  have "stream (advance n r) = drop n (stream r)"
    using assms stream_unfold [OF assms(1)] stream_unfold [OF in_bounds_advance [OF assms]]
      unat_lenRead_advance [OF assms]
    by (simp add: advance_def rest_chain_def)
  then show ?thesis by (simp add: flatten_def advance_def)
qed

lemma contiguous_simps [simp]:
  "in_bounds (r\<lparr>mControlByte := a\<rparr>) = in_bounds r" "in_bounds (r\<lparr>mElemTag := b\<rparr>) = in_bounds r"
  "in_bounds (r\<lparr>mElemLenOrVal := c\<rparr>) = in_bounds r" "in_bounds (r\<lparr>mContainerType := d\<rparr>) = in_bounds r"
  "in_bounds (r\<lparr>mContainerOpen := e\<rparr>) = in_bounds r"
  by (simp_all add: in_bounds_def)

lemma stream_updates [simp]:
  "stream (r\<lparr>mControlByte := a\<rparr>) = stream r" "stream (r\<lparr>mElemTag := b\<rparr>) = stream r"
  "stream (r\<lparr>mElemLenOrVal := c\<rparr>) = stream r" "stream (r\<lparr>mContainerType := d\<rparr>) = stream r"
  "stream (r\<lparr>mContainerOpen := e\<rparr>) = stream r"
  by (simp_all add: stream_def rest_chain_def)

lemma flatten_updates [simp]:
  "flatten (r\<lparr>mControlByte := a\<rparr>) = (flatten r)\<lparr>mControlByte := a\<rparr>"
  "flatten (r\<lparr>mElemTag := b\<rparr>) = (flatten r)\<lparr>mElemTag := b\<rparr>"
  "flatten (r\<lparr>mElemLenOrVal := c\<rparr>) = (flatten r)\<lparr>mElemLenOrVal := c\<rparr>"
  "flatten (r\<lparr>mContainerType := d\<rparr>) = (flatten r)\<lparr>mContainerType := d\<rparr>"
  "flatten (r\<lparr>mContainerOpen := e\<rparr>) = (flatten r)\<lparr>mContainerOpen := e\<rparr>"
  by (simp_all add: flatten_def)

lemma flatten_fields [simp]:
  "mControlByte (flatten r) = mControlByte r" "mElemTag (flatten r) = mElemTag r"
  "mElemLenOrVal (flatten r) = mElemLenOrVal r" "mContainerType (flatten r) = mContainerType r"
  "mContainerOpen (flatten r) = mContainerOpen r" "mLenRead (flatten r) = mLenRead r"
  "mMaxLen (flatten r) = mMaxLen r" "ImplicitProfileId (flatten r) = ImplicitProfileId r"
  "mReadPointStray (flatten r) = mReadPointStray r" "mInput (flatten r) = stream r"
  "ElementType (flatten r) = ElementType r"
  by (simp_all add: flatten_def ElementType_def)

section \<open>Reading raw data\<close>

lemma EnsureData_contiguous:
  "contiguous r \<Longrightarrow> EnsureData e r = (if mInput r = [] then e else WEAVE_NO_ERROR, r)"
  by (auto simp: contiguous_def in_bounds_def EnsureData_def)

text \<open>
  At the end of a chain the read point is a null pointer and no longer belongs to a buffer; \<open>settled\<close> disregards that.
\<close>

definition settled :: "TLVReader \<Rightarrow> TLVReader" where
  "settled r = r\<lparr>mReadPointStray := False\<rparr>"

lemma settled_in_bounds [simp]: "in_bounds r \<Longrightarrow> settled r = r"
  by (cases r) (simp add: in_bounds_def settled_def)

lemma settled_updates [simp]:
  "settled (r\<lparr>mControlByte := a\<rparr>) = (settled r)\<lparr>mControlByte := a\<rparr>"
  "settled (r\<lparr>mElemTag := b\<rparr>) = (settled r)\<lparr>mElemTag := b\<rparr>"
  "settled (r\<lparr>mElemLenOrVal := c\<rparr>) = (settled r)\<lparr>mElemLenOrVal := c\<rparr>"
  "settled (r\<lparr>mContainerType := d\<rparr>) = (settled r)\<lparr>mContainerType := d\<rparr>"
  "settled (r\<lparr>mContainerOpen := e\<rparr>) = (settled r)\<lparr>mContainerOpen := e\<rparr>"
  by (simp_all add: settled_def)

lemma EnsureData_stream:
  assumes "in_bounds r" "stream r \<noteq> []"
  obtains r' where "EnsureData e r = (WEAVE_NO_ERROR, r')" "in_bounds r'" "flatten r' = flatten r"
    "mInput r' \<noteq> []"
proof (cases "mInput r = []")
  case False
  with assms have "EnsureData e r = (WEAVE_NO_ERROR, r)" by (simp add: EnsureData_def)
  with False assms show ?thesis by (intro that) auto
next
  case True
  let ?k = "unat (mMaxLen r - mLenRead r)"
  from True assms have k: "?k \<noteq> 0" and rc: "rest_chain r \<noteq> []"
    by (auto simp: stream_def)
  then have g: "GetNextBuffer r = GetNextPacketBuffer" by (cases "GetNextBuffer r") (auto simp: rest_chain_def)
  obtain b bs where ch: "tl (mBufHandle r) = b # bs" using rc g by (cases "tl (mBufHandle r)") (auto simp: rest_chain_def)
  have ne: "b \<noteq> []" "[] \<notin> set bs" using assms(1) ch g by (auto simp: in_bounds_def)
  have h: "mBufHandle r \<noteq> []" using ch by auto
  let ?r' = "r\<lparr>mBufHandle := b # bs, mInput := take ?k b\<rparr>"
  have "mLenRead r \<noteq> mMaxLen r" using k by auto
  then have eq: "EnsureData e r = (WEAVE_NO_ERROR, ?r')"
    using True ch g h ne assms(1) by (auto simp: EnsureData_def NextPacketBuffer_def Let_def in_bounds_def)
  have ib: "in_bounds ?r'" using assms(1) in_bounds_lenRead [OF assms(1)] ne
    by (auto simp: in_bounds_def word_le_nat_alt min_def)
  have "stream ?r' = stream r"
    using True ch g in_bounds_lenRead [OF assms(1)]
    by (simp add: stream_def rest_chain_def take_take_append del: take_append)
  then show ?thesis using ne k by (intro that [OF eq ib]) (auto simp: flatten_def)
qed

lemma EnsureData_stream_Nil:
  assumes "in_bounds r" "stream r = []"
  obtains r' where "EnsureData e r = (e, r')" "in_bounds (settled r')" "flatten (settled r') = flatten r"
proof -
  have i: "mInput r = []" using assms by (simp add: stream_unfold)
  show ?thesis
  proof (cases "mLenRead r = mMaxLen r \<or> GetNextBuffer r = NoNextBuffer")
    case True
    then have "EnsureData e r = (e, r)" using i assms(1) by (auto simp: EnsureData_def in_bounds_def)
    then show ?thesis using assms(1) by (intro that [of r]) simp_all
  next
    case False
    then have k: "unat (mMaxLen r - mLenRead r) \<noteq> 0" by (auto simp: unat_eq_0)
    have g: "GetNextBuffer r = GetNextPacketBuffer" using False by (cases "GetNextBuffer r") auto
    have "concat (tl (mBufHandle r)) = []" using assms(2) i k g by (auto simp: stream_def rest_chain_def)
    then have "tl (mBufHandle r) = []" using assms(1) g by (cases "tl (mBufHandle r)") (auto simp: in_bounds_def)
    then have "NextPacketBuffer (mBufHandle r) = ([], [])" by (cases "mBufHandle r") (auto simp: NextPacketBuffer_def)
    then have eq: "EnsureData e r = (e, r\<lparr>mBufHandle := [], mReadPointStray := True\<rparr>)"
      using False i g assms(1) by (simp add: EnsureData_def in_bounds_def)
    have "stream (settled (r\<lparr>mBufHandle := [], mReadPointStray := True\<rparr>)) = []"
      using i by (simp add: stream_def settled_def rest_chain_def)
    then show ?thesis using assms i by (intro that [OF eq]) (auto simp: in_bounds_def settled_def flatten_def)
  qed
qed

lemma ReadData_contiguous_ok:
  "\<lbrakk>contiguous r; unat len \<le> length (mInput r)\<rbrakk> \<Longrightarrow>
     ReadData len r = (WEAVE_NO_ERROR, take (unat len) (mInput r), advance (unat len) r)"
  by (cases "len = 0")
    (auto simp: ReadData.simps [of len] ReadData.simps [of 0] EnsureData_contiguous Let_def min_def
      advance_def contiguous_def in_bounds_def unat_eq_0)

lemma contiguous_advance: "\<lbrakk>contiguous r; n \<le> length (mInput r)\<rbrakk> \<Longrightarrow> contiguous (advance n r)"
  using in_bounds_advance [of r n] by (simp add: contiguous_def) (simp add: advance_def)

lemma contiguous_not_stray: "contiguous r \<Longrightarrow> \<not> mReadPointStray r"
  by (simp add: contiguous_def in_bounds_def)

lemma ReadData_contiguous_short:
  assumes "contiguous r" "length (mInput r) < unat len"
  shows "ReadData len r = (WEAVE_ERROR_TLV_UNDERRUN, mInput r, advance (length (mInput r)) r)"
proof -
  have empty: "ReadData n q = (WEAVE_ERROR_TLV_UNDERRUN, [], q)" if "contiguous q" "mInput q = []" "n \<noteq> 0" for n q
    using that by (simp add: ReadData.simps [of n] EnsureData_contiguous)
  have nz: "len \<noteq> 0" using assms(2) by auto
  show ?thesis
  proof (cases "mInput r = []")
    case True
    then show ?thesis using empty [OF assms(1) True nz] by (simp add: advance_def)
  next
    case False
    let ?n = "length (mInput r)"
    let ?r1 = "advance ?n r"
    have c: "contiguous ?r1" using assms(1) by (rule contiguous_advance) simp
    have i: "mInput ?r1 = []" by (simp add: advance_def)
    have "unat (len - of_nat ?n) \<noteq> 0"
      using sub_of_nat_min_u32 [of len ?n] assms(2) by simp
    then have "ReadData (len - of_nat ?n) ?r1 = (WEAVE_ERROR_TLV_UNDERRUN, [], ?r1)"
      by (intro empty [OF c i]) auto
    then show ?thesis using False nz assms contiguous_not_stray [OF assms(1)]
      by (simp add: ReadData.simps [of len] EnsureData_contiguous Let_def advance_def [symmetric] min_def)
  qed
qed

lemma ReadData_stream:
  assumes "in_bounds r" "unat len \<le> length (stream r)"
  obtains r' where "ReadData len r = (WEAVE_NO_ERROR, take (unat len) (stream r), r')"
    "in_bounds r'" "flatten r' = advance (unat len) (flatten r)"
  using assms
proof (induction len r arbitrary: thesis rule: ReadData.induct)
  case (1 len r)
  show ?case
  proof (cases "len = 0")
    case True
    with "1.prems" show ?thesis by (simp add: ReadData.simps advance_def)
  next
    case False
    then have "stream r \<noteq> []" using "1.prems"(3) by (auto simp: unat_eq_0)
    then obtain r1 where ens: "EnsureData WEAVE_ERROR_TLV_UNDERRUN r = (WEAVE_NO_ERROR, r1)"
      and r1: "in_bounds r1" "flatten r1 = flatten r" "mInput r1 \<noteq> []"
      using EnsureData_stream "1.prems"(2) by blast
    have st: "stream r1 = stream r" using arg_cong [OF r1(2), of mInput] by simp
    let ?n = "min (unat len) (length (mInput r1))"
    have stray: "\<not> mReadPointStray r1" using r1 by (simp add: in_bounds_def)
    have n: "?n \<le> length (mInput r1)" by simp
    note ib = in_bounds_advance [OF r1(1) n] and fa = flatten_advance [OF r1(1) n]
    have sa: "stream (advance ?n r1) = drop ?n (stream r)"
      using arg_cong [OF fa, of mInput] st by (simp add: advance_def)
    obtain r3 where rd: "ReadData (len - of_nat ?n) (advance ?n r1) =
        (WEAVE_NO_ERROR, take (unat (len - of_nat ?n)) (stream (advance ?n r1)), r3)"
      and r3: "in_bounds r3" "flatten r3 = advance (unat (len - of_nat ?n)) (flatten (advance ?n r1))"
      by (rule "1.IH" [OF False ens [symmetric] _ stray refl advance_def])
        (use ib sa "1.prems"(3) in \<open>auto simp: sub_of_nat_min_u32\<close>)
    have tk: "take ?n (mInput r1) = take ?n (stream r)"
      using r1(1) by (simp add: stream_unfold flip: st)
    have "ReadData len r = (WEAVE_NO_ERROR, take (unat len) (stream r), r3)"
      using False ens stray rd sa tk
      by (simp add: ReadData.simps [of len r] Let_def advance_def [symmetric] sub_of_nat_min_u32 take_add [symmetric])
    moreover have "flatten r3 = advance (unat len) (flatten r)"
      using r3 r1(2) fa by (simp add: sub_of_nat_min_u32)
    ultimately show ?thesis using r3 "1.prems"(1) by blast
  qed
qed

lemma ReadData_underrun:
  assumes "in_bounds r" "length (stream r) < unat len"
  shows "\<exists>r'. ReadData len r = (WEAVE_ERROR_TLV_UNDERRUN, stream r, r') \<and> in_bounds (settled r') \<and>
    flatten (settled r') = advance (length (stream r)) (flatten r)"
  using assms
proof (induction len r rule: ReadData.induct)
  case (1 len r)
  have nz: "len \<noteq> 0" using "1.prems"(2) by auto
  show ?case
  proof (cases "stream r = []")
    case True
    obtain r' where "EnsureData WEAVE_ERROR_TLV_UNDERRUN r = (WEAVE_ERROR_TLV_UNDERRUN, r')" "in_bounds (settled r')"
      "flatten (settled r') = flatten r" by (rule EnsureData_stream_Nil [OF "1.prems"(1) True])
    with nz True show ?thesis by (simp add: ReadData.simps [of len r] advance_def)
  next
    case False
    then obtain r1 where ens: "EnsureData WEAVE_ERROR_TLV_UNDERRUN r = (WEAVE_NO_ERROR, r1)"
      and r1: "in_bounds r1" "flatten r1 = flatten r"
      using EnsureData_stream "1.prems"(1) by blast
    have st: "stream r1 = stream r" using arg_cong [OF r1(2), of mInput] by simp
    let ?n = "min (unat len) (length (mInput r1))"
    have stray: "\<not> mReadPointStray r1" using r1 by (simp add: in_bounds_def)
    have n: "?n \<le> length (mInput r1)" by simp
    note ib = in_bounds_advance [OF r1(1) n] and fa = flatten_advance [OF r1(1) n]
    have le: "length (mInput r1) \<le> length (stream r)" using r1(1) by (simp add: stream_unfold flip: st)
    then have n1: "?n = length (mInput r1)" using "1.prems"(2) by simp
    have sa: "stream (advance ?n r1) = drop ?n (stream r)"
      using arg_cong [OF fa, of mInput] st by (simp add: advance_def)
    with le have "length (stream (advance ?n r1)) < unat (len - of_nat ?n)"
      unfolding sub_of_nat_min_u32 using "1.prems"(2) by simp
    then obtain r' where r': "ReadData (len - of_nat ?n) (advance ?n r1) = (WEAVE_ERROR_TLV_UNDERRUN, stream (advance ?n r1), r')"
      "in_bounds (settled r')" "flatten (settled r') = advance (length (stream (advance ?n r1))) (flatten (advance ?n r1))"
      using "1.IH" [OF nz ens [symmetric] _ stray refl advance_def ib] by auto
    have "take ?n (mInput r1) = take ?n (stream r)" using r1(1) by (simp add: stream_unfold flip: st)
    then have "ReadData len r = (WEAVE_ERROR_TLV_UNDERRUN, stream r, r')"
      using nz ens stray r'(1) sa by (simp add: ReadData.simps [of len r] Let_def advance_def [symmetric])
    moreover have "flatten (settled r') = advance (length (stream r)) (flatten r)"
      using r'(3) fa r1(2) sa le n1 by simp
    ultimately show ?thesis using r'(2) by blast
  qed
qed

text \<open>Both cases: what is read, and where the reader stands.\<close>

lemma ReadData_sim:
  assumes "in_bounds r"
  obtains r' where
    "ReadData len r = (if unat len \<le> length (stream r) then WEAVE_NO_ERROR else WEAVE_ERROR_TLV_UNDERRUN, take (unat len) (stream r), r')"
    "ReadData len (flatten r) =
       (if unat len \<le> length (stream r) then WEAVE_NO_ERROR else WEAVE_ERROR_TLV_UNDERRUN, take (unat len) (stream r), flatten (settled r'))"
    "in_bounds (settled r')" "unat len \<le> length (stream r) \<longrightarrow> in_bounds r'"
proof (cases "unat len \<le> length (stream r)")
  case True
  obtain r' where "ReadData len r = (WEAVE_NO_ERROR, take (unat len) (stream r), r')" "in_bounds r'"
    "flatten r' = advance (unat len) (flatten r)" using True by (rule ReadData_stream [OF assms])
  then show ?thesis
    using True ReadData_contiguous_ok [OF contiguous_flatten [OF assms], of len] by (intro that [of r']) simp_all
next
  case False
  then have l: "length (stream r) < unat len" by simp
  obtain r' where r': "ReadData len r = (WEAVE_ERROR_TLV_UNDERRUN, stream r, r')" "in_bounds (settled r')"
    "flatten (settled r') = advance (length (stream r)) (flatten r)" using ReadData_underrun [OF assms l] by blast
  have c: "contiguous (flatten r)" using assms by (rule contiguous_flatten)
  then have l': "length (mInput (flatten r)) < unat len" using l by simp
  show ?thesis using l r' ReadData_contiguous_short [OF c l'] by (intro that [of r']) simp_all
qed

section \<open>Elements\<close>

text \<open>The simulation relation between a reader and its contiguous counterpart, after one operation.\<close>

definition agrees :: "WEAVE_ERROR \<times> TLVReader \<Rightarrow> WEAVE_ERROR \<times> TLVReader \<Rightarrow> bool" where
  "agrees res flat \<longleftrightarrow> fst res = fst flat \<and> in_bounds (settled (snd res)) \<and> snd flat = flatten (settled (snd res))"

definition sim :: "WEAVE_ERROR \<times> TLVReader \<Rightarrow> WEAVE_ERROR \<times> TLVReader \<Rightarrow> bool" where
  "sim res flat \<longleftrightarrow> agrees res flat \<and> (fst res = WEAVE_NO_ERROR \<longrightarrow> in_bounds (snd res))"

lemma simI: "in_bounds r \<Longrightarrow> sim (err, r) (err, flatten r)"
  by (simp add: sim_def agrees_def)

lemma sim_SuccessOrExit:
  assumes "sim res flat" "\<And>r. \<lbrakk>res = (WEAVE_NO_ERROR, r); in_bounds r\<rbrakk> \<Longrightarrow> sim (k r) (k' (flatten r))"
  shows "sim (SuccessOrExit res k) (SuccessOrExit flat k')"
  using assms by (cases res; cases flat) (auto simp: sim_def agrees_def SuccessOrExit_pair)

lemma ReadHead_contiguous:
  "n \<le> length (mInput r) \<Longrightarrow> ReadHead n r = (WEAVE_NO_ERROR, take n (mInput r), advance n r)"
  by (simp add: ReadHead_def advance_def)

lemma ReadHead_sim:
  assumes "in_bounds r" "n < 2 ^ 32"
  obtains err r' where "ReadHead n r = (err, take n (stream r), r')" "ReadHead n (flatten r) = (err, take n (stream r), flatten (settled r'))"
    "in_bounds (settled r')" "err = WEAVE_NO_ERROR \<longrightarrow> in_bounds r'"
proof (cases "n > length (mInput r)")
  case True
  note n = unat_of_nat_u32 [OF assms(2)]
  obtain r' where r':
    "ReadData (of_nat n) r = (if n \<le> length (stream r) then WEAVE_NO_ERROR else WEAVE_ERROR_TLV_UNDERRUN, take n (stream r), r')"
    "ReadData (of_nat n) (flatten r) =
       (if n \<le> length (stream r) then WEAVE_NO_ERROR else WEAVE_ERROR_TLV_UNDERRUN, take n (stream r), flatten (settled r'))"
    "in_bounds (settled r')" "n \<le> length (stream r) \<longrightarrow> in_bounds r'"
    using ReadData_sim [OF assms(1), of "of_nat n"] n by metis
  show ?thesis
  proof (cases "n \<le> length (stream r)")
    case le: True
    then have "ReadHead n (flatten r) = (WEAVE_NO_ERROR, take n (stream r), advance n (flatten r))"
      using ReadHead_contiguous [of n "flatten r"] by simp
    moreover have "flatten (settled r') = advance n (flatten r)"
      using r'(2) le n ReadData_contiguous_ok [OF contiguous_flatten [OF assms(1)], of "of_nat n"] by simp
    ultimately show ?thesis using True le r' by (intro that [of WEAVE_NO_ERROR r']) (simp_all add: ReadHead_def)
  next
    case False
    then show ?thesis using True r' by (intro that [of WEAVE_ERROR_TLV_UNDERRUN r']) (simp_all add: ReadHead_def)
  qed
next
  case False
  then have n: "n \<le> length (mInput r)" by simp
  then have le: "n \<le> length (stream r)" "take n (stream r) = take n (mInput r)"
    using assms(1) by (auto simp: stream_unfold)
  have ib: "in_bounds (advance n r)" using assms(1) n by (rule in_bounds_advance)
  show ?thesis
    using ib ReadHead_contiguous [OF n] ReadHead_contiguous [of n "flatten r"] le flatten_advance [OF assms(1) n]
    by (intro that [of WEAVE_NO_ERROR "advance n r"]) simp_all
qed

lemma VerifyElement_flatten [simp]: "VerifyElement (flatten r) = VerifyElement r"
  by (simp add: VerifyElement_def)

lemma stream_flatten [simp]: "in_bounds r \<Longrightarrow> stream (flatten r) = stream r"
  using stream_contiguous [OF contiguous_flatten] by simp

lemma ElementType_updates [simp]:
  "ElementType (r\<lparr>mInput := a\<rparr>) = ElementType r" "ElementType (r\<lparr>mContainerType := b\<rparr>) = ElementType r"
  "ElementType (r\<lparr>mContainerOpen := c\<rparr>) = ElementType r" "ElementType (r\<lparr>mLenRead := d\<rparr>) = ElementType r"
  "ElementType (r\<lparr>mElemTag := e\<rparr>) = ElementType r" "ElementType (r\<lparr>mElemLenOrVal := f\<rparr>) = ElementType r"
  by (simp_all add: ElementType_def)

lemma ParseHead_flatten [simp]:
  "ParseHead ty p (flatten r) = flatten (ParseHead ty p r)"
  "in_bounds (ParseHead ty p r) = in_bounds r"
  by (simp_all add: ParseHead_def Let_def split: prod.splits)

lemma ReadElement_sim:
  assumes "in_bounds r"
  shows "sim (ReadElement r) (ReadElement (flatten r))"
proof (cases "stream r = []")
  case True
  obtain r' where "EnsureData WEAVE_END_OF_TLV r = (WEAVE_END_OF_TLV, r')" "in_bounds (settled r')" "flatten (settled r') = flatten r"
    by (rule EnsureData_stream_Nil [OF assms True])
  then show ?thesis
    using True EnsureData_contiguous [OF contiguous_flatten [OF assms], of WEAVE_END_OF_TLV] by (simp add: ReadElement_def sim_def agrees_def)
next
  case False
  then obtain r1 where ens: "EnsureData WEAVE_END_OF_TLV r = (WEAVE_NO_ERROR, r1)"
    and r1: "in_bounds r1" "flatten r1 = flatten r" "mInput r1 \<noteq> []"
    using EnsureData_stream assms by blast
  have st: "stream r1 = stream r" using arg_cong [OF r1(2), of mInput] by simp
  have hd: "hd (mInput r1) = hd (stream r)" using r1 by (simp add: stream_unfold flip: st)
  have ens': "EnsureData WEAVE_END_OF_TLV (flatten r) = (WEAVE_NO_ERROR, flatten r)"
    using EnsureData_contiguous [OF contiguous_flatten [OF assms]] False by simp
  have stray: "\<not> mReadPointStray r1" "\<not> mReadPointStray r"
    using r1 assms by (auto simp: in_bounds_def)
  let ?cb = "ucast (hd (stream r)) :: u16"
  define r2 where "r2 = r1\<lparr>mControlByte := ?cb\<rparr>"
  have r2: "in_bounds r2" "flatten r2 = (flatten r)\<lparr>mControlByte := ?cb\<rparr>"
    "stream r2 = stream r" "mControlByte r2 = ?cb"
    using r1 st by (simp_all add: r2_def)
  define n where "n = ElemHeadBytes ?cb (ElementType r2)"
  have n: "n < 2 ^ 32" unfolding n_def by (rule le_less_trans [OF ElemHeadBytes_bounds(2)]) simp
  have ett: "ElementType ((flatten r)\<lparr>mControlByte := ?cb\<rparr>) = ElementType r2"
    by (simp add: ElementType_def r2(4))
  show ?thesis
  proof (cases "IsValidTLVType (ElementType r2)")
    case invalid: False
    then show ?thesis using ens ens' stray hd r2(1,2)
      by (simp add: ReadElement_def sim_def agrees_def Let_def ett r2_def [symmetric])
  next
    case valid: True
    obtain err r3 where r3: "ReadHead n r2 = (err, take n (stream r2), r3)" "ReadHead n (flatten r2) = (err, take n (stream r2), flatten (settled r3))"
      "in_bounds (settled r3)" "err = WEAVE_NO_ERROR \<longrightarrow> in_bounds r3" by (rule ReadHead_sim [OF r2(1) n])
    have R: "ReadElement r = (if err \<noteq> WEAVE_NO_ERROR then (err, r3)
        else (VerifyElement (ParseHead (ElementType r2) (take n (stream r2)) r3), ParseHead (ElementType r2) (take n (stream r2)) r3))"
      using ens stray hd valid r3(1) r2(4) by (simp add: ReadElement_def Let_def r2_def [symmetric] n_def [symmetric])
    have F: "ReadElement (flatten r) = (if err \<noteq> WEAVE_NO_ERROR then (err, flatten (settled r3))
        else (VerifyElement (ParseHead (ElementType r2) (take n (stream r2)) (flatten (settled r3))),
              ParseHead (ElementType r2) (take n (stream r2)) (flatten (settled r3))))"
      using ens' stray valid r3(2) ett r2(2) by (simp add: ReadElement_def Let_def n_def [symmetric])
    show ?thesis
    proof (cases "err = WEAVE_NO_ERROR")
      case True
      then show ?thesis using R F r3 by (simp add: sim_def agrees_def)
    next
      case False
      then show ?thesis using R F r3 by (simp add: sim_def agrees_def)
    qed
  qed
qed

lemma SkipData_sim:
  assumes "in_bounds r"
  shows "sim (SkipData r) (SkipData (flatten r))"
proof (cases "TLVTypeHasLength (ElementType r)")
  case False
  with assms show ?thesis by (simp add: SkipData_def sim_def agrees_def)
next
  case True
  obtain r' where "ReadData (ucast (mElemLenOrVal r)) r = (if unat (ucast (mElemLenOrVal r) :: u32) \<le> length (stream r)
      then WEAVE_NO_ERROR else WEAVE_ERROR_TLV_UNDERRUN, take (unat (ucast (mElemLenOrVal r) :: u32)) (stream r), r')"
    "ReadData (ucast (mElemLenOrVal r)) (flatten r) = (if unat (ucast (mElemLenOrVal r) :: u32) \<le> length (stream r)
      then WEAVE_NO_ERROR else WEAVE_ERROR_TLV_UNDERRUN, take (unat (ucast (mElemLenOrVal r) :: u32)) (stream r), flatten (settled r'))"
    "in_bounds (settled r')" "unat (ucast (mElemLenOrVal r) :: u32) \<le> length (stream r) \<longrightarrow> in_bounds r'"
    by (rule ReadData_sim [OF assms, of "ucast (mElemLenOrVal r)"])
  then show ?thesis using True by (simp add: SkipData_def sim_def agrees_def)
qed

section \<open>Containers and the cursor\<close>

lemma SkipLevel_flatten:
  "fst (SkipLevel outer nest (flatten r)) = fst (SkipLevel outer nest r)"
  "snd (SkipLevel outer nest (flatten r)) = flatten (snd (SkipLevel outer nest r))"
  "in_bounds r \<Longrightarrow> in_bounds (snd (SkipLevel outer nest r))"
  by (simp_all add: SkipLevel_def Let_def)

lemma SkipLoop_sim: "in_bounds r \<Longrightarrow> sim (SkipLoop outer nest r) (SkipLoop outer nest (flatten r))"
proof (induction outer nest r rule: SkipLoop.induct)
  case (1 outer nest r)
  show ?case
  proof (cases "ElementType r = kTLVElementType_EndOfContainer \<and> nest = 0")
    case True
    with "1.prems" show ?thesis by (simp add: SkipLoop.simps sim_def agrees_def)
  next
    case False
    let ?r1 = "snd (SkipLevel outer nest r)" and ?n1 = "fst (SkipLevel outer nest r)"
    let ?k = "\<lambda>r2. SuccessOrExit (ReadElement r2) (\<lambda>r3. SkipLoop outer ?n1 r3)"
    have "sim (SuccessOrExit (SkipData ?r1) ?k) (SuccessOrExit (SkipData (flatten ?r1)) ?k)"
    proof (rule sim_SuccessOrExit)
      show "sim (SkipData ?r1) (SkipData (flatten ?r1))"
        using "1.prems" by (intro SkipData_sim SkipLevel_flatten)
    next
      fix r2 assume sd: "SkipData ?r1 = (WEAVE_NO_ERROR, r2)" "in_bounds r2"
      show "sim (?k r2) (?k (flatten r2))"
        by (rule sim_SuccessOrExit [OF ReadElement_sim [OF sd(2)]]) (rule "1.IH" [OF False sd(1)])
    qed
    then show ?thesis using False
      by (simp add: SkipLoop_step [of r] SkipLoop_step [of "flatten r"] SkipLevel_flatten)
  qed
qed

lemma ClearElementState_flatten [simp]:
  "flatten (ClearElementState r) = ClearElementState (flatten r)"
  "in_bounds (ClearElementState r) = in_bounds r"
  by (simp_all add: ClearElementState_def)

lemma SkipToEndOfContainer_sim:
  "in_bounds r \<Longrightarrow> sim (SkipToEndOfContainer r) (SkipToEndOfContainer (flatten r))"
  using SkipLoop_sim [of "r\<lparr>mContainerOpen := False\<rparr>"] by (simp add: SkipToEndOfContainer_def)

lemma ExitContainer_sim: "in_bounds r \<Longrightarrow> sim (ExitContainer outer r) (ExitContainer outer (flatten r))"
  unfolding ExitContainer_def
  by (rule sim_SuccessOrExit [OF SkipToEndOfContainer_sim]) (auto simp: sim_def agrees_def)

lemma Skip_sim:
  assumes "in_bounds r"
  shows "sim (Skip r) (Skip (flatten r))"
proof -
  have "sim (SuccessOrExit (SkipData r) (\<lambda>r1. (WEAVE_NO_ERROR, ClearElementState r1)))
      (SuccessOrExit (SkipData (flatten r)) (\<lambda>r1. (WEAVE_NO_ERROR, ClearElementState r1)))"
    by (rule sim_SuccessOrExit [OF SkipData_sim [OF assms]]) (simp add: sim_def agrees_def)
  moreover have "sim (ExitContainer outer (ClearElementState (r\<lparr>mContainerType := t\<rparr>)\<lparr>mContainerOpen := False\<rparr>))
      (ExitContainer outer (ClearElementState ((flatten r)\<lparr>mContainerType := t\<rparr>)\<lparr>mContainerOpen := False\<rparr>))"
    for outer t
    using ExitContainer_sim [of "ClearElementState (r\<lparr>mContainerType := t\<rparr>)\<lparr>mContainerOpen := False\<rparr>" outer]
      assms by simp
  ultimately show ?thesis using assms
    by (simp add: Skip_def EnterContainer_def Let_def sim_def agrees_def)
qed

lemma Next_sim:
  assumes "in_bounds r"
  shows "sim (Next r) (Next (flatten r))"
  unfolding Next_def
proof (rule sim_SuccessOrExit [OF Skip_sim [OF assms]])
  fix r1 assume "in_bounds r1"
  then show "sim (SuccessOrExit (ReadElement r1) (\<lambda>r2. if ElementType r2 = kTLVElementType_EndOfContainer
        then (WEAVE_END_OF_TLV, r2) else (WEAVE_NO_ERROR, r2)))
      (SuccessOrExit (ReadElement (flatten r1)) (\<lambda>r2. if ElementType r2 = kTLVElementType_EndOfContainer
        then (WEAVE_END_OF_TLV, r2) else (WEAVE_NO_ERROR, r2)))"
    by (intro sim_SuccessOrExit ReadElement_sim) (auto simp: sim_def agrees_def)
qed

end
