(* ===== verification/TLV_Writer.thy ===== *)
theory TLV_Writer
  imports TLV_Reader
begin

text \<open>
  The encoder \<^verbatim>\<open>TLVWriter\<close> of \<^verbatim>\<open>src/src/lib/core/WeaveTLVWriter.cpp\<close>.

  \<open>mOut\<close> holds the bytes between \<^verbatim>\<open>mBufStart\<close> and \<^verbatim>\<open>mWritePoint\<close>, \<open>mDone\<close> the data of the
  buffers of a chain the writer has filled and left.  \<^verbatim>\<open>GetNewBuffer\<close> is NULL (\<open>None\<close>) or
  \<^verbatim>\<open>GetNewPacketBuffer\<close>, together with the \<^verbatim>\<open>MaxDataLength\<close> of the buffers it is going to
  deliver, in order: the ones already linked behind the first and the ones
  \<^verbatim>\<open>PacketBuffer::New\<close> can still allocate.  An empty list is the state in which that
  allocation returns NULL.  \<open>mCommitted\<close> is the data the buffers' own lengths expose, which
  \<^verbatim>\<open>FinalizePacketBuffer\<close> updates; \<open>FinalizeBuffer\<close> says whether it is installed.

  Every operation returns the error code and the writer as it is left, errors included.  The
  result is an option, and \<open>None\<close> stands for a call that does not return.
\<close>

section \<open>State\<close>

record TLVWriter =
  mDone :: "u8 list list"
  mOut :: "u8 list"
  mCommitted :: "u8 list list"
  mRemainingLen :: u32
  mLenWritten :: u32
  mWMaxLen :: u32
  mWContainerType :: TLVType
  mWContainerOpen :: bool
  mCloseContainerReserved :: bool
  WImplicitProfileId :: u32
  GetNewBuffer :: "u32 list option"
  FinalizeBuffer :: bool

type_synonym write_result = "(WEAVE_ERROR \<times> TLVWriter) option"

definition Writer_Init_buf :: "u32 \<Rightarrow> TLVWriter" where
  "Writer_Init_buf maxLen =
     \<lparr>mDone = [], mOut = [], mCommitted = [], mRemainingLen = maxLen, mLenWritten = 0, mWMaxLen = maxLen,
      mWContainerType = kTLVType_NotSpecified, mWContainerOpen = False, mCloseContainerReserved = True,
      WImplicitProfileId = kProfileIdNotSpecified, GetNewBuffer = None, FinalizeBuffer = False\<rparr>"

text \<open>
  \<^verbatim>\<open>Init(PacketBuffer *, uint32_t, bool)\<close>: \<open>avail_len\<close> is the first buffer's
  \<^verbatim>\<open>AvailableDataLength()\<close>; without discontiguous buffers it is \<^verbatim>\<open>Init(PacketBuffer *, uint32_t)\<close>.
\<close>

definition Writer_Init_packet :: "u32 \<Rightarrow> u32 \<Rightarrow> bool \<Rightarrow> u32 list \<Rightarrow> TLVWriter" where
  "Writer_Init_packet avail_len maxLen allowDiscontiguousBuffers pool =
     \<lparr>mDone = [], mOut = [], mCommitted = [],
      mRemainingLen = (if avail_len > maxLen then maxLen else avail_len), mLenWritten = 0, mWMaxLen = maxLen,
      mWContainerType = kTLVType_NotSpecified, mWContainerOpen = False, mCloseContainerReserved = True,
      WImplicitProfileId = kProfileIdNotSpecified,
      GetNewBuffer = (if allowDiscontiguousBuffers then Some pool else None), FinalizeBuffer = True\<rparr>"

definition GetLengthWritten :: "TLVWriter \<Rightarrow> u32" where
  "GetLengthWritten w = mLenWritten w"

definition Writer_GetContainerType :: "TLVWriter \<Rightarrow> TLVType" where
  "Writer_GetContainerType w = mWContainerType w"

definition FinalizePacketBuffer :: "TLVWriter \<Rightarrow> TLVWriter" where
  "FinalizePacketBuffer w = (if FinalizeBuffer w then w\<lparr>mCommitted := mDone w @ [mOut w]\<rparr> else w)"

definition Writer_Finalize :: "TLVWriter \<Rightarrow> WEAVE_ERROR \<times> TLVWriter" where
  "Writer_Finalize w =
     (if mWContainerOpen w then (WEAVE_ERROR_TLV_CONTAINER_OPEN, w)
      else (WEAVE_NO_ERROR, FinalizePacketBuffer w))"

section \<open>Writing raw data\<close>

text \<open>
  \<^verbatim>\<open>GetNewPacketBuffer\<close>.  When no buffer can be had it reports success with a NULL start and
  length 0, and the handle stays where it was.
\<close>

definition GetNewPacketBuffer :: "TLVWriter \<Rightarrow> TLVWriter" where
  "GetNewPacketBuffer w =
     (case GetNewBuffer w of
        Some (n # pool) \<Rightarrow>
          w\<lparr>mDone := mDone w @ [mOut w], mOut := [], mRemainingLen := n, GetNewBuffer := Some pool\<rparr>
      | _ \<Rightarrow> w\<lparr>mOut := [], mRemainingLen := 0\<rparr>)"

text \<open>The part of the loop of \<^verbatim>\<open>WriteData\<close> that makes room when the current buffer is full.\<close>

definition NextOutputBuffer :: "TLVWriter \<Rightarrow> WEAVE_ERROR \<times> TLVWriter" where
  "NextOutputBuffer w =
     (if mRemainingLen w = 0 then
        (if GetNewBuffer w = None then (WEAVE_ERROR_NO_MEMORY, w)
         else
           let w1 = GetNewPacketBuffer (FinalizePacketBuffer w)
           in (WEAVE_NO_ERROR,
               if mRemainingLen w1 > mWMaxLen w1 - mLenWritten w1
               then w1\<lparr>mRemainingLen := mWMaxLen w1 - mLenWritten w1\<rparr> else w1))
      else (WEAVE_NO_ERROR, w))"

definition PutRaw :: "u8 list \<Rightarrow> TLVWriter \<Rightarrow> TLVWriter" where
  "PutRaw bs w =
     w\<lparr>mOut := mOut w @ bs, mRemainingLen := mRemainingLen w - of_nat (length bs),
       mLenWritten := mLenWritten w + of_nat (length bs)\<rparr>"

partial_function (option) WriteLoop :: "u8 list \<Rightarrow> TLVWriter \<Rightarrow> write_result" where
  "WriteLoop p w =
     (if p = [] then Some (WEAVE_NO_ERROR, w)
      else case NextOutputBuffer w of (err, w1) \<Rightarrow>
        if err \<noteq> WEAVE_NO_ERROR then Some (err, w1)
        else let writeLen = min (length p) (unat (mRemainingLen w1))
             in WriteLoop (drop writeLen p) (PutRaw (take writeLen p) w1))"

declare WriteLoop.simps [code]

text \<open>The length argument of the source is the length of \<open>p\<close>, a 32-bit number.\<close>

definition WriteData :: "u8 list \<Rightarrow> TLVWriter \<Rightarrow> write_result" where
  "WriteData p w =
     (if mLenWritten w + of_nat (length p) \<le> mWMaxLen w then WriteLoop p w
      else Some (WEAVE_ERROR_BUFFER_TOO_SMALL, w))"

section \<open>Element heads\<close>

text \<open>
  The checks of \<^verbatim>\<open>WriteElementHead\<close> on which tags a container admits, and the bytes it emits:
  control byte and tag, then the length or value.
\<close>

definition TagAllowed :: "TLVType \<Rightarrow> TLVElementType \<Rightarrow> u64 \<Rightarrow> bool" where
  "TagAllowed containerType elemType tag =
     (if IsSpecialTag tag then
        (if TagNumFromTag tag < 256
         then containerType = kTLVType_Structure \<or> containerType = kTLVType_Path
         else elemType = kTLVElementType_EndOfContainer \<or> containerType = kTLVType_NotSpecified \<or>
              containerType = kTLVType_Array)
      else containerType = kTLVType_NotSpecified \<or> containerType = kTLVType_Structure \<or>
           containerType = kTLVType_Path)"

definition ControlByte :: "TLVTagControl \<Rightarrow> TLVElementType \<Rightarrow> u8 list" where
  "ControlByte tagControl elemType = Write8 (word_of_int (tagControl OR elemType))"

definition TagBytes :: "u32 \<Rightarrow> TLVElementType \<Rightarrow> u64 \<Rightarrow> u8 list" where
  "TagBytes implicitProfileId elemType tag =
     (let tagNum = TagNumFromTag tag; profileId = ProfileIdFromTag tag in
      if IsSpecialTag tag then
        (if tagNum < 256
         then ControlByte kTLVTagControl_ContextSpecific elemType @ Write8 (ucast tagNum)
         else ControlByte kTLVTagControl_Anonymous elemType)
      else if profileId = kCommonProfileId then
        (if tagNum < 65536
         then ControlByte kTLVTagControl_CommonProfile_2Bytes elemType @ Write16 (ucast tagNum)
         else ControlByte kTLVTagControl_CommonProfile_4Bytes elemType @ Write32 tagNum)
      else if profileId = implicitProfileId then
        (if tagNum < 65536
         then ControlByte kTLVTagControl_ImplicitProfile_2Bytes elemType @ Write16 (ucast tagNum)
         else ControlByte kTLVTagControl_ImplicitProfile_4Bytes elemType @ Write32 tagNum)
      else
        let vendorId = ucast (drop_bit 16 profileId) :: u16; profileNum = ucast profileId :: u16 in
        (if tagNum < 65536
         then ControlByte kTLVTagControl_FullyQualified_6Bytes elemType @ Write16 vendorId @
              Write16 profileNum @ Write16 (ucast tagNum)
         else ControlByte kTLVTagControl_FullyQualified_8Bytes elemType @ Write16 vendorId @
              Write16 profileNum @ Write32 tagNum))"

definition LenOrValBytes :: "TLVElementType \<Rightarrow> u64 \<Rightarrow> u8 list" where
  "LenOrValBytes elemType lenOrVal =
     (let fs = GetTLVFieldSize elemType in
      if fs = kTLVFieldSize_1Byte then Write8 (ucast lenOrVal)
      else if fs = kTLVFieldSize_2Byte then Write16 (ucast lenOrVal)
      else if fs = kTLVFieldSize_4Byte then Write32 (ucast lenOrVal)
      else if fs = kTLVFieldSize_8Byte then Write64 lenOrVal
      else [])"

definition HeadBytes :: "u32 \<Rightarrow> TLVElementType \<Rightarrow> u64 \<Rightarrow> u64 \<Rightarrow> u8 list" where
  "HeadBytes implicitProfileId elemType tag lenOrVal =
     TagBytes implicitProfileId elemType tag @ LenOrValBytes elemType lenOrVal"

text \<open>
  The head is built in place when 17 bytes are left and \<^verbatim>\<open>mMaxLen\<close> is at least 17, and then
  neither \<^verbatim>\<open>mLenWritten\<close> nor \<^verbatim>\<open>mMaxLen\<close> is consulted; otherwise it goes through \<^verbatim>\<open>WriteData\<close>.
\<close>

definition WriteElementHead :: "TLVElementType \<Rightarrow> u64 \<Rightarrow> u64 \<Rightarrow> TLVWriter \<Rightarrow> write_result" where
  "WriteElementHead elemType tag lenOrVal w =
     (if mWContainerOpen w then Some (WEAVE_ERROR_TLV_CONTAINER_OPEN, w)
      else if \<not> TagAllowed (mWContainerType w) elemType tag then Some (WEAVE_ERROR_INVALID_TLV_TAG, w)
      else
        let bs = HeadBytes (WImplicitProfileId w) elemType tag lenOrVal in
        if mRemainingLen w \<ge> 17 \<and> mWMaxLen w \<ge> 17 then Some (WEAVE_NO_ERROR, PutRaw bs w)
        else WriteData bs w)"

text \<open>\<^verbatim>\<open>SuccessOrExit\<close> on results that may not return.\<close>

definition WSuccessOrExit :: "write_result \<Rightarrow> (TLVWriter \<Rightarrow> write_result) \<Rightarrow> write_result" where
  "WSuccessOrExit res k =
     (case res of None \<Rightarrow> None
      | Some (err, w) \<Rightarrow> if err = WEAVE_NO_ERROR then k w else Some (err, w))"

lemma WSuccessOrExit_simps [simp]:
  "WSuccessOrExit (Some (WEAVE_NO_ERROR, w)) k = k w"
  "err \<noteq> WEAVE_NO_ERROR \<Longrightarrow> WSuccessOrExit (Some (err, w)) k = Some (err, w)"
  "WSuccessOrExit None k = None"
  by (simp_all add: WSuccessOrExit_def)

definition WriteElementWithData :: "TLVType \<Rightarrow> u64 \<Rightarrow> u8 list \<Rightarrow> TLVWriter \<Rightarrow> write_result" where
  "WriteElementWithData type tag data w =
     (let dataLen = of_nat (length data) :: u32;
          lenFieldSize = (if dataLen \<le> 0xFF then kTLVFieldSize_1Byte
                          else if dataLen \<le> 0xFFFF then kTLVFieldSize_2Byte
                          else kTLVFieldSize_4Byte)
      in WSuccessOrExit (WriteElementHead (type OR lenFieldSize) tag (ucast dataLen) w) (WriteData data))"

section \<open>Scalar elements\<close>

definition PutBoolean :: "u64 \<Rightarrow> bool \<Rightarrow> TLVWriter \<Rightarrow> write_result" where
  "PutBoolean tag v =
     WriteElementHead (if v then kTLVElementType_BooleanTrue else kTLVElementType_BooleanFalse) tag 0"

definition Put_u64 :: "u64 \<Rightarrow> u64 \<Rightarrow> TLVWriter \<Rightarrow> write_result" where
  "Put_u64 tag v =
     (let elemType = (if v \<le> 0xFF then kTLVElementType_UInt8
                      else if v \<le> 0xFFFF then kTLVElementType_UInt16
                      else if v \<le> 0xFFFFFFFF then kTLVElementType_UInt32
                      else kTLVElementType_UInt64)
      in WriteElementHead elemType tag v)"

definition Put_u64_preserve :: "u64 \<Rightarrow> u64 \<Rightarrow> bool \<Rightarrow> TLVWriter \<Rightarrow> write_result" where
  "Put_u64_preserve tag v preserveSize =
     (if preserveSize then WriteElementHead kTLVElementType_UInt64 tag v else Put_u64 tag v)"

definition Put_u8 :: "u64 \<Rightarrow> u8 \<Rightarrow> TLVWriter \<Rightarrow> write_result" where
  "Put_u8 tag v = Put_u64 tag (ucast v)"

definition Put_u8_preserve :: "u64 \<Rightarrow> u8 \<Rightarrow> bool \<Rightarrow> TLVWriter \<Rightarrow> write_result" where
  "Put_u8_preserve tag v preserveSize =
     (if preserveSize then WriteElementHead kTLVElementType_UInt8 tag (ucast v) else Put_u8 tag v)"

definition Put_u16 :: "u64 \<Rightarrow> u16 \<Rightarrow> TLVWriter \<Rightarrow> write_result" where
  "Put_u16 tag v = Put_u64 tag (ucast v)"

definition Put_u16_preserve :: "u64 \<Rightarrow> u16 \<Rightarrow> bool \<Rightarrow> TLVWriter \<Rightarrow> write_result" where
  "Put_u16_preserve tag v preserveSize =
     (if preserveSize then WriteElementHead kTLVElementType_UInt16 tag (ucast v) else Put_u16 tag v)"

definition Put_u32 :: "u64 \<Rightarrow> u32 \<Rightarrow> TLVWriter \<Rightarrow> write_result" where
  "Put_u32 tag v = Put_u64 tag (ucast v)"

definition Put_u32_preserve :: "u64 \<Rightarrow> u32 \<Rightarrow> bool \<Rightarrow> TLVWriter \<Rightarrow> write_result" where
  "Put_u32_preserve tag v preserveSize =
     (if preserveSize then WriteElementHead kTLVElementType_UInt32 tag (ucast v) else Put_u32 tag v)"

text \<open>A signed value is its two's complement bit pattern; the comparisons are signed.\<close>

definition Put_i64 :: "u64 \<Rightarrow> u64 \<Rightarrow> TLVWriter \<Rightarrow> write_result" where
  "Put_i64 tag v =
     (let elemType = (if sint v \<ge> - (2 ^ 7) \<and> sint v \<le> 2 ^ 7 - 1 then kTLVElementType_Int8
                      else if sint v \<ge> - (2 ^ 15) \<and> sint v \<le> 2 ^ 15 - 1 then kTLVElementType_Int16
                      else if sint v \<ge> - (2 ^ 31) \<and> sint v \<le> 2 ^ 31 - 1 then kTLVElementType_Int32
                      else kTLVElementType_Int64)
      in WriteElementHead elemType tag v)"

definition Put_i64_preserve :: "u64 \<Rightarrow> u64 \<Rightarrow> bool \<Rightarrow> TLVWriter \<Rightarrow> write_result" where
  "Put_i64_preserve tag v preserveSize =
     (if preserveSize then WriteElementHead kTLVElementType_Int64 tag v else Put_i64 tag v)"

definition Put_i8 :: "u64 \<Rightarrow> u8 \<Rightarrow> TLVWriter \<Rightarrow> write_result" where
  "Put_i8 tag v = Put_i64 tag (scast v)"

definition Put_i8_preserve :: "u64 \<Rightarrow> u8 \<Rightarrow> bool \<Rightarrow> TLVWriter \<Rightarrow> write_result" where
  "Put_i8_preserve tag v preserveSize =
     (if preserveSize then WriteElementHead kTLVElementType_Int8 tag (scast v) else Put_i8 tag v)"

definition Put_i16 :: "u64 \<Rightarrow> u16 \<Rightarrow> TLVWriter \<Rightarrow> write_result" where
  "Put_i16 tag v = Put_i64 tag (scast v)"

definition Put_i16_preserve :: "u64 \<Rightarrow> u16 \<Rightarrow> bool \<Rightarrow> TLVWriter \<Rightarrow> write_result" where
  "Put_i16_preserve tag v preserveSize =
     (if preserveSize then WriteElementHead kTLVElementType_Int16 tag (scast v) else Put_i16 tag v)"

definition Put_i32 :: "u64 \<Rightarrow> u32 \<Rightarrow> TLVWriter \<Rightarrow> write_result" where
  "Put_i32 tag v = Put_i64 tag (scast v)"

definition Put_i32_preserve :: "u64 \<Rightarrow> u32 \<Rightarrow> bool \<Rightarrow> TLVWriter \<Rightarrow> write_result" where
  "Put_i32_preserve tag v preserveSize =
     (if preserveSize then WriteElementHead kTLVElementType_Int32 tag (scast v) else Put_i32 tag v)"

text \<open>Floating point values are given by their bit patterns.\<close>

definition Put_float :: "u64 \<Rightarrow> u32 \<Rightarrow> TLVWriter \<Rightarrow> write_result" where
  "Put_float tag bits = WriteElementHead kTLVElementType_FloatingPointNumber32 tag (ucast bits)"

definition Put_double :: "u64 \<Rightarrow> u64 \<Rightarrow> TLVWriter \<Rightarrow> write_result" where
  "Put_double tag bits = WriteElementHead kTLVElementType_FloatingPointNumber64 tag bits"

definition PutNull :: "u64 \<Rightarrow> TLVWriter \<Rightarrow> write_result" where
  "PutNull tag = WriteElementHead kTLVElementType_Null tag 0"

section \<open>Strings\<close>

definition PutBytes :: "u64 \<Rightarrow> u8 list \<Rightarrow> TLVWriter \<Rightarrow> write_result" where
  "PutBytes tag buf = WriteElementWithData kTLVType_ByteString tag buf"

text \<open>\<open>buf\<close> is the C string without its terminator, so its length is \<^verbatim>\<open>strlen(buf)\<close>.\<close>

definition PutString_len :: "u64 \<Rightarrow> u8 list \<Rightarrow> TLVWriter \<Rightarrow> write_result" where
  "PutString_len tag buf = WriteElementWithData kTLVType_UTF8String tag buf"

definition PutString :: "u64 \<Rightarrow> u8 list \<Rightarrow> TLVWriter \<Rightarrow> write_result" where
  "PutString tag buf = PutString_len tag buf"

text \<open>
  \<^verbatim>\<open>VPutStringF\<close> in the configuration with \<^verbatim>\<open>malloc\<close> and without the printf extensions.
  \<open>text\<close> is what \<^verbatim>\<open>vsnprintf\<close> makes of the format and its arguments, \<open>malloc\<close> whether a block
  of the given size can be had.
\<close>

definition VPutStringF :: "(nat \<Rightarrow> bool) \<Rightarrow> u64 \<Rightarrow> u8 list \<Rightarrow> TLVWriter \<Rightarrow> write_result" where
  "VPutStringF malloc tag text w =
     (let dataLen = length text;
          lenFieldSize = (if dataLen \<le> 0xFF then kTLVFieldSize_1Byte
                          else if dataLen \<le> 0xFFFF then kTLVFieldSize_2Byte
                          else kTLVFieldSize_4Byte)
      in WSuccessOrExit (WriteElementHead (kTLVType_UTF8String OR lenFieldSize) tag (of_nat dataLen) w) (\<lambda>w1.
           if unat (mLenWritten w1) + dataLen \<le> unat (mWMaxLen w1) then
             (if malloc (dataLen + 1) then WriteData text w1 else Some (WEAVE_ERROR_NO_MEMORY, w1))
           else Some (WEAVE_ERROR_BUFFER_TOO_SMALL, w1)))"

definition PutStringF :: "(nat \<Rightarrow> bool) \<Rightarrow> u64 \<Rightarrow> u8 list \<Rightarrow> TLVWriter \<Rightarrow> write_result" where
  "PutStringF malloc tag text w = VPutStringF malloc tag text w"

section \<open>Containers\<close>

abbreviation (input) kEndOfContainerMarkerSize :: u32 where "kEndOfContainerMarkerSize \<equiv> 1"

definition ReserveClose :: "TLVWriter \<Rightarrow> TLVWriter" where
  "ReserveClose w =
     (if mCloseContainerReserved w then w\<lparr>mWMaxLen := mWMaxLen w - kEndOfContainerMarkerSize\<rparr> else w)"

definition UnreserveClose :: "TLVWriter \<Rightarrow> TLVWriter" where
  "UnreserveClose w =
     (if mCloseContainerReserved w then w\<lparr>mWMaxLen := mWMaxLen w + kEndOfContainerMarkerSize\<rparr> else w)"

text \<open>\<^verbatim>\<open>StartContainer\<close>; the third component is the outer container type it hands to the caller.\<close>

definition StartContainer ::
  "u64 \<Rightarrow> TLVType \<Rightarrow> TLVWriter \<Rightarrow> (WEAVE_ERROR \<times> TLVType option \<times> TLVWriter) option" where
  "StartContainer tag containerType w =
     (if \<not> TLVTypeIsContainer containerType then Some (WEAVE_ERROR_WRONG_TLV_TYPE, None, w)
      else case WriteElementHead containerType tag 0 (ReserveClose w) of
        None \<Rightarrow> None
      | Some (err, w1) \<Rightarrow>
          if err \<noteq> WEAVE_NO_ERROR then Some (err, None, UnreserveClose w1)
          else Some (WEAVE_NO_ERROR, Some (mWContainerType w1),
                     w1\<lparr>mWContainerType := containerType, mWContainerOpen := False\<rparr>))"

definition EndContainer :: "TLVType \<Rightarrow> TLVWriter \<Rightarrow> write_result" where
  "EndContainer outerContainerType w =
     (if \<not> TLVTypeIsContainer (mWContainerType w) then Some (WEAVE_ERROR_INCORRECT_STATE, w)
      else WriteElementHead kTLVElementType_EndOfContainer AnonymousTag 0
             (UnreserveClose (w\<lparr>mWContainerType := outerContainerType\<rparr>)))"

text \<open>\<^verbatim>\<open>OpenContainer\<close> with the container writer; \<^verbatim>\<open>CloseContainer\<close> with the reset container writer.\<close>

definition Writer_OpenContainer ::
  "u64 \<Rightarrow> TLVType \<Rightarrow> TLVWriter \<Rightarrow> (WEAVE_ERROR \<times> TLVWriter option \<times> TLVWriter) option" where
  "Writer_OpenContainer tag containerType w =
     (if \<not> TLVTypeIsContainer containerType then Some (WEAVE_ERROR_WRONG_TLV_TYPE, None, w)
      else case WriteElementHead containerType tag 0 (ReserveClose w) of
        None \<Rightarrow> None
      | Some (err, w1) \<Rightarrow>
          if err \<noteq> WEAVE_NO_ERROR then Some (err, None, UnreserveClose w1)
          else Some (WEAVE_NO_ERROR,
                     Some (w1\<lparr>mLenWritten := 0, mWMaxLen := mWMaxLen w1 - mLenWritten w1,
                              mWContainerType := containerType, mWContainerOpen := False\<rparr>),
                     w1\<lparr>mWContainerOpen := True\<rparr>))"

definition Writer_CloseContainer ::
  "TLVWriter \<Rightarrow> TLVWriter \<Rightarrow> (WEAVE_ERROR \<times> TLVWriter \<times> TLVWriter) option" where
  "Writer_CloseContainer containerWriter w =
     (if \<not> TLVTypeIsContainer (mWContainerType containerWriter)
        then Some (WEAVE_ERROR_INCORRECT_STATE, containerWriter, w)
      else if mWContainerOpen containerWriter then Some (WEAVE_ERROR_TLV_CONTAINER_OPEN, containerWriter, w)
      else
        let w1 = w\<lparr>mDone := mDone containerWriter, mOut := mOut containerWriter,
                   mCommitted := mCommitted containerWriter, GetNewBuffer := GetNewBuffer containerWriter,
                   mRemainingLen := mRemainingLen containerWriter,
                   mLenWritten := mLenWritten w + mLenWritten containerWriter\<rparr>;
            w2 = (UnreserveClose w1)\<lparr>mWContainerOpen := False\<rparr>
        in map_option (\<lambda>(err, w3). (err, Writer_Init_buf 0, w3))
             (WriteElementHead kTLVElementType_EndOfContainer AnonymousTag 0 w2))"

definition PutPreEncodedContainer :: "u64 \<Rightarrow> TLVType \<Rightarrow> u8 list \<Rightarrow> TLVWriter \<Rightarrow> write_result" where
  "PutPreEncodedContainer tag containerType data w =
     (if \<not> TLVTypeIsContainer containerType then Some (WEAVE_ERROR_INVALID_ARGUMENT, w)
      else WSuccessOrExit (WriteElementHead containerType tag 0 w) (WriteData data))"

section \<open>Copying from a reader\<close>

text \<open>
  \<^verbatim>\<open>CopyContainer\<close> measures the container's contents by the distance between two read points,
  which is the number of bytes consumed as long as both lie in one buffer; across buffers the
  subtraction is undefined.
\<close>

definition CopyContainer ::
  "u64 \<Rightarrow> TLVReader \<Rightarrow> TLVWriter \<Rightarrow> (WEAVE_ERROR \<times> TLVReader \<times> TLVWriter) option" where
  "CopyContainer tag container w =
     (let containerType = GetType container in
      case EnterContainer container of
        (err, Some outerContainerType, c1) \<Rightarrow>
          if err \<noteq> WEAVE_NO_ERROR then Some (err, c1, w)
          else (case ExitContainer outerContainerType c1 of (err, c2) \<Rightarrow>
            if err \<noteq> WEAVE_NO_ERROR then Some (err, c2, w)
            else if mBufHandle c2 \<noteq> mBufHandle c1 \<or> mReadPointStray c2 then Some (UNDEFINED_BEHAVIOR, c2, w)
            else
              let data = take (length (mInput c1) - length (mInput c2)) (mInput c1)
              in map_option (\<lambda>(err, w1). (err, c2, w1)) (PutPreEncodedContainer tag containerType data w))
      | (err, None, c1) \<Rightarrow> Some (err, c1, w))"

definition CopyContainer_same :: "TLVReader \<Rightarrow> TLVWriter \<Rightarrow> (WEAVE_ERROR \<times> TLVReader \<times> TLVWriter) option" where
  "CopyContainer_same container w = CopyContainer (GetTag container) container w"

abbreviation (input) kWeaveTLVCopyChunkSize :: u32 where "kWeaveTLVCopyChunkSize \<equiv> 16"

text \<open>The loop of \<^verbatim>\<open>CopyElement\<close>: the data is moved through a buffer of 16 bytes.\<close>

function CopyLoop :: "u32 \<Rightarrow> TLVReader \<Rightarrow> TLVWriter \<Rightarrow> write_result" where
  "CopyLoop copyDataLen readerHelper w =
     (if copyDataLen = 0 then Some (WEAVE_NO_ERROR, w)
      else
        let chunkSize = min copyDataLen kWeaveTLVCopyChunkSize in
        case ReadData chunkSize readerHelper of (err, chunk, readerHelper') \<Rightarrow>
          if err \<noteq> WEAVE_NO_ERROR then Some (err, w)
          else case WriteData chunk w of
            None \<Rightarrow> None
          | Some (err, w1) \<Rightarrow>
              if err \<noteq> WEAVE_NO_ERROR then Some (err, w1)
              else CopyLoop (copyDataLen - chunkSize) readerHelper' w1)"
  by pat_completeness auto
termination
proof (relation "measure (\<lambda>(n, r, w). unat n)", goal_cases)
  case 1
  show ?case by simp
next
  case (2 copyDataLen)
  then have "unat (copyDataLen - min copyDataLen 16) = unat copyDataLen - unat (min copyDataLen 16)"
    by (intro unat_sub) simp
  moreover have "0 < unat (min copyDataLen 16)" "0 < unat copyDataLen"
    using 2(1) by (auto simp: unat_gt_0 min_def)
  ultimately show ?case using 2 by simp
qed

declare CopyLoop.simps [simp del]

definition CopyElement ::
  "u64 \<Rightarrow> TLVReader \<Rightarrow> TLVWriter \<Rightarrow> (WEAVE_ERROR \<times> TLVReader \<times> TLVWriter) option" where
  "CopyElement tag reader w =
     (let elemType = ElementType reader; elemLenOrVal = mElemLenOrVal reader in
      if elemType = kTLVElementType_NotSpecified \<or> elemType = kTLVElementType_EndOfContainer
        then Some (WEAVE_ERROR_INCORRECT_STATE, reader, w)
      else
        let readerHelper = Reader_Init_copy reader in
        case Skip reader of (err, reader1) \<Rightarrow>
          if err \<noteq> WEAVE_NO_ERROR then Some (err, reader1, w)
          else
            let copyDataLen = GetLengthRead reader1 - GetLengthRead readerHelper
            in map_option (\<lambda>(err, w1). (err, reader1, w1))
                 (WSuccessOrExit (WriteElementHead elemType tag elemLenOrVal w)
                    (CopyLoop copyDataLen readerHelper)))"

definition CopyElement_same :: "TLVReader \<Rightarrow> TLVWriter \<Rightarrow> (WEAVE_ERROR \<times> TLVReader \<times> TLVWriter) option" where
  "CopyElement_same reader w = CopyElement (GetTag reader) reader w"

section \<open>The raw writer on one buffer\<close>

lemma WriteLoop_Nil [simp]: "WriteLoop [] w = Some (WEAVE_NO_ERROR, w)"
  by (simp add: WriteLoop.simps)

lemma PutRaw_Nil [simp]: "PutRaw [] w = w"
  by (simp add: PutRaw_def)

lemma WriteLoop_fits:
  assumes "length p \<le> unat (mRemainingLen w)"
  shows "WriteLoop p w = Some (WEAVE_NO_ERROR, PutRaw p w)"
proof (cases "p = []")
  case False
  then have "mRemainingLen w \<noteq> 0" using assms by auto
  with False assms show ?thesis by (simp add: WriteLoop.simps [of p] NextOutputBuffer_def min_def)
qed simp

lemma WriteLoop_full:
  assumes "GetNewBuffer w = None" "unat (mRemainingLen w) < length p"
  shows "WriteLoop p w = Some (WEAVE_ERROR_NO_MEMORY, PutRaw (take (unat (mRemainingLen w)) p) w)"
proof (cases "mRemainingLen w = 0")
  case True
  with assms show ?thesis by (simp add: WriteLoop.simps [of p] NextOutputBuffer_def)
next
  case False
  let ?n = "unat (mRemainingLen w)"
  let ?w1 = "PutRaw (take ?n p) w"
  have "mRemainingLen ?w1 = 0" "GetNewBuffer ?w1 = None"
    using assms by (simp_all add: PutRaw_def min_def)
  then have "WriteLoop (drop ?n p) ?w1 = Some (WEAVE_ERROR_NO_MEMORY, ?w1)"
    using assms(2) by (simp add: WriteLoop.simps [of "drop ?n p"] NextOutputBuffer_def)
  then show ?thesis using False assms(2)
    by (subst WriteLoop.simps) (auto simp: NextOutputBuffer_def min_def)
qed

lemma WriteData_cases:
  assumes "GetNewBuffer w = None"
  obtains "WriteData p w = Some (WEAVE_NO_ERROR, PutRaw p w)" "length p \<le> unat (mRemainingLen w)"
      "mLenWritten w + of_nat (length p) \<le> mWMaxLen w"
    | "WriteData p w = Some (WEAVE_ERROR_NO_MEMORY, PutRaw (take (unat (mRemainingLen w)) p) w)"
      "unat (mRemainingLen w) < length p"
    | "WriteData p w = Some (WEAVE_ERROR_BUFFER_TOO_SMALL, w)" "mWMaxLen w < mLenWritten w + of_nat (length p)"
  using WriteLoop_fits [of p w] WriteLoop_full [OF assms, of p] that
  by (cases "length p \<le> unat (mRemainingLen w)"; cases "mLenWritten w + of_nat (length p) \<le> mWMaxLen w")
    (auto simp: WriteData_def)

end
