(* ===== verification/TLV_Syntax.thy ===== *)
theory TLV_Syntax
  imports TLV_Stream TLV_Writer
begin

text \<open>
  The format the reader and the writer agree on, as an abstract syntax: a TLV element is a tree,
  \<open>enc\<close> is its encoding and \<open>wf_tlv\<close> says which trees a container admits.  The theory shows
  that the reader recovers every element head the writer emits, and that it steps over exactly
  the bytes of an element, however deeply containers are nested.
\<close>

section \<open>Abstract syntax\<close>

datatype tlv =
    Scalar TLVElementType u64 u64
  | Str TLVElementType u64 "u8 list"
  | Cont TLVElementType u64 "tlv list"

primrec enc :: "u32 \<Rightarrow> tlv \<Rightarrow> u8 list" where
  "enc ip (Scalar ty tag v) = HeadBytes ip ty tag v"
| "enc ip (Str ty tag bs) = HeadBytes ip ty tag (of_nat (length bs)) @ bs"
| "enc ip (Cont ty tag es) = HeadBytes ip ty tag 0 @ concat (map (enc ip) es) @ [0x18]"

definition fits :: "TLVElementType \<Rightarrow> u64 \<Rightarrow> bool" where
  "fits ty v \<longleftrightarrow> unat v < 256 ^ TLVFieldSizeToBytes (GetTLVFieldSize ty)"

definition proper_tag :: "u64 \<Rightarrow> bool" where
  "proper_tag tag \<longleftrightarrow> (IsSpecialTag tag \<longrightarrow> TagNumFromTag tag < 256 \<or> tag = AnonymousTag)"

definition wf_tag :: "TLVType \<Rightarrow> u64 \<Rightarrow> bool" where
  "wf_tag ct tag \<longleftrightarrow> proper_tag tag \<and> TagAllowed ct kTLVElementType_Null tag"

definition scalar_type :: "TLVElementType \<Rightarrow> bool" where
  "scalar_type ty \<longleftrightarrow> 0 \<le> ty \<and> ty \<le> 0x14 \<and> \<not> (0x0C \<le> ty \<and> ty \<le> 0x13)"

fun wf_tlv :: "TLVType \<Rightarrow> tlv \<Rightarrow> bool" where
  "wf_tlv ct (Scalar ty tag v) = (scalar_type ty \<and> wf_tag ct tag \<and> fits ty v)"
| "wf_tlv ct (Str ty tag bs) =
     (0x0C \<le> ty \<and> ty \<le> 0x13 \<and> wf_tag ct tag \<and> length bs < 2 ^ 32 \<and> fits ty (of_nat (length bs)))"
| "wf_tlv ct (Cont ty tag es) =
     (0x15 \<le> ty \<and> ty \<le> 0x17 \<and> wf_tag ct tag \<and> (\<forall>e \<in> set es. wf_tlv ty e))"

section \<open>Bit-level facts\<close>

lemma control_byte_fields:
  assumes "0 \<le> ty" "ty < 32" "tc \<in> {0x00, 0x20, 0x40, 0x60, 0x80, 0xA0, 0xC0, 0xE0}"
  shows "uint ((ucast (word_of_int (tc OR ty) :: u8) :: u16) AND 0x1F) = ty"
    "uint ((ucast (word_of_int (tc OR ty) :: u8) :: u16) AND 0xE0) = tc"
    "(ucast (word_of_int (tc OR ty) :: u8) :: u16) \<noteq> 0xFFFF"
proof -
  have "\<forall>ty \<in> set [0..31]. \<forall>tc \<in> set [0x00, 0x20, 0x40, 0x60, 0x80, 0xA0, 0xC0, 0xE0].
      uint ((ucast (word_of_int (tc OR ty) :: u8) :: u16) AND 0x1F) = ty \<and>
      uint ((ucast (word_of_int (tc OR ty) :: u8) :: u16) AND 0xE0) = tc \<and>
      (ucast (word_of_int (tc OR ty) :: u8) :: u16) \<noteq> 0xFFFF"
    by code_simp
  moreover have "ty \<in> set [0..31]" "tc \<in> set [0x00, 0x20, 0x40, 0x60, 0x80, 0xA0, 0xC0, 0xE0]"
    using assms by auto
  ultimately show "uint ((ucast (word_of_int (tc OR ty) :: u8) :: u16) AND 0x1F) = ty"
    "uint ((ucast (word_of_int (tc OR ty) :: u8) :: u16) AND 0xE0) = tc"
    "(ucast (word_of_int (tc OR ty) :: u8) :: u16) \<noteq> 0xFFFF" by blast+
qed

lemma ucast_small:
  "t < 256 \<Longrightarrow> (ucast (ucast (t :: u32) :: u8) :: u32) = t"
  "t < 65536 \<Longrightarrow> (ucast (ucast (t :: u32) :: u16) :: u32) = t"
  by (simp_all add: word_less_nat_alt word_unat_eq_iff unsigned_ucast_eq unsigned_take_bit_eq take_bit_nat_eq_self)

lemma ucast_small64:
  "unat v < 256 \<Longrightarrow> (ucast (ucast (v :: u64) :: u8) :: u64) = v"
  "unat v < 65536 \<Longrightarrow> (ucast (ucast (v :: u64) :: u16) :: u64) = v"
  "unat v < 4294967296 \<Longrightarrow> (ucast (ucast (v :: u64) :: u32) :: u64) = v"
  by (simp_all add: word_unat_eq_iff unsigned_ucast_eq unsigned_take_bit_eq take_bit_nat_eq_self)

section \<open>Reading back an element head\<close>

lemma Write8_singleton [simp]: "Write8 b = [b]"
  by (simp add: Write8_def)

lemma ContextTag_TagNum:
  "\<lbrakk>IsSpecialTag tag; TagNumFromTag tag < 256\<rbrakk> \<Longrightarrow> ContextTag (ucast (TagNumFromTag tag)) = tag"
  using tag_split [of tag] by (simp add: ContextTag_ProfileTag ucast_small IsSpecialTag_iff)

lemma ReadTag_TagBytes:
  assumes "proper_tag tag"
  obtains tc tb where "TagBytes ip ty tag = ControlByte tc ty @ tb"
    "tc \<in> {0x00, 0x20, 0x40, 0x60, 0x80, 0xA0, 0xC0, 0xE0}"
    "length tb = sTagSizes ! nat (drop_bit 5 tc)"
    "\<And>rest. ReadTag ip tc (tb @ rest) = (tag, rest)"
proof -
  let ?n = "TagNumFromTag tag" and ?p = "ProfileIdFromTag tag"
  note split = tag_split [of tag, symmetric]
  consider (ctx) "IsSpecialTag tag" "?n < 256" | (anon) "IsSpecialTag tag" "\<not> ?n < 256"
    | (c2) "\<not> IsSpecialTag tag" "?p = 0" "?n < 65536" | (c4) "\<not> IsSpecialTag tag" "?p = 0" "\<not> ?n < 65536"
    | (i2) "\<not> IsSpecialTag tag" "?p \<noteq> 0" "?p = ip" "?n < 65536"
    | (i4) "\<not> IsSpecialTag tag" "?p \<noteq> 0" "?p = ip" "\<not> ?n < 65536"
    | (f6) "\<not> IsSpecialTag tag" "?p \<noteq> 0" "?p \<noteq> ip" "?n < 65536"
    | (f8) "\<not> IsSpecialTag tag" "?p \<noteq> 0" "?p \<noteq> ip" "\<not> ?n < 65536" by blast
  then show ?thesis
  proof cases
    case ctx
    then show ?thesis
      by (intro that [of "0x20" "Write8 (ucast ?n)"])
        (simp_all add: TagBytes_def sTagSizes_def ReadTag_def ContextTag_TagNum
          codec8.get_put [simplified])
  next
    case anon
    then show ?thesis using assms
      by (intro that [of "0x00" "[]"]) (simp_all add: TagBytes_def sTagSizes_def ReadTag_def proper_tag_def)
  next
    case c2
    then show ?thesis using split
      by (intro that [of "0x40" "Write16 (ucast ?n)"])
        (simp_all add: TagBytes_def sTagSizes_def ReadTag_def CommonTag_def ucast_small)
  next
    case c4
    then show ?thesis using split
      by (intro that [of "0x60" "Write32 ?n"])
        (simp_all add: TagBytes_def sTagSizes_def ReadTag_def CommonTag_def)
  next
    case i2
    then show ?thesis using split
      by (intro that [of "0x80" "Write16 (ucast ?n)"])
        (auto simp: TagBytes_def sTagSizes_def ReadTag_def ucast_small IsSpecialTag_iff)
  next
    case i4
    then show ?thesis using split
      by (intro that [of "0xA0" "Write32 ?n"])
        (auto simp: TagBytes_def sTagSizes_def ReadTag_def IsSpecialTag_iff)
  next
    case f6
    then show ?thesis using split
      by (intro that [of "0xC0" "Write16 (ucast (drop_bit 16 ?p)) @ Write16 (ucast ?p) @ Write16 (ucast ?n)"])
        (simp_all add: TagBytes_def sTagSizes_def ReadTag_def ucast_small ProfileTag3_eq Let_def)
  next
    case f8
    then show ?thesis using split
      by (intro that [of "0xE0" "Write16 (ucast (drop_bit 16 ?p)) @ Write16 (ucast ?p) @ Write32 ?n"])
        (simp_all add: TagBytes_def sTagSizes_def ReadTag_def ProfileTag3_eq Let_def)
  qed
qed

lemma field_size_cases:
  obtains "GetTLVFieldSize ty = - 1" | "GetTLVFieldSize ty = 0" | "GetTLVFieldSize ty = 1"
    | "GetTLVFieldSize ty = 2" | "GetTLVFieldSize ty = 3"
proof (cases "TLVTypeHasValue ty")
  case True
  then have "GetTLVFieldSize ty = ty mod 256 mod 4" by (simp add: GetTLVFieldSize_def and_3_mod_4)
  moreover have "ty mod 256 mod 4 \<in> {0, 1, 2, 3}" by auto
  ultimately show ?thesis using that by auto
qed (use that in \<open>simp add: GetTLVFieldSize_def\<close>)

lemma LenOrVal_roundtrip:
  assumes "fits ty v"
  shows "length (LenOrValBytes ty v) = TLVFieldSizeToBytes (GetTLVFieldSize ty) \<and>
    ReadLenOrVal (GetTLVFieldSize ty) (LenOrValBytes ty v) = v"
proof (rule field_size_cases [of ty])
  assume "GetTLVFieldSize ty = - 1"
  with assms show ?thesis
    by (simp add: fits_def LenOrValBytes_def ReadLenOrVal_def TLVFieldSizeToBytes_def unat_eq_0)
next
  assume "GetTLVFieldSize ty = 0"
  with assms show ?thesis
    by (simp add: fits_def LenOrValBytes_def ReadLenOrVal_def TLVFieldSizeToBytes_def ucast_small64
        Read_Write_Nil(1) [simplified])
next
  assume "GetTLVFieldSize ty = 1"
  with assms show ?thesis
    by (simp add: fits_def LenOrValBytes_def ReadLenOrVal_def TLVFieldSizeToBytes_def ucast_small64)
next
  assume "GetTLVFieldSize ty = 2"
  with assms show ?thesis
    by (simp add: fits_def LenOrValBytes_def ReadLenOrVal_def TLVFieldSizeToBytes_def ucast_small64)
next
  assume "GetTLVFieldSize ty = 3"
  then show ?thesis
    by (simp add: LenOrValBytes_def ReadLenOrVal_def TLVFieldSizeToBytes_def)
qed

text \<open>How far and to which element a reader has moved; everything else of its state is kept.\<close>

definition moved :: "nat \<Rightarrow> TLVReader \<Rightarrow> TLVReader \<Rightarrow> bool" where
  "moved n r r' \<longleftrightarrow> mInput r' = drop n (mInput r) \<and> mLenRead r' = mLenRead r + of_nat n \<and>
     mBufHandle r' = mBufHandle r \<and> mReadPointStray r' = mReadPointStray r \<and> mMaxLen r' = mMaxLen r \<and>
     mContainerOpen r' = mContainerOpen r \<and> ImplicitProfileId r' = ImplicitProfileId r \<and>
     GetNextBuffer r' = GetNextBuffer r"

lemma moved_refl [simp]: "moved 0 r r"
  by (simp add: moved_def)

lemma moved_trans: "moved m r r' \<Longrightarrow> moved n r' r'' \<Longrightarrow> moved (m + n) r r''"
  by (auto simp: moved_def add.commute add.left_commute)

lemma moved_updates [simp]:
  "moved n r (r'\<lparr>mControlByte := a\<rparr>) = moved n r r'" "moved n r (r'\<lparr>mElemTag := b\<rparr>) = moved n r r'"
  "moved n r (r'\<lparr>mElemLenOrVal := c\<rparr>) = moved n r r'" "moved n r (r'\<lparr>mContainerType := d\<rparr>) = moved n r r'"
  "moved n (r\<lparr>mControlByte := a\<rparr>) r' = moved n r r'" "moved n (r\<lparr>mElemTag := b\<rparr>) r' = moved n r r'"
  "moved n (r\<lparr>mElemLenOrVal := c\<rparr>) r' = moved n r r'" "moved n (r\<lparr>mContainerType := d\<rparr>) r' = moved n r r'"
  by (auto simp: moved_def)

lemma moved_contiguous:
  assumes "contiguous r" "moved n r r'" "n \<le> length (mInput r)"
  shows "contiguous r'"
  using assms unat_lenRead_advance [of r n] by (auto simp: contiguous_def in_bounds_def moved_def)

lemma moved_advance: "moved n r (advance n r)"
  by (simp add: moved_def advance_def)

lemma HeadBytes_nonempty: "HeadBytes ip ty tag v \<noteq> []"
  by (auto simp: HeadBytes_def TagBytes_def ControlByte_def Let_def)

lemma ReadElement_head:
  assumes r: "contiguous r" "mInput r = HeadBytes (ImplicitProfileId r) ty tag v @ rest"
    and e: "0 \<le> ty" "ty \<le> 0x18" "proper_tag tag" "fits ty v"
  obtains r' where "ReadElement r = (VerifyElement r', r')"
    "moved (length (HeadBytes (ImplicitProfileId r) ty tag v)) r r'" "ElementType r' = ty"
    "mElemTag r' = tag" "mElemLenOrVal r' = v" "mContainerType r' = mContainerType r"
proof -
  let ?ip = "ImplicitProfileId r" and ?n = "length (HeadBytes (ImplicitProfileId r) ty tag v)"
  obtain tc tb where tb: "TagBytes ?ip ty tag = ControlByte tc ty @ tb"
    and tc: "tc \<in> {0x00, 0x20, 0x40, 0x60, 0x80, 0xA0, 0xC0, 0xE0}"
    and ltb: "length tb = sTagSizes ! nat (drop_bit 5 tc)"
    and rt: "\<And>rest. ReadTag ?ip tc (tb @ rest) = (tag, rest)"
    using ReadTag_TagBytes [OF e(3)] by blast
  define cb where "cb = (ucast (word_of_int (tc OR ty) :: u8) :: u16)"
  have "ty < 32" using e by simp
  note cbf = control_byte_fields [OF e(1) this tc, folded cb_def]
  note lv = LenOrVal_roundtrip [OF e(4)]
  have head: "HeadBytes ?ip ty tag v = word_of_int (tc OR ty) # tb @ LenOrValBytes ty v"
    using tb by (simp add: HeadBytes_def ControlByte_def)
  let ?r2 = "r\<lparr>mControlByte := cb\<rparr>"
  have ens: "EnsureData WEAVE_END_OF_TLV r = (WEAVE_NO_ERROR, r)"
    using EnsureData_contiguous [OF r(1)] r(2) head by simp
  have stray: "\<not> mReadPointStray r" using r(1) by (simp add: contiguous_def in_bounds_def)
  have et: "ElementType ?r2 = ty" using cbf by (simp add: ElementType_def)
  have valid: "IsValidTLVType ty" using e by (simp add: IsValidTLVType_def)
  have "ElemHeadBytes cb ty = ?n" using cbf ltb lv head by (simp add: ElemHeadBytes_def)
  then have rh: "ReadHead (ElemHeadBytes cb ty) ?r2 = (WEAVE_NO_ERROR, HeadBytes ?ip ty tag v, advance ?n ?r2)"
    using ReadHead_contiguous [of ?n ?r2] r(2) by simp
  let ?r' = "(advance ?n ?r2)\<lparr>mElemTag := tag, mElemLenOrVal := v\<rparr>"
  have ph: "ParseHead ty (HeadBytes ?ip ty tag v) (advance ?n ?r2) = ?r'"
    using cbf rt lv by (simp add: ParseHead_def advance_def head)
  have "ReadElement r = (VerifyElement ?r', ?r')"
    using ens stray et valid rh ph r(2) head by (simp add: ReadElement_def cb_def Let_def)
  then show ?thesis
  proof (rule that)
    show "moved ?n r ?r'" using moved_advance [of ?n ?r2] by simp
    show "ElementType ?r' = ty" using cbf by (simp add: ElementType_def advance_def)
  qed (simp_all add: advance_def)
qed

lemma AnonymousTag_special: "IsSpecialTag AnonymousTag" "\<not> TagNumFromTag AnonymousTag < 256"
  "\<not> IsContextTag AnonymousTag"
  unfolding AnonymousTag_ProfileTag by (simp_all add: IsSpecialTag_iff IsContextTag_iff)

lemma UnknownImplicitTag_special: "IsSpecialTag UnknownImplicitTag" "\<not> TagNumFromTag UnknownImplicitTag < 256"
  unfolding UnknownImplicitTag_ProfileTag by (simp_all add: IsSpecialTag_iff)

lemma VerifyElement_wf:
  assumes "wf_tag ct (mElemTag r)" "ElementType r \<noteq> kTLVElementType_EndOfContainer"
    "mContainerType r = ct \<or> mContainerType r = kTLVType_UnknownContainer"
    "TLVTypeHasLength (ElementType r) \<Longrightarrow> ucast (mElemLenOrVal r) \<le> mMaxLen r - mLenRead r"
  shows "VerifyElement r = WEAVE_NO_ERROR"
proof -
  have "mElemTag r \<noteq> UnknownImplicitTag"
    using assms(1) UnknownImplicitTag_special by (auto simp: wf_tag_def proper_tag_def)
  moreover have "mElemTag r \<noteq> AnonymousTag" if "ct = kTLVType_Structure \<or> ct = kTLVType_Path"
    using assms(1) that AnonymousTag_special by (auto simp: wf_tag_def TagAllowed_def)
  moreover have "mElemTag r = AnonymousTag" if "ct = kTLVType_Array"
    using assms(1) that by (auto simp: wf_tag_def TagAllowed_def proper_tag_def split: if_splits)
  moreover have "\<not> IsContextTag (mElemTag r)" if "ct = kTLVType_NotSpecified"
    using assms(1) that by (auto simp: wf_tag_def TagAllowed_def IsContextTag_iff split: if_splits)
  moreover have "ct \<in> {kTLVType_NotSpecified, kTLVType_Structure, kTLVType_Path, kTLVType_Array}"
    using assms(1) by (auto simp: wf_tag_def TagAllowed_def split: if_splits)
  ultimately show ?thesis using assms(2,3,4) by (auto simp: VerifyElement_def Let_def)
qed


section \<open>Stepping over elements\<close>

text \<open>
  One round of the loop of \<^verbatim>\<open>SkipToEndOfContainer\<close>, seen from before the head of the next
  element is read.
\<close>

definition scan :: "TLVType \<Rightarrow> nat \<Rightarrow> TLVReader \<Rightarrow> WEAVE_ERROR \<times> TLVReader" where
  "scan outer nest r = SuccessOrExit (ReadElement r) (SkipLoop outer nest)"

text \<open>The container type a scan may meet in front of an element of a container of type \<open>ct\<close>.\<close>

definition within :: "TLVType \<Rightarrow> TLVReader \<Rightarrow> bool" where
  "within ct r \<longleftrightarrow> mContainerType r = ct \<or> mContainerType r = kTLVType_UnknownContainer"

lemma EndOfContainer_bytes: "HeadBytes ip kTLVElementType_EndOfContainer AnonymousTag 0 = [0x18]"
  using AnonymousTag_special
  by (simp add: HeadBytes_def TagBytes_def ControlByte_def LenOrValBytes_def GetTLVFieldSize_def
      TLVTypeHasValue_def)

lemma proper_AnonymousTag [simp]: "proper_tag AnonymousTag"
  by (simp add: proper_tag_def)

lemma fits_zero [simp]: "fits ty 0"
  by (simp add: fits_def)

lemma moved_input:
  assumes "moved n r r'" "mInput r = bs @ rest" "length bs = n"
  shows "mInput r' = rest"
  using assms by (simp add: moved_def)

lemma moved_ip: "moved n r r' \<Longrightarrow> ImplicitProfileId r' = ImplicitProfileId r"
  by (simp add: moved_def)

lemma ReadElement_EndOfContainer:
  assumes "contiguous r" "mInput r = 0x18 # rest" "mContainerType r \<noteq> kTLVType_NotSpecified"
  obtains r' where "ReadElement r = (WEAVE_NO_ERROR, r')" "moved 1 r r'"
    "ElementType r' = kTLVElementType_EndOfContainer" "mContainerType r' = mContainerType r"
proof -
  let ?h = "HeadBytes (ImplicitProfileId r) kTLVElementType_EndOfContainer AnonymousTag 0"
  have h: "mInput r = ?h @ rest" using assms(2) EndOfContainer_bytes by simp
  obtain r' where r': "ReadElement r = (VerifyElement r', r')" "moved (length ?h) r r'"
    "ElementType r' = kTLVElementType_EndOfContainer" "mElemTag r' = AnonymousTag"
    "mContainerType r' = mContainerType r"
    by (rule ReadElement_head [OF assms(1) h]) simp_all
  moreover have "VerifyElement r' = WEAVE_NO_ERROR"
    using r'(3-5) assms(3) by (simp add: VerifyElement_def TLVTypeHasLength_def)
  ultimately show ?thesis using that [of r'] EndOfContainer_bytes by simp
qed

lemma ReadElement_wf_head:
  assumes r: "contiguous r" "mInput r = HeadBytes (ImplicitProfileId r) ty tag v @ rest" "within ct r"
    and e: "0 \<le> ty" "ty \<le> 0x17" "wf_tag ct tag" "fits ty v"
    and len: "TLVTypeHasLength ty \<Longrightarrow> unat (ucast v :: u32) \<le> length rest"
  obtains r' where "ReadElement r = (WEAVE_NO_ERROR, r')"
    "moved (length (HeadBytes (ImplicitProfileId r) ty tag v)) r r'" "ElementType r' = ty"
    "mElemTag r' = tag" "mElemLenOrVal r' = v" "mContainerType r' = mContainerType r"
proof -
  let ?n = "length (HeadBytes (ImplicitProfileId r) ty tag v)"
  have pt: "proper_tag tag" using e(3) by (simp add: wf_tag_def)
  obtain r' where r': "ReadElement r = (VerifyElement r', r')" "moved ?n r r'"
    "ElementType r' = ty" "mElemTag r' = tag" "mElemLenOrVal r' = v" "mContainerType r' = mContainerType r"
    by (rule ReadElement_head [OF r(1,2) e(1) _ pt e(4)]) (use e(2) in simp_all)
  have c': "contiguous r'" using r(1) r'(2) by (rule moved_contiguous) (simp add: r(2))
  then have ib: "in_bounds r'" by (simp add: contiguous_def)
  have "mInput r' = rest" using r'(2) r(2) by (rule moved_input) simp
  then have "length rest \<le> unat (mMaxLen r' - mLenRead r')"
    using ib in_bounds_lenRead [OF ib] by (auto simp: in_bounds_def)
  then have "ucast (mElemLenOrVal r') \<le> mMaxLen r' - mLenRead r'" if "TLVTypeHasLength ty"
    using len [OF that] r'(5) by (simp add: word_le_nat_alt)
  then have "VerifyElement r' = WEAVE_NO_ERROR"
    using r' r(3) e by (intro VerifyElement_wf [of ct]) (auto simp: within_def)
  with r' that show ?thesis by simp
qed

lemma SkipData_none: "\<not> TLVTypeHasLength (ElementType r) \<Longrightarrow> SkipData r = (WEAVE_NO_ERROR, r)"
  by (simp add: SkipData_def)

lemma SkipData_string:
  assumes "contiguous r" "TLVTypeHasLength (ElementType r)" "mElemLenOrVal r = of_nat (length bs)"
    "length bs < 2 ^ 32" "mInput r = bs @ rest"
  shows "SkipData r = (WEAVE_NO_ERROR, advance (length bs) r)"
proof -
  have "unat (ucast (of_nat (length bs) :: u64) :: u32) = length bs"
    using assms(4) by (simp add: unsigned_ucast_eq unsigned_of_nat take_bit_nat_eq_self)
  then show ?thesis
    using ReadData_contiguous_ok [OF assms(1), of "ucast (mElemLenOrVal r)"] assms by (simp add: SkipData_def)
qed


text \<open>
  A scan in front of a well-formed element goes on behind its last byte, at the same depth.
\<close>

definition steps_over :: "TLVType \<Rightarrow> nat \<Rightarrow> TLVType \<Rightarrow> nat \<Rightarrow> TLVReader \<Rightarrow> bool" where
  "steps_over outer nest ct n r \<longleftrightarrow>
     (\<exists>r'. scan outer nest r = scan outer nest r' \<and> moved n r r' \<and> within ct r')"

lemma SkipLoop_scan:
  "\<not> (ElementType r = kTLVElementType_EndOfContainer \<and> nest = 0) \<Longrightarrow>
     SkipLoop outer nest r = SuccessOrExit (SkipData (snd (SkipLevel outer nest r)))
       (scan outer (fst (SkipLevel outer nest r)))"
  by (simp add: SkipLoop_step scan_def [abs_def])

lemma scan_scalar:
  assumes "contiguous r" "mInput r = enc (ImplicitProfileId r) (Scalar ty tag v) @ rest" "within ct r"
    "wf_tlv ct (Scalar ty tag v)"
  shows "steps_over outer nest ct (length (enc (ImplicitProfileId r) (Scalar ty tag v))) r"
proof -
  have ty: "0 \<le> ty" "ty \<le> 0x17" "\<not> TLVTypeHasLength ty" "\<not> TLVTypeIsContainer ty" "ty \<noteq> 0x18"
    using assms(4) by (auto simp: scalar_type_def TLVTypeHasLength_def TLVTypeIsContainer_def)
  obtain r' where r': "ReadElement r = (WEAVE_NO_ERROR, r')"
    "moved (length (HeadBytes (ImplicitProfileId r) ty tag v)) r r'" "ElementType r' = ty"
    "mContainerType r' = mContainerType r"
    by (rule ReadElement_wf_head [OF assms(1) _ assms(3) ty(1,2), of tag v rest]) (use assms ty in auto)
  have "SkipLoop outer nest r' = scan outer nest r'"
    using r'(3) ty by (simp add: SkipLoop_scan SkipLevel_def Let_def SkipData_none)
  then have "scan outer nest r = scan outer nest r'" using r'(1) by (simp add: scan_def [of _ _ r])
  then show ?thesis using r' assms(3) by (auto simp: steps_over_def within_def)
qed

lemma within_advance [simp]: "within ct (advance n r) = within ct r"
  by (simp add: within_def advance_def)

lemma scan_string:
  assumes "contiguous r" "mInput r = enc (ImplicitProfileId r) (Str ty tag bs) @ rest" "within ct r"
    "wf_tlv ct (Str ty tag bs)"
  shows "steps_over outer nest ct (length (enc (ImplicitProfileId r) (Str ty tag bs))) r"
proof -
  let ?h = "HeadBytes (ImplicitProfileId r) ty tag (of_nat (length bs))"
  have ty: "0 \<le> ty" "ty \<le> 0x17" "TLVTypeHasLength ty" "\<not> TLVTypeIsContainer ty" "ty \<noteq> 0x18"
    using assms(4) by (auto simp: TLVTypeHasLength_def TLVTypeIsContainer_def)
  have lb: "length bs < 2 ^ 32" "wf_tag ct tag" "fits ty (of_nat (length bs))" using assms(4) by auto
  have ul: "unat (ucast (of_nat (length bs) :: u64) :: u32) = length bs"
    using lb(1) by (simp add: unsigned_ucast_eq unsigned_of_nat take_bit_nat_eq_self)
  have inp: "mInput r = ?h @ bs @ rest" using assms(2) by simp
  obtain r' where r': "ReadElement r = (WEAVE_NO_ERROR, r')" "moved (length ?h) r r'" "ElementType r' = ty"
    "mElemLenOrVal r' = of_nat (length bs)" "mContainerType r' = mContainerType r"
    by (rule ReadElement_wf_head [OF assms(1) inp assms(3) ty(1,2) lb(2,3)]) (use ul in auto)
  have c': "contiguous r'" using assms(1) r'(2) by (rule moved_contiguous) (simp add: inp)
  have inp': "mInput r' = bs @ rest" using r'(2) inp by (rule moved_input) simp
  have sd: "SkipData r' = (WEAVE_NO_ERROR, advance (length bs) r')"
    using SkipData_string [OF c' _ r'(4) lb(1) inp'] r'(3) ty by simp
  have "SkipLoop outer nest r' = scan outer nest (advance (length bs) r')"
    using r'(3) ty sd by (simp add: SkipLoop_scan SkipLevel_def Let_def)
  then have "scan outer nest r = scan outer nest (advance (length bs) r')"
    using r'(1) by (simp add: scan_def [of _ _ r])
  moreover have "moved (length ?h + length bs) r (advance (length bs) r')"
    using r'(2) by (rule moved_trans) (rule moved_advance)
  moreover have "within ct (advance (length bs) r')" using r'(5) assms(3) by (simp add: within_def advance_def)
  ultimately show ?thesis unfolding steps_over_def by (intro exI [of _ "advance (length bs) r'"]) simp
qed

lemma scan_list:
  assumes "\<And>e r rest. \<lbrakk>e \<in> set es; contiguous r; mInput r = enc (ImplicitProfileId r) e @ rest; within ct r\<rbrakk>
      \<Longrightarrow> steps_over outer nest ct (length (enc (ImplicitProfileId r) e)) r"
    and "contiguous r" "mInput r = concat (map (enc (ImplicitProfileId r)) es) @ rest" "within ct r"
  shows "steps_over outer nest ct (length (concat (map (enc (ImplicitProfileId r)) es))) r"
  using assms
proof (induction es arbitrary: r)
  case Nil
  then show ?case by (auto simp: steps_over_def intro: exI [of _ r])
next
  case (Cons e es)
  let ?ip = "ImplicitProfileId r"
  have inp: "mInput r = enc ?ip e @ concat (map (enc ?ip) es) @ rest" using Cons.prems(3) by simp
  obtain r1 where r1: "scan outer nest r = scan outer nest r1" "moved (length (enc ?ip e)) r r1" "within ct r1"
    using Cons.prems(1) [OF _ Cons.prems(2) inp Cons.prems(4)] by (auto simp: steps_over_def)
  have ip: "ImplicitProfileId r1 = ?ip" using r1(2) by (rule moved_ip)
  have c1: "contiguous r1" using Cons.prems(2) r1(2) by (rule moved_contiguous) (simp add: inp)
  have inp1: "mInput r1 = concat (map (enc ?ip) es) @ rest" using r1(2) inp by (rule moved_input) simp
  have "steps_over outer nest ct (length (concat (map (enc (ImplicitProfileId r1)) es))) r1"
    by (rule Cons.IH [OF _ c1 _ r1(3)]) (use Cons.prems(1) inp1 ip in auto)
  then obtain r2 where r2: "scan outer nest r1 = scan outer nest r2"
    "moved (length (concat (map (enc ?ip) es))) r1 r2" "within ct r2"
    unfolding ip by (auto simp: steps_over_def)
  have "moved (length (enc ?ip e) + length (concat (map (enc ?ip) es))) r r2"
    using r1(2) r2(2) by (rule moved_trans)
  with r1(1) r2 show ?case unfolding steps_over_def by (intro exI [of _ r2]) simp
qed

lemma scan_container:
  assumes IH: "\<And>e n r rest. \<lbrakk>e \<in> set es; contiguous r; mInput r = enc (ImplicitProfileId r) e @ rest; within ty r\<rbrakk>
      \<Longrightarrow> steps_over outer (Suc nest) ty (length (enc (ImplicitProfileId r) e)) r"
    and "contiguous r" "mInput r = enc (ImplicitProfileId r) (Cont ty tag es) @ rest" "within ct r"
    "wf_tlv ct (Cont ty tag es)" "nest = 0 \<Longrightarrow> outer = ct \<or> outer = kTLVType_UnknownContainer"
  shows "steps_over outer nest ct (length (enc (ImplicitProfileId r) (Cont ty tag es))) r"
proof -
  let ?ip = "ImplicitProfileId r"
  let ?h = "HeadBytes ?ip ty tag 0" and ?b = "concat (map (enc ?ip) es)"
  have ty: "0 \<le> ty" "ty \<le> 0x17" "\<not> TLVTypeHasLength ty" "TLVTypeIsContainer ty" "ty \<noteq> 0x18" "ty \<noteq> - 1"
    using assms(5) by (auto simp: TLVTypeHasLength_def TLVTypeIsContainer_def)
  have inp: "mInput r = ?h @ ?b @ 0x18 # rest" and tag: "wf_tag ct tag" using assms(3,5) by auto
  obtain r1 where r1: "ReadElement r = (WEAVE_NO_ERROR, r1)" "moved (length ?h) r r1" "ElementType r1 = ty"
    by (rule ReadElement_wf_head [OF assms(2) inp assms(4) ty(1,2) tag]) (use ty in auto)
  let ?r2 = "r1\<lparr>mContainerType := ty\<rparr>"
  have m2: "moved (length ?h) r ?r2" using r1 by simp
  have c2: "contiguous ?r2" using assms(2) m2 by (rule moved_contiguous) (simp add: inp)
  have inp2: "mInput ?r2 = ?b @ 0x18 # rest" using m2 inp by (rule moved_input) simp
  have ip2: "ImplicitProfileId ?r2 = ?ip" using m2 by (rule moved_ip)
  have s1: "scan outer nest r = scan outer (Suc nest) ?r2"
    using r1(1,3) ty by (simp add: scan_def [of _ _ r] SkipLoop_scan SkipLevel_def Let_def SkipData_none)
  have "steps_over outer (Suc nest) ty (length (concat (map (enc (ImplicitProfileId ?r2)) es))) ?r2"
    by (rule scan_list [OF IH c2]) (use inp2 ip2 in \<open>auto simp: within_def\<close>)
  then obtain r3 where r3: "scan outer (Suc nest) ?r2 = scan outer (Suc nest) r3" "moved (length ?b) ?r2 r3"
    "within ty r3"
    unfolding ip2 by (auto simp: steps_over_def)
  have c3: "contiguous r3" using c2 r3(2) by (rule moved_contiguous) (simp add: inp2)
  have inp3: "mInput r3 = 0x18 # rest" using r3(2) inp2 by (rule moved_input) simp
  obtain r4 where r4: "ReadElement r3 = (WEAVE_NO_ERROR, r4)" "moved 1 r3 r4" "ElementType r4 = 0x18"
    by (rule ReadElement_EndOfContainer [OF c3 inp3]) (use r3(3) ty in \<open>auto simp: within_def\<close>)
  let ?r5 = "r4\<lparr>mContainerType := (if nest = 0 then outer else kTLVType_UnknownContainer)\<rparr>"
  have s3: "scan outer (Suc nest) r3 = scan outer nest ?r5"
    using r4 ty by (simp add: scan_def [of _ _ r3] SkipLoop_scan SkipLevel_def Let_def SkipData_none TLVTypeHasLength_def)
  have "moved (length ?b + 1) ?r2 ?r5" using moved_trans [OF r3(2) r4(2)] by simp
  with m2 have "moved (length ?h + (length ?b + 1)) r ?r5" by (rule moved_trans)
  moreover have "within ct ?r5" using assms(6) by (auto simp: within_def)
  ultimately show ?thesis unfolding steps_over_def using s1 r3(1) s3 by (intro exI [of _ ?r5]) simp
qed

lemma scan_element:
  assumes "contiguous r" "mInput r = enc (ImplicitProfileId r) e @ rest" "within ct r" "wf_tlv ct e"
    "nest = 0 \<Longrightarrow> outer = ct \<or> outer = kTLVType_UnknownContainer"
  shows "steps_over outer nest ct (length (enc (ImplicitProfileId r) e)) r"
  using assms
proof (induction e arbitrary: ct nest r rest)
  case (Scalar ty tag v)
  then show ?case by (intro scan_scalar) 
next
  case (Str ty tag bs)
  then show ?case by (intro scan_string)
next
  case (Cont ty tag es)
  show ?case
  proof (rule scan_container [OF _ Cont.prems])
    fix e r rest
    assume "e \<in> set es" "contiguous r" "mInput r = enc (ImplicitProfileId r) e @ rest" "within ty r"
    then show "steps_over outer (Suc nest) ty (length (enc (ImplicitProfileId r) e)) r"
      using Cont.prems(4) by (intro Cont.IH) auto
  qed
qed


section \<open>The cursor over encoded elements\<close>

text \<open>
  \<open>on e rest r\<close>: the reader is on element \<open>e\<close> (its head is consumed, its body is not), and
  \<open>rest\<close> follows the element.  \<open>before r\<close>: it is between two elements of a container.
\<close>

definition before :: "TLVReader \<Rightarrow> bool" where
  "before r \<longleftrightarrow> contiguous r \<and> ElementType r = kTLVElementType_NotSpecified"

fun on :: "tlv \<Rightarrow> u8 list \<Rightarrow> TLVReader \<Rightarrow> bool" where
  "on (Scalar ty tag v) rest r \<longleftrightarrow> contiguous r \<and> ElementType r = ty \<and> mElemTag r = tag \<and>
     mElemLenOrVal r = v \<and> mInput r = rest"
| "on (Str ty tag bs) rest r \<longleftrightarrow> contiguous r \<and> ElementType r = ty \<and> mElemTag r = tag \<and>
     mElemLenOrVal r = of_nat (length bs) \<and> mInput r = bs @ rest"
| "on (Cont ty tag es) rest r \<longleftrightarrow> contiguous r \<and> ElementType r = ty \<and> mElemTag r = tag \<and>
     mElemLenOrVal r = 0 \<and> mInput r = concat (map (enc (ImplicitProfileId r)) es) @ 0x18 # rest"

primrec head :: "u32 \<Rightarrow> tlv \<Rightarrow> u8 list" where
  "head ip (Scalar ty tag v) = HeadBytes ip ty tag v"
| "head ip (Str ty tag bs) = HeadBytes ip ty tag (of_nat (length bs))"
| "head ip (Cont ty tag es) = HeadBytes ip ty tag 0"

lemma on_contiguous: "on e rest r \<Longrightarrow> contiguous r"
  by (cases e) simp_all

lemma on_tag_type: 
  assumes "on e rest r" "wf_tlv ct e"
  shows "wf_tag ct (mElemTag r)" "0 \<le> ElementType r" "ElementType r \<le> 0x17"
  using assms by (cases e; auto simp: scalar_type_def)+

lemma ReadElement_on:
  assumes "contiguous r" "mInput r = enc (ImplicitProfileId r) e @ rest" "wf_tlv (mContainerType r) e"
  obtains r' where "ReadElement r = (WEAVE_NO_ERROR, r')" "on e rest r'"
    "moved (length (head (ImplicitProfileId r) e)) r r'" "mContainerType r' = mContainerType r"
proof -
  let ?ip = "ImplicitProfileId r"
  have w: "within (mContainerType r) r" by (simp add: within_def)
  obtain ty tag v body where h: "head ?ip e = HeadBytes ?ip ty tag v" "enc ?ip e = head ?ip e @ body"
    "0 \<le> ty" "ty \<le> 0x17" "wf_tag (mContainerType r) tag" "fits ty v"
    "TLVTypeHasLength ty \<Longrightarrow> unat (ucast v :: u32) \<le> length (body @ rest)"
    "\<And>r'. \<lbrakk>contiguous r'; ElementType r' = ty; mElemTag r' = tag; mElemLenOrVal r' = v;
       mInput r' = body @ rest; ImplicitProfileId r' = ?ip\<rbrakk> \<Longrightarrow> on e rest r'"
  proof (cases e)
    case (Scalar ty tag v)
    with assms(3) show ?thesis
      by (intro that [of ty tag v "[]"]) (auto simp: scalar_type_def TLVTypeHasLength_def)
  next
    case (Str ty tag bs)
    then have "unat (ucast (of_nat (length bs) :: u64) :: u32) = length bs"
      using assms(3) by (simp add: unsigned_ucast_eq unsigned_of_nat take_bit_nat_eq_self)
    with Str assms(3) show ?thesis by (intro that [of ty tag "of_nat (length bs)" bs]) auto
  next
    case (Cont ty tag es)
    with assms(3) show ?thesis
      by (intro that [of ty tag 0 "concat (map (enc ?ip) es) @ [0x18]"]) (auto simp: TLVTypeHasLength_def)
  qed
  have inp: "mInput r = HeadBytes ?ip ty tag v @ body @ rest" using assms(2) h(1,2) by simp
  obtain r' where r': "ReadElement r = (WEAVE_NO_ERROR, r')" "moved (length (HeadBytes ?ip ty tag v)) r r'"
    "ElementType r' = ty" "mElemTag r' = tag" "mElemLenOrVal r' = v" "mContainerType r' = mContainerType r"
    by (rule ReadElement_wf_head [OF assms(1) inp w h(3-7)])
  have "contiguous r'" using assms(1) r'(2) by (rule moved_contiguous) (simp add: inp)
  moreover have "mInput r' = body @ rest" using r'(2) inp by (rule moved_input) simp
  ultimately have "on e rest r'" using h(8) r' moved_ip [OF r'(2)] by blast
  then show ?thesis using that r' h(1) by simp
qed

lemma Skip_before: "before r \<Longrightarrow> Skip r = (WEAVE_NO_ERROR, ClearElementState r)"
  by (simp add: Skip_def before_def TLVTypeIsContainer_def SkipData_def TLVTypeHasLength_def)

lemma ClearElementState_fields [simp]:
  "ElementType (ClearElementState r) = kTLVElementType_NotSpecified"
  "contiguous (ClearElementState r) = contiguous r" "mInput (ClearElementState r) = mInput r"
  "ImplicitProfileId (ClearElementState r) = ImplicitProfileId r"
  "mContainerType (ClearElementState r) = mContainerType r"
  "mContainerOpen (ClearElementState r) = mContainerOpen r" "GetNextBuffer (ClearElementState r) = GetNextBuffer r"
  "moved n r (ClearElementState r') = moved n r r'" "moved n (ClearElementState r) r' = moved n r r'"
  by (auto simp: ClearElementState_def ElementType_def contiguous_def in_bounds_def moved_def)

text \<open>From the inside of a container, \<^verbatim>\<open>ExitContainer\<close> leads behind its end marker.\<close>

lemma scan_end:
  assumes "contiguous r" "mInput r = 0x18 # rest" "mContainerType r \<noteq> kTLVType_NotSpecified"
  obtains r' where "scan outer 0 r = (WEAVE_NO_ERROR, r')" "moved 1 r r'"
  by (rule ReadElement_EndOfContainer [OF assms]) (use that in \<open>auto simp: scan_def\<close>)

lemma scan_container_rest:
  assumes "contiguous r" "mInput r = concat (map (enc (ImplicitProfileId r)) es) @ 0x18 # rest"
    "mContainerType r = ct" "\<forall>e \<in> set es. wf_tlv ct e" "ct \<noteq> kTLVType_NotSpecified"
  obtains r' where "scan ct 0 r = (WEAVE_NO_ERROR, r')"
    "moved (length (concat (map (enc (ImplicitProfileId r)) es)) + 1) r r'"
proof -
  let ?b = "concat (map (enc (ImplicitProfileId r)) es)"
  have "steps_over ct 0 ct (length ?b) r"
    by (rule scan_list [OF scan_element assms(1,2)]) (use assms in \<open>auto simp: within_def\<close>)
  then obtain r1 where r1: "scan ct 0 r = scan ct 0 r1" "moved (length ?b) r r1" "within ct r1"
    by (auto simp: steps_over_def)
  have c1: "contiguous r1" using assms(1) r1(2) by (rule moved_contiguous) (simp add: assms(2))
  have inp1: "mInput r1 = 0x18 # rest" using r1(2) assms(2) by (rule moved_input) simp
  obtain r2 where "scan ct 0 r1 = (WEAVE_NO_ERROR, r2)" "moved 1 r1 r2"
    by (rule scan_end [OF c1 inp1, where outer = ct]) (use r1(3) assms(5) in \<open>auto simp: within_def\<close>)
  then show ?thesis using r1(1) moved_trans [OF r1(2), of 1 r2] by (intro that [of r2]) simp_all
qed

lemma SkipToEndOfContainer_before:
  assumes "ElementType r = kTLVElementType_NotSpecified" "\<not> mContainerOpen r"
  shows "SkipToEndOfContainer r = scan (mContainerType r) 0 r"
proof -
  have "r\<lparr>mContainerOpen := False\<rparr> = r" using assms(2) by simp
  then show ?thesis using assms(1)
    by (simp add: SkipToEndOfContainer_def SkipLoop_scan SkipLevel_def SkipData_none
        TLVTypeIsContainer_def TLVTypeHasLength_def)
qed

lemma ExitContainer_before:
  assumes "before r" "\<not> mContainerOpen r"
    "mInput r = concat (map (enc (ImplicitProfileId r)) es) @ 0x18 # rest"
    "\<forall>e \<in> set es. wf_tlv (mContainerType r) e" "mContainerType r \<noteq> kTLVType_NotSpecified"
  obtains r' where "ExitContainer outer r = (WEAVE_NO_ERROR, r')" "before r'" "mInput r' = rest"
    "moved (length (concat (map (enc (ImplicitProfileId r)) es)) + 1) r r'" "mContainerType r' = outer"
proof -
  let ?b = "concat (map (enc (ImplicitProfileId r)) es)"
  have c: "contiguous r" "ElementType r = kTLVElementType_NotSpecified" using assms(1) by (auto simp: before_def)
  obtain r1 where r1: "scan (mContainerType r) 0 r = (WEAVE_NO_ERROR, r1)" "moved (length ?b + 1) r r1"
    by (rule scan_container_rest [OF c(1) assms(3) refl assms(4,5)])
  let ?r2 = "ClearElementState (r1\<lparr>mContainerType := outer\<rparr>)"
  have m: "moved (length ?b + 1) r ?r2" using r1 by simp
  have "contiguous ?r2" using c(1) m by (rule moved_contiguous) (simp add: assms(3))
  moreover have "mInput ?r2 = rest" using m by (rule moved_input [where bs = "?b @ [0x18]"]) (simp_all add: assms(3))
  moreover have "ExitContainer outer r = (WEAVE_NO_ERROR, ?r2)"
    using r1 SkipToEndOfContainer_before [OF c(2) assms(2)] by (simp add: ExitContainer_def)
  ultimately show ?thesis using that m by (simp add: before_def)
qed


text \<open>What every movement of the cursor keeps.\<close>

definition same_level :: "TLVReader \<Rightarrow> TLVReader \<Rightarrow> bool" where
  "same_level r r' \<longleftrightarrow> mContainerType r' = mContainerType r \<and> ImplicitProfileId r' = ImplicitProfileId r \<and>
     \<not> mContainerOpen r'"

lemma same_level_trans: "same_level r r' \<Longrightarrow> same_level r' r'' \<Longrightarrow> same_level r r''"
  by (simp add: same_level_def)

lemma moved_same_level:
  "\<lbrakk>moved n r r'; mContainerType r' = mContainerType r; \<not> mContainerOpen r\<rbrakk> \<Longrightarrow> same_level r r'"
  by (simp add: moved_def same_level_def)

lemma Skip_on:
  assumes "on e rest r" "wf_tlv ct e" "\<not> mContainerOpen r"
  obtains r' where "Skip r = (WEAVE_NO_ERROR, r')" "before r'" "mInput r' = rest" "same_level r r'"
proof (cases e)
  case (Scalar ty tag v)
  then have "\<not> TLVTypeIsContainer (ElementType r)" "\<not> TLVTypeHasLength (ElementType r)" "ElementType r \<noteq> 0x18"
    using assms by (auto simp: scalar_type_def TLVTypeIsContainer_def TLVTypeHasLength_def)
  then have "Skip r = (WEAVE_NO_ERROR, ClearElementState r)" by (simp add: Skip_def SkipData_none)
  with assms Scalar show ?thesis
    by (intro that [of "ClearElementState r"]) (auto simp: before_def same_level_def)
next
  case (Str ty tag bs)
  have ty: "\<not> TLVTypeIsContainer (ElementType r)" "TLVTypeHasLength (ElementType r)" "ElementType r \<noteq> 0x18"
    using assms Str by (auto simp: TLVTypeIsContainer_def TLVTypeHasLength_def)
  have c: "contiguous r" and inp: "mInput r = bs @ rest" using assms(1) Str by auto
  let ?r' = "ClearElementState (advance (length bs) r)"
  have "SkipData r = (WEAVE_NO_ERROR, advance (length bs) r)"
    using SkipData_string [OF c ty(2) _ _ inp] assms Str by auto
  then have "Skip r = (WEAVE_NO_ERROR, ?r')" using ty by (simp add: Skip_def)
  moreover have m: "moved (length bs) r ?r'" by (simp add: moved_advance)
  moreover have "contiguous ?r'" using c m by (rule moved_contiguous) (simp add: inp)
  ultimately show ?thesis using assms(3) inp
    by (intro that [of ?r']) (auto simp: before_def same_level_def advance_def)
next
  case (Cont ty tag es)
  have ty: "TLVTypeIsContainer ty" "ty \<noteq> 0x18" "ty \<noteq> - 1" "ElementType r = ty"
    using assms Cont by (auto simp: TLVTypeIsContainer_def)
  have wf: "\<forall>e \<in> set es. wf_tlv ty e" using assms(2) Cont by simp
  let ?r1 = "(ClearElementState (r\<lparr>mContainerType := ty\<rparr>))\<lparr>mContainerOpen := False\<rparr>"
  have b: "before ?r1" using assms(1) Cont by (simp add: before_def contiguous_def)
  have inp: "mInput ?r1 = concat (map (enc (ImplicitProfileId ?r1)) es) @ 0x18 # rest"
    using assms(1) Cont by simp
  have ip: "ImplicitProfileId ?r1 = ImplicitProfileId r" by simp
  obtain r2 where r2: "ExitContainer (mContainerType r) ?r1 = (WEAVE_NO_ERROR, r2)" "before r2" "mInput r2 = rest"
    "moved (length (concat (map (enc (ImplicitProfileId ?r1)) es)) + 1) ?r1 r2" "mContainerType r2 = mContainerType r"
    by (rule ExitContainer_before [OF b _ inp, where outer = "mContainerType r"]) (use wf ty in auto)
  have "Skip r = (WEAVE_NO_ERROR, r2)" using ty r2(1) by (simp add: Skip_def EnterContainer_def)
  moreover have "same_level r r2" using r2(4,5) by (simp add: moved_def same_level_def)
  ultimately show ?thesis using that r2 by blast
qed

lemma on_not_end: "on e rest r \<Longrightarrow> wf_tlv ct e \<Longrightarrow> ElementType r \<noteq> kTLVElementType_EndOfContainer"
  using on_tag_type(3) [of e rest r ct] by auto

text \<open>
  \<open>at rest r\<close>: the reader is somewhere in a container (between elements or on one), and
  \<open>rest\<close> is what follows the element it is on.
\<close>

definition at :: "u8 list \<Rightarrow> TLVReader \<Rightarrow> bool" where
  "at rest r \<longleftrightarrow> \<not> mContainerOpen r \<and>
     (before r \<and> mInput r = rest \<or> (\<exists>e. wf_tlv (mContainerType r) e \<and> on e rest r))"

lemma Skip_at:
  assumes "at rest r"
  obtains r' where "Skip r = (WEAVE_NO_ERROR, r')" "before r'" "mInput r' = rest" "same_level r r'"
proof (cases "before r \<and> mInput r = rest")
  case True
  with assms Skip_before [of r] show ?thesis
    by (intro that [of "ClearElementState r"]) (auto simp: before_def same_level_def at_def)
next
  case False
  with assms that show ?thesis by (auto simp: at_def elim: Skip_on)
qed

lemma Next_at:
  assumes "at (enc (ImplicitProfileId r) e @ rest) r" "wf_tlv (mContainerType r) e"
  obtains r' where "Next r = (WEAVE_NO_ERROR, r')" "on e rest r'" "same_level r r'" "at rest r'"
proof -
  obtain r1 where r1: "Skip r = (WEAVE_NO_ERROR, r1)" "before r1"
    "mInput r1 = enc (ImplicitProfileId r) e @ rest" "same_level r r1"
    by (rule Skip_at [OF assms(1)])
  then have ip: "ImplicitProfileId r1 = ImplicitProfileId r" and ct: "mContainerType r1 = mContainerType r"
    and op: "\<not> mContainerOpen r1" by (auto simp: same_level_def)
  have c1: "contiguous r1" using r1(2) by (simp add: before_def)
  obtain r2 where r2: "ReadElement r1 = (WEAVE_NO_ERROR, r2)" "on e rest r2"
    "moved (length (head (ImplicitProfileId r1) e)) r1 r2" "mContainerType r2 = mContainerType r1"
    by (rule ReadElement_on [OF c1, of e rest]) (use r1 ip ct assms(2) in auto)
  have "same_level r1 r2" using r2(3,4) op by (rule moved_same_level)
  with r1(4) have sl: "same_level r r2" by (rule same_level_trans)
  moreover have "at rest r2" using r2(2) sl assms(2) by (auto simp: at_def same_level_def)
  moreover have "Next r = (WEAVE_NO_ERROR, r2)"
    using r1(1) r2(1) on_not_end [OF r2(2) assms(2)] by (simp add: Next_def)
  ultimately show ?thesis using that r2(2) by blast
qed

lemma Next_at_end:
  assumes "at (0x18 # rest) r" "mContainerType r \<noteq> kTLVType_NotSpecified"
  obtains r' where "Next r = (WEAVE_END_OF_TLV, r')" "ElementType r' = kTLVElementType_EndOfContainer"
    "mInput r' = rest" "same_level r r'" "contiguous r'"
proof -
  obtain r1 where r1: "Skip r = (WEAVE_NO_ERROR, r1)" "before r1" "mInput r1 = 0x18 # rest" "same_level r r1"
    by (rule Skip_at [OF assms(1)])
  have c1: "contiguous r1" and ct: "mContainerType r1 \<noteq> kTLVType_NotSpecified" and op: "\<not> mContainerOpen r1"
    using r1 assms(2) by (auto simp: before_def same_level_def)
  obtain r2 where r2: "ReadElement r1 = (WEAVE_NO_ERROR, r2)" "moved 1 r1 r2" "ElementType r2 = 0x18"
    "mContainerType r2 = mContainerType r1"
    by (rule ReadElement_EndOfContainer [OF c1 r1(3) ct])
  have "same_level r1 r2" using r2(2,4) op by (rule moved_same_level)
  with r1(4) have sl: "same_level r r2" by (rule same_level_trans)
  moreover have "contiguous r2" using c1 r2(2) by (rule moved_contiguous) (simp add: r1(3))
  moreover have "mInput r2 = rest" using r2(2) r1(3) by (simp add: moved_def)
  moreover have "Next r = (WEAVE_END_OF_TLV, r2)" using r1(1) r2(1,3) by (simp add: Next_def)
  ultimately show ?thesis using that r2(3) by blast
qed

lemma EnsureData_end: "contiguous r \<Longrightarrow> mInput r = [] \<Longrightarrow> EnsureData e r = (e, r)"
  by (simp add: EnsureData_contiguous)

lemma Next_at_eof:
  assumes "at [] r"
  obtains r' where "Next r = (WEAVE_END_OF_TLV, r')" "before r'" "mInput r' = []" "same_level r r'"
proof -
  obtain r1 where r1: "Skip r = (WEAVE_NO_ERROR, r1)" "before r1" "mInput r1 = []" "same_level r r1"
    by (rule Skip_at [OF assms(1)])
  then have "ReadElement r1 = (WEAVE_END_OF_TLV, r1)"
    using EnsureData_end [of r1 WEAVE_END_OF_TLV] by (simp add: ReadElement_def before_def)
  with r1 show ?thesis by (intro that [of r1]) (auto simp: Next_def)
qed

lemma EnterContainer_on:
  assumes "on (Cont ty tag es) rest r" "wf_tlv ct (Cont ty tag es)"
  obtains r' where "EnterContainer r = (WEAVE_NO_ERROR, Some (mContainerType r), r')"
    "before r'" "at (concat (map (enc (ImplicitProfileId r')) es) @ 0x18 # rest) r'"
    "mContainerType r' = ty" "ImplicitProfileId r' = ImplicitProfileId r"
proof -
  let ?r1 = "(ClearElementState (r\<lparr>mContainerType := ty\<rparr>))\<lparr>mContainerOpen := False\<rparr>"
  have ty: "TLVTypeIsContainer ty" "ElementType r = ty" using assms by (auto simp: TLVTypeIsContainer_def)
  have b: "before ?r1" using assms(1) by (simp add: before_def contiguous_def)
  have "at (concat (map (enc (ImplicitProfileId ?r1)) es) @ 0x18 # rest) ?r1"
    using assms(1) b by (simp add: at_def)
  then show ?thesis using ty b by (intro that [of ?r1]) (auto simp: EnterContainer_def)
qed

end
