(* ===== verification/TLV_Codec.thy ===== *)
theory TLV_Codec
  imports TLV_Syntax
begin

text \<open>
  Writer and reader together.  A client that writes a tree of elements through the public calls of
  \<^verbatim>\<open>TLVWriter\<close> leaves exactly the encoding of the tree in the buffer, given room for it, and a
  client that walks that buffer with \<^verbatim>\<open>Next\<close>, \<^verbatim>\<open>EnterContainer\<close>, \<^verbatim>\<open>ExitContainer\<close> and
  \<^verbatim>\<open>GetBytes\<close> gets the tree back.  The typed \<^verbatim>\<open>Put\<close> and \<^verbatim>\<open>Get\<close> calls are inverse to each other.
\<close>

section \<open>Room in the output\<close>

definition room :: "TLVWriter \<Rightarrow> nat \<Rightarrow> bool" where
  "room w n \<longleftrightarrow> unat (mLenWritten w) + n \<le> unat (mWMaxLen w) \<and>
     unat (mWMaxLen w) - unat (mLenWritten w) \<le> unat (mRemainingLen w)"

lemma PutRaw_append: "PutRaw bs (PutRaw as w) = PutRaw (as @ bs) w"
  by (simp add: PutRaw_def algebra_simps)

lemma PutRaw_fields [simp]:
  "mWContainerType (PutRaw bs w) = mWContainerType w" "mWContainerOpen (PutRaw bs w) = mWContainerOpen w"
  "WImplicitProfileId (PutRaw bs w) = WImplicitProfileId w" "mWMaxLen (PutRaw bs w) = mWMaxLen w"
  "mCloseContainerReserved (PutRaw bs w) = mCloseContainerReserved w"
  "PutRaw bs (w\<lparr>mWContainerType := ct\<rparr>) = (PutRaw bs w)\<lparr>mWContainerType := ct\<rparr>"
  "PutRaw bs (w\<lparr>mWMaxLen := m\<rparr>) = (PutRaw bs w)\<lparr>mWMaxLen := m\<rparr>"
  by (simp_all add: PutRaw_def)

lemma room_bounds:
  assumes "room w n"
  shows "n < 2 ^ 32" "unat (of_nat n :: u32) = n" "unat (mLenWritten w + of_nat n) = unat (mLenWritten w) + n"
    "n \<le> unat (mRemainingLen w)" "unat (mRemainingLen w - of_nat n) = unat (mRemainingLen w) - n"
proof -
  have le: "unat (mLenWritten w) + n < 2 ^ 32"
    using assms unat_u32_less [of "mWMaxLen w"] by (simp add: room_def)
  then show n: "n < 2 ^ 32" by simp
  then show u: "unat (of_nat n :: u32) = n" by (rule unat_of_nat_u32)
  show "unat (mLenWritten w + of_nat n) = unat (mLenWritten w) + n" using le u by (simp add: unat_add_u32)
  show r: "n \<le> unat (mRemainingLen w)" using assms by (auto simp: room_def)
  then show "unat (mRemainingLen w - of_nat n) = unat (mRemainingLen w) - n"
    using u unat_sub [of "of_nat n" "mRemainingLen w"] by (simp add: word_le_nat_alt)
qed

lemma room_mono: "room w n \<Longrightarrow> m \<le> n \<Longrightarrow> room w m"
  by (simp add: room_def)

lemma room_PutRaw:
  assumes "room w (length bs + n)"
  shows "room (PutRaw bs w) n"
proof -
  have "room w (length bs)" using assms by (rule room_mono) simp
  from room_bounds [OF this] assms show ?thesis by (auto simp: room_def PutRaw_def)
qed

lemma room_updates [simp]: "room (w\<lparr>mWContainerType := ct\<rparr>) n = room w n"
  "room (w\<lparr>mWContainerOpen := b\<rparr>) n = room w n"
  by (simp_all add: room_def)

lemma WriteData_room:
  assumes "room w (length p)"
  shows "WriteData p w = Some (WEAVE_NO_ERROR, PutRaw p w)"
proof -
  have "mLenWritten w + of_nat (length p) \<le> mWMaxLen w"
    using assms room_bounds [OF assms] by (simp add: room_def word_le_nat_alt)
  then show ?thesis using WriteLoop_fits [OF room_bounds(4) [OF assms]] by (simp add: WriteData_def)
qed

lemma WriteElementHead_room:
  assumes "room w (length (HeadBytes (WImplicitProfileId w) ty tag v))" "\<not> mWContainerOpen w"
    "TagAllowed (mWContainerType w) ty tag"
  shows "WriteElementHead ty tag v w = Some (WEAVE_NO_ERROR, PutRaw (HeadBytes (WImplicitProfileId w) ty tag v) w)"
  using assms by (simp add: WriteElementHead_def WriteData_room Let_def)

lemma TagAllowed_wf: "wf_tag ct tag \<Longrightarrow> TagAllowed ct ty tag"
  by (auto simp: wf_tag_def TagAllowed_def split: if_splits)

section \<open>A client that writes a tree\<close>

primrec write_tlv :: "tlv \<Rightarrow> TLVWriter \<Rightarrow> write_result" where
  "write_tlv (Scalar ty tag v) = WriteElementHead ty tag v"
| "write_tlv (Str ty tag bs) =
     (\<lambda>w. WSuccessOrExit (WriteElementHead ty tag (of_nat (length bs)) w) (WriteData bs))"
| "write_tlv (Cont ty tag es) =
     (\<lambda>w. case StartContainer tag ty w of
        None \<Rightarrow> None
      | Some (err, None, w1) \<Rightarrow> Some (err, w1)
      | Some (err, Some outer, w1) \<Rightarrow>
          WSuccessOrExit (fold (\<lambda>f res. WSuccessOrExit res f) (map write_tlv es) (Some (err, w1)))
            (EndContainer outer))"

definition write_list :: "tlv list \<Rightarrow> TLVWriter \<Rightarrow> write_result" where
  "write_list es w = fold (\<lambda>f res. WSuccessOrExit res f) (map write_tlv es) (Some (WEAVE_NO_ERROR, w))"

lemma write_list_simps [simp]:
  "write_list [] w = Some (WEAVE_NO_ERROR, w)"
  "write_tlv e w = Some (WEAVE_NO_ERROR, w') \<Longrightarrow> write_list (e # es) w = write_list es w'"
  by (simp_all add: write_list_def)

lemma write_list_enc:
  assumes "\<And>e w. \<lbrakk>e \<in> set es; \<not> mWContainerOpen w; mWContainerType w = ct; room w (length (enc (WImplicitProfileId w) e))\<rbrakk>
      \<Longrightarrow> write_tlv e w = Some (WEAVE_NO_ERROR, PutRaw (enc (WImplicitProfileId w) e) w)"
    and "\<not> mWContainerOpen w" "mWContainerType w = ct"
    "room w (length (concat (map (enc (WImplicitProfileId w)) es)))"
  shows "write_list es w = Some (WEAVE_NO_ERROR, PutRaw (concat (map (enc (WImplicitProfileId w)) es)) w)"
  using assms
proof (induction es arbitrary: w)
  case (Cons e es)
  let ?ip = "WImplicitProfileId w" and ?w1 = "PutRaw (enc (WImplicitProfileId w) e) w"
  have rm: "room w (length (enc ?ip e) + length (concat (map (enc ?ip) es)))" using Cons.prems(4) by simp
  have "write_tlv e w = Some (WEAVE_NO_ERROR, ?w1)"
    by (rule Cons.prems(1)) (use Cons.prems(2,3) room_mono [OF rm] in auto)
  moreover have "write_list es ?w1 = Some (WEAVE_NO_ERROR, PutRaw (concat (map (enc (WImplicitProfileId ?w1)) es)) ?w1)"
    by (rule Cons.IH [OF Cons.prems(1)]) (use Cons.prems(2,3) room_PutRaw [OF rm] in auto)
  ultimately show ?case by (simp add: PutRaw_append)
qed simp

lemma Reserve_room:
  assumes "room w (n + 1)"
  shows "room (ReserveClose w) n" "UnreserveClose (PutRaw bs (ReserveClose w)) = PutRaw bs w"
proof -
  have "1 \<le> mWMaxLen w" using assms by (auto simp: room_def word_le_nat_alt)
  then have "unat (mWMaxLen w - 1) = unat (mWMaxLen w) - 1" using unat_sub [of 1 "mWMaxLen w"] by simp
  with assms show "room (ReserveClose w) n" by (auto simp: room_def ReserveClose_def)
  show "UnreserveClose (PutRaw bs (ReserveClose w)) = PutRaw bs w"
    by (simp add: UnreserveClose_def ReserveClose_def)
qed

lemma Reserve_fields [simp]:
  "mWContainerType (ReserveClose w) = mWContainerType w" "mWContainerOpen (ReserveClose w) = mWContainerOpen w"
  "WImplicitProfileId (ReserveClose w) = WImplicitProfileId w"
  "mWContainerType (UnreserveClose w) = mWContainerType w" "mWContainerOpen (UnreserveClose w) = mWContainerOpen w"
  "WImplicitProfileId (UnreserveClose w) = WImplicitProfileId w"
  "UnreserveClose (w\<lparr>mWContainerType := ct\<rparr>) = (UnreserveClose w)\<lparr>mWContainerType := ct\<rparr>"
  by (simp_all add: ReserveClose_def UnreserveClose_def)

lemma write_container:
  assumes IH: "\<And>w. \<lbrakk>\<not> mWContainerOpen w; mWContainerType w = ty; room w (length (concat (map (enc (WImplicitProfileId w)) es)))\<rbrakk>
      \<Longrightarrow> write_list es w = Some (WEAVE_NO_ERROR, PutRaw (concat (map (enc (WImplicitProfileId w)) es)) w)"
    and w: "\<not> mWContainerOpen w" "wf_tlv (mWContainerType w) (Cont ty tag es)"
      "room w (length (enc (WImplicitProfileId w) (Cont ty tag es)))"
  shows "write_tlv (Cont ty tag es) w = Some (WEAVE_NO_ERROR, PutRaw (enc (WImplicitProfileId w) (Cont ty tag es)) w)"
proof -
  let ?ip = "WImplicitProfileId w"
  let ?h = "HeadBytes ?ip ty tag 0" and ?b = "concat (map (enc ?ip) es)"
  have ty: "TLVTypeIsContainer ty" "wf_tag (mWContainerType w) tag"
    using w(2) by (auto simp: TLVTypeIsContainer_def)
  have rm: "room w (length ?h + length ?b + 1)" using w(3) by simp
  note rc = Reserve_room [OF rm]
  let ?w1 = "(PutRaw ?h (ReserveClose w))\<lparr>mWContainerType := ty, mWContainerOpen := False\<rparr>"
  have "WriteElementHead ty tag 0 (ReserveClose w) = Some (WEAVE_NO_ERROR, PutRaw ?h (ReserveClose w))"
    using WriteElementHead_room [of "ReserveClose w" ty tag 0] room_mono [OF rc(1)] w(1) TagAllowed_wf [OF ty(2)]
    by simp
  then have st: "StartContainer tag ty w = Some (WEAVE_NO_ERROR, Some (mWContainerType w), ?w1)"
    using ty by (simp add: StartContainer_def)
  have rw1: "room ?w1 (length ?b)" using room_PutRaw [OF rc(1)] by simp
  have wl: "write_list es ?w1 = Some (WEAVE_NO_ERROR, PutRaw ?b ?w1)"
    using IH [where w = ?w1] rw1 by simp
  have ur: "UnreserveClose ((PutRaw ?b ?w1)\<lparr>mWContainerType := mWContainerType w\<rparr>) = PutRaw (?h @ ?b) w"
    using w(1) by (simp add: PutRaw_def ReserveClose_def UnreserveClose_def algebra_simps)
  have rw: "room w (length (?h @ ?b) + 1)" using rm by simp
  have "EndContainer (mWContainerType w) (PutRaw ?b ?w1) = Some (WEAVE_NO_ERROR, PutRaw [0x18] (PutRaw (?h @ ?b) w))"
    using WriteElementHead_room [of "PutRaw (?h @ ?b) w" "0x18" AnonymousTag 0] room_PutRaw [OF rw] w(1) ur ty(1)
      AnonymousTag_special
    by (simp add: EndContainer_def EndOfContainer_bytes TagAllowed_def)
  with st wl show ?thesis by (simp add: write_list_def PutRaw_append)
qed

lemma write_tlv_enc:
  "\<lbrakk>\<not> mWContainerOpen w; wf_tlv (mWContainerType w) e; room w (length (enc (WImplicitProfileId w) e))\<rbrakk>
    \<Longrightarrow> write_tlv e w = Some (WEAVE_NO_ERROR, PutRaw (enc (WImplicitProfileId w) e) w)"
proof (induction e arbitrary: w)
  case (Scalar ty tag v)
  then show ?case by (auto intro!: WriteElementHead_room TagAllowed_wf)
next
  case (Str ty tag bs)
  then have rm: "room w (length (HeadBytes (WImplicitProfileId w) ty tag (of_nat (length bs))) + length bs)" by simp
  have "WriteElementHead ty tag (of_nat (length bs)) w =
      Some (WEAVE_NO_ERROR, PutRaw (HeadBytes (WImplicitProfileId w) ty tag (of_nat (length bs))) w)"
    using Str.prems room_mono [OF rm] by (auto intro!: WriteElementHead_room TagAllowed_wf)
  then show ?case using WriteData_room [OF room_PutRaw [OF rm]] by (simp add: PutRaw_append)
next
  case (Cont ty tag es)
  show ?case
  proof (rule write_container [OF _ Cont.prems])
    fix w assume w: "\<not> mWContainerOpen w" "mWContainerType w = ty" "room w (length (concat (map (enc (WImplicitProfileId w)) es)))"
    then show "write_list es w = Some (WEAVE_NO_ERROR, PutRaw (concat (map (enc (WImplicitProfileId w)) es)) w)"
      by (intro write_list_enc [OF Cont.IH]) (use Cont.prems(2) in auto)
  qed
qed


section \<open>A client that reads a tree\<close>

text \<open>
  It steps with \<^verbatim>\<open>Next\<close> until the end of the container, fetches string data with
  \<^verbatim>\<open>GetBytes\<close> and descends with \<^verbatim>\<open>EnterContainer\<close> and \<^verbatim>\<open>ExitContainer\<close>.  The fuel bounds the number of
  elements visited; one unit per input byte and one more is enough.
\<close>

fun read_list :: "nat \<Rightarrow> TLVReader \<Rightarrow> (WEAVE_ERROR \<times> tlv list \<times> TLVReader) option"
  and read_element :: "nat \<Rightarrow> TLVReader \<Rightarrow> (WEAVE_ERROR \<times> tlv list \<times> TLVReader) option" where
  "read_list 0 r = None"
| "read_list (Suc n) r =
     (case Next r of (err, r1) \<Rightarrow>
        if err = WEAVE_END_OF_TLV then Some (WEAVE_NO_ERROR, [], r1)
        else if err \<noteq> WEAVE_NO_ERROR then Some (err, [], r1)
        else case read_element n r1 of
          None \<Rightarrow> None
        | Some (err, e, r2) \<Rightarrow>
            if err \<noteq> WEAVE_NO_ERROR then Some (err, e, r2)
            else map_option (\<lambda>(err, es, r3). (err, e @ es, r3)) (read_list n r2))"
| "read_element 0 r = None"
| "read_element (Suc n) r =
     (if TLVTypeIsString (ElementType r) then
        (case GetBytes (GetLength r) r of (err, bs, r1) \<Rightarrow>
           Some (err, [Str (ElementType r) (GetTag r) bs], r1))
      else if TLVTypeIsContainer (ElementType r) then
        (case EnterContainer r of
           (err, None, r1) \<Rightarrow> Some (err, [], r1)
         | (err, Some outer, r1) \<Rightarrow>
             (case read_list n r1 of
                None \<Rightarrow> None
              | Some (err, es, r2) \<Rightarrow>
                  if err \<noteq> WEAVE_NO_ERROR then Some (err, [], r2)
                  else case ExitContainer outer r2 of (err, r3) \<Rightarrow>
                    Some (err, [Cont (ElementType r) (GetTag r) es], r3)))
      else Some (WEAVE_NO_ERROR, [Scalar (ElementType r) (GetTag r) (mElemLenOrVal r)], r))"

primrec nodes :: "tlv \<Rightarrow> nat" where
  "nodes (Scalar ty tag v) = 2"
| "nodes (Str ty tag bs) = 2"
| "nodes (Cont ty tag es) = 3 + sum_list (map nodes es)"

text \<open>What a reader finds behind the last element of a list.\<close>

definition closes :: "TLVType \<Rightarrow> u8 list \<Rightarrow> bool" where
  "closes ct tail \<longleftrightarrow> tail = [] \<or> (hd tail = 0x18 \<and> ct \<noteq> kTLVType_NotSpecified)"

lemma read_scalar:
  assumes "on (Scalar ty tag v) rest r" "wf_tlv ct (Scalar ty tag v)" "0 < n"
  shows "read_element n r = Some (WEAVE_NO_ERROR, [Scalar ty tag v], r)"
proof -
  have "\<not> TLVTypeIsString ty" "\<not> TLVTypeIsContainer ty"
    using assms by (auto simp: scalar_type_def TLVTypeIsString_def TLVTypeIsContainer_def)
  with assms show ?thesis by (cases n) (simp_all add: GetTag_def)
qed

lemma GetBytes_on:
  assumes "on (Str ty tag bs) rest r" "wf_tlv ct (Str ty tag bs)" "length bs \<le> unat bufSize"
  shows "GetBytes bufSize r = (WEAVE_NO_ERROR, bs, (advance (length bs) r)\<lparr>mElemLenOrVal := 0\<rparr>)"
proof -
  have ty: "TLVTypeIsString (ElementType r)" and lb: "length bs < 2 ^ 32" and c: "contiguous r"
    and v: "mElemLenOrVal r = of_nat (length bs)" and inp: "mInput r = bs @ rest"
    using assms by (auto simp: TLVTypeIsString_def)
  have ul: "unat (ucast (of_nat (length bs) :: u64) :: u32) = length bs"
    and uv: "unat (of_nat (length bs) :: u64) = length bs"
    using lb by (simp_all add: unsigned_ucast_eq unsigned_of_nat take_bit_nat_eq_self)
  have "unat (ucast bufSize :: u64) = unat bufSize"
    by (simp add: unsigned_ucast_eq take_bit_nat_eq_self order_less_le_trans [OF unat_u32_less])
  then have "\<not> mElemLenOrVal r > ucast bufSize" using assms(3) uv v by (simp add: word_less_nat_alt)
  moreover have "ReadData (ucast (mElemLenOrVal r)) r = (WEAVE_NO_ERROR, bs, advance (length bs) r)"
    using ReadData_contiguous_ok [OF c, of "ucast (mElemLenOrVal r)"] v ul inp by simp
  ultimately show ?thesis using ty by (simp add: GetBytes_def)
qed

lemma GetBytes_too_small:
  assumes "on (Str ty tag bs) rest r" "wf_tlv ct (Str ty tag bs)" "unat bufSize < length bs"
  shows "GetBytes bufSize r = (WEAVE_ERROR_BUFFER_TOO_SMALL, [], r)"
proof -
  have ty: "TLVTypeIsString (ElementType r)" and lb: "length bs < 2 ^ 32"
    and v: "mElemLenOrVal r = of_nat (length bs)"
    using assms by (auto simp: TLVTypeIsString_def)
  have "unat (of_nat (length bs) :: u64) = length bs" using lb by (simp add: unsigned_of_nat take_bit_nat_eq_self)
  moreover have "unat (ucast bufSize :: u64) = unat bufSize"
    by (simp add: unsigned_ucast_eq take_bit_nat_eq_self order_less_le_trans [OF unat_u32_less])
  ultimately have "mElemLenOrVal r > ucast bufSize" using assms(3) v by (simp add: word_less_nat_alt)
  with ty show ?thesis by (simp add: GetBytes_def)
qed

lemma GetLength_on:
  assumes "on (Str ty tag bs) rest r" "wf_tlv ct (Str ty tag bs)"
  shows "unat (GetLength r) = length bs"
  using assms
  by (auto simp: GetLength_def TLVTypeHasLength_def unsigned_ucast_eq unsigned_of_nat take_bit_nat_eq_self)

lemma read_string:
  assumes "on (Str ty tag bs) rest r" "wf_tlv ct (Str ty tag bs)" "0 < n" "\<not> mContainerOpen r"
    "ct = mContainerType r"
  obtains r' where "read_element n r = Some (WEAVE_NO_ERROR, [Str ty tag bs], r')" "at rest r'" "same_level r r'"
proof -
  have ty: "TLVTypeIsString (ElementType r)" "ElementType r = ty" "mElemTag r = tag" and c: "contiguous r"
    and inp: "mInput r = bs @ rest"
    using assms by (auto simp: TLVTypeIsString_def)
  let ?r' = "(advance (length bs) r)\<lparr>mElemLenOrVal := 0\<rparr>"
  have "GetBytes (GetLength r) r = (WEAVE_NO_ERROR, bs, ?r')"
    using assms by (intro GetBytes_on) (auto simp: GetLength_on)
  then have "read_element n r = Some (WEAVE_NO_ERROR, [Str ty tag bs], ?r')"
    using ty assms(3) by (cases n) (simp_all add: GetTag_def)
  moreover have m: "moved (length bs) r ?r'" by (simp add: moved_advance)
  have "contiguous ?r'" using c m by (rule moved_contiguous) (simp add: inp)
  then have "on (Str ty tag []) rest ?r'" using ty inp by (simp add: advance_def)
  moreover have "wf_tlv ct (Str ty tag [])" using assms(2) by simp
  moreover have sl: "same_level r ?r'" using m assms(4) by (intro moved_same_level) (auto simp: advance_def)
  moreover have "at rest ?r'"
    unfolding at_def using calculation assms(5)
    by (intro conjI disjI2 exI [of _ "Str ty tag []"]) (simp_all add: same_level_def)
  ultimately show ?thesis using that by blast
qed

lemma read_container:
  assumes on: "on (Cont ty tag es) rest r" "wf_tlv ct (Cont ty tag es)" "ct = mContainerType r"
    and IH: "\<And>r. \<lbrakk>at (concat (map (enc (ImplicitProfileId r)) es) @ 0x18 # rest) r; mContainerType r = ty\<rbrakk> \<Longrightarrow>
      \<exists>r'. read_list n r = Some (WEAVE_NO_ERROR, es, r') \<and> mInput r' = rest \<and>
        ElementType r' = kTLVElementType_EndOfContainer \<and> same_level r r' \<and> contiguous r'"
  obtains r' where "read_element (Suc n) r = Some (WEAVE_NO_ERROR, [Cont ty tag es], r')" "at rest r'" "same_level r r'"
proof -
  have ty: "\<not> TLVTypeIsString ty" "TLVTypeIsContainer ty" "ElementType r = ty" "mElemTag r = tag"
    using on(1,2) by (auto simp: TLVTypeIsString_def TLVTypeIsContainer_def)
  obtain r1 where r1: "EnterContainer r = (WEAVE_NO_ERROR, Some (mContainerType r), r1)"
    "at (concat (map (enc (ImplicitProfileId r1)) es) @ 0x18 # rest) r1"
    "mContainerType r1 = ty" "ImplicitProfileId r1 = ImplicitProfileId r"
    by (rule EnterContainer_on [OF on(1,2)])
  obtain r2 where r2: "read_list n r1 = Some (WEAVE_NO_ERROR, es, r2)" "mInput r2 = rest"
    "ElementType r2 = kTLVElementType_EndOfContainer" "same_level r1 r2" "contiguous r2"
    using IH [OF r1(2,3)] by blast
  let ?r3 = "ClearElementState (r2\<lparr>mContainerType := mContainerType r\<rparr>)"
  have "r2\<lparr>mContainerOpen := False\<rparr> = r2" using r2(4) by (simp add: same_level_def)
  then have "ExitContainer (mContainerType r) r2 = (WEAVE_NO_ERROR, ?r3)"
    using r2(3) by (simp add: ExitContainer_def SkipToEndOfContainer_def)
  then have "read_element (Suc n) r = Some (WEAVE_NO_ERROR, [Cont ty tag es], ?r3)"
    using ty r1(1) r2(1) by (simp add: GetTag_def)
  moreover have "same_level r ?r3" using r1(4) r2(4) by (simp add: same_level_def)
  moreover have "at rest ?r3" using r2 by (simp add: at_def before_def same_level_def contiguous_def)
  ultimately show ?thesis using that by blast
qed


lemma read_list_Nil:
  assumes "at tail r" "closes (mContainerType r) tail"
  shows "\<exists>r'. read_list (Suc m) r = Some (WEAVE_NO_ERROR, [], r') \<and> mInput r' = tl tail \<and> same_level r r' \<and>
    contiguous r' \<and> (tail \<noteq> [] \<longrightarrow> ElementType r' = kTLVElementType_EndOfContainer)"
proof (cases tail)
  case Nil
  obtain r' where "Next r = (WEAVE_END_OF_TLV, r')" "before r'" "mInput r' = []" "same_level r r'"
    by (rule Next_at_eof [OF assms(1) [unfolded Nil]])
  with Nil show ?thesis by (auto simp: before_def)
next
  case (Cons b bs)
  have at: "at (0x18 # bs) r" and ct: "mContainerType r \<noteq> kTLVType_NotSpecified"
    using assms Cons by (auto simp: closes_def)
  obtain r' where "Next r = (WEAVE_END_OF_TLV, r')" "ElementType r' = kTLVElementType_EndOfContainer"
    "mInput r' = bs" "same_level r r'" "contiguous r'"
    by (rule Next_at_end [OF at ct])
  with Cons show ?thesis by auto
qed

lemma read_element_on:
  assumes r: "on e rest r" "wf_tlv (mContainerType r) e" "\<not> mContainerOpen r" and m: "nodes e \<le> Suc k"
    and IH: "\<And>ty tag ds q. \<lbrakk>e = Cont ty tag ds; mContainerType q = ty;
        at (concat (map (enc (ImplicitProfileId q)) ds) @ 0x18 # rest) q\<rbrakk> \<Longrightarrow>
      \<exists>r'. read_list k q = Some (WEAVE_NO_ERROR, ds, r') \<and> mInput r' = rest \<and>
        ElementType r' = kTLVElementType_EndOfContainer \<and> same_level q r' \<and> contiguous r'"
  obtains r' where "read_element (Suc k) r = Some (WEAVE_NO_ERROR, [e], r')" "at rest r'" "same_level r r'"
proof (cases e)
  case (Scalar ty tag v)
  have "at rest r" "same_level r r" using r by (auto simp: at_def same_level_def)
  moreover have "read_element (Suc k) r = Some (WEAVE_NO_ERROR, [e], r)"
    unfolding Scalar by (rule read_scalar [OF r(1,2) [unfolded Scalar]]) simp
  ultimately show ?thesis using that by blast
next
  case (Str ty tag bs)
  show ?thesis
    by (rule read_string [OF r(1,2) [unfolded Str] zero_less_Suc r(3) refl]) (use that Str in auto)
next
  case (Cont ty tag ds)
  show ?thesis
    by (rule read_container [OF r(1,2) [unfolded Cont] refl IH [OF Cont]]) (use that Cont in auto)
qed

lemma read_list_enc:
  assumes "sum_list (map nodes es) < n" "at (concat (map (enc (ImplicitProfileId r)) es) @ tail) r"
    "mContainerType r = ct" "\<forall>e \<in> set es. wf_tlv ct e" "closes ct tail"
  shows "\<exists>r'. read_list n r = Some (WEAVE_NO_ERROR, es, r') \<and> mInput r' = tl tail \<and> same_level r r' \<and>
    contiguous r' \<and> (tail \<noteq> [] \<longrightarrow> ElementType r' = kTLVElementType_EndOfContainer)"
  using assms
proof (induction n arbitrary: es r tail ct rule: less_induct)
  case (less n)
  obtain m where n: "n = Suc m" using less.prems(1) by (cases n) auto
  show ?case
  proof (cases es)
    case Nil
    with less.prems n show ?thesis using read_list_Nil [of tail r m] by auto
  next
    case (Cons e es')
    let ?ip = "ImplicitProfileId r"
    let ?rest = "concat (map (enc ?ip) es') @ tail"
    have at: "at (enc ?ip e @ ?rest) r" using less.prems(2) Cons by simp
    have wf: "wf_tlv (mContainerType r) e" "\<forall>e \<in> set es'. wf_tlv ct e" using less.prems(3,4) Cons by auto
    obtain r1 where r1: "Next r = (WEAVE_NO_ERROR, r1)" "on e ?rest r1" "same_level r r1"
      by (rule Next_at [OF at wf(1)])
    then have sl: "\<not> mContainerOpen r1" "mContainerType r1 = mContainerType r" "ImplicitProfileId r1 = ?ip"
      by (auto simp: same_level_def)
    have m: "0 < m" "sum_list (map nodes es') < m" "nodes e \<le> m" using less.prems(1) n Cons by (cases e; simp)+
    then obtain k where k: "m = Suc k" by (cases m) auto
    have wf1: "wf_tlv (mContainerType r1) e" using wf(1) sl(2) by simp
    obtain r2 where r2: "read_element (Suc k) r1 = Some (WEAVE_NO_ERROR, [e], r2)" "at ?rest r2" "same_level r1 r2"
    proof (rule read_element_on [OF r1(2) wf1 sl(1), of k])
      fix ty tag ds q
      assume e: "e = Cont ty tag ds" "mContainerType q = ty"
        "at (concat (map (enc (ImplicitProfileId q)) ds) @ 0x18 # ?rest) q"
      then show "\<exists>r'. read_list k q = Some (WEAVE_NO_ERROR, ds, r') \<and> mInput r' = ?rest \<and>
          ElementType r' = kTLVElementType_EndOfContainer \<and> same_level q r' \<and> contiguous r'"
        using less.IH [of k ds q "0x18 # ?rest" ty] n k m(3) wf(1) by (auto simp: closes_def)
    qed (use m k that in auto)
    have ip2: "ImplicitProfileId r2 = ?ip" "mContainerType r2 = ct"
      using r2(3) sl less.prems(3) by (auto simp: same_level_def)
    obtain r3 where r3: "read_list m r2 = Some (WEAVE_NO_ERROR, es', r3)" "mInput r3 = tl tail" "same_level r2 r3"
      "contiguous r3" "tail \<noteq> [] \<longrightarrow> ElementType r3 = kTLVElementType_EndOfContainer"
      using less.IH [of m es' r2 tail ct] n m(2) r2(2) ip2 wf(2) less.prems(5) by auto
    have "same_level r r3" using r1(3) r2(3) r3(3) by (blast intro: same_level_trans)
    moreover have "read_list n r = Some (WEAVE_NO_ERROR, es, r3)"
      using n r1(1) r2(1) r3(1) Cons k by simp
    ultimately show ?thesis using r3 by blast
  qed
qed

lemma nodes_enc: "nodes e \<le> 2 * length (enc ip e)"
proof (induction e)
  case (Scalar ty tag v)
  show ?case using HeadBytes_nonempty [of ip ty tag v] by (cases "HeadBytes ip ty tag v") auto
next
  case (Str ty tag bs)
  show ?case using HeadBytes_nonempty [of ip ty tag "of_nat (length bs)"]
    by (cases "HeadBytes ip ty tag (of_nat (length bs))") auto
next
  case (Cont ty tag es)
  have "sum_list (map nodes es) \<le> 2 * length (concat (map (enc ip) es))"
    using Cont.IH by (induction es) fastforce+
  then show ?case using HeadBytes_nonempty [of ip ty tag 0] by (cases "HeadBytes ip ty tag 0") auto
qed

lemma nodes_list_enc: "sum_list (map nodes es) \<le> 2 * length (concat (map (enc ip) es))"
proof (induction es)
  case (Cons e es)
  then show ?case using nodes_enc [of e ip] by simp
qed simp

section \<open>Fresh readers and writers\<close>

lemma Reader_Init_buf_at:
  assumes "length data < 2 ^ 32"
  shows "at data (Reader_Init_buf data)" "before (Reader_Init_buf data)"
proof -
  have "unat (of_nat (length data) :: u32) = length data" using assms by (rule unat_of_nat_u32)
  then show "before (Reader_Init_buf data)"
    by (simp add: before_def contiguous_def in_bounds_def Reader_Init_buf_def ElementType_def)
  then show "at data (Reader_Init_buf data)" by (simp add: at_def) (simp add: Reader_Init_buf_def)
qed

lemma Writer_Init_buf_room: "n \<le> unat m \<Longrightarrow> room (Writer_Init_buf m) n"
  by (simp add: room_def Writer_Init_buf_def)


section \<open>Typed values\<close>

text \<open>
  Each typed \<^verbatim>\<open>Put\<close> writes one element of the abstract syntax; the element type it picks is wide
  enough for the value.
\<close>

definition uint_type :: "u64 \<Rightarrow> TLVElementType" where
  "uint_type v = (if v \<le> 0xFF then 4 else if v \<le> 0xFFFF then 5 else if v \<le> 0xFFFFFFFF then 6 else 7)"

definition sint_type :: "u64 \<Rightarrow> TLVElementType" where
  "sint_type v = (if sint v \<ge> - (2 ^ 7) \<and> sint v \<le> 2 ^ 7 - 1 then 0
     else if sint v \<ge> - (2 ^ 15) \<and> sint v \<le> 2 ^ 15 - 1 then 1
     else if sint v \<ge> - (2 ^ 31) \<and> sint v \<le> 2 ^ 31 - 1 then 2 else 3)"

definition truncated :: "TLVElementType \<Rightarrow> u64 \<Rightarrow> u64" where
  "truncated ty v = (if ty = 0 then ucast (ucast v :: u8) else if ty = 1 then ucast (ucast v :: u16)
     else if ty = 2 then ucast (ucast v :: u32) else v)"

lemma field_sizes [simp]:
  "GetTLVFieldSize 0 = 0" "GetTLVFieldSize 1 = 1" "GetTLVFieldSize 2 = 2" "GetTLVFieldSize 3 = 3"
  "GetTLVFieldSize 4 = 0" "GetTLVFieldSize 5 = 1" "GetTLVFieldSize 6 = 2" "GetTLVFieldSize 7 = 3"
  "GetTLVFieldSize 8 = - 1" "GetTLVFieldSize 9 = - 1" "GetTLVFieldSize 0x0A = 2" "GetTLVFieldSize 0x0B = 3"
  "GetTLVFieldSize 0x0C = 0" "GetTLVFieldSize 0x0D = 1" "GetTLVFieldSize 0x0E = 2"
  "GetTLVFieldSize 0x10 = 0" "GetTLVFieldSize 0x11 = 1" "GetTLVFieldSize 0x12 = 2" "GetTLVFieldSize 0x14 = - 1"
  by (simp_all add: GetTLVFieldSize_def TLVTypeHasValue_def and_3_mod_4)

lemma field_bytes [simp]:
  "TLVFieldSizeToBytes 0 = 1" "TLVFieldSizeToBytes 1 = 2" "TLVFieldSizeToBytes 2 = 4" "TLVFieldSizeToBytes 3 = 8"
  "TLVFieldSizeToBytes (- 1) = 0"
  by (simp_all add: TLVFieldSizeToBytes_def)

lemma unat_u64_less: "unat (v :: u64) < 18446744073709551616"
  by (rule order_less_le_trans [OF unsigned_less]) simp

lemma Put_u64_scalar: "Put_u64 tag v = write_tlv (Scalar (uint_type v) tag v)"
  by (simp add: Put_u64_def uint_type_def Let_def)

lemma fits_uint_type: "fits (uint_type v) v"
  using unat_u64_less [of v] by (auto simp: fits_def uint_type_def word_le_nat_alt)

lemma ucast_truncate [simp]:
  "(ucast (ucast (ucast (v :: u64) :: u8) :: u64) :: u8) = ucast v"
  "(ucast (ucast (ucast v :: u16) :: u64) :: u16) = ucast v"
  "(ucast (ucast (ucast v :: u32) :: u64) :: u32) = ucast v"
  by (rule bit_word_eqI; auto simp: bit_simps)+

lemma HeadBytes_truncated: "ty \<in> {0, 1, 2, 3} \<Longrightarrow> HeadBytes ip ty tag v = HeadBytes ip ty tag (truncated ty v)"
  by (auto simp: HeadBytes_def LenOrValBytes_def truncated_def)

lemma sint_type_in: "sint_type v \<in> {0, 1, 2, 3}"
  by (simp add: sint_type_def)

lemma Put_i64_scalar: "Put_i64 tag v w = write_tlv (Scalar (sint_type v) tag (truncated (sint_type v) v)) w"
proof -
  have "Put_i64 tag v w = WriteElementHead (sint_type v) tag v w"
    by (simp add: Put_i64_def sint_type_def Let_def)
  then show ?thesis using HeadBytes_truncated [OF sint_type_in]
    by (simp add: WriteElementHead_def)
qed

lemma fits_sint_type: "fits (sint_type v) (truncated (sint_type v) v)"
proof -
  have "unat (ucast (ucast v :: u8) :: u64) < 256" "unat (ucast (ucast v :: u16) :: u64) < 65536"
    "unat (ucast (ucast v :: u32) :: u64) < 4294967296"
    by (simp_all add: unsigned_ucast_eq unsigned_take_bit_eq take_bit_nat_eq_self take_bit_nat_less_exp [where n = 8, simplified]
        take_bit_nat_less_exp [where n = 16, simplified] take_bit_nat_less_exp [where n = 32, simplified])
  then show ?thesis using unat_u64_less [of v] by (auto simp: fits_def sint_type_def truncated_def)
qed

lemma scast_ucast_sint:
  "\<lbrakk>- 128 \<le> sint v; sint v \<le> 127\<rbrakk> \<Longrightarrow> scast (ucast (v :: u64) :: u8) = v"
  "\<lbrakk>- 32768 \<le> sint v; sint v \<le> 32767\<rbrakk> \<Longrightarrow> scast (ucast (v :: u64) :: u16) = v"
  "\<lbrakk>- 2147483648 \<le> sint v; sint v \<le> 2147483647\<rbrakk> \<Longrightarrow> scast (ucast (v :: u64) :: u32) = v"
proof -
  have eq: "scast w = v" if "sint w = sint v" for w :: "'a::len word"
    using that by (metis scast_eq scast_id)
  have sv: "signed_take_bit n (uint v) = signed_take_bit n (sint v)" if "n \<le> 63" for n
    using that by (simp add: sint_uint signed_take_bit_signed_take_bit min_def)
  show "\<lbrakk>- 128 \<le> sint v; sint v \<le> 127\<rbrakk> \<Longrightarrow> scast (ucast v :: u8) = v"
    by (rule eq) (simp add: sint_uint [of "ucast v"] unsigned_ucast_eq signed_take_bit_take_bit sv signed_take_bit_int_eq_self unsigned_take_bit_eq)
  show "\<lbrakk>- 32768 \<le> sint v; sint v \<le> 32767\<rbrakk> \<Longrightarrow> scast (ucast v :: u16) = v"
    by (rule eq) (simp add: sint_uint [of "ucast v"] unsigned_ucast_eq signed_take_bit_take_bit sv signed_take_bit_int_eq_self unsigned_take_bit_eq)
  show "\<lbrakk>- 2147483648 \<le> sint v; sint v \<le> 2147483647\<rbrakk> \<Longrightarrow> scast (ucast v :: u32) = v"
    by (rule eq) (simp add: sint_uint [of "ucast v"] unsigned_ucast_eq signed_take_bit_take_bit sv signed_take_bit_int_eq_self unsigned_take_bit_eq)
qed

lemma Get_u64_on_uint:
  "on (Scalar (uint_type v) tag v) rest r \<Longrightarrow> Get_u64 r d = (WEAVE_NO_ERROR, v)"
  by (auto simp: Get_u64_def uint_type_def Let_def)

lemma Get_u64_on_sint:
  "on (Scalar (sint_type v) tag (truncated (sint_type v) v)) rest r \<Longrightarrow> Get_u64 r d = (WEAVE_NO_ERROR, v)"
  by (auto simp: Get_u64_def sint_type_def truncated_def Let_def scast_ucast_sint split: if_splits)

text \<open>The element \<^verbatim>\<open>WriteElementWithData\<close> writes.\<close>

definition str_type :: "TLVType \<Rightarrow> u8 list \<Rightarrow> TLVElementType" where
  "str_type ty bs = ty + (if length bs \<le> 0xFF then 0 else if length bs \<le> 0xFFFF then 1 else 2)"

lemma WriteElementWithData_str:
  assumes "length bs < 2 ^ 32" "ty \<in> {kTLVType_UTF8String, kTLVType_ByteString}"
  shows "WriteElementWithData ty tag bs w = write_tlv (Str (str_type ty bs) tag bs) w"
    "wf_tag ct tag \<Longrightarrow> wf_tlv ct (Str (str_type ty bs) tag bs)"
proof -
  have ul: "unat (of_nat (length bs) :: u32) = length bs" using assms(1) by (rule unat_of_nat_u32)
  have uv: "unat (of_nat (length bs) :: u64) = length bs" "(ucast (of_nat (length bs) :: u32) :: u64) = of_nat (length bs)"
    using assms(1) by (simp_all add: word_unat_eq_iff unsigned_ucast_eq unsigned_of_nat take_bit_nat_eq_self)
  show "WriteElementWithData ty tag bs w = write_tlv (Str (str_type ty bs) tag bs) w"
    using assms(2) uv(2) ul
    by (auto simp: WriteElementWithData_def str_type_def Let_def word_le_nat_alt)
  show "wf_tag ct tag \<Longrightarrow> wf_tlv ct (Str (str_type ty bs) tag bs)"
    using assms uv by (auto simp: str_type_def fits_def)
qed

end
