(* ===== verification/TLV_Input.thy ===== *)
theory TLV_Input
  imports TLV_Stream
begin

text \<open>
  A reader over one buffer stays inside it: whatever bytes the buffer holds and whatever calls a
  client makes, errors included, the read point never leaves the buffer and no call reads
  through it out of bounds.
\<close>

text \<open>
  \<open>keeps r res\<close>: a call on \<open>r\<close> read nothing out of bounds, left the read point in the buffer, at
  or behind where it was, and counted in \<^verbatim>\<open>mLenRead\<close> exactly the bytes it passed.
\<close>

definition keeps :: "TLVReader \<Rightarrow> WEAVE_ERROR \<times> TLVReader \<Rightarrow> bool" where
  "keeps r res \<longleftrightarrow> fst res \<noteq> UNDEFINED_BEHAVIOR \<and> contiguous (snd res) \<and>
     (\<exists>n \<le> length (mInput r). mInput (snd res) = drop n (mInput r) \<and> mLenRead (snd res) = mLenRead r + of_nat n)"

lemma keeps_same:
  "\<lbrakk>err \<noteq> UNDEFINED_BEHAVIOR; contiguous r'; mInput r' = mInput r; mLenRead r' = mLenRead r\<rbrakk> \<Longrightarrow> keeps r (err, r')"
  by (auto simp: keeps_def intro!: exI [of _ 0])

lemma keeps_trans:
  assumes "keeps r (err, r1)" "keeps r1 res"
  shows "keeps r res"
proof -
  obtain n where n: "n \<le> length (mInput r)" "mInput r1 = drop n (mInput r)" "mLenRead r1 = mLenRead r + of_nat n"
    using assms(1) by (auto simp: keeps_def)
  obtain k where "k \<le> length (mInput r1)" "mInput (snd res) = drop k (mInput r1)"
    "mLenRead (snd res) = mLenRead r1 + of_nat k"
    using assms(2) by (auto simp: keeps_def)
  with n assms(2) show ?thesis
    by (auto simp: keeps_def algebra_simps intro!: exI [of _ "n + k"])
qed

lemma keeps_contiguous: "keeps r (err, r') \<Longrightarrow> contiguous r'" "keeps r (err, r') \<Longrightarrow> err \<noteq> UNDEFINED_BEHAVIOR"
  by (auto simp: keeps_def)

lemma keeps_SuccessOrExit:
  assumes "keeps r res" "\<And>r1. contiguous r1 \<Longrightarrow> keeps r1 (k r1)"
  shows "keeps r (SuccessOrExit res k)"
proof (cases res)
  case (Pair err r1)
  with assms keeps_contiguous(1) [of r err r1] show ?thesis
    by (auto simp: SuccessOrExit_pair intro: keeps_trans)
qed

lemma keeps_updates [simp]:
  "keeps r (err, r'\<lparr>mControlByte := a\<rparr>) = keeps r (err, r')" "keeps r (err, r'\<lparr>mElemTag := b\<rparr>) = keeps r (err, r')"
  "keeps r (err, r'\<lparr>mElemLenOrVal := c\<rparr>) = keeps r (err, r')" "keeps r (err, r'\<lparr>mContainerType := d\<rparr>) = keeps r (err, r')"
  "keeps r (err, r'\<lparr>mContainerOpen := e\<rparr>) = keeps r (err, r')"
  "keeps (r\<lparr>mControlByte := a\<rparr>) res = keeps r res" "keeps (r\<lparr>mElemTag := b\<rparr>) res = keeps r res"
  "keeps (r\<lparr>mElemLenOrVal := c\<rparr>) res = keeps r res" "keeps (r\<lparr>mContainerType := d\<rparr>) res = keeps r res"
  "keeps (r\<lparr>mContainerOpen := e\<rparr>) res = keeps r res"
  by (simp_all add: keeps_def contiguous_def)

lemma keeps_err: "\<lbrakk>keeps r (err, r'); err' \<noteq> UNDEFINED_BEHAVIOR\<rbrakk> \<Longrightarrow> keeps r (err', r')"
  by (simp add: keeps_def)

lemma contiguous_updates [simp]:
  "contiguous (r\<lparr>mControlByte := a\<rparr>) = contiguous r" "contiguous (r\<lparr>mElemTag := b\<rparr>) = contiguous r"
  "contiguous (r\<lparr>mElemLenOrVal := c\<rparr>) = contiguous r" "contiguous (r\<lparr>mContainerType := d\<rparr>) = contiguous r"
  "contiguous (r\<lparr>mContainerOpen := e\<rparr>) = contiguous r"
  by (simp_all add: contiguous_def)

lemma keeps_advance:
  "\<lbrakk>contiguous r; n \<le> length (mInput r); err \<noteq> UNDEFINED_BEHAVIOR\<rbrakk> \<Longrightarrow> keeps r (err, advance n r)"
  using contiguous_advance [of r n] by (auto simp: keeps_def advance_def intro!: exI [of _ n])

lemma ReadData_keeps:
  assumes "contiguous r"
  shows "keeps r (case ReadData len r of (err, bs, r') \<Rightarrow> (err, r'))"
proof (cases "unat len \<le> length (mInput r)")
  case True
  with ReadData_contiguous_ok [OF assms True] keeps_advance [OF assms True] show ?thesis by simp
next
  case False
  with ReadData_contiguous_short [OF assms] keeps_advance [OF assms] show ?thesis by simp
qed

lemma VerifyElement_defined: "VerifyElement r \<noteq> UNDEFINED_BEHAVIOR"
  by (simp add: VerifyElement_def Let_def)

lemma ParseHead_keeps [simp]: "keeps r (err, ParseHead ty p r') = keeps r (err, r')"
  by (simp add: ParseHead_def Let_def split: prod.splits)

lemma ReadElement_keeps:
  assumes "contiguous r"
  shows "keeps r (ReadElement r)"
proof -
  have "keeps r2 (case ReadHead n r2 of (err, p, r3) \<Rightarrow>
      if err \<noteq> WEAVE_NO_ERROR then (err, r3) else let r4 = ParseHead ty p r3 in (VerifyElement r4, r4))"
    if "contiguous r2" for n ty r2
    using that ReadData_keeps [OF that, of "of_nat n"] keeps_advance [OF that, of n] VerifyElement_defined
    by (auto simp: ReadHead_def Let_def advance_def [symmetric] intro: keeps_err split: prod.splits)
  from this [of "r\<lparr>mControlByte := ucast (hd (mInput r))\<rparr>"] show ?thesis
    using assms contiguous_not_stray [OF assms] keeps_same [OF _ assms]
    by (simp add: ReadElement_def EnsureData_contiguous Let_def)
qed

lemma SkipData_keeps: "contiguous r \<Longrightarrow> keeps r (SkipData r)"
  using ReadData_keeps [of r "ucast (mElemLenOrVal r)"] keeps_same [of WEAVE_NO_ERROR r r]
  by (auto simp: SkipData_def split: prod.splits)

lemma SkipLevel_keeps [simp]: "keeps (snd (SkipLevel outer nest r)) res = keeps r res"
  by (simp add: SkipLevel_def Let_def)

lemma SkipLevel_contiguous [simp]: "contiguous (snd (SkipLevel outer nest r)) = contiguous r"
  by (simp add: SkipLevel_def Let_def)

lemma SkipLoop_keeps: "contiguous r \<Longrightarrow> keeps r (SkipLoop outer nest r)"
proof (induction outer nest r rule: SkipLoop.induct)
  case (1 outer nest r)
  show ?case
  proof (cases "ElementType r = kTLVElementType_EndOfContainer \<and> nest = 0")
    case True
    with "1.prems" show ?thesis by (simp add: keeps_same)
  next
    case False
    let ?r1 = "snd (SkipLevel outer nest r)"
    have sd: "keeps r (SkipData ?r1)" using SkipData_keeps [of ?r1] "1.prems" by simp
    obtain e2 r2 where 2: "SkipData ?r1 = (e2, r2)" by fastforce
    with sd have k2: "keeps r (e2, r2)" by simp
    obtain e3 r3 where 3: "ReadElement r2 = (e3, r3)" by fastforce
    with ReadElement_keeps [OF keeps_contiguous(1) [OF k2]] have k3: "keeps r (e3, r3)" "contiguous r3"
      using keeps_trans [OF k2] keeps_contiguous(1) by fastforce+
    have "keeps r3 (SkipLoop outer (fst (SkipLevel outer nest r)) r3)" if "e2 = WEAVE_NO_ERROR" "e3 = WEAVE_NO_ERROR"
      by (rule "1.IH" [OF False 2 [unfolded that] 3 [unfolded that] k3(2)])
    then have "keeps r (SkipLoop outer (fst (SkipLevel outer nest r)) r3)" if "e2 = WEAVE_NO_ERROR" "e3 = WEAVE_NO_ERROR"
      using that keeps_trans [OF k3(1)] by blast
    with 2 3 k2 k3 show ?thesis unfolding SkipLoop_step [OF False] by (simp add: SuccessOrExit_pair)
  qed
qed

lemma ClearElementState_keeps [simp]:
  "contiguous (ClearElementState r) = contiguous r" "keeps r (err, ClearElementState r') = keeps r (err, r')"
  "keeps (ClearElementState r) res = keeps r res"
  by (simp_all add: ClearElementState_def)

lemma SkipToEndOfContainer_keeps: "contiguous r \<Longrightarrow> keeps r (SkipToEndOfContainer r)"
  using SkipLoop_keeps [of "r\<lparr>mContainerOpen := False\<rparr>"] by (simp add: SkipToEndOfContainer_def)

lemma ExitContainer_keeps: "contiguous r \<Longrightarrow> keeps r (ExitContainer outer r)"
  unfolding ExitContainer_def
  by (rule keeps_SuccessOrExit) (auto intro: SkipToEndOfContainer_keeps keeps_same)

lemma EnterContainer_keeps: "contiguous r \<Longrightarrow> keeps r (case EnterContainer r of (err, outer, r') \<Rightarrow> (err, r'))"
  by (simp add: EnterContainer_def Let_def keeps_same)

lemma Skip_keeps:
  assumes "contiguous r"
  shows "keeps r (Skip r)"
proof -
  have "keeps r (SuccessOrExit (SkipData r) (\<lambda>r1. (WEAVE_NO_ERROR, ClearElementState r1)))"
    by (rule keeps_SuccessOrExit [OF SkipData_keeps [OF assms]]) (simp add: keeps_same)
  moreover have "keeps r (ExitContainer outer ((ClearElementState (r\<lparr>mContainerType := ct\<rparr>))\<lparr>mContainerOpen := False\<rparr>))"
    for outer ct
    using ExitContainer_keeps [of "(ClearElementState (r\<lparr>mContainerType := ct\<rparr>))\<lparr>mContainerOpen := False\<rparr>" outer] assms
    by simp
  ultimately show ?thesis using assms by (simp add: Skip_def EnterContainer_def Let_def keeps_same)
qed

lemma Next_keeps: "contiguous r \<Longrightarrow> keeps r (Next r)"
  unfolding Next_def
  by (intro keeps_SuccessOrExit Skip_keeps ReadElement_keeps) (auto intro: keeps_same)

lemma Next_expect_keeps: "contiguous r \<Longrightarrow> keeps r (Next_expect ty tag r)"
  unfolding Next_expect_def by (intro keeps_SuccessOrExit Next_keeps) (auto intro: keeps_same)

lemma VerifyEndOfContainer_keeps: "contiguous r \<Longrightarrow> keeps r (VerifyEndOfContainer r)"
  using Next_keeps [of r] by (auto simp: VerifyEndOfContainer_def intro: keeps_err split: prod.splits)

lemma GetBytes_keeps: "contiguous r \<Longrightarrow> keeps r (case GetBytes n r of (err, bs, r') \<Rightarrow> (err, r'))"
  using ReadData_keeps [of r "ucast (mElemLenOrVal r)"] by (auto simp: GetBytes_def keeps_same split: prod.splits)

lemma DupBytes_keeps: "contiguous r \<Longrightarrow> keeps r (case DupBytes malloc r of (err, bs, r') \<Rightarrow> (err, r'))"
  using ReadData_keeps [of r "ucast (mElemLenOrVal r)"] by (auto simp: DupBytes_def keeps_same split: prod.splits)

lemma GetDataPtr_keeps: "contiguous r \<Longrightarrow> keeps r (case GetDataPtr r of (err, p, r') \<Rightarrow> (err, r'))"
  using contiguous_not_stray [of r] by (auto simp: GetDataPtr_def EnsureData_contiguous keeps_same)

lemma less_add_one_u64:
  fixes x :: u64
  assumes "x + 1 \<noteq> 0"
  shows "x < x + 1"
proof -
  have "unat x + 1 \<noteq> 2 ^ 64"
  proof
    assume "unat x + 1 = 2 ^ 64"
    then have "unat (x + 1) = 0" by (simp add: unat_word_ariths)
    with assms show False by (simp add: unat_eq_0)
  qed
  then have "unat x + 1 < 2 ^ 64" using unsigned_less [of x, where ?'a = nat] by simp
  then show ?thesis by (simp add: word_less_nat_alt unat_word_ariths)
qed

lemma GetString_keeps:
  assumes "contiguous r" "\<not> (TLVTypeIsString (ElementType r) \<and> mElemLenOrVal r + 1 = 0)"
  shows "keeps r (case GetString n r of (err, bs, r') \<Rightarrow> (err, r'))"
proof (cases "TLVTypeIsString (ElementType r) \<and> \<not> mElemLenOrVal r + 1 > ucast n")
  case True
  then have "mElemLenOrVal r < mElemLenOrVal r + 1" using assms(2) by (intro less_add_one_u64) auto
  also have "\<dots> \<le> ucast n" using True by (simp add: not_less)
  finally have "\<not> mElemLenOrVal r \<ge> ucast n" by simp
  then show ?thesis using GetBytes_keeps [OF assms(1), of "n - 1"] True by (auto simp: GetString_def split: prod.splits)
next
  case False
  then show ?thesis using assms(1) by (auto simp: GetString_def keeps_same)
qed

lemma GetString_overrun:
  "\<lbrakk>TLVTypeIsString (ElementType r); mElemLenOrVal r + 1 = 0\<rbrakk> \<Longrightarrow> GetString n r = (UNDEFINED_BEHAVIOR, [], r)"
  by (simp add: GetString_def eq_neg_iff_add_eq_0 [symmetric])

lemma DupString_keeps:
  assumes "contiguous r" "\<not> (TLVTypeIsString (ElementType r) \<and> malloc (mElemLenOrVal r + 1) \<and> mElemLenOrVal r \<ge> 0x100000000)"
  shows "keeps r (case DupString malloc r of (err, bs, r') \<Rightarrow> (err, r'))"
  using ReadData_keeps [OF assms(1), of "ucast (mElemLenOrVal r)"] assms by (auto simp: DupString_def keeps_same split: prod.splits)

lemma OpenContainer_keeps:
  assumes "contiguous r" "OpenContainer r = (err, c, r')"
  shows "keeps r (err, r')" "c = Some x \<Longrightarrow> keeps r (err, x)"
  using assms by (auto simp: OpenContainer_def Let_def keeps_same split: if_splits)

lemma CloseContainer_keeps:
  assumes "contiguous r" "contiguous c" "CloseContainer c r = (err, c', r')"
  shows "keeps c (err, c')" "keeps r (err, r') \<or> keeps c (err, r')"
proof -
  obtain e q where q: "SkipToEndOfContainer c = (e, q)" by fastforce
  have k: "keeps c (e, q)" using SkipToEndOfContainer_keeps [OF assms(2)] q by simp
  have g: "GetNextBuffer r = NoNextBuffer" using assms(1) by (simp add: contiguous_def)
  show "keeps c (err, c')" using assms k by (auto simp: CloseContainer_def q keeps_same split: if_splits)
  have "keeps c (WEAVE_NO_ERROR, r\<lparr>mBufHandle := mBufHandle q, mInput := mInput q, mReadPointStray := mReadPointStray q,
      mLenRead := mLenRead q, mMaxLen := mMaxLen q\<rparr>)" if "e = WEAVE_NO_ERROR"
    using k g by (auto simp: keeps_def contiguous_def in_bounds_def)
  then show "keeps r (err, r') \<or> keeps c (err, r')" using assms keeps_contiguous(2) [OF k]
    by (auto simp: CloseContainer_def q keeps_same split: if_splits)
qed

text \<open>
  The calls a client can make on one reader, and what each leaves; the client may go on after an error.
  \<^verbatim>\<open>OpenContainer\<close> and \<^verbatim>\<open>CloseContainer\<close>, which involve a second reader, are steps of their own.
\<close>

datatype reader_call =
    CallNext | CallNext_expect TLVType u64 | CallSkip | CallEnterContainer | CallExitContainer TLVType
  | CallVerifyEndOfContainer | CallGetBytes u32 | CallDupBytes "u64 \<Rightarrow> bool" | CallGetString u32 | CallDupString "u64 \<Rightarrow> bool"
  | CallGetDataPtr

fun issue :: "reader_call \<Rightarrow> TLVReader \<Rightarrow> WEAVE_ERROR \<times> TLVReader" where
  "issue CallNext r = Next r"
| "issue (CallNext_expect ty tag) r = Next_expect ty tag r"
| "issue CallSkip r = Skip r"
| "issue CallEnterContainer r = (case EnterContainer r of (err, outer, r') \<Rightarrow> (err, r'))"
| "issue (CallExitContainer outer) r = ExitContainer outer r"
| "issue CallVerifyEndOfContainer r = VerifyEndOfContainer r"
| "issue (CallGetBytes n) r = (case GetBytes n r of (err, bs, r') \<Rightarrow> (err, r'))"
| "issue (CallDupBytes malloc) r = (case DupBytes malloc r of (err, bs, r') \<Rightarrow> (err, r'))"
| "issue (CallGetString n) r = (case GetString n r of (err, bs, r') \<Rightarrow> (err, r'))"
| "issue (CallDupString malloc) r = (case DupString malloc r of (err, bs, r') \<Rightarrow> (err, r'))"
| "issue CallGetDataPtr r = (case GetDataPtr r of (err, p, r') \<Rightarrow> (err, r'))"

text \<open>
  The two calls that can store outside the caller's memory: the terminator of a string whose length is \<open>2 ^ 64 - 1\<close>, so that one
  more than it is 0, or is not below \<open>2 ^ 32\<close>, while only its low 32 bits are checked against the input.
\<close>

fun overruns :: "reader_call \<Rightarrow> TLVReader \<Rightarrow> bool" where
  "overruns (CallGetString n) r \<longleftrightarrow> TLVTypeIsString (ElementType r) \<and> mElemLenOrVal r + 1 = 0"
| "overruns (CallDupString malloc) r \<longleftrightarrow>
     TLVTypeIsString (ElementType r) \<and> malloc (mElemLenOrVal r + 1) \<and> mElemLenOrVal r \<ge> 0x100000000"
| "overruns _ r \<longleftrightarrow> False"

lemma issue_keeps: "\<lbrakk>contiguous r; \<not> overruns c r\<rbrakk> \<Longrightarrow> keeps r (issue c r)"
  by (cases c) (simp_all add: Next_keeps Next_expect_keeps Skip_keeps EnterContainer_keeps ExitContainer_keeps
      VerifyEndOfContainer_keeps GetBytes_keeps DupBytes_keeps GetString_keeps DupString_keeps GetDataPtr_keeps)

lemma issue_overruns: "overruns c r \<Longrightarrow> issue c r = (UNDEFINED_BEHAVIOR, r)"
  by (cases "(c, r)" rule: overruns.cases) (simp_all add: GetString_overrun DupString_def)

text \<open>Readers a client of a plain buffer can reach: the reader on it, and those it opens for containers.\<close>

inductive reachable :: "u8 list \<Rightarrow> TLVReader \<Rightarrow> bool" for data where
  init: "reachable data (Reader_Init_buf data)"
| call: "\<lbrakk>reachable data r; issue c r = (err, r')\<rbrakk> \<Longrightarrow> reachable data r'"
| open_parent: "\<lbrakk>reachable data r; OpenContainer r = (err, c, r')\<rbrakk> \<Longrightarrow> reachable data r'"
| open_container: "\<lbrakk>reachable data r; OpenContainer r = (err, Some c, r')\<rbrakk> \<Longrightarrow> reachable data c"
| close_parent: "\<lbrakk>reachable data r; reachable data c; CloseContainer c r = (err, c', r')\<rbrakk> \<Longrightarrow> reachable data r'"
| close_container: "\<lbrakk>reachable data r; reachable data c; CloseContainer c r = (err, c', r')\<rbrakk> \<Longrightarrow> reachable data c'"

inductive_cases reachableE: "reachable data r"

lemma contiguous_Init: "length data < 2 ^ 32 \<Longrightarrow> contiguous (Reader_Init_buf data)"
  by (simp add: contiguous_def in_bounds_def Reader_Init_buf_def unat_of_nat_u32)

text \<open>The position of a reader in the buffer it was made for.\<close>

definition in_buffer :: "u8 list \<Rightarrow> TLVReader \<Rightarrow> bool" where
  "in_buffer data r \<longleftrightarrow> unat (GetLengthRead r) \<le> length data \<and> mInput r = drop (unat (GetLengthRead r)) data"

definition positioned :: "u8 list \<Rightarrow> TLVReader \<Rightarrow> bool" where
  "positioned data r \<longleftrightarrow> contiguous r \<and> in_buffer data r"

lemma positioned_keeps:
  assumes "positioned data r" "keeps r (err, r')" "length data < 2 ^ 32"
  shows "positioned data r'"
proof -
  obtain n where n: "n \<le> length (mInput r)" "mInput r' = drop n (mInput r)" "mLenRead r' = mLenRead r + of_nat n"
    and c: "contiguous r'"
    using assms(2) by (auto simp: keeps_def)
  have "unat (mLenRead r + of_nat n) = unat (mLenRead r) + n"
    using assms(1) n(1) unat_lenRead_advance [of r n] by (simp add: positioned_def contiguous_def)
  with n c assms(1) show ?thesis by (auto simp: positioned_def in_buffer_def GetLengthRead_def add.commute)
qed

lemma positioned_issue: "\<lbrakk>positioned data r; issue c r = (err, r'); length data < 2 ^ 32\<rbrakk> \<Longrightarrow> positioned data r'"
  using issue_keeps [of r c] issue_overruns [of c r] positioned_keeps [of data r err r'] by (cases "overruns c r") (auto simp: positioned_def)

lemma positioned_open:
  assumes "positioned data r" "OpenContainer r = (err, c, r')" "length data < 2 ^ 32"
  shows "positioned data r'" "c = Some x \<Longrightarrow> positioned data x"
  using assms OpenContainer_keeps [OF _ assms(2)] positioned_keeps [OF assms(1) _ assms(3)] by (auto simp: positioned_def)

lemma positioned_close:
  assumes "positioned data r" "positioned data c" "CloseContainer c r = (err, c', r')" "length data < 2 ^ 32"
  shows "positioned data r'" "positioned data c'"
proof -
  have k: "contiguous r" "contiguous c" using assms(1,2) by (simp_all add: positioned_def)
  note cl = CloseContainer_keeps [OF k assms(3)]
  show "positioned data c'" by (rule positioned_keeps [OF assms(2) cl(1) assms(4)])
  show "positioned data r'" using cl(2) positioned_keeps [OF assms(1) _ assms(4)] positioned_keeps [OF assms(2) _ assms(4)] by blast
qed

lemma reachable_positioned: "\<lbrakk>reachable data r; length data < 2 ^ 32\<rbrakk> \<Longrightarrow> positioned data r"
proof (induction rule: reachable.induct)
  case init
  then show ?case using contiguous_Init [of data] by (simp add: positioned_def in_buffer_def) (simp add: Reader_Init_buf_def GetLengthRead_def)
qed (blast intro: positioned_issue positioned_open positioned_close)+

section \<open>Every call on a chain\<close>

text \<open>The bytes a call hands to the client.\<close>

fun delivered :: "reader_call \<Rightarrow> TLVReader \<Rightarrow> u8 list option" where
  "delivered (CallGetBytes n) r = Some (fst (snd (GetBytes n r)))"
| "delivered (CallDupBytes malloc) r = fst (snd (DupBytes malloc r))"
| "delivered (CallGetString n) r = Some (fst (snd (GetString n r)))"
| "delivered (CallDupString malloc) r = fst (snd (DupString malloc r))"
| "delivered _ r = None"

lemma Next_expect_sim: "in_bounds r \<Longrightarrow> sim (Next_expect ty tag r) (Next_expect ty tag (flatten r))"
  unfolding Next_expect_def by (rule sim_SuccessOrExit [OF Next_sim]) (auto simp: sim_def agrees_def GetType_def)

lemma VerifyEndOfContainer_agrees: "in_bounds r \<Longrightarrow> agrees (VerifyEndOfContainer r) (VerifyEndOfContainer (flatten r))"
  using Next_sim [of r] by (auto simp: VerifyEndOfContainer_def sim_def agrees_def split: prod.splits)

text \<open>A value read by \<^verbatim>\<open>ReadData\<close>, from which the call makes its result.\<close>

lemma value_agrees:
  assumes "in_bounds r"
  obtains err bs r1 where "ReadData len r = (err, bs, r1)" "ReadData len (flatten r) = (err, bs, flatten (settled r1))" "in_bounds (settled r1)"
  by (rule ReadData_sim [OF assms, of len]) (metis that)

lemma GetBytes_agrees:
  assumes "in_bounds r"
  obtains err bs r' where "GetBytes n r = (err, bs, r')" "GetBytes n (flatten r) = (err, bs, flatten (settled r'))" "in_bounds (settled r')"
proof -
  obtain err bs r1 where "ReadData (ucast (mElemLenOrVal r)) r = (err, bs, r1)"
    "ReadData (ucast (mElemLenOrVal r)) (flatten r) = (err, bs, flatten (settled r1))" "in_bounds (settled r1)"
    by (rule value_agrees [OF assms])
  then show ?thesis using assms
    by (intro that [of "fst (GetBytes n r)" "fst (snd (GetBytes n r))" "snd (snd (GetBytes n r))"]) (auto simp: GetBytes_def)
qed

lemma DupBytes_agrees:
  assumes "in_bounds r"
  obtains err bs r' where "DupBytes malloc r = (err, bs, r')" "DupBytes malloc (flatten r) = (err, bs, flatten (settled r'))" "in_bounds (settled r')"
proof -
  obtain err bs r1 where "ReadData (ucast (mElemLenOrVal r)) r = (err, bs, r1)"
    "ReadData (ucast (mElemLenOrVal r)) (flatten r) = (err, bs, flatten (settled r1))" "in_bounds (settled r1)"
    by (rule value_agrees [OF assms])
  then show ?thesis using assms
    by (intro that [of "fst (DupBytes malloc r)" "fst (snd (DupBytes malloc r))" "snd (snd (DupBytes malloc r))"]) (auto simp: DupBytes_def)
qed

lemma DupString_agrees:
  assumes "in_bounds r"
  obtains err bs r' where "DupString malloc r = (err, bs, r')" "DupString malloc (flatten r) = (err, bs, flatten (settled r'))" "in_bounds (settled r')"
proof -
  obtain err bs r1 where "ReadData (ucast (mElemLenOrVal r)) r = (err, bs, r1)"
    "ReadData (ucast (mElemLenOrVal r)) (flatten r) = (err, bs, flatten (settled r1))" "in_bounds (settled r1)"
    by (rule value_agrees [OF assms])
  then show ?thesis using assms
    by (intro that [of "fst (DupString malloc r)" "fst (snd (DupString malloc r))" "snd (snd (DupString malloc r))"]) (auto simp: DupString_def)
qed

lemma GetString_agrees:
  assumes "in_bounds r"
  obtains err bs r' where "GetString n r = (err, bs, r')" "GetString n (flatten r) = (err, bs, flatten (settled r'))" "in_bounds (settled r')"
proof -
  obtain err bs r1 where "GetBytes (n - 1) r = (err, bs, r1)" "GetBytes (n - 1) (flatten r) = (err, bs, flatten (settled r1))" "in_bounds (settled r1)"
    by (rule GetBytes_agrees [OF assms])
  then show ?thesis using assms
    by (intro that [of "fst (GetString n r)" "fst (snd (GetString n r))" "snd (snd (GetString n r))"]) (auto simp: GetString_def)
qed

lemma EnterContainer_agrees:
  "in_bounds r \<Longrightarrow> agrees (case EnterContainer r of (err, outer, r') \<Rightarrow> (err, r')) (case EnterContainer (flatten r) of (err, outer, r') \<Rightarrow> (err, r'))"
  by (simp add: EnterContainer_def Let_def agrees_def)

text \<open>Every call but \<^verbatim>\<open>GetDataPtr\<close>, which needs the whole value in one buffer.\<close>

lemma issue_agrees:
  assumes "in_bounds r" "c \<noteq> CallGetDataPtr"
  shows "agrees (issue c r) (issue c (flatten r)) \<and> delivered c (flatten r) = delivered c r"
proof (cases c)
  case (CallGetBytes n)
  then show ?thesis by (cases rule: GetBytes_agrees [OF assms(1), of n]) (simp add: agrees_def)
next
  case (CallDupBytes malloc)
  then show ?thesis by (cases rule: DupBytes_agrees [OF assms(1), of malloc]) (simp add: agrees_def)
next
  case (CallGetString n)
  then show ?thesis by (cases rule: GetString_agrees [OF assms(1), of n]) (simp add: agrees_def)
next
  case (CallDupString malloc)
  then show ?thesis by (cases rule: DupString_agrees [OF assms(1), of malloc]) (simp add: agrees_def)
qed (use assms Next_sim [of r] Next_expect_sim [of r] Skip_sim [of r] ExitContainer_sim [of r] EnterContainer_agrees [of r]
      VerifyEndOfContainer_agrees [of r] in \<open>auto simp: sim_def\<close>)

text \<open>A reader opened for a container of a chain, and closing it.\<close>

lemma OpenContainer_agrees:
  assumes "in_bounds r"
  shows "OpenContainer (flatten r) = (case OpenContainer r of (err, c, r') \<Rightarrow> (err, map_option flatten c, flatten r'))"
    "OpenContainer r = (err, c, r') \<Longrightarrow> in_bounds r'" "OpenContainer r = (err, Some x, r') \<Longrightarrow> in_bounds x \<and> GetNextBuffer x = GetNextBuffer r'"
  using assms by (auto simp: OpenContainer_def Let_def split: if_splits) (simp_all add: ClearElementState_def)

lemma EnsureData_next: "GetNextBuffer (snd (EnsureData e r)) = GetNextBuffer r"
  by (auto simp: EnsureData_def Let_def split: GetNextBufferFunct.split prod.split)

lemma ReadData_next: "GetNextBuffer (snd (snd (ReadData len r))) = GetNextBuffer r"
proof (induction len r rule: ReadData.induct)
  case (1 len r)
  obtain e r1 where e: "EnsureData WEAVE_ERROR_TLV_UNDERRUN r = (e, r1)" by fastforce
  have "GetNextBuffer r1 = GetNextBuffer r" using EnsureData_next [of WEAVE_ERROR_TLV_UNDERRUN r] e by simp
  then show ?case using e "1.IH" [OF _ e [symmetric] _ _ refl refl]
    by (subst ReadData.simps) (auto simp: Let_def split: prod.split)
qed

lemma SkipData_next: "GetNextBuffer (snd (SkipData r)) = GetNextBuffer r"
  using ReadData_next [of "ucast (mElemLenOrVal r)" r] by (auto simp: SkipData_def split: prod.split)

lemma ReadElement_next: "GetNextBuffer (snd (ReadElement r)) = GetNextBuffer r"
proof -
  have "GetNextBuffer (snd (snd (ReadHead n q))) = GetNextBuffer q" for n q
    using ReadData_next [of "of_nat n" q] by (simp add: ReadHead_def)
  then have h: "GetNextBuffer q' = GetNextBuffer q" if "ReadHead n q = (e, p, q')" for n q e p q' using that by (metis snd_conv)
  show ?thesis using EnsureData_next [of WEAVE_END_OF_TLV r]
    by (auto simp: ReadElement_def ParseHead_def Let_def split: prod.split dest!: h)
qed

lemma SkipLoop_next: "GetNextBuffer (snd (SkipLoop outer nest r)) = GetNextBuffer r"
proof (induction outer nest r rule: SkipLoop.induct)
  case (1 outer nest r)
  show ?case
  proof (cases "ElementType r = kTLVElementType_EndOfContainer \<and> nest = 0")
    case True
    then show ?thesis by (simp add: SkipLoop.simps)
  next
    case False
    obtain e2 r2 where 2: "SkipData (snd (SkipLevel outer nest r)) = (e2, r2)" by fastforce
    obtain e3 r3 where 3: "ReadElement r2 = (e3, r3)" by fastforce
    have g: "GetNextBuffer r2 = GetNextBuffer r" "GetNextBuffer r3 = GetNextBuffer r2"
      using SkipData_next [of "snd (SkipLevel outer nest r)"] ReadElement_next [of r2] 2 3 by (simp_all add: SkipLevel_def Let_def split: if_splits)
    have "GetNextBuffer (snd (SkipLoop outer (fst (SkipLevel outer nest r)) r3)) = GetNextBuffer r3" if "e2 = WEAVE_NO_ERROR" "e3 = WEAVE_NO_ERROR"
      by (rule "1.IH" [OF False 2 [unfolded that] 3 [unfolded that]])
    then show ?thesis unfolding SkipLoop_step [OF False] 2 using g 3 by (auto simp: SuccessOrExit_pair)
  qed
qed

lemma CloseContainer_agrees:
  assumes "in_bounds r" "in_bounds c" "GetNextBuffer c = GetNextBuffer r"
  shows "CloseContainer (flatten c) (flatten r) = (case CloseContainer c r of (err, c', r') \<Rightarrow> (err, flatten (settled c'), flatten r'))"
    "CloseContainer c r = (err, c', r') \<Longrightarrow> in_bounds r'"
proof -
  obtain e q where q: "SkipToEndOfContainer c = (e, q)" by fastforce
  obtain f where f: "SkipToEndOfContainer (flatten c) = (e, f)" "f = flatten (settled q)" "e = WEAVE_NO_ERROR \<longrightarrow> in_bounds q"
    using SkipToEndOfContainer_sim [OF assms(2)] q by (cases "SkipToEndOfContainer (flatten c)") (auto simp: sim_def agrees_def)
  have g: "GetNextBuffer q = GetNextBuffer r" using SkipLoop_next [of "mContainerType c" 0 "c\<lparr>mContainerOpen := False\<rparr>"] q assms(3)
    by (simp add: SkipToEndOfContainer_def)
  define r' where "r' = r\<lparr>mBufHandle := mBufHandle q, mInput := mInput q, mReadPointStray := mReadPointStray q, mLenRead := mLenRead q, mMaxLen := mMaxLen q\<rparr>"
  have r': "in_bounds r'" "flatten r' = (flatten r)\<lparr>mInput := stream q, mReadPointStray := mReadPointStray q, mLenRead := mLenRead q, mMaxLen := mMaxLen q\<rparr>"
    if "e = WEAVE_NO_ERROR"
    using f(3) that g by (simp_all add: r'_def in_bounds_def flatten_def stream_def rest_chain_def)
  show "CloseContainer (flatten c) (flatten r) = (case CloseContainer c r of (err, c', r') \<Rightarrow> (err, flatten (settled c'), flatten r'))"
    using q f r' assms(2) by (auto simp: CloseContainer_def r'_def [symmetric]) (cases r, simp add: flatten_def)
  show "in_bounds r'" if "CloseContainer c r = (err, c', r')" for err c' r'
    using that q r'(1) assms(1) by (auto simp: CloseContainer_def r'_def split: if_splits)
qed

end
