(* ===== verification/TLV_Output.thy ===== *)
theory TLV_Output
  imports TLV_Codec TLV_Input
begin

text \<open>
  Where the writer puts its bytes.  With a single buffer no sequence of calls writes outside it,
  takes a written byte back or fails to return.  With a chain of buffers the bytes of the chain are
  the bytes written, in order, as long as buffers can be had; when the allocation fails the
  writer loops.
\<close>

section \<open>One buffer\<close>

definition buffer_size :: "TLVWriter \<Rightarrow> nat" where
  "buffer_size w = length (mOut w) + unat (mRemainingLen w)"

definition extends :: "TLVWriter \<Rightarrow> TLVWriter \<Rightarrow> bool" where
  "extends w w' \<longleftrightarrow> (\<exists>bs. mOut w' = mOut w @ bs) \<and> buffer_size w' = buffer_size w \<and> GetNewBuffer w' = None"

lemma extends_refl: "GetNewBuffer w = None \<Longrightarrow> extends w w"
  by (simp add: extends_def)

lemma extends_trans: "extends w w' \<Longrightarrow> extends w' w'' \<Longrightarrow> extends w w''"
  by (auto simp: extends_def)

lemma extends_new: "extends w w' \<Longrightarrow> GetNewBuffer w' = None"
  by (simp add: extends_def)

lemma extends_PutRaw:
  assumes "GetNewBuffer w = None" "length bs \<le> unat (mRemainingLen w)"
  shows "extends w (PutRaw bs w)"
proof -
  have n: "unat (of_nat (length bs) :: u32) = length bs"
    using assms(2) unat_u32_less [of "mRemainingLen w"] by (intro unat_of_nat_u32) simp
  then have "unat (mRemainingLen w - of_nat (length bs)) = unat (mRemainingLen w) - length bs"
    using assms(2) unat_sub [of "of_nat (length bs)" "mRemainingLen w"] by (simp add: word_le_nat_alt)
  with assms show ?thesis by (simp add: extends_def buffer_size_def PutRaw_def)
qed

text \<open>A call that returns, and leaves the writer with an extension of its output.\<close>

definition safe_result :: "TLVWriter \<Rightarrow> write_result \<Rightarrow> bool" where
  "safe_result w res \<longleftrightarrow> (case res of None \<Rightarrow> False | Some (err, w') \<Rightarrow> extends w w')"

lemma safe_result_Some [simp]: "safe_result w (Some (err, w')) = extends w w'"
  by (simp add: safe_result_def)

lemma safe_WSuccessOrExit:
  assumes "safe_result w res" "\<And>w1. GetNewBuffer w1 = None \<Longrightarrow> safe_result w1 (k w1)"
  shows "safe_result w (WSuccessOrExit res k)"
proof -
  obtain err w1 where res: "res = Some (err, w1)" and e1: "extends w w1"
    using assms(1) by (auto simp: safe_result_def split: option.splits)
  obtain err2 w2 where "k w1 = Some (err2, w2)" "extends w1 w2"
    using assms(2) [OF extends_new [OF e1]] by (auto simp: safe_result_def split: option.splits)
  with res e1 show ?thesis by (cases "err = WEAVE_NO_ERROR") (auto intro: extends_trans)
qed

lemma WriteData_safe: "GetNewBuffer w = None \<Longrightarrow> safe_result w (WriteData p w)"
  by (rule WriteData_cases [of w p]) (auto intro: extends_PutRaw extends_refl)

lemma length_TagBytes: "length (TagBytes ip ty tag) \<le> 9"
  by (simp add: TagBytes_def ControlByte_def Let_def)

lemma length_HeadBytes: "length (HeadBytes ip ty tag v) \<le> 17"
  using length_TagBytes [of ip ty tag] by (simp add: HeadBytes_def LenOrValBytes_def Let_def)

lemma WriteElementHead_safe:
  assumes "GetNewBuffer w = None"
  shows "safe_result w (WriteElementHead ty tag v w)"
proof -
  have "extends w (PutRaw (HeadBytes (WImplicitProfileId w) ty tag v) w)" if "mRemainingLen w \<ge> 17"
    using assms that length_HeadBytes [of "WImplicitProfileId w" ty tag v]
    by (intro extends_PutRaw) (auto simp: word_le_nat_alt)
  then show ?thesis using assms
    by (auto simp: WriteElementHead_def Let_def intro: WriteData_safe extends_refl)
qed

lemma WriteElementWithData_safe:
  "GetNewBuffer w = None \<Longrightarrow> safe_result w (WriteElementWithData ty tag bs w)"
  unfolding WriteElementWithData_def Let_def
  by (intro safe_WSuccessOrExit WriteElementHead_safe WriteData_safe)

lemma Reserve_extends [simp]:
  "extends w (ReserveClose w') = extends w w'" "extends (ReserveClose w) w' = extends w w'"
  "extends w (UnreserveClose w') = extends w w'" "extends (UnreserveClose w) w' = extends w w'"
  "GetNewBuffer (ReserveClose w) = GetNewBuffer w" "GetNewBuffer (UnreserveClose w) = GetNewBuffer w"
  by (auto simp: extends_def buffer_size_def ReserveClose_def UnreserveClose_def)

lemma extends_updates [simp]:
  "extends w (w'\<lparr>mWContainerType := a\<rparr>) = extends w w'" "extends w (w'\<lparr>mWContainerOpen := b\<rparr>) = extends w w'"
  "extends (w\<lparr>mWContainerType := a\<rparr>) w' = extends w w'"
  by (auto simp: extends_def buffer_size_def)

lemma StartContainer_safe:
  assumes "GetNewBuffer w = None"
  shows "safe_result w (map_option (\<lambda>(err, _, w'). (err, w')) (StartContainer tag ty w))"
proof -
  have "safe_result (ReserveClose w) (WriteElementHead ty tag 0 (ReserveClose w))"
    using assms by (intro WriteElementHead_safe) simp
  then show ?thesis using assms
    by (auto simp: StartContainer_def safe_result_def extends_refl split: option.splits)
qed

lemma EndContainer_safe:
  assumes "GetNewBuffer w = None"
  shows "safe_result w (EndContainer outer w)"
proof -
  let ?w = "UnreserveClose (w\<lparr>mWContainerType := outer\<rparr>)"
  have "safe_result ?w (WriteElementHead 0x18 AnonymousTag 0 ?w)"
    using assms by (intro WriteElementHead_safe) simp
  then show ?thesis using assms
    by (auto simp: EndContainer_def safe_result_def extends_refl split: option.splits)
qed

lemma CopyLoop_safe: "GetNewBuffer w = None \<Longrightarrow> safe_result w (CopyLoop n r w)"
proof (induction n r w rule: CopyLoop.induct)
  case (1 n r w)
  show ?case
  proof (cases "n = 0")
    case True
    with 1 show ?thesis by (simp add: CopyLoop.simps extends_refl)
  next
    case False
    obtain err chunk r' where rd: "ReadData (min n 16) r = (err, chunk, r')" by (metis prod_cases3)
    obtain err1 w1 where wd: "WriteData chunk w = Some (err1, w1)" "extends w w1"
      using WriteData_safe [OF "1.prems", of chunk] by (auto simp: safe_result_def split: option.splits)
    have "safe_result w1 (CopyLoop (n - min n 16) r' w1)" if "err = WEAVE_NO_ERROR" "err1 = WEAVE_NO_ERROR"
      by (rule "1.IH" [OF False refl rd [symmetric] refl _ wd(1)]) (use that extends_new [OF wd(2)] in auto)
    then show ?thesis using False rd wd "1.prems"
      by (auto simp: CopyLoop.simps [of n] Let_def extends_refl safe_result_def intro: extends_trans split: option.splits)
  qed
qed

lemma CopyElement_safe:
  assumes "GetNewBuffer w = None"
  shows "safe_result w (map_option (\<lambda>(err, _, w'). (err, w')) (CopyElement tag r w))"
proof -
  have "safe_result w (WSuccessOrExit (WriteElementHead ty tag v w) (CopyLoop n q))" for ty v n q
    using assms by (intro safe_WSuccessOrExit WriteElementHead_safe CopyLoop_safe)
  then have "safe_result w (map_option (\<lambda>(err, _, w'). (err, w')) (map_option (\<lambda>(err, w1). (err, r1, w1))
      (WSuccessOrExit (WriteElementHead ty tag v w) (CopyLoop n q))))" for ty v n q r1
    by (fastforce simp: safe_result_def split: option.splits)
  then show ?thesis using assms
    by (auto simp: CopyElement_def Let_def extends_refl split: prod.splits)
qed

lemma PutPreEncodedContainer_safe:
  "GetNewBuffer w = None \<Longrightarrow> safe_result w (PutPreEncodedContainer tag ty data w)"
  by (auto simp: PutPreEncodedContainer_def extends_refl intro!: safe_WSuccessOrExit WriteElementHead_safe WriteData_safe)

lemma CopyContainer_safe:
  assumes "GetNewBuffer w = None"
  shows "safe_result w (map_option (\<lambda>(err, _, w'). (err, w')) (CopyContainer tag r w))"
proof -
  have "safe_result w (map_option (\<lambda>(err, _, w'). (err, w')) (map_option (\<lambda>(err, w1). (err, c, w1))
      (PutPreEncodedContainer tag ty data w)))" for c ty data
    using PutPreEncodedContainer_safe [OF assms, of tag ty data]
    by (fastforce simp: safe_result_def split: option.splits)
  then show ?thesis using assms
    by (auto simp: CopyContainer_def Let_def extends_refl split: prod.splits option.splits)
qed


lemma VPutStringF_safe: "GetNewBuffer w = None \<Longrightarrow> safe_result w (VPutStringF malloc tag text w)"
  unfolding VPutStringF_def Let_def
  by (intro safe_WSuccessOrExit WriteElementHead_safe) (auto intro: WriteData_safe extends_refl)

text \<open>
  The calls a client can make on a writer, and what a sequence of them leaves.  A client may go on
  after an error.  \<^verbatim>\<open>EndContainer\<close> takes the type the client kept, which may be any.
\<close>

datatype writer_call =
    CallPut_u64 u64 u64 | CallPut_i64 u64 u64 | CallPut_u64_preserve u64 u64 bool
  | CallPut_i64_preserve u64 u64 bool | CallPutBoolean u64 bool
  | CallPut_float u64 u32 | CallPut_double u64 u64 | CallPutNull u64
  | CallPutBytes u64 "u8 list" | CallPutString u64 "u8 list" | CallPutStringF "nat \<Rightarrow> bool" u64 "u8 list"
  | CallStartContainer u64 TLVType | CallEndContainer TLVType
  | CallPutPreEncodedContainer u64 TLVType "u8 list"
  | CallCopyContainer u64 TLVReader | CallCopyElement u64 TLVReader
  | CallFinalize

fun perform :: "writer_call \<Rightarrow> TLVWriter \<Rightarrow> write_result" where
  "perform (CallPut_u64 tag v) w = Put_u64 tag v w"
| "perform (CallPut_i64 tag v) w = Put_i64 tag v w"
| "perform (CallPut_u64_preserve tag v p) w = Put_u64_preserve tag v p w"
| "perform (CallPut_i64_preserve tag v p) w = Put_i64_preserve tag v p w"
| "perform (CallPutBoolean tag v) w = PutBoolean tag v w"
| "perform (CallPut_float tag v) w = Put_float tag v w"
| "perform (CallPut_double tag v) w = Put_double tag v w"
| "perform (CallPutNull tag) w = PutNull tag w"
| "perform (CallPutBytes tag bs) w = PutBytes tag bs w"
| "perform (CallPutString tag bs) w = PutString tag bs w"
| "perform (CallPutStringF malloc tag bs) w = PutStringF malloc tag bs w"
| "perform (CallStartContainer tag ty) w = map_option (\<lambda>(err, _, w'). (err, w')) (StartContainer tag ty w)"
| "perform (CallEndContainer outer) w = EndContainer outer w"
| "perform (CallPutPreEncodedContainer tag ty bs) w = PutPreEncodedContainer tag ty bs w"
| "perform (CallCopyContainer tag r) w = map_option (\<lambda>(err, _, w'). (err, w')) (CopyContainer tag r w)"
| "perform (CallCopyElement tag r) w = map_option (\<lambda>(err, _, w'). (err, w')) (CopyElement tag r w)"
| "perform CallFinalize w = Some (Writer_Finalize w)"

fun perform_all :: "writer_call list \<Rightarrow> TLVWriter \<Rightarrow> TLVWriter option" where
  "perform_all [] w = Some w"
| "perform_all (c # cs) w = (case perform c w of None \<Rightarrow> None | Some (err, w') \<Rightarrow> perform_all cs w')"

lemma perform_all_append: "perform_all cs w = Some w1 \<Longrightarrow> perform_all (cs @ ds) w = perform_all ds w1"
  by (induction cs arbitrary: w) (auto split: option.splits)

lemma perform_safe: "GetNewBuffer w = None \<Longrightarrow> safe_result w (perform c w)"
proof (cases c)
  case CallFinalize
  assume "GetNewBuffer w = None"
  with CallFinalize show ?thesis
    by (simp add: Writer_Finalize_def FinalizePacketBuffer_def extends_def buffer_size_def)
qed (auto simp: Put_u64_def Put_i64_def Put_u64_preserve_def Put_i64_preserve_def PutBoolean_def Put_float_def
    Put_double_def PutNull_def PutBytes_def PutString_def PutString_len_def PutStringF_def Let_def
    intro: WriteElementHead_safe WriteElementWithData_safe VPutStringF_safe StartContainer_safe EndContainer_safe
      PutPreEncodedContainer_safe CopyContainer_safe CopyElement_safe)

lemma perform_all_safe:
  "GetNewBuffer w = None \<Longrightarrow> \<exists>w'. perform_all cs w = Some w' \<and> extends w w'"
proof (induction cs arbitrary: w)
  case Nil
  then show ?case by (simp add: extends_refl)
next
  case (Cons c cs)
  obtain err w1 where w1: "perform c w = Some (err, w1)" "extends w w1"
    using perform_safe [OF Cons.prems, of c] by (auto simp: safe_result_def split: option.splits)
  obtain w2 where "perform_all cs w1 = Some w2" "extends w1 w2" using Cons.IH [OF extends_new [OF w1(2)]] by blast
  with w1 show ?case by (auto intro: extends_trans)
qed

section \<open>A chain of buffers\<close>

text \<open>The bytes the chain holds, and the space in the current buffer and the ones still to come.\<close>

definition written :: "TLVWriter \<Rightarrow> u8 list" where
  "written w = concat (mDone w) @ mOut w"

definition space :: "u32 list \<Rightarrow> TLVWriter \<Rightarrow> nat" where
  "space pool w = unat (mRemainingLen w) + sum_list (map unat pool)"

lemma written_PutRaw [simp]: "written (PutRaw bs w) = written w @ bs"
  by (simp add: written_def PutRaw_def)

lemma unat_PutRaw:
  assumes "length bs \<le> unat (mRemainingLen w)"
  shows "unat (mRemainingLen (PutRaw bs w)) = unat (mRemainingLen w) - length bs"
    "unat (mLenWritten w) + length bs \<le> unat (mWMaxLen w) \<Longrightarrow>
       unat (mLenWritten (PutRaw bs w)) = unat (mLenWritten w) + length bs"
proof -
  have n: "unat (of_nat (length bs) :: u32) = length bs"
    using assms unat_u32_less [of "mRemainingLen w"] by (intro unat_of_nat_u32) simp
  then show "unat (mRemainingLen (PutRaw bs w)) = unat (mRemainingLen w) - length bs"
    using assms unat_sub [of "of_nat (length bs)" "mRemainingLen w"] by (simp add: word_le_nat_alt PutRaw_def)
  show "unat (mLenWritten (PutRaw bs w)) = unat (mLenWritten w) + length bs"
    if "unat (mLenWritten w) + length bs \<le> unat (mWMaxLen w)"
    using that n unat_u32_less [of "mWMaxLen w"] by (simp add: PutRaw_def unat_add_u32)
qed

lemma NextOutputBuffer_pool:
  assumes "mRemainingLen w = 0" "GetNewBuffer w = Some (n # pool)"
  obtains w1 where "NextOutputBuffer w = (WEAVE_NO_ERROR, w1)" "GetNewBuffer w1 = Some pool"
    "mLenWritten w1 = mLenWritten w" "mWMaxLen w1 = mWMaxLen w" "written w1 = written w"
    "mRemainingLen w1 = min n (mWMaxLen w - mLenWritten w)"
proof -
  let ?w = "snd (NextOutputBuffer w)"
  note defs = NextOutputBuffer_def GetNewPacketBuffer_def FinalizePacketBuffer_def written_def Let_def min_def
  have "fst (NextOutputBuffer w) = WEAVE_NO_ERROR" "GetNewBuffer ?w = Some pool" "mLenWritten ?w = mLenWritten w"
    "mWMaxLen ?w = mWMaxLen w" "written ?w = written w" "mRemainingLen ?w = min n (mWMaxLen w - mLenWritten w)"
    using assms by (cases "FinalizeBuffer w"; cases "mWMaxLen w - mLenWritten w < n"; auto simp: defs)+
  with that [of ?w] show ?thesis by (cases "NextOutputBuffer w") auto
qed

text \<open>
  Room for \<open>k\<close> more bytes: within \<^verbatim>\<open>mMaxLen\<close>, and within the buffers, where the last of those
  needed may be cut off at \<^verbatim>\<open>mMaxLen\<close>.
\<close>

lemma WriteLoop_chain:
  assumes "GetNewBuffer w = Some pool" "unat (mLenWritten w) + length p \<le> unat (mWMaxLen w)"
    "length p \<le> space pool w"
  shows "\<exists>w' pool'. WriteLoop p w = Some (WEAVE_NO_ERROR, w') \<and> written w' = written w @ p \<and>
    GetNewBuffer w' = Some pool' \<and> length pool' \<le> length pool \<and> mWMaxLen w' = mWMaxLen w"
  using assms
proof (induction pool arbitrary: w p)
  case Nil
  then have "WriteLoop p w = Some (WEAVE_NO_ERROR, PutRaw p w)" by (intro WriteLoop_fits) (simp add: space_def)
  with Nil show ?case by (simp add: PutRaw_def written_def)
next
  case (Cons n pool)
  show ?case
  proof (cases "length p \<le> unat (mRemainingLen w)")
    case True
    with WriteLoop_fits [OF True] Cons.prems show ?thesis by (simp add: PutRaw_def written_def)
  next
    case False
    define k where "k = unat (mRemainingLen w)"
    define wa where "wa = PutRaw (take k p) w"
    have lk: "length (take k p) = k" using False by (simp add: k_def)
    have wa: "mRemainingLen wa = 0" "unat (mLenWritten wa) = unat (mLenWritten w) + k"
      using unat_PutRaw [of "take k p" w] lk Cons.prems(2) False by (auto simp: wa_def k_def unat_eq_0)
    have wa': "GetNewBuffer wa = Some (n # pool)" "mWMaxLen wa = mWMaxLen w" "written wa = written w @ take k p"
      using Cons.prems(1) by (simp_all add: wa_def) (simp add: PutRaw_def)
    obtain w1 where w1: "NextOutputBuffer wa = (WEAVE_NO_ERROR, w1)" "GetNewBuffer w1 = Some pool"
      "mLenWritten w1 = mLenWritten wa" "mWMaxLen w1 = mWMaxLen wa" "written w1 = written wa"
      "mRemainingLen w1 = min n (mWMaxLen wa - mLenWritten wa)"
      by (rule NextOutputBuffer_pool [OF wa(1) wa'(1)])
    have dn: "drop k p \<noteq> []" using False by (simp add: k_def)
    have split: "WriteLoop p w = WriteLoop (drop k p) wa"
    proof (cases "k = 0")
      case True
      then show ?thesis by (simp add: wa_def)
    next
      case nz: False
      then have "mRemainingLen w \<noteq> 0" by (auto simp: k_def)
      with False dn show ?thesis
        by (subst WriteLoop.simps) (auto simp: NextOutputBuffer_def k_def wa_def min_def Let_def)
    qed
    have fresh: "WriteLoop (drop k p) wa = WriteLoop (drop k p) w1"
    proof (cases "mRemainingLen w1 = 0")
      case True
      with w1(1) dn show ?thesis by (subst WriteLoop.simps) simp
    next
      case nz: False
      then have "NextOutputBuffer w1 = (WEAVE_NO_ERROR, w1)" by (simp add: NextOutputBuffer_def)
      with w1(1) dn show ?thesis
        by (simp only: WriteLoop.simps [of "drop k p" wa] WriteLoop.simps [of "drop k p" w1] if_False prod.case)
    qed
    have mw: "unat (mWMaxLen wa - mLenWritten wa) = unat (mWMaxLen w) - (unat (mLenWritten w) + k)"
      using wa(2) wa'(2) Cons.prems(2) False unat_sub [of "mLenWritten wa" "mWMaxLen wa"]
      by (simp add: word_le_nat_alt k_def)
    have "length (drop k p) \<le> space pool w1"
      using Cons.prems(2,3) mw w1(6) by (auto simp: space_def min_def k_def)
    moreover have "unat (mLenWritten w1) + length (drop k p) \<le> unat (mWMaxLen w1)"
      using w1(3,4) wa(2) wa'(2) Cons.prems(2) False by (simp add: k_def)
    ultimately obtain w2 pool' where "WriteLoop (drop k p) w1 = Some (WEAVE_NO_ERROR, w2)"
      "written w2 = written w1 @ drop k p" "GetNewBuffer w2 = Some pool'" "length pool' \<le> length pool"
      "mWMaxLen w2 = mWMaxLen w1"
      using Cons.IH [OF w1(2)] by blast
    with split fresh wa' w1 show ?thesis by auto
  qed
qed


text \<open>
  With no buffer left to allocate, \<^verbatim>\<open>GetNewPacketBuffer\<close> reports success and delivers nothing,
  and the loop goes round forever.
\<close>

lemma WriteLoop_returns_imp:
  assumes "WriteLoop p w = Some res"
  shows "\<not> (p \<noteq> [] \<and> mRemainingLen w = 0 \<and> GetNewBuffer w = Some [])"
proof (rule WriteLoop.raw_induct [OF _ assms, where P = "\<lambda>p w res. \<not> (p \<noteq> [] \<and> mRemainingLen w = 0 \<and> GetNewBuffer w = Some [])"])
  fix WL p w res
  assume IH: "\<And>p w res. WL p w = Some res \<Longrightarrow> \<not> (p \<noteq> [] \<and> mRemainingLen w = 0 \<and> GetNewBuffer w = Some [])"
    and res: "(if p = [] then Some (WEAVE_NO_ERROR, w)
      else case NextOutputBuffer w of (err, w1) \<Rightarrow>
        if err \<noteq> WEAVE_NO_ERROR then Some (err, w1)
        else let writeLen = min (length p) (unat (mRemainingLen w1))
             in WL (drop writeLen p) (PutRaw (take writeLen p) w1)) = Some res"
  show "\<not> (p \<noteq> [] \<and> mRemainingLen w = 0 \<and> GetNewBuffer w = Some [])"
  proof
    assume a: "p \<noteq> [] \<and> mRemainingLen w = 0 \<and> GetNewBuffer w = Some []"
    then obtain w1 where "NextOutputBuffer w = (WEAVE_NO_ERROR, w1)" "mRemainingLen w1 = 0" "GetNewBuffer w1 = Some []"
      by (cases "FinalizeBuffer w") (auto simp: NextOutputBuffer_def GetNewPacketBuffer_def FinalizePacketBuffer_def Let_def)
    with a res have "WL p w1 = Some res" "mRemainingLen w1 = 0" "GetNewBuffer w1 = Some []" by (auto simp: Let_def)
    with IH a show False by blast
  qed
qed

lemma WriteLoop_diverges:
  "\<lbrakk>p \<noteq> []; mRemainingLen w = 0; GetNewBuffer w = Some []\<rbrakk> \<Longrightarrow> WriteLoop p w = None"
  using WriteLoop_returns_imp [of p w] by (cases "WriteLoop p w") auto


section \<open>Copying\<close>

primrec retag :: "u64 \<Rightarrow> tlv \<Rightarrow> tlv" where
  "retag tag (Scalar ty _ v) = Scalar ty tag v"
| "retag tag (Str ty _ bs) = Str ty tag bs"
| "retag tag (Cont ty _ es) = Cont ty tag es"

primrec body :: "u32 \<Rightarrow> tlv \<Rightarrow> u8 list" where
  "body ip (Scalar ty tag v) = []"
| "body ip (Str ty tag bs) = bs"
| "body ip (Cont ty tag es) = concat (map (enc ip) es) @ [0x18]"

lemma on_input: "on e rest r \<Longrightarrow> mInput r = body (ImplicitProfileId r) e @ rest"
  by (cases e) simp_all

lemma enc_retag: "on e rest r \<Longrightarrow> enc ip (retag tag e) = HeadBytes ip (ElementType r) tag (mElemLenOrVal r) @ body ip e"
  by (cases e) auto

lemma CopyLoop_room:
  assumes "contiguous r" "mInput r = bs @ rest" "unat n = length bs" "room w (length bs)"
  shows "CopyLoop n r w = Some (WEAVE_NO_ERROR, PutRaw bs w)"
  using assms
proof (induction n r w arbitrary: bs rule: CopyLoop.induct)
  case (1 n r w)
  show ?case
  proof (cases "n = 0")
    case True
    with "1.prems" show ?thesis by (simp add: CopyLoop.simps)
  next
    case False
    let ?k = "min n 16" and ?j = "unat (min n 16)"
    have j: "?j \<le> length bs" using "1.prems"(3) by (auto simp: min_def word_le_nat_alt)
    have rd: "ReadData ?k r = (WEAVE_NO_ERROR, take ?j bs, advance ?j r)"
      using ReadData_contiguous_ok [OF "1.prems"(1), of ?k] j "1.prems"(2) by simp
    have rm: "room w (length (take ?j bs) + length (drop ?j bs))"
      using "1.prems"(4) by (simp flip: length_append del: length_take length_drop)
    have wd: "WriteData (take ?j bs) w = Some (WEAVE_NO_ERROR, PutRaw (take ?j bs) w)"
      by (rule WriteData_room [OF room_mono [OF rm]]) simp
    have c: "contiguous (advance ?j r)" using "1.prems"(1) j "1.prems"(2) by (intro contiguous_advance) simp_all
    have "unat (n - ?k) = length (drop ?j bs)" using "1.prems"(3) by (simp add: unat_sub)
    then have "CopyLoop (n - ?k) (advance ?j r) (PutRaw (take ?j bs) w) =
        Some (WEAVE_NO_ERROR, PutRaw (drop ?j bs) (PutRaw (take ?j bs) w))"
      by (intro "1.IH" [OF False refl rd [symmetric] refl _ wd refl _ c])
        (use "1.prems"(2) j room_PutRaw [OF rm] in \<open>simp_all add: advance_def\<close>)
    with False rd wd show ?thesis by (simp add: CopyLoop.simps [of n] Let_def PutRaw_append)
  qed
qed

lemma CopyElement_on:
  assumes r: "on e rest r" "wf_tlv (mContainerType r) e" "\<not> mContainerOpen r"
    and w: "\<not> mWContainerOpen w" "TagAllowed (mWContainerType w) kTLVElementType_Null tag"
      "WImplicitProfileId w = ImplicitProfileId r" "room w (length (enc (ImplicitProfileId r) (retag tag e)))"
  obtains r' where "CopyElement tag r w = Some (WEAVE_NO_ERROR, r', PutRaw (enc (ImplicitProfileId r) (retag tag e)) w)"
    "before r'" "mInput r' = rest"
proof -
  let ?b = "body (ImplicitProfileId r) e" and ?h = "HeadBytes (ImplicitProfileId r) (ElementType r) tag (mElemLenOrVal r)"
  have c: "contiguous r" using r(1) by (rule on_contiguous)
  note inp = on_input [OF r(1)] and en = enc_retag [OF r(1), of "ImplicitProfileId r" tag]
  obtain r' where r': "Skip r = (WEAVE_NO_ERROR, r')" "before r'" "mInput r' = rest"
    by (rule Skip_on [OF r])
  obtain n where n: "n \<le> length (mInput r)" "mInput r' = drop n (mInput r)" "mLenRead r' = mLenRead r + of_nat n"
    using Skip_keeps [OF c] r'(1) by (auto simp: keeps_def)
  have "length rest = length ?b + length rest - n" using n(2) r'(3) inp by (metis length_append length_drop)
  then have nb: "n = length ?b" using n(1) inp by simp
  have rm: "room w (length ?h + length ?b)" using w(4) en by simp
  have un: "unat (of_nat (length ?b) :: u32) = length ?b"
    using room_bounds(2) [OF room_mono [OF rm, of "length ?b"]] by simp
  have ty: "ElementType r \<noteq> kTLVElementType_NotSpecified" "ElementType r \<noteq> kTLVElementType_EndOfContainer"
    using on_tag_type [OF r(1,2)] by auto
  have "TagAllowed (mWContainerType w) (ElementType r) tag" using w(2) by (auto simp: TagAllowed_def split: if_splits)
  then have hd: "WriteElementHead (ElementType r) tag (mElemLenOrVal r) w = Some (WEAVE_NO_ERROR, PutRaw ?h w)"
    using WriteElementHead_room [of w "ElementType r" tag "mElemLenOrVal r"] room_mono [OF rm] w(1,3) by simp
  have "CopyLoop (GetLengthRead r' - GetLengthRead r) r (PutRaw ?h w) = Some (WEAVE_NO_ERROR, PutRaw ?b (PutRaw ?h w))"
    using n(3) nb un by (intro CopyLoop_room [OF c inp _ room_PutRaw [OF rm]]) (simp add: GetLengthRead_def)
  then have "CopyElement tag r w = Some (WEAVE_NO_ERROR, r', PutRaw (enc (ImplicitProfileId r) (retag tag e)) w)"
    using ty r'(1) hd en by (simp add: CopyElement_def Reader_Init_copy_def PutRaw_append)
  with r' that show ?thesis by blast
qed


section \<open>One element, written and read\<close>

lemma write_then_Next:
  assumes "wf_tlv kTLVType_NotSpecified e" "length (enc kProfileIdNotSpecified e) \<le> unat maxLen"
  obtains w r where "write_tlv e (Writer_Init_buf maxLen) = Some (WEAVE_NO_ERROR, w)"
    "mOut w = enc kProfileIdNotSpecified e"
    "Next (Reader_Init_buf (mOut w)) = (WEAVE_NO_ERROR, r)" "on e [] r" "at [] r"
proof -
  let ?w0 = "Writer_Init_buf maxLen" and ?bs = "enc kProfileIdNotSpecified e"
  have ip: "WImplicitProfileId ?w0 = kProfileIdNotSpecified" "\<not> mWContainerOpen ?w0"
    "mWContainerType ?w0 = kTLVType_NotSpecified" "mOut ?w0 = []"
    by (simp_all add: Writer_Init_buf_def)
  have w: "write_tlv e ?w0 = Some (WEAVE_NO_ERROR, PutRaw ?bs ?w0)" "mOut (PutRaw ?bs ?w0) = ?bs"
    using write_tlv_enc [of ?w0 e] Writer_Init_buf_room [OF assms(2)] assms(1) ip by (simp_all add: PutRaw_def)
  have "length ?bs < 2 ^ 32" using assms(2) unat_u32_less [of maxLen] by simp
  then have "at ?bs (Reader_Init_buf ?bs)" by (rule Reader_Init_buf_at)
  then have at: "at (enc (ImplicitProfileId (Reader_Init_buf ?bs)) e @ []) (Reader_Init_buf ?bs)"
    by (simp add: Reader_Init_buf_def)
  have wf: "wf_tlv (mContainerType (Reader_Init_buf ?bs)) e" using assms(1) by (simp add: Reader_Init_buf_def)
  obtain r where "Next (Reader_Init_buf ?bs) = (WEAVE_NO_ERROR, r)" "on e [] r" "at [] r"
    by (rule Next_at [OF at wf])
  with w that show ?thesis by simp
qed

end
