(* ===== verification/TLV_Theorems.thy ===== *)
theory TLV_Theorems
  imports TLV_Output
begin

text \<open>
  What the TLV reader and writer guarantee to their clients, and where they fall short of their
  documentation.  The lemmas are those of the theories imported here.
\<close>

section \<open>Round trips\<close>

text \<open>
  C4. Writing any list of well-formed element trees through the public calls of the writer into a
  buffer that has room for it succeeds and leaves exactly the encoding; a reader walking that buffer
  through its public calls gets the same trees back.
\<close>

theorem tlv_roundtrip:
  assumes "\<forall>e \<in> set es. wf_tlv kTLVType_NotSpecified e"
    "length (concat (map (enc kProfileIdNotSpecified) es)) \<le> unat maxLen"
  shows "\<exists>w r. write_list es (Writer_Init_buf maxLen) = Some (WEAVE_NO_ERROR, w) \<and>
    mOut w = concat (map (enc kProfileIdNotSpecified) es) \<and>
    read_list (2 * length (mOut w) + 1) (Reader_Init_buf (mOut w)) = Some (WEAVE_NO_ERROR, es, r)"
proof -
  let ?w0 = "Writer_Init_buf maxLen" and ?bs = "concat (map (enc kProfileIdNotSpecified) es)"
  have ip: "WImplicitProfileId ?w0 = kProfileIdNotSpecified" "\<not> mWContainerOpen ?w0"
    "mWContainerType ?w0 = kTLVType_NotSpecified" "mOut ?w0 = []"
    by (simp_all add: Writer_Init_buf_def)
  have "write_list es ?w0 = Some (WEAVE_NO_ERROR, PutRaw (concat (map (enc (WImplicitProfileId ?w0)) es)) ?w0)"
    by (rule write_list_enc [OF write_tlv_enc]) (use assms ip Writer_Init_buf_room in auto)
  then have w: "write_list es ?w0 = Some (WEAVE_NO_ERROR, PutRaw ?bs ?w0)" "mOut (PutRaw ?bs ?w0) = ?bs"
    using ip by (simp_all add: PutRaw_def)
  have rip: "ImplicitProfileId (Reader_Init_buf ?bs) = kProfileIdNotSpecified"
    "mContainerType (Reader_Init_buf ?bs) = kTLVType_NotSpecified"
    by (simp_all add: Reader_Init_buf_def)
  have "length ?bs < 2 ^ 32" using assms(2) unat_u32_less [of maxLen] by simp
  then have "at ?bs (Reader_Init_buf ?bs)" by (rule Reader_Init_buf_at)
  moreover have "sum_list (map nodes es) < 2 * length ?bs + 1"
    using nodes_list_enc [of es kProfileIdNotSpecified] by simp
  ultimately obtain r where "read_list (2 * length ?bs + 1) (Reader_Init_buf ?bs) = Some (WEAVE_NO_ERROR, es, r)"
    using read_list_enc [of es "2 * length ?bs + 1" "Reader_Init_buf ?bs" "[]" kTLVType_NotSpecified]
      assms(1) rip by (auto simp: closes_def)
  with w show ?thesis by (intro exI [of _ "PutRaw ?bs ?w0"] exI [of _ r] conjI) (simp_all only: w(2))
qed

text \<open>A structure with a context-tagged integer, a string and a nested array, as a witness.\<close>

definition sample :: "tlv list" where
  "sample = [Cont kTLVElementType_Structure AnonymousTag
     [Scalar kTLVElementType_UInt8 (ContextTag 1) 7, Str 0x0C (ContextTag 2) [0x48, 0x69],
      Cont kTLVElementType_Array (ContextTag 3) [Scalar kTLVElementType_BooleanTrue AnonymousTag 0]]]"

theorem tlv_roundtrip_witness:
  "list_all (wf_tlv kTLVType_NotSpecified) sample \<and>
   (\<exists>w r. write_list sample (Writer_Init_buf 64) = Some (WEAVE_NO_ERROR, w) \<and>
     mOut w = concat (map (enc kProfileIdNotSpecified) sample) \<and>
     read_list (2 * length (mOut w) + 1) (Reader_Init_buf (mOut w)) = Some (WEAVE_NO_ERROR, sample, r))"
proof -
  have wf: "\<forall>e \<in> set sample. wf_tlv kTLVType_NotSpecified e"
    by (simp add: sample_def wf_tag_def proper_tag_def TagAllowed_def scalar_type_def fits_def ContextTag_def
        IsSpecialTag_def TagNumFromTag_def)
  have "length (concat (map (enc kProfileIdNotSpecified) sample)) \<le> unat (64 :: u32)"
    by (simp add: sample_def HeadBytes_def TagBytes_def ControlByte_def LenOrValBytes_def ContextTag_def
        IsSpecialTag_def TagNumFromTag_def Let_def GetTLVFieldSize_def TLVTypeHasValue_def)
  from tlv_roundtrip [OF wf this] wf show ?thesis by (simp add: list_all_iff)
qed

text \<open>
  An unsigned integer written with \<^verbatim>\<open>Put(tag, uint64_t)\<close> comes back from the reader with its
  tag and value, whichever of the four field sizes the writer chose; the other unsigned overloads
  write through this one.
\<close>

theorem put_get_unsigned:
  assumes "wf_tag kTLVType_NotSpecified tag" "17 \<le> unat maxLen"
  shows "\<exists>w r. Put_u64 tag v (Writer_Init_buf maxLen) = Some (WEAVE_NO_ERROR, w) \<and>
    Next (Reader_Init_buf (mOut w)) = (WEAVE_NO_ERROR, r) \<and> GetTag r = tag \<and>
    GetType r = kTLVType_UnsignedInteger \<and> Get_u64 r d = (WEAVE_NO_ERROR, v)"
proof -
  let ?e = "Scalar (uint_type v) tag v" and ?w0 = "Writer_Init_buf maxLen"
  have wf: "wf_tlv kTLVType_NotSpecified ?e"
    using assms(1) fits_uint_type by (simp add: scalar_type_def uint_type_def)
  obtain w r where w: "write_tlv ?e ?w0 = Some (WEAVE_NO_ERROR, w)" "Next (Reader_Init_buf (mOut w)) = (WEAVE_NO_ERROR, r)"
    "on ?e [] r"
    by (rule write_then_Next [OF wf, of maxLen])
      (use assms(2) length_HeadBytes [of kProfileIdNotSpecified "uint_type v" tag v] in simp_all)
  then have "GetTag r = tag" "GetType r = kTLVType_UnsignedInteger"
    by (auto simp: GetTag_def GetType_def uint_type_def Let_def)
  with w Get_u64_on_uint [OF w(3)] show ?thesis by (auto simp: Put_u64_scalar)
qed


lemma wf_AnonymousTag: "wf_tag kTLVType_NotSpecified AnonymousTag"
  using AnonymousTag_special by (simp add: wf_tag_def TagAllowed_def)

theorem put_get_unsigned_witness:
  "\<exists>w r. Put_u64 AnonymousTag 70000 (Writer_Init_buf 20) = Some (WEAVE_NO_ERROR, w) \<and>
    Next (Reader_Init_buf (mOut w)) = (WEAVE_NO_ERROR, r) \<and> GetTag r = AnonymousTag \<and>
    GetType r = kTLVType_UnsignedInteger \<and> Get_u64 r 0 = (WEAVE_NO_ERROR, 70000)"
  using put_get_unsigned [OF wf_AnonymousTag, of 20 70000 0] by simp

text \<open>
  A signed integer written with \<^verbatim>\<open>Put(tag, int64_t)\<close>, in the shortest of the four field sizes that
  holds it, comes back sign-extended to the same 64-bit value.
\<close>

theorem put_get_signed:
  assumes "wf_tag kTLVType_NotSpecified tag" "17 \<le> unat maxLen"
  shows "\<exists>w r. Put_i64 tag v (Writer_Init_buf maxLen) = Some (WEAVE_NO_ERROR, w) \<and>
    Next (Reader_Init_buf (mOut w)) = (WEAVE_NO_ERROR, r) \<and> GetTag r = tag \<and>
    GetType r = kTLVType_SignedInteger \<and> Get_i64 r = (WEAVE_NO_ERROR, v)"
proof -
  let ?v = "truncated (sint_type v) v"
  let ?e = "Scalar (sint_type v) tag ?v"
  have wf: "wf_tlv kTLVType_NotSpecified ?e"
    using assms(1) fits_sint_type by (simp add: scalar_type_def sint_type_def)
  obtain w r where w: "write_tlv ?e (Writer_Init_buf maxLen) = Some (WEAVE_NO_ERROR, w)"
    "Next (Reader_Init_buf (mOut w)) = (WEAVE_NO_ERROR, r)" "on ?e [] r"
    by (rule write_then_Next [OF wf, of maxLen])
      (use assms(2) length_HeadBytes [of kProfileIdNotSpecified "sint_type v" tag ?v] in simp_all)
  then have "GetTag r = tag" "GetType r = kTLVType_SignedInteger"
    by (auto simp: GetTag_def GetType_def sint_type_def Let_def)
  with w Get_u64_on_sint [OF w(3)] show ?thesis by (auto simp: Put_i64_scalar Get_i64_def)
qed

theorem put_get_signed_witness:
  "\<exists>w r. Put_i64 AnonymousTag (- 5) (Writer_Init_buf 20) = Some (WEAVE_NO_ERROR, w) \<and>
    Next (Reader_Init_buf (mOut w)) = (WEAVE_NO_ERROR, r) \<and> GetTag r = AnonymousTag \<and>
    GetType r = kTLVType_SignedInteger \<and> Get_i64 r = (WEAVE_NO_ERROR, - 5)"
  using put_get_signed [OF wf_AnonymousTag, of 20 "- 5"] by simp

text \<open>
  A byte string written with \<^verbatim>\<open>PutBytes\<close> comes back from \<^verbatim>\<open>GetBytes\<close> whole and unchanged when
  the caller's buffer is large enough, and with \<^verbatim>\<open>WEAVE_ERROR_BUFFER_TOO_SMALL\<close> and no byte stored when
  it is not.
\<close>

theorem put_get_bytes:
  assumes "wf_tag kTLVType_NotSpecified tag" "length bs + 17 \<le> unat maxLen"
  shows "\<exists>w r. PutBytes tag bs (Writer_Init_buf maxLen) = Some (WEAVE_NO_ERROR, w) \<and>
    Next (Reader_Init_buf (mOut w)) = (WEAVE_NO_ERROR, r) \<and> GetTag r = tag \<and>
    GetType r = kTLVType_ByteString \<and> unat (GetLength r) = length bs \<and>
    (if length bs \<le> unat bufSize
     then fst (GetBytes bufSize r) = WEAVE_NO_ERROR \<and> fst (snd (GetBytes bufSize r)) = bs
     else fst (GetBytes bufSize r) = WEAVE_ERROR_BUFFER_TOO_SMALL \<and> fst (snd (GetBytes bufSize r)) = [])"
proof -
  let ?ty = "str_type kTLVType_ByteString bs"
  let ?e = "Str ?ty tag bs"
  have lb: "length bs < 2 ^ 32" using assms(2) unat_u32_less [of maxLen] by simp
  have wf: "wf_tlv kTLVType_NotSpecified ?e"
    using WriteElementWithData_str(2) [OF lb, of kTLVType_ByteString] assms(1) by simp
  obtain w r where w: "write_tlv ?e (Writer_Init_buf maxLen) = Some (WEAVE_NO_ERROR, w)"
    "Next (Reader_Init_buf (mOut w)) = (WEAVE_NO_ERROR, r)" "on ?e [] r"
    by (rule write_then_Next [OF wf, of maxLen])
      (use assms(2) length_HeadBytes [of kProfileIdNotSpecified ?ty tag "of_nat (length bs)"] in simp_all)
  have "PutBytes tag bs (Writer_Init_buf maxLen) = Some (WEAVE_NO_ERROR, w)"
    using w(1) WriteElementWithData_str(1) [OF lb, of kTLVType_ByteString] by (simp add: PutBytes_def)
  moreover have "GetTag r = tag" "GetType r = kTLVType_ByteString"
    using w(3) by (auto simp: GetTag_def GetType_def str_type_def Let_def)
  moreover have "fst (GetBytes bufSize r) = WEAVE_NO_ERROR \<and> fst (snd (GetBytes bufSize r)) = bs"
    if "length bs \<le> unat bufSize"
    using GetBytes_on [OF w(3) wf that] by simp
  moreover have "fst (GetBytes bufSize r) = WEAVE_ERROR_BUFFER_TOO_SMALL \<and> fst (snd (GetBytes bufSize r)) = []"
    if "\<not> length bs \<le> unat bufSize"
    using GetBytes_too_small [OF w(3) wf] that by simp
  ultimately show ?thesis using w(2) GetLength_on [OF w(3) wf] by auto
qed

theorem put_get_bytes_witness:
  "\<exists>w r. PutBytes AnonymousTag [1, 2, 3] (Writer_Init_buf 20) = Some (WEAVE_NO_ERROR, w) \<and>
    Next (Reader_Init_buf (mOut w)) = (WEAVE_NO_ERROR, r) \<and> fst (snd (GetBytes 8 r)) = [1, 2, 3]"
  using put_get_bytes [OF wf_AnonymousTag, of "[1, 2, 3]" 20 8] by auto


section \<open>The cursor\<close>

text \<open>
  Wherever in a container the cursor is, \<^verbatim>\<open>Next\<close> passes the whole of the element it is on,
  nested containers included, and lands on the element that follows, with its tag and type; in front of
  the end marker it reports the end of the container instead.
\<close>

theorem next_lands_on_following_element:
  assumes "at (enc (ImplicitProfileId r) e @ rest) r" "wf_tlv (mContainerType r) e"
  shows "\<exists>r'. Next r = (WEAVE_NO_ERROR, r') \<and> on e rest r' \<and> at rest r' \<and>
    GetContainerType r' = GetContainerType r"
  by (rule Next_at [OF assms]) (auto simp: same_level_def GetContainerType_def)

theorem next_lands_on_following_element_witness:
  "\<exists>r'. Next (Reader_Init_buf (enc 0xFFFFFFFF (hd sample) @ [0x14])) = (WEAVE_NO_ERROR, r') \<and>
    on (hd sample) [0x14] r'"
proof -
  let ?bs = "enc 0xFFFFFFFF (hd sample) @ [0x14]"
  let ?r = "Reader_Init_buf ?bs"
  have "length ?bs < 2 ^ 32"
    by (simp add: sample_def HeadBytes_def TagBytes_def ControlByte_def LenOrValBytes_def ContextTag_def
        IsSpecialTag_def TagNumFromTag_def Let_def GetTLVFieldSize_def TLVTypeHasValue_def)
  then have "at ?bs ?r" by (rule Reader_Init_buf_at)
  moreover have ip: "ImplicitProfileId ?r = 0xFFFFFFFF" "mContainerType ?r = kTLVType_NotSpecified"
    by (simp_all add: Reader_Init_buf_def)
  moreover have "wf_tlv kTLVType_NotSpecified (hd sample)"
    by (simp add: sample_def wf_tag_def proper_tag_def TagAllowed_def scalar_type_def fits_def ContextTag_def
        IsSpecialTag_def TagNumFromTag_def)
  ultimately show ?thesis using next_lands_on_following_element [of ?r "hd sample" "[0x14]"] by (auto simp only: ip)
qed

text \<open>
  The end of a container is sticky: once \<^verbatim>\<open>Next\<close> has reported it, every further \<^verbatim>\<open>Next\<close>
  reports it again and the reader does not move.
\<close>

theorem end_of_container_is_sticky:
  assumes "at (0x18 # rest) r" "GetContainerType r \<noteq> kTLVType_NotSpecified"
  shows "fst (Next r) = WEAVE_END_OF_TLV \<and> mInput (snd (Next r)) = rest \<and>
    Next (snd (Next r)) = (WEAVE_END_OF_TLV, snd (Next r))"
proof -
  obtain r' where "Next r = (WEAVE_END_OF_TLV, r')" "ElementType r' = kTLVElementType_EndOfContainer" "mInput r' = rest"
    by (rule Next_at_end [OF assms(1)]) (use assms(2) in \<open>auto simp: GetContainerType_def\<close>)
  then show ?thesis by (simp add: Next_def [of r'] Skip_def)
qed

theorem end_of_container_is_sticky_witness:
  "\<exists>r. at [0x18] r \<and> Next (snd (Next r)) = (WEAVE_END_OF_TLV, snd (Next r))"
proof -
  let ?r = "(Reader_Init_buf [0x18])\<lparr>mContainerType := kTLVType_Array\<rparr>"
  have "at [0x18] ?r" using Reader_Init_buf_at [of "[0x18]"] by (simp add: at_def before_def contiguous_def)
     (simp add: Reader_Init_buf_def)
  moreover have "GetContainerType ?r \<noteq> kTLVType_NotSpecified" by (simp add: GetContainerType_def)
  ultimately show ?thesis using end_of_container_is_sticky [of "[]" ?r] by blast
qed

text \<open>
  C29. \<^verbatim>\<open>CopyElement\<close> writes the element the reader is on, with all it contains, under the tag
  given, and leaves the reader behind it.
\<close>

theorem copy_element_re_encodes:
  assumes "on e rest r" "wf_tlv (mContainerType r) e" "\<not> mContainerOpen r"
    and "\<not> mWContainerOpen w" "wf_tag (mWContainerType w) tag"
      "WImplicitProfileId w = ImplicitProfileId r" "room w (length (enc (ImplicitProfileId r) (retag tag e)))"
  shows "\<exists>r' w'. CopyElement tag r w = Some (WEAVE_NO_ERROR, r', w') \<and>
    mOut w' = mOut w @ enc (ImplicitProfileId r) (retag tag e) \<and> mInput r' = rest"
proof -
  have "TagAllowed (mWContainerType w) kTLVElementType_Null tag" using assms(5) by (rule TagAllowed_wf)
  then obtain r' where
    "CopyElement tag r w = Some (WEAVE_NO_ERROR, r', PutRaw (enc (ImplicitProfileId r) (retag tag e)) w)" "mInput r' = rest"
    by (rule CopyElement_on [OF assms(1-4) _ assms(6,7)])
  then show ?thesis by (auto simp: PutRaw_def)
qed

theorem copy_element_re_encodes_witness:
  "\<exists>r r' w'. CopyElement AnonymousTag r (Writer_Init_buf 8) = Some (WEAVE_NO_ERROR, r', w') \<and>
    mOut w' = enc 0xFFFFFFFF (Str 0x10 AnonymousTag [9, 8])"
proof -
  let ?e = "Str 0x10 AnonymousTag [9, 8]" and ?w = "Writer_Init_buf 8"
  have wf: "wf_tlv kTLVType_NotSpecified ?e" using wf_AnonymousTag by (simp add: fits_def)
  have len: "length (enc 0xFFFFFFFF ?e) = 4"
    using AnonymousTag_special by (simp add: HeadBytes_def TagBytes_def ControlByte_def LenOrValBytes_def)
  let ?r0 = "Reader_Init_buf (enc 0xFFFFFFFF ?e)"
  have at: "at (enc 0xFFFFFFFF ?e) ?r0" by (rule Reader_Init_buf_at) (simp only: len, simp)
  have f: "ImplicitProfileId ?r0 = 0xFFFFFFFF" "mContainerType ?r0 = kTLVType_NotSpecified"
    "WImplicitProfileId ?w = 0xFFFFFFFF" "mWContainerType ?w = kTLVType_NotSpecified" "\<not> mWContainerOpen ?w" "mOut ?w = []"
    by (simp_all add: Reader_Init_buf_def Writer_Init_buf_def)
  obtain r where r: "on ?e [] r" "same_level ?r0 r"
    by (rule Next_at [where r = ?r0 and e = ?e and rest = "[]"]) (use at wf f in auto)
  have "room ?w (length (enc (ImplicitProfileId r) (retag AnonymousTag ?e)))"
    using len r(2) f by (intro Writer_Init_buf_room) (simp add: same_level_def)
  then show ?thesis
    using copy_element_re_encodes [OF r(1), of ?w AnonymousTag] wf wf_AnonymousTag r(2) f
    by (fastforce simp: same_level_def)
qed

section \<open>Buffers\<close>






text \<open>
  With a chain of buffers, \<^verbatim>\<open>WriteData\<close> ends and the chain then holds, across its buffers, what it
  held before followed by the new data, provided the data fits under the maximum length and the
  current buffer and the ones still to come have space for it.
\<close>

theorem chain_holds_what_was_written:
  assumes "GetNewBuffer w = Some pool" "unat (mLenWritten w) + length p \<le> unat (mWMaxLen w)"
    "length p \<le> unat (mRemainingLen w) + sum_list (map unat pool)"
  shows "\<exists>w'. WriteData p w = Some (WEAVE_NO_ERROR, w') \<and> written w' = written w @ p \<and> mWMaxLen w' = mWMaxLen w"
proof -
  have "unat (of_nat (length p) :: u32) = length p"
    using assms(2) unat_u32_less [of "mWMaxLen w"] by (intro unat_of_nat_u32) simp
  then have "mLenWritten w + of_nat (length p) \<le> mWMaxLen w"
    using assms(2) unat_add_u32 [of "mLenWritten w" "of_nat (length p)"] unat_u32_less [of "mWMaxLen w"]
    by (simp add: word_le_nat_alt)
  then show ?thesis using WriteLoop_chain [OF assms(1,2)] assms(3) by (fastforce simp: WriteData_def space_def)
qed

theorem chain_holds_what_was_written_witness:
  "\<exists>w'. WriteData [1, 2, 3, 4, 5] (Writer_Init_packet 2 100 True [1, 4]) = Some (WEAVE_NO_ERROR, w') \<and>
    written w' = [1, 2, 3, 4, 5]"
  using chain_holds_what_was_written [of "Writer_Init_packet 2 100 True [1, 4]" "[1, 4]" "[1, 2, 3, 4, 5]"]
  by (auto simp: Writer_Init_packet_def written_def)

section \<open>Where the code departs from its documentation\<close>

text \<open>
  At the end of a chain of PacketBuffers that is shorter than the reader's maximum length,
  \<^verbatim>\<open>Next\<close> reports the end once; the next call dereferences the null pointer that
  \<^verbatim>\<open>GetNextPacketBuffer\<close> left in \<^verbatim>\<open>mReadPoint\<close>.  The class documentation says the reader keeps
  returning \<^verbatim>\<open>WEAVE_END_OF_TLV\<close>.
\<close>

theorem end_of_chain_is_not_sticky:
  assumes "ElementType r = kTLVElementType_NotSpecified" "in_bounds r" "mInput r = []" "tl (mBufHandle r) = []"
    "GetNextBuffer r = GetNextPacketBuffer" "mLenRead r \<noteq> mMaxLen r"
  shows "fst (Next r) = WEAVE_END_OF_TLV \<and> fst (Next (snd (Next r))) = UNDEFINED_BEHAVIOR"
proof -
  let ?r1 = "ClearElementState r"
  let ?r2 = "?r1\<lparr>mBufHandle := [], mReadPointStray := True\<rparr>"
  have sk: "Skip q = (WEAVE_NO_ERROR, ClearElementState q)" if "ElementType q = kTLVElementType_NotSpecified" for q
    using that by (simp add: Skip_def TLVTypeIsContainer_def SkipData_def TLVTypeHasLength_def)
  have "NextPacketBuffer (mBufHandle r) = ([], [])"
    using assms(4) by (cases "mBufHandle r") (auto simp: NextPacketBuffer_def)
  then have 1: "Next r = (WEAVE_END_OF_TLV, ?r2)"
    using assms by (simp add: Next_def sk ReadElement_def EnsureData_def in_bounds_def ClearElementState_def)
  have "ElementType ?r2 = kTLVElementType_NotSpecified" by (simp add: ElementType_def ClearElementState_def)
  from sk [OF this] have "Next ?r2 = (UNDEFINED_BEHAVIOR, ClearElementState ?r2)"
    by (simp add: Next_def ReadElement_def EnsureData_def ClearElementState_def)
  with 1 show ?thesis by simp
qed

theorem end_of_chain_is_not_sticky_witness:
  "fst (Next (snd (Next (Reader_Init_packet [[]] 0xFFFFFFFF True)))) = UNDEFINED_BEHAVIOR"
  using end_of_chain_is_not_sticky [of "Reader_Init_packet [[]] 0xFFFFFFFF True"]
  by (simp add: ElementType_def in_bounds_def Reader_Init_packet_def)

text \<open>
  C40. When a further PacketBuffer cannot be allocated, \<^verbatim>\<open>WriteData\<close> does not report
  \<^verbatim>\<open>WEAVE_ERROR_NO_MEMORY\<close>, as documented for every \<^verbatim>\<open>Put\<close>: \<^verbatim>\<open>GetNewPacketBuffer\<close> returns
  success with a buffer of length 0 and the loop never ends.
\<close>

theorem writer_loops_when_out_of_buffers:
  assumes "p \<noteq> []" "mRemainingLen w = 0" "GetNewBuffer w = Some []" "mLenWritten w + of_nat (length p) \<le> mWMaxLen w"
  shows "WriteData p w = None"
  using assms by (simp add: WriteData_def WriteLoop_diverges)

theorem writer_loops_when_out_of_buffers_witness:
  "WriteData [1] (Writer_Init_packet 0 100 True []) = None"
  using writer_loops_when_out_of_buffers [of "[1]" "Writer_Init_packet 0 100 True []"]
  by (simp add: Writer_Init_packet_def)

text \<open>
  The byte reserved for closing a container can be used up: in a buffer of 18 bytes, a structure
  with one member whose head takes 17 bytes is written without an error, and closing it then fails.
\<close>

theorem reserved_byte_is_not_kept:
  "\<exists>w w1. StartContainer AnonymousTag kTLVType_Structure (Writer_Init_buf 18) =
      Some (WEAVE_NO_ERROR, Some kTLVType_NotSpecified, w) \<and> mCloseContainerReserved w \<and>
    Put_u64 (ProfileTag 0x235A0001 0x10000) 0x100000000 w = Some (WEAVE_NO_ERROR, w1) \<and>
    map_option fst (EndContainer kTLVType_NotSpecified w1) = Some WEAVE_ERROR_BUFFER_TOO_SMALL"
proof -
  let ?s = "StartContainer AnonymousTag kTLVType_Structure (Writer_Init_buf 18)"
  let ?w = "snd (snd (the ?s))"
  let ?p = "Put_u64 (ProfileTag 0x235A0001 0x10000) 0x100000000 ?w"
  let ?w1 = "snd (the ?p)"
  have "?s = Some (WEAVE_NO_ERROR, Some kTLVType_NotSpecified, ?w)" by code_simp
  moreover have "mCloseContainerReserved ?w" by code_simp
  moreover have "?p = Some (WEAVE_NO_ERROR, ?w1)" by code_simp
  moreover have "map_option fst (EndContainer kTLVType_NotSpecified ?w1) = Some WEAVE_ERROR_BUFFER_TOO_SMALL" by code_simp
  ultimately show ?thesis by blast
qed

text \<open>
  The length check of \<^verbatim>\<open>VerifyElement\<close> looks at the low 32 bits of an 8-byte length only: a byte string
  that claims \<open>2 ^ 32 + 3\<close> bytes in an input of 12 is accepted and taken for one of 3 bytes.
\<close>

theorem length_check_truncates:
  "\<exists>r. Next (Reader_Init_buf [0x13, 3, 0, 0, 0, 1, 0, 0, 0, 0xAA, 0xBB, 0xCC]) = (WEAVE_NO_ERROR, r) \<and>
    mElemLenOrVal r = 0x100000003 \<and> GetLength r = 3 \<and> fst (Skip r) = WEAVE_NO_ERROR"
proof -
  let ?n = "Next (Reader_Init_buf [0x13, 3, 0, 0, 0, 1, 0, 0, 0, 0xAA, 0xBB, 0xCC])"
  have "?n = (WEAVE_NO_ERROR, snd ?n)" by code_simp
  moreover have "mElemLenOrVal (snd ?n) = 0x100000003" by code_simp
  moreover have "GetLength (snd ?n) = 3" by code_simp
  moreover have "fst (Skip (snd ?n)) = WEAVE_NO_ERROR" by code_simp
  ultimately show ?thesis by blast
qed

end
