(* ===== verification/Message_Crypto.thy ===== *)
theory Message_Crypto
  imports Weave_Encoding
begin

text \<open>
  The message ciphers of \<^verbatim>\<open>src/src/lib/support/crypto\<close>: counter mode (\<^verbatim>\<open>CTRMode.cpp\<close>), the keyed
  hash (\<^verbatim>\<open>HMAC.cpp\<close>) and the comparison of digests (\<^verbatim>\<open>WeaveCrypto.cpp\<close>).  Both classes are templates; the
  block cipher and the hash they are instantiated with come from the platform's cryptographic library and
  are parameters here: \<open>E key block\<close> is the encrypted block, \<open>H bytes\<close> the digest of everything added.
\<close>

section \<open>Counter mode\<close>

abbreviation (input) kCounterLength :: nat where "kCounterLength \<equiv> 16"
abbreviation (input) UINT32_MAX :: u32 where "UINT32_MAX \<equiv> 0xFFFFFFFF"

type_synonym block_cipher = "u8 list \<Rightarrow> u8 list \<Rightarrow> u8 list"

record CTRMode =
  mBlockCipherKey :: "u8 list"
  Counter :: "u8 list"
  mMsgIndex :: u32
  mEncryptedCounter :: "u8 list"

definition CTRMode_new :: CTRMode where
  "CTRMode_new = \<lparr>mBlockCipherKey = [], Counter = replicate kCounterLength 0, mMsgIndex = 0,
     mEncryptedCounter = replicate kCounterLength 0\<rparr>"

definition SetKey :: "u8 list \<Rightarrow> CTRMode \<Rightarrow> CTRMode" where
  "SetKey key s = s\<lparr>mBlockCipherKey := key\<rparr>"

definition SetCounter :: "u8 list \<Rightarrow> CTRMode \<Rightarrow> CTRMode" where
  "SetCounter counter s = s\<lparr>Counter := take kCounterLength counter\<rparr>"

definition SetWeaveMessageCounter :: "u64 \<Rightarrow> u32 \<Rightarrow> CTRMode \<Rightarrow> CTRMode" where
  "SetWeaveMessageCounter sendingNodeId msgId s = s\<lparr>Counter :=
     [ucast (drop_bit 56 sendingNodeId), ucast (drop_bit 48 sendingNodeId), ucast (drop_bit 40 sendingNodeId),
      ucast (drop_bit 32 sendingNodeId), ucast (drop_bit 24 sendingNodeId), ucast (drop_bit 16 sendingNodeId),
      ucast (drop_bit 8 sendingNodeId), ucast sendingNodeId,
      ucast (drop_bit 24 msgId), ucast (drop_bit 16 msgId), ucast (drop_bit 8 msgId), ucast msgId, 0, 0, 0, 0]\<rparr>"

definition BumpCounter :: "u8 list \<Rightarrow> u8 list" where
  "BumpCounter c =
     (let c1 = c[15 := c ! 15 + 1] in
      if c1 ! 15 \<noteq> 0 then c1
      else let c2 = c1[14 := c1 ! 14 + 1] in
        if c2 ! 14 \<noteq> 0 then c2
        else let c3 = c2[13 := c2 ! 13 + 1] in
          if c3 ! 13 \<noteq> 0 then c3
          else c3[12 := c3 ! 12 + 1])"

fun EncryptLoop :: "block_cipher \<Rightarrow> nat \<Rightarrow> u8 list \<Rightarrow> CTRMode \<Rightarrow> u8 list \<times> CTRMode" where
  "EncryptLoop E encryptedCounterIndex [] s = ([], s)"
| "EncryptLoop E encryptedCounterIndex (b # bs) s =
     (if mMsgIndex s < UINT32_MAX
      then
        let s1 = (if encryptedCounterIndex = 0
                  then s\<lparr>mEncryptedCounter := E (mBlockCipherKey s) (Counter s), Counter := BumpCounter (Counter s)\<rparr>
                  else s);
            out = b XOR mEncryptedCounter s1 ! encryptedCounterIndex;
            i = (if encryptedCounterIndex + 1 = kCounterLength then 0 else encryptedCounterIndex + 1);
            (outs, s2) = EncryptLoop E i bs (s1\<lparr>mMsgIndex := mMsgIndex s1 + 1\<rparr>)
        in (out # outs, s2)
      else ([], s))"

definition EncryptData :: "block_cipher \<Rightarrow> u8 list \<Rightarrow> CTRMode \<Rightarrow> u8 list \<times> CTRMode" where
  "EncryptData E inData s = EncryptLoop E (unat (mMsgIndex s) mod kCounterLength) inData s"

definition CTRMode_Reset :: "CTRMode \<Rightarrow> CTRMode" where
  "CTRMode_Reset s = s\<lparr>mBlockCipherKey := [], mMsgIndex := 0, Counter := replicate kCounterLength 0,
     mEncryptedCounter := replicate kCounterLength 0\<rparr>"

section \<open>Keyed hash\<close>

text \<open>SHA-1 works on blocks of 64 bytes and gives 20 bytes.\<close>

abbreviation (input) kBlockLength :: nat where "kBlockLength \<equiv> 64"
abbreviation (input) kDigestLength :: nat where "kDigestLength \<equiv> 20"

type_synonym hash = "u8 list \<Rightarrow> u8 list"

record HMAC =
  mHash :: "u8 list"
  mKey :: "u8 list"

definition HMAC_Reset :: "HMAC \<Rightarrow> HMAC" where
  "HMAC_Reset s = s\<lparr>mHash := [], mKey := []\<rparr>"

definition HMAC_new :: HMAC where
  "HMAC_new = \<lparr>mHash = [], mKey = []\<rparr>"

definition pad_block :: "u8 list \<Rightarrow> u8 \<Rightarrow> u8 list" where
  "pad_block key x = map (\<lambda>b. b XOR x) (key @ replicate (kBlockLength - length key) 0)"

definition HMAC_Begin :: "hash \<Rightarrow> u8 list \<Rightarrow> HMAC \<Rightarrow> HMAC" where
  "HMAC_Begin H key s0 =
     (let s = HMAC_Reset s0;
          s1 = (if length key > kBlockLength then s\<lparr>mKey := H key\<rparr> else s\<lparr>mKey := key\<rparr>)
      in s1\<lparr>mHash := pad_block (mKey s1) 0x36\<rparr>)"

definition HMAC_AddData :: "u8 list \<Rightarrow> HMAC \<Rightarrow> HMAC" where
  "HMAC_AddData msgData s = s\<lparr>mHash := mHash s @ msgData\<rparr>"

definition HMAC_Finish :: "hash \<Rightarrow> HMAC \<Rightarrow> u8 list \<times> HMAC" where
  "HMAC_Finish H s =
     (let innerHash = H (mHash s);
          s1 = s\<lparr>mHash := pad_block (mKey s) 0x5c @ innerHash\<rparr>
      in (H (mHash s1), HMAC_Reset s1))"

section \<open>Comparison of digests\<close>

definition ConstantTimeCompare :: "u8 list \<Rightarrow> u8 list \<Rightarrow> nat \<Rightarrow> bool" where
  "ConstantTimeCompare buf1 buf2 len = (fold (\<lambda>i c. c OR (buf1 ! i XOR buf2 ! i)) [0..<len] 0 = 0)"

section \<open>Counter mode is its own inverse\<close>

lemma EncryptLoop_inverse:
  "\<lbrakk>EncryptLoop E i xs s = (ys, t); unat (mMsgIndex s) + length xs \<le> unat UINT32_MAX\<rbrakk>
    \<Longrightarrow> EncryptLoop E i ys s = (xs, t) \<and> length ys = length xs"
proof (induction xs arbitrary: i s ys t)
  case Nil
  then show ?case by simp
next
  case (Cons x xs)
  let ?s1 = "if i = 0 then s\<lparr>mEncryptedCounter := E (mBlockCipherKey s) (Counter s), Counter := BumpCounter (Counter s)\<rparr> else s"
  let ?i = "if i + 1 = kCounterLength then 0 else i + 1"
  have less: "mMsgIndex s < UINT32_MAX" using Cons.prems(2) by (simp add: word_less_nat_alt)
  obtain zs where zs: "ys = (x XOR mEncryptedCounter ?s1 ! i) # zs"
    "EncryptLoop E ?i xs (?s1\<lparr>mMsgIndex := mMsgIndex ?s1 + 1\<rparr>) = (zs, t)"
    using Cons.prems(1) less by (auto simp: Let_def split: prod.splits)
  have "unat (mMsgIndex s + 1) = unat (mMsgIndex s) + 1"
    using Cons.prems(2) by (simp add: unat_add_u32)
  then have "EncryptLoop E ?i zs (?s1\<lparr>mMsgIndex := mMsgIndex ?s1 + 1\<rparr>) = (xs, t) \<and> length zs = length xs"
    using Cons.prems(2) by (intro Cons.IH [OF zs(2)]) simp
  then show ?case using less zs(1) by (simp add: Let_def xor.assoc)
qed

section \<open>The blocks counter mode encrypts\<close>

definition be32 :: "u32 \<Rightarrow> u8 list" where
  "be32 n = [ucast (drop_bit 24 n), ucast (drop_bit 16 n), ucast (drop_bit 8 n), ucast n]"

definition be64 :: "u64 \<Rightarrow> u8 list" where
  "be64 n = [ucast (drop_bit 56 n), ucast (drop_bit 48 n), ucast (drop_bit 40 n), ucast (drop_bit 32 n),
     ucast (drop_bit 24 n), ucast (drop_bit 16 n), ucast (drop_bit 8 n), ucast n]"

lemma byte_of_nat: "(ucast (drop_bit k (of_nat m :: u32)) :: u8) = of_nat (m div 2 ^ k)" if "m < 2 ^ 32"
proof -
  have "unat (of_nat m :: u32) = m" using that by (rule unat_of_nat_u32)
  then have "unat (drop_bit k (of_nat m :: u32)) = m div 2 ^ k" by (subst unat_drop_bit_eq) (simp add: drop_bit_eq_div)
  then show ?thesis by (metis of_nat_unat)
qed

lemma be32_of_nat:
  "m < 2 ^ 32 \<Longrightarrow> be32 (of_nat m) = [of_nat (m div 2 ^ 24), of_nat (m div 2 ^ 16), of_nat (m div 2 ^ 8), of_nat m]"
  using byte_of_nat [of m 24] byte_of_nat [of m 16] byte_of_nat [of m 8] byte_of_nat [of m 0] by (simp add: be32_def)


lemma div_succ: "Suc m div k = (if k dvd Suc m then Suc (m div k) else m div k)" for m k :: nat
  by (simp add: div_Suc dvd_eq_mod_eq_0)

lemma of_nat_u8_eq_0: "(of_nat m :: u8) = 0 \<longleftrightarrow> 256 dvd m"
  by (simp add: word_of_nat_eq_0_iff)

lemma be32_bytes:
  "m < 2 ^ 32 \<Longrightarrow> be32 (of_nat m) =
    [of_nat (m div 256 div 256 div 256), of_nat (m div 256 div 256), of_nat (m div 256), of_nat m]"
  by (simp add: be32_of_nat flip: div_mult2_eq)

lemma BumpCounter_carry:
  assumes "length pre = 12" "Suc m < 2 ^ 32"
  shows "BumpCounter (pre @ be32 (of_nat m)) = pre @ be32 (of_nat (Suc m))"
proof -
  have b: "be32 (of_nat m) = [of_nat (m div 256 div 256 div 256), of_nat (m div 256 div 256), of_nat (m div 256), of_nat m]"
    "be32 (of_nat (Suc m)) =
      [of_nat (Suc m div 256 div 256 div 256), of_nat (Suc m div 256 div 256), of_nat (Suc m div 256), of_nat (Suc m)]"
    using assms(2) by (intro be32_bytes; simp)+
  have z: "(of_nat a :: u8) + 1 = of_nat (Suc a)" for a by simp
  have u: "(pre @ [a, b, c, d])[15 := e] = pre @ [a, b, c, e]" "(pre @ [a, b, c, d])[14 := e] = pre @ [a, b, e, d]"
    "(pre @ [a, b, c, d])[13 := e] = pre @ [a, e, c, d]" "(pre @ [a, b, c, d])[12 := e] = pre @ [e, b, c, d]"
    "(pre @ [a, b, c, d]) ! 15 = d" "(pre @ [a, b, c, d]) ! 14 = c" "(pre @ [a, b, c, d]) ! 13 = b"
    "(pre @ [a, b, c, d]) ! 12 = a" for a b c d e :: u8
    using assms(1) by (simp_all add: list_update_append nth_append)
  show ?thesis
    unfolding BumpCounter_def b Let_def u z of_nat_u8_eq_0 if_not_P
    by (auto simp: div_succ simp del: of_nat_Suc)
qed


definition keystream :: "block_cipher \<Rightarrow> u8 list \<Rightarrow> u8 list \<Rightarrow> nat \<Rightarrow> u8" where
  "keystream E key nonce j = E key (nonce @ be32 (of_nat (j div 16))) ! (j mod 16)"

text \<open>The state of the cipher when \<open>j\<close> bytes have been processed.\<close>

definition ctr_at :: "block_cipher \<Rightarrow> u8 list \<Rightarrow> u8 list \<Rightarrow> nat \<Rightarrow> CTRMode \<Rightarrow> bool" where
  "ctr_at E key nonce j s \<longleftrightarrow> mBlockCipherKey s = key \<and> mMsgIndex s = of_nat j \<and> length nonce = 12 \<and>
     (if j mod 16 = 0 then Counter s = nonce @ be32 (of_nat (j div 16))
      else Counter s = nonce @ be32 (of_nat (Suc (j div 16))) \<and>
        mEncryptedCounter s = E key (nonce @ be32 (of_nat (j div 16))))"

definition fetch_block :: "block_cipher \<Rightarrow> nat \<Rightarrow> CTRMode \<Rightarrow> CTRMode" where
  "fetch_block E i s = (if i = 0 then s\<lparr>mEncryptedCounter := E (mBlockCipherKey s) (Counter s), Counter := BumpCounter (Counter s)\<rparr> else s)"

lemma fetch_block_at:
  assumes "ctr_at E key nonce j s" "Suc j < 2 ^ 32"
  shows "mEncryptedCounter (fetch_block E (j mod 16) s) ! (j mod 16) = keystream E key nonce j"
    "ctr_at E key nonce (Suc j) ((fetch_block E (j mod 16) s)\<lparr>mMsgIndex := mMsgIndex (fetch_block E (j mod 16) s) + 1\<rparr>)"
proof -
  have b: "BumpCounter (nonce @ be32 (of_nat (j div 16))) = nonce @ be32 (of_nat (Suc (j div 16)))"
    using assms by (intro BumpCounter_carry) (auto simp: ctr_at_def)
  have f: "mEncryptedCounter (fetch_block E (j mod 16) s) = E key (nonce @ be32 (of_nat (j div 16)))"
    "Counter (fetch_block E (j mod 16) s) = nonce @ be32 (of_nat (Suc (j div 16)))"
    "mBlockCipherKey (fetch_block E (j mod 16) s) = key" "mMsgIndex (fetch_block E (j mod 16) s) = of_nat j" "length nonce = 12"
    using assms(1) b by (auto simp: ctr_at_def fetch_block_def split: if_splits)
  show "mEncryptedCounter (fetch_block E (j mod 16) s) ! (j mod 16) = keystream E key nonce j"
    using f(1) by (simp add: keystream_def)
  have "Suc j div 16 = (if Suc j mod 16 = 0 then Suc (j div 16) else j div 16)" by (simp add: div_Suc)
  then show "ctr_at E key nonce (Suc j) ((fetch_block E (j mod 16) s)\<lparr>mMsgIndex := mMsgIndex (fetch_block E (j mod 16) s) + 1\<rparr>)"
    using f by (simp add: ctr_at_def)
qed

lemma EncryptLoop_keystream:
  "\<lbrakk>ctr_at E key nonce j s; j + length xs < 2 ^ 32\<rbrakk> \<Longrightarrow>
    \<exists>t. EncryptLoop E (j mod 16) xs s =
        (map2 (XOR) xs (map (keystream E key nonce) [j..<j + length xs]), t) \<and> ctr_at E key nonce (j + length xs) t"
proof (induction xs arbitrary: j s)
  case Nil
  then show ?case by simp
next
  case (Cons x xs)
  let ?s = "fetch_block E (j mod 16) s"
  have j: "Suc j < 2 ^ 32" "Suc j + length xs < 2 ^ 32" using Cons.prems(2) by simp_all
  note f = fetch_block_at [OF Cons.prems(1) j(1)]
  obtain t where t: "EncryptLoop E (Suc j mod 16) xs (?s\<lparr>mMsgIndex := mMsgIndex ?s + 1\<rparr>) =
      (map2 (XOR) xs (map (keystream E key nonce) [Suc j..<Suc j + length xs]), t)" "ctr_at E key nonce (Suc j + length xs) t"
    using Cons.IH [OF f(2) j(2)] by blast
  have i: "(if j mod 16 + 1 = 16 then 0 else j mod 16 + 1) = Suc j mod 16" by (simp add: mod_Suc)
  have "unat (mMsgIndex s) = j" using Cons.prems j(1) by (simp add: ctr_at_def unat_of_nat_u32)
  then have less: "mMsgIndex s < UINT32_MAX" using j(1) by (simp add: word_less_nat_alt)
  have "[j..<j + length (x # xs)] = j # [Suc j..<Suc j + length xs]" by (subst upt_conv_Cons) simp_all
  then show ?case using less t f(1) i by (simp add: Let_def flip: fetch_block_def)
qed

section \<open>The stream cipher of a message\<close>

text \<open>What the message layer does for every message: a fresh counter mode object, the key, the counter, the data.\<close>

definition AES128CTR :: "block_cipher \<Rightarrow> u8 list \<Rightarrow> u64 \<Rightarrow> u32 \<Rightarrow> u8 list \<Rightarrow> u8 list" where
  "AES128CTR E key nodeId msgId inData =
     fst (EncryptData E inData (SetWeaveMessageCounter nodeId msgId (SetKey key CTRMode_new)))"

locale stream_cipher =
  fixes crypt :: "'k \<Rightarrow> u8 list \<Rightarrow> u8 list" and limit :: nat
  assumes crypt_length: "length xs < limit \<Longrightarrow> length (crypt k xs) = length xs"
    and crypt_crypt: "length xs < limit \<Longrightarrow> crypt k (crypt k xs) = xs"
begin

lemma crypt_inject: "\<lbrakk>length xs < limit; length ys < limit\<rbrakk> \<Longrightarrow> crypt k xs = crypt k ys \<longleftrightarrow> xs = ys"
  by (metis crypt_crypt)

end

interpretation ctr: stream_cipher "\<lambda>(key, nodeId, msgId). AES128CTR E key nodeId msgId" "2 ^ 32" for E
proof
  fix k :: "u8 list \<times> u64 \<times> u32" and xs :: "u8 list"
  assume l: "length xs < 2 ^ 32"
  obtain key nodeId msgId where k: "k = (key, nodeId, msgId)" by (cases k)
  let ?s = "SetWeaveMessageCounter nodeId msgId (SetKey key CTRMode_new)"
  have i: "mMsgIndex ?s = 0" by (simp add: SetWeaveMessageCounter_def SetKey_def CTRMode_new_def)
  obtain ys t where e: "EncryptLoop E 0 xs ?s = (ys, t)" by fastforce
  then have "EncryptLoop E 0 ys ?s = (xs, t) \<and> length ys = length xs"
    using l i by (intro EncryptLoop_inverse) simp_all
  then show "length ((\<lambda>(key, nodeId, msgId). AES128CTR E key nodeId msgId) k xs) = length xs"
    "(\<lambda>(key, nodeId, msgId). AES128CTR E key nodeId msgId) k ((\<lambda>(key, nodeId, msgId). AES128CTR E key nodeId msgId) k xs) = xs"
    using e i by (simp_all add: k AES128CTR_def EncryptData_def)
qed

lemma AES128CTR_inverse:
  assumes "length xs < 65536 + 20"
  shows "AES128CTR E key nodeId msgId (AES128CTR E key nodeId msgId xs) = xs"
    "length (AES128CTR E key nodeId msgId xs) = length xs"
  using ctr.crypt_crypt [of xs E "(key, nodeId, msgId)"] ctr.crypt_length [of xs E "(key, nodeId, msgId)"] assms by simp_all

section \<open>Lemmas on the keyed hash and the comparison\<close>

definition rfc2104 :: "hash \<Rightarrow> u8 list \<Rightarrow> u8 list \<Rightarrow> u8 list" where
  "rfc2104 H key msg =
     (let K = (if length key > kBlockLength then H key else key)
      in H (pad_block K 0x5c @ H (pad_block K 0x36 @ msg)))"

lemma HMAC_chunks:
  "fst (HMAC_Finish H (fold HMAC_AddData chunks (HMAC_Begin H key s))) = rfc2104 H key (concat chunks)"
proof -
  have acc: "fold HMAC_AddData chunks s = s\<lparr>mHash := mHash s @ concat chunks\<rparr>" for s
    by (induction chunks arbitrary: s) (simp_all add: HMAC_AddData_def)
  show ?thesis by (simp add: acc HMAC_Finish_def HMAC_Begin_def rfc2104_def Let_def)
qed

lemma fold_or_zero: "fold (\<lambda>i c. c OR f i) is c = (0 :: u8) \<longleftrightarrow> c = 0 \<and> (\<forall>i \<in> set is. f i = 0)"
  by (induction "is" arbitrary: c) (auto simp: or_eq_0_iff)

lemma xor_zero_iff: "a XOR b = (0 :: u8) \<longleftrightarrow> a = b"
  by (metis xor.assoc xor.right_neutral xor_self_eq)

lemma ConstantTimeCompare_iff:
  "\<lbrakk>n \<le> length a; n \<le> length b\<rbrakk> \<Longrightarrow> ConstantTimeCompare a b n \<longleftrightarrow> take n a = take n b"
  by (auto simp: ConstantTimeCompare_def fold_or_zero xor_zero_iff list_eq_iff_nth_eq)

section \<open>Properties\<close>

text \<open>
  C22. Counter mode computes the reference cipher: byte \<open>j\<close> of a message is combined with byte
  \<open>j mod 16\<close> of the encryption of the 16-byte block made of the sending node id, the message id and the block
  number \<open>j div 16\<close>, all big-endian.  The byte-wise carry of the code never loses a step, and different
  splits of the data into calls give the same bytes.
\<close>

theorem ctr_mode_encrypts_numbered_blocks:
  assumes "length xs + length ys < 2 ^ 32"
  shows "(case EncryptData E xs (SetWeaveMessageCounter nodeId msgId (SetKey key CTRMode_new)) of
      (out1, s) \<Rightarrow> out1 @ fst (EncryptData E ys s)) =
    map2 (XOR) (xs @ ys) (map (\<lambda>j. E key (be64 nodeId @ be32 msgId @ be32 (of_nat (j div 16))) ! (j mod 16))
      [0..<length xs + length ys])"
proof -
  let ?s = "SetWeaveMessageCounter nodeId msgId (SetKey key CTRMode_new)"
  let ?n = "be64 nodeId @ be32 msgId"
  let ?k = "keystream E key ?n"
  have at: "ctr_at E key ?n 0 ?s"
    by (simp add: ctr_at_def SetWeaveMessageCounter_def SetKey_def CTRMode_new_def be32_def be64_def)
  obtain t where t: "EncryptLoop E 0 xs ?s = (map2 (XOR) xs (map ?k [0..<length xs]), t)" "ctr_at E key ?n (length xs) t"
    using EncryptLoop_keystream [OF at, of xs] assms by auto
  have i: "unat (mMsgIndex t) = length xs" "mMsgIndex ?s = 0"
    using t(2) at assms by (auto simp: ctr_at_def unat_of_nat_u32)
  have "fst (EncryptData E ys t) = map2 (XOR) ys (map ?k [length xs..<length xs + length ys])"
    using EncryptLoop_keystream [OF t(2) assms] i by (auto simp: EncryptData_def)
  moreover have "fst (EncryptData E xs ?s) = map2 (XOR) xs (map ?k [0..<length xs])" "snd (EncryptData E xs ?s) = t"
    using t(1) i(2) by (simp_all add: EncryptData_def)
  moreover have "?k = (\<lambda>j. E key (be64 nodeId @ be32 msgId @ be32 (of_nat (j div 16))) ! (j mod 16))"
    by (simp add: keystream_def fun_eq_iff)
  moreover have "[0..<length xs + length ys] = [0..<length xs] @ [length xs..<length xs + length ys]"
    using upt_add_eq_append [of 0 "length xs" "length ys"] by simp
  ultimately show ?thesis by (simp add: case_prod_beta)
qed

theorem ctr_mode_encrypts_numbered_blocks_witness:
  "(case EncryptData (\<lambda>k b. map (\<lambda>x. x + 1) b) [1, 2] (SetWeaveMessageCounter 0x0102 7 (SetKey [] CTRMode_new)) of
      (out1, s) \<Rightarrow> out1 @ fst (EncryptData (\<lambda>k b. map (\<lambda>x. x + 1) b) [3] s)) = [0, 3, 2]"
  using ctr_mode_encrypts_numbered_blocks [of "[1, 2]" "[3]" "\<lambda>k b. map (\<lambda>x. x + 1) b" "0x0102" 7 "[]"]
  by (simp add: be64_def be32_def upt_rec)

text \<open>
  C23. The keyed hash is the HMAC of RFC 2104, \<open>H ((K xor opad) H ((K xor ipad) m))\<close>, whatever the
  chunks the message was added in.
\<close>

theorem hmac_is_rfc2104:
  "fst (HMAC_Finish H (fold HMAC_AddData chunks (HMAC_Begin H key s))) =
     (let K = (if length key > 64 then H key else key)
      in H (map (\<lambda>b. b XOR 0x5c) (K @ replicate (64 - length K) 0) @
            H (map (\<lambda>b. b XOR 0x36) (K @ replicate (64 - length K) 0) @ concat chunks)))"
  unfolding HMAC_chunks rfc2104_def pad_block_def ..

end
