(* ===== verification/Key_Ids.thy ===== *)
theory Key_Ids
  imports Weave_Prelude
begin

text \<open>
  Key identifiers: \<^verbatim>\<open>WeaveKeyId\<close> of \<^verbatim>\<open>src/src/lib/core/WeaveKeyIds.h\<close> and \<^verbatim>\<open>WeaveKeyIds.cpp\<close>.  A
  key id is a 32-bit word of fields (flag, type, root key number, epoch key number, group local number);
  the functions extract and combine them.
\<close>

section \<open>Fields and types\<close>

abbreviation (input) kMask_KeyType :: u32 where "kMask_KeyType \<equiv> 0x0FFFF000"
abbreviation (input) kMask_KeyNumber :: u32 where "kMask_KeyNumber \<equiv> 0x00000FFF"
abbreviation (input) kMask_RootKeyNumber :: u32 where "kMask_RootKeyNumber \<equiv> 0x00000C00"
abbreviation (input) kMask_EpochKeyNumber :: u32 where "kMask_EpochKeyNumber \<equiv> 0x00000380"
abbreviation (input) kMask_GroupLocalNumber :: u32 where "kMask_GroupLocalNumber \<equiv> 0x0000007F"
abbreviation (input) kFlag_UseCurrentEpochKey :: u32 where "kFlag_UseCurrentEpochKey \<equiv> 0x80000000"
abbreviation (input) kTypeModifier_IncorporatesEpochKey :: u32 where "kTypeModifier_IncorporatesEpochKey \<equiv> 0x00001000"

abbreviation (input) kType_None :: u32 where "kType_None \<equiv> 0"
abbreviation (input) kType_General :: u32 where "kType_General \<equiv> 0x00001000"
abbreviation (input) kType_Session :: u32 where "kType_Session \<equiv> 0x00002000"
abbreviation (input) kType_AppStaticKey :: u32 where "kType_AppStaticKey \<equiv> 0x00004000"
abbreviation (input) kType_AppRotatingKey :: u32 where "kType_AppRotatingKey \<equiv> 0x00005000"
abbreviation (input) kType_AppRootKey :: u32 where "kType_AppRootKey \<equiv> 0x00010000"
abbreviation (input) kType_AppEpochKey :: u32 where "kType_AppEpochKey \<equiv> 0x00021000"
abbreviation (input) kType_AppGroupMasterKey :: u32 where "kType_AppGroupMasterKey \<equiv> 0x00030000"
abbreviation (input) kType_AppIntermediateKey :: u32 where "kType_AppIntermediateKey \<equiv> 0x00011000"

abbreviation (input) kKeyNone :: u32 where "kKeyNone \<equiv> 0"
abbreviation (input) kFabricSecret :: u32 where "kFabricSecret \<equiv> 0x00001001"
abbreviation (input) kFabricRootKey :: u32 where "kFabricRootKey \<equiv> 0x00010000"
abbreviation (input) kClientRootKey :: u32 where "kClientRootKey \<equiv> 0x00010400"
abbreviation (input) kServiceRootKey :: u32 where "kServiceRootKey \<equiv> 0x00010800"

definition GetKeyType :: "u32 \<Rightarrow> u32" where
  "GetKeyType keyId = keyId AND kMask_KeyType"

definition IsGeneralKey :: "u32 \<Rightarrow> bool" where
  "IsGeneralKey keyId = (GetKeyType keyId = kType_General)"

definition IsSessionKey :: "u32 \<Rightarrow> bool" where
  "IsSessionKey keyId = (GetKeyType keyId = kType_Session)"

definition IsAppStaticKey :: "u32 \<Rightarrow> bool" where
  "IsAppStaticKey keyId = (GetKeyType keyId = kType_AppStaticKey)"

definition IsAppRotatingKey :: "u32 \<Rightarrow> bool" where
  "IsAppRotatingKey keyId = (GetKeyType keyId = kType_AppRotatingKey)"

definition IsAppRootKey :: "u32 \<Rightarrow> bool" where
  "IsAppRootKey keyId = (GetKeyType keyId = kType_AppRootKey)"

definition IsAppEpochKey :: "u32 \<Rightarrow> bool" where
  "IsAppEpochKey keyId = (GetKeyType keyId = kType_AppEpochKey)"

definition IsAppGroupMasterKey :: "u32 \<Rightarrow> bool" where
  "IsAppGroupMasterKey keyId = (GetKeyType keyId = kType_AppGroupMasterKey)"

definition IsAppGroupKey :: "u32 \<Rightarrow> bool" where
  "IsAppGroupKey keyId = (IsAppStaticKey keyId \<or> IsAppRotatingKey keyId)"

definition MakeSessionKeyId :: "u16 \<Rightarrow> u16" where
  "MakeSessionKeyId sessionKeyNumber = 0x2000 OR (sessionKeyNumber AND 0x0FFF)"

definition MakeGeneralKeyId :: "u16 \<Rightarrow> u16" where
  "MakeGeneralKeyId generalKeyNumber = 0x1000 OR (generalKeyNumber AND 0x0FFF)"

definition GetRootKeyId :: "u32 \<Rightarrow> u32" where
  "GetRootKeyId keyId = kType_AppRootKey OR (keyId AND kMask_RootKeyNumber)"

definition GetEpochKeyId :: "u32 \<Rightarrow> u32" where
  "GetEpochKeyId keyId = kType_AppEpochKey OR (keyId AND kMask_EpochKeyNumber)"

definition GetAppGroupMasterKeyId :: "u32 \<Rightarrow> u32" where
  "GetAppGroupMasterKeyId keyId = kType_AppGroupMasterKey OR (keyId AND kMask_GroupLocalNumber)"

definition GetRootKeyNumber :: "u32 \<Rightarrow> u8" where
  "GetRootKeyNumber keyId = ucast (drop_bit 10 (keyId AND kMask_RootKeyNumber))"

definition GetEpochKeyNumber :: "u32 \<Rightarrow> u8" where
  "GetEpochKeyNumber keyId = ucast (drop_bit 7 (keyId AND kMask_EpochKeyNumber))"

definition GetAppGroupLocalNumber :: "u32 \<Rightarrow> u8" where
  "GetAppGroupLocalNumber keyId = ucast (keyId AND kMask_GroupLocalNumber)"

definition MakeRootKeyId :: "u8 \<Rightarrow> u32" where
  "MakeRootKeyId rootKeyNumber = kType_AppRootKey OR push_bit 10 (ucast rootKeyNumber)"

definition MakeEpochKeyId :: "u8 \<Rightarrow> u32" where
  "MakeEpochKeyId epochKeyNumber = kType_AppEpochKey OR push_bit 7 (ucast epochKeyNumber)"

definition MakeAppGroupMasterKeyId :: "u8 \<Rightarrow> u32" where
  "MakeAppGroupMasterKeyId appGroupLocalNumber = kType_AppGroupMasterKey OR ucast appGroupLocalNumber"

definition ConvertToCurrentAppKeyId :: "u32 \<Rightarrow> u32" where
  "ConvertToCurrentAppKeyId keyId = (keyId AND NOT kMask_EpochKeyNumber) OR kFlag_UseCurrentEpochKey"

definition IncorporatesEpochKey :: "u32 \<Rightarrow> bool" where
  "IncorporatesEpochKey keyId = (keyId AND kTypeModifier_IncorporatesEpochKey \<noteq> 0)"

definition UsesCurrentEpochKey :: "u32 \<Rightarrow> bool" where
  "UsesCurrentEpochKey keyId = (IncorporatesEpochKey keyId \<and> keyId AND kFlag_UseCurrentEpochKey \<noteq> 0)"

definition IncorporatesRootKey :: "u32 \<Rightarrow> bool" where
  "IncorporatesRootKey keyId =
     (let keyType = GetKeyType keyId
      in keyType = kType_AppStaticKey \<or> keyType = kType_AppRotatingKey \<or> keyType = kType_AppRootKey \<or>
         keyType = kType_AppIntermediateKey)"

definition IncorporatesAppGroupMasterKey :: "u32 \<Rightarrow> bool" where
  "IncorporatesAppGroupMasterKey keyId =
     (let keyType = GetKeyType keyId
      in keyType = kType_AppStaticKey \<or> keyType = kType_AppRotatingKey \<or> keyType = kType_AppGroupMasterKey)"

section \<open>Forming key ids\<close>

definition MakeAppKeyId :: "u32 \<Rightarrow> u32 \<Rightarrow> u32 \<Rightarrow> u32 \<Rightarrow> bool \<Rightarrow> u32" where
  "MakeAppKeyId keyType rootKeyId epochKeyId appGroupMasterKeyId useCurrentEpochKey =
     (keyType OR (rootKeyId AND kMask_RootKeyNumber) OR (appGroupMasterKeyId AND kMask_GroupLocalNumber) OR
      (if useCurrentEpochKey then kFlag_UseCurrentEpochKey else epochKeyId AND kMask_EpochKeyNumber))"

definition MakeAppIntermediateKeyId :: "u32 \<Rightarrow> u32 \<Rightarrow> bool \<Rightarrow> u32" where
  "MakeAppIntermediateKeyId rootKeyId epochKeyId useCurrentEpochKey =
     MakeAppKeyId kType_AppIntermediateKey rootKeyId epochKeyId kKeyNone useCurrentEpochKey"

definition MakeAppRotatingKeyId :: "u32 \<Rightarrow> u32 \<Rightarrow> u32 \<Rightarrow> bool \<Rightarrow> u32" where
  "MakeAppRotatingKeyId rootKeyId epochKeyId appGroupMasterKeyId useCurrentEpochKey =
     MakeAppKeyId kType_AppRotatingKey rootKeyId epochKeyId appGroupMasterKeyId useCurrentEpochKey"

definition MakeAppStaticKeyId :: "u32 \<Rightarrow> u32 \<Rightarrow> u32" where
  "MakeAppStaticKeyId rootKeyId appGroupMasterKeyId =
     MakeAppKeyId kType_AppStaticKey rootKeyId kKeyNone appGroupMasterKeyId False"

definition ConvertToStaticAppKeyId :: "u32 \<Rightarrow> u32" where
  "ConvertToStaticAppKeyId keyId = MakeAppStaticKeyId (GetRootKeyId keyId) (GetAppGroupMasterKeyId keyId)"

definition UpdateEpochKeyId :: "u32 \<Rightarrow> u32 \<Rightarrow> u32" where
  "UpdateEpochKeyId keyId epochKeyId =
     (keyId AND NOT (kFlag_UseCurrentEpochKey OR kMask_EpochKeyNumber)) OR (epochKeyId AND kMask_EpochKeyNumber)"

section \<open>Validity\<close>

text \<open>The bits a valid key id of each type may use; \<open>None\<close> for a type that is not valid at all.\<close>

definition usedBits :: "u32 \<Rightarrow> u32 option" where
  "usedBits keyId =
     (let t = GetKeyType keyId;
          epoch = (if UsesCurrentEpochKey keyId then 0 else kMask_EpochKeyNumber)
      in if t = kType_None then None
         else if t = kType_General \<or> t = kType_Session then Some (kMask_KeyType OR kMask_KeyNumber)
         else if t = kType_AppStaticKey then Some (kMask_KeyType OR kMask_RootKeyNumber OR kMask_GroupLocalNumber)
         else if t = kType_AppRotatingKey
         then Some (kMask_KeyType OR kFlag_UseCurrentEpochKey OR kMask_RootKeyNumber OR kMask_GroupLocalNumber OR epoch)
         else if t = kType_AppRootKey then Some (kMask_KeyType OR kMask_RootKeyNumber)
         else if t = kType_AppIntermediateKey
         then Some (kMask_KeyType OR kFlag_UseCurrentEpochKey OR kMask_RootKeyNumber OR epoch)
         else if t = kType_AppEpochKey then Some (kMask_KeyType OR kFlag_UseCurrentEpochKey OR epoch)
         else if t = kType_AppGroupMasterKey then Some (kMask_KeyType OR kMask_GroupLocalNumber)
         else None)"

definition IsValidKeyId :: "u32 \<Rightarrow> bool" where
  "IsValidKeyId keyId =
     (case usedBits keyId of
        None \<Rightarrow> False
      | Some used \<Rightarrow>
          if IncorporatesRootKey keyId \<and>
             \<not> (GetRootKeyId keyId = kFabricRootKey \<or> GetRootKeyId keyId = kClientRootKey \<or> GetRootKeyId keyId = kServiceRootKey)
          then False
          else keyId AND NOT used = 0)"

definition IsMessageEncryptionKeyId :: "u32 \<Rightarrow> bool \<Rightarrow> bool" where
  "IsMessageEncryptionKeyId keyId allowLogicalKeys =
     (let t = GetKeyType keyId
      in if t = kType_Session \<or> t = kType_AppStaticKey then True
         else if t = kType_AppRotatingKey then allowLogicalKeys \<or> \<not> UsesCurrentEpochKey keyId
         else False)"

definition kIgnoreEpochMask :: u32 where
  "kIgnoreEpochMask = NOT (kMask_EpochKeyNumber OR kFlag_UseCurrentEpochKey)"

definition IsSameKeyOrGroup :: "u32 \<Rightarrow> u32 \<Rightarrow> bool" where
  "IsSameKeyOrGroup keyId1 keyId2 =
     (if keyId1 = keyId2 then True
      else IncorporatesEpochKey keyId1 \<and> \<not> IsAppEpochKey keyId1 \<and>
           keyId1 AND kIgnoreEpochMask = keyId2 AND kIgnoreEpochMask)"

definition DescribeKey :: "u32 \<Rightarrow> string" where
  "DescribeKey keyId =
     (let t = GetKeyType keyId
      in if t = kType_None then ''No Key''
         else if t = kType_General then (if keyId = kFabricSecret then ''Fabric Secret'' else ''Other General Key'')
         else if t = kType_Session then ''Session Key''
         else if t = kType_AppStaticKey then ''Application Static Key''
         else if t = kType_AppRotatingKey then ''Application Rotating Key''
         else if t = kType_AppRootKey
         then (if keyId = kFabricRootKey then ''Fabric Root Key''
               else if keyId = kClientRootKey then ''Client Root Key''
               else if keyId = kServiceRootKey then ''Service Root Key''
               else ''Other Root Key'')
         else if t = kType_AppIntermediateKey then ''Application Intermediate Key''
         else if t = kType_AppEpochKey then ''Application Epoch Key''
         else if t = kType_AppGroupMasterKey then ''Application Group Master Key''
         else ''Unknown Key Type'')"

section \<open>Field lemmas\<close>

lemmas key_masks = GetKeyType_def GetRootKeyId_def GetEpochKeyId_def GetAppGroupMasterKeyId_def

text \<open>Each field of a composed key id is the field it was composed from.\<close>

lemma and_masked: "(x AND m) AND k = x AND (m AND k)" for x m k :: u32
  by (rule and.assoc)

lemma MakeAppKeyId_fields:
  fixes t' :: u32
  defines "t \<equiv> t' AND kMask_KeyType"
  shows "GetKeyType (MakeAppKeyId t r e g c) = t"
    "GetRootKeyId (MakeAppKeyId t r e g c) = GetRootKeyId r"
    "GetAppGroupMasterKeyId (MakeAppKeyId t r e g c) = GetAppGroupMasterKeyId g"
    "GetEpochKeyId (MakeAppKeyId t r e g False) = GetEpochKeyId e"
  by (simp_all add: t_def key_masks MakeAppKeyId_def bit.conj_disj_distrib2 and_masked)

lemma MakeAppRotatingKeyId_fields:
  "GetKeyType (MakeAppRotatingKeyId r e g c) = kType_AppRotatingKey"
  "GetRootKeyId (MakeAppRotatingKeyId r e g c) = GetRootKeyId r"
  "GetAppGroupMasterKeyId (MakeAppRotatingKeyId r e g c) = GetAppGroupMasterKeyId g"
  "GetEpochKeyId (MakeAppRotatingKeyId r e g False) = GetEpochKeyId e"
  using MakeAppKeyId_fields [of "0x5000" r e g] by (simp_all add: MakeAppRotatingKeyId_def)

lemma MakeAppStaticKeyId_fields:
  "GetKeyType (MakeAppStaticKeyId r g) = kType_AppStaticKey"
  "GetRootKeyId (MakeAppStaticKeyId r g) = GetRootKeyId r"
  "GetAppGroupMasterKeyId (MakeAppStaticKeyId r g) = GetAppGroupMasterKeyId g"
  using MakeAppKeyId_fields [of "0x4000" r 0 g] by (simp_all add: MakeAppStaticKeyId_def)

lemma MakeAppIntermediateKeyId_fields:
  "GetKeyType (MakeAppIntermediateKeyId r e c) = kType_AppIntermediateKey"
  "GetRootKeyId (MakeAppIntermediateKeyId r e c) = GetRootKeyId r"
  "GetEpochKeyId (MakeAppIntermediateKeyId r e False) = GetEpochKeyId e"
  using MakeAppKeyId_fields [of "0x11000" r e 0] by (simp_all add: MakeAppIntermediateKeyId_def)

lemma MakeSessionKeyId_type: "IsSessionKey (ucast (MakeSessionKeyId n))"
proof -
  have "ucast (MakeSessionKeyId n) = kType_Session OR (ucast n AND kMask_KeyNumber)"
    by (rule u32_eqI) (auto simp: MakeSessionKeyId_def word_bits dest: bit_imp_le_length)
  then show ?thesis by (simp add: IsSessionKey_def GetKeyType_def bit.conj_disj_distrib2 and_masked)
qed

lemma rotating_current:
  "IncorporatesEpochKey (MakeAppRotatingKeyId r e g c)" "UsesCurrentEpochKey (MakeAppRotatingKeyId r e g c) \<longleftrightarrow> c"
  by (simp_all add: UsesCurrentEpochKey_def IncorporatesEpochKey_def MakeAppRotatingKeyId_def MakeAppKeyId_def
      bit.conj_disj_distrib2 and_masked)

lemma root_field: "r AND kMask_RootKeyNumber = (if bit r 10 then 0x400 else 0) OR (if bit r 11 then 0x800 else 0)" for r :: u32
  by (rule u32_eqI) (auto simp: word_bits)

lemma root_key_known:
  "(GetRootKeyId r = kFabricRootKey \<or> GetRootKeyId r = kClientRootKey \<or> GetRootKeyId r = kServiceRootKey)
    \<longleftrightarrow> r AND kMask_RootKeyNumber \<noteq> kMask_RootKeyNumber"
  unfolding GetRootKeyId_def root_field by auto

text \<open>A composed key id uses no bit its type does not allow, so its validity is a matter of the root key alone.\<close>

lemma IsValidKeyId_rotating:
  "IsValidKeyId (MakeAppRotatingKeyId r e g c) \<longleftrightarrow> r AND kMask_RootKeyNumber \<noteq> kMask_RootKeyNumber"
proof -
  have "usedBits (MakeAppRotatingKeyId r e g c) = Some (if c then 0x8FFFFC7F else 0x8FFFFFFF)"
    by (simp add: usedBits_def MakeAppRotatingKeyId_fields rotating_current Let_def)
  moreover have "MakeAppRotatingKeyId r e g c AND NOT (if c then 0x8FFFFC7F else 0x8FFFFFFF) = 0"
    by (simp add: MakeAppRotatingKeyId_def MakeAppKeyId_def bit.conj_disj_distrib2 and_masked)
  moreover have "IncorporatesRootKey (MakeAppRotatingKeyId r e g c)"
    by (simp add: IncorporatesRootKey_def MakeAppRotatingKeyId_fields)
  ultimately show ?thesis using root_key_known [of r] by (simp add: IsValidKeyId_def MakeAppRotatingKeyId_fields)
qed

lemma IsValidKeyId_static:
  "IsValidKeyId (MakeAppStaticKeyId r g) \<longleftrightarrow> r AND kMask_RootKeyNumber \<noteq> kMask_RootKeyNumber"
proof -
  have "usedBits (MakeAppStaticKeyId r g) = Some 0x0FFFFC7F"
    by (simp add: usedBits_def MakeAppStaticKeyId_fields Let_def)
  moreover have "MakeAppStaticKeyId r g AND NOT 0x0FFFFC7F = 0"
    by (simp add: MakeAppStaticKeyId_def MakeAppKeyId_def bit.conj_disj_distrib2 and_masked)
  moreover have "IncorporatesRootKey (MakeAppStaticKeyId r g)"
    by (simp add: IncorporatesRootKey_def MakeAppStaticKeyId_fields)
  ultimately show ?thesis using root_key_known [of r] by (simp add: IsValidKeyId_def MakeAppStaticKeyId_fields)
qed

text \<open>Type and modifier are outside the epoch field, so ids that agree outside it have the same type.\<close>

lemma same_outside_epoch:
  assumes "a AND kIgnoreEpochMask = b AND kIgnoreEpochMask"
  shows "GetKeyType a = GetKeyType b" "IncorporatesEpochKey a = IncorporatesEpochKey b"
proof -
  have m: "kMask_KeyType = kIgnoreEpochMask AND kMask_KeyType"
    "kTypeModifier_IncorporatesEpochKey = kIgnoreEpochMask AND kTypeModifier_IncorporatesEpochKey"
    by (simp_all add: kIgnoreEpochMask_def)
  show "GetKeyType a = GetKeyType b"
    unfolding GetKeyType_def by (subst (1 2) m(1)) (simp only: assms flip: and_masked)
  show "IncorporatesEpochKey a = IncorporatesEpochKey b"
    unfolding IncorporatesEpochKey_def by (subst (1 2) m(2)) (simp only: assms flip: and_masked)
qed

lemma IsSameKeyOrGroup_equiv: "equivp IsSameKeyOrGroup"
proof (rule equivpI)
  show "reflp IsSameKeyOrGroup" by (rule reflpI) (simp add: IsSameKeyOrGroup_def)
  show "symp IsSameKeyOrGroup"
  proof (rule sympI)
    fix a b assume ab: "IsSameKeyOrGroup a b"
    show "IsSameKeyOrGroup b a"
    proof (cases "a = b")
      case False
      with ab have e: "a AND kIgnoreEpochMask = b AND kIgnoreEpochMask" "IncorporatesEpochKey a" "\<not> IsAppEpochKey a"
        by (auto simp: IsSameKeyOrGroup_def)
      with same_outside_epoch [OF e(1)] show ?thesis by (auto simp: IsSameKeyOrGroup_def IsAppEpochKey_def)
    qed (use ab in simp)
  qed
  show "transp IsSameKeyOrGroup"
    by (rule transpI) (simp add: IsSameKeyOrGroup_def split: if_splits)
qed

section \<open>Properties\<close>

text \<open>
  A composed application key id is what it was composed from: an id made by
  \<^verbatim>\<open>MakeAppRotatingKeyId\<close> is a rotating key id, gives back its root key, group master key and, unless it is
  the logical current key, its epoch key; it is a message encryption key, without the allowance for logical
  keys only if it names an epoch; it is valid exactly if its root key is one of the three defined ones; and
  converting it to a static id gives the id \<^verbatim>\<open>MakeAppStaticKeyId\<close> makes from the same parts.
\<close>

theorem rotating_key_id_decomposes:
  fixes r e g :: u32 and c :: bool
  shows "let k = MakeAppRotatingKeyId r e g c in IsAppRotatingKey k \<and> IsAppGroupKey k \<and> \<not> IsSessionKey k \<and> GetRootKeyId k = GetRootKeyId r \<and>
    GetAppGroupMasterKeyId k = GetAppGroupMasterKeyId g \<and> (c \<or> GetEpochKeyId k = GetEpochKeyId e) \<and>
    UsesCurrentEpochKey k = c \<and> IsMessageEncryptionKeyId k a = (if c then a else True) \<and>
    IsValidKeyId k = (r AND 0xC00 \<noteq> 0xC00) \<and> ConvertToStaticAppKeyId k = MakeAppStaticKeyId r g"
proof -
  have "MakeAppStaticKeyId (GetRootKeyId r) (GetAppGroupMasterKeyId g) = MakeAppStaticKeyId r g"
    by (simp add: MakeAppStaticKeyId_def MakeAppKeyId_def key_masks bit.conj_disj_distrib2 and_masked)
  then show ?thesis
    by (cases c) (simp_all add: IsAppRotatingKey_def IsAppGroupKey_def IsSessionKey_def MakeAppRotatingKeyId_fields rotating_current
        IsMessageEncryptionKeyId_def IsValidKeyId_rotating ConvertToStaticAppKeyId_def Let_def)
qed

text \<open>
  \<^verbatim>\<open>IsSameKeyOrGroup\<close> is an equivalence relation, and the operations that change only the
  epoch of a rotating key (\<^verbatim>\<open>UpdateEpochKeyId\<close>, \<^verbatim>\<open>ConvertToCurrentAppKeyId\<close>) stay in its group.
\<close>

theorem key_groups_ignore_epoch:
  "equivp IsSameKeyOrGroup \<and>
   IsSameKeyOrGroup (MakeAppRotatingKeyId r e g c) (UpdateEpochKeyId (MakeAppRotatingKeyId r e g c) e') \<and>
   IsSameKeyOrGroup (MakeAppRotatingKeyId r e g c) (ConvertToCurrentAppKeyId (MakeAppRotatingKeyId r e g c)) \<and>
   UpdateEpochKeyId (MakeAppRotatingKeyId r e g c) e' = MakeAppRotatingKeyId r e' g False"
proof -
  have "UpdateEpochKeyId (MakeAppRotatingKeyId r e g c) e' AND kIgnoreEpochMask = MakeAppRotatingKeyId r e g c AND kIgnoreEpochMask"
    "ConvertToCurrentAppKeyId (MakeAppRotatingKeyId r e g c) AND kIgnoreEpochMask = MakeAppRotatingKeyId r e g c AND kIgnoreEpochMask"
    "UpdateEpochKeyId (MakeAppRotatingKeyId r e g c) e' = MakeAppRotatingKeyId r e' g False"
    by (simp_all add: UpdateEpochKeyId_def ConvertToCurrentAppKeyId_def MakeAppRotatingKeyId_def MakeAppKeyId_def
        kIgnoreEpochMask_def bit.conj_disj_distrib2 and_masked or.assoc)
  then show ?thesis
    using IsSameKeyOrGroup_equiv
    by (auto simp: IsSameKeyOrGroup_def Let_def rotating_current IsAppEpochKey_def MakeAppRotatingKeyId_fields)
qed

text \<open>
  The epoch modifier is the same bit as the type of general keys, so
  \<^verbatim>\<open>IsSameKeyOrGroup\<close> also identifies general keys that differ in bits 7 to 9 of their key number: the
  fabric secret and the distinct general key 0x1081 count as the same key.
\<close>

theorem general_keys_are_confused:
  "IsSameKeyOrGroup kFabricSecret (ucast (MakeGeneralKeyId 0x081)) \<and> kFabricSecret \<noteq> ucast (MakeGeneralKeyId 0x081) \<and>
   IsValidKeyId (ucast (MakeGeneralKeyId 0x081)) \<and> IsGeneralKey (ucast (MakeGeneralKeyId 0x081))"
  by (simp add: IsSameKeyOrGroup_def kIgnoreEpochMask_def MakeGeneralKeyId_def IncorporatesEpochKey_def IsAppEpochKey_def GetKeyType_def
      IsValidKeyId_def usedBits_def IncorporatesRootKey_def IsGeneralKey_def Let_def)

end
