(* ===== verification/App_Keys.thy ===== *)
theory App_Keys
  imports Message_Crypto Key_Ids
begin

text \<open>
  Application keys: key derivation (\<^verbatim>\<open>HKDF.cpp\<close>) and the group key store base class
  (\<^verbatim>\<open>src/src/lib/profiles/security/WeaveApplicationKeys.cpp\<close>).  The virtual methods a platform implements (the
  storage of keys, the clock, the persisted last used epoch key) are the operations of a record \<open>KeyStoreOps\<close>
  over a platform state; the hash is a parameter as in the message cipher.
\<close>

section \<open>Key derivation\<close>

definition BeginExtractKey :: "hash \<Rightarrow> u8 list \<Rightarrow> HMAC \<Rightarrow> HMAC" where
  "BeginExtractKey H salt s = HMAC_Begin H salt s"

definition AddKeyMaterial :: "u8 list \<Rightarrow> HMAC \<Rightarrow> HMAC" where
  "AddKeyMaterial keyData s = HMAC_AddData keyData s"

text \<open>One round of \<^verbatim>\<open>ExpandKey\<close>: the hash over the previous block, the info and the block number.\<close>

definition ExpandBlock :: "hash \<Rightarrow> u8 list \<Rightarrow> u8 list \<Rightarrow> u8 \<Rightarrow> u8 list \<Rightarrow> u8 list" where
  "ExpandBlock H prk info hashNum prev =
     (let m = HMAC_Begin H prk HMAC_new;
          m = (if hashNum > 1 then HMAC_AddData prev m else m);
          m = (if info \<noteq> [] then HMAC_AddData info m else m);
          m = HMAC_AddData [hashNum] m
      in fst (HMAC_Finish H m))"

fun ExpandLoop :: "hash \<Rightarrow> u8 list \<Rightarrow> u8 list \<Rightarrow> nat \<Rightarrow> u8 \<Rightarrow> u8 list \<Rightarrow> u8 list" where
  "ExpandLoop H prk info keyLen hashNum prev =
     (if keyLen < 20 then take keyLen (ExpandBlock H prk info hashNum prev)
      else let out = ExpandBlock H prk info hashNum prev
           in out @ ExpandLoop H prk info (keyLen - 20) (hashNum + 1) out)"

declare ExpandLoop.simps [simp del]

definition ExpandKey :: "hash \<Rightarrow> u8 list \<Rightarrow> u8 list \<Rightarrow> nat \<Rightarrow> WEAVE_ERROR \<times> u8 list" where
  "ExpandKey H prk info keyLen =
     (if keyLen < 1 \<or> keyLen > 255 * 20 then (WEAVE_ERROR_INVALID_ARGUMENT, [])
      else (WEAVE_NO_ERROR, ExpandLoop H prk info keyLen 1 []))"

definition DeriveKey :: "hash \<Rightarrow> u8 list \<Rightarrow> u8 list \<Rightarrow> u8 list \<Rightarrow> u8 list \<Rightarrow> nat \<Rightarrow> nat \<Rightarrow> WEAVE_ERROR \<times> u8 list" where
  "DeriveKey H salt keyMaterial1 keyMaterial2 info outKeyBufSize outKeyLen =
     (if \<not> outKeyLen \<le> outKeyBufSize then (WEAVE_ERROR_BUFFER_TOO_SMALL, [])
      else
        let m = AddKeyMaterial keyMaterial2 (AddKeyMaterial keyMaterial1 (BeginExtractKey H salt HMAC_new));
            prk = fst (HMAC_Finish H m)
        in ExpandKey H prk info outKeyLen)"

section \<open>The group key store\<close>

text \<open>\<open>Key\<close> holds the \<open>KeyLen\<close> bytes that are in use.\<close>

record WeaveGroupKey =
  GroupKeyId :: u32
  KeyLen :: u8
  Key :: "u8 list"
  StartTimeOrGlobalId :: u32

record 'k KeyStoreOps =
  RetrieveGroupKey :: "'k \<Rightarrow> u32 \<Rightarrow> WEAVE_ERROR \<times> WeaveGroupKey"
  StoreGroupKey :: "WeaveGroupKey \<Rightarrow> 'k \<Rightarrow> WEAVE_ERROR \<times> 'k"
  EnumerateGroupKeys :: "'k \<Rightarrow> u32 \<Rightarrow> nat \<Rightarrow> WEAVE_ERROR \<times> u32 list"
  ClearGroupKeys :: "'k \<Rightarrow> 'k"
  GetCurrentUTCTime :: "'k \<Rightarrow> WEAVE_ERROR \<times> u32"
  RetrieveLastUsedEpochKeyId :: "'k \<Rightarrow> WEAVE_ERROR \<times> u32"
  StoreLastUsedEpochKeyId :: "u32 \<Rightarrow> 'k \<Rightarrow> WEAVE_ERROR \<times> 'k"

record 'k GroupKeyStore =
  LastUsedEpochKeyId :: u32
  NextEpochKeyStartTime :: u32
  platform :: 'k

abbreviation (input) kWeaveAppGroupKeySize :: nat where "kWeaveAppGroupKeySize \<equiv> 32"
abbreviation (input) kWeaveFabricSecretSize :: nat where "kWeaveFabricSecretSize \<equiv> 36"
abbreviation (input) MAX_APPLICATION_EPOCH_KEYS :: nat where "MAX_APPLICATION_EPOCH_KEYS \<equiv> 4"
abbreviation (input) MAX_APPLICATION_GROUPS :: nat where "MAX_APPLICATION_GROUPS \<equiv> 8"

definition kWeaveAppFabricRootKeyDiversifier :: "u8 list" where
  "kWeaveAppFabricRootKeyDiversifier = [0x21, 0xFA, 0x8F, 0x6A]"

definition kWeaveAppClientRootKeyDiversifier :: "u8 list" where
  "kWeaveAppClientRootKeyDiversifier = [0x53, 0xE3, 0xFF, 0xE5]"

definition kWeaveAppIntermediateKeyDiversifier :: "u8 list" where
  "kWeaveAppIntermediateKeyDiversifier = [0xBC, 0xAA, 0x95, 0xAD]"

definition GroupKeyStore_Init :: "'k GroupKeyStore \<Rightarrow> 'k GroupKeyStore" where
  "GroupKeyStore_Init s = s\<lparr>LastUsedEpochKeyId := kKeyNone, NextEpochKeyStartTime := UINT32_MAX\<rparr>"

definition OnEpochKeysChange :: "'k GroupKeyStore \<Rightarrow> 'k GroupKeyStore" where
  "OnEpochKeysChange s = s\<lparr>LastUsedEpochKeyId := kKeyNone, NextEpochKeyStartTime := UINT32_MAX\<rparr>"

text \<open>The loop of \<^verbatim>\<open>GetAppGroupMasterKeyId\<close> over the enumerated master keys.\<close>

fun FindMasterKey :: "('k, 'z) KeyStoreOps_scheme \<Rightarrow> 'k \<Rightarrow> u32 \<Rightarrow> u32 list \<Rightarrow> WEAVE_ERROR \<times> u32" where
  "FindMasterKey ops k groupGlobalId [] = (WEAVE_ERROR_KEY_NOT_FOUND, 0)"
| "FindMasterKey ops k groupGlobalId (i # is) =
     (case RetrieveGroupKey ops k i of (err, key) \<Rightarrow>
        if err \<noteq> WEAVE_NO_ERROR then (err, 0)
        else if StartTimeOrGlobalId key = groupGlobalId then (WEAVE_NO_ERROR, GroupKeyId key)
        else FindMasterKey ops k groupGlobalId is)"

definition LookupAppGroupMasterKeyId :: "('k, 'z) KeyStoreOps_scheme \<Rightarrow> u32 \<Rightarrow> 'k GroupKeyStore \<Rightarrow> WEAVE_ERROR \<times> u32" where
  "LookupAppGroupMasterKeyId ops groupGlobalId s =
     (case EnumerateGroupKeys ops (platform s) kType_AppGroupMasterKey MAX_APPLICATION_GROUPS of (err, ids) \<Rightarrow>
        if err \<noteq> WEAVE_NO_ERROR then (err, 0) else FindMasterKey ops (platform s) groupGlobalId ids)"

fun RetrieveStartTimes :: "('k, 'z) KeyStoreOps_scheme \<Rightarrow> 'k \<Rightarrow> u32 list \<Rightarrow> WEAVE_ERROR \<times> u32 list" where
  "RetrieveStartTimes ops k [] = (WEAVE_NO_ERROR, [])"
| "RetrieveStartTimes ops k (i # is) =
     (case RetrieveGroupKey ops k i of (err, key) \<Rightarrow>
        if err \<noteq> WEAVE_NO_ERROR then (err, [])
        else map_prod id (Cons (StartTimeOrGlobalId key)) (RetrieveStartTimes ops k is))"

definition CurrentEpochIndex :: "u32 \<Rightarrow> u32 list \<Rightarrow> nat" where
  "CurrentEpochIndex curUTCTime ts =
     foldl (\<lambda>cur i.
       if (ts ! i > ts ! cur \<and> ts ! i \<le> curUTCTime) \<or> (ts ! i < ts ! cur \<and> ts ! cur > curUTCTime) then i else cur)
       0 [1..<length ts]"

definition NextStart :: "u32 list \<Rightarrow> nat \<Rightarrow> u32 \<Rightarrow> u32" where
  "NextStart ts cur old = foldl (\<lambda>next t. if t > ts ! cur \<and> t < next then t else next) old ts"

definition GetCurrentAppKeyId ::
  "('k, 'z) KeyStoreOps_scheme \<Rightarrow> u32 \<Rightarrow> 'k GroupKeyStore \<Rightarrow> WEAVE_ERROR \<times> u32 \<times> 'k GroupKeyStore" where
  "GetCurrentAppKeyId ops keyId s =
     (if \<not> UsesCurrentEpochKey keyId then (WEAVE_NO_ERROR, keyId, s)
      else
        let s1 = (if LastUsedEpochKeyId s = kKeyNone
                  then case RetrieveLastUsedEpochKeyId ops (platform s) of (err, v) \<Rightarrow>
                    s\<lparr>LastUsedEpochKeyId := (if err \<noteq> WEAVE_NO_ERROR then kKeyNone else v)\<rparr>
                  else s);
            (err, t) = GetCurrentUTCTime ops (platform s1);
            (err, curUTCTime) = (if err = WEAVE_ERROR_UNSUPPORTED_CLOCK \<or> err = WEAVE_ERROR_TIME_NOT_SYNCED_YET
                                 then (WEAVE_NO_ERROR, 0) else (err, t))
        in if err \<noteq> WEAVE_NO_ERROR then (err, keyId, s1)
           else if LastUsedEpochKeyId s1 = kKeyNone \<or> curUTCTime > NextEpochKeyStartTime s1
           then case EnumerateGroupKeys ops (platform s1) kType_AppEpochKey MAX_APPLICATION_EPOCH_KEYS of (err, ids) \<Rightarrow>
             if err \<noteq> WEAVE_NO_ERROR then (err, keyId, s1)
             else if \<not> length ids > 0 then (WEAVE_ERROR_KEY_NOT_FOUND, keyId, s1)
             else case RetrieveStartTimes ops (platform s1) ids of (err, ts) \<Rightarrow>
               if err \<noteq> WEAVE_NO_ERROR then (err, keyId, s1)
               else
                 let cur = CurrentEpochIndex curUTCTime ts;
                     s2 = s1\<lparr>NextEpochKeyStartTime := NextStart ts cur (NextEpochKeyStartTime s1), LastUsedEpochKeyId := ids ! cur\<rparr>;
                     (err, k) = StoreLastUsedEpochKeyId ops (LastUsedEpochKeyId s2) (platform s2);
                     s3 = s2\<lparr>platform := k\<rparr>
                 in if err \<noteq> WEAVE_NO_ERROR then (err, keyId, s3)
                    else (WEAVE_NO_ERROR, UpdateEpochKeyId keyId (LastUsedEpochKeyId s3), s3)
           else (WEAVE_NO_ERROR, UpdateEpochKeyId keyId (LastUsedEpochKeyId s1), s1))"

definition no_key :: WeaveGroupKey where
  "no_key = \<lparr>GroupKeyId = 0, KeyLen = 0, Key = [], StartTimeOrGlobalId = 0\<rparr>"

definition DeriveFabricOrClientRootKey ::
  "('k, 'z) KeyStoreOps_scheme \<Rightarrow> hash \<Rightarrow> u32 \<Rightarrow> 'k \<Rightarrow> WEAVE_ERROR \<times> WeaveGroupKey" where
  "DeriveFabricOrClientRootKey ops H rootKeyId k =
     (let rootKeyDiversifier = (if rootKeyId = kFabricRootKey then kWeaveAppFabricRootKeyDiversifier
                                else kWeaveAppClientRootKeyDiversifier)
      in case RetrieveGroupKey ops k kFabricSecret of (err, fabricSecret) \<Rightarrow>
           if err \<noteq> WEAVE_NO_ERROR then (err, no_key)
           else if unat (KeyLen fabricSecret) \<noteq> kWeaveFabricSecretSize then (WEAVE_ERROR_INVALID_ARGUMENT, no_key)
           else case DeriveKey H [] (Key fabricSecret) [] rootKeyDiversifier kWeaveFabricSecretSize kWeaveAppGroupKeySize of (err, key) \<Rightarrow>
             (err, \<lparr>GroupKeyId = rootKeyId, KeyLen = 32, Key = key, StartTimeOrGlobalId = 0\<rparr>))"

text \<open>\<^verbatim>\<open>DeriveIntermediateKey\<close> after its root key has been fetched.\<close>

definition DeriveIntermediateFrom ::
  "('k, 'z) KeyStoreOps_scheme \<Rightarrow> hash \<Rightarrow> u32 \<Rightarrow> WeaveGroupKey \<Rightarrow> 'k \<Rightarrow> WEAVE_ERROR \<times> WeaveGroupKey" where
  "DeriveIntermediateFrom ops H keyId rootKey k =
     (case RetrieveGroupKey ops k (GetEpochKeyId keyId) of (err, epochKey) \<Rightarrow>
        if err \<noteq> WEAVE_NO_ERROR then (err, no_key)
        else if unat (KeyLen epochKey) \<noteq> kWeaveAppGroupKeySize then (WEAVE_ERROR_INVALID_ARGUMENT, no_key)
        else case DeriveKey H [] (Key rootKey) (Key epochKey) kWeaveAppIntermediateKeyDiversifier kWeaveFabricSecretSize kWeaveAppGroupKeySize of
          (err, key) \<Rightarrow> (err, \<lparr>GroupKeyId = keyId, KeyLen = 32, Key = key, StartTimeOrGlobalId = 0\<rparr>))"

definition CheckGroupKey :: "u32 \<Rightarrow> WEAVE_ERROR \<times> WeaveGroupKey \<Rightarrow> WEAVE_ERROR \<times> WeaveGroupKey" where
  "CheckGroupKey keyId res =
     (case res of (err, groupKey) \<Rightarrow>
        if err \<noteq> WEAVE_NO_ERROR then (err, groupKey)
        else
          let expectedKeyLen = (if keyId = kFabricSecret then kWeaveFabricSecretSize else kWeaveAppGroupKeySize)
          in if unat (KeyLen groupKey) = expectedKeyLen \<and> GroupKeyId groupKey = keyId
             then (WEAVE_NO_ERROR, groupKey) else (WEAVE_ERROR_INVALID_ARGUMENT, groupKey))"

function GetGroupKey ::
  "('k, 'z) KeyStoreOps_scheme \<Rightarrow> hash \<Rightarrow> u32 \<Rightarrow> 'k GroupKeyStore \<Rightarrow> WEAVE_ERROR \<times> WeaveGroupKey \<times> 'k GroupKeyStore" where
  "GetGroupKey ops H keyId0 s0 =
     (case GetCurrentAppKeyId ops keyId0 s0 of (err, keyId, s) \<Rightarrow>
        if err \<noteq> WEAVE_NO_ERROR then (err, no_key, s)
        else
          let t = GetKeyType keyId; rootKeyId = GetRootKeyId keyId;
              finish = (\<lambda>res s'. case CheckGroupKey keyId res of (err, k) \<Rightarrow> (err, k, s'))
          in if t = kType_AppRootKey \<and> (rootKeyId = kFabricRootKey \<or> rootKeyId = kClientRootKey)
             then finish (DeriveFabricOrClientRootKey ops H rootKeyId (platform s)) s
             else if t = kType_AppRootKey \<or> t = kType_General \<or> t = kType_AppEpochKey \<or> t = kType_AppGroupMasterKey
             then finish (RetrieveGroupKey ops (platform s) keyId) s
             else if t = kType_AppIntermediateKey
             then case GetGroupKey ops H rootKeyId s of (err, rootKey, s1) \<Rightarrow>
               if err \<noteq> WEAVE_NO_ERROR then (err, no_key, s1)
               else finish (DeriveIntermediateFrom ops H keyId rootKey (platform s1)) s1
             else (WEAVE_ERROR_INVALID_KEY_ID, no_key, s))"
  by pat_completeness auto

lemma UpdateEpochKeyId_type: "GetKeyType (UpdateEpochKeyId k e) = GetKeyType k"
  by (simp add: GetKeyType_def UpdateEpochKeyId_def bit.conj_disj_distrib2 and_masked)

lemma GetCurrentAppKeyId_type:
  "GetCurrentAppKeyId ops k s = (err, k', s') \<Longrightarrow> GetKeyType k' = GetKeyType k"
  by (auto simp: GetCurrentAppKeyId_def Let_def UpdateEpochKeyId_type split: if_splits prod.splits)

lemma GetRootKeyId_type: "GetKeyType (GetRootKeyId k) = kType_AppRootKey"
  by (simp add: key_masks bit.conj_disj_distrib2 and_masked)

termination GetGroupKey
  by (relation "measure (\<lambda>(ops, H, k, s). if GetKeyType k = kType_AppIntermediateKey then 1 else 0)")
    (auto simp: GetRootKeyId_type dest!: GetCurrentAppKeyId_type [OF sym])

declare GetGroupKey.simps [simp del]

definition DeriveApplicationKey ::
  "('k, 'z) KeyStoreOps_scheme \<Rightarrow> hash \<Rightarrow> u32 \<Rightarrow> u8 list \<Rightarrow> u8 list \<Rightarrow> nat \<Rightarrow> nat \<Rightarrow> 'k GroupKeyStore
    \<Rightarrow> WEAVE_ERROR \<times> (u32 \<times> u8 list \<times> u32) \<times> 'k GroupKeyStore" where
  "DeriveApplicationKey ops H keyId0 keySalt keyDiversifier keyBufSize keyLen s0 =
     (if \<not> IsAppGroupKey keyId0 then (WEAVE_ERROR_INVALID_ARGUMENT, (keyId0, [], 0), s0)
      else case GetCurrentAppKeyId ops keyId0 s0 of (err, keyId, s1) \<Rightarrow>
        if err \<noteq> WEAVE_NO_ERROR then (err, (keyId, [], 0), s1)
        else
          let localKeyId = (if IsAppRotatingKey keyId
                            then MakeAppIntermediateKeyId (GetRootKeyId keyId) (GetEpochKeyId keyId) False
                            else GetRootKeyId keyId)
          in case GetGroupKey ops H localKeyId s1 of (err, intermediateKey, s2) \<Rightarrow>
            if err \<noteq> WEAVE_NO_ERROR then (err, (keyId, [], 0), s2)
            else case RetrieveGroupKey ops (platform s2) (GetAppGroupMasterKeyId keyId) of (err, groupMasterKey) \<Rightarrow>
              if err \<noteq> WEAVE_NO_ERROR then (err, (keyId, [], 0), s2)
              else if unat (KeyLen groupMasterKey) \<noteq> kWeaveAppGroupKeySize then (WEAVE_ERROR_INVALID_ARGUMENT, (keyId, [], 0), s2)
              else case DeriveKey H keySalt (Key intermediateKey) (Key groupMasterKey) keyDiversifier keyBufSize keyLen of (err, appKey) \<Rightarrow>
                if err \<noteq> WEAVE_NO_ERROR then (err, (keyId, appKey, 0), s2)
                else (WEAVE_NO_ERROR, (keyId, appKey, StartTimeOrGlobalId groupMasterKey), s2))"


section \<open>Lemmas on key derivation\<close>

lemma ExpandBlock_hmac:
  "ExpandBlock H prk info n prev = rfc2104 H prk ((if n > 1 then prev else []) @ info @ [n])"
  using HMAC_chunks [of H "[if n > 1 then prev else [], info, [n]]" prk HMAC_new]
  by (auto simp: ExpandBlock_def Let_def HMAC_AddData_def)

lemma DeriveKey_extract:
  "outLen \<le> bufSize \<Longrightarrow> DeriveKey H salt m1 m2 info bufSize outLen = ExpandKey H (rfc2104 H salt (m1 @ m2)) info outLen"
  using HMAC_chunks [of H "[m1, m2]" salt HMAC_new]
  by (simp add: DeriveKey_def AddKeyMaterial_def BeginExtractKey_def)

text \<open>The blocks of RFC 5869: \<open>T i\<close> is the hash over \<open>T (i - 1)\<close>, the info and the number \<open>i\<close>.\<close>

fun rfc5869_T :: "hash \<Rightarrow> u8 list \<Rightarrow> u8 list \<Rightarrow> nat \<Rightarrow> u8 list" where
  "rfc5869_T H prk info 0 = []"
| "rfc5869_T H prk info (Suc i) = rfc2104 H prk (rfc5869_T H prk info i @ info @ [of_nat (Suc i)])"

lemma ExpandBlock_T:
  assumes "i \<le> 254"
  shows "ExpandBlock H prk info (of_nat (Suc i)) (rfc5869_T H prk info i) = rfc5869_T H prk info (Suc i)"
proof -
  have "unat (of_nat (Suc i) :: u8) = Suc i"
    using assms by (simp only: unat_of_nat take_bit_nat_eq_self) (simp add: take_bit_nat_eq_self)
  then have "(of_nat (Suc i) :: u8) > 1 \<longleftrightarrow> 0 < i" by (simp add: word_less_nat_alt)
  then show ?thesis by (cases i) (simp_all add: ExpandBlock_hmac)
qed

lemma length_T: "(\<And>x. length (H x) = 20) \<Longrightarrow> length (rfc5869_T H prk info (Suc i)) = 20"
  by (simp add: rfc2104_def Let_def)

lemma ExpandLoop_T:
  assumes H: "\<And>x. length (H x) = 20"
  shows "20 * i + keyLen \<le> 5100 \<Longrightarrow> ExpandLoop H prk info keyLen (of_nat (Suc i)) (rfc5869_T H prk info i) =
    take keyLen (concat (map (rfc5869_T H prk info) [Suc i..<Suc i + keyLen div 20 + 1]))"
proof (induction "keyLen div 20" arbitrary: keyLen i)
  case 0
  then have k: "keyLen < 20" by simp
  show ?case
  proof (cases "keyLen = 0")
    case False
    then have "i \<le> 254" using "0.prems" by simp
    then show ?thesis using k ExpandBlock_T [of i H prk info] by (subst ExpandLoop.simps) simp
  qed (subst ExpandLoop.simps, simp)
next
  case (Suc m)
  then have k: "20 \<le> keyLen" "m = (keyLen - 20) div 20" "\<not> keyLen < 20" by simp_all
  then have i: "i \<le> 254" "20 * Suc i + (keyLen - 20) \<le> 5100" using Suc.prems by simp_all
  let ?T = "rfc5869_T H prk info"
  have n: "of_nat (Suc i) + 1 = (of_nat (Suc (Suc i)) :: u8)" by simp
  have "ExpandLoop H prk info keyLen (of_nat (Suc i)) (?T i) =
      ?T (Suc i) @ ExpandLoop H prk info (keyLen - 20) (of_nat (Suc (Suc i))) (?T (Suc i))"
    using k ExpandBlock_T [OF i(1), of H prk info] n by (subst ExpandLoop.simps) (simp only: Let_def if_False)
  also have "\<dots> = ?T (Suc i) @ take (keyLen - 20) (concat (map ?T [Suc (Suc i)..<Suc (Suc i) + (keyLen - 20) div 20 + 1]))"
    using Suc.hyps(1) [OF k(2) i(2)] by simp
  also have "\<dots> = take keyLen (?T (Suc i) @ concat (map ?T [Suc (Suc i)..<Suc (Suc i) + (keyLen - 20) div 20 + 1]))"
    using length_T [where H = H and prk = prk and info = info and i = i] H k(1) by (simp add: take_append)
  also have "?T (Suc i) @ concat (map ?T [Suc (Suc i)..<Suc (Suc i) + (keyLen - 20) div 20 + 1]) =
      concat (map ?T [Suc i..<Suc i + keyLen div 20 + 1])"
  proof -
    have "[Suc i..<Suc i + keyLen div 20 + 1] = Suc i # [Suc (Suc i)..<Suc (Suc i) + (keyLen - 20) div 20 + 1]"
      using Suc.hyps(2) [symmetric] k(2) [symmetric] by (subst upt_conv_Cons) (simp_all del: upt_Suc)
    then show ?thesis by (simp only: list.map concat.simps)
  qed
  finally show ?case .
qed

section \<open>Lemmas on the current epoch key\<close>

text \<open>Among the first \<open>k\<close> start times: the latest that is not in the future, or the earliest if all are.\<close>

definition best_epoch :: "u32 \<Rightarrow> u32 list \<Rightarrow> nat \<Rightarrow> nat \<Rightarrow> bool" where
  "best_epoch now ts k c \<longleftrightarrow> c < k \<and>
     (if \<exists>i < k. ts ! i \<le> now then ts ! c \<le> now \<and> (\<forall>i < k. ts ! i \<le> now \<longrightarrow> ts ! i \<le> ts ! c)
      else \<forall>i < k. ts ! c \<le> ts ! i)"

lemma best_epoch_step:
  assumes "best_epoch now ts k c"
  shows "best_epoch now ts (Suc k)
    (if (ts ! k > ts ! c \<and> ts ! k \<le> now) \<or> (ts ! k < ts ! c \<and> ts ! c > now) then k else c)"
proof (cases "\<exists>i < k. ts ! i \<le> now")
  case True
  then have c: "c < k" "ts ! c \<le> now" "\<And>i. i < k \<Longrightarrow> ts ! i \<le> now \<Longrightarrow> ts ! i \<le> ts ! c"
    using assms by (auto simp: best_epoch_def)
  have ex: "\<exists>i < Suc k. ts ! i \<le> now" using True less_SucI by blast
  show ?thesis
    unfolding best_epoch_def if_P [OF ex] using c by (auto simp: less_Suc_eq)
      (meson c(3) less_imp_le order_trans)+
next
  case False
  then have c: "c < k" "\<And>i. i < k \<Longrightarrow> ts ! c \<le> ts ! i" "now < ts ! c"
    using assms by (auto simp: best_epoch_def not_le)
  have none: "\<not> ts ! i \<le> now" if "i < k" for i using False that by blast
  show ?thesis
  proof (cases "ts ! k \<le> now")
    case True
    then have ex: "\<exists>i < Suc k. ts ! i \<le> now" by blast
    have "ts ! k < ts ! c" using True c(3) by (rule le_less_trans)
    then show ?thesis unfolding best_epoch_def if_P [OF ex] using True c(3) none by (auto simp: less_Suc_eq)
  next
    case kf: False
    then have nex: "\<not> (\<exists>i < Suc k. ts ! i \<le> now)" using none by (auto simp: less_Suc_eq)
    show ?thesis unfolding best_epoch_def if_not_P [OF nex] using kf c
      by (auto simp: less_Suc_eq not_less intro: order_trans less_imp_le)
  qed
qed

lemma best_epoch_fold:
  "0 < k \<Longrightarrow> best_epoch now ts k
     (foldl (\<lambda>cur i. if (ts ! i > ts ! cur \<and> ts ! i \<le> now) \<or> (ts ! i < ts ! cur \<and> ts ! cur > now) then i else cur) 0 [1..<k])"
proof (induction k)
  case (Suc k)
  show ?case
  proof (cases "k = 0")
    case True
    then show ?thesis by (simp add: best_epoch_def)
  next
    case False
    then have "[1..<Suc k] = [1..<k] @ [k]" by simp
    then show ?thesis using best_epoch_step [OF Suc.IH] False by (simp only: foldl_append foldl.simps)
  qed
qed simp

section \<open>Properties\<close>

text \<open>
  C24. Key derivation computes HKDF of RFC 5869: for every output length the code accepts (1 to
  \<open>255 * 20\<close> bytes), the key is the first bytes of \<open>T 1 @ T 2 @ ...\<close>, where \<open>T i\<close> hashes
  \<open>T (i - 1)\<close>, the info and the byte \<open>i\<close> under the key extracted from salt and key material; other
  lengths are rejected.  The only thing assumed of the hash is that it gives 20 bytes.
\<close>

theorem hkdf_is_rfc5869:
  assumes "\<And>x. length (H x) = 20" "outLen \<le> bufSize"
  shows "DeriveKey H salt m1 m2 info bufSize outLen =
    (if outLen < 1 \<or> 5100 < outLen then (WEAVE_ERROR_INVALID_ARGUMENT, [])
     else (WEAVE_NO_ERROR, take outLen (concat (map (rfc5869_T H (rfc2104 H salt (m1 @ m2)) info) [1..<outLen div 20 + 2]))))"
  using ExpandLoop_T [OF assms(1), where i = 0 and keyLen = outLen and prk = "rfc2104 H salt (m1 @ m2)" and info = info]
  by (simp add: DeriveKey_extract [OF assms(2)] ExpandKey_def)

theorem hkdf_is_rfc5869_witness:
  "DeriveKey (\<lambda>x. replicate 20 (of_nat (length x))) [] [1, 2] [3] [9] 36 32 = (WEAVE_NO_ERROR, replicate 32 84)"
proof -
  let ?H = "\<lambda>x :: u8 list. replicate 20 (of_nat (length x)) :: u8 list"
  have h: "rfc2104 ?H k m = replicate 20 84" if "length k \<le> 64" for k m
    using that by (simp add: rfc2104_def pad_block_def)
  have T: "rfc5869_T ?H (rfc2104 ?H [] ([1, 2] @ [3])) [9] (Suc i) = replicate 20 84" for i
    by (simp add: h)
  have u: "[1..<32 div 20 + 2] = [Suc 0, Suc 1]" by (simp add: upt_rec)
  have "take 32 (replicate 20 84 @ replicate 20 84) = (replicate 32 84 :: u8 list)"
    by (simp flip: replicate_add)
  then show ?thesis using hkdf_is_rfc5869 [of ?H 32 36 "[]" "[1, 2]" "[3]" "[9]"] unfolding u by (simp only: list.map T concat.simps) simp
qed

text \<open>
  C30. The search for the current epoch key over the unsorted list of start times finds the
  definition in its comment: an index whose key is the newest of those already started, or the oldest of all
  if none has started yet.
\<close>

theorem current_epoch_key_is_newest_started:
  fixes now :: u32 and ts :: "u32 list"
  assumes "ts \<noteq> []"
  defines "c \<equiv> CurrentEpochIndex now ts"
  shows "c < length ts \<and>
    (if list_ex (\<lambda>t. t \<le> now) ts then ts ! c \<le> now \<and> list_all (\<lambda>t. t \<le> now \<longrightarrow> t \<le> ts ! c) ts
     else list_all (\<lambda>t. ts ! c \<le> t) ts)"
proof -
  have "best_epoch now ts (length ts) c"
    using best_epoch_fold [of "length ts" now ts] assms(1) by (simp add: c_def CurrentEpochIndex_def)
  then show ?thesis
    unfolding best_epoch_def list_ex_length list_all_length by blast
qed

theorem current_epoch_key_is_newest_started_witness:
  "CurrentEpochIndex 25 [30, 10, 20, 40] < 4 \<and> [30, 10, 20, 40] ! CurrentEpochIndex 25 [30, 10, 20, 40] \<le> (25 :: u32)"
  using current_epoch_key_is_newest_started [of "[30, 10, 20, 40]" 25] by (simp add: word_le_nat_alt)

text \<open>
  C39. Key rotation stops at a restart.  After initialisation, when the platform still has the id
  of the last used epoch key, that key stays the current one whatever the time and whatever keys have started
  since: the start time of the next key is not known (it is \<open>UINT32_MAX\<close>) and the keys are never searched.
\<close>

theorem epoch_key_stuck_after_restart:
  assumes "UsesCurrentEpochKey keyId" "RetrieveLastUsedEpochKeyId ops (platform s) = (WEAVE_NO_ERROR, lastId)" "lastId \<noteq> 0"
    "GetCurrentUTCTime ops (platform s) = (WEAVE_NO_ERROR, now)"
  shows "GetCurrentAppKeyId ops keyId (GroupKeyStore_Init s) =
    (WEAVE_NO_ERROR, UpdateEpochKeyId keyId lastId, s\<lparr>LastUsedEpochKeyId := lastId, NextEpochKeyStartTime := 0xFFFFFFFF\<rparr>)"
proof -
  have "\<not> (0xFFFFFFFF :: u32) < now"
    using unat_u32_less [of now] by (simp add: word_less_nat_alt)
  then show ?thesis using assms by (simp add: GetCurrentAppKeyId_def GroupKeyStore_Init_def)
qed

theorem epoch_key_stuck_after_restart_witness:
  "fst (snd (GetCurrentAppKeyId
     \<lparr>RetrieveGroupKey = (\<lambda>k i. (WEAVE_NO_ERROR, \<lparr>GroupKeyId = i, KeyLen = 32, Key = replicate 32 0, StartTimeOrGlobalId = i\<rparr>)),
      StoreGroupKey = (\<lambda>key k. (WEAVE_NO_ERROR, k)), EnumerateGroupKeys = (\<lambda>k t n. (WEAVE_NO_ERROR, [0x21000, 0x21080])),
      ClearGroupKeys = (\<lambda>k. k), GetCurrentUTCTime = (\<lambda>k. (WEAVE_NO_ERROR, 0x30000)),
      RetrieveLastUsedEpochKeyId = (\<lambda>k. (WEAVE_NO_ERROR, 0x21000)), StoreLastUsedEpochKeyId = (\<lambda>i k. (WEAVE_NO_ERROR, k))\<rparr>
     0x80005000 (GroupKeyStore_Init \<lparr>LastUsedEpochKeyId = 0, NextEpochKeyStartTime = 0, platform = ()\<rparr>))) = 0x5000"
proof -
  let ?ops = "\<lparr>RetrieveGroupKey = (\<lambda>k i. (WEAVE_NO_ERROR, \<lparr>GroupKeyId = i, KeyLen = 32, Key = replicate 32 0, StartTimeOrGlobalId = i\<rparr>)),
      StoreGroupKey = (\<lambda>key k. (WEAVE_NO_ERROR, k)), EnumerateGroupKeys = (\<lambda>k t n. (WEAVE_NO_ERROR, [0x21000, 0x21080])),
      ClearGroupKeys = (\<lambda>k. k), GetCurrentUTCTime = (\<lambda>k. (WEAVE_NO_ERROR, 0x30000)),
      RetrieveLastUsedEpochKeyId = (\<lambda>k. (WEAVE_NO_ERROR, 0x21000)), StoreLastUsedEpochKeyId = (\<lambda>i k. (WEAVE_NO_ERROR, k))\<rparr>"
  have "UsesCurrentEpochKey 0x80005000" by (simp add: UsesCurrentEpochKey_def IncorporatesEpochKey_def)
  from epoch_key_stuck_after_restart [OF this, of ?ops "\<lparr>LastUsedEpochKeyId = 0, NextEpochKeyStartTime = 0, platform = ()\<rparr>" "0x21000" "0x30000"]
  show ?thesis by (simp add: UpdateEpochKeyId_def)
qed

end
