(* ===== verification/Counters.thy ===== *)
theory Counters
  imports Weave_Prelude
begin

text \<open>
  Message counters: \<^verbatim>\<open>MonotonicallyIncreasingCounter\<close> and \<^verbatim>\<open>PersistedCounter\<close> of
  \<^verbatim>\<open>src/src/lib/support\<close>.  The persisted counter writes the value it will start from after the next reboot,
  one epoch ahead.  The platform's storage of this one key is part of the state; whether a write succeeds is
  an argument, the error code it returns (a failed write leaves the stored value alone).
\<close>

section \<open>Operations\<close>

record PersistedCounter =
  mCounterValue :: u32
  mStartingCounterValue :: u32
  mEpoch :: u32
  stored :: "u32 option"

definition Counter_Init :: "u32 \<Rightarrow> u32" where
  "Counter_Init aStartValue = aStartValue"

definition Counter_Advance :: "u32 \<Rightarrow> u32" where
  "Counter_Advance v = v + 1"

definition WriteStartValue :: "WEAVE_ERROR \<Rightarrow> u32 \<Rightarrow> PersistedCounter \<Rightarrow> WEAVE_ERROR \<times> PersistedCounter" where
  "WriteStartValue werr aStartValue c =
     (werr, if werr = WEAVE_NO_ERROR then c\<lparr>stored := Some aStartValue\<rparr> else c)"

text \<open>\<open>rerr\<close> is what the platform's read reports when a value is stored; without one it reports that there is none.\<close>

definition ReadStartValue :: "WEAVE_ERROR \<Rightarrow> PersistedCounter \<Rightarrow> WEAVE_ERROR \<times> u32" where
  "ReadStartValue rerr c =
     (let (err, v) = (case stored c of
            None \<Rightarrow> (WEAVE_ERROR_PERSISTED_STORAGE_VALUE_NOT_FOUND, 0)
          | Some x \<Rightarrow> if rerr = WEAVE_NO_ERROR then (WEAVE_NO_ERROR, x) else (rerr, 0))
      in if err = WEAVE_ERROR_PERSISTED_STORAGE_VALUE_NOT_FOUND then (WEAVE_NO_ERROR, v) else (err, v))"

definition PersistedCounter_Init ::
  "WEAVE_ERROR \<Rightarrow> WEAVE_ERROR \<Rightarrow> u32 \<Rightarrow> PersistedCounter \<Rightarrow> WEAVE_ERROR \<times> PersistedCounter" where
  "PersistedCounter_Init rerr werr aEpoch c =
     (if \<not> aEpoch > 0 then (WEAVE_ERROR_INVALID_INTEGER_VALUE, c)
      else
        let c1 = c\<lparr>mEpoch := aEpoch\<rparr>;
            (err, v) = ReadStartValue rerr c1;
            c2 = c1\<lparr>mStartingCounterValue := v\<rparr>
        in if err \<noteq> WEAVE_NO_ERROR then (err, c2)
           else SuccessOrExit (WriteStartValue werr (mStartingCounterValue c2 + mEpoch c2) c2)
             (\<lambda>c3. (WEAVE_NO_ERROR, c3\<lparr>mCounterValue := Counter_Init (mStartingCounterValue c3)\<rparr>)))"

definition GetNextValue :: "PersistedCounter \<Rightarrow> u32 \<Rightarrow> bool \<times> u32" where
  "GetNextValue c aValue =
     (let v = aValue + 1
      in if v - mStartingCounterValue c \<ge> mEpoch c then (True, mStartingCounterValue c + mEpoch c) else (False, v))"

definition IncrementCount :: "WEAVE_ERROR \<Rightarrow> PersistedCounter \<Rightarrow> WEAVE_ERROR \<times> PersistedCounter" where
  "IncrementCount werr c =
     (let (startNewEpoch, v) = GetNextValue c (mCounterValue c);
          c1 = c\<lparr>mCounterValue := v\<rparr>
      in if startNewEpoch
         then SuccessOrExit (WriteStartValue werr (mCounterValue c1 + mEpoch c1) c1)
           (\<lambda>c2. (WEAVE_NO_ERROR, c2\<lparr>mStartingCounterValue := mCounterValue c2\<rparr>))
         else (WEAVE_NO_ERROR, c1))"

definition PersistedCounter_Advance :: "WEAVE_ERROR \<Rightarrow> PersistedCounter \<Rightarrow> WEAVE_ERROR \<times> PersistedCounter" where
  "PersistedCounter_Advance werr c = IncrementCount werr c"

text \<open>A restart of the device: what is in memory is lost, what is stored is not.\<close>

definition reboot :: "u32 \<Rightarrow> PersistedCounter \<Rightarrow> WEAVE_ERROR \<times> PersistedCounter" where
  "reboot epoch c = PersistedCounter_Init WEAVE_NO_ERROR WEAVE_NO_ERROR epoch
     \<lparr>mCounterValue = 0, mStartingCounterValue = 0, mEpoch = 0, stored = stored c\<rparr>"

section \<open>Runs\<close>

text \<open>
  The device draws values (read, then advance, as \<^verbatim>\<open>NewMessageId\<close> does) and restarts, in any order.
  \<open>draws epoch c used k c'\<close> says that the values \<open>used\<close> were drawn, oldest first, and the device restarted \<open>k\<close> times on
  the way from \<open>c\<close> to \<open>c'\<close>; storage works throughout.
\<close>

inductive draws :: "u32 \<Rightarrow> PersistedCounter \<Rightarrow> u32 list \<Rightarrow> nat \<Rightarrow> PersistedCounter \<Rightarrow> bool" for epoch where
  draws_none: "draws epoch c [] 0 c"
| draws_value: "\<lbrakk>draws epoch c used k c'; PersistedCounter_Advance WEAVE_NO_ERROR c' = (WEAVE_NO_ERROR, c'')\<rbrakk>
    \<Longrightarrow> draws epoch c (used @ [mCounterValue c']) k c''"
| draws_reboot: "\<lbrakk>draws epoch c used k c'; reboot epoch c' = (WEAVE_NO_ERROR, c'')\<rbrakk> \<Longrightarrow> draws epoch c used (Suc k) c''"

inductive_cases draws_snocE: "draws epoch c (used @ [v]) k c'"

section \<open>Lemmas\<close>

text \<open>
  The invariant, on the numbers without wrap-around: the counter is in the epoch that starts at \<open>n0\<close>, and
  the stored value is the end of that epoch.
\<close>

definition counter_at :: "u32 \<Rightarrow> nat \<Rightarrow> nat \<Rightarrow> PersistedCounter \<Rightarrow> bool" where
  "counter_at epoch n0 n c \<longleftrightarrow> mEpoch c = epoch \<and> mStartingCounterValue c = of_nat n0 \<and> mCounterValue c = of_nat n \<and>
     n0 \<le> n \<and> n < n0 + unat epoch \<and> stored c = Some (of_nat (n0 + unat epoch))"

lemma of_nat_unat_add: "of_nat (n + unat e) = (of_nat n + e :: u32)"
  by simp

lemma Advance_at:
  assumes "counter_at epoch n0 n c"
  obtains n0' c' where "PersistedCounter_Advance WEAVE_NO_ERROR c = (WEAVE_NO_ERROR, c')" "counter_at epoch n0' (n + 1) c'"
proof -
  have a: "mEpoch c = epoch" "mStartingCounterValue c = of_nat n0" "mCounterValue c = of_nat n" "n0 \<le> n" "n < n0 + unat epoch"
    "stored c = Some (of_nat (n0 + unat epoch))"
    using assms by (auto simp: counter_at_def)
  have d: "of_nat n + 1 - of_nat n0 = (of_nat (n + 1 - n0) :: u32)" using a(4) by (simp add: of_nat_diff)
  have le: "n + 1 - n0 \<le> unat epoch" using a(5) by simp
  also have "unat epoch < 2 ^ 32" using unat_u32_less [of epoch] by simp
  finally have u: "unat (of_nat (n + 1 - n0) :: u32) = n + 1 - n0" by (rule unat_of_nat_u32)
  show ?thesis
  proof (cases "n + 1 = n0 + unat epoch")
    case True
    then have "epoch \<le> of_nat (n + 1 - n0)" using u by (simp add: word_le_nat_alt)
    then have "GetNextValue c (of_nat n) = (True, of_nat n0 + epoch)"
      using a by (simp add: GetNextValue_def Let_def d)
    moreover have "of_nat n0 + epoch = (of_nat (n + 1) :: u32)" using True by (simp only: of_nat_unat_add)
    ultimately have "PersistedCounter_Advance WEAVE_NO_ERROR c =
        (WEAVE_NO_ERROR, c\<lparr>mCounterValue := of_nat (n + 1), stored := Some (of_nat (n + 1 + unat epoch)), mStartingCounterValue := of_nat (n + 1)\<rparr>)"
      using a by (simp add: PersistedCounter_Advance_def IncrementCount_def WriteStartValue_def)
    moreover have "0 < unat epoch" using True a by (auto intro: gr0I)
    ultimately show ?thesis using a by (intro that [of _ "n + 1"]) (auto simp: counter_at_def)
  next
    case False
    then have "\<not> epoch \<le> of_nat (n + 1 - n0)" using u le a(4) by (simp add: word_le_nat_alt)
    then have "GetNextValue c (of_nat n) = (False, of_nat (n + 1))"
      using a by (simp add: GetNextValue_def Let_def d)
    then have "PersistedCounter_Advance WEAVE_NO_ERROR c = (WEAVE_NO_ERROR, c\<lparr>mCounterValue := of_nat (n + 1)\<rparr>)"
      using a by (simp add: PersistedCounter_Advance_def IncrementCount_def)
    then show ?thesis using a False by (intro that [of _ n0]) (auto simp: counter_at_def)
  qed
qed

lemma reboot_at:
  assumes "counter_at epoch n0 n c"
  obtains c' where "reboot epoch c = (WEAVE_NO_ERROR, c')" "counter_at epoch (n0 + unat epoch) (n0 + unat epoch) c'"
proof -
  have "0 < unat epoch" using assms by (auto simp: counter_at_def intro: gr0I)
  then have e: "0 < epoch" by (simp add: word_less_nat_alt)
  have "reboot epoch c = (WEAVE_NO_ERROR, \<lparr>mCounterValue = of_nat (n0 + unat epoch), mStartingCounterValue = of_nat (n0 + unat epoch),
      mEpoch = epoch, stored = Some (of_nat (n0 + unat epoch + unat epoch))\<rparr>)"
    using assms e by (simp add: counter_at_def reboot_def PersistedCounter_Init_def ReadStartValue_def WriteStartValue_def Counter_Init_def)
  then show ?thesis using \<open>0 < unat epoch\<close> by (intro that) (auto simp: counter_at_def)
qed

lemma Init_at:
  assumes "PersistedCounter_Init WEAVE_NO_ERROR WEAVE_NO_ERROR epoch c0 = (WEAVE_NO_ERROR, c)"
  shows "counter_at epoch (unat (mCounterValue c)) (unat (mCounterValue c)) c"
proof -
  have e: "0 < epoch" using assms by (auto simp: PersistedCounter_Init_def split: if_splits)
  then have "0 < unat epoch" by (simp add: word_less_nat_alt)
  then show ?thesis using assms e
    by (auto simp: counter_at_def PersistedCounter_Init_def ReadStartValue_def WriteStartValue_def Counter_Init_def split: option.splits)
qed

text \<open>A draw goes on by one; a restart skips at most what is left of the epoch.\<close>

lemma draws_increasing:
  assumes "draws epoch c used k c'" "counter_at epoch n0 n c"
  shows "\<exists>ns n0' n'. used = map of_nat ns \<and> sorted_wrt (<) ns \<and> (\<forall>x \<in> set ns. n \<le> x \<and> x < n') \<and>
    n \<le> n' \<and> n' \<le> n + length used + k * unat epoch \<and> counter_at epoch n0' n' c'"
  using assms
proof (induction rule: draws.induct)
  case (draws_none c)
  show ?case by (intro exI [of _ "[]"] exI [of _ n0] exI [of _ n]) (use draws_none in simp)
next
  case (draws_value c used k c' c'')
  then obtain ns n0' n' where ih: "used = map of_nat ns" "sorted_wrt (<) ns" "\<forall>x \<in> set ns. n \<le> x \<and> x < n'" "n \<le> n'"
    "n' \<le> n + length used + k * unat epoch" "counter_at epoch n0' n' c'" by blast
  obtain n1 where n1: "counter_at epoch n1 (n' + 1) c''"
    using Advance_at [OF ih(6)] draws_value.hyps(2) by (metis prod.inject)
  have "used @ [mCounterValue c'] = map of_nat (ns @ [n'])" using ih by (simp add: counter_at_def)
  moreover have "sorted_wrt (<) (ns @ [n'])" using ih(2,3) by (auto simp: sorted_wrt_append)
  moreover have "\<forall>x \<in> set (ns @ [n']). n \<le> x \<and> x < n' + 1" using ih(3,4) by auto
  moreover have "n \<le> n' + 1" "n' + 1 \<le> n + length (used @ [mCounterValue c']) + k * unat epoch" using ih(4,5) by simp_all
  ultimately show ?case using n1 by blast
next
  case (draws_reboot c used k c' c'')
  then obtain ns n0' n' where ih: "used = map of_nat ns" "sorted_wrt (<) ns" "\<forall>x \<in> set ns. n \<le> x \<and> x < n'" "n \<le> n'"
    "n' \<le> n + length used + k * unat epoch" "counter_at epoch n0' n' c'" by blast
  have c'': "counter_at epoch (n0' + unat epoch) (n0' + unat epoch) c''"
    using reboot_at [OF ih(6)] draws_reboot.hyps(2) by (metis prod.inject)
  have "n' < n0' + unat epoch" "n0' \<le> n'" using ih(6) by (simp_all add: counter_at_def)
  then have "n \<le> n0' + unat epoch" "n0' + unat epoch \<le> n + length used + Suc k * unat epoch"
    "\<forall>x \<in> set ns. n \<le> x \<and> x < n0' + unat epoch" using ih(3,4,5) by (auto intro: order.strict_trans)
  then show ?case using ih(1,2) c'' by blast
qed

lemma unat_distance:
  assumes "n \<le> x" "x < n + 2 ^ 32"
  shows "unat (of_nat x - of_nat n :: u32) = x - n"
proof -
  have "of_nat x - of_nat n = (of_nat (x - n) :: u32)" using assms(1) by (simp add: of_nat_diff)
  then show ?thesis using assms unat_of_nat_u32 [of "x - n"] by simp
qed

section \<open>Properties\<close>

text \<open>
  C8. A persisted counter never repeats a value.  From when it is initialized, in every run in which storage works, with
  any draws and restarts in any order, the values drawn lie at strictly increasing distances from the value the counter was initialized
  with, and so are all different, as long as the draws and one epoch for each restart do not use up the \<open>2 ^ 32\<close> values there are.  And the next draw succeeds.
\<close>

theorem persisted_counter_never_repeats:
  assumes "PersistedCounter_Init WEAVE_NO_ERROR WEAVE_NO_ERROR epoch c0 = (WEAVE_NO_ERROR, c)"
    "draws epoch c used k c'" "length used + k * unat epoch \<le> 2 ^ 32"
  shows "sorted_wrt (<) (map (\<lambda>v. unat (v - mCounterValue c)) used) \<and> distinct used \<and>
    fst (PersistedCounter_Advance WEAVE_NO_ERROR c') = WEAVE_NO_ERROR"
proof -
  let ?n = "unat (mCounterValue c)"
  have at: "counter_at epoch ?n ?n c" using assms(1) by (rule Init_at)
  obtain ns n0' n' where ns: "used = map of_nat ns" "sorted_wrt (<) ns" "\<forall>x \<in> set ns. ?n \<le> x \<and> x < n'"
    "n' \<le> ?n + length used + k * unat epoch" "counter_at epoch n0' n' c'"
    using draws_increasing [OF assms(2) at] by blast
  have d: "unat (of_nat x - mCounterValue c) = x - ?n" if "x \<in> set ns" for x
    using unat_distance [of ?n x] ns(3,4) assms(3) that by fastforce
  have m: "map (\<lambda>v. unat (v - mCounterValue c)) used = map (\<lambda>x. x - ?n) ns" using ns(1) d by simp
  have "sorted_wrt (\<lambda>x y. x - ?n < y - ?n) ns" by (rule sorted_wrt_mono_rel [OF _ ns(2)]) (use ns(3) in fastforce)
  then have s: "sorted_wrt (<) (map (\<lambda>v. unat (v - mCounterValue c)) used)" unfolding m by (simp add: sorted_wrt_map)
  then have "distinct (map (\<lambda>v. unat (v - mCounterValue c)) used)" by (simp add: strict_sorted_iff)
  then have "distinct used" by (simp add: distinct_map)
  moreover have "fst (PersistedCounter_Advance WEAVE_NO_ERROR c') = WEAVE_NO_ERROR" using Advance_at [OF ns(5)] by (metis fst_conv)
  ultimately show ?thesis using s by blast
qed

theorem persisted_counter_never_repeats_witness:
  "\<exists>used c'. draws 2 \<lparr>mCounterValue = 4, mStartingCounterValue = 4, mEpoch = 2, stored = Some 6\<rparr> used 1 c' \<and>
     used = [4, 6] \<and> distinct used"
proof -
  let ?start = "\<lparr>mCounterValue = 0, mStartingCounterValue = 0, mEpoch = 0, stored = Some 4\<rparr>"
  let ?c = "\<lparr>mCounterValue = 4, mStartingCounterValue = 4, mEpoch = 2, stored = Some 6\<rparr>"
  let ?c1 = "\<lparr>mCounterValue = 5, mStartingCounterValue = 4, mEpoch = 2, stored = Some 6\<rparr>"
  let ?c2 = "\<lparr>mCounterValue = 6, mStartingCounterValue = 6, mEpoch = 2, stored = Some 8\<rparr>"
  let ?c3 = "\<lparr>mCounterValue = 7, mStartingCounterValue = 6, mEpoch = 2, stored = Some 8\<rparr>"
  have "draws 2 ?c [] 0 ?c" by (rule draws_none)
  from draws_value [OF this, of ?c1] have "draws 2 ?c [4] 0 ?c1"
    by (simp add: PersistedCounter_Advance_def IncrementCount_def GetNextValue_def word_le_nat_alt)
  from draws_reboot [OF this, of ?c2] have "draws 2 ?c [4] 1 ?c2"
    by (simp add: reboot_def PersistedCounter_Init_def ReadStartValue_def WriteStartValue_def Counter_Init_def)
  from draws_value [OF this, of ?c3] have d: "draws 2 ?c [4, 6] 1 ?c3"
    by (simp add: PersistedCounter_Advance_def IncrementCount_def GetNextValue_def word_le_nat_alt)
  have i: "PersistedCounter_Init WEAVE_NO_ERROR WEAVE_NO_ERROR 2 ?start = (WEAVE_NO_ERROR, ?c)"
    by code_simp
  have "length [4 :: u32, 6] + 1 * unat (2 :: u32) \<le> 2 ^ 32" by simp
  from persisted_counter_never_repeats [OF i d this] d show ?thesis by blast
qed

text \<open>
  C38. A failed write is not repaired: \<^verbatim>\<open>IncrementCount\<close> returns the error with the counter already
  set to the end of the epoch but the epoch not moved, so from then on every advance whose write fails leaves
  the counter at the same value.  \<^verbatim>\<open>NewMessageId\<close> ignores the error, so the same message id is used again
  and again.
\<close>

theorem failed_write_repeats_value:
  assumes "counter_at epoch n0 n c" "n + 1 = n0 + unat epoch" "epoch \<noteq> 0xFFFFFFFF" "werr \<noteq> WEAVE_NO_ERROR" "werr' \<noteq> WEAVE_NO_ERROR"
    "PersistedCounter_Advance werr c = (err, c')" "PersistedCounter_Advance werr' c' = (err', c'')"
  shows "err = werr \<and> err' = werr' \<and> mCounterValue c' = of_nat (n + 1) \<and> mCounterValue c'' = mCounterValue c'"
proof -
  have a: "mEpoch c = epoch" "mStartingCounterValue c = of_nat n0" "mCounterValue c = of_nat n" using assms(1) by (auto simp: counter_at_def)
  have n: "of_nat n + 1 = (of_nat n0 + epoch :: u32)"
    using arg_cong [OF assms(2), of "of_nat :: nat \<Rightarrow> u32"] by (simp add: add.commute)
  have "GetNextValue c (of_nat n) = (True, of_nat n0 + epoch)" using a n by (simp add: GetNextValue_def)
  then have c': "c' = c\<lparr>mCounterValue := of_nat n0 + epoch\<rparr>" "err = werr"
    using assms(4,6) a by (auto simp: PersistedCounter_Advance_def IncrementCount_def WriteStartValue_def)
  have "unat epoch \<noteq> unat (0xFFFFFFFF :: u32)" using assms(3) unsigned_word_eqI by blast
  then have "unat (epoch + 1) = unat epoch + 1" using unat_u32_less [of epoch] by (simp add: unat_add_u32)
  then have "epoch \<le> epoch + 1" by (simp add: word_le_nat_alt)
  then have "GetNextValue c' (of_nat n0 + epoch) = (True, of_nat n0 + epoch)"
    using a c'(1) by (simp add: GetNextValue_def add.assoc)
  then have c'': "c'' = c'" "err' = werr'"
    using assms(5,7) c' a by (auto simp: PersistedCounter_Advance_def IncrementCount_def WriteStartValue_def)
  show ?thesis using c' c'' n by (simp add: add.commute)
qed

theorem failed_write_repeats_value_witness:
  "mCounterValue (snd (PersistedCounter_Advance (PLATFORM_ERROR 1) (snd (PersistedCounter_Advance (PLATFORM_ERROR 1)
     \<lparr>mCounterValue = 0x10FF, mStartingCounterValue = 0x1000, mEpoch = 0x100, stored = Some 0x1100\<rparr>)))) = 0x1100"
proof -
  let ?c = "\<lparr>mCounterValue = 0x10FF, mStartingCounterValue = 0x1000, mEpoch = 0x100, stored = Some 0x1100\<rparr>"
  have "counter_at 0x100 0x1000 0x10FF ?c" by (simp add: counter_at_def)
  then show ?thesis
    using failed_write_repeats_value [where c = ?c and werr = "PLATFORM_ERROR 1" and werr' = "PLATFORM_ERROR 1"
      and c' = "snd (PersistedCounter_Advance (PLATFORM_ERROR 1) ?c)" and err = "fst (PersistedCounter_Advance (PLATFORM_ERROR 1) ?c)"
      and c'' = "snd (PersistedCounter_Advance (PLATFORM_ERROR 1) (snd (PersistedCounter_Advance (PLATFORM_ERROR 1) ?c)))"
      and err' = "fst (PersistedCounter_Advance (PLATFORM_ERROR 1) (snd (PersistedCounter_Advance (PLATFORM_ERROR 1) ?c)))"
      and n = "0x10FF" and ?n0.0 = "0x1000" and epoch = "0x100"] by simp
qed

end
