(* ===== verification/Replay_Window.thy ===== *)
theory Replay_Window
  imports Key_Ids
begin

text \<open>
  Duplicate message detection: \<^verbatim>\<open>WeaveSessionState::IsDuplicateMessage\<close> of
  \<^verbatim>\<open>src/src/lib/core/WeaveFabricState.cpp\<close>.  The session state refers to a maximum message id and a word
  of receive flags elsewhere; here the two are passed by value, and \<open>None\<close> stands for the null pointers of
  a session without duplicate detection.  The outer option is \<open>None\<close> where the C++ has undefined behaviour
  (a null dereference, negating the smallest 32-bit integer).
\<close>

section \<open>The operations\<close>

abbreviation (input) kReceiveFlags_NumMessageIdFlags :: int where "kReceiveFlags_NumMessageIdFlags \<equiv> 15"
abbreviation (input) kReceiveFlags_MessageIdSynchronized :: u16 where "kReceiveFlags_MessageIdSynchronized \<equiv> 0x8000"
abbreviation (input) kReceiveFlags_MessageIdFlagsMask :: u16 where "kReceiveFlags_MessageIdFlagsMask \<equiv> 0x7FFF"

record RcvState =
  MaxMsgIdRcvd :: u32
  RcvFlags :: u16

definition MessageIdNotSynchronized :: "RcvState option \<Rightarrow> bool" where
  "MessageIdNotSynchronized r =
     (case r of None \<Rightarrow> True | Some s \<Rightarrow> RcvFlags s AND kReceiveFlags_MessageIdSynchronized = 0)"

definition IsDuplicateSync :: "bool \<Rightarrow> u32 \<Rightarrow> RcvState \<Rightarrow> (bool \<times> RcvState) option" where
  "IsDuplicateSync encrypted msgId s =
     (let msgIdFlags = RcvFlags s AND kReceiveFlags_MessageIdFlagsMask;
          delta = sint (msgId - MaxMsgIdRcvd s);
          finish = (\<lambda>flags s'. Some (False, s'\<lparr>RcvFlags := kReceiveFlags_MessageIdSynchronized OR flags OR
             (RcvFlags s AND NOT kReceiveFlags_MessageIdFlagsMask)\<rparr>))
      in if delta > 0
         then finish
           (if delta < kReceiveFlags_NumMessageIdFlags
            then ucast (push_bit (nat (delta - 1)) (push_bit 1 (ucast msgIdFlags) OR 1 :: u32)) else 0)
           (s\<lparr>MaxMsgIdRcvd := msgId\<rparr>)
         else if delta = 0 then Some (True, s)
         else if delta = - (2 ^ 31) then None
         else if - delta \<le> kReceiveFlags_NumMessageIdFlags
         then let mask = push_bit (nat (- delta - 1)) 1 in
              if msgIdFlags AND mask = 0 then finish (msgIdFlags OR mask) s else Some (True, s)
         else if encrypted then Some (True, s)
         else finish 0 (s\<lparr>MaxMsgIdRcvd := msgId\<rparr>))"

text \<open>\<open>encKeyId\<close> is the key id of \<^verbatim>\<open>MsgEncKey\<close>, if the session has one.\<close>

definition IsDuplicateMessage :: "u16 option \<Rightarrow> u32 \<Rightarrow> RcvState option \<Rightarrow> (bool \<times> RcvState option) option" where
  "IsDuplicateMessage encKeyId msgId r =
     (if MessageIdNotSynchronized r
      then
        if encKeyId = None \<and> r = None then Some (False, r)
        else if (case encKeyId of None \<Rightarrow> False | Some k \<Rightarrow> IsAppGroupKey (ucast k)) then Some (True, r)
        else case r of None \<Rightarrow> None
          | Some s \<Rightarrow> Some (False, Some (s\<lparr>RcvFlags := kReceiveFlags_MessageIdSynchronized, MaxMsgIdRcvd := msgId\<rparr>))
      else case r of None \<Rightarrow> None
        | Some s \<Rightarrow> map_option (map_prod id Some) (IsDuplicateSync (encKeyId \<noteq> None) msgId s))"

section \<open>What the flags stand for\<close>

text \<open>
  The ideal receiver remembers every number it accepted.  A number is fresh if it is larger than all of
  them, or at most 15 below the largest and not among them.
\<close>

definition fresh :: "nat \<Rightarrow> nat set \<Rightarrow> nat \<Rightarrow> bool" where
  "fresh m R x \<longleftrightarrow> m < x \<or> (m - x \<le> 15 \<and> x \<notin> R)"

text \<open>The flags represent the ideal receiver's memory as far as it matters: the last 15 numbers.\<close>

definition represents :: "RcvState \<Rightarrow> nat \<Rightarrow> nat set \<Rightarrow> bool" where
  "represents s m R \<longleftrightarrow> MaxMsgIdRcvd s = of_nat m \<and> bit (RcvFlags s) 15 \<and> m \<in> R \<and> (\<forall>x \<in> R. x \<le> m) \<and>
     (\<forall>i < 15. bit (RcvFlags s) i \<longleftrightarrow> i < m \<and> m - Suc i \<in> R)"

lemma sint_diff:
  assumes "\<bar>int x - int m\<bar> < 2 ^ 31"
  shows "sint (of_nat x - of_nat m :: u32) = int x - int m"
proof -
  have "sint (of_nat x - of_nat m :: u32) = sint (word_of_int (int x - int m) :: u32)" by simp
  also have "\<dots> = signed_take_bit 31 (int x - int m)"
    by (simp only: signed_of_int) simp
  also have "\<dots> = int x - int m" using assms by (intro signed_take_bit_int_eq_self) auto
  finally show ?thesis .
qed

lemma flag_bits:
  "bit (0x8000 :: u16) i \<longleftrightarrow> i = 15" "bit (0x7FFF :: u16) i \<longleftrightarrow> i < 15"
proof -
  have e: "(0x8000 :: u16) = 2 ^ 15" "(0x7FFF :: u16) = mask 15" by (simp_all add: mask_eq_exp_minus_1)
  show "bit (0x8000 :: u16) i \<longleftrightarrow> i = 15" unfolding e(1) bit_exp_iff by auto
  show "bit (0x7FFF :: u16) i \<longleftrightarrow> i < 15" unfolding e(2) bit_mask_iff by auto
qed

lemma synchronized_bit: "r AND kReceiveFlags_MessageIdSynchronized = 0 \<longleftrightarrow> \<not> bit r 15" for r :: u16
proof
  assume "r AND kReceiveFlags_MessageIdSynchronized = 0"
  then have "\<not> bit (r AND kReceiveFlags_MessageIdSynchronized) 15" by (simp only: bit_0_eq) simp
  then show "\<not> bit r 15" unfolding bit_and_iff flag_bits by simp
next
  assume n: "\<not> bit r 15"
  show "r AND kReceiveFlags_MessageIdSynchronized = 0"
    by (rule bit_word_eqI) (use n in \<open>unfold bit_and_iff flag_bits bit_0_eq, auto\<close>)
qed

lemma low_flags: "bit (r AND kReceiveFlags_MessageIdFlagsMask) i \<longleftrightarrow> i < 15 \<and> bit r i" for r :: u16
  unfolding bit_and_iff flag_bits by auto

lemma new_flags:
  "i \<le> 15 \<Longrightarrow> bit (kReceiveFlags_MessageIdSynchronized OR f OR (r AND NOT kReceiveFlags_MessageIdFlagsMask)) i \<longleftrightarrow>
     (if i < 15 then bit f i else True)" for f r :: u16
  unfolding bit_or_iff bit_and_iff bit_not_iff flag_bits by auto

text \<open>Moving on by less than 15: the old flags shift up, the old maximum becomes flag \<open>d - 1\<close>.\<close>

lemma shifted_flags:
  fixes r :: u16
  assumes "0 < d" "d < 15" "i < 15"
  shows "bit (ucast (push_bit (d - 1) (push_bit 1 (ucast (r AND kReceiveFlags_MessageIdFlagsMask)) OR 1 :: u32)) :: u16) i \<longleftrightarrow>
    i = d - 1 \<or> (d \<le> i \<and> bit r (i - d))"
proof -
  have j: "i - (d - 1) - 1 = i - d" "i - d < 15" using assms by simp_all
  show ?thesis
    unfolding bit_unsigned_iff bit_push_bit_iff bit_or_iff low_flags j(1) bit_1_iff possible_bit_word
    using assms by auto
qed


lemma IsDuplicateSync_later:
  assumes "represents s m R" "m < x" "x - m < 2 ^ 31" "x \<noteq> m + 15"
  shows "\<exists>s'. IsDuplicateSync enc (of_nat x) s = Some (False, s') \<and> represents s' x (insert x R)"
proof -
  define d where "d = x - m"
  have x: "x = m + d" "0 < d" "d \<noteq> 15" using assms by (auto simp: d_def)
  have delta: "sint (of_nat x - MaxMsgIdRcvd s) = int d"
    using sint_diff [of x m] assms x(1) by (simp add: represents_def)
  define f :: u16 where "f = (if d < 15
    then ucast (push_bit (d - 1) (push_bit 1 (ucast (RcvFlags s AND kReceiveFlags_MessageIdFlagsMask)) OR 1 :: u32)) else 0)"
  define g where "g = kReceiveFlags_MessageIdSynchronized OR f OR (RcvFlags s AND NOT kReceiveFlags_MessageIdFlagsMask)"
  have step: "IsDuplicateSync enc (of_nat x) s = Some (False, s\<lparr>MaxMsgIdRcvd := of_nat x, RcvFlags := g\<rparr>)"
    using delta x(2) by (simp add: IsDuplicateSync_def Let_def f_def g_def nat_diff_distrib)
  have old: "bit (RcvFlags s) i \<longleftrightarrow> i < m \<and> m - Suc i \<in> R" if "i < 15" for i
    using assms(1) that by (simp add: represents_def)
  have R: "y \<le> m" if "y \<in> R" for y using assms(1) that by (auto simp: represents_def)
  have mR: "m \<in> R" using assms(1) by (simp add: represents_def)
  have bits: "bit g i \<longleftrightarrow> i < x \<and> x - Suc i \<in> insert x R" if i: "i < 15" for i
  proof (cases "d < 15")
    case True
    have e: "bit g i \<longleftrightarrow> i = d - 1 \<or> (d \<le> i \<and> bit (RcvFlags s) (i - d))"
      using i True x(2) by (simp only: g_def new_flags f_def if_True shifted_flags)
    consider "i < d - 1" | "i = d - 1" | "d \<le> i" using x(2) by linarith
    then show ?thesis
    proof cases
      case 1
      then have "x - Suc i \<noteq> x" "x - Suc i > m" using x by auto
      with 1 R [of "x - Suc i"] e show ?thesis by auto
    next
      case 2
      then have "x - Suc i = m" "i < x" using x by auto
      with 2 e mR show ?thesis by simp
    next
      case 3
      then have "x - Suc i = m - Suc (i - d)" "i < x \<longleftrightarrow> i - d < m" "i \<noteq> d - 1" using x by auto
      with 3 e old [of "i - d"] i x(2) show ?thesis by auto
    qed
  next
    case False
    then have "\<not> bit g i" using i by (simp only: g_def new_flags f_def if_False) simp
    moreover have "x - Suc i > m" "x - Suc i \<noteq> x" using False x i by auto
    ultimately show ?thesis using R [of "x - Suc i"] by auto
  qed
  have "bit g 15" by (simp only: g_def new_flags) simp
  then have "represents (s\<lparr>MaxMsgIdRcvd := of_nat x, RcvFlags := g\<rparr>) x (insert x R)"
    using bits R assms(2) by (auto simp: represents_def dest!: R)
  with step show ?thesis by blast
qed

lemma IsDuplicateSync_earlier:
  assumes "represents s m R" "x \<le> m" "m - x < 2 ^ 31"
  shows "m - x \<le> 15 \<Longrightarrow> x \<notin> R \<Longrightarrow>
      \<exists>s'. IsDuplicateSync enc (of_nat x) s = Some (False, s') \<and> represents s' m (insert x R)"
    "x \<in> R \<Longrightarrow> m - x \<le> 15 \<Longrightarrow> IsDuplicateSync enc (of_nat x) s = Some (True, s)"
    "m - x > 15 \<Longrightarrow> IsDuplicateSync True (of_nat x) s = Some (True, s)"
proof -
  define d where "d = m - x"
  have x: "m = x + d" "d < 2 ^ 31" using assms by (auto simp: d_def)
  have delta: "sint (of_nat x - MaxMsgIdRcvd s) = - int d"
    using sint_diff [of x m] assms x(1) by (simp add: represents_def)
  have old: "bit (RcvFlags s) i \<longleftrightarrow> i < m \<and> m - Suc i \<in> R" if "i < 15" for i
    using assms(1) that by (simp add: represents_def)
  have mask: "(RcvFlags s AND kReceiveFlags_MessageIdFlagsMask) AND push_bit (d - 1) 1 = 0 \<longleftrightarrow> x \<notin> R" if "0 < d" "d \<le> 15"
  proof -
    have "(RcvFlags s AND kReceiveFlags_MessageIdFlagsMask) AND push_bit (d - 1) 1 = 0 \<longleftrightarrow>
        \<not> bit (RcvFlags s AND kReceiveFlags_MessageIdFlagsMask) (d - 1)"
      by (simp add: bit_iff_and_push_bit_not_eq_0)
    also have "\<dots> \<longleftrightarrow> \<not> bit (RcvFlags s) (d - 1)" using that by (simp only: low_flags) auto
    finally show ?thesis using old [of "d - 1"] that x by auto
  qed
  have nat: "nat (- (- int d) - 1) = d - 1" by (simp add: nat_diff_distrib')
  show "m - x > 15 \<Longrightarrow> IsDuplicateSync True (of_nat x) s = Some (True, s)"
    using delta x by (simp add: IsDuplicateSync_def Let_def)
  show "x \<in> R \<Longrightarrow> m - x \<le> 15 \<Longrightarrow> IsDuplicateSync enc (of_nat x) s = Some (True, s)"
    using delta x mask nat by (auto simp: IsDuplicateSync_def Let_def)
  assume fr: "m - x \<le> 15" "x \<notin> R"
  have "m \<in> R" using assms(1) by (simp add: represents_def)
  then have d: "0 < d" "d \<le> 15" using fr x by (auto intro: gr0I)
  define g where "g = kReceiveFlags_MessageIdSynchronized OR ((RcvFlags s AND kReceiveFlags_MessageIdFlagsMask) OR push_bit (d - 1) 1) OR
    (RcvFlags s AND NOT kReceiveFlags_MessageIdFlagsMask)"
  have step: "IsDuplicateSync enc (of_nat x) s = Some (False, s\<lparr>RcvFlags := g\<rparr>)"
    using delta x d mask fr nat by (simp add: IsDuplicateSync_def Let_def g_def)
  have "bit g i \<longleftrightarrow> i < m \<and> m - Suc i \<in> insert x R" if i: "i < 15" for i
  proof -
    have "bit g i \<longleftrightarrow> bit (RcvFlags s) i \<or> i = d - 1"
      using i unfolding g_def new_flags [OF less_imp_le [OF i]]
      unfolding bit_or_iff low_flags bit_push_bit_iff bit_1_iff by auto
    moreover have "i = d - 1 \<longleftrightarrow> i < m \<and> m - Suc i = x" using x d by auto
    ultimately show ?thesis using old [OF i] by auto
  qed
  moreover have "bit g 15" by (simp only: g_def new_flags) simp
  ultimately have "represents (s\<lparr>RcvFlags := g\<rparr>) m (insert x R)"
    using assms(1,2) by (auto simp: represents_def)
  with step show "\<exists>s'. IsDuplicateSync enc (of_nat x) s = Some (False, s') \<and> represents s' m (insert x R)" by blast
qed


section \<open>Sequences of messages\<close>

text \<open>The verdicts of the code on a sequence of message ids, and those of the ideal receiver.\<close>

fun receive_all :: "u16 option \<Rightarrow> u32 list \<Rightarrow> RcvState option \<Rightarrow> bool list option" where
  "receive_all k [] r = Some []"
| "receive_all k (x # xs) r =
     (case IsDuplicateMessage k x r of
        None \<Rightarrow> None
      | Some (dup, r') \<Rightarrow> map_option (Cons dup) (receive_all k xs r'))"

fun ideal :: "nat \<Rightarrow> nat set \<Rightarrow> nat list \<Rightarrow> bool list" where
  "ideal m R [] = []"
| "ideal m R (x # xs) =
     (if fresh m R x then False # ideal (max m x) (insert x R) xs else True # ideal m R xs)"

text \<open>No number is exactly 15 above the largest before it.\<close>

fun gap_free :: "nat \<Rightarrow> nat list \<Rightarrow> bool" where
  "gap_free m [] = True"
| "gap_free m (x # xs) = (x \<noteq> m + 15 \<and> gap_free (max m x) xs)"

definition accepted :: "'a list \<Rightarrow> bool list \<Rightarrow> 'a list" where
  "accepted xs dups = map fst (filter (\<lambda>(x, d). \<not> d) (zip xs dups))"

lemma accepted_simps [simp]:
  "accepted [] ds = []" "accepted (x # xs) (True # ds) = accepted xs ds"
  "accepted (x # xs) (False # ds) = x # accepted xs ds"
  by (simp_all add: accepted_def)

lemma IsDuplicateMessage_sync:
  assumes "bit (RcvFlags s) 15"
  shows "IsDuplicateMessage k x (Some s) = map_option (map_prod id Some) (IsDuplicateSync (k \<noteq> None) x s)"
  using assms by (simp add: IsDuplicateMessage_def MessageIdNotSynchronized_def synchronized_bit)

lemma receive_all_ideal:
  assumes "represents s m R" "gap_free m xs" "\<And>x. x \<in> set xs \<Longrightarrow> x < lo + 2 ^ 31 \<and> lo \<le> x" "lo \<le> m" "m < lo + 2 ^ 31"
  shows "receive_all (Some k) (map of_nat xs) (Some s) = Some (ideal m R xs)"
  using assms
proof (induction xs arbitrary: s m R)
  case Nil
  then show ?case by simp
next
  case (Cons x xs)
  have near: "x < lo + 2 ^ 31" "lo \<le> x" using Cons.prems(3) [of x] by auto
  have sync: "IsDuplicateMessage (Some k) y (Some s) = map_option (map_prod id Some) (IsDuplicateSync True y s)" for y
    using Cons.prems(1) by (subst IsDuplicateMessage_sync) (auto simp: represents_def)
  have IH: "receive_all (Some k) (map of_nat xs) (Some s') = Some (ideal m' R' xs)"
    if "represents s' m' R'" "m' = max m x" for s' m' R'
    using that Cons.prems near by (intro Cons.IH) (auto simp: max_def)
  show ?case
  proof (cases "m < x")
    case True
    then obtain s' where "IsDuplicateSync True (of_nat x) s = Some (False, s')" "represents s' x (insert x R)"
      using IsDuplicateSync_later [OF Cons.prems(1) True, of True] Cons.prems(2,4) near by fastforce
    with True IH [of s' x] sync show ?thesis by (simp add: fresh_def max_def)
  next
    case False
    then have le: "x \<le> m" "m - x < 2 ^ 31" "max m x = m" using Cons.prems(4,5) near by auto
    show ?thesis
    proof (cases "m - x \<le> 15 \<and> x \<notin> R")
      case fr: True
      then obtain s' where "IsDuplicateSync True (of_nat x) s = Some (False, s')" "represents s' m (insert x R)"
        using IsDuplicateSync_earlier(1) [OF Cons.prems(1) le(1,2), of True] by blast
      with False fr le IH [of s' m] sync show ?thesis by (simp add: fresh_def)
    next
      case nf: False
      then have "IsDuplicateSync True (of_nat x) s = Some (True, s)"
        using IsDuplicateSync_earlier(2,3) [OF Cons.prems(1) le(1,2)] by (cases "m - x \<le> 15") auto
      with False nf le IH [OF Cons.prems(1)] sync show ?thesis by (simp add: fresh_def)
    qed
  qed
qed

lemma accepted_ideal:
  "\<forall>x \<in> R. x \<le> m \<Longrightarrow> distinct (accepted xs (ideal m R xs)) \<and> set (accepted xs (ideal m R xs)) \<inter> R = {}"
proof (induction xs arbitrary: m R)
  case (Cons x xs)
  show ?case
  proof (cases "fresh m R x")
    case True
    then have "x \<notin> R" using Cons.prems by (auto simp: fresh_def)
    moreover have "\<forall>y \<in> insert x R. y \<le> max m x" using Cons.prems by auto
    note Cons.IH [OF this]
    ultimately show ?thesis using True by auto
  next
    case False
    then show ?thesis using Cons.IH [OF Cons.prems] by simp
  qed
qed simp

section \<open>Properties\<close>

text \<open>
  C7. Replay protection of a session.  Whatever message ids arrive under a session key, in
  whatever order and across the wrap of the 32-bit counter, as long as they lie within \<open>2 ^ 31\<close> of each
  other and no id is exactly 15 above the largest before it: the verdicts are those of a receiver that
  remembers every id it accepted and rejects ids more than 15 below the largest, and no id is accepted
  twice.
\<close>

theorem session_replay_protection:
  assumes "\<not> IsAppGroupKey (ucast k)" "RcvFlags s AND 0x8000 = 0" "gap_free n ns"
    "list_all (\<lambda>x. lo \<le> x \<and> x < lo + 2 ^ 31) (n # ns)"
  shows "receive_all (Some k) (map of_nat (n # ns)) (Some s) = Some (False # ideal n {n} ns) \<and>
    distinct (accepted (n # ns) (False # ideal n {n} ns))"
proof -
  let ?s = "s\<lparr>RcvFlags := kReceiveFlags_MessageIdSynchronized, MaxMsgIdRcvd := of_nat n\<rparr>"
  have "IsDuplicateMessage (Some k) (of_nat n) (Some s) = Some (False, Some ?s)"
    using assms(1,2) by (simp add: IsDuplicateMessage_def MessageIdNotSynchronized_def)
  moreover have f: "MaxMsgIdRcvd ?s = of_nat n" "RcvFlags ?s = kReceiveFlags_MessageIdSynchronized" by simp_all
  have "represents ?s n {n}" unfolding represents_def f flag_bits by auto
  then have "receive_all (Some k) (map of_nat ns) (Some ?s) = Some (ideal n {n} ns)"
    using assms(3,4) by (intro receive_all_ideal) (auto simp: list_all_iff)
  ultimately show ?thesis using accepted_ideal [of "{n}" n ns] by auto
qed

theorem session_replay_protection_witness:
  "receive_all (Some 0x2001) (map of_nat [0xFFFFFFFE, 0xFFFFFFFF, 0x100000001, 0x100000000, 0xFFFFFFFF, 0x100000000])
     (Some \<lparr>MaxMsgIdRcvd = 0, RcvFlags = 0\<rparr>) = Some [False, False, False, False, True, True]"
  using session_replay_protection [where k = "0x2001" and s = "\<lparr>MaxMsgIdRcvd = 0, RcvFlags = 0\<rparr>" and n = "0xFFFFFFFE"
      and ns = "[0xFFFFFFFF, 0x100000001, 0x100000000, 0xFFFFFFFF, 0x100000000]" and lo = "0xFFFFFFFE"]
  by (simp add: IsAppGroupKey_def IsAppStaticKey_def IsAppRotatingKey_def GetKeyType_def fresh_def)

text \<open>
  C37. The exception is real: when an id is exactly 15 above the largest id so far, the flags are
  cleared although the old largest id is still inside the window, so the message with that id, even an
  encrypted one, is accepted a second time.
\<close>

theorem replay_accepted_after_gap_of_15:
  assumes "\<not> IsAppGroupKey (ucast k)" "RcvFlags s AND 0x8000 = 0"
  shows "receive_all (Some k) [n, n + 15, n] (Some s) = Some [False, False, False]"
proof -
  have "IsDuplicateMessage (Some k) n (Some s) =
      Some (False, Some (s\<lparr>RcvFlags := 0x8000, MaxMsgIdRcvd := n\<rparr>))"
    using assms by (simp add: IsDuplicateMessage_def MessageIdNotSynchronized_def)
  moreover have "IsDuplicateMessage (Some k) (n + 15) (Some (s\<lparr>RcvFlags := 0x8000, MaxMsgIdRcvd := n\<rparr>)) =
      Some (False, Some (s\<lparr>RcvFlags := 0x8000, MaxMsgIdRcvd := n + 15\<rparr>))"
    by (simp add: IsDuplicateMessage_def MessageIdNotSynchronized_def IsDuplicateSync_def Let_def)
  moreover have "\<exists>r. IsDuplicateMessage (Some k) n (Some (s\<lparr>RcvFlags := 0x8000, MaxMsgIdRcvd := n + 15\<rparr>)) = Some (False, r)"
    by (simp add: IsDuplicateMessage_def MessageIdNotSynchronized_def IsDuplicateSync_def Let_def)
  ultimately show ?thesis by auto
qed

theorem replay_accepted_after_gap_of_15_witness:
  "receive_all (Some 0x2001) [100, 115, 100] (Some \<lparr>MaxMsgIdRcvd = 0, RcvFlags = 0\<rparr>) = Some [False, False, False]"
  using replay_accepted_after_gap_of_15 [of "0x2001" "\<lparr>MaxMsgIdRcvd = 0, RcvFlags = 0\<rparr>" 100]
  by (simp add: IsAppGroupKey_def IsAppStaticKey_def IsAppRotatingKey_def GetKeyType_def)

end
