(* ===== verification/IP_Address.thy ===== *)
theory IP_Address
  imports Weave_Prelude
begin

text \<open>
  Addresses: \<^verbatim>\<open>IPAddress\<close> of \<^verbatim>\<open>src/src/inet/IPAddress.cpp\<close> and the mapping between Weave identifiers and
  IPv6 address fields of \<^verbatim>\<open>src/src/lib/core/WeaveMessageLayer.h\<close>.  The class keeps four words in network
  byte order; the model keeps the numbers they stand for, so that \<^verbatim>\<open>htonl\<close> and \<^verbatim>\<open>ntohl\<close> disappear and
  a memory copy of the array is the big-endian bytes of its words.
\<close>

record IPAddress =
  Addr0 :: u32
  Addr1 :: u32
  Addr2 :: u32
  Addr3 :: u32

datatype IPAddressType = kIPAddressType_Any | kIPAddressType_IPv4 | kIPAddressType_IPv6

definition Any :: IPAddress where
  "Any = \<lparr>Addr0 = 0, Addr1 = 0, Addr2 = 0, Addr3 = 0\<rparr>"

definition IsIPv4 :: "IPAddress \<Rightarrow> bool" where
  "IsIPv4 a = (Addr0 a = 0 \<and> Addr1 a = 0 \<and> Addr2 a = 0xFFFF)"

definition IsMulticast :: "IPAddress \<Rightarrow> bool" where
  "IsMulticast a = (Addr0 a AND 0xFF000000 = 0xFF000000)"

definition IsIPv6ULA :: "IPAddress \<Rightarrow> bool" where
  "IsIPv6ULA a = (Addr0 a AND 0xFF000000 = 0xFD000000)"

definition IsIPv6LinkLocal :: "IPAddress \<Rightarrow> bool" where
  "IsIPv6LinkLocal a = (Addr0 a = 0xFE800000 \<and> Addr1 a = 0)"

definition InterfaceId :: "IPAddress \<Rightarrow> u64" where
  "InterfaceId a = (if IsIPv6ULA a then push_bit 32 (ucast (Addr2 a)) OR ucast (Addr3 a) else 0)"

definition Subnet :: "IPAddress \<Rightarrow> u16" where
  "Subnet a = (if IsIPv6ULA a then ucast (Addr1 a) else 0)"

definition GlobalId :: "IPAddress \<Rightarrow> u64" where
  "GlobalId a = (if IsIPv6ULA a
     then push_bit 16 (ucast (Addr0 a AND 0xFFFFFF)) OR drop_bit 16 (ucast (Addr1 a) AND 0xFFFF0000) else 0)"

definition Type :: "IPAddress \<Rightarrow> IPAddressType" where
  "Type a = (if Addr0 a = 0 \<and> Addr1 a = 0 \<and> Addr2 a = 0 \<and> Addr3 a = 0 then kIPAddressType_Any
             else if Addr0 a = 0 \<and> Addr1 a = 0 \<and> Addr2 a = 0xFFFF then kIPAddressType_IPv4
             else kIPAddressType_IPv6)"

definition word_bytes :: "u32 \<Rightarrow> u8 list" where
  "word_bytes n = [ucast (drop_bit 24 n), ucast (drop_bit 16 n), ucast (drop_bit 8 n), ucast n]"

definition bytes_word :: "u8 list \<Rightarrow> u32" where
  "bytes_word bs = push_bit 24 (ucast (bs ! 0)) OR push_bit 16 (ucast (bs ! 1)) OR push_bit 8 (ucast (bs ! 2)) OR ucast (bs ! 3)"

definition WriteAddress :: "IPAddress \<Rightarrow> u8 list" where
  "WriteAddress a = word_bytes (Addr0 a) @ word_bytes (Addr1 a) @ word_bytes (Addr2 a) @ word_bytes (Addr3 a)"

definition ReadAddress :: "u8 list \<Rightarrow> IPAddress \<times> u8 list" where
  "ReadAddress p =
     (\<lparr>Addr0 = bytes_word p, Addr1 = bytes_word (drop 4 p), Addr2 = bytes_word (drop 8 p), Addr3 = bytes_word (drop 12 p)\<rparr>,
      drop 16 p)"

text \<open>\<^verbatim>\<open>s6_addr\<close> is an array of 16 bytes, \<^verbatim>\<open>s_addr\<close> a word in network byte order.\<close>

definition FromIPv6 :: "u8 list \<Rightarrow> IPAddress" where
  "FromIPv6 s6_addr =
     \<lparr>Addr0 = push_bit 24 (ucast (s6_addr ! 0)) OR push_bit 16 (ucast (s6_addr ! 1)) OR push_bit 8 (ucast (s6_addr ! 2)) OR ucast (s6_addr ! 3),
      Addr1 = push_bit 24 (ucast (s6_addr ! 4)) OR push_bit 16 (ucast (s6_addr ! 5)) OR push_bit 8 (ucast (s6_addr ! 6)) OR ucast (s6_addr ! 7),
      Addr2 = push_bit 24 (ucast (s6_addr ! 8)) OR push_bit 16 (ucast (s6_addr ! 9)) OR push_bit 8 (ucast (s6_addr ! 10)) OR ucast (s6_addr ! 11),
      Addr3 = push_bit 24 (ucast (s6_addr ! 12)) OR push_bit 16 (ucast (s6_addr ! 13)) OR push_bit 8 (ucast (s6_addr ! 14)) OR ucast (s6_addr ! 15)\<rparr>"

definition ToIPv6 :: "IPAddress \<Rightarrow> u8 list" where
  "ToIPv6 a = word_bytes (Addr0 a) @ word_bytes (Addr1 a) @ word_bytes (Addr2 a) @ word_bytes (Addr3 a)"

definition FromIPv4 :: "u32 \<Rightarrow> IPAddress" where
  "FromIPv4 s_addr = \<lparr>Addr0 = 0, Addr1 = 0, Addr2 = 0xFFFF, Addr3 = s_addr\<rparr>"

definition ToIPv4 :: "IPAddress \<Rightarrow> u32" where
  "ToIPv4 a = Addr3 a"

definition MakeULA :: "u64 \<Rightarrow> u16 \<Rightarrow> u64 \<Rightarrow> IPAddress" where
  "MakeULA globalId subnet interfaceId =
     \<lparr>Addr0 = 0xFD000000 OR ucast (drop_bit 16 (globalId AND 0xFFFFFF0000)),
      Addr1 = ucast (push_bit 16 (globalId AND 0x000000FFFF)) OR ucast subnet,
      Addr2 = ucast (drop_bit 32 interfaceId), Addr3 = ucast interfaceId\<rparr>"

definition MakeLLA :: "u64 \<Rightarrow> IPAddress" where
  "MakeLLA interfaceId =
     \<lparr>Addr0 = 0xFE800000, Addr1 = 0, Addr2 = ucast (drop_bit 32 interfaceId), Addr3 = ucast interfaceId\<rparr>"

definition MakeIPv6Multicast :: "u8 \<Rightarrow> u32 \<Rightarrow> IPAddress" where
  "MakeIPv6Multicast scope groupId =
     \<lparr>Addr0 = 0xFF000000 OR push_bit 16 (ucast (scope AND 0xF)), Addr1 = 0, Addr2 = 0, Addr3 = groupId\<rparr>"

section \<open>Weave identifiers in addresses\<close>

definition WeaveFabricIdToIPv6GlobalId :: "u64 \<Rightarrow> u64" where
  "WeaveFabricIdToIPv6GlobalId fabricId = fabricId AND 0xFFFFFFFFFF"

definition IPv6InterfaceIdToWeaveNodeId :: "u64 \<Rightarrow> u64" where
  "IPv6InterfaceIdToWeaveNodeId interfaceId = interfaceId AND NOT 0x0200000000000000"

definition WeaveNodeIdToIPv6InterfaceId :: "u64 \<Rightarrow> u64" where
  "WeaveNodeIdToIPv6InterfaceId nodeId = (if nodeId < 65536 then nodeId else nodeId OR 0x0200000000000000)"

section \<open>Lemmas\<close>

lemma bytes_word_bytes: "bytes_word (word_bytes n @ r) = n"
  unfolding bytes_word_def word_bytes_def by (rule u32_eqI) (auto simp: word_bits)

lemma word_bytes_word: "word_bytes (bytes_word (a # b # c # d # r)) = [a, b, c, d]"
  unfolding bytes_word_def word_bytes_def
  by (simp, intro conjI; rule bit_word_eqI; auto simp: bit_simps dest: bit_imp_le_length)

lemma length_word_bytes [simp]: "length (word_bytes n) = 4"
  by (simp add: word_bytes_def)

lemma MakeULA_is_ULA: "IsIPv6ULA (MakeULA g s i)" "\<not> IsMulticast (MakeULA g s i)"
proof -
  have "Addr0 (MakeULA g s i) AND 0xFF000000 = 0xFD000000"
    by (rule u32_eqI) (auto simp: MakeULA_def word_bits)
  then show "IsIPv6ULA (MakeULA g s i)" "\<not> IsMulticast (MakeULA g s i)" by (simp_all add: IsIPv6ULA_def IsMulticast_def)
qed

lemma MakeULA_GlobalId: "GlobalId (MakeULA g s i) = g AND 0xFFFFFFFFFF"
proof -
  have "GlobalId (MakeULA g s i) = push_bit 16 (ucast (Addr0 (MakeULA g s i) AND 0xFFFFFF)) OR
      drop_bit 16 (ucast (Addr1 (MakeULA g s i)) AND 0xFFFF0000)"
    by (simp add: GlobalId_def MakeULA_is_ULA)
  also have "\<dots> = g AND 0xFFFFFFFFFF"
    by (rule u64_eqI) (auto simp: MakeULA_def word_bits dest: bit_imp_le_length)
  finally show ?thesis .
qed

lemma MakeULA_Subnet: "Subnet (MakeULA g s i) = s"
proof -
  have "Subnet (MakeULA g s i) = ucast (Addr1 (MakeULA g s i))" by (simp add: Subnet_def MakeULA_is_ULA)
  also have "\<dots> = s" by (rule bit_word_eqI) (auto simp: MakeULA_def bit_simps)
  finally show ?thesis .
qed

lemma MakeULA_InterfaceId: "InterfaceId (MakeULA g s i) = i"
proof -
  have "InterfaceId (MakeULA g s i) = push_bit 32 (ucast (Addr2 (MakeULA g s i))) OR ucast (Addr3 (MakeULA g s i))"
    by (simp add: InterfaceId_def MakeULA_is_ULA)
  also have "\<dots> = i" by (rule bit_word_eqI) (auto simp: MakeULA_def bit_simps)
  finally show ?thesis .
qed

lemma node_id_interface_id:
  "IPv6InterfaceIdToWeaveNodeId (WeaveNodeIdToIPv6InterfaceId n) = n AND NOT 0x0200000000000000"
  by (simp add: IPv6InterfaceIdToWeaveNodeId_def WeaveNodeIdToIPv6InterfaceId_def bit.conj_disj_distrib2)

lemma read_write_address: "ReadAddress (WriteAddress a @ rest) = (a, rest)"
  using bytes_word_bytes
  by (simp add: ReadAddress_def WriteAddress_def)

section \<open>Properties\<close>

text \<open>
  A unique local address keeps what it was made from: it is recognised as one, its interface
  and subnet are those given, its global id the low 40 bits of the one given; and an address read back from
  the bytes written for it, or from its socket form, is the same address.
\<close>

theorem ula_roundtrip:
  "IsIPv6ULA (MakeULA g s i) \<and> \<not> IsMulticast (MakeULA g s i) \<and> GlobalId (MakeULA g s i) = g AND 0xFFFFFFFFFF \<and>
   Subnet (MakeULA g s i) = s \<and> InterfaceId (MakeULA g s i) = i \<and>
   ReadAddress (WriteAddress a @ rest) = (a, rest) \<and> FromIPv6 (ToIPv6 a) = a"
proof -
  have "FromIPv6 (ToIPv6 a) = fst (ReadAddress (WriteAddress a @ []))"
    by (simp add: FromIPv6_def ToIPv6_def ReadAddress_def WriteAddress_def bytes_word_def word_bytes_def numeral_eq_Suc)
  then show ?thesis
    using read_write_address [of a rest] read_write_address [of a "[]"]
    by (simp add: MakeULA_is_ULA MakeULA_GlobalId MakeULA_Subnet MakeULA_InterfaceId)
qed

end
