(* ===== verification/Fabric_State.thy ===== *)
theory Fabric_State
  imports App_Keys Replay_Window Counters IP_Address
begin

text \<open>
  Session, peer and key state: \<^verbatim>\<open>WeaveFabricState\<close>, \<^verbatim>\<open>WeaveSessionKey\<close>, \<^verbatim>\<open>WeaveSessionState\<close> and
  \<^verbatim>\<open>WeaveMsgEncryptionKeyCache\<close> of \<^verbatim>\<open>src/src/lib/core/WeaveFabricState.cpp\<close>.  The tables are lists as long as
  the configured arrays; a pointer into a table is an index.  A \<^verbatim>\<open>WeaveSessionState\<close> is a bundle of pointers
  into this state, so it is a record of references, and its operations read and write the state through them.
\<close>

section \<open>Keys\<close>

abbreviation (input) kNodeIdNotSpecified :: u64 where "kNodeIdNotSpecified \<equiv> 0"
abbreviation (input) kAnyNodeId :: u64 where "kAnyNodeId \<equiv> 0xFFFFFFFFFFFFFFFF"
abbreviation (input) kWeaveEncryptionType_None :: u8 where "kWeaveEncryptionType_None \<equiv> 0"
abbreviation (input) kWeaveEncryptionType_AES128CTRSHA1 :: u8 where "kWeaveEncryptionType_AES128CTRSHA1 \<equiv> 1"
abbreviation (input) kWeaveAuthMode_NotSpecified :: u16 where "kWeaveAuthMode_NotSpecified \<equiv> 0"
abbreviation (input) kWeaveAuthMode_Unauthenticated :: u16 where "kWeaveAuthMode_Unauthenticated \<equiv> 1"
abbreviation (input) MAX_END_NODES_PER_SHARED_SESSION :: u8 where "MAX_END_NODES_PER_SHARED_SESSION \<equiv> 10"

record WeaveEncryptionKey =
  DataKey :: "u8 list"
  IntegrityKey :: "u8 list"

definition zero_key :: WeaveEncryptionKey where
  "zero_key = \<lparr>DataKey = replicate 16 0, IntegrityKey = replicate 20 0\<rparr>"

record WeaveMsgEncryptionKey =
  KeyId :: u16
  EncType :: u8
  EncKey :: WeaveEncryptionKey

text \<open>\<open>BoundCon\<close> is the address of a connection; the maximum id and the flags of a session are its \<open>SessionRcv\<close>.\<close>

record WeaveSessionKey =
  NodeId :: u64
  NextMsgId :: u32
  SessionRcv :: RcvState
  BoundCon :: "nat option"
  AuthMode :: u16
  MsgEncKey :: WeaveMsgEncryptionKey
  SharedSession :: bool

definition SessionKey_Init :: "WeaveSessionKey \<Rightarrow> WeaveSessionKey" where
  "SessionKey_Init k =
     \<lparr>NodeId = kNodeIdNotSpecified, NextMsgId = Counter_Init 0, SessionRcv = \<lparr>MaxMsgIdRcvd = 0, RcvFlags = 0\<rparr>, BoundCon = None,
      AuthMode = kWeaveAuthMode_NotSpecified, MsgEncKey = \<lparr>KeyId = 0, EncType = 0, EncKey = zero_key\<rparr>, SharedSession = False\<rparr>"

definition SessionKey_Clear :: "WeaveSessionKey \<Rightarrow> WeaveSessionKey" where
  "SessionKey_Clear k = (let k1 = SessionKey_Init k in k1\<lparr>MsgEncKey := (MsgEncKey k1)\<lparr>EncKey := zero_key\<rparr>\<rparr>)"

definition GroupKeyAuthMode :: "u32 \<Rightarrow> u16" where
  "GroupKeyAuthMode keyId = 0x4000 OR ucast (GetAppGroupLocalNumber keyId)"

section \<open>The key cache\<close>

record KeyCache =
  mKeyCache :: "WeaveMsgEncryptionKey list"
  mMostRecentlyUsedKeyEntries :: "nat list"

definition KeyCache_Clear :: "nat \<Rightarrow> KeyCache \<Rightarrow> KeyCache" where
  "KeyCache_Clear i c = c\<lparr>mKeyCache := (mKeyCache c)[i := \<lparr>KeyId = 0, EncType = kWeaveEncryptionType_None, EncKey = zero_key\<rparr>]\<rparr>"

definition KeyCache_Reset :: "KeyCache \<Rightarrow> KeyCache" where
  "KeyCache_Reset c =
     (let c1 = fold KeyCache_Clear [0..<length (mKeyCache c)] c
      in c1\<lparr>mMostRecentlyUsedKeyEntries := replicate (length (mMostRecentlyUsedKeyEntries c1)) 0\<rparr>)"

text \<open>\<^verbatim>\<open>memmove(&a[1], &a[0], n)\<close> and a store to \<^verbatim>\<open>a[0]\<close>; writing behind the end of the array is \<open>None\<close>.\<close>

definition move_to_front :: "nat \<Rightarrow> 'a \<Rightarrow> 'a list \<Rightarrow> 'a list option" where
  "move_to_front n x xs = (if n < length xs then Some (x # take n xs @ drop (Suc n) xs) else None)"

fun index_of :: "'a \<Rightarrow> 'a list \<Rightarrow> nat" where
  "index_of x [] = 0"
| "index_of x (y # ys) = (if y = x then 0 else Suc (index_of x ys))"

text \<open>The first loop: the entry with the key, else the first free one, else the size of the cache.\<close>

fun FindKeyEntry :: "u16 \<Rightarrow> u8 \<Rightarrow> nat \<Rightarrow> nat \<Rightarrow> nat \<Rightarrow> WeaveMsgEncryptionKey list \<Rightarrow> nat" where
  "FindKeyEntry keyId encType n i ret [] = ret"
| "FindKeyEntry keyId encType n i ret (k # ks) =
     (if KeyId k = keyId \<and> EncType k = encType then i
      else if ret = n \<and> KeyId k = 0 then FindKeyEntry keyId encType n (Suc i) i ks
      else FindKeyEntry keyId encType n (Suc i) ret ks)"

definition FindOrAllocateKeyEntry :: "u16 \<Rightarrow> u8 \<Rightarrow> KeyCache \<Rightarrow> (nat \<times> KeyCache) option" where
  "FindOrAllocateKeyEntry keyId encType c =
     (let n = length (mKeyCache c);
          ret = FindKeyEntry keyId encType n 0 n (mKeyCache c);
          (ret, c1) = (if ret = n
                       then let r = mMostRecentlyUsedKeyEntries c ! (n - 1) in (r, KeyCache_Clear r c)
                       else (ret, c));
          i = index_of ret (mMostRecentlyUsedKeyEntries c1)
      in map_option (\<lambda>mru. (ret, c1\<lparr>mMostRecentlyUsedKeyEntries := mru\<rparr>))
           (move_to_front i ret (mMostRecentlyUsedKeyEntries c1)))"

section \<open>The fabric state\<close>

record SharedSessionEndNode =
  EndNodeId :: u64
  EndSession :: "nat option"

record PeerTable =
  PeerNodeId :: "u64 list"
  UnencRcv :: "RcvState list"
  GroupRcv :: "RcvState list"
  MostRecentlyUsedIndexes :: "nat list"

record 'k WeaveFabricState =
  Initialized :: bool
  FabricId :: u64
  LocalNodeId :: u64
  PairingCode :: "u8 list option"
  DefaultSubnet :: u16
  KeyStore :: "'k GroupKeyStore"
  PeerCount :: nat
  NextUnencUDPMsgId :: u32
  NextUnencTCPMsgId :: u32
  SessionKeys :: "WeaveSessionKey list"
  NextGroupKeyMsgId :: PersistedCounter
  GroupKeyMsgIdFreshWindowStart :: u32
  MsgCounterSyncStatus :: u16
  AppKeyCache :: KeyCache
  PeerStates :: PeerTable
  SharedSessionsNodes :: "SharedSessionEndNode list"

definition no_end_node :: SharedSessionEndNode where
  "no_end_node = \<lparr>EndNodeId = 0, EndSession = None\<rparr>"

definition no_rcv :: RcvState where
  "no_rcv = \<lparr>MaxMsgIdRcvd = 0, RcvFlags = 0\<rparr>"

text \<open>
  \<open>keyStore\<close> is \<open>None\<close> for a null pointer, \<open>rand\<close> the random start of the UDP message ids, \<open>rerr\<close> and
  \<open>werr\<close> what the platform's persisted storage reports.
\<close>

definition FabricState_Init ::
  "'k GroupKeyStore option \<Rightarrow> u32 \<Rightarrow> WEAVE_ERROR \<Rightarrow> WEAVE_ERROR \<Rightarrow> 'k WeaveFabricState \<Rightarrow> WEAVE_ERROR \<times> 'k WeaveFabricState" where
  "FabricState_Init keyStore rand rerr werr f =
     (if Initialized f then (WEAVE_ERROR_INCORRECT_STATE, f)
      else case keyStore of None \<Rightarrow> (WEAVE_ERROR_INVALID_ARGUMENT, f)
      | Some ks \<Rightarrow>
          let f1 = f\<lparr>KeyStore := ks, FabricId := 0, LocalNodeId := 1, PairingCode := None, DefaultSubnet := 1, PeerCount := 0,
                NextUnencUDPMsgId := Counter_Init rand, NextUnencTCPMsgId := Counter_Init 0,
                SessionKeys := map SessionKey_Init (SessionKeys f)\<rparr>;
              (err, ctr) = PersistedCounter_Init rerr werr 0x1000 (NextGroupKeyMsgId f1);
              f2 = f1\<lparr>NextGroupKeyMsgId := ctr\<rparr>
          in if err \<noteq> WEAVE_NO_ERROR then (err, f2)
             else (WEAVE_NO_ERROR, f2\<lparr>GroupKeyMsgIdFreshWindowStart := 0, MsgCounterSyncStatus := 0,
               AppKeyCache := KeyCache_Reset (AppKeyCache f2),
               PeerStates := \<lparr>PeerNodeId = map (\<lambda>_. 0) (PeerNodeId (PeerStates f2)), UnencRcv = map (\<lambda>_. no_rcv) (UnencRcv (PeerStates f2)),
                 GroupRcv = map (\<lambda>_. no_rcv) (GroupRcv (PeerStates f2)),
                 MostRecentlyUsedIndexes = map (\<lambda>_. 0) (MostRecentlyUsedIndexes (PeerStates f2))\<rparr>,
               SharedSessionsNodes := map (\<lambda>_. no_end_node) (SharedSessionsNodes f2), Initialized := True\<rparr>))"

definition FabricState_Shutdown :: "'k WeaveFabricState \<Rightarrow> WEAVE_ERROR \<times> 'k WeaveFabricState" where
  "FabricState_Shutdown f = (WEAVE_NO_ERROR, f\<lparr>Initialized := False, AppKeyCache := KeyCache_Reset (AppKeyCache f)\<rparr>)"

section \<open>Sessions\<close>

definition FindSharedSessionEndNode :: "u64 \<Rightarrow> nat \<Rightarrow> 'k WeaveFabricState \<Rightarrow> bool" where
  "FindSharedSessionEndNode endNodeId sessionKey f =
     list_ex (\<lambda>e. EndSession e = Some sessionKey \<and> EndNodeId e = endNodeId) (SharedSessionsNodes f)"

text \<open>The loop of \<^verbatim>\<open>FindSessionKey\<close>: the matching record, and the first free one seen before it.\<close>

fun ScanSessionKeys ::
  "'k WeaveFabricState \<Rightarrow> u16 \<Rightarrow> u64 \<Rightarrow> nat \<Rightarrow> nat option \<Rightarrow> WeaveSessionKey list \<Rightarrow> nat option \<times> nat option" where
  "ScanSessionKeys f keyId peerNodeId i freeRec [] = (None, freeRec)"
| "ScanSessionKeys f keyId peerNodeId i freeRec (k # ks) =
     (let freeRec' = (if KeyId (MsgEncKey k) = 0 \<and> freeRec = None then Some i else freeRec)
      in if KeyId (MsgEncKey k) = keyId \<and>
            (NodeId k = peerNodeId \<or> (SharedSession k \<and> FindSharedSessionEndNode peerNodeId i f))
         then (Some i, freeRec')
         else ScanSessionKeys f keyId peerNodeId (Suc i) freeRec' ks)"

definition FindSessionKey :: "u16 \<Rightarrow> u64 \<Rightarrow> bool \<Rightarrow> 'k WeaveFabricState \<Rightarrow> WEAVE_ERROR \<times> nat" where
  "FindSessionKey keyId peerNodeId create f =
     (if \<not> IsSessionKey (ucast keyId) then (WEAVE_ERROR_WRONG_KEY_TYPE, 0)
      else if peerNodeId = kNodeIdNotSpecified \<or> peerNodeId = kAnyNodeId then (WEAVE_ERROR_INVALID_ARGUMENT, 0)
      else case ScanSessionKeys f keyId peerNodeId 0 None (SessionKeys f) of
        (Some i, _) \<Rightarrow> (WEAVE_NO_ERROR, i)
      | (None, freeRec) \<Rightarrow>
          if \<not> create then (WEAVE_ERROR_KEY_NOT_FOUND, 0)
          else case freeRec of None \<Rightarrow> (WEAVE_ERROR_TOO_MANY_KEYS, 0) | Some i \<Rightarrow> (WEAVE_NO_ERROR, i))"

definition update_session :: "nat \<Rightarrow> (WeaveSessionKey \<Rightarrow> WeaveSessionKey) \<Rightarrow> 'k WeaveFabricState \<Rightarrow> 'k WeaveFabricState" where
  "update_session i g f = f\<lparr>SessionKeys := (SessionKeys f)[i := g (SessionKeys f ! i)]\<rparr>"

text \<open>
  \<^verbatim>\<open>AllocSessionKey\<close> draws random key ids until it finds one that is not in use; \<open>rands\<close> are the draws, and
  running out of them is \<open>None\<close>.  The chosen id is returned.
\<close>

definition TakeSessionKey :: "nat \<Rightarrow> u16 \<Rightarrow> u64 \<Rightarrow> nat option \<Rightarrow> bool \<Rightarrow> 'k WeaveFabricState \<Rightarrow> 'k WeaveFabricState" where
  "TakeSessionKey i keyId peerNodeId boundCon sharedSession f =
     update_session i (\<lambda>k. k\<lparr>MsgEncKey := (MsgEncKey k)\<lparr>KeyId := keyId, EncType := kWeaveEncryptionType_None\<rparr>, NodeId := peerNodeId,
       NextMsgId := Counter_Init 0xFFFFFFFF, SessionRcv := \<lparr>MaxMsgIdRcvd = 0xFFFFFFFF, RcvFlags = 0\<rparr>, BoundCon := boundCon,
       SharedSession := sharedSession\<rparr>) f"

fun AllocRandomKey ::
  "u16 list \<Rightarrow> u64 \<Rightarrow> nat option \<Rightarrow> bool \<Rightarrow> 'k WeaveFabricState \<Rightarrow> (WEAVE_ERROR \<times> u16 \<times> 'k WeaveFabricState) option" where
  "AllocRandomKey [] peerNodeId boundCon sharedSession f = None"
| "AllocRandomKey (r # rs) peerNodeId boundCon sharedSession f =
     (let keyId = MakeSessionKeyId r in
      case FindSessionKey keyId peerNodeId True f of (err, i) \<Rightarrow>
        if err \<noteq> WEAVE_NO_ERROR then Some (err, keyId, f)
        else if KeyId (MsgEncKey (SessionKeys f ! i)) = 0
        then Some (WEAVE_NO_ERROR, keyId, TakeSessionKey i keyId peerNodeId boundCon sharedSession f)
        else AllocRandomKey rs peerNodeId boundCon sharedSession f)"

definition AllocSessionKey ::
  "u16 list \<Rightarrow> u64 \<Rightarrow> nat option \<Rightarrow> u16 \<Rightarrow> bool \<Rightarrow> 'k WeaveFabricState \<Rightarrow> (WEAVE_ERROR \<times> u16 \<times> 'k WeaveFabricState) option" where
  "AllocSessionKey rands peerNodeId boundCon keyId sharedSession f =
     (if keyId = 0 then AllocRandomKey rands peerNodeId boundCon sharedSession f
      else case FindSessionKey keyId peerNodeId True f of (err, i) \<Rightarrow>
        if err \<noteq> WEAVE_NO_ERROR then Some (err, keyId, f)
        else if KeyId (MsgEncKey (SessionKeys f ! i)) = 0
        then Some (WEAVE_NO_ERROR, keyId, TakeSessionKey i keyId peerNodeId boundCon sharedSession f)
        else Some (WEAVE_ERROR_DUPLICATE_KEY_ID, keyId, f))"

definition SetSessionKey ::
  "u16 \<Rightarrow> u64 \<Rightarrow> u8 \<Rightarrow> u16 \<Rightarrow> WeaveEncryptionKey \<Rightarrow> 'k WeaveFabricState \<Rightarrow> WEAVE_ERROR \<times> 'k WeaveFabricState" where
  "SetSessionKey keyId peerNodeId encType authMode encKey f =
     (case FindSessionKey keyId peerNodeId False f of (err, i) \<Rightarrow>
        if err \<noteq> WEAVE_NO_ERROR then (err, f)
        else (WEAVE_NO_ERROR, update_session i (\<lambda>k. k\<lparr>MsgEncKey := (MsgEncKey k)\<lparr>EncType := encType, EncKey := encKey\<rparr>,
          NextMsgId := Counter_Init 0, SessionRcv := \<lparr>MaxMsgIdRcvd = 0, RcvFlags = 0\<rparr>, AuthMode := authMode\<rparr>) f))"

definition RemoveSessionKey :: "u16 \<Rightarrow> u64 \<Rightarrow> 'k WeaveFabricState \<Rightarrow> WEAVE_ERROR \<times> 'k WeaveFabricState" where
  "RemoveSessionKey keyId peerNodeId f =
     (case FindSessionKey keyId peerNodeId False f of (err, i) \<Rightarrow>
        if err \<noteq> WEAVE_NO_ERROR then (err, f)
        else
          let f1 = (if SharedSession (SessionKeys f ! i)
                    then f\<lparr>SharedSessionsNodes := map (\<lambda>e. if EndSession e = Some i then no_end_node else e) (SharedSessionsNodes f)\<rparr>
                    else f)
          in (WEAVE_NO_ERROR, update_session i SessionKey_Clear f1))"

definition GetSessionKey :: "u16 \<Rightarrow> u64 \<Rightarrow> 'k WeaveFabricState \<Rightarrow> WEAVE_ERROR \<times> nat" where
  "GetSessionKey keyId peerNodeId f = FindSessionKey keyId peerNodeId False f"

definition HasSharedSession :: "u64 \<Rightarrow> u16 \<Rightarrow> u8 \<Rightarrow> 'k WeaveFabricState \<Rightarrow> u16 option" where
  "HasSharedSession terminatingNodeId authMode encType f =
     map_option (\<lambda>k. KeyId (MsgEncKey k))
       (List.find (\<lambda>k. NodeId k = terminatingNodeId \<and> AuthMode k = authMode \<and> EncType (MsgEncKey k) = encType \<and> SharedSession k)
         (SessionKeys f))"

definition IsSharedSession :: "u16 \<Rightarrow> u64 \<Rightarrow> 'k WeaveFabricState \<Rightarrow> bool" where
  "IsSharedSession keyId peerNodeId f =
     (case FindSessionKey keyId peerNodeId False f of (err, i) \<Rightarrow>
        if err \<noteq> WEAVE_NO_ERROR then False else SharedSession (SessionKeys f ! i))"

text \<open>
  The loop of \<^verbatim>\<open>AddSharedSessionEndNode\<close>: \<open>None\<close> if the entry exists already, else the first free entry
  and the number of end nodes of the session.
\<close>

fun ScanEndNodes :: "nat \<Rightarrow> u64 \<Rightarrow> nat \<Rightarrow> nat option \<Rightarrow> u8 \<Rightarrow> SharedSessionEndNode list \<Rightarrow> (nat option \<times> u8) option" where
  "ScanEndNodes sessionKey endNodeId j freeEndNode endNodeCount [] = Some (freeEndNode, endNodeCount)"
| "ScanEndNodes sessionKey endNodeId j freeEndNode endNodeCount (e # es) =
     (if EndSession e = Some sessionKey
      then if EndNodeId e = endNodeId then None
           else ScanEndNodes sessionKey endNodeId (Suc j) freeEndNode (endNodeCount + 1) es
      else if EndNodeId e = kNodeIdNotSpecified \<and> freeEndNode = None
      then ScanEndNodes sessionKey endNodeId (Suc j) (Some j) endNodeCount es
      else ScanEndNodes sessionKey endNodeId (Suc j) freeEndNode endNodeCount es)"

definition AddSharedSessionEndNode :: "u64 \<Rightarrow> u64 \<Rightarrow> u16 \<Rightarrow> 'k WeaveFabricState \<Rightarrow> WEAVE_ERROR \<times> 'k WeaveFabricState" where
  "AddSharedSessionEndNode endNodeId terminatingNodeId keyId f =
     (case FindSessionKey keyId terminatingNodeId False f of (err, i) \<Rightarrow>
        if err \<noteq> WEAVE_NO_ERROR then (err, f)
        else if endNodeId = terminatingNodeId then (WEAVE_NO_ERROR, f)
        else case ScanEndNodes i endNodeId 0 None 0 (SharedSessionsNodes f) of
          None \<Rightarrow> (WEAVE_NO_ERROR, f)
        | Some (freeEndNode, endNodeCount) \<Rightarrow>
            (case freeEndNode of
               Some j \<Rightarrow>
                 if endNodeCount \<le> MAX_END_NODES_PER_SHARED_SESSION
                 then (WEAVE_NO_ERROR, f\<lparr>SharedSessionsNodes := (SharedSessionsNodes f)[j := \<lparr>EndNodeId = endNodeId, EndSession = Some i\<rparr>]\<rparr>)
                 else (WEAVE_ERROR_TOO_MANY_SHARED_SESSION_END_NODES, f)
             | None \<Rightarrow> (WEAVE_ERROR_TOO_MANY_SHARED_SESSION_END_NODES, f)))"

definition GetSharedSessionEndNodeIds :: "nat \<Rightarrow> nat \<Rightarrow> 'k WeaveFabricState \<Rightarrow> WEAVE_ERROR \<times> u64 list" where
  "GetSharedSessionEndNodeIds sessionKey endNodeIdsMaxCount f =
     (let ids = map EndNodeId (filter (\<lambda>e. EndSession e = Some sessionKey) (SharedSessionsNodes f))
      in if length ids \<le> endNodeIdsMaxCount then (WEAVE_NO_ERROR, ids)
         else (WEAVE_ERROR_BUFFER_TOO_SMALL, take endNodeIdsMaxCount ids))"

definition HandleConnectionClosed :: "nat \<Rightarrow> 'k WeaveFabricState \<Rightarrow> 'k WeaveFabricState" where
  "HandleConnectionClosed con f = f\<lparr>SessionKeys :=
     map (\<lambda>k. if KeyId (MsgEncKey k) \<noteq> 0 \<and> BoundCon k = Some con then SessionKey_Clear k else k) (SessionKeys f)\<rparr>"

section \<open>Peers\<close>

fun ScanPeers :: "u64 \<Rightarrow> u64 list \<Rightarrow> nat \<Rightarrow> nat list \<Rightarrow> nat option" where
  "ScanPeers peerNodeId ids i [] = None"
| "ScanPeers peerNodeId ids i (p # ps) =
     (if ids ! p = peerNodeId then Some i else ScanPeers peerNodeId ids (Suc i) ps)"

text \<open>From the end of the list: the least recently used entry whose group counter is not synchronized, else the last.\<close>

definition ChooseVictim :: "PeerTable \<Rightarrow> nat" where
  "ChooseVictim p =
     (let n = length (MostRecentlyUsedIndexes p);
          unsync = (\<lambda>j. RcvFlags (GroupRcv p ! (MostRecentlyUsedIndexes p ! j)) AND kReceiveFlags_MessageIdSynchronized = 0)
      in case List.find unsync (rev [0..<n]) of None \<Rightarrow> n - 1 | Some j \<Rightarrow> j)"

definition FindOrAllocPeerEntry :: "u64 \<Rightarrow> bool \<Rightarrow> 'k WeaveFabricState \<Rightarrow> nat option \<times> 'k WeaveFabricState" where
  "FindOrAllocPeerEntry peerNodeId allocEntry f =
     (let p = PeerStates f; mru = MostRecentlyUsedIndexes p;
          top = (\<lambda>i ret q. q\<lparr>MostRecentlyUsedIndexes := ret # take i mru @ drop (Suc i) mru\<rparr>)
      in case ScanPeers peerNodeId (PeerNodeId p) 0 (take (PeerCount f) mru) of
           Some i \<Rightarrow> (Some (mru ! i), f\<lparr>PeerStates := top i (mru ! i) p\<rparr>)
         | None \<Rightarrow>
             if \<not> allocEntry then (None, f)
             else
               let (i, ret, f1) = (if PeerCount f = length mru
                                   then let i = ChooseVictim p in (i, mru ! i, f)
                                   else (PeerCount f, PeerCount f, f\<lparr>PeerCount := PeerCount f + 1\<rparr>));
                   p1 = p\<lparr>PeerNodeId := (PeerNodeId p)[ret := peerNodeId], UnencRcv := (UnencRcv p)[ret := no_rcv],
                         GroupRcv := (GroupRcv p)[ret := no_rcv]\<rparr>
               in (Some ret, f1\<lparr>PeerStates := top i ret p1\<rparr>))"

section \<open>Session states\<close>

datatype KeyRef = SessionKeyRef nat | CacheKeyRef nat
datatype CounterRef = UnencUDP | UnencTCP | SessionCounter nat | GroupCounter
datatype RcvRef = NoRcv | PeerUnenc nat | PeerGroup nat | SessionWindow nat

record WeaveSessionState =
  SS_MsgEncKey :: "KeyRef option"
  SS_AuthMode :: u16
  SS_NextMsgId :: CounterRef
  SS_Rcv :: RcvRef

definition SessionState_new :: WeaveSessionState where
  "SessionState_new = \<lparr>SS_MsgEncKey = None, SS_AuthMode = kWeaveAuthMode_NotSpecified, SS_NextMsgId = UnencTCP, SS_Rcv = NoRcv\<rparr>"

definition get_key :: "WeaveSessionState \<Rightarrow> 'k WeaveFabricState \<Rightarrow> WeaveMsgEncryptionKey option" where
  "get_key ss f = (case SS_MsgEncKey ss of
       None \<Rightarrow> None
     | Some (SessionKeyRef i) \<Rightarrow> Some (MsgEncKey (SessionKeys f ! i))
     | Some (CacheKeyRef i) \<Rightarrow> Some (mKeyCache (AppKeyCache f) ! i))"

definition get_rcv :: "WeaveSessionState \<Rightarrow> 'k WeaveFabricState \<Rightarrow> RcvState option" where
  "get_rcv ss f = (case SS_Rcv ss of
       NoRcv \<Rightarrow> None
     | PeerUnenc i \<Rightarrow> Some (UnencRcv (PeerStates f) ! i)
     | PeerGroup i \<Rightarrow> Some (GroupRcv (PeerStates f) ! i)
     | SessionWindow i \<Rightarrow> Some (SessionRcv (SessionKeys f ! i)))"

definition put_rcv :: "WeaveSessionState \<Rightarrow> RcvState option \<Rightarrow> 'k WeaveFabricState \<Rightarrow> 'k WeaveFabricState" where
  "put_rcv ss r f = (case r of
       None \<Rightarrow> f
     | Some w \<Rightarrow> (case SS_Rcv ss of
         NoRcv \<Rightarrow> f
       | PeerUnenc i \<Rightarrow> f\<lparr>PeerStates := (PeerStates f)\<lparr>UnencRcv := (UnencRcv (PeerStates f))[i := w]\<rparr>\<rparr>
       | PeerGroup i \<Rightarrow> f\<lparr>PeerStates := (PeerStates f)\<lparr>GroupRcv := (GroupRcv (PeerStates f))[i := w]\<rparr>\<rparr>
       | SessionWindow i \<Rightarrow> update_session i (\<lambda>k. k\<lparr>SessionRcv := w\<rparr>) f))"

text \<open>\<open>werr\<close> is what the persisted storage would report if the group counter has to be written.\<close>

definition NewMessageId :: "WEAVE_ERROR \<Rightarrow> WeaveSessionState \<Rightarrow> 'k WeaveFabricState \<Rightarrow> u32 \<times> 'k WeaveFabricState" where
  "NewMessageId werr ss f = (case SS_NextMsgId ss of
       UnencUDP \<Rightarrow> (NextUnencUDPMsgId f, f\<lparr>NextUnencUDPMsgId := Counter_Advance (NextUnencUDPMsgId f)\<rparr>)
     | UnencTCP \<Rightarrow> (NextUnencTCPMsgId f, f\<lparr>NextUnencTCPMsgId := Counter_Advance (NextUnencTCPMsgId f)\<rparr>)
     | SessionCounter i \<Rightarrow>
         (NextMsgId (SessionKeys f ! i), update_session i (\<lambda>k. k\<lparr>NextMsgId := Counter_Advance (NextMsgId k)\<rparr>) f)
     | GroupCounter \<Rightarrow>
         (mCounterValue (NextGroupKeyMsgId f), f\<lparr>NextGroupKeyMsgId := snd (PersistedCounter_Advance werr (NextGroupKeyMsgId f))\<rparr>))"

definition SessionState_MessageIdNotSynchronized :: "WeaveSessionState \<Rightarrow> 'k WeaveFabricState \<Rightarrow> bool" where
  "SessionState_MessageIdNotSynchronized ss f = MessageIdNotSynchronized (get_rcv ss f)"

definition SessionState_IsDuplicateMessage ::
  "WeaveSessionState \<Rightarrow> u32 \<Rightarrow> 'k WeaveFabricState \<Rightarrow> (bool \<times> 'k WeaveFabricState) option" where
  "SessionState_IsDuplicateMessage ss msgId f =
     map_option (\<lambda>(dup, r). (dup, put_rcv ss r f))
       (IsDuplicateMessage (map_option KeyId (get_key ss f)) msgId (get_rcv ss f))"

definition kWeaveMsgEncAppKeyDiversifier :: "u8 list" where
  "kWeaveMsgEncAppKeyDiversifier = [0xB1, 0x1D, 0xAE, 0x5B]"

definition DeriveMsgEncAppKey ::
  "('k, 'z) KeyStoreOps_scheme \<Rightarrow> hash \<Rightarrow> u32 \<Rightarrow> u8 \<Rightarrow> WeaveMsgEncryptionKey \<Rightarrow> 'k GroupKeyStore
    \<Rightarrow> WEAVE_ERROR \<times> WeaveMsgEncryptionKey \<times> 'k GroupKeyStore" where
  "DeriveMsgEncAppKey ops H keyId encType appKey s =
     (if encType \<noteq> kWeaveEncryptionType_AES128CTRSHA1 then (WEAVE_ERROR_UNSUPPORTED_ENCRYPTION_TYPE, appKey, s)
      else case DeriveApplicationKey ops H keyId [] (kWeaveMsgEncAppKeyDiversifier @ [encType]) 36 36 s of
        (err, (keyId', keyData, appGroupGlobalId), s1) \<Rightarrow>
          if err \<noteq> WEAVE_NO_ERROR then (err, appKey, s1)
          else (WEAVE_NO_ERROR, \<lparr>KeyId = ucast keyId', EncType = encType,
                  EncKey = \<lparr>DataKey = take 16 keyData, IntegrityKey = take 20 (drop 16 keyData)\<rparr>\<rparr>, s1))"

definition FindMsgEncAppKey ::
  "('k, 'z) KeyStoreOps_scheme \<Rightarrow> hash \<Rightarrow> u16 \<Rightarrow> u8 \<Rightarrow> 'k WeaveFabricState \<Rightarrow> WEAVE_ERROR \<times> nat \<times> 'k WeaveFabricState" where
  "FindMsgEncAppKey ops H keyId encType f =
     (case FindOrAllocateKeyEntry keyId encType (AppKeyCache f) of
        None \<Rightarrow> (UNDEFINED_BEHAVIOR, 0, f)
      | Some (i, c) \<Rightarrow>
          let f1 = f\<lparr>AppKeyCache := c\<rparr> in
          if KeyId (mKeyCache c ! i) = 0
          then case DeriveMsgEncAppKey ops H (ucast keyId) encType (mKeyCache c ! i) (KeyStore f1) of (err, k, s) \<Rightarrow>
            (err, i, f1\<lparr>AppKeyCache := c\<lparr>mKeyCache := (mKeyCache c)[i := k]\<rparr>, KeyStore := s\<rparr>)
          else (WEAVE_NO_ERROR, i, f1))"

definition GetSessionState ::
  "('k, 'z) KeyStoreOps_scheme \<Rightarrow> hash \<Rightarrow> u64 \<Rightarrow> u16 \<Rightarrow> u8 \<Rightarrow> nat option \<Rightarrow> 'k WeaveFabricState
    \<Rightarrow> WEAVE_ERROR \<times> WeaveSessionState \<times> 'k WeaveFabricState" where
  "GetSessionState ops H remoteNodeId keyId encType con f =
     (let t = GetKeyType (ucast keyId) in
      if t = kType_None
      then
        if keyId \<noteq> 0 then (WEAVE_ERROR_INVALID_KEY_ID, SessionState_new, f)
        else if encType \<noteq> kWeaveEncryptionType_None then (WEAVE_ERROR_WRONG_ENCRYPTION_TYPE, SessionState_new, f)
        else if con = None
        then case FindOrAllocPeerEntry remoteNodeId True f of (peerIndex, f1) \<Rightarrow>
          (WEAVE_NO_ERROR, \<lparr>SS_MsgEncKey = None, SS_AuthMode = kWeaveAuthMode_Unauthenticated, SS_NextMsgId = UnencUDP,
             SS_Rcv = PeerUnenc (the peerIndex)\<rparr>, f1)
        else (WEAVE_NO_ERROR, \<lparr>SS_MsgEncKey = None, SS_AuthMode = kWeaveAuthMode_Unauthenticated, SS_NextMsgId = UnencTCP,
                SS_Rcv = NoRcv\<rparr>, f)
      else if t = kType_Session
      then case FindSessionKey keyId remoteNodeId False f of (err, i) \<Rightarrow>
        if err \<noteq> WEAVE_NO_ERROR then (err, SessionState_new, f)
        else
          let k = SessionKeys f ! i in
          if EncType (MsgEncKey k) \<noteq> encType
          then ((if EncType (MsgEncKey k) = kWeaveEncryptionType_None then WEAVE_ERROR_KEY_NOT_FOUND
                 else WEAVE_ERROR_WRONG_ENCRYPTION_TYPE), SessionState_new, f)
          else if BoundCon k \<noteq> None \<and> BoundCon k \<noteq> con then (WEAVE_ERROR_INVALID_USE_OF_SESSION_KEY, SessionState_new, f)
          else (WEAVE_NO_ERROR, \<lparr>SS_MsgEncKey = Some (SessionKeyRef i), SS_AuthMode = AuthMode k, SS_NextMsgId = SessionCounter i,
                  SS_Rcv = SessionWindow i\<rparr>, f)
      else if t = kType_AppStaticKey \<or> t = kType_AppRotatingKey
      then case FindMsgEncAppKey ops H keyId encType f of (err, i, f1) \<Rightarrow>
        if err \<noteq> WEAVE_NO_ERROR then (err, SessionState_new, f1)
        else case FindOrAllocPeerEntry remoteNodeId False f1 of (peerIndex, f2) \<Rightarrow>
          (WEAVE_NO_ERROR, \<lparr>SS_MsgEncKey = Some (CacheKeyRef i), SS_AuthMode = GroupKeyAuthMode (ucast keyId), SS_NextMsgId = GroupCounter,
             SS_Rcv = (case peerIndex of Some j \<Rightarrow> PeerGroup j | None \<Rightarrow> NoRcv)\<rparr>, f2)
      else (WEAVE_ERROR_UNKNOWN_KEY_TYPE, SessionState_new, f))"

section \<open>Addresses\<close>

definition SelectNodeAddressInSubnet :: "u64 \<Rightarrow> u16 \<Rightarrow> 'k WeaveFabricState \<Rightarrow> IPAddress" where
  "SelectNodeAddressInSubnet nodeId subnetId f =
     (if nodeId = kAnyNodeId then MakeIPv6Multicast 2 1
      else MakeULA (FabricId f) subnetId (WeaveNodeIdToIPv6InterfaceId nodeId))"

definition SelectNodeAddress :: "u64 \<Rightarrow> 'k WeaveFabricState \<Rightarrow> IPAddress" where
  "SelectNodeAddress nodeId f = SelectNodeAddressInSubnet nodeId (DefaultSubnet f) f"

definition IsFabricAddress :: "IPAddress \<Rightarrow> 'k WeaveFabricState \<Rightarrow> bool" where
  "IsFabricAddress addr f =
     (IsIPv6ULA addr \<and> FabricId f \<noteq> 0 \<and> GlobalId addr = WeaveFabricIdToIPv6GlobalId (FabricId f))"

section \<open>Message counter synchronization\<close>

abbreviation (input) kFlag_ReqInProgress :: u16 where "kFlag_ReqInProgress \<equiv> 0x8000"
abbreviation (input) kFlag_ReqSentThisPeriod :: u16 where "kFlag_ReqSentThisPeriod \<equiv> 0x4000"
abbreviation (input) kMask_FreshWindowWidth :: u16 where "kMask_FreshWindowWidth \<equiv> 0x3FFF"

text \<open>The effects on other parts: the timer, the activity signal, the pending messages of the exchange manager.\<close>

datatype SyncAction = StartMsgCounterSyncTimer | SignalMessageLayerActivityChanged | ClearMsgCounterSyncReq u64

definition IsMsgCounterSyncReqInProgress :: "'k WeaveFabricState \<Rightarrow> bool" where
  "IsMsgCounterSyncReqInProgress f = (MsgCounterSyncStatus f AND kFlag_ReqInProgress \<noteq> 0)"

definition OnMsgCounterSyncRespRcvd :: "u64 \<Rightarrow> u32 \<Rightarrow> u32 \<Rightarrow> 'k WeaveFabricState \<Rightarrow> SyncAction list \<times> 'k WeaveFabricState" where
  "OnMsgCounterSyncRespRcvd peerNodeId peerMsgId requestorMsgCounter f =
     (if IsMsgCounterSyncReqInProgress f \<and> requestorMsgCounter \<ge> GroupKeyMsgIdFreshWindowStart f \<and>
         requestorMsgCounter < mCounterValue (NextGroupKeyMsgId f)
      then case FindOrAllocPeerEntry peerNodeId True f of (peerIndex, f1) \<Rightarrow>
        let i = the peerIndex; p = PeerStates f1 in
        if RcvFlags (GroupRcv p ! i) AND kReceiveFlags_MessageIdSynchronized = 0
        then ([ClearMsgCounterSyncReq peerNodeId],
              f1\<lparr>PeerStates := p\<lparr>GroupRcv := (GroupRcv p)[i :=
                \<lparr>MaxMsgIdRcvd = peerMsgId, RcvFlags = kReceiveFlags_MessageIdSynchronized\<rparr>]\<rparr>\<rparr>)
        else ([], f1)
      else ([], f))"

definition OnMsgCounterSyncReqSent :: "u32 \<Rightarrow> 'k WeaveFabricState \<Rightarrow> SyncAction list \<times> 'k WeaveFabricState" where
  "OnMsgCounterSyncReqSent messageId f =
     (let f1 = f\<lparr>MsgCounterSyncStatus := MsgCounterSyncStatus f OR kFlag_ReqSentThisPeriod\<rparr> in
      if \<not> IsMsgCounterSyncReqInProgress f1
      then ([StartMsgCounterSyncTimer, SignalMessageLayerActivityChanged],
            f1\<lparr>MsgCounterSyncStatus := MsgCounterSyncStatus f1 OR kFlag_ReqInProgress, GroupKeyMsgIdFreshWindowStart := messageId\<rparr>)
      else ([], f1))"

definition OnMsgCounterSyncRespTimeout :: "'k WeaveFabricState \<Rightarrow> SyncAction list \<times> 'k WeaveFabricState" where
  "OnMsgCounterSyncRespTimeout f =
     (if MsgCounterSyncStatus f AND kFlag_ReqSentThisPeriod \<noteq> 0
      then
        let start = GroupKeyMsgIdFreshWindowStart f + ucast (MsgCounterSyncStatus f AND kMask_FreshWindowWidth);
            width = mCounterValue (NextGroupKeyMsgId f) - start;
            (start, width) = (if width > 0x3FFF then (start + (width - 0x3FFF), 0x3FFF) else (start, width));
            status = MsgCounterSyncStatus f OR (ucast width AND kMask_FreshWindowWidth);
            status = status AND NOT kFlag_ReqSentThisPeriod
        in ([StartMsgCounterSyncTimer], f\<lparr>GroupKeyMsgIdFreshWindowStart := start, MsgCounterSyncStatus := status\<rparr>)
      else ([SignalMessageLayerActivityChanged], f\<lparr>MsgCounterSyncStatus := 0\<rparr>))"

section \<open>Application groups\<close>

definition GetMsgEncKeyIdForAppGroup ::
  "('k, 'z) KeyStoreOps_scheme \<Rightarrow> u32 \<Rightarrow> u32 \<Rightarrow> bool \<Rightarrow> 'k WeaveFabricState \<Rightarrow> WEAVE_ERROR \<times> u32" where
  "GetMsgEncKeyIdForAppGroup ops appGroupGlobalId rootKeyId useRotatingKey f =
     (case LookupAppGroupMasterKeyId ops appGroupGlobalId (KeyStore f) of (err, masterKeyId) \<Rightarrow>
        if err \<noteq> WEAVE_NO_ERROR then (err, 0)
        else (WEAVE_NO_ERROR, if useRotatingKey then MakeAppRotatingKeyId rootKeyId 0 masterKeyId True
                              else MakeAppStaticKeyId rootKeyId masterKeyId))"

definition CheckMsgEncForAppGroup ::
  "('k, 'z) KeyStoreOps_scheme \<Rightarrow> u16 \<Rightarrow> u32 \<Rightarrow> u32 \<Rightarrow> bool \<Rightarrow> 'k WeaveFabricState \<Rightarrow> WEAVE_ERROR" where
  "CheckMsgEncForAppGroup ops msgKeyId appGroupGlobalId rootKeyId requireRotatingKey f =
     (let keyId = ucast msgKeyId in
      if \<not> IsAppGroupKey keyId then WEAVE_ERROR_WRONG_KEY_TYPE
      else if GetRootKeyId keyId \<noteq> rootKeyId then WEAVE_ERROR_WRONG_KEY_TYPE
      else if requireRotatingKey \<and> \<not> IsAppRotatingKey keyId then WEAVE_ERROR_WRONG_KEY_TYPE
      else case LookupAppGroupMasterKeyId ops appGroupGlobalId (KeyStore f) of (err, expectedMasterKeyId) \<Rightarrow>
        if err \<noteq> WEAVE_NO_ERROR then err
        else if GetAppGroupMasterKeyId keyId \<noteq> expectedMasterKeyId then WEAVE_ERROR_WRONG_KEY_TYPE
        else WEAVE_NO_ERROR)"

definition GetPassword :: "u8 \<Rightarrow> 'k WeaveFabricState \<Rightarrow> WEAVE_ERROR \<times> u8 list" where
  "GetPassword pwSrc f =
     (if pwSrc = 1
      then case PairingCode f of None \<Rightarrow> (WEAVE_ERROR_INVALID_ARGUMENT, []) | Some ps \<Rightarrow> (WEAVE_NO_ERROR, ps)
      else (WEAVE_ERROR_INVALID_ARGUMENT, []))"

end
