(* ===== verification/Fabric_Tables.thy ===== *)
theory Fabric_Tables
  imports Fabric_State
begin

text \<open>
  Lemmas on the tables of the fabric state: the peer table with its most-recently-used order, the session
  keys and shared sessions, the key cache, and addresses.
\<close>

section \<open>The peer table\<close>

text \<open>
  The invariant: the arrays have the configured size, the first \<open>PeerCount\<close> elements of the order are the
  entries in use, each once, and no node has two entries.
\<close>

definition peers_ok :: "nat \<Rightarrow> 'k WeaveFabricState \<Rightarrow> bool" where
  "peers_ok n f \<longleftrightarrow> (let p = PeerStates f; used = take (PeerCount f) (MostRecentlyUsedIndexes p) in
     length (PeerNodeId p) = n \<and> length (UnencRcv p) = n \<and> length (GroupRcv p) = n \<and> length (MostRecentlyUsedIndexes p) = n \<and>
     0 < n \<and> PeerCount f \<le> n \<and> distinct used \<and> set used = {0..<PeerCount f} \<and> distinct (take (PeerCount f) (PeerNodeId p)))"

lemma ScanPeers_shift: "ScanPeers x ids (Suc i) ps = map_option Suc (ScanPeers x ids i ps)"
  by (induction ps arbitrary: i) auto

lemma ScanPeers_Some: "ScanPeers x ids 0 ps = Some j \<Longrightarrow> j < length ps \<and> ids ! (ps ! j) = x"
  by (induction ps arbitrary: j) (auto split: if_splits simp: ScanPeers_shift)

lemma ScanPeers_None: "ScanPeers x ids i ps = None \<longleftrightarrow> (\<forall>p \<in> set ps. ids ! p \<noteq> x)"
  by (induction ps arbitrary: i) auto

lemma ChooseVictim_less:
  assumes "0 < length (MostRecentlyUsedIndexes p)"
  shows "ChooseVictim p < length (MostRecentlyUsedIndexes p)"
proof -
  have "x \<in> set xs" if "List.find P xs = Some x" for P and xs :: "nat list" and x
    using that by (induction xs) (auto split: if_splits)
  from this [where xs = "rev [0..<length (MostRecentlyUsedIndexes p)]"] assms
  show ?thesis by (auto simp: ChooseVictim_def Let_def split: option.splits)
qed

text \<open>Moving one element to the front of a list keeps its elements, each once.\<close>

definition front :: "nat \<Rightarrow> 'a list \<Rightarrow> 'a list" where
  "front i xs = xs ! i # take i xs @ drop (Suc i) xs"

lemma front_elems:
  assumes "i < length xs"
  shows "set (front i xs) = set xs" "distinct (front i xs) = distinct xs" "length (front i xs) = length xs"
proof -
  have e: "xs = take i xs @ xs ! i # drop (Suc i) xs" using assms by (rule id_take_nth_drop)
  show "set (front i xs) = set xs" unfolding front_def by (subst (4) e) auto
  show "distinct (front i xs) = distinct xs" unfolding front_def by (subst (4) e) auto
  show "length (front i xs) = length xs" using assms by (simp add: front_def)
qed

lemma take_front: "\<lbrakk>i < k; k \<le> length xs\<rbrakk> \<Longrightarrow> take k (front i xs) = front i (take k xs)"
  by (cases k) (auto simp: front_def take_drop min_def le_less_Suc_eq)

text \<open>What a successful lookup or allocation promises.\<close>

definition peer_entry :: "u64 \<Rightarrow> nat \<Rightarrow> 'k WeaveFabricState \<Rightarrow> bool" where
  "peer_entry x i f \<longleftrightarrow> i < PeerCount f \<and> PeerNodeId (PeerStates f) ! i = x \<and> hd (MostRecentlyUsedIndexes (PeerStates f)) = i"

lemma peers_okD:
  assumes "peers_ok n f"
  shows "length (PeerNodeId (PeerStates f)) = n" "length (UnencRcv (PeerStates f)) = n" "length (GroupRcv (PeerStates f)) = n"
    "length (MostRecentlyUsedIndexes (PeerStates f)) = n" "0 < n" "PeerCount f \<le> n"
    "distinct (take (PeerCount f) (MostRecentlyUsedIndexes (PeerStates f)))"
    "set (take (PeerCount f) (MostRecentlyUsedIndexes (PeerStates f))) = {0..<PeerCount f}"
    "distinct (take (PeerCount f) (PeerNodeId (PeerStates f)))"
  using assms by (auto simp: peers_ok_def Let_def)

lemma FindOrAllocPeerEntry_found:
  assumes ok: "peers_ok n f" and j: "ScanPeers x (PeerNodeId (PeerStates f)) 0 (take (PeerCount f) (MostRecentlyUsedIndexes (PeerStates f))) = Some j"
  obtains i f' where "FindOrAllocPeerEntry x a f = (Some i, f')" "peers_ok n f'" "peer_entry x i f'"
    "f' = f\<lparr>PeerStates := (PeerStates f)\<lparr>MostRecentlyUsedIndexes := front j (MostRecentlyUsedIndexes (PeerStates f))\<rparr>\<rparr>"
proof -
  note d = peers_okD [OF ok]
  let ?mru = "MostRecentlyUsedIndexes (PeerStates f)" and ?f = "f\<lparr>PeerStates := (PeerStates f)\<lparr>MostRecentlyUsedIndexes :=
    front j (MostRecentlyUsedIndexes (PeerStates f))\<rparr>\<rparr>"
  have jl: "j < PeerCount f" "PeerNodeId (PeerStates f) ! (?mru ! j) = x" using ScanPeers_Some [OF j] d(4,6) by auto
  have t: "take (PeerCount f) (front j ?mru) = front j (take (PeerCount f) ?mru)" using jl d(4,6) by (intro take_front) auto
  have "peers_ok n ?f"
    using d jl t front_elems [of j "take (PeerCount f) ?mru"] front_elems(3) [of j ?mru] by (auto simp: peers_ok_def Let_def)
  moreover have "?mru ! j \<in> set (take (PeerCount f) ?mru)" using jl d(4,6) by (auto simp: in_set_conv_nth)
  then have "peer_entry x (?mru ! j) ?f" using jl(2) d(8) by (auto simp: peer_entry_def front_def)
  moreover have "FindOrAllocPeerEntry x a f = (Some (?mru ! j), ?f)" using j by (simp add: FindOrAllocPeerEntry_def Let_def front_def)
  ultimately show ?thesis using that [of "?mru ! j" ?f] by blast
qed

text \<open>Writing a node id that no entry in use has keeps the ids of the entries in use distinct.\<close>

lemma distinct_take_update:
  assumes "distinct (take k xs)" "x \<notin> set (take k xs)" "i < length xs" "i \<le> k"
  shows "distinct (take (max k (Suc i)) (xs[i := x]))"
proof (cases "i < k")
  case True
  then have "take (max k (Suc i)) (xs[i := x]) = (take k xs)[i := x]" by (simp add: take_update_swap max_absorb1 Suc_leI)
  then show ?thesis using assms by (simp add: distinct_list_update)
next
  case False
  then have "i = k" using assms(4) by simp
  then show ?thesis using assms by (simp add: take_Suc_conv_app_nth)
qed

lemma FindOrAllocPeerEntry_new:
  assumes ok: "peers_ok n f" and none: "ScanPeers x (PeerNodeId (PeerStates f)) 0 (take (PeerCount f) (MostRecentlyUsedIndexes (PeerStates f))) = None"
  obtains i f' where "FindOrAllocPeerEntry x True f = (Some i, f')" "peers_ok n f'" "peer_entry x i f'"
    "UnencRcv (PeerStates f') = (UnencRcv (PeerStates f))[i := no_rcv]" "GroupRcv (PeerStates f') = (GroupRcv (PeerStates f))[i := no_rcv]"
    "PeerNodeId (PeerStates f') = (PeerNodeId (PeerStates f))[i := x]"
proof -
  note d = peers_okD [OF ok]
  let ?p = "PeerStates f"
  let ?mru = "MostRecentlyUsedIndexes ?p"
  have x: "x \<notin> set (take (PeerCount f) (PeerNodeId ?p))"
    using none d(1,6,8) unfolding ScanPeers_None by (auto simp: in_set_conv_nth)
  show ?thesis
  proof (cases "PeerCount f = n")
    case True
    define v where "v = ChooseVictim ?p"
    have v: "v < n" "?mru ! v < n"
    proof -
      show "v < n" using ChooseVictim_less [of ?p] d(4,5) by (simp add: v_def)
      then have "?mru ! v \<in> set ?mru" using d(4) by simp
      then show "?mru ! v < n" using d(4,8) True by auto
    qed
    let ?f = "f\<lparr>PeerStates := ?p\<lparr>PeerNodeId := (PeerNodeId ?p)[?mru ! v := x], UnencRcv := (UnencRcv ?p)[?mru ! v := no_rcv],
      GroupRcv := (GroupRcv ?p)[?mru ! v := no_rcv], MostRecentlyUsedIndexes := front v ?mru\<rparr>\<rparr>"
    have "FindOrAllocPeerEntry x True f = (Some (?mru ! v), ?f)"
      using none True d(4) by (simp add: FindOrAllocPeerEntry_def Let_def front_def v_def)
    moreover have "distinct ((PeerNodeId ?p)[?mru ! v := x])"
      using distinct_take_update [of n "PeerNodeId ?p" x "?mru ! v"] d(1,9) x True v(2) by (simp add: max_absorb1 Suc_leI)
    then have "peers_ok n ?f" using d True v front_elems [of v ?mru] by (simp add: peers_ok_def Let_def)
    moreover have "peer_entry x (?mru ! v) ?f" using v d(1) True by (simp add: peer_entry_def front_def)
    ultimately show ?thesis by (rule that) simp_all
  next
    case False
    let ?k = "PeerCount f"
    have k: "?k < n" using False d(6) by simp
    let ?f = "f\<lparr>PeerCount := Suc ?k, PeerStates := ?p\<lparr>PeerNodeId := (PeerNodeId ?p)[?k := x], UnencRcv := (UnencRcv ?p)[?k := no_rcv],
      GroupRcv := (GroupRcv ?p)[?k := no_rcv], MostRecentlyUsedIndexes := ?k # take ?k ?mru @ drop (Suc ?k) ?mru\<rparr>\<rparr>"
    have "FindOrAllocPeerEntry x True f = (Some ?k, ?f)"
      using none False d(4) by (simp add: FindOrAllocPeerEntry_def Let_def)
    moreover have "distinct (take (Suc ?k) ((PeerNodeId ?p)[?k := x]))"
      using distinct_take_update [of ?k "PeerNodeId ?p" x ?k] d(1,9) x k by (simp add: max_absorb2)
    then have "peers_ok n ?f" using d k by (auto simp: peers_ok_def Let_def min_def)
    moreover have "peer_entry x ?k ?f" using k d(1) by (simp add: peer_entry_def)
    ultimately show ?thesis by (rule that) simp_all
  qed
qed

section \<open>Session keys\<close>

definition session_matches :: "'k WeaveFabricState \<Rightarrow> u16 \<Rightarrow> u64 \<Rightarrow> nat \<Rightarrow> WeaveSessionKey \<Rightarrow> bool" where
  "session_matches f keyId peer i k \<longleftrightarrow> KeyId (MsgEncKey k) = keyId \<and>
     (NodeId k = peer \<or> (SharedSession k \<and> FindSharedSessionEndNode peer i f))"

lemma ScanSessionKeys_Cons:
  "ScanSessionKeys f keyId peer i fr (k # ks) = (let fr' = if KeyId (MsgEncKey k) = 0 \<and> fr = None then Some i else fr in
     if session_matches f keyId peer i k then (Some i, fr') else ScanSessionKeys f keyId peer (Suc i) fr' ks)"
  by (simp only: session_matches_def Let_def ScanSessionKeys.simps)

lemma ScanSessionKeys_None:
  "fst (ScanSessionKeys f keyId peer i fr ks) = None \<longleftrightarrow> (\<forall>l < length ks. \<not> session_matches f keyId peer (i + l) (ks ! l))"
proof (induction ks arbitrary: i fr)
  case (Cons k ks)
  have "(\<forall>l < length (k # ks). \<not> session_matches f keyId peer (i + l) ((k # ks) ! l)) \<longleftrightarrow>
      \<not> session_matches f keyId peer i k \<and> (\<forall>l < length ks. \<not> session_matches f keyId peer (Suc i + l) (ks ! l))"
    by (auto simp: less_Suc_eq_0_disj)
  with Cons.IH show ?case by (simp only: ScanSessionKeys_Cons Let_def) simp
qed simp

lemma ScanSessionKeys_Some:
  assumes "j < length ks" "session_matches f keyId peer (i + j) (ks ! j)" "\<And>l. l < j \<Longrightarrow> \<not> session_matches f keyId peer (i + l) (ks ! l)"
  shows "fst (ScanSessionKeys f keyId peer i fr ks) = Some (i + j)"
  using assms
proof (induction ks arbitrary: i j fr)
  case (Cons k ks)
  show ?case
  proof (cases j)
    case 0
    then show ?thesis using Cons.prems(2) by (simp add: ScanSessionKeys_Cons del: ScanSessionKeys.simps)
  next
    case (Suc m)
    have "\<not> session_matches f keyId peer i k" using Cons.prems(3) [of 0] Suc by simp
    moreover have "fst (ScanSessionKeys f keyId peer (Suc i) fr' ks) = Some (Suc i + m)" for fr'
    proof (rule Cons.IH)
      show "m < length ks" "session_matches f keyId peer (Suc i + m) (ks ! m)" using Cons.prems(1,2) Suc by simp_all
      show "\<not> session_matches f keyId peer (Suc i + l) (ks ! l)" if "l < m" for l
        using Cons.prems(3) [of "Suc l"] that Suc by simp
    qed
    ultimately show ?thesis using Suc by (simp add: ScanSessionKeys_Cons del: ScanSessionKeys.simps)
  qed
qed simp

lemma ScanSessionKeys_free:
  "snd (ScanSessionKeys f keyId peer i fr ks) = Some j \<Longrightarrow>
    fr = Some j \<or> (i \<le> j \<and> j - i < length ks \<and> KeyId (MsgEncKey (ks ! (j - i))) = 0)"
proof (induction ks arbitrary: i fr)
  case (Cons k ks)
  let ?fr = "if KeyId (MsgEncKey k) = 0 \<and> fr = None then Some i else fr"
  have "?fr = Some j \<or> snd (ScanSessionKeys f keyId peer (Suc i) ?fr ks) = Some j"
    using Cons.prems by (auto simp: Let_def split: if_splits)
  then consider "?fr = Some j" | "Suc i \<le> j" "j - Suc i < length ks" "KeyId (MsgEncKey (ks ! (j - Suc i))) = 0"
    using Cons.IH by blast
  then show ?case
  proof cases
    case 1
    then show ?thesis by (auto split: if_splits)
  next
    case 2
    then have "j - i = Suc (j - Suc i)" by simp
    with 2 show ?thesis by simp
  qed
qed simp

lemma session_key_nonzero: "IsSessionKey (ucast (k :: u16)) \<Longrightarrow> k \<noteq> 0"
  by (auto simp: IsSessionKey_def GetKeyType_def)

text \<open>Finding a slot for a new key: no slot has it yet, and the slot found is free.\<close>

lemma FindSessionKey_free:
  assumes "FindSessionKey keyId peer True f = (WEAVE_NO_ERROR, i)" "KeyId (MsgEncKey (SessionKeys f ! i)) = 0"
  shows "IsSessionKey (ucast keyId)" "peer \<noteq> 0" "peer \<noteq> kAnyNodeId" "i < length (SessionKeys f)"
    "\<And>l. l < length (SessionKeys f) \<Longrightarrow> \<not> session_matches f keyId peer l (SessionKeys f ! l)"
proof -
  show k: "IsSessionKey (ucast keyId)" "peer \<noteq> 0" "peer \<noteq> kAnyNodeId"
    using assms(1) by (auto simp: FindSessionKey_def split: if_splits)
  obtain m fr where s: "ScanSessionKeys f keyId peer 0 None (SessionKeys f) = (m, fr)" by fastforce
  have m: "m = None"
  proof (rule ccontr)
    assume "m \<noteq> None"
    then have "m = Some i" using assms(1) s k by (auto simp: FindSessionKey_def split: option.splits)
    have ex: "\<exists>j. j < length (SessionKeys f) \<and> session_matches f keyId peer j (SessionKeys f ! j)"
      using ScanSessionKeys_None [of f keyId peer 0 None "SessionKeys f"] s \<open>m \<noteq> None\<close> by auto
    define j where "j = (LEAST j. j < length (SessionKeys f) \<and> session_matches f keyId peer j (SessionKeys f ! j))"
    have j: "j < length (SessionKeys f)" "session_matches f keyId peer j (SessionKeys f ! j)"
      using LeastI_ex [OF ex] by (auto simp: j_def)
    have "\<not> session_matches f keyId peer l (SessionKeys f ! l)" if "l < j" for l
      using not_less_Least [of l "\<lambda>j. j < length (SessionKeys f) \<and> session_matches f keyId peer j (SessionKeys f ! j)"] that j(1)
      by (auto simp: j_def)
    then have "m = Some j" using ScanSessionKeys_Some [of j "SessionKeys f" f keyId peer 0 None] j s by simp
    then show False using j(2) \<open>m = Some i\<close> assms(2) session_key_nonzero [OF k(1)] by (simp add: session_matches_def)
  qed
  then show "\<And>l. l < length (SessionKeys f) \<Longrightarrow> \<not> session_matches f keyId peer l (SessionKeys f ! l)"
    using ScanSessionKeys_None [of f keyId peer 0 None "SessionKeys f"] s by simp
  have "fr = Some i" using assms(1) s m k by (auto simp: FindSessionKey_def split: option.splits if_splits)
  then show "i < length (SessionKeys f)" using ScanSessionKeys_free [of f keyId peer 0 None "SessionKeys f" i] s by simp
qed

lemma FindSessionKey_first:
  assumes "IsSessionKey (ucast keyId)" "peer \<noteq> 0" "peer \<noteq> kAnyNodeId" "i < length (SessionKeys f)"
    "session_matches f keyId peer i (SessionKeys f ! i)"
    "\<And>l. l < i \<Longrightarrow> \<not> session_matches f keyId peer l (SessionKeys f ! l)"
  shows "FindSessionKey keyId peer c f = (WEAVE_NO_ERROR, i)"
proof -
  have "fst (ScanSessionKeys f keyId peer 0 None (SessionKeys f)) = Some i"
    using ScanSessionKeys_Some [of i "SessionKeys f" f keyId peer 0 None] assms(4-6) by simp
  then show ?thesis using assms(1-3) by (auto simp: FindSessionKey_def split: prod.splits option.splits)
qed

lemma AllocSessionKey_slot:
  assumes "AllocSessionKey rands peer con keyId shared f = Some (WEAVE_NO_ERROR, keyId', f')"
  obtains i where "FindSessionKey keyId' peer True f = (WEAVE_NO_ERROR, i)" "KeyId (MsgEncKey (SessionKeys f ! i)) = 0"
    "f' = TakeSessionKey i keyId' peer con shared f"
proof (cases "keyId = 0")
  case True
  have "\<exists>i. FindSessionKey keyId' peer True f = (WEAVE_NO_ERROR, i) \<and> KeyId (MsgEncKey (SessionKeys f ! i)) = 0 \<and>
      f' = TakeSessionKey i keyId' peer con shared f"
    if "AllocRandomKey rands peer con shared f = Some (WEAVE_NO_ERROR, keyId', f')"
    using that by (induction rands) (auto simp: Let_def split: prod.splits if_splits)
  with True assms that show ?thesis by (auto simp: AllocSessionKey_def)
next
  case False
  with assms that show ?thesis by (auto simp: AllocSessionKey_def split: prod.splits if_splits)
qed

section \<open>Operations keep the peer table well-formed\<close>

text \<open>What the invariant reads.  Operations that leave it alone, or only rewrite receive windows in place, keep the invariant.\<close>

definition same_peers :: "'k WeaveFabricState \<Rightarrow> 'k WeaveFabricState \<Rightarrow> bool" where
  "same_peers f g \<longleftrightarrow> PeerCount g = PeerCount f \<and> PeerNodeId (PeerStates g) = PeerNodeId (PeerStates f) \<and>
     MostRecentlyUsedIndexes (PeerStates g) = MostRecentlyUsedIndexes (PeerStates f) \<and>
     length (UnencRcv (PeerStates g)) = length (UnencRcv (PeerStates f)) \<and> length (GroupRcv (PeerStates g)) = length (GroupRcv (PeerStates f))"

lemma same_peers_ok: "\<lbrakk>same_peers f g; peers_ok n f\<rbrakk> \<Longrightarrow> peers_ok n g"
  by (simp add: same_peers_def peers_ok_def Let_def)

lemma same_peers_refl [simp]: "same_peers f f"
  by (simp add: same_peers_def)

lemma update_session_simps [simp]:
  "PeerStates (update_session i g f) = PeerStates f" "PeerCount (update_session i g f) = PeerCount f"
  "SharedSessionsNodes (update_session i g f) = SharedSessionsNodes f" "length (SessionKeys (update_session i g f)) = length (SessionKeys f)"
  by (simp_all add: update_session_def)

lemma same_peers_update_session [simp]: "same_peers f (update_session i g f)"
  by (simp add: same_peers_def)

lemma same_peers_AllocSessionKey:
  assumes "AllocSessionKey rands peer con keyId shared f = Some (err, keyId', f')"
  shows "same_peers f f'"
proof -
  have "same_peers f f'" if "AllocRandomKey rands peer con shared f = Some (err, keyId', f')"
    using that by (induction rands) (auto simp: Let_def TakeSessionKey_def split: prod.splits if_splits)
  then show ?thesis using assms by (auto simp: AllocSessionKey_def TakeSessionKey_def split: prod.splits if_splits)
qed

lemma same_peers_session_ops:
  "same_peers f (snd (SetSessionKey keyId peer encType authMode key f))" "same_peers f (snd (RemoveSessionKey keyId peer f))"
  "same_peers f (snd (AddSharedSessionEndNode endNode terminating keyId f))" "same_peers f (HandleConnectionClosed con f)"
  "same_peers f (snd (NewMessageId werr ss f))" "same_peers f (put_rcv ss r f)"
  "same_peers f (snd (OnMsgCounterSyncReqSent messageId f))" "same_peers f (snd (OnMsgCounterSyncRespTimeout f))"
  by (auto simp: same_peers_def SetSessionKey_def RemoveSessionKey_def AddSharedSessionEndNode_def HandleConnectionClosed_def Let_def
      NewMessageId_def put_rcv_def OnMsgCounterSyncReqSent_def OnMsgCounterSyncRespTimeout_def
      split: prod.splits option.splits CounterRef.splits RcvRef.splits)

lemma same_peers_FindMsgEncAppKey: "FindMsgEncAppKey ops H keyId encType f = (err, i, f') \<Longrightarrow> same_peers f f'"
  by (auto simp: same_peers_def FindMsgEncAppKey_def Let_def split: option.splits prod.splits if_splits)

lemma FindOrAllocPeerEntry_ok:
  assumes "peers_ok n f"
  shows "peers_ok n (snd (FindOrAllocPeerEntry x a f))"
proof (cases "ScanPeers x (PeerNodeId (PeerStates f)) 0 (take (PeerCount f) (MostRecentlyUsedIndexes (PeerStates f)))")
  case None
  show ?thesis
  proof (cases a)
    case True
    then show ?thesis using FindOrAllocPeerEntry_new [OF assms None] by (metis snd_conv)
  next
    case False
    then show ?thesis using None assms by (simp add: FindOrAllocPeerEntry_def Let_def)
  qed
next
  case (Some j)
  then show ?thesis using FindOrAllocPeerEntry_found [OF assms Some] by (metis snd_conv)
qed

lemma GetSessionState_ok:
  assumes "peers_ok n f"
  shows "peers_ok n (snd (snd (GetSessionState ops H remote keyId encType con f)))"
proof -
  obtain p f1 where 1: "FindOrAllocPeerEntry remote True f = (p, f1)" by fastforce
  obtain err i f2 where 2: "FindMsgEncAppKey ops H keyId encType f = (err, i, f2)" by (cases "FindMsgEncAppKey ops H keyId encType f") auto
  obtain q f3 where 3: "FindOrAllocPeerEntry remote False f2 = (q, f3)" by fastforce
  obtain e j where 4: "FindSessionKey keyId remote False f = (e, j)" by fastforce
  have f1: "peers_ok n f1" using FindOrAllocPeerEntry_ok [OF assms, of remote True] 1 by simp
  have f2: "peers_ok n f2" using same_peers_ok [OF same_peers_FindMsgEncAppKey [OF 2] assms] .
  have f3: "peers_ok n f3" using FindOrAllocPeerEntry_ok [OF f2, of remote False] 3 by simp
  show ?thesis unfolding GetSessionState_def Let_def 1 4 2 3 prod.case by (simp add: 3 assms f1 f2 f3)
qed

lemma OnMsgCounterSyncRespRcvd_ok:
  assumes "peers_ok n f"
  shows "peers_ok n (snd (OnMsgCounterSyncRespRcvd peer peerMsgId ctr f))"
proof -
  obtain p f1 where 1: "FindOrAllocPeerEntry peer True f = (p, f1)" by fastforce
  have f1: "peers_ok n f1" using FindOrAllocPeerEntry_ok [OF assms, of peer True] 1 by simp
  have "same_peers f1 (f1\<lparr>PeerStates := (PeerStates f1)\<lparr>GroupRcv := (GroupRcv (PeerStates f1))[i := r]\<rparr>\<rparr>)" for i r
    by (simp add: same_peers_def)
  note this [THEN same_peers_ok, OF f1]
  with f1 assms show ?thesis unfolding OnMsgCounterSyncRespRcvd_def Let_def 1 prod.case by simp
qed

text \<open>
  The states of a fabric that has been initialised with tables of \<open>n\<close> entries: what the message layer, the
  security manager and the exchange manager do to it, in any order.
\<close>

inductive fabric_run :: "('k, 'z) KeyStoreOps_scheme \<Rightarrow> hash \<Rightarrow> nat \<Rightarrow> 'k WeaveFabricState \<Rightarrow> bool" for ops H n where
  init: "\<lbrakk>FabricState_Init ks rand rerr werr f = (WEAVE_NO_ERROR, f'); 0 < n; length (PeerNodeId (PeerStates f)) = n;
    length (UnencRcv (PeerStates f)) = n; length (GroupRcv (PeerStates f)) = n; length (MostRecentlyUsedIndexes (PeerStates f)) = n\<rbrakk>
    \<Longrightarrow> fabric_run ops H n f'"
| alloc: "\<lbrakk>fabric_run ops H n f; AllocSessionKey rands peer con keyId shared f = Some (err, keyId', f')\<rbrakk> \<Longrightarrow> fabric_run ops H n f'"
| set: "fabric_run ops H n f \<Longrightarrow> fabric_run ops H n (snd (SetSessionKey keyId peer encType authMode key f))"
| remove: "fabric_run ops H n f \<Longrightarrow> fabric_run ops H n (snd (RemoveSessionKey keyId peer f))"
| add_node: "fabric_run ops H n f \<Longrightarrow> fabric_run ops H n (snd (AddSharedSessionEndNode endNode terminating keyId f))"
| closed: "fabric_run ops H n f \<Longrightarrow> fabric_run ops H n (HandleConnectionClosed con f)"
| lookup: "fabric_run ops H n f \<Longrightarrow> fabric_run ops H n (snd (snd (GetSessionState ops H remote keyId encType con f)))"
| new_id: "fabric_run ops H n f \<Longrightarrow> fabric_run ops H n (snd (NewMessageId werr ss f))"
| received: "\<lbrakk>fabric_run ops H n f; SessionState_IsDuplicateMessage ss msgId f = Some (dup, f')\<rbrakk> \<Longrightarrow> fabric_run ops H n f'"
| sync_sent: "fabric_run ops H n f \<Longrightarrow> fabric_run ops H n (snd (OnMsgCounterSyncReqSent messageId f))"
| sync_resp: "fabric_run ops H n f \<Longrightarrow> fabric_run ops H n (snd (OnMsgCounterSyncRespRcvd peer peerMsgId ctr f))"
| sync_timeout: "fabric_run ops H n f \<Longrightarrow> fabric_run ops H n (snd (OnMsgCounterSyncRespTimeout f))"

lemma fabric_run_peers_ok: "fabric_run ops H n f \<Longrightarrow> peers_ok n f"
proof (induction rule: fabric_run.induct)
  case (init ks rand rerr werr f f')
  then show ?case
    by (auto simp: FabricState_Init_def peers_ok_def Let_def split: if_splits option.splits prod.splits)
next
  case (received f ss msgId dup f')
  then obtain r where "f' = put_rcv ss r f" by (auto simp: SessionState_IsDuplicateMessage_def)
  then show ?case using received same_peers_session_ops(6) same_peers_ok by blast
qed (blast intro: same_peers_ok same_peers_AllocSessionKey same_peers_session_ops GetSessionState_ok OnMsgCounterSyncRespRcvd_ok)+

section \<open>Properties\<close>

text \<open>
  A concrete fabric for examples: tables of \<open>n\<close> entries, and a platform key store that is empty.
\<close>

definition blank_session :: WeaveSessionKey where
  "blank_session = \<lparr>NodeId = 0, NextMsgId = 0, SessionRcv = no_rcv, BoundCon = None, AuthMode = 0,
     MsgEncKey = \<lparr>KeyId = 0, EncType = 0, EncKey = zero_key\<rparr>, SharedSession = False\<rparr>"

definition blank_fabric :: "nat \<Rightarrow> unit WeaveFabricState" where
  "blank_fabric n = \<lparr>Initialized = False, FabricId = 0, LocalNodeId = 1, PairingCode = None, DefaultSubnet = 1,
     KeyStore = \<lparr>LastUsedEpochKeyId = 0, NextEpochKeyStartTime = 0, platform = ()\<rparr>, PeerCount = 0,
     NextUnencUDPMsgId = 0, NextUnencTCPMsgId = 0, SessionKeys = replicate n blank_session,
     NextGroupKeyMsgId = \<lparr>mCounterValue = 0, mStartingCounterValue = 0, mEpoch = 0, stored = None\<rparr>,
     GroupKeyMsgIdFreshWindowStart = 0, MsgCounterSyncStatus = 0,
     AppKeyCache = \<lparr>mKeyCache = replicate n (MsgEncKey blank_session), mMostRecentlyUsedKeyEntries = replicate n 0\<rparr>,
     PeerStates = \<lparr>PeerNodeId = replicate n 0, UnencRcv = replicate n no_rcv, GroupRcv = replicate n no_rcv,
       MostRecentlyUsedIndexes = replicate n 0\<rparr>, SharedSessionsNodes = replicate n no_end_node\<rparr>"

definition empty_store :: "unit KeyStoreOps" where
  "empty_store = \<lparr>RetrieveGroupKey = (\<lambda>k i. (WEAVE_ERROR_KEY_NOT_FOUND, \<lparr>GroupKeyId = 0, KeyLen = 0, Key = [], StartTimeOrGlobalId = 0\<rparr>)),
     StoreGroupKey = (\<lambda>key k. (WEAVE_NO_ERROR, k)), EnumerateGroupKeys = (\<lambda>k t n. (WEAVE_NO_ERROR, [])),
     ClearGroupKeys = (\<lambda>k. k), GetCurrentUTCTime = (\<lambda>k. (WEAVE_NO_ERROR, 0)),
     RetrieveLastUsedEpochKeyId = (\<lambda>k. (WEAVE_ERROR_KEY_NOT_FOUND, 0)), StoreLastUsedEpochKeyId = (\<lambda>i k. (WEAVE_NO_ERROR, k))\<rparr>"

text \<open>
  C19. The peer table in every state a fabric can reach, whatever sequence of session, message and
  synchronization operations led there: the entries in use are the first \<open>PeerCount\<close> ones, each occurs once
  in the most-recently-used order, and no node has two.  Looking a node up with allocation then always
  yields an entry for that node, makes it the most recently used, and keeps all of this.
\<close>

theorem peer_table_invariant:
  assumes "fabric_run ops H n f"
  shows "peers_ok n f \<and> (\<exists>i f'. FindOrAllocPeerEntry x True f = (Some i, f') \<and> peers_ok n f' \<and> peer_entry x i f')"
proof (cases "ScanPeers x (PeerNodeId (PeerStates f)) 0 (take (PeerCount f) (MostRecentlyUsedIndexes (PeerStates f)))")
  case None
  from FindOrAllocPeerEntry_new [OF fabric_run_peers_ok [OF assms] None]
  show ?thesis using fabric_run_peers_ok [OF assms] by metis
next
  case (Some j)
  from FindOrAllocPeerEntry_found [OF fabric_run_peers_ok [OF assms] Some, of True]
  show ?thesis using fabric_run_peers_ok [OF assms] by metis
qed

theorem peer_table_invariant_witness:
  "\<exists>i f'. FindOrAllocPeerEntry 7 True (snd (FabricState_Init (Some (KeyStore (blank_fabric 2))) 5 WEAVE_NO_ERROR WEAVE_NO_ERROR (blank_fabric 2))) = (Some i, f') \<and>
     peer_entry 7 i f'"
proof -
  have "fst (FabricState_Init (Some (KeyStore (blank_fabric 2))) 5 WEAVE_NO_ERROR WEAVE_NO_ERROR (blank_fabric 2)) = WEAVE_NO_ERROR"
    by code_simp
  then have "fabric_run empty_store (\<lambda>x. x) 2 (snd (FabricState_Init (Some (KeyStore (blank_fabric 2))) 5 WEAVE_NO_ERROR WEAVE_NO_ERROR (blank_fabric 2)))"
    by (intro fabric_run.init [where f = "blank_fabric 2", OF prod_eqI]) (simp_all add: blank_fabric_def)
  from peer_table_invariant [OF this, of 7] show ?thesis by blast
qed

text \<open>
  C20. Establishing a session.  Once a session key has been allocated for a peer, setting its key
  succeeds, and looking the session up then gives the installed key, encryption type and authentication
  mode, with a message counter at zero and an empty receive window; every other session is untouched.
\<close>

theorem session_established:
  assumes "AllocSessionKey rands peer con keyId shared f = Some (WEAVE_NO_ERROR, keyId', f1)"
  shows "\<exists>i f2. SetSessionKey keyId' peer encType authMode encKey f1 = (WEAVE_NO_ERROR, f2) \<and>
    GetSessionState ops H peer keyId' encType con f2 = (WEAVE_NO_ERROR,
      \<lparr>SS_MsgEncKey = Some (SessionKeyRef i), SS_AuthMode = authMode, SS_NextMsgId = SessionCounter i, SS_Rcv = SessionWindow i\<rparr>, f2) \<and>
    MsgEncKey (SessionKeys f2 ! i) = \<lparr>KeyId = keyId', EncType = encType, EncKey = encKey\<rparr> \<and>
    NextMsgId (SessionKeys f2 ! i) = 0 \<and> SessionRcv (SessionKeys f2 ! i) = no_rcv \<and>
    (\<forall>j. j \<noteq> i \<longrightarrow> SessionKeys f2 ! j = SessionKeys f ! j)"
proof -
  obtain i where i: "FindSessionKey keyId' peer True f = (WEAVE_NO_ERROR, i)" "KeyId (MsgEncKey (SessionKeys f ! i)) = 0"
    and f1: "f1 = TakeSessionKey i keyId' peer con shared f" using AllocSessionKey_slot [OF assms] .
  note free = FindSessionKey_free [OF i]
  let ?set = "\<lambda>k. k\<lparr>MsgEncKey := (MsgEncKey k)\<lparr>EncType := encType, EncKey := encKey\<rparr>,
          NextMsgId := Counter_Init 0, SessionRcv := \<lparr>MaxMsgIdRcvd = 0, RcvFlags = 0\<rparr>, AuthMode := authMode\<rparr>"
  let ?f2 = "update_session i ?set f1"
  have other: "\<not> session_matches g keyId' peer l (SessionKeys g ! l)"
    if "l < i" "SharedSessionsNodes g = SharedSessionsNodes f" "SessionKeys g ! l = SessionKeys f ! l" for l g
    using free(5) [of l] that free(4) by (simp add: session_matches_def FindSharedSessionEndNode_def)
  have find1: "FindSessionKey keyId' peer c f1 = (WEAVE_NO_ERROR, i)" for c
  proof (rule FindSessionKey_first)
    show "session_matches f1 keyId' peer i (SessionKeys f1 ! i)" "i < length (SessionKeys f1)"
      using free(4) by (simp_all add: f1 TakeSessionKey_def update_session_def session_matches_def)
    show "\<not> session_matches f1 keyId' peer l (SessionKeys f1 ! l)" if "l < i" for l
      using that by (intro other) (simp_all add: f1 TakeSessionKey_def update_session_def)
  qed (use free in simp_all)
  have find2: "FindSessionKey keyId' peer c ?f2 = (WEAVE_NO_ERROR, i)" for c
  proof (rule FindSessionKey_first)
    show "session_matches ?f2 keyId' peer i (SessionKeys ?f2 ! i)" "i < length (SessionKeys ?f2)"
      using free(4) by (simp_all add: f1 TakeSessionKey_def update_session_def session_matches_def)
    show "\<not> session_matches ?f2 keyId' peer l (SessionKeys ?f2 ! l)" if "l < i" for l
      using that by (intro other) (simp_all add: f1 TakeSessionKey_def update_session_def)
  qed (use free in simp_all)
  have set: "SetSessionKey keyId' peer encType authMode encKey f1 = (WEAVE_NO_ERROR, ?f2)" by (simp add: SetSessionKey_def find1)
  have k: "SessionKeys ?f2 ! j = SessionKeys f ! j" if "j \<noteq> i" for j
    using free(4) that by (simp_all add: f1 TakeSessionKey_def update_session_def)
  have k': "MsgEncKey (SessionKeys ?f2 ! i) = \<lparr>KeyId = keyId', EncType = encType, EncKey = encKey\<rparr>" "BoundCon (SessionKeys ?f2 ! i) = con"
    "AuthMode (SessionKeys ?f2 ! i) = authMode" "NextMsgId (SessionKeys ?f2 ! i) = 0" "SessionRcv (SessionKeys ?f2 ! i) = no_rcv"
    using free(4) by (simp_all add: f1 TakeSessionKey_def update_session_def Counter_Init_def no_rcv_def)
  have get: "GetSessionState ops H peer keyId' encType con ?f2 = (WEAVE_NO_ERROR,
      \<lparr>SS_MsgEncKey = Some (SessionKeyRef i), SS_AuthMode = authMode, SS_NextMsgId = SessionCounter i, SS_Rcv = SessionWindow i\<rparr>, ?f2)"
    using free(1) by (simp add: GetSessionState_def find2 k' IsSessionKey_def Let_def)
  show ?thesis by (intro exI [of _ i] exI [of _ ?f2] conjI allI impI set get k' k)
qed

theorem session_established_witness:
  "\<exists>i f2. SetSessionKey 0x2005 9 1 3 zero_key (TakeSessionKey 0 0x2005 9 (Some 4) False (blank_fabric 2)) = (WEAVE_NO_ERROR, f2) \<and>
     MsgEncKey (SessionKeys f2 ! i) = \<lparr>KeyId = 0x2005, EncType = 1, EncKey = zero_key\<rparr>"
proof -
  have "FindSessionKey 0x2005 9 True (blank_fabric 2) = (WEAVE_NO_ERROR, 0)" "KeyId (MsgEncKey (SessionKeys (blank_fabric 2) ! 0)) = 0"
    by code_simp+
  then have "AllocSessionKey [] 9 (Some 4) 0x2005 False (blank_fabric 2) =
      Some (WEAVE_NO_ERROR, 0x2005, TakeSessionKey 0 0x2005 9 (Some 4) False (blank_fabric 2))"
    by (simp add: AllocSessionKey_def)
  from session_established [OF this, of 1 3 zero_key empty_store "\<lambda>x. x"] show ?thesis by blast
qed

text \<open>
  A closed connection leaves the end nodes of its shared session behind.  Removing a session key
  forgets the end nodes registered for it, but a closed connection clears the session record only: the entries
  still point at the record's slot.  When the slot is reused for a shared session with another node, a
  lookup of the new key on behalf of an end node of the old session finds the new session.
\<close>

theorem closed_session_keeps_end_nodes:
  assumes "FindSharedSessionEndNode endNode 0 f" "SessionKeys f = k # ks" "KeyId (MsgEncKey k) \<noteq> 0" "BoundCon k = Some con"
    "list_all (\<lambda>k'. KeyId (MsgEncKey k') \<noteq> keyId \<and> BoundCon k' = None) ks"
    "IsSessionKey (ucast keyId)" "peer \<noteq> 0" "peer \<noteq> kAnyNodeId" "endNode \<noteq> 0" "endNode \<noteq> kAnyNodeId"
  shows "\<exists>f'. AllocSessionKey [] peer con' keyId True (HandleConnectionClosed con f) = Some (WEAVE_NO_ERROR, keyId, f') \<and>
    NodeId (SessionKeys f' ! 0) = peer \<and> FindSessionKey keyId endNode False f' = (WEAVE_NO_ERROR, 0)"
proof -
  let ?f1 = "HandleConnectionClosed con f"
  have keys: "SessionKeys ?f1 = SessionKey_Clear k # ks"
    using assms(2-5) by (auto simp: HandleConnectionClosed_def list_all_iff intro: map_idI)
  have nodes: "SharedSessionsNodes ?f1 = SharedSessionsNodes f" by (simp add: HandleConnectionClosed_def)
  have nz: "keyId \<noteq> 0" using session_key_nonzero [OF assms(6)] .
  have clear: "KeyId (MsgEncKey (SessionKey_Clear k)) = 0" by (simp add: SessionKey_Clear_def SessionKey_Init_def)
  have scan: "ScanSessionKeys ?f1 keyId peer i (Some 0) ks = (None, Some 0)" for i
    using assms(5) by (induction ks arbitrary: i) simp_all
  have "FindSessionKey keyId peer True ?f1 = (WEAVE_NO_ERROR, 0)"
    using assms(6-8) scan nz by (simp add: FindSessionKey_def keys clear Let_def)
  then have a: "AllocSessionKey [] peer con' keyId True ?f1 = Some (WEAVE_NO_ERROR, keyId, TakeSessionKey 0 keyId peer con' True ?f1)"
    using nz by (simp add: AllocSessionKey_def keys clear)
  moreover have "FindSessionKey keyId endNode False (TakeSessionKey 0 keyId peer con' True ?f1) = (WEAVE_NO_ERROR, 0)"
  proof (rule FindSessionKey_first)
    show "session_matches (TakeSessionKey 0 keyId peer con' True ?f1) keyId endNode 0 (SessionKeys (TakeSessionKey 0 keyId peer con' True ?f1) ! 0)"
      using assms(1) nodes by (simp add: session_matches_def TakeSessionKey_def update_session_def keys FindSharedSessionEndNode_def)
  qed (use assms(6,9,10) in \<open>simp_all add: TakeSessionKey_def keys\<close>)
  ultimately show ?thesis by (simp add: TakeSessionKey_def update_session_def keys)
qed

theorem closed_session_keeps_end_nodes_witness:
  "\<exists>f'. AllocSessionKey [] 9 None 0x2006 True (HandleConnectionClosed 4 ((blank_fabric 2)\<lparr>
     SessionKeys := [blank_session\<lparr>MsgEncKey := (MsgEncKey blank_session)\<lparr>KeyId := 0x2005\<rparr>, BoundCon := Some 4\<rparr>, blank_session],
     SharedSessionsNodes := [\<lparr>EndNodeId = 17, EndSession = Some 0\<rparr>, no_end_node]\<rparr>)) = Some (WEAVE_NO_ERROR, 0x2006, f') \<and>
     FindSessionKey 0x2006 17 False f' = (WEAVE_NO_ERROR, 0)"
proof -
  let ?f = "(blank_fabric 2)\<lparr>
     SessionKeys := [blank_session\<lparr>MsgEncKey := (MsgEncKey blank_session)\<lparr>KeyId := 0x2005\<rparr>, BoundCon := Some 4\<rparr>, blank_session],
     SharedSessionsNodes := [\<lparr>EndNodeId = 17, EndSession = Some 0\<rparr>, no_end_node]\<rparr>"
  have keys: "SessionKeys ?f = [blank_session\<lparr>MsgEncKey := (MsgEncKey blank_session)\<lparr>KeyId := 0x2005\<rparr>, BoundCon := Some 4\<rparr>, blank_session]"
    by simp
  have "\<exists>f'. AllocSessionKey [] 9 None 0x2006 True (HandleConnectionClosed 4 ?f) = Some (WEAVE_NO_ERROR, 0x2006, f') \<and>
      NodeId (SessionKeys f' ! 0) = 9 \<and> FindSessionKey 0x2006 17 False f' = (WEAVE_NO_ERROR, 0)"
    by (rule closed_session_keeps_end_nodes [OF _ keys])
      (simp_all add: FindSharedSessionEndNode_def blank_session_def IsSessionKey_def GetKeyType_def)
  then show ?thesis by blast
qed

text \<open>
  C36. The second key overruns the cache's usage list.  After a reset the most-recently-used list
  holds only zeros, so a cache of at least two entries takes a first key in entry 0, but for a second key the
  search of the list for entry 1 runs to its end, and the move that makes the entry the most recently used
  writes one element behind the list.
\<close>

theorem second_cached_key_overruns:
  assumes "length (mKeyCache c) = Suc (Suc m)" "length (mMostRecentlyUsedKeyEntries c) = Suc (Suc m)"
    "KeyId k = keyId" "keyId \<noteq> 0" "keyId' \<noteq> 0" "keyId' \<noteq> keyId"
  shows "\<exists>c1. FindOrAllocateKeyEntry keyId encType (KeyCache_Reset c) = Some (0, c1) \<and>
    FindOrAllocateKeyEntry keyId' encType (c1\<lparr>mKeyCache := (mKeyCache c1)[0 := k]\<rparr>) = None"
proof -
  let ?e = "\<lparr>KeyId = 0, EncType = kWeaveEncryptionType_None, EncKey = zero_key\<rparr>"
  have clear: "fold KeyCache_Clear [0..<j] c = c\<lparr>mKeyCache := replicate j ?e @ drop j (mKeyCache c)\<rparr>"
    if "j \<le> length (mKeyCache c)" for j
    using that
    by (induction j) (simp_all add: KeyCache_Clear_def list_update_append Cons_nth_drop_Suc [symmetric] replicate_append_same)
  have reset: "KeyCache_Reset c = c\<lparr>mKeyCache := replicate (Suc (Suc m)) ?e, mMostRecentlyUsedKeyEntries := replicate (Suc (Suc m)) 0\<rparr>"
    using assms(1,2) clear [of "Suc (Suc m)"] by (simp add: KeyCache_Reset_def Let_def)
  have free: "FindKeyEntry x encType n i r (replicate j ?e) = r" if "x \<noteq> 0" "r \<noteq> n" for x n i r j
    using that by (induction j arbitrary: i) simp_all
  have io: "index_of (Suc 0) (replicate j 0) = j" for j by (induction j) simp_all
  define c1 where "c1 = c\<lparr>mKeyCache := replicate (Suc (Suc m)) ?e, mMostRecentlyUsedKeyEntries := replicate (Suc (Suc m)) 0\<rparr>"
  have "FindKeyEntry keyId encType (Suc (Suc m)) 0 (Suc (Suc m)) (replicate (Suc (Suc m)) ?e) = 0"
    using free [of keyId 0 "Suc (Suc m)" "Suc 0" "Suc m"] assms(4) by simp
  then have "FindOrAllocateKeyEntry keyId encType c1 = Some (0, c1)"
    by (simp add: FindOrAllocateKeyEntry_def Let_def move_to_front_def c1_def)
  moreover have "FindKeyEntry keyId' encType (Suc (Suc m)) 0 (Suc (Suc m)) (k # replicate (Suc m) ?e) = Suc 0"
    using free [of keyId' "Suc 0" "Suc (Suc m)" "Suc (Suc 0)" m] assms(3-6) by simp
  then have "FindOrAllocateKeyEntry keyId' encType (c1\<lparr>mKeyCache := (mKeyCache c1)[0 := k]\<rparr>) = None"
    using io [of "Suc (Suc m)"] by (simp add: FindOrAllocateKeyEntry_def Let_def move_to_front_def c1_def)
  ultimately show ?thesis unfolding reset c1_def by blast
qed

theorem second_cached_key_overruns_witness:
  "\<exists>c1. FindOrAllocateKeyEntry 0x4001 1 (KeyCache_Reset (AppKeyCache (blank_fabric 2))) = Some (0, c1) \<and>
    FindOrAllocateKeyEntry 0x4002 1 (c1\<lparr>mKeyCache := (mKeyCache c1)[0 := \<lparr>KeyId = 0x4001, EncType = 1, EncKey = zero_key\<rparr>]\<rparr>) = None"
  by (rule second_cached_key_overruns [where m = 0]) (simp_all add: blank_fabric_def)

definition sync_period :: "u32 \<Rightarrow> u32 \<Rightarrow> 'k WeaveFabricState \<Rightarrow> 'k WeaveFabricState" where
  "sync_period messageId next f =
     snd (OnMsgCounterSyncRespTimeout ((snd (OnMsgCounterSyncReqSent messageId f))\<lparr>NextGroupKeyMsgId :=
       (NextGroupKeyMsgId f)\<lparr>mCounterValue := next\<rparr>\<rparr>))"

text \<open>
  The window of outstanding synchronization requests loses a request.  When the response period
  ends, the width of the window is or-ed onto the previous width, which is not cleared.  Three requests are
  sent with the message ids 100, 101 and 103: when a period ends after each of them, the window then starts
  at 104, behind all of them, so that the answer to the third request is discarded.
\<close>

theorem outstanding_request_lost:
  fixes f :: "'k WeaveFabricState"
  assumes "MsgCounterSyncStatus f = 0"
  shows "let g = sync_period 103 104 (sync_period 101 103 (sync_period 100 101 f)) in
    IsMsgCounterSyncReqInProgress g \<and> GroupKeyMsgIdFreshWindowStart g = 104 \<and> OnMsgCounterSyncRespRcvd peer peerMsgId 103 g = ([], g)"
  using assms
  by (simp add: sync_period_def Let_def OnMsgCounterSyncRespTimeout_def OnMsgCounterSyncReqSent_def IsMsgCounterSyncReqInProgress_def
      OnMsgCounterSyncRespRcvd_def)

theorem outstanding_request_lost_witness:
  "OnMsgCounterSyncRespRcvd 9 500 103 (sync_period 103 104 (sync_period 101 103 (sync_period 100 101 (blank_fabric 2)))) =
    ([], sync_period 103 104 (sync_period 101 103 (sync_period 100 101 (blank_fabric 2))))"
  using outstanding_request_lost [of "blank_fabric 2"] by (simp add: Let_def blank_fabric_def)

text \<open>
  C32. A node's address names the node.  The address that is selected for a node of the fabric is
  recognised as an address of the fabric, lies in the default subnet, and gives the node id back, for the
  node ids whose universal/local bit is clear.
\<close>

theorem node_address_roundtrip:
  assumes "nodeId \<noteq> kAnyNodeId" "FabricId f \<noteq> 0" "nodeId AND 0x0200000000000000 = 0"
  shows "IsFabricAddress (SelectNodeAddress nodeId f) f \<and> Subnet (SelectNodeAddress nodeId f) = DefaultSubnet f \<and>
    IPv6InterfaceIdToWeaveNodeId (InterfaceId (SelectNodeAddress nodeId f)) = nodeId"
proof -
  have "nodeId AND NOT 0x0200000000000000 = nodeId"
    using bit.conj_disj_distrib [of nodeId "0x0200000000000000" "NOT 0x0200000000000000"] assms(3) by simp
  then show ?thesis
    using assms(1,2) by (simp add: IsFabricAddress_def SelectNodeAddress_def SelectNodeAddressInSubnet_def MakeULA_is_ULA MakeULA_GlobalId
        MakeULA_Subnet MakeULA_InterfaceId node_id_interface_id WeaveFabricIdToIPv6GlobalId_def)
qed

theorem node_address_roundtrip_witness:
  "IPv6InterfaceIdToWeaveNodeId (InterfaceId (SelectNodeAddress 0x18B4300000000004 ((blank_fabric 2)\<lparr>FabricId := 5\<rparr>))) = 0x18B4300000000004"
  using node_address_roundtrip [of "0x18B4300000000004" "(blank_fabric 2)\<lparr>FabricId := 5\<rparr>"] by simp

end
