(* ===== verification/Packet_Buffer.thy ===== *)
theory Packet_Buffer
  imports Weave_Prelude
begin

text \<open>
  Packet buffers: \<^verbatim>\<open>PacketBuffer\<close> of \<^verbatim>\<open>src/src/system/SystemPacketBuffer.cpp\<close> in the configuration
  without LwIP and with a fixed pool (\<^verbatim>\<open>WEAVE_SYSTEM_CONFIG_PACKETBUFFER_MAXALLOC\<close> is 15 by default).

  A buffer is its header and the block of \<^verbatim>\<open>AllocSize()\<close> bytes behind it; \<open>payload\<close> is the offset of
  \<^verbatim>\<open>payload\<close> from the start of that block.  Buffers live in a heap indexed by pointers, so that
  chains, shared buffers and the free list are pointer structures as in the code.  An operation
  that aborts (\<^verbatim>\<open>VerifyOrDie\<close>) or follows a cyclic chain forever yields \<open>None\<close>.
\<close>

section \<open>State\<close>

type_synonym ptr = nat

record PacketBuffer =
  pnext :: "ptr option"
  payload :: nat
  tot_len :: u16
  len :: u16
  ref :: u16
  block :: "u8 list"

type_synonym heap = "ptr \<Rightarrow> PacketBuffer"

record BufferPool =
  heap :: heap
  sFreeList :: "ptr option"

definition AllocSize :: "PacketBuffer \<Rightarrow> nat" where
  "AllocSize b = length (block b)"

text \<open>
  \<^verbatim>\<open>WEAVE_SYSTEM_PACKETBUFFER_SIZE\<close> less the header, whose 22 bytes (two pointers of 8 bytes, three
  16-bit fields) are rounded up to 24.
\<close>

abbreviation (input) ALLOCSIZE_MAX :: nat where "ALLOCSIZE_MAX \<equiv> 1676"

section \<open>One buffer\<close>

definition Start :: "PacketBuffer \<Rightarrow> nat" where
  "Start b = payload b"

text \<open>The new start is given by its offset from the start of the block, negative when it lies before it.\<close>

definition SetStart :: "int \<Rightarrow> PacketBuffer \<Rightarrow> PacketBuffer" where
  "SetStart aNewStart b =
     (let start = (if aNewStart < 0 then 0
                   else if aNewStart > int (AllocSize b) then int (AllocSize b) else aNewStart);
          lDelta = start - int (payload b);
          lDelta = (if lDelta > uint (len b) then uint (len b) else lDelta)
      in b\<lparr>len := word_of_int (uint (len b) - lDelta), tot_len := word_of_int (uint (tot_len b) - lDelta),
           payload := nat start\<rparr>)"

definition DataLength :: "PacketBuffer \<Rightarrow> u16" where
  "DataLength b = len b"

definition TotalLength :: "PacketBuffer \<Rightarrow> u16" where
  "TotalLength b = tot_len b"

definition MaxDataLength :: "PacketBuffer \<Rightarrow> u16" where
  "MaxDataLength b = word_of_int (int (AllocSize b) - int (payload b))"

definition AvailableDataLength :: "PacketBuffer \<Rightarrow> u16" where
  "AvailableDataLength b = MaxDataLength b - len b"

definition ReservedSize :: "PacketBuffer \<Rightarrow> u16" where
  "ReservedSize b = of_nat (payload b)"

text \<open>\<^verbatim>\<open>SetDataLength\<close> on the buffer itself, and the change of length it makes.\<close>

definition SetLength :: "u16 \<Rightarrow> PacketBuffer \<Rightarrow> u16 \<times> PacketBuffer" where
  "SetLength aNewLen b =
     (let aNewLen = min aNewLen (MaxDataLength b);
          lDelta = aNewLen - len b
      in (lDelta, b\<lparr>len := aNewLen, tot_len := tot_len b + lDelta\<rparr>))"

definition ConsumeHead :: "u16 \<Rightarrow> PacketBuffer \<Rightarrow> PacketBuffer" where
  "ConsumeHead aConsumeLength b =
     (let n = min aConsumeLength (len b)
      in b\<lparr>payload := payload b + unat n, len := len b - n, tot_len := tot_len b - n\<rparr>)"

text \<open>\<^verbatim>\<open>memmove\<close> and \<^verbatim>\<open>memcpy\<close> into a block: \<open>bs\<close> replaces the bytes from offset \<open>i\<close> on.\<close>

definition overwrite :: "nat \<Rightarrow> u8 list \<Rightarrow> u8 list \<Rightarrow> u8 list" where
  "overwrite i bs xs = take i xs @ bs @ drop (i + length bs) xs"

definition poke :: "nat \<Rightarrow> u8 list \<Rightarrow> PacketBuffer \<Rightarrow> PacketBuffer" where
  "poke i bs b = b\<lparr>block := overwrite i bs (block b)\<rparr>"

definition contents :: "PacketBuffer \<Rightarrow> u8 list" where
  "contents b = take (unat (len b)) (drop (payload b) (block b))"

definition EnsureReservedSize :: "u16 \<Rightarrow> PacketBuffer \<Rightarrow> bool \<times> PacketBuffer" where
  "EnsureReservedSize aReservedSize b =
     (if aReservedSize \<le> ReservedSize b then (True, b)
      else if unat aReservedSize + unat (len b) > AllocSize b then (False, b)
      else
        let kMoveLength = aReservedSize - ReservedSize b;
            p = payload b + unat kMoveLength
        in (True, b\<lparr>block := overwrite p (contents b) (block b), payload := p\<rparr>))"

text \<open>The address of the block is a parameter: it decides how far the payload is off the boundary.\<close>

definition AlignPayload :: "nat \<Rightarrow> u16 \<Rightarrow> PacketBuffer \<Rightarrow> bool \<times> PacketBuffer" where
  "AlignPayload blockAddr aAlignBytes b =
     (if aAlignBytes = 0 then (False, b)
      else
        let kPayloadOffset = of_nat ((blockAddr + payload b) mod unat aAlignBytes) :: u16 in
        if kPayloadOffset = 0 then (True, b)
        else let kPayloadShift = aAlignBytes - kPayloadOffset
             in EnsureReservedSize (ReservedSize b + kPayloadShift) b)"

section \<open>Chains\<close>

definition Next_buf :: "ptr \<Rightarrow> heap \<Rightarrow> ptr option" where
  "Next_buf p h = pnext (h p)"

definition AddRef :: "ptr \<Rightarrow> heap \<Rightarrow> heap" where
  "AddRef p h = h(p := (h p)\<lparr>ref := ref (h p) + 1\<rparr>)"

text \<open>The loop of \<^verbatim>\<open>SetDataLength\<close> over the buffers in front of the changed one.\<close>

partial_function (option) AdjustTotals :: "ptr option \<Rightarrow> ptr \<Rightarrow> u16 \<Rightarrow> heap \<Rightarrow> heap option" where
  "AdjustTotals aChainHead p lDelta h =
     (case aChainHead of
        None \<Rightarrow> Some h
      | Some q \<Rightarrow>
          if q = p then Some h
          else AdjustTotals (pnext (h q)) p lDelta (h(q := (h q)\<lparr>tot_len := tot_len (h q) + lDelta\<rparr>)))"

definition SetDataLength :: "ptr \<Rightarrow> u16 \<Rightarrow> ptr option \<Rightarrow> heap \<Rightarrow> heap option" where
  "SetDataLength p aNewLen aChainHead h =
     (let (lDelta, b) = SetLength aNewLen (h p) in AdjustTotals aChainHead p lDelta (h(p := b)))"

partial_function (option) AddToEnd :: "ptr \<Rightarrow> ptr \<Rightarrow> heap \<Rightarrow> heap option" where
  "AddToEnd lCursor aPacket h =
     (let h1 = h(lCursor := (h lCursor)\<lparr>tot_len := tot_len (h lCursor) + tot_len (h aPacket)\<rparr>)
      in case pnext (h1 lCursor) of
           None \<Rightarrow> Some (h1(lCursor := (h1 lCursor)\<lparr>pnext := Some aPacket\<rparr>))
         | Some n \<Rightarrow> AddToEnd n aPacket h1)"

definition DetachTail :: "ptr \<Rightarrow> heap \<Rightarrow> ptr option \<times> heap" where
  "DetachTail p h = (pnext (h p), h(p := (h p)\<lparr>pnext := None, tot_len := len (h p)\<rparr>))"

section \<open>The pool\<close>

text \<open>
  \<^verbatim>\<open>Free\<close> gives the buffers of a chain back, up to the first that is still referenced elsewhere.
\<close>

partial_function (option) Free :: "ptr option \<Rightarrow> BufferPool \<Rightarrow> BufferPool option" where
  "Free aPacket s =
     (case aPacket of
        None \<Rightarrow> Some s
      | Some p \<Rightarrow>
          (let lNextPacket = pnext (heap s p);
               b = (heap s p)\<lparr>ref := ref (heap s p) - 1\<rparr>;
               s1 = s\<lparr>heap := (heap s)(p := b)\<rparr>
           in if ref b = 0
              then Free lNextPacket
                     (s1\<lparr>heap := (heap s1)(p := b\<lparr>pnext := sFreeList s1\<rparr>), sFreeList := Some p\<rparr>)
              else Some s1))"

definition FreeHead :: "ptr \<Rightarrow> BufferPool \<Rightarrow> (ptr option \<times> BufferPool) option" where
  "FreeHead p s =
     map_option (Pair (pnext (heap s p)))
       (Free (Some p) (s\<lparr>heap := (heap s)(p := (heap s p)\<lparr>pnext := None\<rparr>)\<rparr>))"

definition NewWithAvailableSize :: "u16 \<Rightarrow> nat \<Rightarrow> BufferPool \<Rightarrow> ptr option \<times> BufferPool" where
  "NewWithAvailableSize aReservedSize aAvailableSize s =
     (let lAllocSize = unat aReservedSize + aAvailableSize in
      if lAllocSize > ALLOCSIZE_MAX then (None, s)
      else case sFreeList s of
        None \<Rightarrow> (None, s)
      | Some p \<Rightarrow>
          (let b = heap s p;
               s1 = s\<lparr>sFreeList := pnext b\<rparr>
           in (Some p, s1\<lparr>heap := (heap s1)(p :=
                 b\<lparr>payload := unat aReservedSize, len := 0, tot_len := 0, pnext := None, ref := 1\<rparr>)\<rparr>)))"

definition New_buf :: "u16 \<Rightarrow> BufferPool \<Rightarrow> ptr option \<times> BufferPool" where
  "New_buf aReservedSize s =
     (let lReservedSize = unat aReservedSize;
          lAvailableSize = (if lReservedSize < ALLOCSIZE_MAX then ALLOCSIZE_MAX - lReservedSize else 0)
      in NewWithAvailableSize aReservedSize lAvailableSize s)"

text \<open>\<^verbatim>\<open>RightSize\<close> is the identity without LwIP.\<close>

definition RightSize :: "ptr \<Rightarrow> BufferPool \<Rightarrow> ptr \<times> BufferPool" where
  "RightSize p s = (p, s)"

text \<open>The pool at start-up: every element on the free list, the last array element at its head.\<close>

fun BuildFreeList :: "nat \<Rightarrow> heap \<Rightarrow> BufferPool" where
  "BuildFreeList 0 h = \<lparr>heap = h, sFreeList = None\<rparr>"
| "BuildFreeList (Suc n) h =
     (let s = BuildFreeList n h
      in s\<lparr>heap := (heap s)(n := (heap s n)\<lparr>pnext := sFreeList s, ref := 0\<rparr>), sFreeList := Some n\<rparr>)"

partial_function (option) Consume :: "ptr option \<Rightarrow> u16 \<Rightarrow> BufferPool \<Rightarrow> (ptr option \<times> BufferPool) option" where
  "Consume lPacket aConsumeLength s =
     (case lPacket of
        None \<Rightarrow> Some (None, s)
      | Some p \<Rightarrow>
          if aConsumeLength = 0 then Some (Some p, s)
          else
            let kLength = DataLength (heap s p) in
            if aConsumeLength \<ge> kLength
            then (case FreeHead p s of
                    None \<Rightarrow> None
                  | Some (q, s1) \<Rightarrow> Consume q (aConsumeLength - kLength) s1)
            else Some (Some p, s\<lparr>heap := (heap s)(p := ConsumeHead aConsumeLength (heap s p))\<rparr>))"

text \<open>The loop of \<^verbatim>\<open>CompactHead\<close>; a following buffer that is shared aborts the program.\<close>

partial_function (option) CompactLoop :: "ptr \<Rightarrow> u16 \<Rightarrow> BufferPool \<Rightarrow> BufferPool option" where
  "CompactLoop p lAvailLength s =
     (case pnext (heap s p) of
        None \<Rightarrow> Some s
      | Some q \<Rightarrow>
          if lAvailLength = 0 then Some s
          else
            let b = heap s p; nb = heap s q in
            if ref nb \<noteq> 1 then None
            else
              let lMoveLength = min (len nb) lAvailLength;
                  data = take (unat lMoveLength) (drop (payload nb) (block nb));
                  b1 = b\<lparr>block := overwrite (payload b + unat (len b)) data (block b), len := len b + lMoveLength\<rparr>;
                  nb1 = nb\<lparr>payload := payload nb + unat lMoveLength, len := len nb - lMoveLength,
                           tot_len := tot_len nb - lMoveLength\<rparr>;
                  s1 = s\<lparr>heap := (heap s)(p := b1, q := nb1)\<rparr>
              in if len nb1 = 0
                 then (case FreeHead q s1 of
                         None \<Rightarrow> None
                       | Some (n, s2) \<Rightarrow>
                           CompactLoop p (lAvailLength - lMoveLength)
                             (s2\<lparr>heap := (heap s2)(p := (heap s2 p)\<lparr>pnext := n\<rparr>)\<rparr>))
                 else CompactLoop p (lAvailLength - lMoveLength) s1)"

definition CompactHead :: "ptr \<Rightarrow> BufferPool \<Rightarrow> BufferPool option" where
  "CompactHead p s =
     (let b = heap s p;
          b1 = (if payload b \<noteq> 0 then b\<lparr>block := overwrite 0 (contents b) (block b), payload := 0\<rparr> else b)
      in CompactLoop p (AvailableDataLength b1) (s\<lparr>heap := (heap s)(p := b1)\<rparr>))"

declare AddToEnd.simps [code] AdjustTotals.simps [code] Free.simps [code] Consume.simps [code] CompactLoop.simps [code]


section \<open>One buffer stays in its block\<close>

text \<open>The payload lies in the block, and the block is no longer than a 16-bit length can say.\<close>

definition wf_buf :: "PacketBuffer \<Rightarrow> bool" where
  "wf_buf b \<longleftrightarrow> payload b + unat (len b) \<le> AllocSize b \<and> AllocSize b < 65536"

lemma MaxDataLength_eq: "wf_buf b \<Longrightarrow> unat (MaxDataLength b) = AllocSize b - payload b"
  unfolding MaxDataLength_def wf_buf_def by (subst unat_word_of_int_u16) auto

lemma ReservedSize_eq: "wf_buf b \<Longrightarrow> unat (ReservedSize b) = payload b"
  unfolding ReservedSize_def wf_buf_def by (rule unat_of_nat_u16) simp

lemma AvailableDataLength_eq: "wf_buf b \<Longrightarrow> unat (AvailableDataLength b) = AllocSize b - payload b - unat (len b)"
  using MaxDataLength_eq [of b] unat_sub [of "len b" "MaxDataLength b"]
  by (auto simp: AvailableDataLength_def wf_buf_def word_le_nat_alt)

lemma length_contents: "wf_buf b \<Longrightarrow> length (contents b) = unat (len b)"
  by (auto simp: contents_def wf_buf_def AllocSize_def)

lemma length_overwrite: "i + length bs \<le> length xs \<Longrightarrow> length (overwrite i bs xs) = length xs"
  by (simp add: overwrite_def)

lemma drop_overwrite: "i + length bs \<le> length xs \<Longrightarrow> drop i (overwrite i bs xs) = bs @ drop (i + length bs) xs"
  by (simp add: overwrite_def)

lemma take_overwrite: "i + length bs \<le> length xs \<Longrightarrow> take i (overwrite i bs xs) = take i xs"
  by (simp add: overwrite_def)

lemma len_cases:
  obtains L where "unat (len b) = L" "uint (len b) = int L"
  by (simp add: that [of "unat (len b)"])

lemma SetStart_inside:
  assumes "wf_buf b" "n \<le> payload b + unat (len b)"
  shows "wf_buf (SetStart (int n) b)" "payload (SetStart (int n) b) = n"
    "unat (len (SetStart (int n) b)) = payload b + unat (len b) - n"
    "block (SetStart (int n) b) = block b"
proof -
  obtain L where L: "unat (len b) = L" "uint (len b) = int L" by (rule len_cases)
  have i: "n \<le> AllocSize b" using assms by (simp add: wf_buf_def)
  then show p: "payload (SetStart (int n) b) = n" "block (SetStart (int n) b) = block b"
    by (simp_all add: SetStart_def Let_def)
  have "len (SetStart (int n) b) = word_of_int (int L - (int n - int (payload b)))"
    using assms(2) i by (auto simp: SetStart_def Let_def L)
  moreover have "unat (word_of_int (int L - (int n - int (payload b))) :: u16) = payload b + L - n"
    using assms i by (subst unat_word_of_int_u16) (auto simp: wf_buf_def L)
  ultimately show l: "unat (len (SetStart (int n) b)) = payload b + unat (len b) - n" using L by simp
  then show "wf_buf (SetStart (int n) b)" using assms i p by (auto simp: wf_buf_def AllocSize_def)
qed

lemma SetStart_consume:
  assumes "wf_buf b" "k \<le> unat (len b)"
  shows "contents (SetStart (int (payload b + k)) b) = drop k (contents b)"
proof -
  note s = SetStart_inside [OF assms(1), of "payload b + k"]
  have "unat (len (SetStart (int (payload b + k)) b)) = unat (len b) - k" using s(3) assms by simp
  then show ?thesis using s(2,4) assms by (simp add: contents_def drop_take add.commute)
qed

lemma SetStart_prepend:
  assumes "wf_buf b" "k \<le> payload b"
  shows "contents (SetStart (int (payload b - k)) b) = take k (drop (payload b - k) (block b)) @ contents b"
    "wf_buf (SetStart (int (payload b - k)) b)" "payload (SetStart (int (payload b - k)) b) = payload b - k"
proof -
  have le: "payload b - k \<le> payload b + unat (len b)" by simp
  note s = SetStart_inside [OF assms(1) le]
  show "wf_buf (SetStart (int (payload b - k)) b)" "payload (SetStart (int (payload b - k)) b) = payload b - k"
    using s by auto
  have "unat (len (SetStart (int (payload b - k)) b)) = k + unat (len b)" using s(3) assms(2) by simp
  then show "contents (SetStart (int (payload b - k)) b) = take k (drop (payload b - k) (block b)) @ contents b"
    using s(2,4) assms(2) by (simp add: contents_def take_add)
qed

lemma SetStart_wf: "wf_buf b \<Longrightarrow> wf_buf (SetStart s b)"
proof -
  assume wf: "wf_buf b"
  let ?t = "if s < 0 then 0 else if s > int (AllocSize b) then int (AllocSize b) else s"
  show ?thesis
  proof (cases "nat ?t \<le> payload b + unat (len b)")
    case True
    have "SetStart s b = SetStart (int (nat ?t)) b" by (simp add: SetStart_def Let_def)
    then show ?thesis using SetStart_inside(1) [OF wf True] by simp
  next
    case False
    obtain L where L: "unat (len b) = L" "uint (len b) = int L" by (rule len_cases)
    from False have "int L < ?t - int (payload b)" by (auto simp: L)
    then have "len (SetStart s b) = 0" by (simp add: SetStart_def Let_def L)
    moreover have "payload (SetStart s b) = nat ?t" "AllocSize (SetStart s b) = AllocSize b"
      by (simp_all add: SetStart_def Let_def AllocSize_def)
    ultimately show ?thesis using wf by (auto simp: wf_buf_def)
  qed
qed

lemma SetLength_wf:
  assumes "wf_buf b"
  shows "wf_buf (snd (SetLength n b))" "unat (len (snd (SetLength n b))) = min (unat n) (AllocSize b - payload b)"
    "tot_len (snd (SetLength n b)) = tot_len b + fst (SetLength n b)"
    "block (snd (SetLength n b)) = block b" "payload (snd (SetLength n b)) = payload b"
proof -
  have "unat (min n (MaxDataLength b)) = min (unat n) (AllocSize b - payload b)"
    using MaxDataLength_eq [OF assms] by (auto simp: min_def word_le_nat_alt)
  then show "unat (len (snd (SetLength n b))) = min (unat n) (AllocSize b - payload b)"
    "tot_len (snd (SetLength n b)) = tot_len b + fst (SetLength n b)" "wf_buf (snd (SetLength n b))"
    "block (snd (SetLength n b)) = block b" "payload (snd (SetLength n b)) = payload b"
    using assms by (auto simp: SetLength_def Let_def wf_buf_def AllocSize_def)
qed

lemma SetLength_truncate:
  "\<lbrakk>wf_buf b; n \<le> len b\<rbrakk> \<Longrightarrow> contents (snd (SetLength n b)) = take (unat n) (contents b)"
  using SetLength_wf [of b n] by (auto simp: contents_def wf_buf_def word_le_nat_alt min_def)

lemma ConsumeHead_wf:
  assumes "wf_buf b"
  shows "wf_buf (ConsumeHead n b)" "contents (ConsumeHead n b) = drop (unat n) (contents b)"
    "unat (len (ConsumeHead n b)) = unat (len b) - unat n" "pnext (ConsumeHead n b) = pnext b"
proof -
  have u: "unat (min n (len b)) = min (unat n) (unat (len b))" by (auto simp: min_def word_le_nat_alt)
  then have l: "unat (len b - min n (len b)) = unat (len b) - unat n"
    using unat_sub [of "min n (len b)" "len b"] by simp
  then show "unat (len (ConsumeHead n b)) = unat (len b) - unat n" by (simp add: ConsumeHead_def Let_def)
  show "wf_buf (ConsumeHead n b)" using assms l u by (auto simp: ConsumeHead_def Let_def wf_buf_def AllocSize_def)
  show "contents (ConsumeHead n b) = drop (unat n) (contents b)"
    using l u by (auto simp: ConsumeHead_def Let_def contents_def drop_take min_def add.commute)
  show "pnext (ConsumeHead n b) = pnext b" by (simp add: ConsumeHead_def Let_def)
qed

lemma EnsureReservedSize_ok:
  assumes "wf_buf b" "EnsureReservedSize n b = (True, b')"
  shows "wf_buf b'" "contents b' = contents b" "unat n \<le> payload b'" "len b' = len b" "AllocSize b' = AllocSize b"
proof -
  have "wf_buf b' \<and> contents b' = contents b \<and> unat n \<le> payload b' \<and> len b' = len b \<and> AllocSize b' = AllocSize b"
  proof (cases "n \<le> ReservedSize b")
    case True
    with assms ReservedSize_eq [OF assms(1)] show ?thesis by (auto simp: EnsureReservedSize_def word_le_nat_alt)
  next
    case False
    then have "ReservedSize b \<le> n" by simp
    then have k: "unat (n - ReservedSize b) = unat n - payload b" "payload b \<le> unat n"
      using unat_sub [of "ReservedSize b" n] ReservedSize_eq [OF assms(1)] by (auto simp: word_le_nat_alt)
    have fit: "unat n + length (contents b) \<le> length (block b)"
      using assms False length_contents [OF assms(1)]
      by (auto simp: EnsureReservedSize_def AllocSize_def split: if_splits)
    then have b': "b' = b\<lparr>block := overwrite (unat n) (contents b) (block b), payload := unat n\<rparr>"
      using assms False k length_contents [OF assms(1)]
      by (auto simp: EnsureReservedSize_def Let_def AllocSize_def)
    have "length (block b') = length (block b)" using b' length_overwrite [OF fit] by simp
    moreover have "contents b' = contents b"
      using b' drop_overwrite [OF fit] length_contents [OF assms(1)] by (simp add: contents_def [of "b\<lparr>block := _, payload := _\<rparr>"])
    ultimately show ?thesis using b' assms(1) fit length_contents [OF assms(1)]
      by (simp add: wf_buf_def AllocSize_def)
  qed
  then show "wf_buf b'" "contents b' = contents b" "unat n \<le> payload b'" "len b' = len b" "AllocSize b' = AllocSize b"
    by blast+
qed

lemma EnsureReservedSize_fails:
  assumes "wf_buf b" "EnsureReservedSize n b = (False, b')"
  shows "b' = b" "AllocSize b < unat n + unat (len b)"
  using assms by (auto simp: EnsureReservedSize_def Let_def split: if_splits)


section \<open>Chains as lists\<close>

primrec chain :: "heap \<Rightarrow> ptr option \<Rightarrow> ptr list \<Rightarrow> bool" where
  "chain h x [] \<longleftrightarrow> x = None"
| "chain h x (p # ps) \<longleftrightarrow> x = Some p \<and> chain h (pnext (h p)) ps"

definition chain_data :: "heap \<Rightarrow> ptr list \<Rightarrow> u8 list" where
  "chain_data h ps = concat (map (\<lambda>p. contents (h p)) ps)"

text \<open>Every buffer's total length is its own length and the total length behind it.\<close>

fun totals_ok :: "heap \<Rightarrow> ptr list \<Rightarrow> bool" where
  "totals_ok h [] \<longleftrightarrow> True"
| "totals_ok h [p] \<longleftrightarrow> tot_len (h p) = len (h p)"
| "totals_ok h (p # q # ps) \<longleftrightarrow> tot_len (h p) = len (h p) + tot_len (h q) \<and> totals_ok h (q # ps)"

lemma chain_None [simp]: "chain h None ps \<longleftrightarrow> ps = []"
  by (cases ps) auto

lemma chain_update [simp]: "p \<notin> set ps \<Longrightarrow> chain (h(p := b)) x ps = chain h x ps"
  by (induction ps arbitrary: x) auto

lemma chain_data_update [simp]: "p \<notin> set ps \<Longrightarrow> chain_data (h(p := b)) ps = chain_data h ps"
  by (induction ps) (auto simp: chain_data_def)

lemma totals_update [simp]: "p \<notin> set ps \<Longrightarrow> totals_ok (h(p := b)) ps = totals_ok h ps"
  by (induction ps rule: totals_ok.induct) auto

lemma chain_cong: "(\<And>q. q \<in> set ps \<Longrightarrow> h' q = h q) \<Longrightarrow> chain h' x ps = chain h x ps"
  by (induction ps arbitrary: x) auto

lemma chain_data_cong: "(\<And>q. q \<in> set ps \<Longrightarrow> h' q = h q) \<Longrightarrow> chain_data h' ps = chain_data h ps"
  by (induction ps) (auto simp: chain_data_def)

lemma totals_cong: "(\<And>q. q \<in> set ps \<Longrightarrow> h' q = h q) \<Longrightarrow> totals_ok h' ps = totals_ok h ps"
  by (induction ps rule: totals_ok.induct) auto

lemma chain_data_simps [simp]:
  "chain_data h [] = []" "chain_data h (p # ps) = contents (h p) @ chain_data h ps"
  "chain_data h (ps @ qs) = chain_data h ps @ chain_data h qs"
  by (simp_all add: chain_data_def)

lemma contents_updates [simp]:
  "contents (b\<lparr>tot_len := t\<rparr>) = contents b" "contents (b\<lparr>pnext := n\<rparr>) = contents b" "contents (b\<lparr>ref := r\<rparr>) = contents b"
  by (simp_all add: contents_def)

lemma AddToEnd_chain:
  assumes "chain h (Some p) (p # ps)" "chain h (Some q) (q # qs)" "distinct ((p # ps) @ (q # qs))"
    "totals_ok h (p # ps)" "totals_ok h (q # qs)"
  shows "\<exists>h'. AddToEnd p q h = Some h' \<and> chain h' (Some p) ((p # ps) @ (q # qs)) \<and>
    chain_data h' ((p # ps) @ (q # qs)) = chain_data h (p # ps) @ chain_data h (q # qs) \<and>
    totals_ok h' ((p # ps) @ (q # qs)) \<and> tot_len (h' p) = tot_len (h p) + tot_len (h q) \<and>
    (\<forall>x. x \<notin> set (p # ps) \<longrightarrow> h' x = h x) \<and> (\<forall>x. len (h' x) = len (h x))"
  using assms
proof (induction ps arbitrary: p h)
  case Nil
  define h' where "h' = h(p := (h p)\<lparr>tot_len := tot_len (h p) + tot_len (h q), pnext := Some q\<rparr>)"
  have "AddToEnd p q h = Some h'" using Nil.prems(1) by (subst AddToEnd.simps) (simp add: h'_def)
  moreover have "totals_ok h' (p # q # qs)" "chain h' (Some p) (p # q # qs)"
    "chain_data h' (p # q # qs) = chain_data h [p] @ chain_data h (q # qs)"
    using Nil.prems by (simp_all add: h'_def)
  moreover have "tot_len (h' p) = tot_len (h p) + tot_len (h q)" "\<forall>x. x \<noteq> p \<longrightarrow> h' x = h x" "\<forall>x. len (h' x) = len (h x)"
    by (simp_all add: h'_def)
  ultimately show ?case by auto
next
  case (Cons n ps)
  let ?h1 = "h(p := (h p)\<lparr>tot_len := tot_len (h p) + tot_len (h q)\<rparr>)"
  have nx: "pnext (h p) = Some n" using Cons.prems(1) by simp
  have step: "AddToEnd p q h = AddToEnd n q ?h1" using nx by (subst AddToEnd.simps) simp
  have d: "p \<notin> set (n # ps)" "p \<notin> set (q # qs)" using Cons.prems(3) by auto
  obtain h' where h': "AddToEnd n q ?h1 = Some h'" "chain h' (Some n) ((n # ps) @ (q # qs))"
    "chain_data h' ((n # ps) @ (q # qs)) = chain_data ?h1 (n # ps) @ chain_data ?h1 (q # qs)"
    "totals_ok h' ((n # ps) @ (q # qs))" "tot_len (h' n) = tot_len (?h1 n) + tot_len (?h1 q)"
    "\<forall>x. x \<notin> set (n # ps) \<longrightarrow> h' x = ?h1 x" "\<forall>x. len (h' x) = len (?h1 x)"
  proof (rule exE [OF Cons.IH [of ?h1 n]])
    show "chain ?h1 (Some n) (n # ps)" using Cons.prems(1) d by simp
    show "chain ?h1 (Some q) (q # qs)" using Cons.prems(2) d by simp
    show "distinct ((n # ps) @ (q # qs))" using Cons.prems(3) by simp
    show "totals_ok ?h1 (n # ps)" "totals_ok ?h1 (q # qs)" using Cons.prems(4,5) d by simp_all
  qed blast
  have hp: "h' p = ?h1 p" using h'(6) d(1) by simp
  have "totals_ok h' (p # (n # ps) @ (q # qs))"
    using h'(4,5,7) hp Cons.prems(4) d by (simp add: algebra_simps)
  then show ?case using step h' hp nx d by (intro exI [of _ h']) auto
qed

lemma DetachTail_chain:
  assumes "chain h (Some p) (p # ps)" "p \<notin> set ps" "totals_ok h (p # ps)" "DetachTail p h = (q, h')"
  shows "chain h' (Some p) [p]" "chain h' q ps" "totals_ok h' [p]" "totals_ok h' ps"
    "chain_data h' [p] @ chain_data h' ps = chain_data h (p # ps)"
proof -
  have t: "totals_ok h ps" using assms(3) by (cases ps) auto
  show "chain h' (Some p) [p]" "chain h' q ps" "totals_ok h' [p]" "totals_ok h' ps"
    "chain_data h' [p] @ chain_data h' ps = chain_data h (p # ps)"
    using assms t by (auto simp: DetachTail_def)
qed


section \<open>The pool neither loses nor shares buffers\<close>

definition pool_ok :: "BufferPool \<Rightarrow> ptr list \<Rightarrow> bool" where
  "pool_ok s fs \<longleftrightarrow> chain (heap s) (sFreeList s) fs \<and> distinct fs \<and> (\<forall>p \<in> set fs. ref (heap s p) = 0)"

lemma BuildFreeList_ok: "pool_ok (BuildFreeList n h) (rev [0..<n])"
proof (induction n)
  case (Suc n)
  then have "n \<notin> set (rev [0..<n])" by simp
  with Suc show ?case by (simp add: pool_ok_def Let_def)
qed (simp add: pool_ok_def)

lemma pool_ok_update: "\<lbrakk>pool_ok s fs; p \<notin> set fs\<rbrakk> \<Longrightarrow> pool_ok (s\<lparr>heap := (heap s)(p := b)\<rparr>) fs"
  by (auto simp: pool_ok_def)

text \<open>Giving one buffer back that nobody else refers to.\<close>

definition give_back :: "ptr \<Rightarrow> BufferPool \<Rightarrow> BufferPool" where
  "give_back p s =
     s\<lparr>heap := (heap s)(p := (heap s p)\<lparr>ref := 0, pnext := sFreeList s\<rparr>), sFreeList := Some p\<rparr>"

lemma give_back_other [simp]: "q \<noteq> p \<Longrightarrow> heap (give_back p s) q = heap s q"
  by (simp add: give_back_def)

lemma chain_give_back [simp]: "p \<notin> set ps \<Longrightarrow> chain (heap (give_back p s)) x ps = chain (heap s) x ps"
  by (simp add: give_back_def)

lemma Free_None [simp]: "Free None s = Some s"
  by (simp add: Free.simps)

lemma Free_one: "ref (heap s p) = 1 \<Longrightarrow> Free (Some p) s = Free (pnext (heap s p)) (give_back p s)"
  by (subst Free.simps) (simp add: Let_def give_back_def)

lemma pool_ok_give_back:
  assumes "pool_ok s fs" "p \<notin> set fs"
  shows "pool_ok (give_back p s) (p # fs)"
proof -
  have "chain (heap (give_back p s)) (sFreeList s) fs"
    using assms by (simp add: pool_ok_def)
  moreover have "\<forall>q \<in> set fs. ref (heap (give_back p s) q) = 0"
    using assms by (metis give_back_other pool_ok_def)
  ultimately show ?thesis using assms by (simp add: pool_ok_def) (simp add: give_back_def)
qed

lemma Free_chain:
  assumes "chain (heap s) x ps" "distinct (ps @ fs)" "pool_ok s fs" "\<forall>p \<in> set ps. ref (heap s p) = 1"
  shows "\<exists>s'. Free x s = Some s' \<and> pool_ok s' (rev ps @ fs) \<and> (\<forall>p. p \<notin> set ps \<longrightarrow> heap s' p = heap s p)"
  using assms
proof (induction ps arbitrary: x s fs)
  case Nil
  then show ?case by simp
next
  case (Cons p ps)
  have p: "p \<notin> set fs" "p \<notin> set ps" "ref (heap s p) = 1" "x = Some p" using Cons.prems by auto
  have "chain (heap (give_back p s)) (pnext (heap s p)) ps"
    using Cons.prems(1) p(2) by simp
  moreover have "\<forall>q \<in> set ps. ref (heap (give_back p s) q) = 1" using Cons.prems(4) p(2) by (metis give_back_other list.set_intros(2))
  ultimately obtain s' where "Free (pnext (heap s p)) (give_back p s) = Some s'" "pool_ok s' (rev ps @ p # fs)"
    "\<forall>q. q \<notin> set ps \<longrightarrow> heap s' q = heap (give_back p s) q"
    using Cons.IH [OF _ _ pool_ok_give_back [OF Cons.prems(3) p(1)]] Cons.prems(2) p(2) by fastforce
  then show ?case using Free_one [OF p(3)] p(4) by auto
qed

text \<open>A shared buffer ends the chain that is given back; it and what is behind it stay.\<close>

lemma Free_shared_head:
  assumes "ref (heap s q) \<noteq> 1" "pool_ok s fs" "distinct ((q # qs) @ fs)" "chain (heap s) (Some q) (q # qs)"
  shows "\<exists>s'. Free (Some q) s = Some s' \<and> pool_ok s' fs \<and> chain (heap s') (Some q) (q # qs) \<and>
    chain_data (heap s') (q # qs) = chain_data (heap s) (q # qs) \<and> ref (heap s' q) = ref (heap s q) - 1"
proof -
  define b where "b = (heap s q)\<lparr>ref := ref (heap s q) - 1\<rparr>"
  define s' where "s' = s\<lparr>heap := (heap s)(q := b)\<rparr>"
  have h': "heap s' q = b" "\<And>x. x \<noteq> q \<Longrightarrow> heap s' x = heap s x" by (simp_all add: s'_def)
  have b: "pnext b = pnext (heap s q)" "contents b = contents (heap s q)" by (simp_all add: b_def)
  have "Free (Some q) s = Some s'" using assms(1) by (subst Free.simps) (simp add: Let_def s'_def b_def)
  moreover have "pool_ok s' fs" using assms(2,3) unfolding s'_def by (intro pool_ok_update) auto
  moreover have "chain (heap s') (pnext b) qs = chain (heap s) (pnext b) qs" "chain_data (heap s') qs = chain_data (heap s) qs"
    using assms(3) h'(2) by (intro chain_cong chain_data_cong; metis distinct.simps(2) append_Cons distinct_append)+
  moreover have "ref b = ref (heap s q) - 1" by (simp add: b_def)
  ultimately show ?thesis using assms(4) h'(1) b by auto
qed

lemma Free_shared:
  assumes "chain (heap s) x (ps @ q # qs)" "distinct ((ps @ q # qs) @ fs)" "pool_ok s fs"
    "\<forall>p \<in> set ps. ref (heap s p) = 1" "ref (heap s q) \<noteq> 1"
  shows "\<exists>s'. Free x s = Some s' \<and> pool_ok s' (rev ps @ fs) \<and> chain (heap s') (Some q) (q # qs) \<and>
    chain_data (heap s') (q # qs) = chain_data (heap s) (q # qs) \<and> ref (heap s' q) = ref (heap s q) - 1"
  using assms
proof (induction ps arbitrary: x s fs)
  case Nil
  then show ?case using Free_shared_head [of s q fs qs] by auto
next
  case (Cons p ps)
  let ?s = "give_back p s" and ?t = "ps @ q # qs"
  have p: "p \<notin> set fs" "p \<notin> set ?t" "ref (heap s p) = 1" "x = Some p" using Cons.prems by auto
  then have same: "heap ?s y = heap s y" if "y \<in> set ?t" for y using that by (metis give_back_other)
  have "\<exists>s'. Free (pnext (heap s p)) ?s = Some s' \<and> pool_ok s' (rev ps @ p # fs) \<and> chain (heap s') (Some q) (q # qs) \<and>
      chain_data (heap s') (q # qs) = chain_data (heap ?s) (q # qs) \<and> ref (heap s' q) = ref (heap ?s q) - 1"
  proof (rule Cons.IH [OF _ _ pool_ok_give_back [OF Cons.prems(3) p(1)]])
    show "chain (heap ?s) (pnext (heap s p)) ?t"
      using Cons.prems(1) chain_cong [of ?t "heap ?s" "heap s", OF same] by simp
    show "distinct (?t @ p # fs)" using Cons.prems(2) p by auto
    show "\<forall>p \<in> set ps. ref (heap ?s p) = 1" "ref (heap ?s q) \<noteq> 1" using Cons.prems(4,5) same by auto
  qed
  moreover have "chain_data (heap ?s) (q # qs) = chain_data (heap s) (q # qs)"
    by (rule chain_data_cong) (use same in auto)
  ultimately show ?case using Free_one [OF p(3)] p(4) same by auto
qed

lemma FreeHead_one:
  assumes "pool_ok s fs" "p \<notin> set fs" "ref (heap s p) = 1"
  obtains s' where "FreeHead p s = Some (pnext (heap s p), s')" "pool_ok s' (p # fs)"
    "\<forall>q. q \<noteq> p \<longrightarrow> heap s' q = heap s q"
proof -
  define b where "b = (heap s p)\<lparr>pnext := None\<rparr>"
  define s0 where "s0 = s\<lparr>heap := (heap s)(p := b)\<rparr>"
  have h0: "heap s0 p = b" "\<And>q. q \<noteq> p \<Longrightarrow> heap s0 q = heap s q" by (simp_all add: s0_def)
  have "pool_ok s0 fs" using assms(1,2) unfolding s0_def by (rule pool_ok_update)
  moreover have "chain (heap s0) (Some p) [p]" "ref (heap s0 p) = 1" "distinct fs"
    using assms h0(1) by (auto simp: b_def pool_ok_def)
  ultimately obtain s' where "Free (Some p) s0 = Some s'" "pool_ok s' (rev [p] @ fs)"
    "\<forall>q. q \<notin> set [p] \<longrightarrow> heap s' q = heap s0 q"
    using Free_chain [of s0 "Some p" "[p]" fs] assms(2) by auto
  then show ?thesis using h0(2)
    by (intro that [of s']) (auto simp: FreeHead_def s0_def [symmetric] b_def [symmetric])
qed

lemma NewWithAvailableSize_ok:
  assumes "pool_ok s (p # fs)" "unat r + n \<le> ALLOCSIZE_MAX"
  obtains s' where "NewWithAvailableSize r n s = (Some p, s')" "pool_ok s' fs"
    "heap s' p = (heap s p)\<lparr>payload := unat r, len := 0, tot_len := 0, pnext := None, ref := 1\<rparr>"
    "\<forall>q. q \<noteq> p \<longrightarrow> heap s' q = heap s q"
proof -
  define b where "b = (heap s p)\<lparr>payload := unat r, len := 0, tot_len := 0, pnext := None, ref := 1\<rparr>"
  define s' where "s' = s\<lparr>sFreeList := pnext (heap s p), heap := (heap s)(p := b)\<rparr>"
  have h': "heap s' p = b" "\<And>q. q \<noteq> p \<Longrightarrow> heap s' q = heap s q" by (simp_all add: s'_def)
  have "pool_ok (s\<lparr>sFreeList := pnext (heap s p)\<rparr>) fs" "p \<notin> set fs" using assms(1) by (auto simp: pool_ok_def)
  from pool_ok_update [OF this, of b] have "pool_ok s' fs" by (simp add: s'_def)
  moreover have "NewWithAvailableSize r n s = (Some p, s')"
    using assms by (simp add: NewWithAvailableSize_def pool_ok_def s'_def b_def Let_def)
  ultimately show ?thesis using that h' b_def by auto
qed

lemma NewWithAvailableSize_empty: "pool_ok s [] \<Longrightarrow> NewWithAvailableSize r n s = (None, s)"
  by (simp add: NewWithAvailableSize_def pool_ok_def)


section \<open>Consuming and compacting\<close>

text \<open>A chain that its holder owns: no buffer of it is shared or free, and every buffer is sound.\<close>

definition owned :: "BufferPool \<Rightarrow> ptr option \<Rightarrow> ptr list \<Rightarrow> ptr list \<Rightarrow> bool" where
  "owned s x ps fs \<longleftrightarrow> chain (heap s) x ps \<and> distinct (ps @ fs) \<and> pool_ok s fs \<and>
     (\<forall>p \<in> set ps. ref (heap s p) = 1 \<and> wf_buf (heap s p))"

lemma owned_FreeHead:
  assumes "owned s (Some p) (p # ps) fs"
  obtains s' where "FreeHead p s = Some (pnext (heap s p), s')" "owned s' (pnext (heap s p)) ps (p # fs)"
    "\<forall>q. q \<noteq> p \<longrightarrow> heap s' q = heap s q"
proof -
  have p: "p \<notin> set fs" "p \<notin> set ps" "ref (heap s p) = 1" "pool_ok s fs" using assms by (auto simp: owned_def)
  obtain s' where s': "FreeHead p s = Some (pnext (heap s p), s')" "pool_ok s' (p # fs)"
    "\<forall>q. q \<noteq> p \<longrightarrow> heap s' q = heap s q"
    by (rule FreeHead_one [OF p(4,1,3)])
  have same: "heap s' q = heap s q" if "q \<in> set ps" for q using that s'(3) p(2) by metis
  have "chain (heap s') (pnext (heap s p)) ps"
    using assms chain_cong [of ps "heap s'" "heap s", OF same] by (simp add: owned_def)
  then have "owned s' (pnext (heap s p)) ps (p # fs)"
    using assms s'(2) same p by (auto simp: owned_def)
  with s' that show ?thesis by blast
qed

lemma owned_update:
  assumes "owned s x (p # ps) fs" "wf_buf b" "ref b = 1" "pnext b = pnext (heap s p)"
  shows "owned (s\<lparr>heap := (heap s)(p := b)\<rparr>) x (p # ps) fs"
proof -
  have "p \<notin> set ps" "p \<notin> set fs" using assms(1) by (auto simp: owned_def)
  with assms pool_ok_update [of s fs p b] show ?thesis by (auto simp: owned_def)
qed

text \<open>
  The buffers \<open>ps1\<close> are the ones that a request for \<open>n\<close> bytes empties: bytes were still asked for at each of them, and they do not reach
  beyond \<open>n\<close>; behind them either \<open>n\<close> is reached or the next buffer has more than what is missing.
\<close>

definition emptied_by :: "nat \<Rightarrow> heap \<Rightarrow> ptr list \<Rightarrow> ptr list \<Rightarrow> bool" where
  "emptied_by n h ps1 ps2 \<longleftrightarrow>
     length (chain_data h ps1) \<le> n \<and> (ps1 = [] \<or> length (chain_data h (butlast ps1)) < n) \<and>
     (ps2 = [] \<or> length (chain_data h ps1) = n \<or> n < length (chain_data h ps1) + length (contents (h (hd ps2))))"

lemma emptied_by_Cons:
  assumes "emptied_by (n - l) h ps1 ps2" "length (contents (h p)) = l" "l \<le> n" "0 < n"
  shows "emptied_by n h (p # ps1) ps2"
  using assms by (cases "ps1 = []") (auto simp: emptied_by_def)

lemma emptied_by_cong:
  assumes "\<And>q. q \<in> set ps1 \<union> set ps2 \<Longrightarrow> h q = h' q"
  shows "emptied_by n h ps1 ps2 = emptied_by n h' ps1 ps2"
proof -
  have "chain_data h ps1 = chain_data h' ps1" "chain_data h (butlast ps1) = chain_data h' (butlast ps1)"
    by (rule chain_data_cong; use assms in_set_butlastD [of _ ps1] in auto)+
  moreover have "ps2 \<noteq> [] \<Longrightarrow> h (hd ps2) = h' (hd ps2)" using assms by simp
  ultimately show ?thesis by (auto simp: emptied_by_def)
qed

text \<open>What is left: the first of the remaining buffers without the bytes still missing, the others as they were.\<close>

definition kept_of :: "u16 \<Rightarrow> heap \<Rightarrow> heap \<Rightarrow> ptr list \<Rightarrow> ptr list \<Rightarrow> bool" where
  "kept_of n h h' ps1 ps2 \<longleftrightarrow> (case ps2 of [] \<Rightarrow> True
     | q # qs \<Rightarrow> h' q = ConsumeHead (n - of_nat (length (chain_data h ps1))) (h q) \<and> (\<forall>p \<in> set qs. h' p = h p))"

lemma ConsumeHead_0 [simp]: "ConsumeHead 0 b = b"
  by (simp add: ConsumeHead_def Let_def)

lemma Consume_owned:
  assumes "owned s x ps fs"
  shows "\<exists>y s' ps1 ps2. Consume x n s = Some (y, s') \<and> ps = ps1 @ ps2 \<and> emptied_by (unat n) (heap s) ps1 ps2 \<and>
    owned s' y ps2 (rev ps1 @ fs) \<and> kept_of n (heap s) (heap s') ps1 ps2 \<and>
    chain_data (heap s') ps2 = drop (unat n) (chain_data (heap s) ps)"
  using assms
proof (induction ps arbitrary: x n s fs)
  case Nil
  then have "x = None" by (simp add: owned_def)
  then show ?case using Nil by (subst Consume.simps) (simp add: emptied_by_def kept_of_def)
next
  case (Cons p ps)
  have x: "x = Some p" and wf: "wf_buf (heap s p)" and p: "p \<notin> set ps" using Cons.prems by (auto simp: owned_def)
  have lc: "length (contents (heap s p)) = unat (len (heap s p))" using wf by (rule length_contents)
  consider "n = 0" | "n \<noteq> 0" "len (heap s p) \<le> n" | "n \<noteq> 0" "n < len (heap s p)" by (metis not_le)
  then show ?case
  proof cases
    case 1
    then have "Consume x n s = Some (Some p, s)" using x by (subst Consume.simps) simp
    with Cons.prems 1 x show ?thesis
      by (intro exI [of _ "Some p"] exI [of _ s] exI [of _ "[]"] exI [of _ "p # ps"]) (simp add: emptied_by_def kept_of_def)
  next
    case 2
    obtain s1 where s1: "FreeHead p s = Some (pnext (heap s p), s1)" "owned s1 (pnext (heap s p)) ps (p # fs)"
      "\<forall>q. q \<noteq> p \<longrightarrow> heap s1 q = heap s q"
      by (rule owned_FreeHead [OF Cons.prems [unfolded x]])
    let ?n = "n - len (heap s p)"
    have n: "unat ?n = unat n - unat (len (heap s p))" using 2(2) by (rule unat_sub)
    obtain y s' ps1 ps2 where ih: "Consume (pnext (heap s p)) ?n s1 = Some (y, s')" "ps = ps1 @ ps2"
      "emptied_by (unat ?n) (heap s1) ps1 ps2" "owned s' y ps2 (rev ps1 @ p # fs)" "kept_of ?n (heap s1) (heap s') ps1 ps2"
      "chain_data (heap s') ps2 = drop (unat ?n) (chain_data (heap s1) ps)"
      using Cons.IH [OF s1(2), of ?n] by blast
    have same: "heap s1 q = heap s q" if "q \<in> set ps" for q using that s1(3) p by metis
    have d1: "chain_data (heap s1) ps = chain_data (heap s) ps" "chain_data (heap s1) ps1 = chain_data (heap s) ps1"
      by (rule chain_data_cong; use same ih(2) in auto)+
    have "emptied_by (unat n) (heap s) (p # ps1) ps2"
      using ih(3) emptied_by_cong [of ps1 ps2 "heap s1" "heap s"] same ih(2) lc n 2
      by (intro emptied_by_Cons [where l = "unat (len (heap s p))"]) (auto simp: word_le_nat_alt unat_gt_0)
    moreover have "of_nat (length (chain_data (heap s) (p # ps1))) = len (heap s p) + of_nat (length (chain_data (heap s) ps1))"
      using lc by simp
    then have "kept_of n (heap s) (heap s') (p # ps1) ps2"
      using ih(2,5) d1(2) same by (auto simp: kept_of_def diff_diff_eq split: list.splits)
    moreover have "Consume x n s = Some (y, s')"
      using 2 x s1(1) ih(1) by (subst Consume.simps) (simp add: DataLength_def Let_def)
    moreover have "chain_data (heap s') ps2 = drop (unat n) (chain_data (heap s) (p # ps))"
      using ih(6) n lc 2(2) unfolding d1(1) by (simp add: word_le_nat_alt)
    moreover have "p # ps = (p # ps1) @ ps2" "owned s' y ps2 (rev (p # ps1) @ fs)" using ih(2,4) by simp_all
    ultimately show ?thesis by blast
  next
    case 3
    define b where "b = ConsumeHead n (heap s p)"
    define s' where "s' = s\<lparr>heap := (heap s)(p := b)\<rparr>"
    have hp: "heap s' p = b" "\<And>q. q \<noteq> p \<Longrightarrow> heap s' q = heap s q" by (simp_all add: s'_def)
    have "Consume x n s = Some (Some p, s')"
      using 3 x by (subst Consume.simps) (auto simp: DataLength_def Let_def s'_def b_def)
    moreover have "owned s' x (p # ps) fs"
      unfolding s'_def b_def using Cons.prems ConsumeHead_wf [OF wf]
      by (intro owned_update) (auto simp: owned_def ConsumeHead_def Let_def)
    moreover have "chain_data (heap s') ps = chain_data (heap s) ps" by (rule chain_data_cong) (use hp p in metis)
    moreover have "contents b = drop (unat n) (contents (heap s p))" using ConsumeHead_wf [OF wf] by (simp add: b_def)
    moreover have "emptied_by (unat n) (heap s) [] (p # ps)" using lc 3(2) by (simp add: emptied_by_def word_less_nat_alt)
    moreover have "kept_of n (heap s) (heap s') [] (p # ps)" using hp p by (fastforce simp: kept_of_def b_def)
    ultimately show ?thesis using x 3(2) lc hp(1)
      by (intro exI [of _ "Some p"] exI [of _ s'] exI [of _ "[]"] exI [of _ "p # ps"]) (simp add: word_less_nat_alt)
  qed
qed


text \<open>One round of the loop of \<^verbatim>\<open>CompactHead\<close>: what it does to the head and to the buffer behind it.\<close>

definition filled :: "u16 \<Rightarrow> PacketBuffer \<Rightarrow> PacketBuffer \<Rightarrow> PacketBuffer" where
  "filled m nb b = b\<lparr>block := overwrite (payload b + unat (len b)) (take (unat m) (drop (payload nb) (block nb))) (block b),
     len := len b + m\<rparr>"

definition emptied :: "u16 \<Rightarrow> PacketBuffer \<Rightarrow> PacketBuffer" where
  "emptied m nb = nb\<lparr>payload := payload nb + unat m, len := len nb - m, tot_len := tot_len nb - m\<rparr>"

lemma filled_ok:
  assumes "wf_buf b" "wf_buf nb" "m \<le> len nb" "m \<le> AvailableDataLength b"
  shows "wf_buf (filled m nb b)" "contents (filled m nb b) = contents b @ take (unat m) (contents nb)"
    "AvailableDataLength (filled m nb b) = AvailableDataLength b - m"
    "unat (len (filled m nb b)) = unat (len b) + unat m"
proof -
  let ?d = "take (unat m) (drop (payload nb) (block nb))" and ?i = "payload b + unat (len b)"
  have d: "?d = take (unat m) (contents nb)" using assms(3) by (simp add: contents_def word_le_nat_alt min_def)
  have ld: "length ?d = unat m" using assms(3) length_contents [OF assms(2)] unfolding d by (simp add: word_le_nat_alt)
  have fit: "?i + length ?d \<le> length (block b)"
    using assms(1,4) AvailableDataLength_eq [OF assms(1)] ld by (auto simp: word_le_nat_alt wf_buf_def AllocSize_def)
  have lt: "unat (len b) + unat m < 65536" using fit ld assms(1) by (simp add: wf_buf_def AllocSize_def)
  then show l: "unat (len (filled m nb b)) = unat (len b) + unat m"
    by (simp add: filled_def unat_word_ariths)
  have lb: "length (block (filled m nb b)) = length (block b)" using length_overwrite [OF fit] by (simp add: filled_def)
  then show "wf_buf (filled m nb b)" using fit ld l assms(1) by (simp add: wf_buf_def AllocSize_def) (simp add: filled_def)
  have "drop (payload b) (block (filled m nb b)) = contents b @ ?d @ drop (?i + length ?d) (block b)"
    using fit by (simp add: filled_def overwrite_def contents_def drop_take)
  then show "contents (filled m nb b) = contents b @ take (unat m) (contents nb)"
    using l ld d length_contents [OF assms(1)] by (simp add: contents_def [of "filled m nb b"]) (simp add: filled_def)
  show "AvailableDataLength (filled m nb b) = AvailableDataLength b - m"
    using lb by (simp add: AvailableDataLength_def MaxDataLength_def AllocSize_def filled_def algebra_simps)
qed

lemma emptied_ok:
  assumes "wf_buf nb" "m \<le> len nb"
  shows "wf_buf (emptied m nb)" "contents (emptied m nb) = drop (unat m) (contents nb)"
proof -
  have "unat (len nb - m) = unat (len nb) - unat m" using assms(2) by (rule unat_sub)
  with assms show "wf_buf (emptied m nb)" "contents (emptied m nb) = drop (unat m) (contents nb)"
    by (auto simp: emptied_def wf_buf_def AllocSize_def contents_def word_le_nat_alt drop_take add.commute)
qed

lemma CompactLoop_step:
  "\<lbrakk>pnext (heap s p) = Some q; a \<noteq> 0; ref (heap s q) = 1; m = min (len (heap s q)) a;
    s1 = s\<lparr>heap := (heap s)(p := filled m (heap s q) (heap s p), q := emptied m (heap s q))\<rparr>\<rbrakk> \<Longrightarrow>
   CompactLoop p a s =
     (if len (heap s q) - m = 0
      then (case FreeHead q s1 of None \<Rightarrow> None
            | Some (n, s2) \<Rightarrow> CompactLoop p (a - m) (s2\<lparr>heap := (heap s2)(p := (heap s2 p)\<lparr>pnext := n\<rparr>)\<rparr>))
      else CompactLoop p (a - m) s1)"
  by (subst CompactLoop.simps) (simp add: Let_def filled_def emptied_def; hypsubst; simp)

text \<open>What compacting leaves of a chain: \<open>ps1\<close> are the buffers it emptied and gave back.\<close>

definition compacted :: "BufferPool \<Rightarrow> BufferPool \<Rightarrow> ptr \<Rightarrow> ptr list \<Rightarrow> ptr list \<Rightarrow> ptr list \<Rightarrow> bool" where
  "compacted s s' p ps1 ps2 fs \<longleftrightarrow> owned s' (Some p) (p # ps2) (rev ps1 @ fs) \<and>
     chain_data (heap s') (p # ps2) = chain_data (heap s) (p # ps1 @ ps2) \<and>
     tot_len (heap s' p) = tot_len (heap s p) \<and> (ps2 = [] \<or> AvailableDataLength (heap s' p) = 0)"

definition moved_bytes :: "ptr \<Rightarrow> ptr \<Rightarrow> u16 \<Rightarrow> BufferPool \<Rightarrow> BufferPool" where
  "moved_bytes p q m s = s\<lparr>heap := (heap s)(p := filled m (heap s q) (heap s p), q := emptied m (heap s q))\<rparr>"

lemma moved_bytes_owned:
  assumes "owned s (Some p) (p # q # qs) fs" "m \<le> len (heap s q)" "m \<le> AvailableDataLength (heap s p)"
  shows "owned (moved_bytes p q m s) (Some p) (p # q # qs) fs"
    "chain_data (heap (moved_bytes p q m s)) (p # q # qs) = chain_data (heap s) (p # q # qs)"
    "heap (moved_bytes p q m s) p = filled m (heap s q) (heap s p)" "heap (moved_bytes p q m s) q = emptied m (heap s q)"
proof -
  define b where "b = filled m (heap s q) (heap s p)"
  define nb where "nb = emptied m (heap s q)"
  define s1 where "s1 = moved_bytes p q m s"
  have nx: "pnext (heap s p) = Some q" "wf_buf (heap s p)" "wf_buf (heap s q)" "p \<noteq> q" "p \<notin> set qs" "q \<notin> set qs"
    "p \<notin> set fs" "q \<notin> set fs" "ref (heap s p) = 1" "ref (heap s q) = 1"
    using assms(1) by (auto simp: owned_def)
  note f = filled_ok [OF nx(2,3) assms(2,3), folded b_def] and e = emptied_ok [OF nx(3) assms(2), folded nb_def]
  have h1: "heap s1 p = b" "heap s1 q = nb" "\<And>x. x \<noteq> p \<Longrightarrow> x \<noteq> q \<Longrightarrow> heap s1 x = heap s x" "sFreeList s1 = sFreeList s"
    using nx(4) by (simp_all add: s1_def moved_bytes_def b_def nb_def)
  have fb: "pnext b = Some q" "ref b = 1" using nx by (simp_all add: b_def filled_def)
  have fn: "pnext nb = pnext (heap s q)" "ref nb = 1" using nx by (simp_all add: nb_def emptied_def)
  have same: "heap s1 x = heap s x" if "x \<in> set (qs @ fs)" for x using that h1(3) nx by (metis Un_iff set_append)
  have "chain (heap s1) (pnext nb) qs" "pool_ok s1 fs"
    using assms(1) same chain_cong [of qs "heap s1" "heap s"] chain_cong [of fs "heap s1" "heap s"] fn(1) h1(4)
    by (auto simp: owned_def pool_ok_def)
  then show "owned (moved_bytes p q m s) (Some p) (p # q # qs) fs"
    using assms(1) h1 fb fn f(1) e(1) same by (auto simp: owned_def simp flip: s1_def)
  show "chain_data (heap (moved_bytes p q m s)) (p # q # qs) = chain_data (heap s) (p # q # qs)"
    using h1 f(2) e(2) chain_data_cong [of qs "heap s1" "heap s"] same by (auto simp flip: s1_def)
  show "heap (moved_bytes p q m s) p = filled m (heap s q) (heap s p)" "heap (moved_bytes p q m s) q = emptied m (heap s q)"
    using h1 by (simp_all add: s1_def b_def nb_def)
qed

text \<open>Unlinking an emptied buffer from behind the head, and giving it back.\<close>

lemma unlink_owned:
  assumes "owned s (Some p) (p # q # qs) fs" "contents (heap s q) = []"
  obtains s2 where "FreeHead q s = Some (pnext (heap s q), s2)" "heap s2 p = heap s p"
    "owned (s2\<lparr>heap := (heap s2)(p := (heap s p)\<lparr>pnext := pnext (heap s q)\<rparr>)\<rparr>) (Some p) (p # qs) (q # fs)"
    "chain_data (heap (s2\<lparr>heap := (heap s2)(p := (heap s p)\<lparr>pnext := pnext (heap s q)\<rparr>)\<rparr>)) (p # qs) =
       chain_data (heap s) (p # q # qs)"
proof -
  let ?b = "(heap s p)\<lparr>pnext := pnext (heap s q)\<rparr>"
  have nx: "p \<noteq> q" "p \<notin> set qs" "q \<notin> set qs" "p \<notin> set fs" "ref (heap s p) = 1" "wf_buf (heap s p)"
    "pnext (heap s p) = Some q"
    using assms(1) by (auto simp: owned_def)
  have "owned s (Some q) (q # qs) fs" using assms(1) nx(7) by (auto simp: owned_def)
  then obtain s2 where s2: "FreeHead q s = Some (pnext (heap s q), s2)" "owned s2 (pnext (heap s q)) qs (q # fs)"
    "\<forall>x. x \<noteq> q \<longrightarrow> heap s2 x = heap s x"
    by (rule owned_FreeHead)
  define s3 where "s3 = s2\<lparr>heap := (heap s2)(p := ?b)\<rparr>"
  have h3: "heap s3 p = ?b" "\<And>x. x \<noteq> p \<Longrightarrow> heap s3 x = heap s2 x" by (simp_all add: s3_def)
  have same: "heap s3 x = heap s2 x" if "x \<in> set qs" for x using that h3(2) nx(2) by metis
  have "pool_ok s3 (q # fs)" using s2(2) nx unfolding s3_def by (intro pool_ok_update) (auto simp: owned_def)
  moreover have "chain (heap s3) (pnext (heap s q)) qs"
    using s2(2) chain_cong [of qs "heap s3" "heap s2", OF same] by (simp add: owned_def)
  ultimately have "owned s3 (Some p) (p # qs) (q # fs)"
    using s2(2) h3(1) same nx by (auto simp: owned_def wf_buf_def AllocSize_def)
  moreover have "chain_data (heap s3) qs = chain_data (heap s) qs"
    by (rule chain_data_cong) (use h3(2) s2(3) nx in metis)
  then have "chain_data (heap s3) (p # qs) = chain_data (heap s) (p # q # qs)" using h3(1) assms(2) by simp
  ultimately show ?thesis using that [of s2] s2(1,3) nx(1) by (simp add: s3_def)
qed

lemma CompactLoop_owned:
  assumes "owned s (Some p) (p # ps) fs"
  shows "\<exists>s' ps1 ps2. CompactLoop p (AvailableDataLength (heap s p)) s = Some s' \<and> ps = ps1 @ ps2 \<and>
    compacted s s' p ps1 ps2 fs"
  using assms
proof (induction ps arbitrary: s fs)
  case Nil
  then have "pnext (heap s p) = None" by (simp add: owned_def)
  then have "CompactLoop p (AvailableDataLength (heap s p)) s = Some s" by (subst CompactLoop.simps) simp
  with Nil show ?case by (auto simp: compacted_def)
next
  case (Cons q qs)
  let ?a = "AvailableDataLength (heap s p)"
  have nx: "pnext (heap s p) = Some q" "ref (heap s q) = 1" "wf_buf (heap s p)" "wf_buf (heap s q)"
    using Cons.prems by (auto simp: owned_def)
  show ?case
  proof (cases "?a = 0")
    case True
    then have "CompactLoop p ?a s = Some s" using nx(1) by (subst CompactLoop.simps) simp
    with Cons.prems True show ?thesis by (intro exI [of _ s] exI [of _ "[]"] exI [of _ "q # qs"]) (simp add: compacted_def)
  next
    case False
    define m where "m = min (len (heap s q)) ?a"
    define s1 where "s1 = moved_bytes p q m s"
    have m: "m \<le> len (heap s q)" "m \<le> ?a" by (simp_all add: m_def)
    note o1 = moved_bytes_owned [OF Cons.prems m, folded s1_def]
    have a1: "AvailableDataLength (heap s1 p) = ?a - m" using filled_ok(3) [OF nx(3,4) m] o1(3) by simp
    have t1: "tot_len (heap s1 p) = tot_len (heap s p)" "pnext (heap s1 p) = Some q"
      using o1(3) nx(1) by (simp_all add: filled_def)
    note step = CompactLoop_step [OF nx(1) False nx(2) m_def refl, folded moved_bytes_def, folded s1_def]
    show ?thesis
    proof (cases "len (heap s q) - m = 0")
      case True
      then have "contents (heap s1 q) = []" using o1(4) by (simp add: contents_def emptied_def)
      then obtain s2 where s2: "FreeHead q s1 = Some (pnext (heap s1 q), s2)" "heap s2 p = heap s1 p"
        "owned (s2\<lparr>heap := (heap s2)(p := (heap s1 p)\<lparr>pnext := pnext (heap s1 q)\<rparr>)\<rparr>) (Some p) (p # qs) (q # fs)"
        "chain_data (heap (s2\<lparr>heap := (heap s2)(p := (heap s1 p)\<lparr>pnext := pnext (heap s1 q)\<rparr>)\<rparr>)) (p # qs) =
           chain_data (heap s1) (p # q # qs)"
        by (rule unlink_owned [OF o1(1)])
      define s3 where "s3 = s2\<lparr>heap := (heap s2)(p := (heap s1 p)\<lparr>pnext := pnext (heap s1 q)\<rparr>)\<rparr>"
      have h3: "heap s3 p = (heap s1 p)\<lparr>pnext := pnext (heap s1 q)\<rparr>" by (simp add: s3_def)
      have a3: "AvailableDataLength (heap s3 p) = ?a - m"
        using h3 a1 by (simp add: AvailableDataLength_def MaxDataLength_def AllocSize_def)
      obtain s' ps1 ps2 where ih: "CompactLoop p (?a - m) s3 = Some s'" "qs = ps1 @ ps2" "compacted s3 s' p ps1 ps2 (q # fs)"
        using Cons.IH [OF s2(3), folded s3_def] a3 by auto
      have "CompactLoop p ?a s = Some s'" using step True s2(1,2) ih(1) by (simp add: s3_def)
      moreover have "compacted s s' p (q # ps1) ps2 fs"
        using ih(2,3) s2(4) [folded s3_def] o1(2) h3 t1(1) by (simp add: compacted_def)
      ultimately show ?thesis using ih(2) by (intro exI [of _ s'] exI [of _ "q # ps1"] exI [of _ ps2]) simp
    next
      case nz: False
      then have ma: "m = ?a" by (auto simp: m_def min_def split: if_splits)
      then have "CompactLoop p ?a s = CompactLoop p 0 s1" using step nz by simp
      moreover have "CompactLoop p 0 s1 = Some s1" using t1(2) by (subst CompactLoop.simps) simp
      ultimately show ?thesis using o1(1,2) t1(1) a1 ma
        by (intro exI [of _ s1] exI [of _ "[]"] exI [of _ "q # qs"]) (simp add: compacted_def)
    qed
  qed
qed

lemma CompactHead_owned:
  assumes "owned s (Some p) (p # ps) fs"
  shows "\<exists>s' ps1 ps2. CompactHead p s = Some s' \<and> ps = ps1 @ ps2 \<and> compacted s s' p ps1 ps2 fs"
proof -
  let ?b = "heap s p"
  define b1 where "b1 = (if payload ?b \<noteq> 0 then ?b\<lparr>block := overwrite 0 (contents ?b) (block ?b), payload := 0\<rparr> else ?b)"
  define s1 where "s1 = s\<lparr>heap := (heap s)(p := b1)\<rparr>"
  have wf: "wf_buf ?b" "p \<notin> set ps" "ref ?b = 1" using assms by (auto simp: owned_def)
  have fit: "0 + length (contents ?b) \<le> length (block ?b)"
    using wf(1) length_contents [OF wf(1)] by (simp add: wf_buf_def AllocSize_def)
  have b1: "wf_buf b1" "contents b1 = contents ?b" "tot_len b1 = tot_len ?b" "pnext b1 = pnext ?b" "ref b1 = 1"
    using wf fit length_overwrite [OF fit] drop_overwrite [OF fit] length_contents [OF wf(1)]
    by (auto simp: b1_def wf_buf_def AllocSize_def contents_def [of "?b\<lparr>block := _, payload := _\<rparr>"])
  have o1: "owned s1 (Some p) (p # ps) fs" unfolding s1_def using assms b1 by (intro owned_update) auto
  have h1: "heap s1 p = b1" "chain_data (heap s1) ps = chain_data (heap s) ps"
    using wf(2) by (simp_all add: s1_def)
  obtain s' ps1 ps2 where c: "CompactLoop p (AvailableDataLength b1) s1 = Some s'" "ps = ps1 @ ps2" "compacted s1 s' p ps1 ps2 fs"
    using CompactLoop_owned [OF o1] h1(1) by auto
  have "CompactHead p s = Some s'" using c(1) by (simp add: CompactHead_def Let_def b1_def s1_def)
  moreover have "compacted s s' p ps1 ps2 fs" using c(2,3) h1 b1 by (simp add: compacted_def)
  ultimately show ?thesis using c(2) by blast
qed


section \<open>A window on memory\<close>

text \<open>
  What a protocol layer needs of a buffer: the first \<open>n\<close> bytes from its start can be seen
  (\<open>view\<close>), the start can be moved either way, bytes can be stored, and the length decides how much of
  the view counts as data.  \<open>cap\<close> bytes are there behind the start, \<open>start\<close> bytes in front of it.
\<close>

locale memory_window =
  fixes ok :: "'b \<Rightarrow> bool"
    and start cap :: "'b \<Rightarrow> nat"
    and view :: "nat \<Rightarrow> 'b \<Rightarrow> u8 list"
    and data :: "'b \<Rightarrow> u8 list"
    and set_start :: "int \<Rightarrow> 'b \<Rightarrow> 'b"
    and set_length :: "u16 \<Rightarrow> 'b \<Rightarrow> 'b"
    and store :: "nat \<Rightarrow> u8 list \<Rightarrow> 'b \<Rightarrow> 'b"
  assumes data_view: "ok b \<Longrightarrow> data b = view (length (data b)) b"
    and data_fits: "ok b \<Longrightarrow> length (data b) \<le> cap b"
    and length_view: "\<lbrakk>ok b; n \<le> cap b\<rbrakk> \<Longrightarrow> length (view n b) = n"
    and take_view: "take m (view n b) = view (min m n) b"
    and retract: "\<lbrakk>ok b; k \<le> start b; b' = set_start (int (start b - k)) b\<rbrakk> \<Longrightarrow>
      ok b' \<and> start b' = start b - k \<and> cap b' = cap b + k \<and> drop k (view (k + n) b') = view n b \<and>
      length (data b') = k + length (data b)"
    and advance: "\<lbrakk>ok b; k \<le> length (data b); b' = set_start (int (start b + k)) b\<rbrakk> \<Longrightarrow>
      ok b' \<and> start b' = start b + k \<and> cap b' = cap b - k \<and> data b' = drop k (data b)"
    and resize: "\<lbrakk>ok b; unat w \<le> cap b; b' = set_length w b\<rbrakk> \<Longrightarrow>
      ok b' \<and> start b' = start b \<and> cap b' = cap b \<and> data b' = view (unat w) b"
    and stored: "\<lbrakk>ok b; start b \<le> i; i + length bs \<le> start b + cap b; b' = store i bs b\<rbrakk> \<Longrightarrow>
      ok b' \<and> start b' = start b \<and> cap b' = cap b \<and> length (data b') = length (data b) \<and>
      (\<forall>n. i + length bs \<le> start b + n \<longrightarrow> n \<le> cap b \<longrightarrow>
        view n b' = take (i - start b) (view n b) @ bs @ drop (i - start b + length bs) (view n b))"
begin

lemma view_in: "\<lbrakk>ok b; n \<le> length (data b)\<rbrakk> \<Longrightarrow> view n b = take n (data b)"
  using data_view [of b] take_view [of n "length (data b)" b] by (simp add: min_absorb1)

text \<open>Putting a head in front of the data.\<close>

lemma prepended:
  assumes "ok b" "length h \<le> start b"
    "b1 = set_start (int (start b - length h)) b" "b2 = store (start b - length h) h b1"
  shows "ok b2" "start b2 = start b - length h" "cap b2 = cap b + length h" "data b2 = h @ data b"
proof -
  note r = retract [OF assms(1-3), of "length (data b)"]
  have s: "ok b2 \<and> start b2 = start b1 \<and> cap b2 = cap b1 \<and> length (data b2) = length (data b1) \<and>
      (\<forall>n. length h \<le> n \<longrightarrow> n \<le> cap b1 \<longrightarrow> view n b2 = h @ drop (length h) (view n b1))"
    using stored [of b1 "start b - length h" h b2] r assms(4) by auto
  then show "ok b2" "start b2 = start b - length h" "cap b2 = cap b + length h" using r by auto
  have "length h + length (data b) \<le> cap b1" using r data_fits [OF assms(1)] by simp
  then have "view (length h + length (data b)) b2 = h @ view (length (data b)) b" using s r by simp
  then show "data b2 = h @ data b" using s r data_view [of b2] data_view [OF assms(1)] by simp
qed

text \<open>Building a message: a head in front of the old start, a body from the old start on, then the length.\<close>

lemma framed:
  assumes "ok b" "length h \<le> start b" "length body \<le> cap b" "length h + length body < 2 ^ 16"
    "b1 = set_start (int (start b - length h)) b" "b2 = store (start b - length h) h b1"
    "b3 = store (start b) body b2" "b4 = set_length (of_nat (length h + length body)) b3"
  shows "ok b4" "start b4 = start b - length h" "data b4 = h @ body"
proof -
  let ?n = "length h + length body"
  note p = prepended [OF assms(1,2,5,6)]
  have n: "?n \<le> cap b2" using p(3) assms(3) by simp
  have s2: "view ?n b2 = take (length h) (view ?n b2) @ drop (length h) (view ?n b2)" by simp
  have h2: "take (length h) (view ?n b2) = h"
    using take_view [of "length h" ?n b2] view_in [OF p(1), of "length h"] p(4) by (simp add: min_absorb1)
  have s: "ok b3" "start b3 = start b2" "cap b3 = cap b2"
    "view ?n b3 = take (length h) (view ?n b2) @ body @ drop (length h + length body) (view ?n b2)"
    using stored [of b2 "start b" body b3] p(1-3) assms(2,3,7) n by auto
  have "view ?n b3 = h @ body" using s(4) h2 length_view [OF p(1) n] by simp
  moreover have "unat (of_nat ?n :: u16) = ?n" using assms(4) by (intro unat_of_nat_u16) simp
  ultimately show "ok b4" "start b4 = start b - length h" "data b4 = h @ body"
    using resize [OF s(1), of "of_nat ?n" b4] assms(8) s(2,3) n p(2) by auto
qed

end

definition SetLen :: "u16 \<Rightarrow> PacketBuffer \<Rightarrow> PacketBuffer" where
  "SetLen n b = snd (SetLength n b)"

definition room :: "PacketBuffer \<Rightarrow> nat" where
  "room b = AllocSize b - payload b"

definition window :: "nat \<Rightarrow> PacketBuffer \<Rightarrow> u8 list" where
  "window n b = take n (drop (payload b) (block b))"

lemma poke_window:
  assumes "wf_buf b" "payload b \<le> i" "i + length bs \<le> payload b + room b" "n \<le> room b" "i + length bs \<le> payload b + n"
  shows "window n (poke i bs b) =
    take (i - payload b) (window n b) @ bs @ drop (i - payload b + length bs) (window n b)"
proof -
  obtain k where k: "i = payload b + k" using assms(2) le_Suc_ex by blast
  have len: "payload b + room b = length (block b)" using assms(1) by (simp add: room_def wf_buf_def AllocSize_def)
  have fit: "k + length bs \<le> n" using assms(5) k by simp
  have d: "drop (payload b) (overwrite i bs (block b)) =
      take k (drop (payload b) (block b)) @ bs @ drop (k + length bs) (drop (payload b) (block b))"
    using assms(3) len k by (simp add: overwrite_def drop_take ac_simps)
  have m: "min n k = k" "n - k - length bs = n - (k + length bs)" using fit by simp_all
  have kk: "k \<le> length (block b) - payload b" using assms(3) len k by simp
  have w: "window n (poke i bs b) = take n (take k (drop (payload b) (block b)) @ bs @ drop (k + length bs) (drop (payload b) (block b)))"
    unfolding window_def poke_def by (simp add: d)
  show ?thesis
    unfolding w using fit kk m by (simp add: window_def k drop_take min_absorb2 ac_simps)
qed

interpretation pbuf: memory_window wf_buf payload room window contents SetStart SetLen poke
proof
  fix b b' :: PacketBuffer and n k i m :: nat and bs :: "u8 list" and w :: u16
  show "take m (window n b) = window (min m n) b" by (simp add: window_def)
  assume wf: "wf_buf b"
  have len: "payload b + room b = length (block b)" using wf by (simp add: room_def wf_buf_def AllocSize_def)
  show "contents b = window (length (contents b)) b" using length_contents [OF wf] by (simp add: window_def contents_def)
  show "length (contents b) \<le> room b" using length_contents [OF wf] wf by (auto simp: room_def wf_buf_def)
  show "length (window n b) = n" if "n \<le> room b" using that len by (simp add: window_def)
  show "wf_buf b' \<and> payload b' = payload b - k \<and> room b' = room b + k \<and> drop k (window (k + n) b') = window n b \<and>
      length (contents b') = k + length (contents b)"
    if k: "k \<le> payload b" and b': "b' = SetStart (int (payload b - k)) b"
  proof -
    have le: "payload b - k \<le> payload b + unat (len b)" by simp
    note s = SetStart_inside [OF wf le, folded b']
    have "drop k (window (k + n) b') = window n b" using s(2,4) k by (simp add: window_def drop_take)
    moreover have "length (contents b') = k + length (contents b)"
      using length_contents [OF s(1)] length_contents [OF wf] s(3) k by simp
    ultimately show ?thesis using s k len by (simp add: room_def AllocSize_def)
  qed
  show "wf_buf b' \<and> payload b' = payload b + k \<and> room b' = room b - k \<and> contents b' = drop k (contents b)"
    if k: "k \<le> length (contents b)" and b': "b' = SetStart (int (payload b + k)) b"
  proof -
    have kl: "k \<le> unat (len b)" using k length_contents [OF wf] by simp
    note s = SetStart_inside [OF wf, of "payload b + k", folded b']
    show ?thesis using s kl SetStart_consume [OF wf kl, folded b'] by (auto simp: room_def AllocSize_def)
  qed
  show "wf_buf b' \<and> payload b' = payload b \<and> room b' = room b \<and> contents b' = window (unat w) b"
    if w: "unat w \<le> room b" and b': "b' = SetLen w b"
    using SetLength_wf [OF wf, of w] w b'
    by (auto simp: SetLen_def room_def window_def contents_def AllocSize_def)
  show "wf_buf b' \<and> payload b' = payload b \<and> room b' = room b \<and> length (contents b') = length (contents b) \<and>
      (\<forall>n. i + length bs \<le> payload b + n \<longrightarrow> n \<le> room b \<longrightarrow>
        window n b' = take (i - payload b) (window n b) @ bs @ drop (i - payload b + length bs) (window n b))"
    if i: "payload b \<le> i" "i + length bs \<le> payload b + room b" and b': "b' = poke i bs b"
  proof -
    have "length (block b') = length (block b)" using i(2) len b' by (simp add: poke_def length_overwrite)
    then show ?thesis using poke_window [OF wf i] wf b'
      by (auto simp: poke_def wf_buf_def room_def AllocSize_def contents_def)
  qed
qed

section \<open>Properties\<close>

text \<open>
  C28. Appending a chain to another terminates on every pair of disjoint, well-formed chains; the
  result is one chain holding the first chain's data followed by the second's, every total length is
  again the sum of the lengths from that buffer on, and no other buffer is touched.
\<close>

theorem add_to_end_concatenates:
  assumes "chain h (Some p) (p # ps)" "chain h (Some q) (q # qs)" "distinct ((p # ps) @ (q # qs))"
    "totals_ok h (p # ps)" "totals_ok h (q # qs)"
  shows "\<exists>h'. AddToEnd p q h = Some h' \<and> chain h' (Some p) ((p # ps) @ (q # qs)) \<and>
    chain_data h' ((p # ps) @ (q # qs)) = chain_data h (p # ps) @ chain_data h (q # qs) \<and>
    totals_ok h' ((p # ps) @ (q # qs)) \<and> (\<forall>x. x \<notin> set (p # ps) \<longrightarrow> h' x = h x)"
  using AddToEnd_chain [OF assms] by blast

theorem add_to_end_concatenates_witness:
  "\<exists>h'. AddToEnd 0 1 (\<lambda>_. \<lparr>pnext = None, payload = 0, tot_len = 1, len = 1, ref = 1, block = [7]\<rparr>) = Some h' \<and>
     chain h' (Some 0) [0, 1] \<and> chain_data h' [0, 1] = [7, 7] \<and> totals_ok h' [0, 1]"
  using add_to_end_concatenates [of "\<lambda>_. \<lparr>pnext = None, payload = 0, tot_len = 1, len = 1, ref = 1, block = [7]\<rparr>" 0 "[]" 1 "[]"]
  by (auto simp: contents_def chain_data_def)

text \<open>
  C27. Consuming \<open>n\<close> bytes of a chain always returns, and frees exactly the buffers that the request empties: those before the byte at
  which \<open>n\<close> is reached, no buffer that still has data and none behind the last byte asked for.  They are back on the free list, in order; the
  caller holds the others, of which the first starts behind the consumed bytes and the rest are unchanged, so that the
  data left are the chain's data without the first \<open>n\<close> bytes.
\<close>

theorem consume_drops_exactly:
  assumes "owned s x ps fs"
  shows "\<exists>y s' ps1 ps2. Consume x n s = Some (y, s') \<and> ps = ps1 @ ps2 \<and> emptied_by (unat n) (heap s) ps1 ps2 \<and>
    owned s' y ps2 (rev ps1 @ fs) \<and> kept_of n (heap s) (heap s') ps1 ps2 \<and>
    chain_data (heap s') ps2 = drop (unat n) (chain_data (heap s) ps)"
  by (rule Consume_owned [OF assms])

theorem consume_drops_exactly_witness:
  "\<exists>s'. Consume (Some 0) 1
     \<lparr>heap = (\<lambda>_. \<lparr>pnext = None, payload = 0, tot_len = 2, len = 2, ref = 1, block = [8, 9]\<rparr>)
        (0 := \<lparr>pnext = Some 1, payload = 1, tot_len = 3, len = 1, ref = 1, block = [6, 7]\<rparr>), sFreeList = None\<rparr> = Some (Some 1, s') \<and>
     owned s' (Some 1) [1] [0] \<and> chain_data (heap s') [1] = [8, 9]"
proof -
  let ?s = "\<lparr>heap = (\<lambda>_. \<lparr>pnext = None, payload = 0, tot_len = 2, len = 2, ref = 1, block = [8, 9]\<rparr>)
        (0 := \<lparr>pnext = Some 1, payload = 1, tot_len = 3, len = 1, ref = 1, block = [6, 7]\<rparr>), sFreeList = None\<rparr>"
  have "owned ?s (Some 0) [0, 1] []" by (simp add: owned_def pool_ok_def wf_buf_def AllocSize_def)
  from consume_drops_exactly [OF this, of 1] obtain y s' ps1 ps2 where c: "Consume (Some 0) 1 ?s = Some (y, s')" "[0, 1] = ps1 @ ps2"
    "emptied_by (unat (1 :: u16)) (heap ?s) ps1 ps2" "owned s' y ps2 (rev ps1 @ [])"
    "chain_data (heap s') ps2 = drop (unat (1 :: u16)) (chain_data (heap ?s) [0, 1])" by blast
  have "ps1 = [0] \<and> ps2 = [1]" using c(2,3) by (auto simp: emptied_by_def Cons_eq_append_conv contents_def)
  moreover from this have "y = Some 1" using c(4) by (simp add: owned_def)
  ultimately show ?thesis using c by (auto simp: contents_def)
qed

text \<open>
  \<^verbatim>\<open>CompactHead\<close> of a chain whose buffers are not shared returns, keeps the chain's data
  and its total length, moves as much of it as fits into the head, gives the emptied buffers back to
  the pool, and leaves a tail only if the head is full.
\<close>

theorem compact_head_keeps_data:
  assumes "owned s (Some p) (p # ps) fs"
  shows "\<exists>s' ps1 ps2. CompactHead p s = Some s' \<and> ps = ps1 @ ps2 \<and> owned s' (Some p) (p # ps2) (rev ps1 @ fs) \<and>
    chain_data (heap s') (p # ps2) = chain_data (heap s) (p # ps) \<and>
    tot_len (heap s' p) = tot_len (heap s p) \<and> (ps2 = [] \<or> AvailableDataLength (heap s' p) = 0)"
proof -
  obtain s' ps1 ps2 where c: "CompactHead p s = Some s'" "ps = ps1 @ ps2" "compacted s s' p ps1 ps2 fs"
    using CompactHead_owned [OF assms] by blast
  then show ?thesis by (intro exI [of _ s'] exI [of _ ps1] exI [of _ ps2]) (simp add: compacted_def)
qed

theorem compact_head_keeps_data_witness:
  "\<exists>s' ps1 ps2. CompactHead 0
     \<lparr>heap = (\<lambda>_. \<lparr>pnext = None, payload = 0, tot_len = 2, len = 2, ref = 1, block = [8, 9]\<rparr>)
        (0 := \<lparr>pnext = Some 1, payload = 1, tot_len = 3, len = 1, ref = 1, block = [6, 7]\<rparr>), sFreeList = None\<rparr> = Some s' \<and>
     [1] = ps1 @ ps2 \<and> owned s' (Some 0) (0 # ps2) (rev ps1) \<and> chain_data (heap s') (0 # ps2) = [7, 8, 9] \<and>
     tot_len (heap s' 0) = 3"
proof -
  let ?s = "\<lparr>heap = (\<lambda>_. \<lparr>pnext = None, payload = 0, tot_len = 2, len = 2, ref = 1, block = [8, 9]\<rparr>)
        (0 := \<lparr>pnext = Some 1, payload = 1, tot_len = 3, len = 1, ref = 1, block = [6, 7]\<rparr>), sFreeList = None\<rparr>"
  have o: "owned ?s (Some 0) (0 # [1]) []" by (simp add: owned_def pool_ok_def wf_buf_def AllocSize_def)
  have d: "chain_data (heap ?s) (0 # [1]) = [7, 8, 9]" "tot_len (heap ?s 0) = 3" by (simp_all add: contents_def)
  show ?thesis using compact_head_keeps_data [OF o] unfolding d append_Nil2 by blast
qed

text \<open>
  Freeing a chain returns every buffer up to the first one that somebody else still
  refers to; that one only loses a reference, and it and everything behind it stay linked and keep their
  data.
\<close>

theorem free_stops_at_shared_buffer:
  assumes "chain (heap s) x (ps @ q # qs)" "distinct ((ps @ q # qs) @ fs)" "pool_ok s fs"
    "list_all (\<lambda>p. ref (heap s p) = 1) ps" "1 < ref (heap s q)"
  shows "\<exists>s'. Free x s = Some s' \<and> pool_ok s' (rev ps @ fs) \<and> chain (heap s') (Some q) (q # qs) \<and>
    chain_data (heap s') (q # qs) = chain_data (heap s) (q # qs) \<and> ref (heap s' q) = ref (heap s q) - 1"
  using Free_shared [OF assms(1-3)] assms(4,5) by (auto simp: list_all_iff)

theorem free_stops_at_shared_buffer_witness:
  "\<exists>s'. Free (Some 0)
     \<lparr>heap = (\<lambda>_. \<lparr>pnext = None, payload = 0, tot_len = 2, len = 2, ref = 2, block = [8, 9]\<rparr>)
        (0 := \<lparr>pnext = Some 1, payload = 1, tot_len = 3, len = 1, ref = 1, block = [6, 7]\<rparr>), sFreeList = None\<rparr> = Some s' \<and>
     pool_ok s' [0] \<and> chain (heap s') (Some 1) [1] \<and> chain_data (heap s') [1] = [8, 9] \<and> ref (heap s' 1) = 1"
  using free_stops_at_shared_buffer [of "\<lparr>heap = (\<lambda>_. \<lparr>pnext = None, payload = 0, tot_len = 2, len = 2, ref = 2, block = [8, 9]\<rparr>)
        (0 := \<lparr>pnext = Some 1, payload = 1, tot_len = 3, len = 1, ref = 1, block = [6, 7]\<rparr>), sFreeList = None\<rparr>" "Some 0" "[0]" 1 "[]" "[]"]
  by (simp add: pool_ok_def chain_data_def contents_def del: One_nat_def)

end
