(* ===== verification/Message_Layer.thy ===== *)
theory Message_Layer
  imports Packet_Buffer Message_Crypto Fabric_State
begin

text \<open>
  The message layer: encoding, protection and decoding of messages, \<^verbatim>\<open>src/src/lib/core/WeaveMessageLayer.cpp\<close>.
  Pointers into a packet buffer are offsets from the start of its block.  The block cipher, the hash, the
  key store of the platform and what its persisted storage reports on a write are a record \<open>Platform\<close>.
\<close>

section \<open>Header\<close>

abbreviation (input) kMsgHeaderField_FlagsMask :: u16 where "kMsgHeaderField_FlagsMask \<equiv> 0x0F0F"
abbreviation (input) kMsgHeaderField_EncryptionTypeMask :: u16 where "kMsgHeaderField_EncryptionTypeMask \<equiv> 0x00F0"
abbreviation (input) kMsgHeaderField_MessageVersionMask :: u16 where "kMsgHeaderField_MessageVersionMask \<equiv> 0xF000"
abbreviation (input) kMsgHeaderField_ReservedFlagsMask :: u16 where "kMsgHeaderField_ReservedFlagsMask \<equiv> 0x000F"
abbreviation (input) kMsgHeaderField_MessageHMACMask :: u16 where "kMsgHeaderField_MessageHMACMask \<equiv> NOT 0x0B00"

abbreviation (input) kWeaveMessageFlag_DestNodeId :: u32 where "kWeaveMessageFlag_DestNodeId \<equiv> 0x100"
abbreviation (input) kWeaveMessageFlag_SourceNodeId :: u32 where "kWeaveMessageFlag_SourceNodeId \<equiv> 0x200"
abbreviation (input) kWeaveMessageFlag_TunneledData :: u32 where "kWeaveMessageFlag_TunneledData \<equiv> 0x400"
abbreviation (input) kWeaveMessageFlag_MsgCounterSyncReq :: u32 where "kWeaveMessageFlag_MsgCounterSyncReq \<equiv> 0x800"
abbreviation (input) kWeaveMessageFlag_ReuseMessageId :: u32 where "kWeaveMessageFlag_ReuseMessageId \<equiv> 0x10"
abbreviation (input) kWeaveMessageFlag_ReuseSourceId :: u32 where "kWeaveMessageFlag_ReuseSourceId \<equiv> 0x20"
abbreviation (input) kWeaveMessageFlag_MessageEncoded :: u32 where "kWeaveMessageFlag_MessageEncoded \<equiv> 0x1000"
abbreviation (input) kWeaveMessageFlag_DuplicateMessage :: u32 where "kWeaveMessageFlag_DuplicateMessage \<equiv> 0x8000"
abbreviation (input) kWeaveMessageFlag_PeerGroupMsgIdNotSynchronized :: u32 where "kWeaveMessageFlag_PeerGroupMsgIdNotSynchronized \<equiv> 0x10000"

abbreviation (input) kWeaveMessageVersion_V1 :: u8 where "kWeaveMessageVersion_V1 \<equiv> 1"
abbreviation (input) kWeaveMessageVersion_V2 :: u8 where "kWeaveMessageVersion_V2 \<equiv> 2"
abbreviation (input) kKeyIdLen :: nat where "kKeyIdLen \<equiv> 2"
abbreviation (input) kMinPayloadLen :: nat where "kMinPayloadLen \<equiv> 1"

text \<open>The key id of a message is \<open>MsgKeyId\<close>; the connection and the packet information are arguments where they are used.\<close>

record WeaveMessageInfo =
  SourceNodeId :: u64
  DestNodeId :: u64
  MessageId :: u32
  Flags :: u32
  MsgKeyId :: u16
  MessageVersion :: u8
  EncryptionType :: u8
  PeerAuthMode :: u16

definition MsgInfo_Clear :: WeaveMessageInfo where
  "MsgInfo_Clear = \<lparr>SourceNodeId = 0, DestNodeId = 0, MessageId = 0, Flags = 0, MsgKeyId = 0, MessageVersion = 0,
     EncryptionType = 0, PeerAuthMode = 0\<rparr>"

definition EncodeHeaderField :: "WeaveMessageInfo \<Rightarrow> u16" where
  "EncodeHeaderField msgInfo =
     (ucast (Flags msgInfo) AND kMsgHeaderField_FlagsMask) OR
     (push_bit 4 (ucast (EncryptionType msgInfo)) AND kMsgHeaderField_EncryptionTypeMask) OR
     (push_bit 12 (ucast (MessageVersion msgInfo)) AND kMsgHeaderField_MessageVersionMask)"

definition DecodeHeaderField :: "u16 \<Rightarrow> WeaveMessageInfo \<Rightarrow> WeaveMessageInfo" where
  "DecodeHeaderField headerField msgInfo = msgInfo\<lparr>
     Flags := ucast (headerField AND kMsgHeaderField_FlagsMask),
     EncryptionType := ucast (drop_bit 4 (headerField AND kMsgHeaderField_EncryptionTypeMask)),
     MessageVersion := ucast (drop_bit 12 (headerField AND kMsgHeaderField_MessageVersionMask))\<rparr>"

text \<open>
  The error, the header as far as it was decoded, and the bytes behind it.
\<close>

definition DecodeHeader :: "u64 \<Rightarrow> u8 list \<Rightarrow> WeaveMessageInfo \<Rightarrow> WEAVE_ERROR \<times> WeaveMessageInfo \<times> u8 list" where
  "DecodeHeader localNodeId msg msgInfo =
     (if length msg < 6 then (WEAVE_ERROR_INVALID_MESSAGE_LENGTH, msgInfo, msg)
      else
        let (headerField, p) = Read16 msg in
        if headerField AND kMsgHeaderField_ReservedFlagsMask \<noteq> 0 then (WEAVE_ERROR_INVALID_MESSAGE_FLAG, msgInfo, p)
        else
          let m1 = DecodeHeaderField headerField msgInfo in
          if MessageVersion m1 \<noteq> kWeaveMessageVersion_V1 \<and> MessageVersion m1 \<noteq> kWeaveMessageVersion_V2
          then (WEAVE_ERROR_UNSUPPORTED_MESSAGE_VERSION, m1, p)
          else
            let (msgId, p) = Read32 p; m2 = m1\<lparr>MessageId := msgId\<rparr>;
                hasSource = (Flags m2 AND kWeaveMessageFlag_SourceNodeId \<noteq> 0) in
            if hasSource \<and> length p < 8 then (WEAVE_ERROR_INVALID_MESSAGE_LENGTH, m2, p)
            else
              let (m3, p) = (if hasSource then let (n, q) = Read64 p in (m2\<lparr>SourceNodeId := n\<rparr>, q) else (m2, p));
                  hasDest = (Flags m3 AND kWeaveMessageFlag_DestNodeId \<noteq> 0) in
              if hasDest \<and> length p < 8 then (WEAVE_ERROR_INVALID_MESSAGE_LENGTH, m3, p)
              else
                let (m4, p) = (if hasDest then let (n, q) = Read64 p in (m3\<lparr>DestNodeId := n\<rparr>, q)
                               else (m3\<lparr>DestNodeId := localNodeId\<rparr>, p)) in
                if EncryptionType m4 \<noteq> kWeaveEncryptionType_None
                then if length p < kKeyIdLen then (WEAVE_ERROR_INVALID_MESSAGE_LENGTH, m4, p)
                     else let (keyId, q) = Read16 p in (WEAVE_NO_ERROR, m4\<lparr>MsgKeyId := keyId\<rparr>, q)
                else (WEAVE_NO_ERROR, m4\<lparr>Flags := Flags m4 AND NOT kWeaveMessageFlag_MsgCounterSyncReq, MsgKeyId := 0\<rparr>, p))"

section \<open>Protection\<close>

record 'k Platform =
  AES128 :: block_cipher
  SHA1 :: hash
  KeyOps :: "'k KeyStoreOps"
  StorageWrite :: WEAVE_ERROR

definition Encrypt_AES128CTRSHA1 :: "block_cipher \<Rightarrow> WeaveMessageInfo \<Rightarrow> u8 list \<Rightarrow> u8 list \<Rightarrow> u8 list" where
  "Encrypt_AES128CTRSHA1 E msgInfo key inData =
     fst (EncryptData E inData (SetWeaveMessageCounter (SourceNodeId msgInfo) (MessageId msgInfo) (SetKey key CTRMode_new)))"

definition ComputeIntegrityCheck_AES128CTRSHA1 :: "hash \<Rightarrow> WeaveMessageInfo \<Rightarrow> u8 list \<Rightarrow> u8 list \<Rightarrow> u8 list" where
  "ComputeIntegrityCheck_AES128CTRSHA1 H msgInfo key inData =
     (let hmac = HMAC_Begin H key HMAC_new;
          encodedBuf = Write64 (SourceNodeId msgInfo) @ Write64 (DestNodeId msgInfo) @
            (if MessageVersion msgInfo = kWeaveMessageVersion_V2
             then Write16 (EncodeHeaderField msgInfo AND kMsgHeaderField_MessageHMACMask) @ Write32 (MessageId msgInfo) else [])
      in fst (HMAC_Finish H (HMAC_AddData inData (HMAC_AddData encodedBuf hmac))))"

section \<open>Encoding\<close>

text \<open>The number of bytes in front of and behind the payload; the codes for messages that cannot be encoded.\<close>

definition MessageOverhead :: "WeaveMessageInfo \<Rightarrow> u16 \<Rightarrow> WEAVE_ERROR \<times> nat \<times> nat" where
  "MessageOverhead msgInfo payloadLen =
     (let headLen = 6 + (if Flags msgInfo AND kWeaveMessageFlag_SourceNodeId \<noteq> 0 then 8 else 0) +
                    (if Flags msgInfo AND kWeaveMessageFlag_DestNodeId \<noteq> 0 then 8 else 0)
      in if EncryptionType msgInfo = kWeaveEncryptionType_None then (WEAVE_NO_ERROR, headLen, 0)
         else if EncryptionType msgInfo = kWeaveEncryptionType_AES128CTRSHA1
         then if payloadLen = 0 then (WEAVE_ERROR_INVALID_MESSAGE_LENGTH, headLen, 0)
              else (WEAVE_NO_ERROR, headLen + 2, kDigestLength)
         else (WEAVE_ERROR_UNSUPPORTED_ENCRYPTION_TYPE, headLen, 0))"

definition MessageHead :: "WeaveMessageInfo \<Rightarrow> u8 list" where
  "MessageHead msgInfo =
     Write16 (EncodeHeaderField msgInfo) @ Write32 (MessageId msgInfo) @
     (if Flags msgInfo AND kWeaveMessageFlag_SourceNodeId \<noteq> 0 then Write64 (SourceNodeId msgInfo) else []) @
     (if Flags msgInfo AND kWeaveMessageFlag_DestNodeId \<noteq> 0 then Write64 (DestNodeId msgInfo) else []) @
     (if EncryptionType msgInfo = kWeaveEncryptionType_None then [] else Write16 (MsgKeyId msgInfo))"

definition SealPayload :: "'k Platform \<Rightarrow> WeaveMessageInfo \<Rightarrow> WeaveEncryptionKey \<Rightarrow> nat \<Rightarrow> nat \<Rightarrow> PacketBuffer \<Rightarrow> PacketBuffer" where
  "SealPayload env msgInfo key payloadStart payloadLen b =
     (let bytes = (\<lambda>n b. take n (drop payloadStart (block b)));
          check = ComputeIntegrityCheck_AES128CTRSHA1 (SHA1 env) msgInfo (IntegrityKey key) (bytes payloadLen b);
          b1 = poke (payloadStart + payloadLen) check b
      in poke payloadStart (Encrypt_AES128CTRSHA1 (AES128 env) msgInfo (DataKey key) (bytes (payloadLen + kDigestLength) b1)) b1)"

text \<open>A new message id, unless the caller has one; the request for synchronization of a group key's counter.\<close>

definition AssignMessageId :: "'k Platform \<Rightarrow> WeaveMessageInfo \<Rightarrow> WeaveSessionState \<Rightarrow> 'k WeaveFabricState \<Rightarrow> WeaveMessageInfo \<times> 'k WeaveFabricState" where
  "AssignMessageId env msgInfo ss f =
     (if Flags msgInfo AND kWeaveMessageFlag_ReuseMessageId = 0
      then case NewMessageId (StorageWrite env) ss f of (i, g) \<Rightarrow> (msgInfo\<lparr>MessageId := i\<rparr>, g)
      else (msgInfo, f))"

definition RequestCounterSync :: "WeaveMessageInfo \<Rightarrow> WeaveSessionState \<Rightarrow> 'k WeaveFabricState \<Rightarrow> WeaveMessageInfo \<times> SyncAction list \<times> 'k WeaveFabricState" where
  "RequestCounterSync msgInfo ss f =
     (if SessionState_MessageIdNotSynchronized ss f \<and> IsAppGroupKey (ucast (MsgKeyId msgInfo))
      then case OnMsgCounterSyncReqSent (MessageId msgInfo) f of (acts, g) \<Rightarrow>
        (msgInfo\<lparr>Flags := Flags msgInfo OR kWeaveMessageFlag_MsgCounterSyncReq\<rparr>, acts, g)
      else (msgInfo, [], f))"

text \<open>
  What is left of \<^verbatim>\<open>EncodeMessage\<close> once the session is known: the message id, the request for counter
  synchronization, the header, the protected payload and the new length.
\<close>

definition EncodeInSession ::
  "'k Platform \<Rightarrow> WeaveMessageInfo \<Rightarrow> PacketBuffer \<Rightarrow> nat \<Rightarrow> nat \<Rightarrow> WeaveSessionState \<Rightarrow> 'k WeaveFabricState
    \<Rightarrow> WEAVE_ERROR \<times> WeaveMessageInfo \<times> PacketBuffer \<times> 'k WeaveFabricState \<times> SyncAction list" where
  "EncodeInSession env msgInfo b headLen tailLen ss f =
     (if Start b < headLen then (UNDEFINED_BEHAVIOR, msgInfo, b, f, []) else
      case AssignMessageId env msgInfo ss f of (m1, f1) \<Rightarrow>
      case RequestCounterSync m1 ss f1 of (m2, acts, f2) \<Rightarrow>
      let payloadStart = Start b;
          payloadLen = unat (DataLength b);
          p = payloadStart - headLen;
          b1 = SetStart (int p) b
      in if EncodeHeaderField m2 AND kMsgHeaderField_ReservedFlagsMask \<noteq> 0 then (WEAVE_ERROR_INVALID_ARGUMENT, m2, b1, f2, acts)
         else
           case (if DestNodeId m2 = kAnyNodeId then map_option snd (SessionState_IsDuplicateMessage ss (MessageId m2) f2) else Some f2) of
             None \<Rightarrow> (UNDEFINED_BEHAVIOR, m2, b1, f2, acts)
           | Some f3 \<Rightarrow>
               let b2 = poke p (MessageHead m2) b1;
                   finish = (\<lambda>b3. (WEAVE_NO_ERROR, m2\<lparr>Flags := Flags m2 OR kWeaveMessageFlag_MessageEncoded\<rparr>,
                     SetLen (of_nat (headLen + payloadLen + tailLen)) b3, f3, acts))
               in if EncryptionType m2 = kWeaveEncryptionType_None then finish b2
                  else case get_key ss f3 of
                         None \<Rightarrow> (UNDEFINED_BEHAVIOR, m2, b2, f3, acts)
                       | Some k \<Rightarrow> finish (SealPayload env m2 (EncKey k) payloadStart payloadLen b2))"

definition EncodeMessage ::
  "'k Platform \<Rightarrow> WeaveMessageInfo \<Rightarrow> PacketBuffer \<Rightarrow> nat option \<Rightarrow> u16 \<Rightarrow> u16 \<Rightarrow> 'k WeaveFabricState
    \<Rightarrow> WEAVE_ERROR \<times> WeaveMessageInfo \<times> PacketBuffer \<times> 'k WeaveFabricState \<times> SyncAction list" where
  "EncodeMessage env msgInfo b con maxLen reserve f =
     (if MessageVersion msgInfo \<noteq> kWeaveMessageVersion_V1 \<and> MessageVersion msgInfo \<noteq> kWeaveMessageVersion_V2
      then (WEAVE_ERROR_UNSUPPORTED_MESSAGE_VERSION, msgInfo, b, f, [])
      else if Flags msgInfo AND kWeaveMessageFlag_MessageEncoded \<noteq> 0
      then case DecodeHeader (LocalNodeId f) (contents b) MsgInfo_Clear of (err, existing, _) \<Rightarrow>
        if err \<noteq> WEAVE_NO_ERROR then (err, msgInfo, b, f, []) else (WEAVE_NO_ERROR, msgInfo\<lparr>DestNodeId := DestNodeId existing\<rparr>, b, f, [])
      else case MessageOverhead msgInfo (DataLength b) of (err, headLen, tailLen) \<Rightarrow>
        if err \<noteq> WEAVE_NO_ERROR then (err, msgInfo, b, f, [])
        else if headLen + unat (DataLength b) + tailLen > unat maxLen then (WEAVE_ERROR_MESSAGE_TOO_LONG, msgInfo, b, f, [])
        else case EnsureReservedSize (of_nat headLen + reserve) b of (fits, b1) \<Rightarrow>
          if \<not> fits then (WEAVE_ERROR_BUFFER_TOO_SMALL, msgInfo, b1, f, [])
          else if unat (DataLength b1) + tailLen > unat (MaxDataLength b1) then (WEAVE_ERROR_BUFFER_TOO_SMALL, msgInfo, b1, f, [])
          else case GetSessionState (KeyOps env) (SHA1 env)
                 (if DestNodeId msgInfo = kAnyNodeId then SourceNodeId msgInfo else DestNodeId msgInfo)
                 (MsgKeyId msgInfo) (EncryptionType msgInfo) con f of (err, ss, f1) \<Rightarrow>
            if err \<noteq> WEAVE_NO_ERROR then (err, msgInfo, b1, f1, [])
            else EncodeInSession env msgInfo b1 headLen tailLen ss f1)"

definition EncodeMessageWithLength ::
  "'k Platform \<Rightarrow> WeaveMessageInfo \<Rightarrow> PacketBuffer \<Rightarrow> nat option \<Rightarrow> u16 \<Rightarrow> 'k WeaveFabricState
    \<Rightarrow> WEAVE_ERROR \<times> WeaveMessageInfo \<times> PacketBuffer \<times> 'k WeaveFabricState \<times> SyncAction list" where
  "EncodeMessageWithLength env msgInfo b con maxLen f =
     (case EncodeMessage env msgInfo b con (maxLen - 2) 2 f of (err, m, b1, f1, acts) \<Rightarrow>
        if err \<noteq> WEAVE_NO_ERROR then (err, m, b1, f1, acts)
        else if Start b1 < 2 then (UNDEFINED_BEHAVIOR, m, b1, f1, acts)
        else
          let newMsgStart = Start b1 - 2; msgLen = DataLength b1;
              b2 = SetStart (int (Start b1) - 2) b1
          in (WEAVE_NO_ERROR, m, poke newMsgStart (Write16 msgLen) b2, f1, acts))"

text \<open>\<^verbatim>\<open>EncodeMessage\<close> for a destination address: which node ids have to be in the header.\<close>

definition EncodeMessageTo ::
  "'k Platform \<Rightarrow> IPAddress \<Rightarrow> WeaveMessageInfo \<Rightarrow> PacketBuffer \<Rightarrow> 'k WeaveFabricState
    \<Rightarrow> WEAVE_ERROR \<times> WeaveMessageInfo \<times> PacketBuffer \<times> 'k WeaveFabricState \<times> SyncAction list" where
  "EncodeMessageTo env destAddr msgInfo b f =
     (let m1 = (if Flags msgInfo AND kWeaveMessageFlag_ReuseSourceId = 0 then msgInfo\<lparr>SourceNodeId := LocalNodeId f\<rparr> else msgInfo);
          m2 = (if \<not> IsFabricAddress destAddr f then m1\<lparr>Flags := Flags m1 OR kWeaveMessageFlag_SourceNodeId\<rparr> else m1);
          m3 = (if \<not> IsIPv6ULA destAddr \<or> IPv6InterfaceIdToWeaveNodeId (InterfaceId destAddr) \<noteq> DestNodeId m2
                then m2\<lparr>Flags := Flags m2 OR kWeaveMessageFlag_DestNodeId\<rparr> else m2)
      in EncodeMessage env m3 b None 0xFFFF 0 f)"

definition SelectDestNodeIdAndAddress :: "'k WeaveFabricState \<Rightarrow> u64 \<Rightarrow> IPAddress \<Rightarrow> WEAVE_ERROR \<times> u64 \<times> IPAddress" where
  "SelectDestNodeIdAndAddress f destNodeId destAddr =
     (let addr = (if destAddr = Any then SelectNodeAddress destNodeId f else destAddr) in
      if destAddr = Any \<and> addr = Any then (WEAVE_ERROR_INVALID_ADDRESS, destNodeId, addr)
      else (WEAVE_NO_ERROR,
            if IsFabricAddress addr f \<and> destNodeId = kNodeIdNotSpecified then IPv6InterfaceIdToWeaveNodeId (InterfaceId addr) else destNodeId,
            addr))"

text \<open>
  \<^verbatim>\<open>isUDP\<close> chooses between the path's MTU and the 16-bit limit of a frame; all in unsigned 32-bit arithmetic.
\<close>

definition GetMaxWeavePayloadSize :: "PacketBuffer \<Rightarrow> bool \<Rightarrow> u32 \<Rightarrow> u32" where
  "GetMaxWeavePayloadSize b isUDP udpMTU =
     (let maxWeaveMessageSize = (if isUDP then udpMTU - 48 else 0xFFFF);
          maxWeavePayloadSize = maxWeaveMessageSize - 38 - 20;
          maxBufferablePayloadSize = ucast (AvailableDataLength b) - 20
      in if maxBufferablePayloadSize < maxWeavePayloadSize then maxBufferablePayloadSize else maxWeavePayloadSize)"

section \<open>Decoding\<close>

text \<open>
  \<^verbatim>\<open>ReEncodeMessage\<close> encrypts a decoded message again, in place.
\<close>

definition ReEncodeMessage :: "'k Platform \<Rightarrow> PacketBuffer \<Rightarrow> 'k WeaveFabricState \<Rightarrow> WEAVE_ERROR \<times> PacketBuffer \<times> 'k WeaveFabricState" where
  "ReEncodeMessage env b f =
     (case DecodeHeader (LocalNodeId f) (contents b) MsgInfo_Clear of (err, m, rest) \<Rightarrow>
        if err \<noteq> WEAVE_NO_ERROR then (err, b, f)
        else case GetSessionState (KeyOps env) (SHA1 env) (SourceNodeId m) (MsgKeyId m) (EncryptionType m) None f of (err, ss, f1) \<Rightarrow>
          if err \<noteq> WEAVE_NO_ERROR then (err, b, f1)
          else if EncryptionType m = kWeaveEncryptionType_None then (WEAVE_NO_ERROR, b, f1)
          else if EncryptionType m = kWeaveEncryptionType_AES128CTRSHA1
          then case get_key ss f1 of
              None \<Rightarrow> (UNDEFINED_BEHAVIOR, b, f1)
            | Some k \<Rightarrow> (WEAVE_NO_ERROR, poke (Start b + (unat (DataLength b) - length rest))
                (fst (EncryptData (AES128 env) rest
                   (SetWeaveMessageCounter (SourceNodeId m) (MessageId m) (SetKey (DataKey (EncKey k)) CTRMode_new)))) b, f1)
          else (WEAVE_ERROR_UNSUPPORTED_ENCRYPTION_TYPE, b, f1))"

record Decoded =
  DInfo :: WeaveMessageInfo
  DPayload :: nat
  DPayloadLen :: u16

text \<open>The end of \<^verbatim>\<open>DecodeMessage\<close>: duplicate detection and what the caller is told.\<close>

definition AcceptMessage ::
  "WeaveSessionState \<Rightarrow> Decoded \<Rightarrow> PacketBuffer \<Rightarrow> 'k WeaveFabricState \<Rightarrow> WEAVE_ERROR \<times> Decoded \<times> PacketBuffer \<times> 'k WeaveFabricState" where
  "AcceptMessage ss d b f =
     (let m = DInfo d in
      case SessionState_IsDuplicateMessage ss (MessageId m) f of
        None \<Rightarrow> (UNDEFINED_BEHAVIOR, d, b, f)
      | Some (dup, f1) \<Rightarrow>
          let m1 = (if dup then m\<lparr>Flags := Flags m OR kWeaveMessageFlag_DuplicateMessage\<rparr> else m);
              m2 = (if SessionState_MessageIdNotSynchronized ss f1 \<and> IsAppGroupKey (ucast (MsgKeyId m1))
                    then m1\<lparr>Flags := Flags m1 OR kWeaveMessageFlag_PeerGroupMsgIdNotSynchronized\<rparr> else m1)
          in (WEAVE_NO_ERROR, d\<lparr>DInfo := m2\<lparr>PeerAuthMode := SS_AuthMode ss\<rparr>\<rparr>, b, f1))"

definition DecodeMessage ::
  "'k Platform \<Rightarrow> PacketBuffer \<Rightarrow> u64 \<Rightarrow> nat option \<Rightarrow> Decoded \<Rightarrow> 'k WeaveFabricState
    \<Rightarrow> WEAVE_ERROR \<times> Decoded \<times> PacketBuffer \<times> 'k WeaveFabricState" where
  "DecodeMessage env b sourceNodeId con d f =
     (case DecodeHeader (LocalNodeId f) (contents b) ((DInfo d)\<lparr>SourceNodeId := sourceNodeId\<rparr>) of (err, m, rest) \<Rightarrow>
        let d1 = d\<lparr>DInfo := m\<rparr>; p = Start b + (unat (DataLength b) - length rest) in
        if err \<noteq> WEAVE_NO_ERROR then (err, d1, b, f)
        else case GetSessionState (KeyOps env) (SHA1 env) (SourceNodeId m) (MsgKeyId m) (EncryptionType m) con f of (err, ss, f1) \<Rightarrow>
          if err \<noteq> WEAVE_NO_ERROR then (err, d1, b, f1)
          else if EncryptionType m = kWeaveEncryptionType_None
          then AcceptMessage ss (d1\<lparr>DPayload := p, DPayloadLen := of_nat (length rest)\<rparr>) b f1
          else if EncryptionType m = kWeaveEncryptionType_AES128CTRSHA1
          then
            if length rest < kMinPayloadLen + kDigestLength then (WEAVE_ERROR_INVALID_MESSAGE_LENGTH, d1, b, f1)
            else
              let payloadLen = length rest - kDigestLength;
                  d2 = d1\<lparr>DPayload := p, DPayloadLen := of_nat payloadLen\<rparr>
              in case get_key ss f1 of
                   None \<Rightarrow> (UNDEFINED_BEHAVIOR, d2, b, f1)
                 | Some k \<Rightarrow>
                     let clear = Encrypt_AES128CTRSHA1 (AES128 env) m (DataKey (EncKey k)) rest;
                         b1 = poke p clear b;
                         expected = ComputeIntegrityCheck_AES128CTRSHA1 (SHA1 env) m (IntegrityKey (EncKey k)) (take payloadLen clear)
                     in if \<not> ConstantTimeCompare (drop payloadLen clear) expected kDigestLength
                        then (WEAVE_ERROR_INTEGRITY_CHECK_FAILED, d2, b1, f1)
                        else AcceptMessage ss d2 b1 f1
          else (WEAVE_ERROR_UNSUPPORTED_ENCRYPTION_TYPE, d1, b, f1))"

text \<open>The frame length is a 16-bit result, so it wraps for the two longest message lengths.\<close>

definition DecodeMessageWithLength ::
  "'k Platform \<Rightarrow> PacketBuffer \<Rightarrow> u64 \<Rightarrow> nat option \<Rightarrow> Decoded \<Rightarrow> 'k WeaveFabricState
    \<Rightarrow> WEAVE_ERROR \<times> u16 \<times> Decoded \<times> PacketBuffer \<times> 'k WeaveFabricState" where
  "DecodeMessageWithLength env b sourceNodeId con d f =
     (let dataStart = int (Start b); dataLen = DataLength b in
      if dataLen < 2 then (WEAVE_ERROR_MESSAGE_INCOMPLETE, 8, d, b, f)
      else
        let msgLen = fst (Read16 (contents b)); rFrameLen = msgLen + 2 in
        if dataLen < rFrameLen
        then ((if unat rFrameLen > unat (MaxDataLength b) + unat (ReservedSize b) then WEAVE_ERROR_MESSAGE_TOO_LONG
               else WEAVE_ERROR_MESSAGE_INCOMPLETE), rFrameLen, d, b, f)
        else
          case DecodeMessage env (SetLen msgLen (SetStart (dataStart + 2) b)) sourceNodeId con d f of (err, d1, b1, f1) \<Rightarrow>
            if err = WEAVE_NO_ERROR
            then (err, rFrameLen, d1, SetLen (word_of_int (uint dataLen - (uint msgLen + 2))) (SetStart (dataStart + uint msgLen + 2) b1), f1)
            else (err, rFrameLen, d1, SetLen dataLen (SetStart dataStart b1), f1))"

section \<open>Receiving\<close>

definition IsKeyError :: "WEAVE_ERROR \<Rightarrow> bool" where
  "IsKeyError err \<longleftrightarrow> err = WEAVE_ERROR_KEY_NOT_FOUND \<or> err = WEAVE_ERROR_WRONG_ENCRYPTION_TYPE \<or> err = WEAVE_ERROR_UNKNOWN_KEY_TYPE \<or>
     err = WEAVE_ERROR_INVALID_USE_OF_SESSION_KEY \<or> err = WEAVE_ERROR_UNSUPPORTED_ENCRYPTION_TYPE"

record IPPacketInfo =
  SrcAddress :: IPAddress
  DestAddress :: IPAddress

text \<open>Which of the message layer's callbacks are set, and what receiving a message makes it do.\<close>

record Callbacks =
  HasOnMessageReceived :: bool
  HasOnUDPTunneledMessageReceived :: bool
  HasOnReceiveError :: bool

datatype RecvAction =
    OnMessageReceived WeaveMessageInfo PacketBuffer
  | OnUDPTunneledMessageReceived PacketBuffer
  | FreeMessage
  | SendKeyErrorMsg WeaveMessageInfo WEAVE_ERROR
  | OnReceiveError WEAVE_ERROR

text \<open>Delivering a decoded message that is for this node.\<close>

definition DispatchUDPMessage :: "Callbacks \<Rightarrow> WeaveMessageInfo \<Rightarrow> PacketBuffer \<Rightarrow> WEAVE_ERROR \<times> RecvAction list" where
  "DispatchUDPMessage cb m b =
     (let deliver = (if HasOnMessageReceived cb then (WEAVE_NO_ERROR, [OnMessageReceived m b]) else (WEAVE_ERROR_NO_MESSAGE_HANDLER, [])) in
      if MessageVersion m = kWeaveMessageVersion_V2
      then
        if Flags m AND kWeaveMessageFlag_TunneledData \<noteq> 0
        then
          if Flags m AND kWeaveMessageFlag_DuplicateMessage = 0 \<or> MsgKeyId m = 0
          then if HasOnUDPTunneledMessageReceived cb then (WEAVE_NO_ERROR, [OnUDPTunneledMessageReceived b])
               else (WEAVE_ERROR_NO_MESSAGE_HANDLER, [])
          else (WEAVE_NO_ERROR, [])
        else deliver
      else if MessageVersion m = kWeaveMessageVersion_V1 then deliver
      else (WEAVE_NO_ERROR, []))"

definition HandleUDPMessage ::
  "'k Platform \<Rightarrow> Callbacks \<Rightarrow> bool \<Rightarrow> IPPacketInfo \<Rightarrow> PacketBuffer \<Rightarrow> 'k WeaveFabricState \<Rightarrow> RecvAction list \<times> 'k WeaveFabricState" where
  "HandleUDPMessage env cb matchLocalSubnet pktInfo b f =
     (let d = \<lparr>DInfo = MsgInfo_Clear, DPayload = 0, DPayloadLen = 0\<rparr>;
          src = (if IsIPv6ULA (SrcAddress pktInfo) then IPv6InterfaceIdToWeaveNodeId (InterfaceId (SrcAddress pktInfo))
                 else kNodeIdNotSpecified);
          (err, d1, b1, f1) = (if IsMulticast (DestAddress pktInfo) \<and> \<not> matchLocalSubnet
                               then (WEAVE_ERROR_INVALID_ADDRESS, d, b, f) else DecodeMessage env b src None d f);
          m = DInfo d1;
          b2 = (if err = WEAVE_NO_ERROR then SetLen (DPayloadLen d1) (SetStart (int (DPayload d1)) b1) else b1);
          err = (if err = WEAVE_NO_ERROR \<and> DestNodeId m \<noteq> LocalNodeId f1 \<and> DestNodeId m \<noteq> kAnyNodeId
                 then WEAVE_ERROR_INVALID_DESTINATION_NODE_ID else err);
          (err, acts) = (if err = WEAVE_NO_ERROR then DispatchUDPMessage cb m b2 else (err, []))
      in (acts @ (if err = WEAVE_NO_ERROR then []
                  else [FreeMessage] @
                    (if \<not> IsMulticast (DestAddress pktInfo) \<and> IsKeyError err then [SendKeyErrorMsg m err] else []) @
                    (if HasOnReceiveError cb then [OnReceiveError err] else [])), f1))"

end
