(* ===== verification/Message_Codec.thy ===== *)
theory Message_Codec
  imports Message_Layer Fabric_Tables "HOL-Library.Sublist"
begin

text \<open>
  What the message layer guarantees: a protected message is decoded to what was encoded, an accepted message
  carries the keyed hash of what is delivered, and every received packet is delivered or released.
\<close>

section \<open>The header\<close>

text \<open>A header the encoder accepts.\<close>

definition encodable :: "WeaveMessageInfo \<Rightarrow> bool" where
  "encodable m \<longleftrightarrow> (MessageVersion m = 1 \<or> MessageVersion m = 2) \<and> (EncryptionType m = 0 \<or> EncryptionType m = 1) \<and>
     EncodeHeaderField m AND kMsgHeaderField_ReservedFlagsMask = 0"

lemma and_masked16: "(x AND m) AND k = x AND (m AND k)" for x m k :: u16
  by (rule and.assoc)

lemma EncodeHeaderField_cases:
  assumes "encodable m"
  shows "EncodeHeaderField m = (ucast (Flags m) AND 0x0F0F) OR
    (if EncryptionType m = 0 then 0 else 0x10) OR (if MessageVersion m = 1 then 0x1000 else 0x2000)"
  using assms by (auto simp: EncodeHeaderField_def encodable_def)

lemma header_flags:
  assumes "encodable m"
  shows "ucast (EncodeHeaderField m AND 0x0F0F) = Flags m AND 0x0F00"
proof -
  have 1: "EncodeHeaderField m AND 0xF = ucast (Flags m) AND 0xF" "EncodeHeaderField m AND 0x0F0F = ucast (Flags m) AND 0x0F0F"
    unfolding EncodeHeaderField_cases [OF assms] by (simp_all add: bit.conj_disj_distrib2 and_masked16)
  have 2: "ucast (Flags m) AND 0xF = (0 :: u16)" using 1(1) assms by (simp add: encodable_def)
  have "ucast (Flags m) AND 0x0F0F = (ucast (Flags m) AND 0x0F00) OR (ucast (Flags m) AND 0xF :: u16)"
    by (simp flip: bit.conj_disj_distrib)
  then have "EncodeHeaderField m AND 0x0F0F = ucast (Flags m) AND 0x0F00" unfolding 1(2) 2 by simp
  then show ?thesis by simp (rule u32_eqI, auto simp: word_bits)
qed

lemma DecodeHeaderField_EncodeHeaderField:
  assumes "encodable m"
  shows "DecodeHeaderField (EncodeHeaderField m) i =
    i\<lparr>Flags := Flags m AND 0x0F00, EncryptionType := EncryptionType m, MessageVersion := MessageVersion m\<rparr>"
proof -
  have "EncodeHeaderField m AND 0xF0 = (if EncryptionType m = 0 then 0 else 0x10)"
    "EncodeHeaderField m AND 0xF000 = (if MessageVersion m = 1 then 0x1000 else 0x2000)"
    unfolding EncodeHeaderField_cases [OF assms] by (simp_all add: bit.conj_disj_distrib2 and_masked16)
  then show ?thesis using assms by (auto simp: DecodeHeaderField_def header_flags [OF assms] encodable_def)
qed

text \<open>Decoding an encoded header gives its fields back; ids that are not in the header come from the receiver.\<close>

definition received_info :: "u64 \<Rightarrow> WeaveMessageInfo \<Rightarrow> WeaveMessageInfo \<Rightarrow> WeaveMessageInfo" where
  "received_info localNodeId i m = i\<lparr>
     Flags := Flags m AND (if EncryptionType m = 0 then 0x0700 else 0x0F00),
     EncryptionType := EncryptionType m, MessageVersion := MessageVersion m, MessageId := MessageId m,
     SourceNodeId := (if Flags m AND kWeaveMessageFlag_SourceNodeId \<noteq> 0 then SourceNodeId m else SourceNodeId i),
     DestNodeId := (if Flags m AND kWeaveMessageFlag_DestNodeId \<noteq> 0 then DestNodeId m else localNodeId),
     MsgKeyId := (if EncryptionType m = 0 then 0 else MsgKeyId m)\<rparr>"

lemma DecodeHeader_MessageHead:
  assumes "encodable m"
  shows "DecodeHeader localNodeId (MessageHead m @ rest) i = (WEAVE_NO_ERROR, received_info localNodeId i m, rest)"
proof -
  have r: "EncodeHeaderField m AND kMsgHeaderField_ReservedFlagsMask = 0" using assms by (simp add: encodable_def)
  have v: "\<not> (MessageVersion m \<noteq> 1 \<and> MessageVersion m \<noteq> 2)" using assms by (simp add: encodable_def)
  have f: "(Flags m AND 0x0F00) AND 0x200 = Flags m AND 0x200" "(Flags m AND 0x0F00) AND 0x100 = Flags m AND 0x100"
    "(Flags m AND 0x0F00) AND - 2049 = Flags m AND 0x0700"
    by (simp_all add: and.assoc)
  have l: "\<not> length (MessageHead m @ rest) < 6" by (simp add: MessageHead_def)
  have h: "Read16 (MessageHead m @ rest) = (EncodeHeaderField m, Write32 (MessageId m) @
     (if Flags m AND kWeaveMessageFlag_SourceNodeId \<noteq> 0 then Write64 (SourceNodeId m) else []) @
     (if Flags m AND kWeaveMessageFlag_DestNodeId \<noteq> 0 then Write64 (DestNodeId m) else []) @
     (if EncryptionType m = 0 then [] else Write16 (MsgKeyId m)) @ rest)"
    by (simp add: MessageHead_def)
  show ?thesis
    unfolding DecodeHeader_def if_not_P [OF l] h Let_def prod.case r DecodeHeaderField_EncodeHeaderField [OF assms]
    by (cases "Flags m AND 0x200 = 0"; cases "Flags m AND 0x100 = 0"; cases "EncryptionType m = 0")
      (simp_all add: v f received_info_def)
qed

section \<open>The encoded message\<close>

lemma length_MessageHead:
  "length (MessageHead m) = 6 + (if Flags m AND kWeaveMessageFlag_SourceNodeId \<noteq> 0 then 8 else 0) +
     (if Flags m AND kWeaveMessageFlag_DestNodeId \<noteq> 0 then 8 else 0) + (if EncryptionType m = 0 then 0 else 2)"
  by (simp add: MessageHead_def)

lemma MessageOverhead_ok:
  assumes "MessageOverhead m n = (WEAVE_NO_ERROR, h, t)"
  shows "h = length (MessageHead m)" "t = (if EncryptionType m = 0 then 0 else 20)"
    "EncryptionType m = 0 \<or> EncryptionType m = 1 \<and> n \<noteq> 0"
  using assms by (auto simp: MessageOverhead_def length_MessageHead Let_def split: if_splits)

text \<open>What follows the header: the payload, or the payload and its check value, encrypted.\<close>

definition protected_body :: "'k Platform \<Rightarrow> WeaveMessageInfo \<Rightarrow> WeaveEncryptionKey \<Rightarrow> u8 list \<Rightarrow> u8 list" where
  "protected_body env m key bytes =
     (if EncryptionType m = 0 then bytes
      else Encrypt_AES128CTRSHA1 (AES128 env) m (DataKey key)
             (bytes @ ComputeIntegrityCheck_AES128CTRSHA1 (SHA1 env) m (IntegrityKey key) bytes))"

abbreviation sha1_length :: "'k Platform \<Rightarrow> bool" where
  "sha1_length env \<equiv> \<forall>x. length (SHA1 env x) = kDigestLength"

lemma Encrypt_AES128CTR: "Encrypt_AES128CTRSHA1 E m key bytes = AES128CTR E key (SourceNodeId m) (MessageId m) bytes"
  by (simp add: Encrypt_AES128CTRSHA1_def AES128CTR_def)

lemma length_check: "sha1_length env \<Longrightarrow> length (ComputeIntegrityCheck_AES128CTRSHA1 (SHA1 env) m key bytes) = kDigestLength"
  by (simp add: ComputeIntegrityCheck_AES128CTRSHA1_def HMAC_Finish_def Let_def)

lemma length_protected_body:
  "\<lbrakk>sha1_length env; length bytes < 65536\<rbrakk> \<Longrightarrow>
    length (protected_body env m key bytes) = length bytes + (if EncryptionType m = 0 then 0 else kDigestLength)"
  by (simp add: protected_body_def Encrypt_AES128CTR AES128CTR_inverse length_check)

lemma poke_poke:
  assumes "i \<le> j" "j + length cs \<le> i + length bs" "i + length bs \<le> length (block b)"
  shows "poke i bs (poke j cs b) = poke i bs b"
proof -
  have "overwrite i bs (overwrite j cs (block b)) = overwrite i bs (block b)"
    using assms by (simp add: overwrite_def)
  then show ?thesis by (simp add: poke_def)
qed

lemma SealPayload_poke:
  assumes "sha1_length env" "s + n + kDigestLength \<le> length (block b)" "n < 65536" "EncryptionType m \<noteq> 0"
  shows "SealPayload env m key s n b = poke s (protected_body env m key (take n (drop s (block b)))) b"
proof -
  let ?D = "take n (drop s (block b))"
  let ?c = "ComputeIntegrityCheck_AES128CTRSHA1 (SHA1 env) m (IntegrityKey key) ?D"
  have D: "length ?D = n" using assms(2) by simp
  have c: "length ?c = kDigestLength" using assms(1) by (rule length_check)
  have "drop s (block (poke (s + n) ?c b)) = ?D @ ?c @ drop (s + n + kDigestLength) (block b)"
    using assms(2) c by (simp add: poke_def overwrite_def drop_take)
  then have b: "take (n + kDigestLength) (drop s (block (poke (s + n) ?c b))) = ?D @ ?c"
    using D c by simp
  have body: "protected_body env m key ?D = Encrypt_AES128CTRSHA1 (AES128 env) m (DataKey key) (?D @ ?c)"
    using assms(4) by (simp add: protected_body_def)
  have "length (protected_body env m key ?D) = n + kDigestLength"
    using length_protected_body [OF assms(1), of ?D m key] D assms(3,4) by simp
  then have "poke s (protected_body env m key ?D) (poke (s + n) ?c b) = poke s (protected_body env m key ?D) b"
    using assms(2) c by (intro poke_poke) simp_all
  then show ?thesis unfolding SealPayload_def Let_def b body [symmetric] .
qed

text \<open>The encoder's steps on the buffer put the header and the body in place of the payload.\<close>

lemma encoded_contents:
  assumes wf: "wf_buf b" and sha: "sha1_length env" and h: "length (MessageHead m) \<le> payload b"
    and t: "t = (if EncryptionType m = 0 then 0 else kDigestLength)" "unat (len b) + t \<le> room b"
    and n: "length (MessageHead m) + unat (len b) + t < 65536"
    and b2: "b2 = poke (payload b - length (MessageHead m)) (MessageHead m) (SetStart (int (payload b - length (MessageHead m))) b)"
    and b3: "b3 = (if EncryptionType m = 0 then b2 else SealPayload env m key (payload b) (unat (len b)) b2)"
    and b4: "b4 = SetLen (of_nat (length (MessageHead m) + unat (len b) + t)) b3"
  shows "wf_buf b4" "payload b4 = payload b - length (MessageHead m)" "contents b4 = MessageHead m @ protected_body env m key (contents b)"
proof -
  let ?h = "MessageHead m" and ?body = "protected_body env m key (contents b)"
  note p = pbuf.prepended [OF wf h refl b2]
  have l: "length (contents b) = unat (len b)" using length_contents [OF wf] .
  have lb: "length ?body = unat (len b) + t"
    using length_protected_body [OF sha, of "contents b" m key] l n t(1) by simp
  have size: "payload b2 + room b2 = length (block b2)" using p(1) by (simp add: room_def wf_buf_def AllocSize_def)
  have drop2: "take (unat (len b)) (drop (payload b) (block b2)) = contents b"
  proof -
    have "take (unat (len b2)) (drop (payload b - length ?h) (block b2)) = ?h @ contents b"
      using p(2,4) by (simp add: contents_def [of b2])
    then have "drop (length ?h) (take (unat (len b2)) (drop (payload b - length ?h) (block b2))) = contents b" by simp
    moreover have "unat (len b2) = length ?h + unat (len b)" using p(4) length_contents [OF p(1)] l by simp
    ultimately show ?thesis using h by (simp add: drop_take)
  qed
  have "b3 = poke (payload b) ?body b2"
  proof (cases "EncryptionType m = 0")
    case True
    have "contents b @ drop (payload b + unat (len b)) (block b2) = drop (payload b) (block b2)"
      using drop2 append_take_drop_id [of "unat (len b)" "drop (payload b) (block b2)"] by (simp add: add.commute)
    then have "overwrite (payload b) (contents b) (block b2) = block b2" by (simp add: overwrite_def l)
    then show ?thesis using True b3 by (simp add: protected_body_def poke_def)
  next
    case False
    have fits: "payload b + unat (len b) + kDigestLength \<le> length (block b2)"
      using p(2,3) size h t False by simp
    show ?thesis using False b3 SealPayload_poke [OF sha fits _ False, of key] drop2 n by simp
  qed
  moreover have "b4 = SetLen (of_nat (length ?h + length ?body)) b3" using b4 lb by (simp add: ac_simps)
  ultimately show "wf_buf b4" "payload b4 = payload b - length ?h" "contents b4 = ?h @ ?body"
    using pbuf.framed [OF wf h, of ?body _ b2 b3 b4] lb t(2) n b2 by (simp_all add: ac_simps)
qed

section \<open>What encoding does to the session\<close>

text \<open>No step of the encoder changes a key.\<close>

lemma get_key_update_session:
  assumes "\<And>k. MsgEncKey (g k) = MsgEncKey k"
  shows "get_key ss (update_session i g f) = get_key ss f"
proof -
  have "MsgEncKey (SessionKeys (update_session i g f) ! j) = MsgEncKey (SessionKeys f ! j)" for j
    using assms by (cases "j = i"; cases "i < length (SessionKeys f)") (simp_all add: update_session_def list_update_beyond)
  then show ?thesis by (auto simp: get_key_def update_session_def split: option.splits KeyRef.splits)
qed

lemma get_key_NewMessageId: "get_key ss (snd (NewMessageId werr ss' f)) = get_key ss f"
proof (cases "SS_NextMsgId ss'")
  case (SessionCounter i)
  then show ?thesis by (simp add: NewMessageId_def get_key_update_session)
qed (simp_all add: NewMessageId_def get_key_def split: option.splits KeyRef.splits)

lemma get_key_sync: "get_key ss (snd (OnMsgCounterSyncReqSent i f)) = get_key ss f"
  by (simp add: OnMsgCounterSyncReqSent_def get_key_def Let_def split: option.splits KeyRef.splits)

lemma get_key_put_rcv: "get_key ss (put_rcv ss' r f) = get_key ss f"
proof (cases r)
  case (Some w)
  show ?thesis
  proof (cases "SS_Rcv ss'")
    case (SessionWindow i)
    then show ?thesis using Some by (simp add: put_rcv_def get_key_update_session)
  qed (use Some in \<open>simp_all add: put_rcv_def get_key_def split: option.splits KeyRef.splits\<close>)
qed (simp add: put_rcv_def)

lemma get_key_IsDuplicate:
  "SessionState_IsDuplicateMessage ss msgId f = Some (dup, f') \<Longrightarrow> get_key ss' f' = get_key ss' f"
  by (auto simp: SessionState_IsDuplicateMessage_def get_key_put_rcv)

text \<open>The fields of the message that encoding leaves as they are.\<close>

definition same_message :: "WeaveMessageInfo \<Rightarrow> WeaveMessageInfo \<Rightarrow> bool" where
  "same_message m m' \<longleftrightarrow> SourceNodeId m' = SourceNodeId m \<and> DestNodeId m' = DestNodeId m \<and> MsgKeyId m' = MsgKeyId m \<and>
     EncryptionType m' = EncryptionType m \<and> MessageVersion m' = MessageVersion m \<and>
     Flags m' AND kWeaveMessageFlag_SourceNodeId = Flags m AND kWeaveMessageFlag_SourceNodeId \<and>
     Flags m' AND kWeaveMessageFlag_DestNodeId = Flags m AND kWeaveMessageFlag_DestNodeId"

lemma same_message_length: "same_message m m' \<Longrightarrow> length (MessageHead m') = length (MessageHead m)"
  by (simp add: same_message_def length_MessageHead)

lemma EncodeInSession_ok:
  assumes wf: "wf_buf b" and sha: "sha1_length env" and h: "headLen = length (MessageHead m)" "headLen \<le> payload b"
    and t: "tailLen = (if EncryptionType m = 0 then 0 else kDigestLength)" "unat (len b) + tailLen \<le> room b"
    and n: "headLen + unat (len b) + tailLen < 65536"
    and v: "MessageVersion m = 1 \<or> MessageVersion m = 2" "EncryptionType m = 0 \<or> EncryptionType m = 1"
    and e: "EncodeInSession env m b headLen tailLen ss f = (WEAVE_NO_ERROR, m', b', f', acts)"
  obtains m2 key where "m' = m2\<lparr>Flags := Flags m2 OR kWeaveMessageFlag_MessageEncoded\<rparr>" "encodable m2" "same_message m m2"
    "wf_buf b'" "payload b' = payload b - headLen" "contents b' = MessageHead m2 @ protected_body env m2 key (contents b)"
    "EncryptionType m \<noteq> 0 \<Longrightarrow> map_option EncKey (get_key ss f) = Some key"
proof -
  obtain m1 f1 where 1: "AssignMessageId env m ss f = (m1, f1)" by fastforce
  then have m1: "same_message m m1" "get_key ss f1 = get_key ss f"
    using get_key_NewMessageId [of ss "StorageWrite env" ss f]
    by (auto simp: AssignMessageId_def same_message_def split: if_splits prod.splits)
  obtain m2 acts2 f2 where 2: "RequestCounterSync m1 ss f1 = (m2, acts2, f2)" by (metis prod.exhaust)
  then have m2: "same_message m m2" "get_key ss f2 = get_key ss f"
    using m1 get_key_sync [of ss "MessageId m1" f1]
    by (auto simp: RequestCounterSync_def same_message_def bit.conj_disj_distrib2 split: if_splits prod.splits)
  have start: "\<not> Start b < headLen" using h by (simp add: Start_def)
  note e1 = e [unfolded EncodeInSession_def if_not_P [OF start] 1 2 prod.case Let_def]
  have r: "EncodeHeaderField m2 AND kMsgHeaderField_ReservedFlagsMask = 0"
    using e1 by (rule contrapos_pp) simp
  then have enc: "encodable m2" using v m2(1) by (simp add: encodable_def same_message_def)
  obtain f3 where 3: "(if DestNodeId m2 = kAnyNodeId then map_option snd (SessionState_IsDuplicateMessage ss (MessageId m2) f2)
      else Some f2) = Some f3" using e1 r by (auto split: option.splits)
  then have key3: "get_key ss f3 = get_key ss f"
    using m2(2) get_key_IsDuplicate [of ss "MessageId m2" f2] by (auto split: if_splits)
  let ?b2 = "poke (payload b - headLen) (MessageHead m2) (SetStart (int (payload b - headLen)) b)"
  define key where "key = (case get_key ss f of None \<Rightarrow> zero_key | Some k \<Rightarrow> EncKey k)"
  have t2: "EncryptionType m2 = EncryptionType m" using m2(1) by (simp add: same_message_def)
  have key: "EncryptionType m \<noteq> 0 \<Longrightarrow> map_option EncKey (get_key ss f) = Some key"
    using e1 r 3 key3 t2 by (auto simp: key_def split: option.splits)
  have m': "m' = m2\<lparr>Flags := Flags m2 OR kWeaveMessageFlag_MessageEncoded\<rparr>"
    and b': "b' = SetLen (of_nat (headLen + unat (len b) + tailLen))
        (if EncryptionType m2 = 0 then ?b2 else SealPayload env m2 key (payload b) (unat (len b)) ?b2)"
    using e1 r 3 key3 by (auto simp: key_def Start_def DataLength_def split: option.splits if_splits)
  have h2: "length (MessageHead m2) = headLen" using same_message_length [OF m2(1)] h by simp
  note c = encoded_contents [OF wf sha, where m = m2 and t = tailLen and key = key, unfolded h2 t2, OF h(2) t n refl refl refl]
  show ?thesis
    using that [OF m' enc m2(1), of key] c key unfolding b' t2 by blast
qed

text \<open>A message that was encoded successfully.\<close>

lemma EncodeMessage_ok:
  assumes wf: "wf_buf b" and sha: "sha1_length env" and new: "Flags m AND kWeaveMessageFlag_MessageEncoded = 0"
    and e: "EncodeMessage env m b con maxLen reserve f = (WEAVE_NO_ERROR, m', b', f', acts)"
    and reserve: "reserve \<le> 2"
    and s: "GetSessionState (KeyOps env) (SHA1 env) (if DestNodeId m = kAnyNodeId then SourceNodeId m else DestNodeId m)
      (MsgKeyId m) (EncryptionType m) con f = (err, ss, f1)"
  obtains m2 key where "m' = m2\<lparr>Flags := Flags m2 OR kWeaveMessageFlag_MessageEncoded\<rparr>" "encodable m2" "same_message m m2"
    "wf_buf b'" "unat reserve \<le> payload b'" "contents b' = MessageHead m2 @ protected_body env m2 key (contents b)"
    "length (contents b') \<le> unat maxLen"
    "EncryptionType m \<noteq> 0 \<Longrightarrow> contents b \<noteq> [] \<and> map_option EncKey (get_key ss f1) = Some key"
proof -
  have v: "MessageVersion m = 1 \<or> MessageVersion m = 2" using e by (auto simp: EncodeMessage_def split: if_splits)
  obtain headLen tailLen where o: "MessageOverhead m (DataLength b) = (WEAVE_NO_ERROR, headLen, tailLen)"
    using e v new by (auto simp: EncodeMessage_def split: prod.splits if_splits)
  note ov = MessageOverhead_ok [OF o]
  have fit: "headLen + unat (len b) + tailLen \<le> unat maxLen"
    using e v new o by (auto simp: EncodeMessage_def DataLength_def split: prod.splits if_splits)
  obtain b1 where b1: "EnsureReservedSize (of_nat headLen + reserve) b = (True, b1)"
    using e v new o fit by (auto simp: EncodeMessage_def DataLength_def split: prod.splits if_splits)
  note r = EnsureReservedSize_ok [OF wf b1]
  have hl: "headLen \<le> 24" using ov(1) by (simp add: length_MessageHead)
  have "unat (of_nat headLen + reserve) = headLen + unat reserve"
    using hl reserve by (simp add: unat_word_ariths unat_of_nat_u16 word_le_nat_alt)
  then have pl: "headLen + unat reserve \<le> payload b1" using r(3) by simp
  have room: "unat (len b1) + tailLen \<le> room b1" and err: "err = WEAVE_NO_ERROR"
    and e1: "EncodeInSession env m b1 headLen tailLen ss f1 = (WEAVE_NO_ERROR, m', b', f', acts)"
    using e v new o fit b1 s MaxDataLength_eq [OF r(1)]
    by (auto simp: EncodeMessage_def DataLength_def room_def split: prod.splits if_splits)
  have n: "headLen + unat (len b1) + tailLen < 65536" using fit r(4) unat_u16_less [of maxLen] by simp
  obtain m2 key where m2: "m' = m2\<lparr>Flags := Flags m2 OR kWeaveMessageFlag_MessageEncoded\<rparr>" "encodable m2" "same_message m m2"
    "wf_buf b'" "payload b' = payload b1 - headLen" "contents b' = MessageHead m2 @ protected_body env m2 key (contents b1)"
    "EncryptionType m \<noteq> 0 \<Longrightarrow> map_option EncKey (get_key ss f1) = Some key"
    using EncodeInSession_ok [OF r(1) sha ov(1) _ ov(2) room n v _ e1] ov(3) pl by auto
  have l: "length (contents b') = headLen + unat (len b) + tailLen"
    using m2(6) r(1,4) ov(1,2) length_protected_body [OF sha, of "contents b1" m2 key] same_message_length [OF m2(3)] m2(3) n
    by (simp add: length_contents same_message_def)
  have ne: "EncryptionType m \<noteq> 0 \<Longrightarrow> contents b \<noteq> []" using ov(3) length_contents [OF wf] by (auto simp: DataLength_def unat_eq_0)
  show ?thesis using that [OF m2(1-4), of key] m2(5-7) pl l fit r(2) ne by simp
qed

section \<open>The decoder\<close>

lemma u16_u32_u16: "ucast (ucast x :: u32) = x" for x :: u16
  by (rule ucast_up_ucast_id) (simp add: is_up)

text \<open>The header field that enters the check value is the same on both sides.\<close>

lemma EncodeHeaderField_received:
  assumes "encodable m" "EncryptionType m \<noteq> 0"
  shows "EncodeHeaderField (received_info n i m) = EncodeHeaderField m"
proof -
  have "ucast (Flags m AND 0x0F00) AND 0x0F0F = (EncodeHeaderField m AND 0x0F0F)"
    unfolding header_flags [OF assms(1), symmetric] u16_u32_u16 by (simp add: and_masked16)
  then have "EncodeHeaderField (received_info n i m) = (EncodeHeaderField m AND 0x0F0F) OR
      (push_bit 4 (ucast (EncryptionType m)) AND 0x00F0) OR (push_bit 12 (ucast (MessageVersion m)) AND 0xF000)"
    using assms(2) by (simp add: EncodeHeaderField_def received_info_def)
  also have "EncodeHeaderField m AND 0x0F0F = ucast (Flags m) AND 0x0F0F"
    unfolding EncodeHeaderField_cases [OF assms(1)] by (simp add: bit.conj_disj_distrib2 and_masked16)
  finally show ?thesis by (simp add: EncodeHeaderField_def)
qed

lemma protected_body_received:
  assumes "encodable m" "SourceNodeId (received_info n i m) = SourceNodeId m" "DestNodeId (received_info n i m) = DestNodeId m"
  shows "protected_body env (received_info n i m) key bytes = protected_body env m key bytes"
proof (cases "EncryptionType m = 0")
  case True
  then show ?thesis by (simp add: protected_body_def received_info_def)
next
  case False
  have "EncryptionType (received_info n i m) = EncryptionType m" "MessageVersion (received_info n i m) = MessageVersion m"
    "MessageId (received_info n i m) = MessageId m"
    by (simp_all add: received_info_def)
  then show ?thesis
    using False assms(2,3) EncodeHeaderField_received [OF assms(1) False]
    by (simp add: protected_body_def Encrypt_AES128CTRSHA1_def ComputeIntegrityCheck_AES128CTRSHA1_def)
qed

text \<open>
  Decoding a protected body with the key it was made with gives the payload, in place.
\<close>

lemma DecodeMessage_protected:
  assumes wf: "wf_buf b" and sha: "sha1_length env"
    and c: "contents b = head @ protected_body env m key bytes" and lb: "length bytes < 65536" and ne: "EncryptionType m = 1 \<Longrightarrow> bytes \<noteq> []"
    and h: "DecodeHeader (LocalNodeId f) (contents b) ((DInfo d)\<lparr>SourceNodeId := src\<rparr>) = (WEAVE_NO_ERROR, m, protected_body env m key bytes)"
    and et: "EncryptionType m = 0 \<or> EncryptionType m = 1"
    and s: "GetSessionState (KeyOps env) (SHA1 env) (SourceNodeId m) (MsgKeyId m) (EncryptionType m) con f = (WEAVE_NO_ERROR, ss, f1)"
    and k: "EncryptionType m = 1 \<Longrightarrow> map_option EncKey (get_key ss f1) = Some key"
  shows "\<exists>b1. DecodeMessage env b src con d f =
      AcceptMessage ss (d\<lparr>DInfo := m, DPayload := payload b + length head, DPayloadLen := of_nat (length bytes)\<rparr>) b1 f1 \<and>
      wf_buf b1 \<and> payload b1 = payload b \<and> len b1 = len b \<and> take (length head + length bytes) (contents b1) = head @ bytes"
proof -
  let ?body = "protected_body env m key bytes"
  have len: "length head + length ?body = unat (len b)" using length_contents [OF wf] c by simp
  then have p: "Start b + (unat (DataLength b) - length ?body) = payload b + length head" by (simp add: Start_def DataLength_def)
  show ?thesis
  proof (cases "EncryptionType m = 0")
    case True
    then have "?body = bytes" by (simp add: protected_body_def)
    then show ?thesis using h s True p wf c by (intro exI [of _ b]) (simp add: DecodeMessage_def Let_def)
  next
    case False
    then have m1: "EncryptionType m = 1" using et by simp
    define check where "check = ComputeIntegrityCheck_AES128CTRSHA1 (SHA1 env) m (IntegrityKey key) bytes"
    have lc: "length check = kDigestLength" using length_check [OF sha] by (simp add: check_def)
    have body: "?body = AES128CTR (AES128 env) (DataKey key) (SourceNodeId m) (MessageId m) (bytes @ check)"
      using False by (simp add: protected_body_def check_def Encrypt_AES128CTR)
    have clear: "Encrypt_AES128CTRSHA1 (AES128 env) m (DataKey key) ?body = bytes @ check" and l: "length ?body = length bytes + kDigestLength"
      unfolding body Encrypt_AES128CTR using lb lc by (simp_all add: AES128CTR_inverse)
    obtain k where k': "get_key ss f1 = Some k" "EncKey k = key" using k [OF m1] by auto
    define b1 where "b1 = poke (payload b + length head) (bytes @ check) b"
    have room: "unat (len b) \<le> room b" using wf by (auto simp: wf_buf_def room_def)
    have "window (unat (len b)) b = head @ ?body" using c by (simp add: contents_def window_def)
    then have "window (unat (len b)) b1 = head @ bytes @ check"
      using poke_window [OF wf, of "payload b + length head" "bytes @ check" "unat (len b)"] room len l lc
      by (simp add: b1_def)
    then have "contents b1 = head @ bytes @ check" by (simp add: b1_def contents_def window_def poke_def)
    moreover have "wf_buf b1" "payload b1 = payload b" "len b1 = len b"
      using wf room len l lc by (simp_all add: b1_def poke_def wf_buf_def AllocSize_def room_def length_overwrite)
    moreover have "ConstantTimeCompare check check kDigestLength" using lc by (simp add: ConstantTimeCompare_iff)
    then have "DecodeMessage env b src con d f =
        AcceptMessage ss (d\<lparr>DInfo := m, DPayload := payload b + length head, DPayloadLen := of_nat (length bytes)\<rparr>) b1 f1"
      unfolding DecodeMessage_def h prod.case Let_def s p
      using m1 ne k' l by (simp add: clear b1_def flip: check_def)
    ultimately show ?thesis by (intro exI [of _ b1]) simp
  qed
qed

lemma DecodeHeader_suffix:
  assumes "DecodeHeader n msg i = (err, m, rest)"
  shows "suffix rest msg"
proof -
  have "suffix (snd (snd (DecodeHeader n msg i))) msg"
    by (simp add: DecodeHeader_def Let_def Read_defs suffix_drop split: if_split)
  then show ?thesis using assms by simp
qed

text \<open>What acceptance adds to a decoded message does not change what was authenticated.\<close>

lemma AcceptMessage_ok:
  assumes "AcceptMessage ss d b f = (WEAVE_NO_ERROR, d', b', f')"
  shows "b' = b" "DPayload d' = DPayload d" "DPayloadLen d' = DPayloadLen d" "SourceNodeId (DInfo d') = SourceNodeId (DInfo d)"
    "DestNodeId (DInfo d') = DestNodeId (DInfo d)" "MessageId (DInfo d') = MessageId (DInfo d)" "MsgKeyId (DInfo d') = MsgKeyId (DInfo d)"
    "EncryptionType (DInfo d') = EncryptionType (DInfo d)" "MessageVersion (DInfo d') = MessageVersion (DInfo d)"
    "EncodeHeaderField (DInfo d') = EncodeHeaderField (DInfo d)"
proof -
  obtain dup f1 where dup: "SessionState_IsDuplicateMessage ss (MessageId (DInfo d)) f = Some (dup, f1)"
    using assms by (auto simp: AcceptMessage_def Let_def split: option.splits)
  have F: "EncodeHeaderField (m\<lparr>Flags := Flags m OR 0x8000\<rparr>) = EncodeHeaderField m"
    "EncodeHeaderField (m\<lparr>Flags := Flags m OR 0x10000\<rparr>) = EncodeHeaderField m"
    "EncodeHeaderField (m\<lparr>PeerAuthMode := x\<rparr>) = EncodeHeaderField m" for m x
    by (simp_all add: EncodeHeaderField_def unsigned_or_eq bit.conj_disj_distrib2)
  note e = assms [unfolded AcceptMessage_def Let_def dup option.case prod.case, simplified]
  show "b' = b" "DPayload d' = DPayload d" "DPayloadLen d' = DPayloadLen d" "SourceNodeId (DInfo d') = SourceNodeId (DInfo d)"
    "DestNodeId (DInfo d') = DestNodeId (DInfo d)" "MessageId (DInfo d') = MessageId (DInfo d)" "MsgKeyId (DInfo d') = MsgKeyId (DInfo d)"
    "EncryptionType (DInfo d') = EncryptionType (DInfo d)" "MessageVersion (DInfo d') = MessageVersion (DInfo d)"
    "EncodeHeaderField (DInfo d') = EncodeHeaderField (DInfo d)"
    using e F by auto
qed

lemma DecodeMessage_acceptedE:
  assumes "DecodeMessage env b src con d f = (WEAVE_NO_ERROR, d', b', f')" and "EncryptionType (DInfo d') \<noteq> 0"
  obtains m rest ss f1 k clear where
    "DecodeHeader (LocalNodeId f) (contents b) ((DInfo d)\<lparr>SourceNodeId := src\<rparr>) = (WEAVE_NO_ERROR, m, rest)"
    "GetSessionState (KeyOps env) (SHA1 env) (SourceNodeId m) (MsgKeyId m) (EncryptionType m) con f = (WEAVE_NO_ERROR, ss, f1)"
    "get_key ss f1 = Some k" "kDigestLength < length rest" "clear = Encrypt_AES128CTRSHA1 (AES128 env) m (DataKey (EncKey k)) rest"
    "ConstantTimeCompare (drop (length rest - kDigestLength) clear)
       (ComputeIntegrityCheck_AES128CTRSHA1 (SHA1 env) m (IntegrityKey (EncKey k)) (take (length rest - kDigestLength) clear)) kDigestLength"
    "AcceptMessage ss (d\<lparr>DInfo := m, DPayload := Start b + (unat (DataLength b) - length rest), DPayloadLen := of_nat (length rest - kDigestLength)\<rparr>)
       (poke (Start b + (unat (DataLength b) - length rest)) clear b) f1 = (WEAVE_NO_ERROR, d', b', f')"
proof -
  obtain e m rest where h: "DecodeHeader (LocalNodeId f) (contents b) ((DInfo d)\<lparr>SourceNodeId := src\<rparr>) = (e, m, rest)" by (metis prod.exhaust)
  obtain e2 ss f1 where s: "GetSessionState (KeyOps env) (SHA1 env) (SourceNodeId m) (MsgKeyId m) (EncryptionType m) con f = (e2, ss, f1)"
    by (metis prod.exhaust)
  note e1 = assms(1) [unfolded DecodeMessage_def h prod.case Let_def s]
  have ok: "e = WEAVE_NO_ERROR" "e2 = WEAVE_NO_ERROR" using e1 by (auto split: if_splits)
  have t: "EncryptionType m \<noteq> 0" using e1 ok assms(2) by (auto dest!: AcceptMessage_ok(8))
  have t1: "EncryptionType m = 1" "kDigestLength < length rest" using e1 ok t by (auto split: if_splits)
  obtain k where k: "get_key ss f1 = Some k" using e1 ok t t1 by (auto split: option.splits)
  show ?thesis using that [OF h [unfolded ok] s [unfolded ok] k t1(2) refl] e1 ok t t1 k by (simp split: if_splits)
qed

lemma take_of_prefix:
  assumes "take (length xs + length ys) (take n zs) = xs @ ys"
  shows "take (length ys) (drop (length xs) zs) = ys"
proof -
  have "length (take (length xs + length ys) (take n zs)) = length xs + length ys" unfolding assms by simp
  then have "take (length xs + length ys) zs = xs @ ys" using assms by (simp add: min_def split: if_splits)
  then have "drop (length xs) (take (length xs + length ys) zs) = ys" by simp
  then show ?thesis by (simp add: drop_take)
qed

lemma AcceptMessage_flags:
  assumes "SessionState_IsDuplicateMessage ss (MessageId (DInfo d)) f = Some (dup, f1)"
    and "Flags (DInfo d) AND kWeaveMessageFlag_DuplicateMessage = 0"
  obtains fl where "AcceptMessage ss d b f = (WEAVE_NO_ERROR, d\<lparr>DInfo := (DInfo d)\<lparr>Flags := fl, PeerAuthMode := SS_AuthMode ss\<rparr>\<rparr>, b, f1)"
    "fl AND kWeaveMessageFlag_DuplicateMessage \<noteq> 0 \<longleftrightarrow> dup"
proof -
  define fl1 where "fl1 = (if dup then Flags (DInfo d) OR kWeaveMessageFlag_DuplicateMessage else Flags (DInfo d))"
  define fl where "fl = (if SessionState_MessageIdNotSynchronized ss f1 \<and> IsAppGroupKey (ucast (MsgKeyId (DInfo d)))
    then fl1 OR kWeaveMessageFlag_PeerGroupMsgIdNotSynchronized else fl1)"
  have "AcceptMessage ss d b f = (WEAVE_NO_ERROR, d\<lparr>DInfo := (DInfo d)\<lparr>Flags := fl, PeerAuthMode := SS_AuthMode ss\<rparr>\<rparr>, b, f1)"
    using assms(1) by (simp add: AcceptMessage_def Let_def fl_def fl1_def)
  moreover have "fl AND kWeaveMessageFlag_DuplicateMessage \<noteq> 0 \<longleftrightarrow> dup"
    using assms(2) by (simp add: fl_def fl1_def bit.conj_disj_distrib2)
  ultimately show ?thesis using that by blast
qed

lemma encode_decode:
  fixes env :: "'k Platform"
  assumes "wf_buf b" and "sha1_length env" and "Flags m AND kWeaveMessageFlag_MessageEncoded = 0" and "reserve \<le> 2"
    and "EncodeMessage env m b con maxLen reserve f = (WEAVE_NO_ERROR, m', b', f', acts)"
    and "GetSessionState (KeyOps env) (SHA1 env) (if DestNodeId m = kAnyNodeId then SourceNodeId m else DestNodeId m)
      (MsgKeyId m) (EncryptionType m) con f = (err, ss, f1)"
    and "Flags m AND kWeaveMessageFlag_SourceNodeId \<noteq> 0 \<or> src = SourceNodeId m"
    and "Flags m AND kWeaveMessageFlag_DestNodeId \<noteq> 0 \<or> LocalNodeId g = DestNodeId m"
    and "GetSessionState (KeyOps env) (SHA1 env) (SourceNodeId m) (if EncryptionType m = 0 then 0 else MsgKeyId m) (EncryptionType m) rcon g
      = (WEAVE_NO_ERROR, rs, g1)"
    and "EncryptionType m = 0 \<or> map_option EncKey (get_key rs g1) = map_option EncKey (get_key ss f1)"
    and "SessionState_IsDuplicateMessage rs (MessageId m') g1 = Some (dup, g2)"
  shows "\<exists>d' b1. DecodeMessage env b' src rcon d g = (WEAVE_NO_ERROR, d', b1, g2) \<and>
      take (unat (DPayloadLen d')) (drop (DPayload d') (block b1)) = contents b \<and>
      SourceNodeId (DInfo d') = SourceNodeId m \<and> DestNodeId (DInfo d') = DestNodeId m \<and> MessageId (DInfo d') = MessageId m' \<and>
      MsgKeyId (DInfo d') = (if EncryptionType m = 0 then 0 else MsgKeyId m) \<and>
      EncryptionType (DInfo d') = EncryptionType m \<and> MessageVersion (DInfo d') = MessageVersion m \<and>
      PeerAuthMode (DInfo d') = SS_AuthMode rs \<and> (Flags (DInfo d') AND kWeaveMessageFlag_DuplicateMessage \<noteq> 0 \<longleftrightarrow> dup)"
proof -
  obtain m2 key where m2: "m' = m2\<lparr>Flags := Flags m2 OR kWeaveMessageFlag_MessageEncoded\<rparr>" "encodable m2" "same_message m m2"
    "wf_buf b'" "contents b' = MessageHead m2 @ protected_body env m2 key (contents b)"
    "EncryptionType m \<noteq> 0 \<Longrightarrow> contents b \<noteq> [] \<and> map_option EncKey (get_key ss f1) = Some key"
    using EncodeMessage_ok [OF assms(1-3,5,4,6)] by metis
  note same = m2(3) [unfolded same_message_def]
  let ?i = "(DInfo d)\<lparr>SourceNodeId := src\<rparr>"
  define r where "r = received_info (LocalNodeId g) ?i m2"
  have r: "SourceNodeId r = SourceNodeId m2" "DestNodeId r = DestNodeId m2" "EncryptionType r = EncryptionType m"
    "MsgKeyId r = (if EncryptionType m = 0 then 0 else MsgKeyId m)" "MessageId r = MessageId m2" "MessageVersion r = MessageVersion m"
    using assms(7,8) same by (auto simp: r_def received_info_def)
  have body: "protected_body env r key (contents b) = protected_body env m2 key (contents b)"
    unfolding r_def using r(1,2) by (intro protected_body_received [OF m2(2)]) (simp_all add: r_def)
  have dec: "DecodeHeader (LocalNodeId g) (contents b') ?i = (WEAVE_NO_ERROR, r, protected_body env r key (contents b))"
    unfolding body m2(5) unfolding r_def by (rule DecodeHeader_MessageHead [OF m2(2)])
  have et: "EncryptionType r = 0 \<or> EncryptionType r = 1" using m2(2) same r(3) by (auto simp: encodable_def)
  have s: "GetSessionState (KeyOps env) (SHA1 env) (SourceNodeId r) (MsgKeyId r) (EncryptionType r) rcon g = (WEAVE_NO_ERROR, rs, g1)"
    using assms(9) r same by simp
  have len: "length (contents b) < 65536" using length_contents [OF assms(1)] unat_u16_less [of "len b"] by simp
  have cb: "contents b' = MessageHead m2 @ protected_body env r key (contents b)" unfolding body by (rule m2(5))
  have ne: "EncryptionType r = 1 \<Longrightarrow> contents b \<noteq> []" and rk: "EncryptionType r = 1 \<Longrightarrow> map_option EncKey (get_key rs g1) = Some key"
    using m2(6) assms(10) r(3) by simp_all
  obtain b1 where b1: "DecodeMessage env b' src rcon d g =
      AcceptMessage rs (d\<lparr>DInfo := r, DPayload := payload b' + length (MessageHead m2), DPayloadLen := of_nat (length (contents b))\<rparr>) b1 g1"
    "payload b1 = payload b'" "take (length (MessageHead m2) + length (contents b)) (contents b1) = MessageHead m2 @ contents b"
    using DecodeMessage_protected [OF m2(4) assms(2) cb len ne dec et s rk] by blast
  have payload: "take (length (contents b)) (drop (payload b' + length (MessageHead m2)) (block b1)) = contents b"
    using take_of_prefix [OF b1(3) [unfolded contents_def [of b1]]] b1(2) by (simp add: add.commute)
  define D where "D = d\<lparr>DInfo := r, DPayload := payload b' + length (MessageHead m2), DPayloadLen := of_nat (length (contents b))\<rparr>"
  have dup: "SessionState_IsDuplicateMessage rs (MessageId (DInfo D)) g1 = Some (dup, g2)" using assms(11) m2(1) r(5) by (simp add: D_def)
  have "Flags (DInfo D) AND kWeaveMessageFlag_DuplicateMessage = 0" by (simp add: D_def r_def received_info_def and.assoc)
  from AcceptMessage_flags [OF dup this]
  obtain fl where acc: "DecodeMessage env b' src rcon d g = (WEAVE_NO_ERROR, D\<lparr>DInfo := (DInfo D)\<lparr>Flags := fl, PeerAuthMode := SS_AuthMode rs\<rparr>\<rparr>, b1, g2)"
    "fl AND kWeaveMessageFlag_DuplicateMessage \<noteq> 0 \<longleftrightarrow> dup"
    unfolding b1(1) D_def [symmetric] by metis
  show ?thesis
    unfolding acc(1) using acc(2) payload r same m2(1) len by (simp add: unat_of_nat_u16 D_def)
qed

section \<open>Properties\<close>

text \<open>A concrete sender and receiver: node 5 sends 2 bytes to node 9 under session key \<open>0x2005\<close>.\<close>

definition sample_env :: "unit Platform" where
  "sample_env = \<lparr>AES128 = (\<lambda>key block. map2 (XOR) key block), SHA1 = (\<lambda>x. replicate 20 (of_nat (length x))), KeyOps = empty_store,
     StorageWrite = WEAVE_NO_ERROR\<rparr>"

definition sample_key :: WeaveEncryptionKey where
  "sample_key = \<lparr>DataKey = replicate 16 7, IntegrityKey = replicate 20 9\<rparr>"

definition sample_fabric :: "u64 \<Rightarrow> u64 \<Rightarrow> unit WeaveFabricState" where
  "sample_fabric local peer = (blank_fabric 2)\<lparr>LocalNodeId := local, SessionKeys := [blank_session\<lparr>NodeId := peer,
     MsgEncKey := \<lparr>KeyId = 0x2005, EncType = 1, EncKey = sample_key\<rparr>\<rparr>]\<rparr>"

definition sample_msg :: WeaveMessageInfo where
  "sample_msg = MsgInfo_Clear\<lparr>SourceNodeId := 5, DestNodeId := 9, MsgKeyId := 0x2005, MessageVersion := 2, EncryptionType := 1,
     Flags := 0x200\<rparr>"

definition sample_buf :: PacketBuffer where
  "sample_buf = \<lparr>pnext = None, payload = 30, tot_len = 2, len = 2, ref = 1, block = replicate 30 0 @ [1, 2] @ replicate 30 0\<rparr>"

definition sample_encoded :: "WEAVE_ERROR \<times> WeaveMessageInfo \<times> PacketBuffer \<times> unit WeaveFabricState \<times> SyncAction list" where
  "sample_encoded = EncodeMessage sample_env sample_msg sample_buf None 0xFFFF 0 (sample_fabric 5 9)"

lemma sample_env_ok: "sha1_length sample_env"
  by (simp add: sample_env_def)

lemma sample_session:
  "GetSessionState ops H peer 0x2005 1 None (sample_fabric local peer) = (WEAVE_NO_ERROR,
     \<lparr>SS_MsgEncKey = Some (SessionKeyRef 0), SS_AuthMode = 0, SS_NextMsgId = SessionCounter 0, SS_Rcv = SessionWindow 0\<rparr>, sample_fabric local peer)"
  if "peer \<noteq> 0" "peer \<noteq> kAnyNodeId"
  using that by (simp add: GetSessionState_def sample_fabric_def blank_session_def GetKeyType_def FindSessionKey_def IsSessionKey_def Let_def)

lemma sample_encoded_ok: "\<exists>m' b' f' acts. sample_encoded = (WEAVE_NO_ERROR, m', b', f', acts)"
proof -
  let ?rs = "\<lparr>SS_MsgEncKey = Some (SessionKeyRef 0), SS_AuthMode = 0, SS_NextMsgId = SessionCounter 0, SS_Rcv = SessionWindow 0\<rparr>"
  have o: "MessageOverhead sample_msg (DataLength sample_buf) = (WEAVE_NO_ERROR, 16, 20)"
    by (simp add: MessageOverhead_def sample_msg_def sample_buf_def DataLength_def MsgInfo_Clear_def)
  have b: "EnsureReservedSize 16 sample_buf = (True, sample_buf)" "unat (DataLength sample_buf) = 2" "unat (MaxDataLength sample_buf) = 32"
    by (simp_all add: EnsureReservedSize_def ReservedSize_def sample_buf_def word_le_nat_alt DataLength_def MaxDataLength_def AllocSize_def)
  have "fst (EncodeInSession sample_env sample_msg sample_buf 16 20 ?rs (sample_fabric 5 9)) = WEAVE_NO_ERROR"
    by (simp add: EncodeInSession_def Start_def sample_buf_def AssignMessageId_def NewMessageId_def RequestCounterSync_def sample_msg_def MsgInfo_Clear_def
        IsAppGroupKey_def IsAppStaticKey_def IsAppRotatingKey_def GetKeyType_def EncodeHeaderField_def get_key_def update_session_def Let_def)
  then have "fst sample_encoded = WEAVE_NO_ERROR"
    by (simp add: sample_encoded_def EncodeMessage_def o b) (simp add: sample_msg_def MsgInfo_Clear_def sample_session)
  then show ?thesis by (metis prod.collapse)
qed

definition sample_ss :: WeaveSessionState where
  "sample_ss = \<lparr>SS_MsgEncKey = Some (SessionKeyRef 0), SS_AuthMode = 0, SS_NextMsgId = SessionCounter 0, SS_Rcv = SessionWindow 0\<rparr>"

lemma sample_hyps:
  "wf_buf sample_buf" "Flags sample_msg AND kWeaveMessageFlag_MessageEncoded = 0" "(0 :: u16) \<le> 2"
  "GetSessionState (KeyOps sample_env) (SHA1 sample_env) (if DestNodeId sample_msg = kAnyNodeId then SourceNodeId sample_msg else DestNodeId sample_msg)
     (MsgKeyId sample_msg) (EncryptionType sample_msg) None (sample_fabric 5 9) = (WEAVE_NO_ERROR, sample_ss, sample_fabric 5 9)"
  "Flags sample_msg AND kWeaveMessageFlag_SourceNodeId \<noteq> 0 \<or> 0 = SourceNodeId sample_msg"
  "Flags sample_msg AND kWeaveMessageFlag_DestNodeId \<noteq> 0 \<or> LocalNodeId (sample_fabric 9 5) = DestNodeId sample_msg"
  "GetSessionState (KeyOps sample_env) (SHA1 sample_env) (SourceNodeId sample_msg) (if EncryptionType sample_msg = 0 then 0 else MsgKeyId sample_msg)
     (EncryptionType sample_msg) None (sample_fabric 9 5) = (WEAVE_NO_ERROR, sample_ss, sample_fabric 9 5)"
  "EncryptionType sample_msg = 0 \<or> map_option EncKey (get_key sample_ss (sample_fabric 9 5)) = map_option EncKey (get_key sample_ss (sample_fabric 5 9))"
  by (simp_all add: wf_buf_def sample_buf_def AllocSize_def sample_msg_def MsgInfo_Clear_def sample_session sample_ss_def get_key_def)
    (simp_all add: sample_fabric_def)

lemma sample_dup: "\<exists>dup g2. SessionState_IsDuplicateMessage sample_ss i (sample_fabric 9 5) = Some (dup, g2)"
  by (simp add: SessionState_IsDuplicateMessage_def IsDuplicateMessage_def MessageIdNotSynchronized_def get_rcv_def get_key_def sample_ss_def
      sample_fabric_def blank_session_def no_rcv_def IsAppGroupKey_def IsAppStaticKey_def IsAppRotatingKey_def GetKeyType_def) blast

lemma sample_encoded_cases:
  obtains m' b' f' acts dup g2 where "EncodeMessage sample_env sample_msg sample_buf None 0xFFFF 0 (sample_fabric 5 9) = (WEAVE_NO_ERROR, m', b', f', acts)"
    "sample_encoded = (WEAVE_NO_ERROR, m', b', f', acts)" "SessionState_IsDuplicateMessage sample_ss (MessageId m') (sample_fabric 9 5) = Some (dup, g2)"
  using sample_encoded_ok sample_dup unfolding sample_encoded_def by blast

lemma sample_decoded:
  "\<exists>d' b1 g2. DecodeMessage sample_env (fst (snd (snd sample_encoded))) 0 None \<lparr>DInfo = MsgInfo_Clear, DPayload = 0, DPayloadLen = 0\<rparr>
      (sample_fabric 9 5) = (WEAVE_NO_ERROR, d', b1, g2) \<and> EncryptionType (DInfo d') \<noteq> 0 \<and> wf_buf (fst (snd (snd sample_encoded)))"
proof -
  obtain m' b' f' acts dup g2 where e: "EncodeMessage sample_env sample_msg sample_buf None 0xFFFF 0 (sample_fabric 5 9) = (WEAVE_NO_ERROR, m', b', f', acts)"
    "sample_encoded = (WEAVE_NO_ERROR, m', b', f', acts)" "SessionState_IsDuplicateMessage sample_ss (MessageId m') (sample_fabric 9 5) = Some (dup, g2)"
    by (rule sample_encoded_cases)
  have "EncryptionType sample_msg \<noteq> 0" by (simp add: sample_msg_def)
  moreover have "wf_buf b'" using EncodeMessage_ok [OF sample_hyps(1) sample_env_ok sample_hyps(2) e(1) sample_hyps(3,4)] by blast
  ultimately show ?thesis
    using encode_decode [OF sample_hyps(1) sample_env_ok sample_hyps(2,3) e(1) sample_hyps(4-8) e(3)] unfolding e(2) fst_conv snd_conv by metis
qed

text \<open>
  C2. A message arrives as it was sent.  When a message has been encoded, whatever its header
  fields, encryption and the place of its payload in the buffer, a receiver that has the sender's key for the
  session and knows the node ids the header omits decodes it without error: the payload it is pointed at is
  the one that was sent, the message id, node ids, key id, version and encryption type are the sender's, and
  the session's replay check decides whether it is marked as a duplicate.
\<close>

theorem message_roundtrip:
  fixes env :: "'k Platform"
  assumes "wf_buf b" and "sha1_length env" and "Flags m AND kWeaveMessageFlag_MessageEncoded = 0" and "reserve \<le> 2"
    and "EncodeMessage env m b con maxLen reserve f = (WEAVE_NO_ERROR, m', b', f', acts)"
    and "GetSessionState (KeyOps env) (SHA1 env) (if DestNodeId m = kAnyNodeId then SourceNodeId m else DestNodeId m)
      (MsgKeyId m) (EncryptionType m) con f = (err, ss, f1)"
    and "Flags m AND kWeaveMessageFlag_SourceNodeId \<noteq> 0 \<or> src = SourceNodeId m"
    and "Flags m AND kWeaveMessageFlag_DestNodeId \<noteq> 0 \<or> LocalNodeId g = DestNodeId m"
    and "GetSessionState (KeyOps env) (SHA1 env) (SourceNodeId m) (if EncryptionType m = 0 then 0 else MsgKeyId m) (EncryptionType m) rcon g
      = (WEAVE_NO_ERROR, rs, g1)"
    and "EncryptionType m = 0 \<or> map_option EncKey (get_key rs g1) = map_option EncKey (get_key ss f1)"
    and "SessionState_IsDuplicateMessage rs (MessageId m') g1 = Some (dup, g2)"
  shows "\<exists>d' b1. DecodeMessage env b' src rcon d g = (WEAVE_NO_ERROR, d', b1, g2) \<and>
      take (unat (DPayloadLen d')) (drop (DPayload d') (block b1)) = contents b \<and>
      SourceNodeId (DInfo d') = SourceNodeId m \<and> DestNodeId (DInfo d') = DestNodeId m \<and> MessageId (DInfo d') = MessageId m' \<and>
      MsgKeyId (DInfo d') = (if EncryptionType m = 0 then 0 else MsgKeyId m) \<and>
      EncryptionType (DInfo d') = EncryptionType m \<and> MessageVersion (DInfo d') = MessageVersion m \<and>
      PeerAuthMode (DInfo d') = SS_AuthMode rs \<and> (Flags (DInfo d') AND kWeaveMessageFlag_DuplicateMessage \<noteq> 0 \<longleftrightarrow> dup)"
  using assms by (rule encode_decode)

theorem message_roundtrip_witness:
  "\<exists>d' b1 g2. DecodeMessage sample_env (fst (snd (snd sample_encoded))) 0 None \<lparr>DInfo = MsgInfo_Clear, DPayload = 0, DPayloadLen = 0\<rparr>
      (sample_fabric 9 5) = (WEAVE_NO_ERROR, d', b1, g2) \<and> take (unat (DPayloadLen d')) (drop (DPayload d') (block b1)) = [1, 2] \<and>
      MessageId (DInfo d') = MessageId (fst (snd sample_encoded))"
proof -
  obtain m' b' f' acts dup g2 where e: "EncodeMessage sample_env sample_msg sample_buf None 0xFFFF 0 (sample_fabric 5 9) = (WEAVE_NO_ERROR, m', b', f', acts)"
    "sample_encoded = (WEAVE_NO_ERROR, m', b', f', acts)" "SessionState_IsDuplicateMessage sample_ss (MessageId m') (sample_fabric 9 5) = Some (dup, g2)"
    by (rule sample_encoded_cases)
  have c: "contents sample_buf = [1, 2]" by (simp add: contents_def sample_buf_def)
  show ?thesis
    using message_roundtrip [OF sample_hyps(1) sample_env_ok sample_hyps(2,3) e(1) sample_hyps(4-8) e(3)] unfolding e(2) c fst_conv snd_conv by blast
qed

text \<open>
  C3. An accepted message is authentic.  When the decoder accepts an encrypted message, the 20 bytes
  that follow the payload it returns are the keyed hash (RFC 2104), under the session's integrity key, of the
  node ids of the message, for version 2 its header field and message id, and exactly the payload returned.
\<close>

theorem accepted_message_is_authentic:
  fixes env :: "'k Platform"
  assumes "wf_buf b" and "sha1_length env" and "DecodeMessage env b src con d f = (WEAVE_NO_ERROR, d', b', f')"
    and "EncryptionType (DInfo d') \<noteq> 0"
  shows "\<exists>ss f1 k. GetSessionState (KeyOps env) (SHA1 env) (SourceNodeId (DInfo d')) (MsgKeyId (DInfo d')) (EncryptionType (DInfo d')) con f
      = (WEAVE_NO_ERROR, ss, f1) \<and> get_key ss f1 = Some k \<and>
    (let data = take (unat (DPayloadLen d')) (drop (DPayload d') (block b')) in
     take kDigestLength (drop (DPayload d' + unat (DPayloadLen d')) (block b')) =
       rfc2104 (SHA1 env) (IntegrityKey (EncKey k))
         (Write64 (SourceNodeId (DInfo d')) @ Write64 (DestNodeId (DInfo d')) @
          (if MessageVersion (DInfo d') = 2
           then Write16 (EncodeHeaderField (DInfo d') AND kMsgHeaderField_MessageHMACMask) @ Write32 (MessageId (DInfo d')) else []) @ data))"
proof -
  obtain m rest ss f1 k clear where
    h: "DecodeHeader (LocalNodeId f) (contents b) ((DInfo d)\<lparr>SourceNodeId := src\<rparr>) = (WEAVE_NO_ERROR, m, rest)"
    and s: "GetSessionState (KeyOps env) (SHA1 env) (SourceNodeId m) (MsgKeyId m) (EncryptionType m) con f = (WEAVE_NO_ERROR, ss, f1)"
    and k: "get_key ss f1 = Some k" and l: "kDigestLength < length rest"
    and clear: "clear = Encrypt_AES128CTRSHA1 (AES128 env) m (DataKey (EncKey k)) rest"
    and cmp: "ConstantTimeCompare (drop (length rest - kDigestLength) clear)
       (ComputeIntegrityCheck_AES128CTRSHA1 (SHA1 env) m (IntegrityKey (EncKey k)) (take (length rest - kDigestLength) clear)) kDigestLength"
    and a: "AcceptMessage ss (d\<lparr>DInfo := m, DPayload := Start b + (unat (DataLength b) - length rest), DPayloadLen := of_nat (length rest - kDigestLength)\<rparr>)
       (poke (Start b + (unat (DataLength b) - length rest)) clear b) f1 = (WEAVE_NO_ERROR, d', b', f')"
    using DecodeMessage_acceptedE [OF assms(3,4)] .
  note ok = AcceptMessage_ok [OF a, simplified]
  have len: "length rest \<le> unat (len b)"
    using DecodeHeader_suffix [OF h] length_contents [OF assms(1)] by (auto dest: suffix_length_le)
  have small: "length rest < 65536" using len unat_u16_less [of "len b"] by simp
  have lc: "length clear = length rest" unfolding clear Encrypt_AES128CTR using small by (simp add: AES128CTR_inverse)
  have "Start b + (unat (DataLength b) - length rest) + length clear \<le> length (block b)"
    using assms(1) len lc by (simp add: Start_def DataLength_def wf_buf_def AllocSize_def)
  from drop_overwrite [OF this]
  have dr: "drop (DPayload d') (block b') = clear @ drop (DPayload d' + length clear) (block b)" by (simp add: ok(1,2) poke_def)
  have n: "unat (DPayloadLen d') = length rest - kDigestLength" using ok(3) small by (simp add: unat_of_nat_u16)
  have data: "take (unat (DPayloadLen d')) (drop (DPayload d') (block b')) = take (length rest - kDigestLength) clear"
    unfolding dr n using lc by simp
  have "take kDigestLength (drop (DPayload d' + unat (DPayloadLen d')) (block b')) = drop (length rest - kDigestLength) clear"
    using arg_cong [OF dr, of "drop (length rest - kDigestLength)"] lc l by (simp add: n add.commute)
  also have "\<dots> = ComputeIntegrityCheck_AES128CTRSHA1 (SHA1 env) m (IntegrityKey (EncKey k)) (take (length rest - kDigestLength) clear)"
    using cmp lc l length_check [OF assms(2)] by (simp add: ConstantTimeCompare_iff)
  also have "\<dots> = rfc2104 (SHA1 env) (IntegrityKey (EncKey k))
         (Write64 (SourceNodeId m) @ Write64 (DestNodeId m) @
          (if MessageVersion m = 2 then Write16 (EncodeHeaderField m AND kMsgHeaderField_MessageHMACMask) @ Write32 (MessageId m) else []) @
          take (length rest - kDigestLength) clear)"
    using HMAC_chunks [of "SHA1 env" "[_, _]" "IntegrityKey (EncKey k)" HMAC_new]
    by (simp add: ComputeIntegrityCheck_AES128CTRSHA1_def Let_def)
  finally show ?thesis using s k data ok by (simp add: Let_def)
qed

theorem accepted_message_is_authentic_witness:
  "\<exists>(d' :: Decoded) ss f1 k. GetSessionState (KeyOps sample_env) (SHA1 sample_env) (SourceNodeId (DInfo d')) (MsgKeyId (DInfo d')) (EncryptionType (DInfo d'))
      None (sample_fabric 9 5) = (WEAVE_NO_ERROR, ss, f1) \<and> get_key ss f1 = Some k"
proof -
  obtain d' b1 g2 where d: "DecodeMessage sample_env (fst (snd (snd sample_encoded))) 0 None \<lparr>DInfo = MsgInfo_Clear, DPayload = 0, DPayloadLen = 0\<rparr>
      (sample_fabric 9 5) = (WEAVE_NO_ERROR, d', b1, g2)" "EncryptionType (DInfo d') \<noteq> 0" "wf_buf (fst (snd (snd sample_encoded)))"
    using sample_decoded by blast
  from accepted_message_is_authentic [OF d(3) sample_env_ok d(1,2)] show ?thesis by blast
qed

text \<open>
  C34. The length of a frame wraps.  A frame that announces a message of 65534 or 65535 bytes passes
  for a complete one: the frame length computed from it is 0 or 1, so instead of waiting for the rest or
  rejecting it, the decoder is given everything from behind the length field to the end of the buffer's
  memory as the message, also the bytes that were never received.
\<close>

theorem frame_length_wraps:
  assumes "wf_buf b" "2 \<le> unat (len b)" "fst (Read16 (contents b)) = msgLen" "msgLen = 0xFFFE \<or> msgLen = 0xFFFF"
  shows "\<exists>b1. contents b1 = drop (payload b + 2) (block b) \<and>
    fst (DecodeMessageWithLength env b src con d f) = fst (DecodeMessage env b1 src con d f) \<and>
    fst (snd (DecodeMessageWithLength env b src con d f)) = msgLen + 2 \<and> unat (msgLen + 2) < 2"
proof -
  define b0 where "b0 = SetStart (int (payload b) + 2) b"
  have l: "2 \<le> length (contents b)" using assms(1,2) by (simp add: length_contents)
  have "b0 = SetStart (int (payload b + 2)) b" by (simp add: b0_def add.commute)
  then have adv: "wf_buf b0" "payload b0 = payload b + 2" "block b0 = block b"
    using pbuf.advance [OF assms(1) l, of b0] by simp_all (simp add: SetStart_def Let_def)
  have size: "AllocSize b0 < 65536" using adv(1) by (simp add: wf_buf_def)
  have bl: "length (block b0) = AllocSize b0" by (simp add: AllocSize_def)
  have small: "room b0 \<le> 65533" using size adv(2) by (simp add: room_def)
  then have "MaxDataLength b0 \<le> msgLen" using MaxDataLength_eq [OF adv(1)] assms(4) by (auto simp: room_def word_le_nat_alt)
  then have sl: "SetLen msgLen b0 = SetLen (MaxDataLength b0) b0" by (simp add: SetLen_def SetLength_def min_absorb2)
  have "contents (SetLen msgLen b0) = window (unat (MaxDataLength b0)) b0"
    unfolding sl using pbuf.resize [OF adv(1), of "MaxDataLength b0"] MaxDataLength_eq [OF adv(1)] by (simp add: room_def)
  also have "\<dots> = drop (payload b + 2) (block b)"
    using MaxDataLength_eq [OF adv(1)] adv(2,3) bl by (simp add: window_def AllocSize_def)
  finally have c: "contents (SetLen msgLen b0) = drop (payload b + 2) (block b)" .
  have w: "unat (msgLen + 2) < 2" using assms(4) by auto
  have "\<not> DataLength b < 2" "\<not> DataLength b < msgLen + 2" using assms(2) w by (simp_all add: DataLength_def word_less_nat_alt)
  then have "fst (DecodeMessageWithLength env b src con d f) = fst (DecodeMessage env (SetLen msgLen b0) src con d f) \<and>
      fst (snd (DecodeMessageWithLength env b src con d f)) = msgLen + 2"
    using assms(3) by (simp add: DecodeMessageWithLength_def Let_def b0_def Start_def split: prod.split)
  with c w show ?thesis by blast
qed

theorem frame_length_wraps_witness:
  "\<exists>b1. contents b1 = drop 32 (block (sample_buf\<lparr>block := replicate 30 0 @ [255, 255] @ replicate 30 0\<rparr>)) \<and>
    fst (DecodeMessageWithLength sample_env (sample_buf\<lparr>block := replicate 30 0 @ [255, 255] @ replicate 30 0\<rparr>) 0 None
      \<lparr>DInfo = MsgInfo_Clear, DPayload = 0, DPayloadLen = 0\<rparr> (sample_fabric 9 5)) =
    fst (DecodeMessage sample_env b1 0 None \<lparr>DInfo = MsgInfo_Clear, DPayload = 0, DPayloadLen = 0\<rparr> (sample_fabric 9 5))"
proof -
  let ?b = "sample_buf\<lparr>block := replicate 30 0 @ [255, 255] @ replicate 30 0\<rparr>"
  have "wf_buf ?b" by (simp add: wf_buf_def sample_buf_def AllocSize_def)
  moreover have "2 \<le> unat (len ?b)" by (simp add: sample_buf_def)
  moreover have "fst (Read16 (contents ?b)) = 0xFFFF" by (simp add: Read16_def contents_def sample_buf_def)
  ultimately show ?thesis using frame_length_wraps [of ?b "0xFFFF"] by (simp add: sample_buf_def) blast
qed

definition consumes :: "RecvAction \<Rightarrow> bool" where
  "consumes a = (case a of OnMessageReceived m b \<Rightarrow> True | OnUDPTunneledMessageReceived b \<Rightarrow> True | FreeMessage \<Rightarrow> True | _ \<Rightarrow> False)"

lemma DecodeHeader_version:
  assumes "DecodeHeader n msg i = (WEAVE_NO_ERROR, m, rest)"
  shows "MessageVersion m = 1 \<or> MessageVersion m = 2"
proof -
  obtain hf p where r: "Read16 msg = (hf, p)" by fastforce
  have l: "\<not> length msg < 6" and z: "\<not> hf AND kMsgHeaderField_ReservedFlagsMask \<noteq> 0"
    using assms by (auto simp: DecodeHeader_def r Let_def split: if_splits)
  note a = assms [unfolded DecodeHeader_def if_not_P [OF l] Let_def r prod.case if_not_P [OF z]]
  have v: "\<not> (MessageVersion (DecodeHeaderField hf i) \<noteq> 1 \<and> MessageVersion (DecodeHeaderField hf i) \<noteq> 2)"
    using a by (rule contrapos_pp) simp
  have "MessageVersion m = MessageVersion (DecodeHeaderField hf i)"
    using a [unfolded if_not_P [OF v]] by (auto split: prod.splits if_splits)
  then show ?thesis using v by simp
qed

lemma accepted_version:
  assumes "DecodeMessage env b src con d f = (WEAVE_NO_ERROR, d', b', f')"
  shows "MessageVersion (DInfo d') = 1 \<or> MessageVersion (DInfo d') = 2"
proof -
  obtain e m rest where h: "DecodeHeader (LocalNodeId f) (contents b) ((DInfo d)\<lparr>SourceNodeId := src\<rparr>) = (e, m, rest)" by (metis prod.exhaust)
  obtain e2 ss f1 where s: "GetSessionState (KeyOps env) (SHA1 env) (SourceNodeId m) (MsgKeyId m) (EncryptionType m) con f = (e2, ss, f1)"
    by (metis prod.exhaust)
  note e1 = assms [unfolded DecodeMessage_def h prod.case Let_def s]
  have ok: "e = WEAVE_NO_ERROR" using e1 by (auto split: if_splits)
  have "MessageVersion (DInfo d') = MessageVersion m"
    using e1 by (auto dest!: AcceptMessage_ok(9) split: if_splits option.splits)
  moreover have "MessageVersion m = 1 \<or> MessageVersion m = 2" using DecodeHeader_version h ok by blast
  ultimately show ?thesis by simp
qed

text \<open>
  C35. A packet buffer is lost with every repeated tunneled message.  Every received packet is
  handed on or released, except an encrypted tunneled message that is a duplicate: it is neither, so whoever
  replays one takes a buffer from the pool with each copy.
\<close>

theorem only_duplicate_tunneled_message_leaks:
  assumes "DecodeMessage env b (if IsIPv6ULA (SrcAddress pkt) then IPv6InterfaceIdToWeaveNodeId (InterfaceId (SrcAddress pkt)) else 0) None
      \<lparr>DInfo = MsgInfo_Clear, DPayload = 0, DPayloadLen = 0\<rparr> f = (err, d, b1, f1)"
  shows "length (filter consumes (fst (HandleUDPMessage env cb matchLocal pkt b f))) =
    (if (IsMulticast (DestAddress pkt) \<longrightarrow> matchLocal) \<and> err = WEAVE_NO_ERROR \<and>
        (DestNodeId (DInfo d) = LocalNodeId f1 \<or> DestNodeId (DInfo d) = kAnyNodeId) \<and> MessageVersion (DInfo d) = 2 \<and>
        Flags (DInfo d) AND kWeaveMessageFlag_TunneledData \<noteq> 0 \<and> Flags (DInfo d) AND kWeaveMessageFlag_DuplicateMessage \<noteq> 0 \<and>
        MsgKeyId (DInfo d) \<noteq> 0 then 0 else 1)"
proof (cases "IsMulticast (DestAddress pkt) \<and> \<not> matchLocal")
  case True
  then show ?thesis by (simp add: HandleUDPMessage_def Let_def consumes_def)
next
  case False
  note run = HandleUDPMessage_def Let_def if_not_P [OF False] assms prod.case
  consider "err \<noteq> WEAVE_NO_ERROR" | "err = WEAVE_NO_ERROR" "DestNodeId (DInfo d) \<noteq> LocalNodeId f1 \<and> DestNodeId (DInfo d) \<noteq> kAnyNodeId"
    | "err = WEAVE_NO_ERROR" "\<not> (DestNodeId (DInfo d) \<noteq> LocalNodeId f1 \<and> DestNodeId (DInfo d) \<noteq> kAnyNodeId)" by blast
  then show ?thesis
  proof cases
    case 1
    then show ?thesis unfolding run by (simp add: consumes_def)
  next
    case 2
    then show ?thesis unfolding run by (simp add: consumes_def)
  next
    case 3
    have v: "MessageVersion (DInfo d) = 1 \<or> MessageVersion (DInfo d) = 2" using accepted_version assms 3(1) by blast
    have m: "IsMulticast (DestAddress pkt) \<longrightarrow> matchLocal" using False by simp
    show ?thesis unfolding run 3(1)
      using 3(2) v m by (auto simp: DispatchUDPMessage_def consumes_def Let_def)
  qed
qed

theorem only_duplicate_tunneled_message_leaks_witness:
  "length (filter consumes (fst (HandleUDPMessage sample_env \<lparr>HasOnMessageReceived = True, HasOnUDPTunneledMessageReceived = True, HasOnReceiveError = True\<rparr>
     True \<lparr>SrcAddress = Any, DestAddress = Any\<rparr> sample_buf (sample_fabric 9 5)))) = 1"
proof -
  have "length (contents sample_buf) < 6" by (simp add: contents_def sample_buf_def)
  then have "DecodeMessage sample_env sample_buf src None d (sample_fabric 9 5) =
      (WEAVE_ERROR_INVALID_MESSAGE_LENGTH, d\<lparr>DInfo := (DInfo d)\<lparr>SourceNodeId := src\<rparr>\<rparr>, sample_buf, sample_fabric 9 5)" for src d
    by (simp add: DecodeMessage_def DecodeHeader_def)
  from only_duplicate_tunneled_message_leaks [where pkt = "\<lparr>SrcAddress = Any, DestAddress = Any\<rparr>", OF this] show ?thesis by simp
qed

end
