(* ===== verification/Message_Replay.thy ===== *)
theory Message_Replay
  imports Message_Codec
begin

text \<open>
  Sessions seen from the message layer: the receive window after a message has been accepted, and looking the
  session up again.
\<close>

section \<open>The receive window\<close>

text \<open>Receiving an id a second time, right after the first, is always recognised when the message is encrypted.\<close>

lemma IsDuplicateSync_again:
  assumes "IsDuplicateSync True i s = Some (dup, s')"
  shows "IsDuplicateSync True i s' = Some (True, s')"
proof -
  define d where "d = sint (i - MaxMsgIdRcvd s)"
  define fl where "fl = RcvFlags s AND 0x7FFF"
  have zero: "IsDuplicateSync True i t = Some (True, t)" if "MaxMsgIdRcvd t = i" for t
    using that by (simp add: IsDuplicateSync_def Let_def)
  note a = assms [unfolded IsDuplicateSync_def Let_def, folded d_def fl_def]
  show ?thesis
  proof (cases "d \<ge> 0")
    case True
    then have "MaxMsgIdRcvd s' = i"
    proof (cases "d = 0")
      case True
      then have "i - MaxMsgIdRcvd s = 0" using signed_word_eqI [of "i - MaxMsgIdRcvd s" 0] by (simp add: d_def)
      then show ?thesis using a True by auto
    next
      case False
      then show ?thesis using a True by auto
    qed
    then show ?thesis by (rule zero)
  next
    case neg: False
    show ?thesis
    proof (cases "dup")
      case True
      then have "s' = s" using a neg by (auto split: if_splits)
      then show ?thesis using assms True by simp
    next
      case False
      define j where "j = nat (- d - 1)"
      have n: "\<not> d > 0" "d \<noteq> 0" using neg by simp_all
      have e: "d \<noteq> - (2 ^ 31)"
      proof
        assume "d = - (2 ^ 31)"
        then show False using a n by simp
      qed
      have w: "- d \<le> 15"
      proof (rule ccontr)
        assume "\<not> - d \<le> 15"
        then show False using a n e False by simp
      qed
      then have j: "j < 15" using neg by (simp add: j_def)
      note a1 = a [unfolded if_not_P [OF n(1)] if_not_P [OF n(2)] if_not_P [OF e] if_P [OF w], folded j_def]
      have clear: "fl AND push_bit j 1 = 0"
      proof (rule ccontr)
        assume "fl AND push_bit j 1 \<noteq> 0"
        then show False using a1 False by simp
      qed
      have s': "s' = s\<lparr>RcvFlags := 0x8000 OR (fl OR push_bit j 1) OR (RcvFlags s AND NOT 0x7FFF)\<rparr>"
        using a1 unfolding if_P [OF clear] by simp
      have "bit (RcvFlags s' AND 0x7FFF) j" unfolding low_flags s' using j new_flags [of j "fl OR push_bit j 1" "RcvFlags s"]
        by (simp add: bit_simps)
      then have "bit ((RcvFlags s' AND 0x7FFF) AND push_bit j 1) j" using j by (simp only: bit_and_iff) (simp add: bit_simps)
      then have m: "(RcvFlags s' AND 0x7FFF) AND push_bit j 1 \<noteq> 0" by (metis bit_0_eq bot_apply bot_bool_def)
      have d': "sint (i - MaxMsgIdRcvd s') = d" by (simp add: s' d_def)
      show ?thesis unfolding IsDuplicateSync_def Let_def d' using neg e m by (simp add: j_def)
    qed
  qed
qed

lemma IsDuplicateMessage_again:
  assumes "IsDuplicateMessage (Some k) i r = Some (dup, r')"
  shows "IsDuplicateMessage (Some k) i r' = Some (True, r')"
proof (cases "MessageIdNotSynchronized r")
  case True
  show ?thesis
  proof (cases "IsAppGroupKey (ucast k)")
    case True
    then show ?thesis using assms \<open>MessageIdNotSynchronized r\<close> by (auto simp: IsDuplicateMessage_def)
  next
    case False
    then obtain s where "r = Some s" "r' = Some (s\<lparr>RcvFlags := 0x8000, MaxMsgIdRcvd := i\<rparr>)"
      using assms True by (auto simp: IsDuplicateMessage_def split: option.splits)
    then show ?thesis by (simp add: IsDuplicateMessage_def MessageIdNotSynchronized_def IsDuplicateSync_def Let_def)
  qed
next
  case False
  then obtain s where r: "r = Some s" "bit (RcvFlags s) 15"
    by (cases r) (auto simp: MessageIdNotSynchronized_def synchronized_bit)
  obtain s' where s': "IsDuplicateSync True i s = Some (dup, s')" "r' = Some s'"
    using assms r by (auto simp: IsDuplicateMessage_sync)
  have "bit (RcvFlags s') 15"
    using s'(1) r(2) unfolding IsDuplicateSync_def Let_def by (auto simp: bit_or_iff split: if_splits)
  then show ?thesis using IsDuplicateSync_again [OF s'(1)] s'(2) by (simp add: IsDuplicateMessage_sync)
qed

lemma get_put_rcv: "\<lbrakk>SS_Rcv ss = SessionWindow i; i < length (SessionKeys f)\<rbrakk> \<Longrightarrow> get_rcv ss (put_rcv ss (Some w) f) = Some w"
  by (simp add: get_rcv_def put_rcv_def update_session_def)

lemma put_put_rcv: "SS_Rcv ss = SessionWindow i \<Longrightarrow> i < length (SessionKeys f) \<Longrightarrow> put_rcv ss (Some w) (put_rcv ss (Some w) f) = put_rcv ss (Some w) f"
  by (simp add: put_rcv_def update_session_def)

lemma IsDuplicateMessage_Some: "IsDuplicateMessage k i (Some s) = Some (dup, r) \<Longrightarrow> \<exists>w. r = Some w"
  by (auto simp: IsDuplicateMessage_def split: if_splits)

text \<open>A session is found again after its receive window has changed.\<close>

lemma ScanSessionKeys_window:
  assumes "\<And>l. FindSharedSessionEndNode peer l f' = FindSharedSessionEndNode peer l f"
    "map (\<lambda>k. (KeyId (MsgEncKey k), NodeId k, SharedSession k)) ks' = map (\<lambda>k. (KeyId (MsgEncKey k), NodeId k, SharedSession k)) ks"
  shows "ScanSessionKeys f' keyId peer i fr ks' = ScanSessionKeys f keyId peer i fr ks"
  using assms(2)
proof (induction ks arbitrary: ks' i fr)
  case (Cons k ks)
  then obtain k' ks2 where k': "ks' = k' # ks2" by (cases ks') auto
  show ?case using Cons.prems Cons.IH [of ks2] assms(1) unfolding k' by (auto simp: Let_def)
qed simp

lemma put_rcv_window:
  assumes "SS_Rcv ss = SessionWindow i" "i < length (SessionKeys f)"
  shows "FindSessionKey keyId peer c (put_rcv ss (Some w) f) = FindSessionKey keyId peer c f"
proof -
  have "map (\<lambda>k. (KeyId (MsgEncKey k), NodeId k, SharedSession k)) (SessionKeys (put_rcv ss (Some w) f)) =
      map (\<lambda>k. (KeyId (MsgEncKey k), NodeId k, SharedSession k)) (SessionKeys f)"
    using assms by (auto simp: put_rcv_def update_session_def map_update list_update_same_conv)
  then have "ScanSessionKeys (put_rcv ss (Some w) f) keyId peer 0 None (SessionKeys (put_rcv ss (Some w) f)) =
      ScanSessionKeys f keyId peer 0 None (SessionKeys f)"
    using assms by (intro ScanSessionKeys_window) (simp_all add: put_rcv_def FindSharedSessionEndNode_def)
  then show ?thesis by (simp add: FindSessionKey_def)
qed

lemma ScanSessionKeys_bound: "fst (ScanSessionKeys f keyId peer i fr ks) = Some j \<Longrightarrow> j < i + length ks"
  by (induction ks arbitrary: i fr) (fastforce simp: Let_def split: if_splits)+

text \<open>What looking up a session gives.\<close>

lemma GetSessionState_session:
  assumes "GetSessionState ops H peer keyId encType con f = (WEAVE_NO_ERROR, ss, f1)" "IsSessionKey (ucast keyId)"
  obtains i where "f1 = f" "FindSessionKey keyId peer False f = (WEAVE_NO_ERROR, i)" "i < length (SessionKeys f)"
    "EncType (MsgEncKey (SessionKeys f ! i)) = encType" "\<not> (BoundCon (SessionKeys f ! i) \<noteq> None \<and> BoundCon (SessionKeys f ! i) \<noteq> con)"
    "ss = \<lparr>SS_MsgEncKey = Some (SessionKeyRef i), SS_AuthMode = AuthMode (SessionKeys f ! i), SS_NextMsgId = SessionCounter i, SS_Rcv = SessionWindow i\<rparr>"
proof -
  have t: "GetKeyType (ucast keyId) = kType_Session" using assms(2) by (simp add: IsSessionKey_def)
  obtain e i where i: "FindSessionKey keyId peer False f = (e, i)" by fastforce
  have "i < length (SessionKeys f)" if "e = WEAVE_NO_ERROR"
    using i that ScanSessionKeys_bound [of f keyId peer 0 None "SessionKeys f" i]
    by (auto simp: FindSessionKey_def split: if_splits prod.splits option.splits)
  then show ?thesis using that [of i] assms(1) i t by (auto simp: GetSessionState_def Let_def split: if_splits)
qed

lemma GetSessionState_again:
  assumes "GetSessionState ops H peer keyId encType con f = (WEAVE_NO_ERROR, ss, f1)" "IsSessionKey (ucast keyId)"
  shows "GetSessionState ops H peer keyId encType con (put_rcv ss (Some w) f1) = (WEAVE_NO_ERROR, ss, put_rcv ss (Some w) f1)"
proof -
  obtain i where i: "f1 = f" "FindSessionKey keyId peer False f = (WEAVE_NO_ERROR, i)" "i < length (SessionKeys f)"
    "EncType (MsgEncKey (SessionKeys f ! i)) = encType" "\<not> (BoundCon (SessionKeys f ! i) \<noteq> None \<and> BoundCon (SessionKeys f ! i) \<noteq> con)"
    and ss: "ss = \<lparr>SS_MsgEncKey = Some (SessionKeyRef i), SS_AuthMode = AuthMode (SessionKeys f ! i), SS_NextMsgId = SessionCounter i,
      SS_Rcv = SessionWindow i\<rparr>"
    using GetSessionState_session [OF assms] .
  let ?g = "put_rcv ss (Some w) f1"
  have w: "SS_Rcv ss = SessionWindow i" by (simp add: ss)
  have k: "SessionKeys ?g ! i = (SessionKeys f ! i)\<lparr>SessionRcv := w\<rparr>" using i(1,3) by (simp add: put_rcv_def w update_session_def)
  have f: "FindSessionKey keyId peer False ?g = (WEAVE_NO_ERROR, i)" using put_rcv_window [OF w, of f1 keyId peer False w] i by simp
  have t: "GetKeyType (ucast keyId) = kType_Session" using assms(2) by (simp add: IsSessionKey_def)
  show ?thesis using i(4,5) ss [symmetric] by (simp add: GetSessionState_def Let_def t f k)
qed

end
