(* ===== verification/Exchange_Types.thy ===== *)
theory Exchange_Types
  imports Message_Layer "HOL-Library.Monad_Syntax"
begin

text \<open>
  The state of the exchange layer (\<^verbatim>\<open>src/src/lib/core/WeaveExchangeMgr.{h,cpp}\<close>, \<^verbatim>\<open>ExchangeContext.cpp\<close>), the header
  of its messages, and what it uses of the layers below: timers, UDP end points and connections.

  An exchange context is named by its index in \<^verbatim>\<open>ContextPool\<close>, a connection by a number.  What leaves the
  layer - packets, calls of the application's handlers and of the security manager - is appended to a trace
  in the order of the code; an application acts between operations, not inside its handlers.  The clock stands
  still during an operation.  What the platform answers (a socket, a timer, the buffer pool, the random
  number generator) is part of \<open>ExchEnv\<close>; answers that may differ from call to call depend on the number of
  events so far.  \<open>None\<close> is an abort by \<^verbatim>\<open>VerifyOrDie\<close>.
\<close>

section \<open>Exchange header\<close>

abbreviation (input) kWeaveExchangeVersion_V1 :: u8 where "kWeaveExchangeVersion_V1 \<equiv> 1"
abbreviation (input) kWeaveExchangeFlag_Initiator :: u8 where "kWeaveExchangeFlag_Initiator \<equiv> 1"
abbreviation (input) kWeaveExchangeFlag_AckId :: u8 where "kWeaveExchangeFlag_AckId \<equiv> 2"
abbreviation (input) kWeaveExchangeFlag_NeedsAck :: u8 where "kWeaveExchangeFlag_NeedsAck \<equiv> 4"
abbreviation (input) WEAVE_HEADER_RESERVE_SIZE :: u16 where "WEAVE_HEADER_RESERVE_SIZE \<equiv> 38"

record WeaveExchangeHeader =
  HVersion :: u8
  HFlags :: u8
  HExchangeId :: u16
  HProfileId :: u32
  HMessageType :: u8
  HAckMsgId :: u32

definition ExchangeHead :: "WeaveExchangeHeader \<Rightarrow> u8 list" where
  "ExchangeHead h = Write8 (push_bit 4 (HVersion h) OR (HFlags h AND 0xF)) @ Write8 (HMessageType h) @
     Write16 (HExchangeId h) @ Write32 (HProfileId h) @
     (if HFlags h AND kWeaveExchangeFlag_AckId \<noteq> 0 then Write32 (HAckMsgId h) else [])"

definition PrependHeader :: "WeaveExchangeHeader \<Rightarrow> PacketBuffer \<Rightarrow> WEAVE_ERROR \<times> PacketBuffer" where
  "PrependHeader h buf =
     (case EnsureReservedSize WEAVE_HEADER_RESERVE_SIZE buf of (fits, b) \<Rightarrow>
        if \<not> fits then (WEAVE_ERROR_BUFFER_TOO_SMALL, b)
        else if HVersion h \<noteq> kWeaveExchangeVersion_V1 then (WEAVE_ERROR_UNSUPPORTED_EXCHANGE_VERSION, b)
        else
          let headLen = (if HFlags h AND kWeaveExchangeFlag_AckId \<noteq> 0 then 12 else 8) :: nat
          in if Start b < headLen then (UNDEFINED_BEHAVIOR, b)
             else (WEAVE_NO_ERROR, poke (Start b - headLen) (ExchangeHead h) (SetStart (int (Start b - headLen)) b)))"

definition DecodeExchHeader :: "WeaveExchangeHeader \<Rightarrow> PacketBuffer \<Rightarrow> WEAVE_ERROR \<times> WeaveExchangeHeader \<times> PacketBuffer" where
  "DecodeExchHeader h0 buf =
     (if DataLength buf < 8 then (WEAVE_ERROR_INVALID_MESSAGE_LENGTH, h0, buf)
      else
        let (versionFlags, p) = Read8 (contents buf);
            h1 = h0\<lparr>HVersion := drop_bit 4 versionFlags, HFlags := versionFlags AND 0xF\<rparr> in
        if HVersion h1 \<noteq> kWeaveExchangeVersion_V1 then (WEAVE_ERROR_UNSUPPORTED_EXCHANGE_VERSION, h1, buf)
        else
          let (msgType, p) = Read8 p; (exchId, p) = Read16 p; (profileId, p) = Read32 p;
              h2 = h1\<lparr>HMessageType := msgType, HExchangeId := exchId, HProfileId := profileId\<rparr> in
          if HFlags h2 AND kWeaveExchangeFlag_AckId \<noteq> 0
          then if length p < 4 then (WEAVE_ERROR_INVALID_MESSAGE_LENGTH, h2, buf)
               else (WEAVE_NO_ERROR, h2\<lparr>HAckMsgId := fst (Read32 p)\<rparr>, SetStart (int (Start buf + 12)) buf)
          else (WEAVE_NO_ERROR, h2, SetStart (int (Start buf + 8)) buf))"

section \<open>Flags of a context\<close>

abbreviation (input) kFlagInitiator :: u8 where "kFlagInitiator \<equiv> 0x01"
abbreviation (input) kFlagConnectionClosed :: u8 where "kFlagConnectionClosed \<equiv> 0x02"
abbreviation (input) kFlagAutoRequestAck :: u8 where "kFlagAutoRequestAck \<equiv> 0x04"
abbreviation (input) kFlagDropAck :: u8 where "kFlagDropAck \<equiv> 0x08"
abbreviation (input) kFlagResponseExpected :: u8 where "kFlagResponseExpected \<equiv> 0x10"
abbreviation (input) kFlagAckPending :: u8 where "kFlagAckPending \<equiv> 0x20"
abbreviation (input) kFlagPeerRequestedAck :: u8 where "kFlagPeerRequestedAck \<equiv> 0x40"
abbreviation (input) kFlagMsgRcvdFromPeer :: u8 where "kFlagMsgRcvdFromPeer \<equiv> 0x80"

section \<open>State\<close>

record WRMPConfig =
  mInitialRetransTimeout :: u32
  mActiveRetransTimeout :: u32
  mAckPiggybackTimeout :: u16
  mMaxRetrans :: u8

definition gDefaultWRMPConfig :: WRMPConfig where
  "gDefaultWRMPConfig = \<lparr>mInitialRetransTimeout = 2000, mActiveRetransTimeout = 2000, mAckPiggybackTimeout = 200, mMaxRetrans = 3\<rparr>"

text \<open>A message handler: the layer's own that drops the message, or one of the application.\<close>

datatype Handler = DefaultOnMessageReceived | AppHandler nat

text \<open>
  \<open>InUse\<close> is \<^verbatim>\<open>ExchangeMgr != NULL\<close>.  Of the application's handlers other than the one for messages only
  their presence matters.  Pointers of the application and interfaces are numbers, with 0 for the null value.
\<close>

record ExchangeContext =
  InUse :: bool
  mMsgProtocolVersion :: u16
  Con :: "nat option"
  EPeerNodeId :: u64
  PeerAddr :: IPAddress
  PeerIntf :: nat
  PeerPort :: u16
  EExchangeId :: u16
  AppState :: nat
  AllowDuplicateMsgs :: bool
  EEncryptionType :: u8
  EKeyId :: u16
  RetransInterval :: u32
  ResponseTimeout :: u32
  mWRMPConfig :: WRMPConfig
  OnMsgRcvd :: "Handler option"
  HasOnResponseTimeout :: bool
  HasOnRetransmissionTimeout :: bool
  HasOnConnectionClosed :: bool
  HasOnKeyError :: bool
  HasOnThrottleRcvd :: bool
  HasOnDDRcvd :: bool
  HasOnSendError :: bool
  HasOnAckRcvd :: bool
  msg :: "PacketBuffer option"
  backoff :: u32
  currentBcastMsgID :: u32
  msgsReceived :: u8
  rebroadcastThreshold :: u8
  mRefCount :: u8
  mPendingPeerAckId :: u32
  mWRMPNextAckTime :: u16
  mWRMPThrottleTimeout :: u16
  mFlags :: u8

definition IsInitiator :: "ExchangeContext \<Rightarrow> bool" where "IsInitiator c = GetFlag (mFlags c) kFlagInitiator"
definition IsConnectionClosed :: "ExchangeContext \<Rightarrow> bool" where "IsConnectionClosed c = GetFlag (mFlags c) kFlagConnectionClosed"
definition IsResponseExpected :: "ExchangeContext \<Rightarrow> bool" where "IsResponseExpected c = GetFlag (mFlags c) kFlagResponseExpected"
definition IsAckPending :: "ExchangeContext \<Rightarrow> bool" where "IsAckPending c = GetFlag (mFlags c) kFlagAckPending"
definition HasPeerRequestedAck :: "ExchangeContext \<Rightarrow> bool" where "HasPeerRequestedAck c = GetFlag (mFlags c) kFlagPeerRequestedAck"
definition HasRcvdMsgFromPeer :: "ExchangeContext \<Rightarrow> bool" where "HasRcvdMsgFromPeer c = GetFlag (mFlags c) kFlagMsgRcvdFromPeer"
definition ShouldDropAck :: "ExchangeContext \<Rightarrow> bool" where "ShouldDropAck c = GetFlag (mFlags c) kFlagDropAck"
definition AutoRequestAck :: "ExchangeContext \<Rightarrow> bool" where "AutoRequestAck c = GetFlag (mFlags c) kFlagAutoRequestAck"

definition SetInitiator :: "bool \<Rightarrow> ExchangeContext \<Rightarrow> ExchangeContext" where
  "SetInitiator v c = c\<lparr>mFlags := SetFlag kFlagInitiator v (mFlags c)\<rparr>"
definition SetConnectionClosed :: "bool \<Rightarrow> ExchangeContext \<Rightarrow> ExchangeContext" where
  "SetConnectionClosed v c = c\<lparr>mFlags := SetFlag kFlagConnectionClosed v (mFlags c)\<rparr>"
definition SetResponseExpected :: "bool \<Rightarrow> ExchangeContext \<Rightarrow> ExchangeContext" where
  "SetResponseExpected v c = c\<lparr>mFlags := SetFlag kFlagResponseExpected v (mFlags c)\<rparr>"
definition SetAckPending :: "bool \<Rightarrow> ExchangeContext \<Rightarrow> ExchangeContext" where
  "SetAckPending v c = c\<lparr>mFlags := SetFlag kFlagAckPending v (mFlags c)\<rparr>"
definition SetPeerRequestedAck :: "bool \<Rightarrow> ExchangeContext \<Rightarrow> ExchangeContext" where
  "SetPeerRequestedAck v c = c\<lparr>mFlags := SetFlag kFlagPeerRequestedAck v (mFlags c)\<rparr>"
definition SetMsgRcvdFromPeer :: "bool \<Rightarrow> ExchangeContext \<Rightarrow> ExchangeContext" where
  "SetMsgRcvdFromPeer v c = c\<lparr>mFlags := SetFlag kFlagMsgRcvdFromPeer v (mFlags c)\<rparr>"
definition SetDropAck :: "bool \<Rightarrow> ExchangeContext \<Rightarrow> ExchangeContext" where
  "SetDropAck v c = c\<lparr>mFlags := SetFlag kFlagDropAck v (mFlags c)\<rparr>"
definition SetAutoRequestAck :: "bool \<Rightarrow> ExchangeContext \<Rightarrow> ExchangeContext" where
  "SetAutoRequestAck v c = c\<lparr>mFlags := SetFlag kFlagAutoRequestAck v (mFlags c)\<rparr>"

definition GetCurrentRetransmitTimeout :: "ExchangeContext \<Rightarrow> u32" where
  "GetCurrentRetransmitTimeout c =
     (if HasRcvdMsgFromPeer c then mActiveRetransTimeout (mWRMPConfig c) else mInitialRetransTimeout (mWRMPConfig c))"

text \<open>\<^verbatim>\<open>memset(ec, 0, sizeof(ExchangeContext))\<close>.\<close>

definition zero_context :: ExchangeContext where
  "zero_context = \<lparr>InUse = False, mMsgProtocolVersion = 0, Con = None, EPeerNodeId = 0, PeerAddr = Any, PeerIntf = 0,
     PeerPort = 0, EExchangeId = 0, AppState = 0, AllowDuplicateMsgs = False, EEncryptionType = 0, EKeyId = 0,
     RetransInterval = 0, ResponseTimeout = 0,
     mWRMPConfig = \<lparr>mInitialRetransTimeout = 0, mActiveRetransTimeout = 0, mAckPiggybackTimeout = 0, mMaxRetrans = 0\<rparr>,
     OnMsgRcvd = None, HasOnResponseTimeout = False, HasOnRetransmissionTimeout = False, HasOnConnectionClosed = False,
     HasOnKeyError = False, HasOnThrottleRcvd = False, HasOnDDRcvd = False, HasOnSendError = False, HasOnAckRcvd = False,
     msg = None, backoff = 0, currentBcastMsgID = 0, msgsReceived = 0, rebroadcastThreshold = 0, mRefCount = 0,
     mPendingPeerAckId = 0, mWRMPNextAckTime = 0, mWRMPThrottleTimeout = 0, mFlags = 0\<rparr>"

record RetransTableEntry =
  msgId :: u32
  exchContext :: "nat option"
  msgBuf :: "PacketBuffer option"
  msgCtxt :: nat
  nextRetransTime :: u16
  sendCount :: u8

definition zero_entry :: RetransTableEntry where
  "zero_entry = \<lparr>msgId = 0, exchContext = None, msgBuf = None, msgCtxt = 0, nextRetransTime = 0, sendCount = 0\<rparr>"

text \<open>\<open>UType\<close> is the 16-bit \<^verbatim>\<open>MessageType\<close>: a message type, or -1 for any.\<close>

record UnsolicitedMessageHandler =
  UHandler :: "Handler option"
  UAppState :: nat
  UProfileId :: u32
  UCon :: "nat option"
  UType :: int
  UAllowDuplicateMsgs :: bool

datatype Timer = WRMPTimeout | ResponseTimer nat | TimerT nat | TimerTau nat | CancelRetransmissionTimer nat

datatype EndPoint = IPv4UDP | IPv6UDP | LocalAddrUDP nat

datatype ConnectionState =
    ConReadyToConnect | ConResolving | ConConnecting | ConEstablishingSession | ConConnected | ConSendShutdown | ConClosed

record WeaveConnection =
  CState :: ConnectionState
  CPeerNodeId :: u64
  SendSourceNodeId :: bool
  SendDestNodeId :: bool
  CRefCount :: u8
  CPeerAddr :: IPAddress
  CPeerPort :: u16
  DefaultKeyId :: u16
  DefaultEncryptionType :: u8
  HooksExchangeMgr :: bool

record ExchPacketInfo = IPPacketInfo +
  SrcPort :: u16
  PInterface :: nat

datatype Event =
    UdpSend EndPoint IPAddress u16 nat "u8 list"
  | ConSend nat "u8 list"
  | SyncEvent SyncAction
  | AppMessage Handler nat WeaveMessageInfo u32 u8 "u8 list"
  | AppSendError nat WEAVE_ERROR nat
  | AppAckRcvd nat nat
  | AppThrottleRcvd nat u32
  | AppDDRcvd nat u32
  | AppKeyError nat WEAVE_ERROR
  | AppConnectionClosed nat nat WEAVE_ERROR
  | AppResponseTimeout nat
  | AppRetransmissionTimeout nat
  | BindingKeyError u16 u64 WEAVE_ERROR
  | SecOnEncryptedMsgRcvd u16 u64 u8
  | SecHandleMsgCounterSyncResp WeaveMessageInfo "u8 list"
  | SecSendMsgCounterSyncResp WeaveMessageInfo
  | SecSendSolitaryMsgCounterSyncReq WeaveMessageInfo

record 'k ExchangeMgr =
  EFabric :: "'k WeaveFabricState"
  ContextPool :: "ExchangeContext list"
  mContextsInUse :: nat
  RetransTable :: "RetransTableEntry list"
  UMHandlerPool :: "UnsolicitedMessageHandler list"
  Connections :: "nat \<Rightarrow> WeaveConnection"
  NextExchangeId :: u16
  mWRMPTimeStampBase :: u64
  mWRMPTimerInterval :: u16
  Now :: u64
  Timers :: "Timer \<Rightarrow> u32 option"
  Trace :: "Event list"

text \<open>
  The platform, what its services answer, and the end points the message layer has: \<open>mInterfaces\<close> the
  interfaces with a link-local address (0 for none), \<open>mIPv6UDPLocalAddr\<close> the interface each end point of a
  local address is bound to.
\<close>

record 'k ExchEnv =
  Plat :: "'k Platform"
  UdpResult :: "nat \<Rightarrow> WEAVE_ERROR"
  TcpResult :: "nat \<Rightarrow> WEAVE_ERROR"
  TimerResult :: "Timer \<Rightarrow> WEAVE_ERROR"
  NewBuffer :: "nat \<Rightarrow> PacketBuffer option"
  GetRandU32 :: "nat \<Rightarrow> u32"
  mDropMessage :: bool
  HasIPv4UDP :: bool
  HasIPv6UDP :: bool
  IsBoundToLocalIPv6Address :: bool
  mInterfaces :: "nat list"
  mIPv6UDPLocalAddr :: "nat option list"

definition ctx :: "'k ExchangeMgr \<Rightarrow> nat \<Rightarrow> ExchangeContext" where
  "ctx s ec = ContextPool s ! ec"

definition upd_ctx :: "nat \<Rightarrow> (ExchangeContext \<Rightarrow> ExchangeContext) \<Rightarrow> 'k ExchangeMgr \<Rightarrow> 'k ExchangeMgr" where
  "upd_ctx ec g s = s\<lparr>ContextPool := (ContextPool s)[ec := g (ContextPool s ! ec)]\<rparr>"

definition upd_entry :: "nat \<Rightarrow> (RetransTableEntry \<Rightarrow> RetransTableEntry) \<Rightarrow> 'k ExchangeMgr \<Rightarrow> 'k ExchangeMgr" where
  "upd_entry i g s = s\<lparr>RetransTable := (RetransTable s)[i := g (RetransTable s ! i)]\<rparr>"

definition emit :: "Event \<Rightarrow> 'k ExchangeMgr \<Rightarrow> 'k ExchangeMgr" where
  "emit e s = s\<lparr>Trace := Trace s @ [e]\<rparr>"

definition events :: "'k ExchangeMgr \<Rightarrow> nat" where
  "events s = length (Trace s)"

section \<open>Timers\<close>

definition StartTimer :: "'k ExchEnv \<Rightarrow> u32 \<Rightarrow> Timer \<Rightarrow> 'k ExchangeMgr \<Rightarrow> WEAVE_ERROR \<times> 'k ExchangeMgr" where
  "StartTimer env ms t s =
     (if TimerResult env t = WEAVE_NO_ERROR then (WEAVE_NO_ERROR, s\<lparr>Timers := (Timers s)(t := Some ms)\<rparr>)
      else (TimerResult env t, s\<lparr>Timers := (Timers s)(t := None)\<rparr>))"

definition CancelTimer :: "Timer \<Rightarrow> 'k ExchangeMgr \<Rightarrow> 'k ExchangeMgr" where
  "CancelTimer t s = s\<lparr>Timers := (Timers s)(t := None)\<rparr>"

section \<open>Sending\<close>

abbreviation (input) WEAVE_PORT :: u16 where "WEAVE_PORT \<equiv> 11095"
abbreviation (input) kWeaveMessageFlag_DelaySend :: u32 where "kWeaveMessageFlag_DelaySend \<equiv> 0x40"
abbreviation (input) kWeaveMessageFlag_RetainBuffer :: u32 where "kWeaveMessageFlag_RetainBuffer \<equiv> 0x80"
abbreviation (input) kWeaveMessageFlag_MulticastFromLinkLocal :: u32 where "kWeaveMessageFlag_MulticastFromLinkLocal \<equiv> 0x2000"
abbreviation (input) kWeaveMessageFlag_PeerRequestedAck :: u32 where "kWeaveMessageFlag_PeerRequestedAck \<equiv> 0x4000"

text \<open>Error numbers of the platform: EPIPE, EADDRNOTAVAIL, ENETUNREACH, EHOSTUNREACH.\<close>

definition IsPlatformErrorNonCritical :: "WEAVE_ERROR \<Rightarrow> bool" where
  "IsPlatformErrorNonCritical err \<longleftrightarrow> err \<in> {PLATFORM_ERROR 113, PLATFORM_ERROR 101, PLATFORM_ERROR 99, PLATFORM_ERROR 32}"

definition IsSendErrorNonCritical :: "WEAVE_ERROR \<Rightarrow> bool" where
  "IsSendErrorNonCritical err \<longleftrightarrow> err = INET_ERROR_NOT_IMPLEMENTED \<or> err = INET_ERROR_OUTBOUND_MESSAGE_TRUNCATED \<or>
     err = INET_ERROR_MESSAGE_TOO_LONG \<or> err = INET_ERROR_NO_MEMORY \<or> IsPlatformErrorNonCritical err"

definition IsIgnoredMulticastSendError :: "WEAVE_ERROR \<Rightarrow> bool" where
  "IsIgnoredMulticastSendError err \<longleftrightarrow> err = WEAVE_NO_ERROR \<or> err = PLATFORM_ERROR 101 \<or> err = PLATFORM_ERROR 99"

definition SendTo :: "'k ExchEnv \<Rightarrow> EndPoint \<Rightarrow> IPAddress \<Rightarrow> nat \<Rightarrow> u8 list \<Rightarrow> 'k ExchangeMgr \<Rightarrow> WEAVE_ERROR \<times> 'k ExchangeMgr" where
  "SendTo env ep destAddr intf bytes s =
     (UdpResult env (events s), emit (UdpSend ep destAddr WEAVE_PORT intf bytes) s)"

text \<open>One multicast transmission: its error replaces the one kept so far unless it is ignored.\<close>

definition SendMulticast ::
  "'k ExchEnv \<Rightarrow> EndPoint \<Rightarrow> IPAddress \<Rightarrow> nat \<Rightarrow> u8 list \<Rightarrow> WEAVE_ERROR \<times> 'k ExchangeMgr \<Rightarrow> WEAVE_ERROR \<times> 'k ExchangeMgr" where
  "SendMulticast env ep destAddr intf bytes r =
     (case SendTo env ep destAddr intf bytes (snd r) of (mcastSendErr, t) \<Rightarrow>
        (if IsIgnoredMulticastSendError mcastSendErr then fst r else mcastSendErr, t))"

fun SendOnInterfaces ::
  "'k ExchEnv \<Rightarrow> IPAddress \<Rightarrow> u8 list \<Rightarrow> nat list \<Rightarrow> WEAVE_ERROR \<times> 'k ExchangeMgr \<Rightarrow> WEAVE_ERROR \<times> 'k ExchangeMgr" where
  "SendOnInterfaces env destAddr bytes [] r = r"
| "SendOnInterfaces env destAddr bytes (i # is) r =
     SendOnInterfaces env destAddr bytes is (if i \<noteq> 0 then SendMulticast env IPv6UDP destAddr i bytes r else r)"

fun SendFromLocalAddrs ::
  "'k ExchEnv \<Rightarrow> IPAddress \<Rightarrow> nat \<Rightarrow> u8 list \<Rightarrow> nat \<Rightarrow> nat option list \<Rightarrow> WEAVE_ERROR \<times> 'k ExchangeMgr \<Rightarrow> WEAVE_ERROR \<times> 'k ExchangeMgr" where
  "SendFromLocalAddrs env destAddr sendIntfId bytes k [] r = r"
| "SendFromLocalAddrs env destAddr sendIntfId bytes k (None # eps) r =
     SendFromLocalAddrs env destAddr sendIntfId bytes (Suc k) eps r"
| "SendFromLocalAddrs env destAddr sendIntfId bytes k (Some bound # eps) r =
     (if sendIntfId = 0
      then SendFromLocalAddrs env destAddr sendIntfId bytes (Suc k) eps (SendMulticast env (LocalAddrUDP k) destAddr sendIntfId bytes r)
      else if sendIntfId = bound then SendMulticast env (LocalAddrUDP k) destAddr sendIntfId bytes r
      else SendFromLocalAddrs env destAddr sendIntfId bytes (Suc k) eps r)"

text \<open>\<^verbatim>\<open>WeaveMessageLayer::SendMessage\<close> of an encoded message; the port of the caller is not used.\<close>

definition SendEncodedMessage ::
  "'k ExchEnv \<Rightarrow> IPAddress \<Rightarrow> nat \<Rightarrow> u8 list \<Rightarrow> u16 \<Rightarrow> 'k ExchangeMgr \<Rightarrow> WEAVE_ERROR \<times> 'k ExchangeMgr" where
  "SendEncodedMessage env destAddr sendIntfId bytes msgSendFlags s =
     (if mDropMessage env then (WEAVE_NO_ERROR, s)
      else
        let isIPv4 = IsIPv4 destAddr; lIsNotIPv6Multicast = (isIPv4 \<or> \<not> IsMulticast destAddr);
            lUDP = (if isIPv4 then IPv4UDP else IPv6UDP) in
        if \<not> (if isIPv4 then HasIPv4UDP env else HasIPv6UDP env) then (WEAVE_ERROR_NO_ENDPOINT, s)
        else if lIsNotIPv6Multicast then SendTo env lUDP destAddr sendIntfId bytes s
        else if IsBoundToLocalIPv6Address env \<or> msgSendFlags AND 0x2000 \<noteq> 0
        then if sendIntfId = 0 then SendOnInterfaces env destAddr bytes (mInterfaces env) (WEAVE_NO_ERROR, s)
             else SendMulticast env lUDP destAddr sendIntfId bytes (WEAVE_NO_ERROR, s)
        else SendFromLocalAddrs env destAddr sendIntfId bytes 0 (mIPv6UDPLocalAddr env) (WEAVE_NO_ERROR, s))"

definition after_encode :: "'k WeaveFabricState \<Rightarrow> SyncAction list \<Rightarrow> 'k ExchangeMgr \<Rightarrow> 'k ExchangeMgr" where
  "after_encode f acts s = s\<lparr>EFabric := f, Trace := Trace s @ map SyncEvent acts\<rparr>"

text \<open>\<^verbatim>\<open>SendMessage\<close> and \<^verbatim>\<open>ResendMessage\<close> of the message layer, with the message as it is left behind.\<close>

definition SendMessageTo ::
  "'k ExchEnv \<Rightarrow> IPAddress \<Rightarrow> nat \<Rightarrow> WeaveMessageInfo \<Rightarrow> PacketBuffer \<Rightarrow> 'k ExchangeMgr
    \<Rightarrow> WEAVE_ERROR \<times> WeaveMessageInfo \<times> PacketBuffer \<times> 'k ExchangeMgr" where
  "SendMessageTo env aDestAddr sendIntfId msgInfo b s =
     (case SelectDestNodeIdAndAddress (EFabric s) (DestNodeId msgInfo) aDestAddr of (err, destNodeId, destAddr) \<Rightarrow>
        let m = msgInfo\<lparr>DestNodeId := destNodeId\<rparr> in
        if err \<noteq> WEAVE_NO_ERROR then (err, m, b, s)
        else case EncodeMessageTo (Plat env) destAddr m b (EFabric s) of (err, m1, b1, f, acts) \<Rightarrow>
          let s1 = after_encode f acts s in
          if err \<noteq> WEAVE_NO_ERROR then (err, m1, b1, s1)
          else if Flags m1 AND kWeaveMessageFlag_DelaySend \<noteq> 0 then (WEAVE_NO_ERROR, m1, b1, s1)
          else case SendEncodedMessage env destAddr sendIntfId (contents b1) (ucast (Flags m1)) s1 of (err, s2) \<Rightarrow> (err, m1, b1, s2))"

definition ResendMessageTo ::
  "'k ExchEnv \<Rightarrow> IPAddress \<Rightarrow> nat \<Rightarrow> WeaveMessageInfo \<Rightarrow> PacketBuffer \<Rightarrow> 'k ExchangeMgr \<Rightarrow> WEAVE_ERROR \<times> 'k ExchangeMgr" where
  "ResendMessageTo env aDestAddr interfaceId msgInfo b s =
     (case SelectDestNodeIdAndAddress (EFabric s) (DestNodeId msgInfo) aDestAddr of (err, _, destAddr) \<Rightarrow>
        if err \<noteq> WEAVE_NO_ERROR then (err, s)
        else SendEncodedMessage env destAddr interfaceId (contents b) (ucast (Flags msgInfo)) s)"

text \<open>\<^verbatim>\<open>WeaveConnection::SendMessage\<close>.\<close>

definition StateAllowsSend :: "WeaveConnection \<Rightarrow> bool" where
  "StateAllowsSend c \<longleftrightarrow> CState c = ConEstablishingSession \<or> CState c = ConConnected"

definition ConSendMessage ::
  "'k ExchEnv \<Rightarrow> nat \<Rightarrow> WeaveMessageInfo \<Rightarrow> PacketBuffer \<Rightarrow> 'k ExchangeMgr \<Rightarrow> (WEAVE_ERROR \<times> WeaveMessageInfo \<times> 'k ExchangeMgr) option" where
  "ConSendMessage env con msgInfo b s =
     (let c = Connections s con in
      if CRefCount c = 0 then None
      else if \<not> StateAllowsSend c then Some (WEAVE_ERROR_INCORRECT_STATE, msgInfo, s)
      else
        let m = msgInfo\<lparr>SourceNodeId := LocalNodeId (EFabric s)\<rparr>;
            m = (if SendSourceNodeId c then m\<lparr>Flags := Flags m OR kWeaveMessageFlag_SourceNodeId\<rparr> else m);
            m = (if Flags m AND kWeaveMessageFlag_DestNodeId = 0 \<and> DestNodeId m = kNodeIdNotSpecified
                 then m\<lparr>DestNodeId := CPeerNodeId c\<rparr> else m) in
        if DestNodeId m = kNodeIdNotSpecified then Some (WEAVE_ERROR_INVALID_DESTINATION_NODE_ID, m, s)
        else
          let m = (if SendDestNodeId c \<or> DestNodeId m \<noteq> CPeerNodeId c
                   then m\<lparr>Flags := Flags m OR kWeaveMessageFlag_DestNodeId\<rparr> else m) in
          case EncodeMessageWithLength (Plat env) m b (Some con) 0xFFFF (EFabric s) of (err, m1, b1, f, acts) \<Rightarrow>
            let s1 = after_encode f acts s in
            if err \<noteq> WEAVE_NO_ERROR
            then Some (if err = WEAVE_ERROR_MESSAGE_TOO_LONG then WEAVE_ERROR_SENDING_BLOCKED else err, m1, s1)
            else Some (TcpResult env (events s1), m1, emit (ConSend con (contents b1)) s1))"

end
