(* ===== verification/Exchange_Mgr.thy ===== *)
theory Exchange_Mgr
  imports Exchange_Types
begin

text \<open>
  The operations of the exchange manager and of exchange contexts, \<^verbatim>\<open>src/src/lib/core/WeaveExchangeMgr.cpp\<close> and
  \<^verbatim>\<open>ExchangeContext.cpp\<close>: reliable messaging with its table of unacknowledged messages, acknowledgments, flow control,
  trickle retransmission, dispatch of received messages and the life cycle of a context.

  \<^verbatim>\<open>Release\<close> closes a context with its last reference, closing flushes a pending acknowledgment, and sending that takes
  and releases a reference again.  The operations inside this circle take the \<open>Release\<close> they call as an
  argument; \<open>ReleaseN\<close> bounds how often a release is nested in another and aborts beyond.  Two levels are
  enough (\<^verbatim>\<open>Exchange_Refs\<close>), and \<open>Release\<close> has them.
\<close>

section \<open>Loops\<close>

fun for_each :: "(nat \<Rightarrow> 's \<Rightarrow> 's option) \<Rightarrow> nat list \<Rightarrow> 's \<Rightarrow> 's option" where
  "for_each body [] s = Some s"
| "for_each body (i # is) s = do { t \<leftarrow> body i s; for_each body is t }"

section \<open>Virtual ticks\<close>

definition GetTickCounterFromTimeDelta :: "u64 \<Rightarrow> u64 \<Rightarrow> 'k ExchangeMgr \<Rightarrow> u32" where
  "GetTickCounterFromTimeDelta newTime oldTime s =
     (let timeDelta = ucast (newTime - oldTime) :: u32 in timeDelta div ucast (mWRMPTimerInterval s))"

definition elapse :: "u16 \<Rightarrow> u16 \<Rightarrow> u16" where
  "elapse deltaTicks t = (if deltaTicks \<le> t then t - deltaTicks else 0)"

fun ExpireRetrans :: "u16 \<Rightarrow> RetransTableEntry list \<Rightarrow> ExchangeContext list \<Rightarrow> RetransTableEntry list \<times> ExchangeContext list" where
  "ExpireRetrans deltaTicks [] pool = ([], pool)"
| "ExpireRetrans deltaTicks (e # es) pool =
     (case exchContext e of
        None \<Rightarrow> (case ExpireRetrans deltaTicks es pool of (fs, pool1) \<Rightarrow> (e # fs, pool1))
      | Some ec \<Rightarrow>
          let pool1 = pool[ec := (pool ! ec)\<lparr>mWRMPThrottleTimeout := elapse deltaTicks (mWRMPThrottleTimeout (pool ! ec))\<rparr>];
              e1 = e\<lparr>nextRetransTime := elapse deltaTicks (nextRetransTime e)\<rparr>
          in case ExpireRetrans deltaTicks es pool1 of (fs, pool2) \<Rightarrow> (e1 # fs, pool2))"

definition ExpireAcks :: "u16 \<Rightarrow> ExchangeContext list \<Rightarrow> ExchangeContext list" where
  "ExpireAcks deltaTicks pool =
     map (\<lambda>c. if InUse c \<and> IsAckPending c then c\<lparr>mWRMPNextAckTime := elapse deltaTicks (mWRMPNextAckTime c)\<rparr> else c) pool"

definition WRMPExpireTicks :: "'k ExchangeMgr \<Rightarrow> 'k ExchangeMgr" where
  "WRMPExpireTicks s =
     (let deltaTicks = ucast (GetTickCounterFromTimeDelta (Now s) (mWRMPTimeStampBase s) s) :: u16
      in case ExpireRetrans deltaTicks (RetransTable s) (ExpireAcks deltaTicks (ContextPool s)) of (table, pool) \<Rightarrow>
        s\<lparr>ContextPool := pool, RetransTable := table,
          mWRMPTimeStampBase := mWRMPTimeStampBase s + ucast (ucast deltaTicks * ucast (mWRMPTimerInterval s) :: u32)\<rparr>)"

text \<open>The earliest tick at which there is something to do.\<close>

definition NextAckWake :: "ExchangeContext list \<Rightarrow> u32 \<times> bool \<Rightarrow> u32 \<times> bool" where
  "NextAckWake pool w = foldl (\<lambda>(wake, found) c.
     if InUse c \<and> IsAckPending c \<and> ucast (mWRMPNextAckTime c) < wake then (ucast (mWRMPNextAckTime c), True) else (wake, found)) w pool"

definition NextRetransWake :: "ExchangeContext list \<Rightarrow> RetransTableEntry list \<Rightarrow> u32 \<times> bool \<Rightarrow> u32 \<times> bool" where
  "NextRetransWake pool table w = foldl (\<lambda>(wake, found) e. case exchContext e of
       None \<Rightarrow> (wake, found)
     | Some ec \<Rightarrow>
         let throttle = mWRMPThrottleTimeout (pool ! ec);
             (wake, found) = (if throttle \<noteq> 0 \<and> ucast throttle < wake then (ucast throttle, True) else (wake, found))
         in if ucast (nextRetransTime e) < wake then (ucast (nextRetransTime e), True) else (wake, found)) w table"

definition WRMPStopTimer :: "'k ExchangeMgr \<Rightarrow> 'k ExchangeMgr" where
  "WRMPStopTimer s = CancelTimer WRMPTimeout s"

definition WRMPStartTimer :: "'k ExchEnv \<Rightarrow> 'k ExchangeMgr \<Rightarrow> 'k ExchangeMgr option" where
  "WRMPStartTimer env s =
     (let s1 = WRMPStopTimer s;
          (nextWakeTime, foundWake) = NextRetransWake (ContextPool s) (RetransTable s) (NextAckWake (ContextPool s) (0xFFFFFFFF, False))
      in if foundWake
         then
           let timerArmValue = ucast (ucast (nextWakeTime * ucast (mWRMPTimerInterval s)) - (Now s - mWRMPTimeStampBase s)) :: u32;
               (err, s2) = StartTimer env (if sint timerArmValue < 0 then 0 else timerArmValue) WRMPTimeout s1
           in if err = WEAVE_NO_ERROR then Some s2 else None
         else Some s1)"

section \<open>References to a context\<close>

definition ExchAddRef :: "nat \<Rightarrow> 'k ExchangeMgr \<Rightarrow> 'k ExchangeMgr" where
  "ExchAddRef ec = upd_ctx ec (\<lambda>c. c\<lparr>mRefCount := mRefCount c + 1\<rparr>)"

type_synonym 'k releaser = "nat \<Rightarrow> 'k ExchangeMgr \<Rightarrow> 'k ExchangeMgr option"

section \<open>The retransmission table\<close>

definition ClearEntry :: "'k releaser \<Rightarrow> 'k ExchEnv \<Rightarrow> nat \<Rightarrow> 'k ExchangeMgr \<Rightarrow> 'k ExchangeMgr option" where
  "ClearEntry rel env i s =
     (case exchContext (RetransTable s ! i) of
        None \<Rightarrow> Some s
      | Some ec \<Rightarrow> do {
          s1 \<leftarrow> rel ec (WRMPExpireTicks s);
          WRMPStartTimer env (upd_entry i (\<lambda>_. zero_entry) s1) })"

definition ClearRetransmitTable :: "'k releaser \<Rightarrow> 'k ExchEnv \<Rightarrow> nat \<Rightarrow> 'k ExchangeMgr \<Rightarrow> 'k ExchangeMgr option" where
  "ClearRetransmitTable rel env ec s =
     for_each (\<lambda>i t. if exchContext (RetransTable t ! i) = Some ec then ClearEntry rel env i t else Some t)
       [0..<length (RetransTable s)] s"

definition AddToRetransTable ::
  "'k ExchEnv \<Rightarrow> nat \<Rightarrow> PacketBuffer \<Rightarrow> u32 \<Rightarrow> nat \<Rightarrow> 'k ExchangeMgr \<Rightarrow> (WEAVE_ERROR \<times> nat \<times> 'k ExchangeMgr) option" where
  "AddToRetransTable env ec b messageId mctxt s =
     (case find (\<lambda>i. exchContext (RetransTable s ! i) = None) [0..<length (RetransTable s)] of
        None \<Rightarrow> Some (WEAVE_ERROR_RETRANS_TABLE_FULL, 0, s)
      | Some i \<Rightarrow>
          let s1 = WRMPExpireTicks s;
              ticks = GetTickCounterFromTimeDelta (ucast (GetCurrentRetransmitTimeout (ctx s1 ec)) + Now s1) (mWRMPTimeStampBase s1) s1;
              s2 = upd_entry i (\<lambda>_. \<lparr>msgId = messageId, exchContext = Some ec, msgBuf = Some b, msgCtxt = mctxt,
                     nextRetransTime = ucast ticks, sendCount = 0\<rparr>) s1
          in do { s3 \<leftarrow> WRMPStartTimer env (ExchAddRef ec s2); Some (WEAVE_NO_ERROR, i, s3) })"

definition SendFromRetransTable :: "'k releaser \<Rightarrow> 'k ExchEnv \<Rightarrow> nat \<Rightarrow> 'k ExchangeMgr \<Rightarrow> (WEAVE_ERROR \<times> 'k ExchangeMgr) option" where
  "SendFromRetransTable rel env i s =
     (case exchContext (RetransTable s ! i) of
        None \<Rightarrow> Some (WEAVE_NO_ERROR, s)
      | Some ec \<Rightarrow>
          case msgBuf (RetransTable s ! i) of
            None \<Rightarrow> None
          | Some b \<Rightarrow>
              let c = ctx s ec;
                  (err, s1) = SendEncodedMessage env (PeerAddr c) (PeerIntf c) (contents b) 0x80 s;
                  s2 = upd_entry i (\<lambda>e. e\<lparr>sendCount := sendCount e + 1\<rparr>) s1
              in if err = WEAVE_NO_ERROR \<or> IsSendErrorNonCritical err then Some (WEAVE_NO_ERROR, s2)
                 else do { s3 \<leftarrow> ClearEntry rel env i s2; Some (err, s3) })"

section \<open>Sending a message\<close>

abbreviation (input) kWeaveProfile_Common :: u32 where "kWeaveProfile_Common \<equiv> 0"
abbreviation (input) kMsgType_Null :: u8 where "kMsgType_Null \<equiv> 2"
abbreviation (input) kMsgType_WRMP_Delayed_Delivery :: u8 where "kMsgType_WRMP_Delayed_Delivery \<equiv> 3"
abbreviation (input) kMsgType_WRMP_Throttle_Flow :: u8 where "kMsgType_WRMP_Throttle_Flow \<equiv> 4"

abbreviation (input) kSendFlag_ExpectResponse :: u16 where "kSendFlag_ExpectResponse \<equiv> 0x0002"
abbreviation (input) kSendFlag_RetransmissionTrickle :: u16 where "kSendFlag_RetransmissionTrickle \<equiv> 0x0004"
abbreviation (input) kSendFlag_DelaySend :: u16 where "kSendFlag_DelaySend \<equiv> 0x0008"
abbreviation (input) kSendFlag_ReuseMessageId :: u16 where "kSendFlag_ReuseMessageId \<equiv> 0x0010"
abbreviation (input) kSendFlag_ReuseSourceId :: u16 where "kSendFlag_ReuseSourceId \<equiv> 0x0020"
abbreviation (input) kSendFlag_RetainBuffer :: u16 where "kSendFlag_RetainBuffer \<equiv> 0x0040"
abbreviation (input) kSendFlag_AlreadyEncoded :: u16 where "kSendFlag_AlreadyEncoded \<equiv> 0x0080"
abbreviation (input) kSendFlag_MulticastFromLinkLocal :: u16 where "kSendFlag_MulticastFromLinkLocal \<equiv> 0x0100"
abbreviation (input) kSendFlag_FromInitiator :: u16 where "kSendFlag_FromInitiator \<equiv> 0x0200"
abbreviation (input) kSendFlag_RequestAck :: u16 where "kSendFlag_RequestAck \<equiv> 0x0400"
abbreviation (input) kSendFlag_NoAutoRequestAck :: u16 where "kSendFlag_NoAutoRequestAck \<equiv> 0x0800"

definition IsWRMPControlMessage :: "u32 \<Rightarrow> u8 \<Rightarrow> bool" where
  "IsWRMPControlMessage profileId msgType \<longleftrightarrow> profileId = kWeaveProfile_Common \<and>
     (msgType = kMsgType_WRMP_Throttle_Flow \<or> msgType = kMsgType_WRMP_Delayed_Delivery)"

definition EncodeExchHeader ::
  "'k ExchEnv \<Rightarrow> nat \<Rightarrow> u32 \<Rightarrow> u8 \<Rightarrow> PacketBuffer \<Rightarrow> u16 \<Rightarrow> 'k ExchangeMgr \<Rightarrow> (WEAVE_ERROR \<times> PacketBuffer \<times> 'k ExchangeMgr) option" where
  "EncodeExchHeader env ec profileId msgType b sendFlags s =
     (let c = ctx s ec;
          h = \<lparr>HVersion = kWeaveExchangeVersion_V1,
               HFlags = (if IsInitiator c \<or> sendFlags AND kSendFlag_FromInitiator \<noteq> 0 then kWeaveExchangeFlag_Initiator else 0),
               HExchangeId = EExchangeId c, HProfileId = profileId, HMessageType = msgType, HAckMsgId = 0\<rparr>;
          isV2 = (mMsgProtocolVersion c = 2)
      in do {
        (h1, s1) \<leftarrow> (if isV2 \<and> HasPeerRequestedAck c
                     then do { t \<leftarrow> WRMPStartTimer env (upd_ctx ec (SetAckPending False) (WRMPExpireTicks s));
                               Some (h\<lparr>HFlags := HFlags h OR kWeaveExchangeFlag_AckId, HAckMsgId := mPendingPeerAckId c\<rparr>, t) }
                     else Some (h, s));
        let h2 = (if isV2 \<and> sendFlags AND kSendFlag_RequestAck \<noteq> 0 \<and> \<not> IsWRMPControlMessage profileId msgType
                  then h1\<lparr>HFlags := HFlags h1 OR kWeaveExchangeFlag_NeedsAck\<rparr> else h1);
        let (err, b1) = PrependHeader h2 b;
        Some (err, b1, s1) })"

text \<open>The guards of \<^verbatim>\<open>SendMessage\<close> up to the header: the send flags, the version of the message and the buffer kept for trickle.\<close>

definition RequestsAck :: "ExchangeContext \<Rightarrow> u16 \<Rightarrow> u16" where
  "RequestsAck c sendFlags =
     (if Con c = None \<and> mFlags c AND kFlagAutoRequestAck \<noteq> 0 \<and> sendFlags AND kSendFlag_NoAutoRequestAck = 0
      then sendFlags OR kSendFlag_RequestAck else sendFlags)"

definition SelectVersion :: "ExchangeContext \<Rightarrow> u32 \<Rightarrow> u8 \<Rightarrow> u16 \<Rightarrow> WEAVE_ERROR \<times> u16" where
  "SelectVersion c profileId msgType sendFlags =
     (let v = mMsgProtocolVersion c;
          wrmp = (sendFlags AND kSendFlag_RequestAck \<noteq> 0 \<or> IsWRMPControlMessage profileId msgType \<or>
                  (profileId = kWeaveProfile_Common \<and> msgType = kMsgType_Null))
      in if wrmp then if v = 0 then (WEAVE_NO_ERROR, 2) else if v = 2 then (WEAVE_NO_ERROR, 2) else (WEAVE_ERROR_WRONG_MSG_VERSION_FOR_EXCHANGE, v)
         else if v = 0 then (WEAVE_NO_ERROR, 1) else (WEAVE_NO_ERROR, v))"

definition CheckSend :: "ExchangeContext \<Rightarrow> u32 \<Rightarrow> u8 \<Rightarrow> PacketBuffer \<Rightarrow> u16 \<Rightarrow> WEAVE_ERROR \<times> u16 \<times> ExchangeContext" where
  "CheckSend c profileId msgType b sendFlags =
     (let reqAck = (sendFlags AND kSendFlag_RequestAck \<noteq> 0) in
      if reqAck \<and> Con c \<noteq> None then (WEAVE_ERROR_INVALID_ARGUMENT, sendFlags, c)
      else if mWRMPThrottleTimeout c \<noteq> 0 then (WEAVE_ERROR_SEND_THROTTLED, sendFlags, c)
      else case SelectVersion c profileId msgType sendFlags of (err, v) \<Rightarrow>
        if err \<noteq> WEAVE_NO_ERROR then (err, sendFlags, c)
        else
          let c1 = c\<lparr>mMsgProtocolVersion := v\<rparr> in
          if IsConnectionClosed c1 then (WEAVE_ERROR_NOT_CONNECTED, sendFlags, c1)
          else if sendFlags AND kSendFlag_RetransmissionTrickle \<noteq> 0
          then if reqAck \<or> Con c \<noteq> None then (WEAVE_ERROR_INVALID_ARGUMENT, sendFlags, c1)
               else if RetransInterval c = 0 then (WEAVE_NO_ERROR, sendFlags AND NOT kSendFlag_RetainBuffer, c1)
               else (WEAVE_NO_ERROR, sendFlags OR kSendFlag_RetainBuffer, c1\<lparr>msg := Some b\<rparr>)
          else (WEAVE_NO_ERROR, sendFlags, c1))"

definition MessageFlags :: "u16 \<Rightarrow> u32" where
  "MessageFlags sendFlags =
     (if sendFlags AND kSendFlag_DelaySend \<noteq> 0 then kWeaveMessageFlag_DelaySend else 0) OR
     (if sendFlags AND kSendFlag_RetainBuffer \<noteq> 0 then kWeaveMessageFlag_RetainBuffer else 0) OR
     (if sendFlags AND kSendFlag_AlreadyEncoded \<noteq> 0 then kWeaveMessageFlag_MessageEncoded else 0) OR
     (if sendFlags AND kSendFlag_ReuseMessageId \<noteq> 0 then kWeaveMessageFlag_ReuseMessageId else 0) OR
     (if sendFlags AND kSendFlag_ReuseSourceId \<noteq> 0 then kWeaveMessageFlag_ReuseSourceId else 0) OR
     (if sendFlags AND kSendFlag_MulticastFromLinkLocal \<noteq> 0 then kWeaveMessageFlag_MulticastFromLinkLocal else 0)"

text \<open>Arming the response timer if a response is expected.\<close>

definition ExpectResponse :: "'k ExchEnv \<Rightarrow> nat \<Rightarrow> u16 \<Rightarrow> 'k ExchangeMgr \<Rightarrow> WEAVE_ERROR \<times> 'k ExchangeMgr" where
  "ExpectResponse env ec sendFlags s =
     (if sendFlags AND kSendFlag_ExpectResponse \<noteq> 0
      then if IsResponseExpected (ctx s ec) then (WEAVE_ERROR_INCORRECT_STATE, s)
           else
             let s1 = upd_ctx ec (SetResponseExpected True) s in
             if 0 < ResponseTimeout (ctx s1 ec) then StartTimer env (ResponseTimeout (ctx s1 ec)) (ResponseTimer ec) s1
             else (WEAVE_NO_ERROR, s1)
      else (WEAVE_NO_ERROR, s))"

text \<open>\<^verbatim>\<open>StartTimerT\<close>; with an interval of 1 the modulus is 0.\<close>

definition StartTimerT :: "'k ExchEnv \<Rightarrow> nat \<Rightarrow> 'k ExchangeMgr \<Rightarrow> WEAVE_ERROR \<times> 'k ExchangeMgr" where
  "StartTimerT env ec s =
     (let c = ctx s ec in
      if RetransInterval c = 0 then (WEAVE_NO_ERROR, s)
      else if RetransInterval c = 1 then (UNDEFINED_BEHAVIOR, s)
      else
        let r = 1 + (GetRandU32 env (events s) mod (RetransInterval c - 1))
        in StartTimer env r (TimerTau ec) (upd_ctx ec (\<lambda>c. c\<lparr>backoff := r, msgsReceived := 0\<rparr>) s))"

text \<open>
  The reliable path: the encoded message goes into the table and is sent from there.  \<open>Some\<close> of the buffer is the
  one the caller still owns.
\<close>

definition SendReliably ::
  "'k releaser \<Rightarrow> 'k ExchEnv \<Rightarrow> nat \<Rightarrow> WeaveMessageInfo \<Rightarrow> PacketBuffer \<Rightarrow> nat \<Rightarrow> 'k ExchangeMgr
    \<Rightarrow> (WEAVE_ERROR \<times> WeaveMessageInfo \<times> PacketBuffer \<times> 'k ExchangeMgr) option" where
  "SendReliably rel env ec m b mctxt s =
     (case SelectDestNodeIdAndAddress (EFabric s) (DestNodeId m) (PeerAddr (ctx s ec)) of (err, destNodeId, addr) \<Rightarrow>
        let m1 = m\<lparr>DestNodeId := destNodeId\<rparr>; s1 = upd_ctx ec (\<lambda>c. c\<lparr>PeerAddr := addr\<rparr>) s in
        if err \<noteq> WEAVE_NO_ERROR then Some (err, m1, b, s1)
        else case EncodeMessageTo (Plat env) addr m1 b (EFabric s1) of (err, m2, b1, f, acts) \<Rightarrow>
          let s2 = after_encode f acts s1 in
          if err \<noteq> WEAVE_NO_ERROR then Some (err, m2, b1, s2)
          else do {
            (err, i, s3) \<leftarrow> AddToRetransTable env ec b1 (MessageId m2) mctxt s2;
            if err \<noteq> WEAVE_NO_ERROR then Some (err, m2, b1, s3)
            else do { (err, s4) \<leftarrow> SendFromRetransTable rel env i s3; Some (err, m2, b1, s4) } })"

text \<open>Sending over a connection, reliably or just once, and the bookkeeping for trickle; \<open>hold\<close> is whether \<^verbatim>\<open>msg\<close> is the buffer.\<close>

definition Transmit ::
  "'k releaser \<Rightarrow> 'k ExchEnv \<Rightarrow> nat \<Rightarrow> u16 \<Rightarrow> WeaveMessageInfo \<Rightarrow> PacketBuffer \<Rightarrow> nat \<Rightarrow> 'k ExchangeMgr \<Rightarrow> (WEAVE_ERROR \<times> 'k ExchangeMgr) option" where
  "Transmit rel env ec sendFlags m b mctxt s =
     (case Con (ctx s ec) of
        Some con \<Rightarrow> do {
          (err, m1, s1) \<leftarrow> ConSendMessage env con m b
             (s\<lparr>Connections := (Connections s)(con := (Connections s con)\<lparr>HooksExchangeMgr := True\<rparr>)\<rparr>);
          Some (err, s1) }
      | None \<Rightarrow> do {
          let trickle = (sendFlags AND kSendFlag_RetransmissionTrickle \<noteq> 0);
          (err, m1, b1, s1) \<leftarrow> (if sendFlags AND kSendFlag_RequestAck \<noteq> 0 then SendReliably rel env ec m b mctxt s
            else Some (SendMessageTo env (PeerAddr (ctx s ec)) (PeerIntf (ctx s ec)) m b s));
          let s2 = (if trickle \<and> RetransInterval (ctx s1 ec) \<noteq> 0 then upd_ctx ec (\<lambda>c. c\<lparr>msg := Some b1\<rparr>) s1 else s1);
          if err = WEAVE_NO_ERROR \<and> trickle
          then let s3 = upd_ctx ec (\<lambda>c. c\<lparr>currentBcastMsgID := MessageId m1\<rparr>) s2
               in Some (WEAVE_NO_ERROR, if RetransInterval (ctx s3 ec) \<noteq> 0 then snd (StartTimerT env ec s3) else s3)
          else Some (err, s2) })"

definition SendBody ::
  "'k releaser \<Rightarrow> 'k ExchEnv \<Rightarrow> nat \<Rightarrow> u32 \<Rightarrow> u8 \<Rightarrow> PacketBuffer \<Rightarrow> u16 \<Rightarrow> WeaveMessageInfo \<Rightarrow> nat \<Rightarrow> 'k ExchangeMgr
    \<Rightarrow> (WEAVE_ERROR \<times> 'k ExchangeMgr) option" where
  "SendBody rel env ec profileId msgType b sendFlags msgInfo mctxt s =
     (case CheckSend (ctx s ec) profileId msgType b (RequestsAck (ctx s ec) sendFlags) of (err, sendFlags, c1) \<Rightarrow>
        let s1 = upd_ctx ec (\<lambda>_. c1) s in
        if err \<noteq> WEAVE_NO_ERROR then Some (err, s1)
        else do {
          (err, b1, s2) \<leftarrow> EncodeExchHeader env ec profileId msgType b sendFlags s1;
          let s3 = (if sendFlags AND kSendFlag_RetransmissionTrickle \<noteq> 0 \<and> RetransInterval (ctx s2 ec) \<noteq> 0
                    then upd_ctx ec (\<lambda>c. c\<lparr>msg := Some b1\<rparr>) s2 else s2);
          if err \<noteq> WEAVE_NO_ERROR then Some (err, s3)
          else case ExpectResponse env ec sendFlags s3 of (err, s4) \<Rightarrow>
            if err \<noteq> WEAVE_NO_ERROR then Some (err, s4)
            else Transmit rel env ec sendFlags
              (msgInfo\<lparr>MessageVersion := ucast (mMsgProtocolVersion c1), Flags := Flags msgInfo OR MessageFlags sendFlags\<rparr>) b1 mctxt s4 })"

definition SendMessageWith ::
  "'k releaser \<Rightarrow> 'k ExchEnv \<Rightarrow> nat \<Rightarrow> u32 \<Rightarrow> u8 \<Rightarrow> PacketBuffer \<Rightarrow> u16 \<Rightarrow> WeaveMessageInfo \<Rightarrow> nat \<Rightarrow> 'k ExchangeMgr
    \<Rightarrow> (WEAVE_ERROR \<times> 'k ExchangeMgr) option" where
  "SendMessageWith rel env ec profileId msgType b sendFlags msgInfo mctxt s =
     (if \<not> InUse (ctx s ec) \<or> mRefCount (ctx s ec) = 0 then None
      else do {
        (err, s1) \<leftarrow> SendBody rel env ec profileId msgType b sendFlags msgInfo mctxt (ExchAddRef ec s);
        let s2 = (if err \<noteq> WEAVE_NO_ERROR \<and> IsResponseExpected (ctx s1 ec)
                  then upd_ctx ec (SetResponseExpected False) (CancelTimer (ResponseTimer ec) s1) else s1);
        s3 \<leftarrow> rel ec s2;
        Some (err, s3) })"

text \<open>The message information of the shorter \<^verbatim>\<open>SendMessage\<close>.\<close>

definition OwnMessageInfo :: "'k ExchangeMgr \<Rightarrow> nat \<Rightarrow> WeaveMessageInfo" where
  "OwnMessageInfo s ec = MsgInfo_Clear\<lparr>SourceNodeId := LocalNodeId (EFabric s), DestNodeId := EPeerNodeId (ctx s ec),
     EncryptionType := EEncryptionType (ctx s ec), MsgKeyId := EKeyId (ctx s ec)\<rparr>"

definition SendCommonNullMessage :: "'k releaser \<Rightarrow> 'k ExchEnv \<Rightarrow> nat \<Rightarrow> 'k ExchangeMgr \<Rightarrow> (WEAVE_ERROR \<times> 'k ExchangeMgr) option" where
  "SendCommonNullMessage rel env ec s =
     do {
       (err, s1) \<leftarrow> (case NewBuffer env (events s) of
            None \<Rightarrow> Some (WEAVE_ERROR_NO_MEMORY, s)
          | Some b \<Rightarrow> SendMessageWith rel env ec kWeaveProfile_Common kMsgType_Null b kSendFlag_NoAutoRequestAck (OwnMessageInfo s ec) 0 s);
       Some (if IsSendErrorNonCritical err then WEAVE_NO_ERROR else err, s1) }"

section \<open>Closing a context\<close>

definition WRMPFlushAcks :: "'k releaser \<Rightarrow> 'k ExchEnv \<Rightarrow> nat \<Rightarrow> 'k ExchangeMgr \<Rightarrow> (WEAVE_ERROR \<times> 'k ExchangeMgr) option" where
  "WRMPFlushAcks rel env ec s =
     (if IsAckPending (ctx s ec) then SendCommonNullMessage rel env ec s else Some (WEAVE_NO_ERROR, s))"

definition CancelResponseTimer :: "nat \<Rightarrow> 'k ExchangeMgr \<Rightarrow> 'k ExchangeMgr" where
  "CancelResponseTimer ec = CancelTimer (ResponseTimer ec)"

text \<open>\<^verbatim>\<open>CancelRetrans\<close>, which is \<^verbatim>\<open>TeardownTrickleRetransmit\<close>.\<close>

definition TeardownTrickleRetransmit :: "nat \<Rightarrow> 'k ExchangeMgr \<Rightarrow> 'k ExchangeMgr" where
  "TeardownTrickleRetransmit ec s =
     upd_ctx ec (\<lambda>c. c\<lparr>msg := None, backoff := 0, RetransInterval := 0\<rparr>)
       (CancelTimer (CancelRetransmissionTimer ec) (CancelTimer (TimerTau ec) (CancelTimer (TimerT ec) s)))"

definition DoClose :: "'k releaser \<Rightarrow> 'k ExchEnv \<Rightarrow> bool \<Rightarrow> nat \<Rightarrow> 'k ExchangeMgr \<Rightarrow> 'k ExchangeMgr option" where
  "DoClose rel env clearRetransTable ec s =
     do {
       let s1 = WRMPExpireTicks (upd_ctx ec (\<lambda>c. c\<lparr>OnMsgRcvd := None, HasOnResponseTimeout := False,
         HasOnRetransmissionTimeout := False, HasOnConnectionClosed := False, HasOnKeyError := False\<rparr>) s);
       let s2 = upd_ctx ec (\<lambda>c. c\<lparr>HasOnThrottleRcvd := False, HasOnDDRcvd := False, HasOnSendError := False,
         HasOnAckRcvd := False\<rparr>) s1;
       (err, s3) \<leftarrow> WRMPFlushAcks rel env ec s2;
       s4 \<leftarrow> (if clearRetransTable then ClearRetransmitTable rel env ec s3 else Some s3);
       s5 \<leftarrow> WRMPStartTimer env s4;
       Some (CancelResponseTimer ec (TeardownTrickleRetransmit ec s5)) }"

primrec ReleaseN :: "nat \<Rightarrow> 'k ExchEnv \<Rightarrow> 'k releaser" where
  "ReleaseN 0 env ec s = None"
| "ReleaseN (Suc n) env ec s =
     (if \<not> InUse (ctx s ec) \<or> mRefCount (ctx s ec) = 0 then None
      else if mRefCount (ctx s ec) = 1
      then do { s1 \<leftarrow> DoClose (ReleaseN n env) env False ec s;
                Some ((upd_ctx ec (\<lambda>c. c\<lparr>mRefCount := 0, InUse := False\<rparr>) s1)\<lparr>mContextsInUse := mContextsInUse s1 - 1\<rparr>) }
      else Some (upd_ctx ec (\<lambda>c. c\<lparr>mRefCount := mRefCount c - 1\<rparr>) s))"

definition Release :: "'k ExchEnv \<Rightarrow> 'k releaser" where
  "Release env = ReleaseN 2 env"

definition Close_ec :: "'k ExchEnv \<Rightarrow> nat \<Rightarrow> 'k ExchangeMgr \<Rightarrow> 'k ExchangeMgr option" where
  "Close_ec env ec s =
     (if \<not> InUse (ctx s ec) \<or> mRefCount (ctx s ec) = 0 then None
      else do { s1 \<leftarrow> DoClose (Release env) env False ec s; Release env ec s1 })"

definition Abort_ec :: "'k ExchEnv \<Rightarrow> nat \<Rightarrow> 'k ExchangeMgr \<Rightarrow> 'k ExchangeMgr option" where
  "Abort_ec env ec s =
     (if \<not> InUse (ctx s ec) \<or> mRefCount (ctx s ec) = 0 then None
      else do { s1 \<leftarrow> DoClose (Release env) env True ec s; Release env ec s1 })"

end
