(* ===== verification/Exchange_Dispatch.thy ===== *)
theory Exchange_Dispatch
  imports Exchange_Mgr
begin

text \<open>
  The operations of the exchange layer that the application, the message layer and the timers call: creating contexts
  and sending on them, the retransmission timer, received acknowledgments and flow control, dispatch of a
  received message, trickle retransmission, and the end of a connection or session
  (\<^verbatim>\<open>src/src/lib/core/WeaveExchangeMgr.cpp\<close>, \<^verbatim>\<open>ExchangeContext.cpp\<close>).
\<close>

section \<open>Contexts and handlers\<close>

definition ExchangeMgr_Init :: "'k WeaveFabricState \<Rightarrow> (nat \<Rightarrow> WeaveConnection) \<Rightarrow> u16 \<Rightarrow> u64 \<Rightarrow> nat \<Rightarrow> nat \<Rightarrow> nat \<Rightarrow> 'k ExchangeMgr" where
  "ExchangeMgr_Init fabric cons rand now maxContexts tableSize maxHandlers =
     \<lparr>EFabric = fabric, ContextPool = replicate maxContexts zero_context, mContextsInUse = 0,
      RetransTable = replicate tableSize zero_entry,
      UMHandlerPool = replicate maxHandlers \<lparr>UHandler = None, UAppState = 0, UProfileId = 0, UCon = None, UType = 0, UAllowDuplicateMsgs = False\<rparr>,
      Connections = cons, NextExchangeId = rand, mWRMPTimeStampBase = now, mWRMPTimerInterval = 200, Now = now,
      Timers = (\<lambda>_. None), Trace = []\<rparr>"

text \<open>\<^verbatim>\<open>Shutdown\<close> of a manager that is initialized, as far as its tables and timers go.\<close>

definition ExchangeMgr_Shutdown :: "'k ExchEnv \<Rightarrow> 'k ExchangeMgr \<Rightarrow> 'k ExchangeMgr option" where
  "ExchangeMgr_Shutdown env s = for_each (ClearEntry (Release env) env) [0..<length (RetransTable s)] (WRMPStopTimer s)"

definition AllocContext :: "'k ExchangeMgr \<Rightarrow> nat option \<times> 'k ExchangeMgr" where
  "AllocContext s =
     (case find (\<lambda>i. \<not> InUse (ctx s i)) [0..<length (ContextPool s)] of
        None \<Rightarrow> (None, s)
      | Some ec \<Rightarrow> (Some ec, (upd_ctx ec (\<lambda>_. zero_context\<lparr>InUse := True, mRefCount := 1\<rparr>) s)\<lparr>mContextsInUse := mContextsInUse s + 1\<rparr>))"

definition NewContext :: "u64 \<Rightarrow> IPAddress \<Rightarrow> u16 \<Rightarrow> nat \<Rightarrow> nat \<Rightarrow> 'k ExchangeMgr \<Rightarrow> nat option \<times> 'k ExchangeMgr" where
  "NewContext peerNodeId peerAddr peerPort sendIntfId appState s =
     (case AllocContext s of
        (None, s1) \<Rightarrow> (None, s1)
      | (Some ec, s1) \<Rightarrow> (Some ec,
          (upd_ctx ec (\<lambda>c. SetDropAck False (SetMsgRcvdFromPeer False (SetAckPending False (SetInitiator True
             (c\<lparr>EExchangeId := NextExchangeId s1, EPeerNodeId := peerNodeId, PeerAddr := peerAddr,
               PeerPort := (if peerPort \<noteq> 0 then peerPort else WEAVE_PORT), PeerIntf := sendIntfId, AppState := appState,
               mMsgProtocolVersion := 0, mWRMPNextAckTime := 0, mWRMPConfig := gDefaultWRMPConfig, mWRMPThrottleTimeout := 0,
               HasOnThrottleRcvd := False, HasOnDDRcvd := False, HasOnAckRcvd := False, HasOnSendError := False\<rparr>))))) s1)
          \<lparr>NextExchangeId := NextExchangeId s1 + 1\<rparr>))"

definition NewContextOnConnection :: "nat \<Rightarrow> nat \<Rightarrow> 'k ExchangeMgr \<Rightarrow> nat option \<times> 'k ExchangeMgr" where
  "NewContextOnConnection con appState s =
     (let c = Connections s con in
      case NewContext (CPeerNodeId c) (CPeerAddr c) (CPeerPort c) 0 appState s of
        (None, s1) \<Rightarrow> (None, s1)
      | (Some ec, s1) \<Rightarrow> (Some ec,
          upd_ctx ec (\<lambda>e. e\<lparr>Con := Some con, EKeyId := DefaultKeyId c, EEncryptionType := DefaultEncryptionType c\<rparr>) s1))"

definition FindContext :: "u64 \<Rightarrow> nat option \<Rightarrow> nat \<Rightarrow> bool \<Rightarrow> 'k ExchangeMgr \<Rightarrow> nat option" where
  "FindContext peerNodeId con appState isInitiator s =
     find (\<lambda>i. let c = ctx s i in InUse c \<and> EPeerNodeId c = peerNodeId \<and> Con c = con \<and> AppState c = appState \<and>
       IsInitiator c = isInitiator) [0..<length (ContextPool s)]"

text \<open>The loop of \<^verbatim>\<open>RegisterUMH\<close>: the entry to replace, or the first free one.\<close>

fun ScanUMH :: "u32 \<Rightarrow> int \<Rightarrow> nat option \<Rightarrow> nat \<Rightarrow> nat option \<Rightarrow> UnsolicitedMessageHandler list \<Rightarrow> nat option + nat" where
  "ScanUMH profileId msgType con i selected [] = Inl selected"
| "ScanUMH profileId msgType con i selected (u # us) =
     (if UHandler u = None then ScanUMH profileId msgType con (Suc i) (if selected = None then Some i else selected) us
      else if UProfileId u = profileId \<and> UType u = msgType \<and> UCon u = con then Inr i
      else ScanUMH profileId msgType con (Suc i) selected us)"

definition RegisterUMH :: "u32 \<Rightarrow> int \<Rightarrow> nat option \<Rightarrow> bool \<Rightarrow> Handler \<Rightarrow> nat \<Rightarrow> 'k ExchangeMgr \<Rightarrow> WEAVE_ERROR \<times> 'k ExchangeMgr" where
  "RegisterUMH profileId msgType con allowDups handler appState s =
     (case ScanUMH profileId msgType con 0 None (UMHandlerPool s) of
        Inr i \<Rightarrow> (WEAVE_NO_ERROR, s\<lparr>UMHandlerPool := (UMHandlerPool s)[i := (UMHandlerPool s ! i)\<lparr>UHandler := Some handler, UAppState := appState\<rparr>]\<rparr>)
      | Inl None \<Rightarrow> (WEAVE_ERROR_TOO_MANY_UNSOLICITED_MESSAGE_HANDLERS, s)
      | Inl (Some i) \<Rightarrow> (WEAVE_NO_ERROR, s\<lparr>UMHandlerPool := (UMHandlerPool s)[i :=
          \<lparr>UHandler = Some handler, UAppState = appState, UProfileId = profileId, UCon = con, UType = msgType, UAllowDuplicateMsgs = allowDups\<rparr>]\<rparr>))"

definition UnregisterUMH :: "u32 \<Rightarrow> int \<Rightarrow> nat option \<Rightarrow> 'k ExchangeMgr \<Rightarrow> WEAVE_ERROR \<times> 'k ExchangeMgr" where
  "UnregisterUMH profileId msgType con s =
     (case find (\<lambda>i. let u = UMHandlerPool s ! i in UHandler u \<noteq> None \<and> UProfileId u = profileId \<and> UType u = msgType \<and> UCon u = con)
        [0..<length (UMHandlerPool s)] of
        None \<Rightarrow> (WEAVE_ERROR_NO_UNSOLICITED_MESSAGE_HANDLER, s)
      | Some i \<Rightarrow> (WEAVE_NO_ERROR, s\<lparr>UMHandlerPool := (UMHandlerPool s)[i := (UMHandlerPool s ! i)\<lparr>UHandler := None\<rparr>]\<rparr>))"

section \<open>Sending\<close>

definition SendMessage ::
  "'k ExchEnv \<Rightarrow> nat \<Rightarrow> u32 \<Rightarrow> u8 \<Rightarrow> PacketBuffer \<Rightarrow> u16 \<Rightarrow> nat \<Rightarrow> 'k ExchangeMgr \<Rightarrow> (WEAVE_ERROR \<times> 'k ExchangeMgr) option" where
  "SendMessage env ec profileId msgType b sendFlags mctxt s =
     SendMessageWith (Release env) env ec profileId msgType b sendFlags (OwnMessageInfo s ec) mctxt s"

text \<open>Flow control messages to the peer; the buffer is filled from its start.\<close>

definition SendControlMessage :: "'k ExchEnv \<Rightarrow> nat \<Rightarrow> u8 \<Rightarrow> u8 list \<Rightarrow> 'k ExchangeMgr \<Rightarrow> (WEAVE_ERROR \<times> 'k ExchangeMgr) option" where
  "SendControlMessage env ec msgType bytes s =
     (case NewBuffer env (events s) of
        None \<Rightarrow> Some (WEAVE_ERROR_NO_MEMORY, s)
      | Some b \<Rightarrow> SendMessage env ec kWeaveProfile_Common msgType (SetLen (of_nat (length bytes)) (poke (Start b) bytes b))
          kSendFlag_NoAutoRequestAck 0 s)"

definition WRMPSendThrottleFlow :: "'k ExchEnv \<Rightarrow> nat \<Rightarrow> u32 \<Rightarrow> 'k ExchangeMgr \<Rightarrow> (WEAVE_ERROR \<times> 'k ExchangeMgr) option" where
  "WRMPSendThrottleFlow env ec pauseTimeMillis = SendControlMessage env ec kMsgType_WRMP_Throttle_Flow (Write32 pauseTimeMillis)"

definition WRMPSendDelayedDelivery :: "'k ExchEnv \<Rightarrow> nat \<Rightarrow> u32 \<Rightarrow> u64 \<Rightarrow> 'k ExchangeMgr \<Rightarrow> (WEAVE_ERROR \<times> 'k ExchangeMgr) option" where
  "WRMPSendDelayedDelivery env ec pauseTimeMillis delayedNodeId =
     SendControlMessage env ec kMsgType_WRMP_Delayed_Delivery (Write32 pauseTimeMillis @ Write64 delayedNodeId)"

section \<open>The retransmission timer\<close>

definition SendDueAck :: "'k ExchEnv \<Rightarrow> nat \<Rightarrow> 'k ExchangeMgr \<Rightarrow> 'k ExchangeMgr option" where
  "SendDueAck env ec s =
     (if InUse (ctx s ec) \<and> IsAckPending (ctx s ec) \<and> mWRMPNextAckTime (ctx s ec) = 0
      then do { (err, s1) \<leftarrow> SendCommonNullMessage (Release env) env ec s; Some (upd_ctx ec (SetAckPending False) s1) }
      else Some s)"

definition RetransmitDue :: "'k ExchEnv \<Rightarrow> nat \<Rightarrow> 'k ExchangeMgr \<Rightarrow> 'k ExchangeMgr option" where
  "RetransmitDue env i s =
     (case exchContext (RetransTable s ! i) of
        None \<Rightarrow> Some s
      | Some ec \<Rightarrow>
          if nextRetransTime (RetransTable s ! i) \<noteq> 0 then Some s
          else do {
            let mctxt = msgCtxt (RetransTable s ! i);
            (err, s1) \<leftarrow> (if sendCount (RetransTable s ! i) > mMaxRetrans (mWRMPConfig (ctx s ec))
              then do { t \<leftarrow> ClearEntry (Release env) env i s; Some (WEAVE_ERROR_MESSAGE_NOT_ACKNOWLEDGED, t) }
              else SendFromRetransTable (Release env) env i s);
            if err = WEAVE_NO_ERROR
            then Some (upd_entry i (\<lambda>e. e\<lparr>nextRetransTime :=
                   ucast (GetCurrentRetransmitTimeout (ctx s1 ec) div ucast (mWRMPTimerInterval s1))\<rparr>) s1)
            else Some (if HasOnSendError (ctx s1 ec) then emit (AppSendError ec err mctxt) s1 else s1) })"

definition WRMPExecuteActions :: "'k ExchEnv \<Rightarrow> 'k ExchangeMgr \<Rightarrow> 'k ExchangeMgr option" where
  "WRMPExecuteActions env s = do {
     s1 \<leftarrow> for_each (SendDueAck env) [0..<length (ContextPool s)] s;
     for_each (RetransmitDue env) [0..<length (RetransTable s1)] s1 }"

definition WRMPTimeout_handler :: "'k ExchEnv \<Rightarrow> 'k ExchangeMgr \<Rightarrow> 'k ExchangeMgr option" where
  "WRMPTimeout_handler env s = do {
     s1 \<leftarrow> WRMPExecuteActions env (WRMPExpireTicks s);
     WRMPStartTimer env s1 }"

section \<open>Acknowledgments and flow control\<close>

definition WRMPCheckAndRemRetransTable :: "'k ExchEnv \<Rightarrow> nat \<Rightarrow> u32 \<Rightarrow> 'k ExchangeMgr \<Rightarrow> (nat option \<times> 'k ExchangeMgr) option" where
  "WRMPCheckAndRemRetransTable env ec ackMsgId s =
     (case find (\<lambda>i. exchContext (RetransTable s ! i) = Some ec \<and> msgId (RetransTable s ! i) = ackMsgId) [0..<length (RetransTable s)] of
        None \<Rightarrow> Some (None, s)
      | Some i \<Rightarrow> do { s1 \<leftarrow> ClearEntry (Release env) env i s; Some (Some (msgCtxt (RetransTable s ! i)), s1) })"

definition WRMPHandleRcvdAck :: "'k ExchEnv \<Rightarrow> nat \<Rightarrow> WeaveExchangeHeader \<Rightarrow> 'k ExchangeMgr \<Rightarrow> (WEAVE_ERROR \<times> 'k ExchangeMgr) option" where
  "WRMPHandleRcvdAck env ec h s = do {
     (r, s1) \<leftarrow> WRMPCheckAndRemRetransTable env ec (HAckMsgId h) s;
     case r of
       None \<Rightarrow> Some (WEAVE_ERROR_INVALID_ACK_ID, s1)
     | Some mctxt \<Rightarrow> Some (WEAVE_NO_ERROR, if HasOnAckRcvd (ctx s1 ec) then emit (AppAckRcvd ec mctxt) s1 else s1) }"

definition WRMPHandleNeedsAck :: "'k ExchEnv \<Rightarrow> nat \<Rightarrow> WeaveMessageInfo \<Rightarrow> 'k ExchangeMgr \<Rightarrow> (WEAVE_ERROR \<times> 'k ExchangeMgr) option" where
  "WRMPHandleNeedsAck env ec m s = do {
     let s = WRMPExpireTicks s;
     let c = ctx s ec;
     (err, s1) \<leftarrow>
       (if Flags m AND kWeaveMessageFlag_DuplicateMessage \<noteq> 0
        then do {
          let wasAckPending = (IsAckPending c \<and> mPendingPeerAckId c \<noteq> MessageId m);
          (err, t) \<leftarrow> SendCommonNullMessage (Release env) env ec (upd_ctx ec (\<lambda>c. c\<lparr>mPendingPeerAckId := MessageId m\<rparr>) s);
          Some (err, if wasAckPending then upd_ctx ec (\<lambda>e. SetAckPending True (e\<lparr>mPendingPeerAckId := mPendingPeerAckId c\<rparr>)) t else t) }
        else do {
          (err, t) \<leftarrow> (if IsAckPending c then SendCommonNullMessage (Release env) env ec s else Some (WEAVE_NO_ERROR, s));
          if err \<noteq> WEAVE_NO_ERROR then Some (err, t)
          else
            let ticks = GetTickCounterFromTimeDelta (ucast (mAckPiggybackTimeout (mWRMPConfig (ctx t ec))) + Now t) (mWRMPTimeStampBase t) t
            in Some (WEAVE_NO_ERROR, upd_ctx ec (\<lambda>e. SetAckPending True
                 (e\<lparr>mPendingPeerAckId := MessageId m, mWRMPNextAckTime := ucast ticks\<rparr>)) t) });
     s2 \<leftarrow> WRMPStartTimer env s1;
     Some (err, s2) }"

definition HandleThrottleFlow :: "'k ExchEnv \<Rightarrow> nat \<Rightarrow> u32 \<Rightarrow> 'k ExchangeMgr \<Rightarrow> 'k ExchangeMgr option" where
  "HandleThrottleFlow env ec pauseTimeMillis s =
     (let s1 = WRMPExpireTicks s;
          throttle = (if pauseTimeMillis \<noteq> 0 then ucast (GetTickCounterFromTimeDelta (Now s1 + ucast pauseTimeMillis) (mWRMPTimeStampBase s1) s1) else 0);
          s2 = upd_ctx ec (\<lambda>c. c\<lparr>mWRMPThrottleTimeout := throttle\<rparr>) s1;
          s3 = (case find (\<lambda>i. exchContext (RetransTable s2 ! i) = Some ec) [0..<length (RetransTable s2)] of
                  None \<Rightarrow> s2
                | Some i \<Rightarrow> upd_entry i (\<lambda>e. e\<lparr>nextRetransTime :=
                    (if pauseTimeMillis \<noteq> 0 then nextRetransTime e + ucast (pauseTimeMillis div ucast (mWRMPTimerInterval s2)) else 0)\<rparr>) s2);
          s4 = (if HasOnThrottleRcvd (ctx s3 ec) then emit (AppThrottleRcvd ec pauseTimeMillis) s3 else s3)
      in WRMPStartTimer env s4)"

definition WRMPProcessDDMessage :: "'k ExchEnv \<Rightarrow> u32 \<Rightarrow> u64 \<Rightarrow> 'k ExchangeMgr \<Rightarrow> 'k ExchangeMgr option" where
  "WRMPProcessDDMessage env pauseTimeMillis delayedNodeId s = do {
     let s1 = WRMPExpireTicks s;
     s2 \<leftarrow> for_each (\<lambda>i t. case exchContext (RetransTable t ! i) of
         None \<Rightarrow> Some t
       | Some ec \<Rightarrow>
           if delayedNodeId = EPeerNodeId (ctx t ec)
           then let t1 = upd_entry i (\<lambda>e. e\<lparr>nextRetransTime := nextRetransTime e + ucast (pauseTimeMillis div ucast (mWRMPTimerInterval t))\<rparr>) t
                in Some (if HasOnDDRcvd (ctx t1 ec) then emit (AppDDRcvd ec pauseTimeMillis) t1 else t1)
           else Some t) [0..<length (RetransTable s1)] s1;
     WRMPStartTimer env s2 }"

text \<open>The bytes of a message from its start to the end of its block: the code reads fields without checking the length.\<close>

definition raw_bytes :: "PacketBuffer \<Rightarrow> u8 list" where
  "raw_bytes b = drop (Start b) (block b)"

section \<open>Receiving\<close>

definition MatchExchange :: "u64 \<Rightarrow> nat option \<Rightarrow> WeaveMessageInfo \<Rightarrow> WeaveExchangeHeader \<Rightarrow> ExchangeContext \<Rightarrow> bool" where
  "MatchExchange localNodeId msgCon m h c \<longleftrightarrow>
     EExchangeId c = HExchangeId h \<and> Con c = msgCon \<and>
     ((EPeerNodeId c = kAnyNodeId \<and> DestNodeId m = localNodeId) \<or> EPeerNodeId c = SourceNodeId m) \<and>
     ((HFlags h AND kWeaveExchangeFlag_Initiator \<noteq> 0) \<noteq> IsInitiator c)"

definition HandleMessageBody ::
  "'k ExchEnv \<Rightarrow> nat \<Rightarrow> WeaveMessageInfo \<Rightarrow> WeaveExchangeHeader \<Rightarrow> PacketBuffer \<Rightarrow> Handler option \<Rightarrow> 'k ExchangeMgr
    \<Rightarrow> (WEAVE_ERROR \<times> 'k ExchangeMgr) option" where
  "HandleMessageBody env ec m h b umhandler s = do {
     (err, s1) \<leftarrow> (if MessageVersion m = kWeaveMessageVersion_V2 \<and> HFlags h AND kWeaveExchangeFlag_AckId \<noteq> 0
                  then WRMPHandleRcvdAck env ec h s else Some (WEAVE_NO_ERROR, s));
     let needsAck = (MessageVersion m = kWeaveMessageVersion_V2 \<and> HFlags h AND kWeaveExchangeFlag_NeedsAck \<noteq> 0);
     let m1 = (if needsAck then m\<lparr>Flags := Flags m OR kWeaveMessageFlag_PeerRequestedAck\<rparr> else m);
     let s2 = (if needsAck then upd_ctx ec (SetPeerRequestedAck True) s1 else s1);
     (err, s3) \<leftarrow> (if needsAck \<and> \<not> ShouldDropAck (ctx s2 ec) then WRMPHandleNeedsAck env ec m1 s2 else Some (err, s2));
     if Flags m1 AND kWeaveMessageFlag_DuplicateMessage \<noteq> 0 \<and> \<not> AllowDuplicateMsgs (ctx s3 ec) then Some (WEAVE_NO_ERROR, s3)
     else if HProfileId h = kWeaveProfile_Common \<and> HMessageType h = kMsgType_WRMP_Throttle_Flow
     then if length (raw_bytes b) < 4 then None
          else do { s4 \<leftarrow> HandleThrottleFlow env ec (fst (Read32 (raw_bytes b))) s3; Some (WEAVE_NO_ERROR, s4) }
     else if HProfileId h = kWeaveProfile_Common \<and> HMessageType h = kMsgType_Null then Some (WEAVE_NO_ERROR, s3)
     else
       let s4 = upd_ctx ec (SetResponseExpected False) (CancelResponseTimer ec s3) in
       case (if umhandler \<noteq> None then umhandler else OnMsgRcvd (ctx s4 ec)) of
         Some handler \<Rightarrow> Some (err, emit (AppMessage handler ec m1 (HProfileId h) (HMessageType h) (contents b)) s4)
       | None \<Rightarrow> Some (err, s4) }"

definition HandleMessage ::
  "'k ExchEnv \<Rightarrow> nat \<Rightarrow> WeaveMessageInfo \<Rightarrow> WeaveExchangeHeader \<Rightarrow> PacketBuffer \<Rightarrow> Handler option \<Rightarrow> 'k ExchangeMgr
    \<Rightarrow> (WEAVE_ERROR \<times> 'k ExchangeMgr) option" where
  "HandleMessage env ec m h b umhandler s = do {
     (err, s1) \<leftarrow> HandleMessageBody env ec m h b umhandler (ExchAddRef ec s);
     s2 \<leftarrow> Release env ec s1;
     Some (err, s2) }"

fun FindUMH :: "nat option \<Rightarrow> bool \<Rightarrow> WeaveExchangeHeader \<Rightarrow> UnsolicitedMessageHandler option \<Rightarrow> UnsolicitedMessageHandler list \<Rightarrow> UnsolicitedMessageHandler option" where
  "FindUMH msgCon dup h matching [] = matching"
| "FindUMH msgCon dup h matching (u # us) =
     (if UHandler u \<noteq> None \<and> UProfileId u = HProfileId h \<and> (UCon u = None \<or> UCon u = msgCon) \<and> (\<not> dup \<or> UAllowDuplicateMsgs u)
      then if UType u = uint (HMessageType h) then Some u
           else FindUMH msgCon dup h (if UType u = -1 then Some u else matching) us
      else FindUMH msgCon dup h matching us)"

text \<open>A context for a message that belongs to no exchange: for its handler, or only to acknowledge it.\<close>

definition InitContext ::
  "nat option \<Rightarrow> ExchPacketInfo option \<Rightarrow> WeaveMessageInfo \<Rightarrow> WeaveExchangeHeader \<Rightarrow> UnsolicitedMessageHandler option \<Rightarrow> bool \<Rightarrow> ExchangeContext \<Rightarrow> ExchangeContext" where
  "InitContext msgCon pkt m h umh ackOnly c =
     (let c1 = c\<lparr>Con := msgCon, EExchangeId := HExchangeId h, EPeerNodeId := SourceNodeId m\<rparr>;
          c2 = (case pkt of None \<Rightarrow> c1 | Some p \<Rightarrow> c1\<lparr>PeerAddr := SrcAddress p, PeerPort := SrcPort p, PeerIntf := PInterface p\<rparr>);
          c3 = SetDropAck False (SetMsgRcvdFromPeer True (SetAckPending False
                 (c2\<lparr>EEncryptionType := EncryptionType m, EKeyId := MsgKeyId m, mWRMPNextAckTime := 0, mWRMPConfig := gDefaultWRMPConfig,
                    mWRMPThrottleTimeout := 0, mMsgProtocolVersion := ucast (MessageVersion m)\<rparr>)))
      in if ackOnly then SetInitiator (HFlags h AND kWeaveExchangeFlag_Initiator = 0) c3
         else case umh of
             None \<Rightarrow> c3
           | Some u \<Rightarrow> (SetInitiator False c3)\<lparr>AppState := UAppState u, OnMsgRcvd := Some DefaultOnMessageReceived,
               AllowDuplicateMsgs := UAllowDuplicateMsgs u\<rparr>)"

definition HandleUnsolicited ::
  "'k ExchEnv \<Rightarrow> nat option \<Rightarrow> ExchPacketInfo option \<Rightarrow> WeaveMessageInfo \<Rightarrow> WeaveExchangeHeader \<Rightarrow> PacketBuffer \<Rightarrow> 'k ExchangeMgr
    \<Rightarrow> (WEAVE_ERROR \<times> 'k ExchangeMgr) option" where
  "HandleUnsolicited env msgCon pkt m h b s =
     (let dupMsg = (Flags m AND kWeaveMessageFlag_DuplicateMessage \<noteq> 0);
          msgNeedsAck = (HFlags h AND kWeaveExchangeFlag_NeedsAck \<noteq> 0);
          initiator = (HFlags h AND kWeaveExchangeFlag_Initiator \<noteq> 0);
          umh = (if initiator then FindUMH msgCon dupMsg h None (UMHandlerPool s) else None);
          notSynced = (Flags m AND kWeaveMessageFlag_PeerGroupMsgIdNotSynchronized \<noteq> 0);
          ackOnly = (msgNeedsAck \<and> (umh = None \<or> (dupMsg \<and> \<not> UAllowDuplicateMsgs (the umh))) \<and> \<not> notSynced)
      in if \<not> initiator \<and> \<not> msgNeedsAck then Some (WEAVE_ERROR_UNSOLICITED_MSG_NO_ORIGINATOR, s)
         else if umh \<noteq> None \<or> ackOnly
         then case AllocContext s of
             (None, s1) \<Rightarrow> Some (WEAVE_ERROR_NO_MEMORY, s1)
           | (Some ec, s1) \<Rightarrow> do {
               (_, s2) \<leftarrow> HandleMessage env ec m h b (if ackOnly then None else UHandler (the umh))
                 (upd_ctx ec (InitContext msgCon pkt m h umh ackOnly) s1);
               s3 \<leftarrow> (if ackOnly then Close_ec env ec s2 else Some s2);
               Some (WEAVE_NO_ERROR, s3) }
         else Some (WEAVE_NO_ERROR, s))"

definition RetransPendingAppGroupMsgs :: "'k ExchEnv \<Rightarrow> u64 \<Rightarrow> 'k ExchangeMgr \<Rightarrow> 'k ExchangeMgr option" where
  "RetransPendingAppGroupMsgs env peerNodeId s =
     for_each (\<lambda>i t. case exchContext (RetransTable t ! i) of
         None \<Rightarrow> Some t
       | Some ec \<Rightarrow>
           if EPeerNodeId (ctx t ec) = peerNodeId \<and> IsAppGroupKey (ucast (EKeyId (ctx t ec)))
           then do { (err, t1) \<leftarrow> SendFromRetransTable (Release env) env i (upd_entry i (\<lambda>e. e\<lparr>sendCount := sendCount e - 1\<rparr>) t); Some t1 }
           else Some t) [0..<length (RetransTable s)] s"

text \<open>The calls of the security manager before a message is matched; \<open>True\<close> if the message was a synchronization response.\<close>

definition DispatchCounterSync ::
  "'k ExchEnv \<Rightarrow> WeaveMessageInfo \<Rightarrow> WeaveExchangeHeader \<Rightarrow> PacketBuffer \<Rightarrow> 'k ExchangeMgr \<Rightarrow> (bool \<times> 'k ExchangeMgr) option" where
  "DispatchCounterSync env m h b s = do {
     let s1 = (if EncryptionType m \<noteq> kWeaveEncryptionType_None
               then emit (SecOnEncryptedMsgRcvd (MsgKeyId m) (SourceNodeId m) (EncryptionType m)) s else s);
     let isMsgCounterSyncResp = (HProfileId h = 4 \<and> HMessageType h = 102);
     let s2 = (if isMsgCounterSyncResp then emit (SecHandleMsgCounterSyncResp m (contents b)) s1 else s1);
     s3 \<leftarrow> (if Flags m AND kWeaveMessageFlag_MsgCounterSyncReq \<noteq> 0
            then RetransPendingAppGroupMsgs env (SourceNodeId m) (emit (SecSendMsgCounterSyncResp m) s2)
            else if \<not> isMsgCounterSyncResp \<and> Flags m AND kWeaveMessageFlag_PeerGroupMsgIdNotSynchronized \<noteq> 0
            then Some (emit (SecSendSolitaryMsgCounterSyncReq m) s2)
            else Some s2);
     Some (isMsgCounterSyncResp, s3) }"

definition DispatchMessage ::
  "'k ExchEnv \<Rightarrow> nat option \<Rightarrow> ExchPacketInfo option \<Rightarrow> WeaveMessageInfo \<Rightarrow> PacketBuffer \<Rightarrow> 'k ExchangeMgr
    \<Rightarrow> (WEAVE_ERROR \<times> 'k ExchangeMgr) option" where
  "DispatchMessage env msgCon pkt m buf s =
     (case DecodeExchHeader \<lparr>HVersion = 0, HFlags = 0, HExchangeId = 0, HProfileId = 0, HMessageType = 0, HAckMsgId = 0\<rparr> buf of (err, h, b) \<Rightarrow>
        if err \<noteq> WEAVE_NO_ERROR then Some (err, s)
        else if MessageVersion m \<noteq> kWeaveMessageVersion_V1 \<and> MessageVersion m \<noteq> kWeaveMessageVersion_V2
        then Some (WEAVE_ERROR_UNSUPPORTED_MESSAGE_VERSION, s)
        else do {
          (isResp, s1) \<leftarrow> DispatchCounterSync env m h b s;
          if isResp then Some (WEAVE_NO_ERROR, s1)
          else if HProfileId h = kWeaveProfile_Common \<and> HMessageType h = kMsgType_WRMP_Delayed_Delivery
          then if Flags m AND kWeaveMessageFlag_DuplicateMessage \<noteq> 0 then Some (WEAVE_NO_ERROR, s1)
               else if length (raw_bytes b) < 12 then None
               else do {
                 s2 \<leftarrow> WRMPProcessDDMessage env (fst (Read32 (raw_bytes b))) (fst (Read64 (drop 4 (raw_bytes b)))) s1;
                 Some (WEAVE_NO_ERROR, s2) }
          else case find (\<lambda>i. InUse (ctx s1 i) \<and> MatchExchange (LocalNodeId (EFabric s1)) msgCon m h (ctx s1 i)) [0..<length (ContextPool s1)] of
              Some ec \<Rightarrow> do {
                (_, s2) \<leftarrow> HandleMessage env ec m h b None (upd_ctx ec (SetMsgRcvdFromPeer True) s1);
                Some (WEAVE_NO_ERROR, s2) }
            | None \<Rightarrow> HandleUnsolicited env msgCon pkt m h b s1 })"

section \<open>The end of a connection or session\<close>

definition ExchHandleConnectionClosed :: "nat \<Rightarrow> WEAVE_ERROR \<Rightarrow> 'k ExchangeMgr \<Rightarrow> 'k ExchangeMgr option" where
  "ExchHandleConnectionClosed con conErr s = do {
     s1 \<leftarrow> for_each (\<lambda>ec t.
        if InUse (ctx t ec) \<and> Con (ctx t ec) = Some con
        then let t1 = upd_ctx ec (\<lambda>c. (SetConnectionClosed True c)\<lparr>Con := None\<rparr>) t
             in Some (if HasOnConnectionClosed (ctx t1 ec) then emit (AppConnectionClosed ec con conErr) t1 else t1)
        else Some t) [0..<length (ContextPool s)] s;
     Some (s1\<lparr>UMHandlerPool := map (\<lambda>u. if UHandler u \<noteq> None \<and> UCon u = Some con then u\<lparr>UHandler := None\<rparr> else u) (UMHandlerPool s1)\<rparr>) }"

definition FailRetransmitTableEntries :: "'k ExchEnv \<Rightarrow> nat \<Rightarrow> WEAVE_ERROR \<Rightarrow> 'k ExchangeMgr \<Rightarrow> 'k ExchangeMgr option" where
  "FailRetransmitTableEntries env ec err s =
     for_each (\<lambda>i t.
        if exchContext (RetransTable t ! i) = Some ec
        then do { t1 \<leftarrow> ClearEntry (Release env) env i t;
                  Some (if HasOnSendError (ctx t1 ec) then emit (AppSendError ec err (msgCtxt (RetransTable t ! i))) t1 else t1) }
        else Some t) [0..<length (RetransTable s)] s"

definition NotifySecureSessionFailed :: "'k ExchEnv \<Rightarrow> u64 \<Rightarrow> u16 \<Rightarrow> WEAVE_ERROR \<Rightarrow> bool \<Rightarrow> 'k ExchangeMgr \<Rightarrow> 'k ExchangeMgr option" where
  "NotifySecureSessionFailed env peerNodeId keyId localErr isKeyErr s = do {
     s1 \<leftarrow> for_each (\<lambda>ec t.
        if InUse (ctx t ec) \<and> EKeyId (ctx t ec) = keyId \<and> EPeerNodeId (ctx t ec) = peerNodeId
        then do { t1 \<leftarrow> FailRetransmitTableEntries env ec localErr (ExchAddRef ec t);
                  Release env ec (if isKeyErr \<and> HasOnKeyError (ctx t1 ec) then emit (AppKeyError ec localErr) t1 else t1) }
        else Some t) [0..<length (ContextPool s)] s;
     Some (emit (BindingKeyError keyId peerNodeId localErr) s1) }"

definition ClearMsgCounterSyncReq_entries :: "u64 \<Rightarrow> 'k ExchangeMgr \<Rightarrow> 'k ExchangeMgr" where
  "ClearMsgCounterSyncReq_entries peerNodeId s =
     s\<lparr>RetransTable := map (\<lambda>e. case (exchContext e, msgBuf e) of
         (Some ec, Some b) \<Rightarrow>
           if EPeerNodeId (ctx s ec) = peerNodeId \<and> IsAppGroupKey (ucast (EKeyId (ctx s ec)))
           then e\<lparr>msgBuf := Some (poke (Start b) (Write16 (fst (Read16 (raw_bytes b)) AND NOT 0x800)) b)\<rparr> else e
       | _ \<Rightarrow> e) (RetransTable s)\<rparr>"

section \<open>Trickle retransmission\<close>

definition SetupTrickleRetransmit :: "'k ExchEnv \<Rightarrow> nat \<Rightarrow> u32 \<Rightarrow> u8 \<Rightarrow> u32 \<Rightarrow> 'k ExchangeMgr \<Rightarrow> WEAVE_ERROR \<times> 'k ExchangeMgr" where
  "SetupTrickleRetransmit env ec interval threshold timeout s =
     (let s1 = upd_ctx ec (\<lambda>c. c\<lparr>RetransInterval := interval, rebroadcastThreshold := threshold\<rparr>) (TeardownTrickleRetransmit ec s) in
      if timeout \<noteq> 0 then StartTimer env timeout (CancelRetransmissionTimer ec) s1 else (WEAVE_NO_ERROR, s1))"

definition ResendMessage_ec :: "'k ExchEnv \<Rightarrow> nat \<Rightarrow> 'k ExchangeMgr \<Rightarrow> WEAVE_ERROR \<times> 'k ExchangeMgr" where
  "ResendMessage_ec env ec s =
     (let c = ctx s ec in
      case msg c of
        None \<Rightarrow> (WEAVE_ERROR_INCORRECT_STATE, s)
      | Some b \<Rightarrow>
          case DecodeHeader (LocalNodeId (EFabric s)) (contents b)
            ((OwnMessageInfo s ec)\<lparr>MessageVersion := ucast (mMsgProtocolVersion c)\<rparr>) of (err, m, _) \<Rightarrow>
          if err \<noteq> WEAVE_NO_ERROR then (WEAVE_ERROR_INCORRECT_STATE, s)
          else ResendMessageTo env (PeerAddr c) (PeerIntf c) (m\<lparr>Flags := Flags m OR kWeaveMessageFlag_RetainBuffer OR
            kWeaveMessageFlag_MessageEncoded OR kWeaveMessageFlag_ReuseMessageId OR kWeaveMessageFlag_ReuseSourceId\<rparr>) b s)"

definition TimerT_handler :: "'k ExchEnv \<Rightarrow> nat \<Rightarrow> 'k ExchangeMgr \<Rightarrow> 'k ExchangeMgr" where
  "TimerT_handler env ec s = snd (StartTimerT env ec s)"

definition TimerTau_handler :: "'k ExchEnv \<Rightarrow> nat \<Rightarrow> 'k ExchangeMgr \<Rightarrow> 'k ExchangeMgr" where
  "TimerTau_handler env ec s =
     (let s1 = (if msgsReceived (ctx s ec) < rebroadcastThreshold (ctx s ec) then snd (ResendMessage_ec env ec s) else s);
          c = ctx s1 ec
      in if RetransInterval c = 0 \<or> RetransInterval c \<le> backoff c then s1
         else snd (StartTimer env (RetransInterval c - backoff c) (TimerT ec) s1))"

definition CancelRetransmissionTimer_handler :: "nat \<Rightarrow> 'k ExchangeMgr \<Rightarrow> 'k ExchangeMgr" where
  "CancelRetransmissionTimer_handler ec s =
     (let s1 = TeardownTrickleRetransmit ec s
      in if HasOnRetransmissionTimeout (ctx s1 ec) then emit (AppRetransmissionTimeout ec) s1 else s1)"

definition HandleTrickleMessage :: "nat \<Rightarrow> WeaveMessageInfo \<Rightarrow> 'k ExchangeMgr \<Rightarrow> 'k ExchangeMgr" where
  "HandleTrickleMessage ec m s =
     (let c = ctx s ec in
      if currentBcastMsgID c = MessageId m \<and> (EPeerNodeId c = kAnyNodeId \<or> EPeerNodeId c = SourceNodeId m)
      then upd_ctx ec (\<lambda>c. c\<lparr>msgsReceived := msgsReceived c + 1\<rparr>) s else s)"

definition HandleResponseTimeout :: "nat \<Rightarrow> 'k ExchangeMgr \<Rightarrow> 'k ExchangeMgr" where
  "HandleResponseTimeout ec s = (if HasOnResponseTimeout (ctx s ec) then emit (AppResponseTimeout ec) s else s)"

end
