(* ===== verification/Exchange_Quiet.thy ===== *)
theory Exchange_Quiet
  imports Exchange_Dispatch
begin

text \<open>
  Rules for the total correctness of operations that may abort, and the steps of sending a message that needs no
  acknowledgment.  Such a message goes out without touching reference counts, retransmission table or
  configuration; what part of the state is to be left alone is the parameter of the locale \<open>quiet_view\<close>.
\<close>

section \<open>Total correctness of partial operations\<close>

definition gives :: "'a option \<Rightarrow> ('a \<Rightarrow> bool) \<Rightarrow> bool" where
  "gives m Q \<longleftrightarrow> (\<exists>x. m = Some x \<and> Q x)"

lemma gives_Some [simp]: "gives (Some x) Q \<longleftrightarrow> Q x"
  by (simp add: gives_def)

lemma gives_bind: "\<lbrakk>gives m P; \<And>x. P x \<Longrightarrow> gives (f x) Q\<rbrakk> \<Longrightarrow> gives (m \<bind> f) Q"
  by (auto simp: gives_def)

lemma gives_mono: "\<lbrakk>gives m P; \<And>x. P x \<Longrightarrow> Q x\<rbrakk> \<Longrightarrow> gives m Q"
  by (auto simp: gives_def)

lemma gives_conj: "\<lbrakk>gives m P; gives m Q\<rbrakk> \<Longrightarrow> gives m (\<lambda>x. P x \<and> Q x)"
  by (auto simp: gives_def)

lemma gives_if: "\<lbrakk>b \<Longrightarrow> gives m Q; \<not> b \<Longrightarrow> gives n Q\<rbrakk> \<Longrightarrow> gives (if b then m else n) Q"
  by simp

lemma gives_map_option: "gives (map_option f m) Q \<longleftrightarrow> gives m (\<lambda>x. Q (f x))"
  by (auto simp: gives_def)

lemma gives_for_each:
  "\<lbrakk>P s; \<And>i t. \<lbrakk>i \<in> set is; P t\<rbrakk> \<Longrightarrow> gives (body i t) P\<rbrakk> \<Longrightarrow> gives (for_each body is s) P"
  by (induction "is" arbitrary: s) (auto intro!: gives_bind)

lemma gives_for_upt:
  assumes "P j s" "j \<le> n" "\<And>k t. \<lbrakk>P k t; k < n\<rbrakk> \<Longrightarrow> gives (body k t) (P (Suc k))"
  shows "gives (for_each body [j..<n] s) (P n)"
  using assms(1,2)
proof (induction "n - j" arbitrary: j s)
  case (Suc m)
  then have "[j..<n] = j # [Suc j..<n]" by (simp add: upt_conv_Cons)
  moreover have "gives (body j s) (P (Suc j))" using assms(3) Suc.prems Suc.hyps(2) by auto
  ultimately show ?case using Suc.hyps by (auto simp only: for_each.simps intro!: gives_bind)
qed auto

section \<open>Quiet steps\<close>

lemmas flag_setters = SetInitiator_def SetConnectionClosed_def SetResponseExpected_def SetAckPending_def
  SetPeerRequestedAck_def SetMsgRcvdFromPeer_def SetDropAck_def SetAutoRequestAck_def

lemma ctx_upd_ctx: "ec < length (ContextPool s) \<Longrightarrow> ctx (upd_ctx ec g s) x = (if x = ec then g (ctx s ec) else ctx s x)"
  by (simp add: ctx_def upd_ctx_def)

lemma upd_ctx_frame [simp]:
  "RetransTable (upd_ctx ec g s) = RetransTable s" "length (ContextPool (upd_ctx ec g s)) = length (ContextPool s)"
  "Connections (upd_ctx ec g s) = Connections s" "mContextsInUse (upd_ctx ec g s) = mContextsInUse s"
  "EFabric (upd_ctx ec g s) = EFabric s" "Trace (upd_ctx ec g s) = Trace s" "Now (upd_ctx ec g s) = Now s"
  "mWRMPTimeStampBase (upd_ctx ec g s) = mWRMPTimeStampBase s" "mWRMPTimerInterval (upd_ctx ec g s) = mWRMPTimerInterval s"
  by (simp_all add: upd_ctx_def)

lemma upd_entry_frame [simp]:
  "ContextPool (upd_entry i g s) = ContextPool s" "length (RetransTable (upd_entry i g s)) = length (RetransTable s)"
  "Connections (upd_entry i g s) = Connections s" "mContextsInUse (upd_entry i g s) = mContextsInUse s"
  "ctx (upd_entry i g s) x = ctx s x" "EFabric (upd_entry i g s) = EFabric s" "Now (upd_entry i g s) = Now s"
  "mWRMPTimeStampBase (upd_entry i g s) = mWRMPTimeStampBase s" "mWRMPTimerInterval (upd_entry i g s) = mWRMPTimerInterval s"
  by (simp_all add: upd_entry_def ctx_def)

definition core :: "ExchangeContext \<Rightarrow> bool \<times> u8 \<times> nat option \<times> WRMPConfig" where
  "core c = (InUse c, mRefCount c, Con c, mWRMPConfig c)"

definition con_alive :: "'k ExchangeMgr \<Rightarrow> nat \<Rightarrow> bool" where
  "con_alive s ec \<longleftrightarrow> ec < length (ContextPool s) \<and> (\<forall>con. Con (ctx s ec) = Some con \<longrightarrow> CRefCount (Connections s con) \<noteq> 0)"

lemma CheckSend_core: "CheckSend c p ty b fl = (err, fl', c1) \<Longrightarrow> core c1 = core c"
  by (auto simp: core_def CheckSend_def Let_def split: prod.splits if_splits)

lemma CheckSend_RequestAck:
  assumes "CheckSend c p ty b fl = (err, fl', c1)"
  shows "fl' AND 0x400 = fl AND 0x400"
proof -
  have "(fl OR 0x40) AND 0x400 = fl AND 0x400" by (simp add: bit.conj_disj_distrib2)
  moreover have "(fl AND NOT 0x40) AND 0x400 = fl AND 0x400" by (simp add: and.assoc)
  ultimately show ?thesis using assms by (auto simp: CheckSend_def Let_def split: prod.splits if_splits)
qed

text \<open>
  A view \<open>\<pi>\<close> of the state that output, timers and changes of a context other than to its \<open>core\<close> do not
  show in, nor ticks that are due when \<open>J\<close> holds of it.
\<close>

locale quiet_view =
  fixes \<pi> :: "'k ExchangeMgr \<Rightarrow> 'v"
    and J :: "'v \<Rightarrow> bool"
  assumes emit: "\<pi> (emit e s) = \<pi> s"
    and after_encode: "\<pi> (after_encode f acts s) = \<pi> s"
    and timers: "\<pi> (s\<lparr>Timers := ts\<rparr>) = \<pi> s"
    and hooked: "\<pi> (s\<lparr>Connections := (Connections s)(con := (Connections s con)\<lparr>HooksExchangeMgr := True\<rparr>)\<rparr>) = \<pi> s"
    and upd_ctx: "core (g (ctx s ec)) = core (ctx s ec) \<Longrightarrow> \<pi> (upd_ctx ec g s) = \<pi> s"
    and ticks: "J (\<pi> s) \<Longrightarrow> \<pi> (WRMPExpireTicks s) = \<pi> s"
    and alive: "\<pi> s = \<pi> t \<Longrightarrow> con_alive s ec \<longleftrightarrow> con_alive t ec"
begin

lemma CancelTimer: "\<pi> (CancelTimer x s) = \<pi> s"
  by (simp add: CancelTimer_def timers)

lemma StartTimer: "\<pi> (snd (StartTimer env ms x s)) = \<pi> s"
  by (simp add: StartTimer_def timers)

lemma SendTo: "\<pi> (snd (SendTo env ep a i bs s)) = \<pi> s"
  by (simp add: SendTo_def emit)

lemma SendMulticast: "\<pi> (snd (SendMulticast env ep a i bs r)) = \<pi> (snd r)"
  by (auto simp: SendMulticast_def SendTo_def emit)

lemma SendOnInterfaces: "\<pi> (snd (SendOnInterfaces env a bs is r)) = \<pi> (snd r)"
  by (induction env a bs "is" r rule: SendOnInterfaces.induct) (auto simp: SendMulticast)

lemma SendFromLocalAddrs: "\<pi> (snd (SendFromLocalAddrs env a i bs k eps r)) = \<pi> (snd r)"
  by (induction env a i bs k eps r rule: SendFromLocalAddrs.induct) (auto simp: SendMulticast)

lemma SendEncodedMessage: "\<pi> (snd (SendEncodedMessage env a i bs fl s)) = \<pi> s"
  by (auto simp: SendEncodedMessage_def Let_def SendMulticast SendOnInterfaces SendFromLocalAddrs SendTo)

lemma SendMessageTo:
  assumes "SendMessageTo env a i m b s = (err, m1, b1, t)"
  shows "\<pi> t = \<pi> s"
proof -
  have "\<pi> t = \<pi> (after_encode f acts s)" if "SendEncodedMessage env a' i bs fl (after_encode f acts s) = (err, t)" for a' bs fl f acts
    using SendEncodedMessage [of env a' i bs fl "after_encode f acts s"] that by simp
  then show ?thesis using assms
    by (auto simp: SendMessageTo_def Let_def after_encode split: prod.splits if_splits)
qed

lemma WRMPStartTimer:
  "TimerResult env WRMPTimeout = WEAVE_NO_ERROR \<Longrightarrow> gives (WRMPStartTimer env s) (\<lambda>t. \<pi> t = \<pi> s)"
  by (auto simp: WRMPStartTimer_def WRMPStopTimer_def Let_def gives_def StartTimer_def CancelTimer timers split: prod.splits)

lemma EncodeExchHeader:
  assumes "TimerResult env WRMPTimeout = WEAVE_NO_ERROR" "J (\<pi> s)"
  shows "gives (EncodeExchHeader env ec p ty b fl s) (\<lambda>(err, b1, t). \<pi> t = \<pi> s)"
proof -
  have "\<pi> (upd_ctx ec (SetAckPending False) (WRMPExpireTicks s)) = \<pi> s"
    using upd_ctx [of "SetAckPending False"] ticks [OF assms(2)] by (simp add: flag_setters core_def)
  then have "gives (WRMPStartTimer env (upd_ctx ec (SetAckPending False) (WRMPExpireTicks s))) (\<lambda>t. \<pi> t = \<pi> s)"
    using WRMPStartTimer [OF assms(1)] by metis
  then show ?thesis unfolding EncodeExchHeader_def Let_def
    by (auto simp: gives_def split: prod.splits)
qed

lemma ExpectResponse:
  assumes "ExpectResponse env ec fl s = (err, t)"
  shows "\<pi> t = \<pi> s"
proof -
  have u: "\<pi> (upd_ctx ec (SetResponseExpected True) s) = \<pi> s" by (rule upd_ctx) (simp add: flag_setters core_def)
  have "\<pi> t = \<pi> s" if "StartTimer env ms x (upd_ctx ec (SetResponseExpected True) s) = (err, t)" for ms x
    using StartTimer [of env ms x "upd_ctx ec (SetResponseExpected True) s"] that u by simp
  then show ?thesis using assms u by (auto simp: ExpectResponse_def Let_def split: if_splits)
qed

lemma StartTimerT: "\<pi> (snd (StartTimerT env ec s)) = \<pi> s"
  by (simp add: StartTimerT_def Let_def StartTimer upd_ctx core_def)

lemma ConSendMessage:
  assumes "CRefCount (Connections s con) \<noteq> 0"
  shows "gives (ConSendMessage env con m b s) (\<lambda>(err, m1, t). \<pi> t = \<pi> s)"
proof -
  have sent: "gives (case EncodeMessageWithLength (Plat env) m b (Some con) 0xFFFF (EFabric s) of (err, m1, b1, f, acts) \<Rightarrow>
      if err \<noteq> WEAVE_NO_ERROR
      then Some (if err = WEAVE_ERROR_MESSAGE_TOO_LONG then WEAVE_ERROR_SENDING_BLOCKED else err, m1, after_encode f acts s)
      else Some (TcpResult env (events (after_encode f acts s)), m1, emit (ConSend con (contents b1)) (after_encode f acts s)))
      (\<lambda>(err, m1, t). \<pi> t = \<pi> s)" for m
    by (cases "EncodeMessageWithLength (Plat env) m b (Some con) 0xFFFF (EFabric s)") (auto simp: emit after_encode)
  show ?thesis unfolding ConSendMessage_def Let_def if_not_P [OF assms]
    by (intro gives_if sent) simp_all
qed

lemma Transmit_once:
  assumes "con_alive s ec" "fl AND 0x400 = 0"
  shows "gives (Transmit rel env ec fl m b mc s) (\<lambda>(err, t). \<pi> t = \<pi> s)"
proof (cases "Con (ctx s ec)")
  case (Some con)
  let ?s = "s\<lparr>Connections := (Connections s)(con := (Connections s con)\<lparr>HooksExchangeMgr := True\<rparr>)\<rparr>"
  have "CRefCount (Connections ?s con) \<noteq> 0" using assms(1) Some by (simp add: con_alive_def)
  then have "gives (ConSendMessage env con m b ?s) (\<lambda>(err, m1, t). \<pi> t = \<pi> s)"
    using ConSendMessage [of ?s con env m b] hooked by simp
  then show ?thesis unfolding Transmit_def Some by (auto simp: gives_def)
next
  case None
  obtain err m1 b1 t where r: "SendMessageTo env (PeerAddr (ctx s ec)) (PeerIntf (ctx s ec)) m b s = (err, m1, b1, t)"
    by (metis prod_cases4)
  have v: "\<pi> t = \<pi> s" using SendMessageTo [OF r] .
  show ?thesis unfolding Transmit_def None
    using r v assms(2) by (auto simp: Let_def gives_def upd_ctx core_def StartTimerT)
qed

lemma SendBody_once:
  assumes "TimerResult env WRMPTimeout = WEAVE_NO_ERROR" "J (\<pi> s)" "con_alive s ec" "RequestsAck (ctx s ec) fl AND 0x400 = 0"
  shows "gives (SendBody rel env ec p ty b fl m mc s) (\<lambda>(err, t). \<pi> t = \<pi> s)"
proof -
  obtain err fl' c1 where c: "CheckSend (ctx s ec) p ty b (RequestsAck (ctx s ec) fl) = (err, fl', c1)" by (metis prod_cases3)
  have fl': "fl' AND 0x400 = 0" using CheckSend_RequestAck [OF c] assms(4) by simp
  let ?s1 = "upd_ctx ec (\<lambda>_. c1) s"
  have v1: "\<pi> ?s1 = \<pi> s" using upd_ctx [of "\<lambda>_. c1"] CheckSend_core [OF c] by simp
  have rest: "gives (case ExpectResponse env ec fl' t of (err, s4) \<Rightarrow>
        if err \<noteq> WEAVE_NO_ERROR then Some (err, s4)
        else Transmit rel env ec fl' m' b1 mc s4) (\<lambda>(err, t). \<pi> t = \<pi> s)"
    if t: "\<pi> t = \<pi> s" for t m' b1
  proof -
    obtain e s4 where x: "ExpectResponse env ec fl' t = (e, s4)" by fastforce
    have v4: "\<pi> s4 = \<pi> s" using ExpectResponse [OF x] t by simp
    then show ?thesis using x Transmit_once [of s4 ec fl' rel env m' b1 mc] fl' alive [OF v4] assms(3) by auto
  qed
  have e: "gives (EncodeExchHeader env ec p ty b fl' ?s1) (\<lambda>(err, b1, t). \<pi> t = \<pi> s)"
    using EncodeExchHeader [OF assms(1), of ?s1] assms(2) v1 by simp
  show ?thesis unfolding SendBody_def c prod.case Let_def
    using v1 by (auto intro!: gives_bind [OF e] rest simp: upd_ctx core_def)
qed

text \<open>The steps of closing a context apart from the acknowledgment it may send.\<close>

lemma teardown: "\<pi> (CancelResponseTimer ec (TeardownTrickleRetransmit ec s)) = \<pi> s"
  by (simp add: CancelResponseTimer_def TeardownTrickleRetransmit_def CancelTimer upd_ctx core_def)

lemma DoClose:
  assumes "TimerResult env WRMPTimeout = WEAVE_NO_ERROR" "J (\<pi> s)"
    and flush: "\<And>t. \<pi> t = \<pi> s \<Longrightarrow> gives (WRMPFlushAcks rel env ec t) (\<lambda>(err, u). \<pi> u = \<pi> s)"
  shows "gives (DoClose rel env False ec s) (\<lambda>t. \<pi> t = \<pi> s)"
proof -
  let ?s1 = "WRMPExpireTicks (upd_ctx ec (\<lambda>c. c\<lparr>OnMsgRcvd := None, HasOnResponseTimeout := False,
         HasOnRetransmissionTimeout := False, HasOnConnectionClosed := False, HasOnKeyError := False\<rparr>) s)"
  let ?s2 = "upd_ctx ec (\<lambda>c. c\<lparr>HasOnThrottleRcvd := False, HasOnDDRcvd := False, HasOnSendError := False,
         HasOnAckRcvd := False\<rparr>) ?s1"
  have v: "\<pi> ?s2 = \<pi> s" using assms(2) by (simp add: upd_ctx core_def ticks)
  have e: "gives (WRMPStartTimer env t \<bind> (\<lambda>s5. Some (CancelResponseTimer ec (TeardownTrickleRetransmit ec s5)))) (\<lambda>u. \<pi> u = \<pi> s)"
    if "\<pi> t = \<pi> s" for t
    using WRMPStartTimer [OF assms(1), of t] that by (auto simp: gives_def teardown)
  show ?thesis unfolding DoClose_def Let_def by (auto intro!: gives_bind [OF flush [OF v]] e)
qed

end

end
