(* ===== verification/Exchange_Refs.thy ===== *)
theory Exchange_Refs
  imports Exchange_Quiet
begin

text \<open>
  Reference counts of exchange contexts.  A context is referenced by the entries of the retransmission table and
  by the application.  What an operation does to these references depends on a small part of the state,
  its \<open>refs_view\<close>; most steps leave it alone, and those that do not are \<open>ExchAddRef\<close>, \<open>drop_ref\<close>
  (a release) and the use of a table entry.
\<close>

section \<open>The part of the state that references depend on\<close>

definition refs_view ::
  "'k ExchangeMgr \<Rightarrow> (bool \<times> u8 \<times> nat option) list \<times> (nat option \<times> bool) list \<times> nat \<times> (nat \<Rightarrow> bool)" where
  "refs_view s = (map (\<lambda>c. (InUse c, mRefCount c, Con c)) (ContextPool s), map (\<lambda>e. (exchContext e, msgBuf e = None)) (RetransTable s),
     mContextsInUse s, \<lambda>con. CRefCount (Connections s con) = 0)"

lemma map_update_same: "f (g (xs ! i)) = f (xs ! i) \<Longrightarrow> map f (xs[i := g (xs ! i)]) = map f xs"
  by (metis list_update_beyond list_update_id map_update not_le_imp_less nth_map)

lemma refs_view_upd_ctx:
  assumes "\<And>c. InUse (g c) = InUse c" "\<And>c. mRefCount (g c) = mRefCount c" "\<And>c. Con (g c) = Con c"
  shows "refs_view (upd_ctx ec g s) = refs_view s"
  by (simp add: refs_view_def upd_ctx_def map_update_same assms)

lemma refs_view_upd_entry:
  assumes "\<And>e. exchContext (g e) = exchContext e" "\<And>e. msgBuf (g e) = msgBuf e"
  shows "refs_view (upd_entry i g s) = refs_view s"
  by (simp add: refs_view_def upd_entry_def map_update_same assms)

lemma ExpireRetrans_view:
  "ExpireRetrans d es pool = (fs, pool') \<Longrightarrow>
    map (\<lambda>e. (exchContext e, msgBuf e = None)) fs = map (\<lambda>e. (exchContext e, msgBuf e = None)) es \<and>
    map (\<lambda>c. (InUse c, mRefCount c, Con c)) pool' = map (\<lambda>c. (InUse c, mRefCount c, Con c)) pool"
proof (induction d es pool arbitrary: fs pool' rule: ExpireRetrans.induct)
  case (2 d e es pool)
  show ?case
  proof (cases "exchContext e")
    case None
    then show ?thesis using "2.prems" "2.IH"(1) [OF None] by (auto split: prod.splits)
  next
    case (Some ec)
    then show ?thesis using "2.prems" "2.IH"(2) [OF Some refl refl]
      by (auto simp: Let_def map_update_same split: prod.splits)
  qed
qed simp

lemma refs_view_WRMPExpireTicks [simp]: "refs_view (WRMPExpireTicks s) = refs_view s"
proof -
  obtain d where d: "d = (ucast (GetTickCounterFromTimeDelta (Now s) (mWRMPTimeStampBase s) s) :: u16)" by simp
  obtain table pool where r: "ExpireRetrans d (RetransTable s) (ExpireAcks d (ContextPool s)) = (table, pool)" by fastforce
  have "map (\<lambda>c. (InUse c, mRefCount c, Con c)) (ExpireAcks d (ContextPool s)) = map (\<lambda>c. (InUse c, mRefCount c, Con c)) (ContextPool s)"
    by (auto simp: ExpireAcks_def)
  then show ?thesis using ExpireRetrans_view [OF r] r by (simp add: WRMPExpireTicks_def refs_view_def Let_def flip: d)
qed

lemma view_lengths:
  assumes "refs_view s = refs_view t"
  shows "length (ContextPool s) = length (ContextPool t)" "length (RetransTable s) = length (RetransTable t)"
    "mContextsInUse s = mContextsInUse t" "CRefCount (Connections s con) = 0 \<longleftrightarrow> CRefCount (Connections t con) = 0"
proof -
  note v = assms [unfolded refs_view_def]
  show "length (ContextPool s) = length (ContextPool t)" using v by (auto dest: map_eq_imp_length_eq)
  show "length (RetransTable s) = length (RetransTable t)" using v by (auto dest: map_eq_imp_length_eq)
  show "mContextsInUse s = mContextsInUse t" using v by simp
  have "(\<lambda>con. CRefCount (Connections s con) = 0) = (\<lambda>con. CRefCount (Connections t con) = 0)" using v by simp
  then show "CRefCount (Connections s con) = 0 \<longleftrightarrow> CRefCount (Connections t con) = 0" by (rule fun_cong)
qed

lemma view_contexts:
  assumes "refs_view s = refs_view t" "ec < length (ContextPool s)"
  shows "InUse (ctx s ec) = InUse (ctx t ec)" "mRefCount (ctx s ec) = mRefCount (ctx t ec)" "Con (ctx s ec) = Con (ctx t ec)"
proof -
  have m: "map (\<lambda>c. (InUse c, mRefCount c, Con c)) (ContextPool s) = map (\<lambda>c. (InUse c, mRefCount c, Con c)) (ContextPool t)"
    using assms(1) by (simp add: refs_view_def)
  have "map (\<lambda>c. (InUse c, mRefCount c, Con c)) (ContextPool s) ! ec = map (\<lambda>c. (InUse c, mRefCount c, Con c)) (ContextPool t) ! ec"
    using m by simp
  moreover have "ec < length (ContextPool t)" using assms(2) view_lengths(1) [OF assms(1)] by simp
  ultimately show "InUse (ctx s ec) = InUse (ctx t ec)" "mRefCount (ctx s ec) = mRefCount (ctx t ec)" "Con (ctx s ec) = Con (ctx t ec)"
    using assms(2) by (simp_all add: ctx_def)
qed

interpretation rv: quiet_view refs_view "\<lambda>_. True"
proof
  fix s t :: "'a ExchangeMgr" and g and ec
  show "refs_view (upd_ctx ec g s) = refs_view s" if "core (g (ctx s ec)) = core (ctx s ec)"
    using that by (simp add: refs_view_def upd_ctx_def core_def ctx_def map_update_same)
  show "refs_view (WRMPExpireTicks s) = refs_view s" by simp
  show "con_alive s ec \<longleftrightarrow> con_alive t ec" if "refs_view s = refs_view t"
    using view_lengths [OF that] view_contexts(3) [OF that] by (auto simp: con_alive_def)
qed (auto simp: refs_view_def emit_def after_encode_def)

lemmas refs_view_simps [simp] = rv.emit rv.after_encode rv.CancelTimer rv.StartTimer rv.StartTimerT rv.teardown

lemma refs_view_Now [simp]: "refs_view (s\<lparr>Now := t\<rparr>) = refs_view s"
  by (simp add: refs_view_def)

section \<open>The invariant\<close>

text \<open>
  \<open>H ec\<close> counts the references to \<open>ec\<close> from outside the table.  There are \<open>N\<close> contexts and \<open>M\<close> table entries.
\<close>

definition table_refs :: "'k ExchangeMgr \<Rightarrow> nat \<Rightarrow> nat" where
  "table_refs s ec = card {i. i < length (RetransTable s) \<and> exchContext (RetransTable s ! i) = Some ec}"

definition entries_ok :: "'k ExchangeMgr \<Rightarrow> bool" where
  "entries_ok s \<longleftrightarrow> (\<forall>i < length (RetransTable s). \<forall>ec. exchContext (RetransTable s ! i) = Some ec \<longrightarrow>
     ec < length (ContextPool s) \<and> msgBuf (RetransTable s ! i) \<noteq> None)"

definition counts_ok :: "(nat \<Rightarrow> nat) \<Rightarrow> 'k ExchangeMgr \<Rightarrow> bool" where
  "counts_ok H s \<longleftrightarrow> (\<forall>ec < length (ContextPool s). unat (mRefCount (ctx s ec)) = table_refs s ec + H ec \<and>
     (InUse (ctx s ec) \<longleftrightarrow> mRefCount (ctx s ec) \<noteq> 0))"

definition in_use :: "'k ExchangeMgr \<Rightarrow> nat set" where
  "in_use s = {ec. ec < length (ContextPool s) \<and> InUse (ctx s ec)}"

definition cons_ok :: "'k ExchangeMgr \<Rightarrow> bool" where
  "cons_ok s \<longleftrightarrow> (\<forall>ec \<in> in_use s. \<forall>con. Con (ctx s ec) = Some con \<longrightarrow> CRefCount (Connections s con) \<noteq> 0)"

definition refs_ok :: "nat \<Rightarrow> nat \<Rightarrow> (nat \<Rightarrow> nat) \<Rightarrow> 'k ExchangeMgr \<Rightarrow> bool" where
  "refs_ok N M H s \<longleftrightarrow> length (ContextPool s) = N \<and> length (RetransTable s) = M \<and> entries_ok s \<and> counts_ok H s \<and>
     mContextsInUse s = card (in_use s) \<and> cons_ok s"

lemma view_entries:
  assumes "refs_view s = refs_view t" "i < length (RetransTable s)"
  shows "exchContext (RetransTable s ! i) = exchContext (RetransTable t ! i)" "msgBuf (RetransTable s ! i) = None \<longleftrightarrow> msgBuf (RetransTable t ! i) = None"
proof -
  have m: "map (\<lambda>e. (exchContext e, msgBuf e = None)) (RetransTable s) = map (\<lambda>e. (exchContext e, msgBuf e = None)) (RetransTable t)"
    using assms(1) by (simp add: refs_view_def)
  have "map (\<lambda>e. (exchContext e, msgBuf e = None)) (RetransTable s) ! i = map (\<lambda>e. (exchContext e, msgBuf e = None)) (RetransTable t) ! i"
    using m by simp
  moreover have "i < length (RetransTable t)" using assms(2) view_lengths(2) [OF assms(1)] by simp
  ultimately show "exchContext (RetransTable s ! i) = exchContext (RetransTable t ! i)" "msgBuf (RetransTable s ! i) = None \<longleftrightarrow> msgBuf (RetransTable t ! i) = None"
    using assms(2) by simp_all
qed

lemma view_table_refs:
  assumes "refs_view s = refs_view t"
  shows "table_refs s ec = table_refs t ec"
  unfolding table_refs_def
  by (rule arg_cong [where f = card]) (use view_lengths(2) [OF assms] view_entries(1) [OF assms] in auto)

lemma refs_ok_view_imp:
  assumes "refs_view t = refs_view s" "refs_ok N M H s"
  shows "refs_ok N M H t"
proof -
  note v = view_lengths [OF assms(1)] view_contexts [OF assms(1)] view_entries [OF assms(1)]
  have u: "in_use t = in_use s" using v by (auto simp: in_use_def)
  have r: "table_refs t ec = table_refs s ec" for ec using view_table_refs [OF assms(1)] .
  have "entries_ok t" using assms(2) v by (auto simp: refs_ok_def entries_ok_def)
  moreover have "counts_ok H t" using assms(2) v r by (auto simp: refs_ok_def counts_ok_def)
  moreover have "cons_ok t" using assms(2) v u by (auto simp: refs_ok_def cons_ok_def in_use_def)
  ultimately show ?thesis using assms(2) v u by (auto simp: refs_ok_def)
qed

lemma refs_ok_lengths: "refs_ok N M H s \<Longrightarrow> length (ContextPool s) = N \<and> length (RetransTable s) = M"
  by (simp add: refs_ok_def)

lemma refs_ok_in_use:
  assumes "refs_ok N M H s" "ec < N" "0 < table_refs s ec + H ec"
  shows "InUse (ctx s ec)" "mRefCount (ctx s ec) \<noteq> 0"
  using assms by (auto simp: refs_ok_def counts_ok_def)

lemma table_refs_le: "table_refs s ec \<le> length (RetransTable s)"
proof -
  have "table_refs s ec \<le> card {i. i < length (RetransTable s)}" unfolding table_refs_def by (rule card_mono) auto
  then show ?thesis by simp
qed

lemma refs_ok_entry:
  assumes "refs_ok N M H s" "i < M" "exchContext (RetransTable s ! i) = Some ec"
  shows "ec < N" "0 < table_refs s ec" "msgBuf (RetransTable s ! i) \<noteq> None"
proof -
  show "ec < N" "msgBuf (RetransTable s ! i) \<noteq> None" using assms by (auto simp: refs_ok_def entries_ok_def)
  have "i \<in> {i. i < length (RetransTable s) \<and> exchContext (RetransTable s ! i) = Some ec}" using assms by (simp add: refs_ok_def)
  then show "0 < table_refs s ec" unfolding table_refs_def by (intro card_gt_0_iff [THEN iffD2]) auto
qed

section \<open>Taking and dropping references\<close>

definition drop_ref :: "nat \<Rightarrow> 'k ExchangeMgr \<Rightarrow> 'k ExchangeMgr" where
  "drop_ref ec s =
     (if mRefCount (ctx s ec) = 1
      then (upd_ctx ec (\<lambda>c. c\<lparr>mRefCount := 0, InUse := False\<rparr>) s)\<lparr>mContextsInUse := mContextsInUse s - 1\<rparr>
      else upd_ctx ec (\<lambda>c. c\<lparr>mRefCount := mRefCount c - 1\<rparr>) s)"

lemma table_refs_upd_ctx [simp]: "table_refs (upd_ctx ec g s) x = table_refs s x"
  by (simp add: table_refs_def)

lemma drop_ref_frame [simp]:
  "RetransTable (drop_ref ec s) = RetransTable s" "Connections (drop_ref ec s) = Connections s"
  "length (ContextPool (drop_ref ec s)) = length (ContextPool s)" "table_refs (drop_ref ec s) x = table_refs s x"
  by (simp_all add: drop_ref_def table_refs_def)

lemma unat_Suc_u8: "unat (x :: u8) < 255 \<Longrightarrow> unat (x + 1) = Suc (unat x)"
  by (simp add: unat_word_ariths)

lemma refs_ok_add:
  assumes "refs_ok N M H s" "ec < N" "InUse (ctx s ec)" "H ec + M < 255"
  shows "refs_ok N M (H(ec := Suc (H ec))) (ExchAddRef ec s)"
proof -
  let ?t = "ExchAddRef ec s"
  have N: "length (ContextPool s) = N" and M: "length (RetransTable s) = M" using assms(1) by (simp_all add: refs_ok_def)
  have cnt: "unat (mRefCount (ctx s ec)) = table_refs s ec + H ec" using assms by (simp add: refs_ok_def counts_ok_def)
  have less: "unat (mRefCount (ctx s ec)) < 255" using cnt table_refs_le [of s ec] assms(4) M by simp
  have c: "ctx ?t x = (if x = ec then (ctx s ec)\<lparr>mRefCount := mRefCount (ctx s ec) + 1\<rparr> else ctx s x)" for x
    using assms(2) N by (simp add: ExchAddRef_def ctx_upd_ctx)
  have u: "in_use ?t = in_use s" using c N assms(2) by (auto simp: in_use_def ExchAddRef_def)
  have nz: "mRefCount (ctx s ec) + 1 \<noteq> 0" using unat_Suc_u8 [OF less] by (metis Zero_not_Suc unat_0)
  have "counts_ok (H(ec := Suc (H ec))) ?t"
    using assms(1,3) c unat_Suc_u8 [OF less] cnt nz by (auto simp: refs_ok_def counts_ok_def ExchAddRef_def)
  moreover have "cons_ok ?t" using assms(1) c u by (auto simp: refs_ok_def cons_ok_def ExchAddRef_def)
  ultimately show ?thesis using assms(1) u by (auto simp: refs_ok_def entries_ok_def ExchAddRef_def)
qed

lemma refs_ok_drop:
  assumes "refs_ok N M (H(ec := Suc h)) s" "ec < N"
  shows "refs_ok N M (H(ec := h)) (drop_ref ec s)"
proof -
  let ?t = "drop_ref ec s" and ?r = "mRefCount (ctx s ec)"
  have N: "length (ContextPool s) = N" using assms(1) by (simp add: refs_ok_def)
  have cnt: "unat ?r = table_refs s ec + Suc h" and iu: "InUse (ctx s ec)" "?r \<noteq> 0"
    using assms by (auto simp: refs_ok_def counts_ok_def)
  have c: "ctx ?t x = (if x = ec then if ?r = 1 then (ctx s ec)\<lparr>mRefCount := 0, InUse := False\<rparr>
      else (ctx s ec)\<lparr>mRefCount := ?r - 1\<rparr> else ctx s x)" for x
    using assms(2) N ctx_upd_ctx [of ec s] by (auto simp: drop_ref_def ctx_def)
  have u: "in_use ?t = (if ?r = 1 then in_use s - {ec} else in_use s)"
    using c N assms(2) iu by (auto simp: in_use_def drop_ref_def)
  have d: "unat (?r - 1) = unat ?r - 1" using iu(2) by (simp add: unat_minus_one)
  have r1: "?r - 1 = 0 \<longleftrightarrow> ?r = 1" by auto
  have "unat (mRefCount (ctx ?t ec)) = table_refs s ec + h"
    using c [of ec] d cnt by (cases "?r = 1") auto
  then have "counts_ok (H(ec := h)) ?t"
    using assms(1) c r1 iu unfolding counts_ok_def refs_ok_def by (auto simp: N)
  moreover have "cons_ok ?t"
    using assms(1) c u unfolding refs_ok_def cons_ok_def by (auto split: if_splits)
  moreover have "mContextsInUse ?t = card (in_use ?t)"
    using assms N iu u by (auto simp: refs_ok_def drop_ref_def in_use_def)
  ultimately show ?thesis using assms(1) by (auto simp: refs_ok_def entries_ok_def)
qed

lemma table_refs_put:
  assumes "i < length (RetransTable s)" "exchContext (RetransTable s ! i) = None" "exchContext e = Some ec"
  shows "table_refs (upd_entry i (\<lambda>_. e) s) x = (if x = ec then Suc (table_refs s x) else table_refs s x)"
proof -
  let ?S = "{j. j < length (RetransTable s) \<and> exchContext (RetransTable s ! j) = Some x}"
  have "{j. j < length (RetransTable (upd_entry i (\<lambda>_. e) s)) \<and> exchContext (RetransTable (upd_entry i (\<lambda>_. e) s) ! j) = Some x}
      = (if x = ec then insert i ?S else ?S)"
    using assms by (auto simp: upd_entry_def nth_list_update split: if_splits)
  moreover have "card (insert i ?S) = Suc (card ?S)" using assms(2) by (subst card_insert_disjoint) auto
  ultimately show ?thesis unfolding table_refs_def by auto
qed

lemma table_refs_zero:
  assumes "i < length (RetransTable s)" "exchContext (RetransTable s ! i) = Some ec"
  shows "table_refs s x = (if x = ec then Suc (table_refs (upd_entry i (\<lambda>_. zero_entry) s) x) else table_refs (upd_entry i (\<lambda>_. zero_entry) s) x)"
proof -
  let ?t = "upd_entry i (\<lambda>_. zero_entry) s"
  have "table_refs (upd_entry i (\<lambda>_. RetransTable s ! i) ?t) x = (if x = ec then Suc (table_refs ?t x) else table_refs ?t x)"
    using assms by (intro table_refs_put) (simp_all add: upd_entry_def zero_entry_def)
  then show ?thesis by (simp add: upd_entry_def)
qed

lemma refs_ok_put:
  assumes "refs_ok N M (H(ec := Suc h)) s" "ec < N" "i < M" "exchContext (RetransTable s ! i) = None"
    "exchContext e = Some ec" "msgBuf e \<noteq> None"
  shows "refs_ok N M (H(ec := h)) (upd_entry i (\<lambda>_. e) s)"
proof -
  have M: "i < length (RetransTable s)" using assms(1,3) by (simp add: refs_ok_def)
  have "entries_ok (upd_entry i (\<lambda>_. e) s)"
    using assms by (auto simp: refs_ok_def entries_ok_def upd_entry_def nth_list_update ctx_def)
  moreover have "counts_ok (H(ec := h)) (upd_entry i (\<lambda>_. e) s)"
    using assms(1) table_refs_put [OF M assms(4,5)] by (auto simp: refs_ok_def counts_ok_def)
  ultimately show ?thesis using assms(1) by (auto simp: refs_ok_def cons_ok_def in_use_def)
qed

lemma refs_ok_zero:
  assumes "refs_ok N M (H(ec := h)) s" "i < M" "exchContext (RetransTable s ! i) = Some ec"
  shows "refs_ok N M (H(ec := Suc h)) (upd_entry i (\<lambda>_. zero_entry) s)"
proof -
  have M: "i < length (RetransTable s)" using assms(1,2) by (simp add: refs_ok_def)
  have "entries_ok (upd_entry i (\<lambda>_. zero_entry) s)"
    using assms by (auto simp: refs_ok_def entries_ok_def upd_entry_def nth_list_update zero_entry_def ctx_def)
  moreover have "counts_ok (H(ec := Suc h)) (upd_entry i (\<lambda>_. zero_entry) s)"
    using assms(1) table_refs_zero [OF M assms(3)] by (auto simp: refs_ok_def counts_ok_def)
  ultimately show ?thesis using assms(1) by (auto simp: refs_ok_def cons_ok_def in_use_def)
qed

lemma upd_entry_commute:
  "ExchAddRef ec (upd_entry i g s) = upd_entry i g (ExchAddRef ec s)"
  "drop_ref ec (upd_entry i g s) = upd_entry i g (drop_ref ec s)"
  by (simp_all add: ExchAddRef_def drop_ref_def upd_ctx_def upd_entry_def ctx_def)

lemma refs_ok_use_entry:
  assumes "refs_ok N M H s" "ec < N" "InUse (ctx s ec)" "H ec + M < 255" "i < M" "exchContext (RetransTable s ! i) = None"
    "exchContext e = Some ec" "msgBuf e \<noteq> None"
  shows "refs_ok N M H (ExchAddRef ec (upd_entry i (\<lambda>_. e) s))"
proof -
  have "exchContext (RetransTable (ExchAddRef ec s) ! i) = None" using assms(6) by (simp add: ExchAddRef_def)
  then have "refs_ok N M (H(ec := H ec)) (upd_entry i (\<lambda>_. e) (ExchAddRef ec s))"
    using refs_ok_put [OF refs_ok_add [OF assms(1-4)]] assms by simp
  then show ?thesis by (simp add: upd_entry_commute)
qed

lemma refs_ok_clear_entry:
  assumes "refs_ok N M H s" "i < M" "exchContext (RetransTable s ! i) = Some ec"
  shows "refs_ok N M H (upd_entry i (\<lambda>_. zero_entry) (drop_ref ec s))"
proof -
  have "refs_ok N M (H(ec := H ec)) s" using assms(1) by simp
  note z = refs_ok_zero [OF this assms(2,3)]
  show ?thesis using refs_ok_drop [OF z refs_ok_entry(1) [OF assms]] by (simp add: upd_entry_commute)
qed

text \<open>A view of the state determines the view after a reference is dropped, taken or an entry is changed.\<close>

lemma view_upd_ctx:
  assumes "refs_view s = refs_view t"
    "\<And>c d. (InUse c, mRefCount c, Con c) = (InUse d, mRefCount d, Con d) \<Longrightarrow>
      (InUse (g c), mRefCount (g c), Con (g c)) = (InUse (g d), mRefCount (g d), Con (g d))"
  shows "refs_view (upd_ctx ec g s) = refs_view (upd_ctx ec g t)"
proof (cases "ec < length (ContextPool s)")
  case True
  have m: "map (\<lambda>c. (InUse c, mRefCount c, Con c)) (ContextPool s) = map (\<lambda>c. (InUse c, mRefCount c, Con c)) (ContextPool t)"
    using assms(1) by (simp add: refs_view_def)
  have "(InUse (g (ctx s ec)), mRefCount (g (ctx s ec)), Con (g (ctx s ec))) = (InUse (g (ctx t ec)), mRefCount (g (ctx t ec)), Con (g (ctx t ec)))"
    using assms(2) view_contexts [OF assms(1) True] by blast
  then show ?thesis using assms(1) m unfolding refs_view_def upd_ctx_def by (simp add: map_update ctx_def)
next
  case False
  then show ?thesis using assms(1) view_lengths(1) [OF assms(1)] by (simp add: upd_ctx_def list_update_beyond)
qed

lemma view_count: "refs_view s = refs_view t \<Longrightarrow> refs_view (s\<lparr>mContextsInUse := n\<rparr>) = refs_view (t\<lparr>mContextsInUse := n\<rparr>)"
  by (simp add: refs_view_def)

lemma view_drop_ref:
  assumes "refs_view s = refs_view t" "ec < length (ContextPool s)"
  shows "refs_view (drop_ref ec s) = refs_view (drop_ref ec t)"
proof -
  note v = view_contexts [OF assms] view_lengths [OF assms(1)]
  have a: "refs_view (upd_ctx ec (\<lambda>c. c\<lparr>mRefCount := 0, InUse := False\<rparr>) s) = refs_view (upd_ctx ec (\<lambda>c. c\<lparr>mRefCount := 0, InUse := False\<rparr>) t)"
    and b: "refs_view (upd_ctx ec (\<lambda>c. c\<lparr>mRefCount := mRefCount c - 1\<rparr>) s) = refs_view (upd_ctx ec (\<lambda>c. c\<lparr>mRefCount := mRefCount c - 1\<rparr>) t)"
    using view_upd_ctx [OF assms(1)] by auto
  show ?thesis using v b view_count [OF a] by (simp add: drop_ref_def)
qed

lemma view_zero_entry:
  assumes "refs_view s = refs_view t"
  shows "refs_view (upd_entry i (\<lambda>_. e) s) = refs_view (upd_entry i (\<lambda>_. e) t)"
  using assms by (simp add: refs_view_def upd_entry_def map_update)


section \<open>Sending\<close>

lemma ExchAddRef_ctx: "ec < length (ContextPool s) \<Longrightarrow> ctx (ExchAddRef ec s) ec = (ctx s ec)\<lparr>mRefCount := mRefCount (ctx s ec) + 1\<rparr>"
  by (simp add: ExchAddRef_def ctx_upd_ctx)

lemma drop_add_ref:
  assumes "ec < length (ContextPool s)" "mRefCount (ctx s ec) \<noteq> 0"
  shows "drop_ref ec (ExchAddRef ec s) = s"
  using assms unfolding drop_ref_def ExchAddRef_ctx [OF assms(1)]
  by (simp add: ExchAddRef_def upd_ctx_def ctx_def list_update_same_conv)

definition rel_dec :: "'k releaser \<Rightarrow> bool" where
  "rel_dec rel \<longleftrightarrow> (\<forall>s ec. InUse (ctx s ec) \<longrightarrow> mRefCount (ctx s ec) \<noteq> 0 \<longrightarrow> mRefCount (ctx s ec) \<noteq> 1 \<longrightarrow> rel ec s = Some (drop_ref ec s))"

lemma rel_dec_ReleaseN [simp]: "rel_dec (ReleaseN (Suc n) env)"
  by (simp add: rel_dec_def drop_ref_def)

lemma rel_dec_Release [simp]: "rel_dec (Release env)"
  using rel_dec_ReleaseN [of 1 env] by (simp add: Release_def numeral_2_eq_2)


lemma refs_ok_alive:
  assumes "refs_ok N M H s" "ec < N" "InUse (ctx s ec)"
  shows "mRefCount (ctx s ec) \<noteq> 0" "unat (mRefCount (ctx s ec)) \<le> M + H ec"
    "Con (ctx s ec) = Some con \<Longrightarrow> CRefCount (Connections s con) \<noteq> 0" "ec < length (ContextPool s)"
  using assms table_refs_le [of s ec] by (auto simp: refs_ok_def counts_ok_def cons_ok_def in_use_def)

text \<open>
  The last steps of \<open>SendMessage\<close>: whatever the body did to the references, the reference taken at the start is given back
  without closing the context.
\<close>

lemma SendMessageWith_ends:
  assumes "rel_dec rel" "refs_ok N M H s" "ec < N" "InUse (ctx s ec)" "H ec + M < 255"
    and body: "gives (SendBody rel env ec p ty b fl m mc (ExchAddRef ec s)) (\<lambda>(err, t). refs_ok N M (H(ec := Suc (H ec))) t \<and> P (drop_ref ec t))"
    and P: "\<And>t u. \<lbrakk>P t; refs_view u = refs_view t\<rbrakk> \<Longrightarrow> P u"
    and tab: "\<And>t. refs_ok N M (H(ec := Suc (H ec))) t \<Longrightarrow> P (drop_ref ec t) \<Longrightarrow> H ec = 0 \<Longrightarrow> 0 < table_refs t ec"
  shows "gives (SendMessageWith rel env ec p ty b fl m mc s) (\<lambda>(err, t). refs_ok N M H t \<and> P t)"
proof -
  note al = refs_ok_alive [OF assms(2-4)]
  have fin: "gives (rel ec t) (\<lambda>u. refs_ok N M H u \<and> P u)"
    if t: "refs_ok N M (H(ec := Suc (H ec))) t" "P (drop_ref ec t)" for t
  proof -
    have cnt: "unat (mRefCount (ctx t ec)) = table_refs t ec + Suc (H ec)" "InUse (ctx t ec)" "mRefCount (ctx t ec) \<noteq> 0"
      using t(1) assms(3) by (auto simp: refs_ok_def counts_ok_def)
    have "unat (mRefCount (ctx t ec)) \<noteq> 1" using cnt(1) tab [OF t] by auto
    then have "mRefCount (ctx t ec) \<noteq> 1" by auto
    then have "rel ec t = Some (drop_ref ec t)" using assms(1) cnt by (simp add: rel_dec_def)
    then show ?thesis using refs_ok_drop [OF t(1) assms(3)] t(2) by simp
  qed
  have fin': "gives (rel ec (if c then upd_ctx ec (SetResponseExpected False) (CancelTimer x t) else t)) (\<lambda>u. refs_ok N M H u \<and> P u)"
    if t: "refs_ok N M (H(ec := Suc (H ec))) t" "P (drop_ref ec t)" for t c x
  proof -
    let ?u = "upd_ctx ec (SetResponseExpected False) (CancelTimer x t)"
    have v: "refs_view ?u = refs_view t" by (subst refs_view_upd_ctx) (simp_all add: flag_setters)
    have l: "ec < length (ContextPool t)" using t(1) assms(3) by (simp add: refs_ok_def)
    have "P (drop_ref ec ?u)" using P [OF t(2)] view_drop_ref [OF v] l v [THEN view_lengths(1)] by simp
    then show ?thesis using fin [OF t] fin [OF refs_ok_view_imp [OF v t(1)]] by simp
  qed
  show ?thesis unfolding SendMessageWith_def Let_def
    by (use al assms(4) in \<open>auto intro!: gives_bind [OF body] gives_bind [OF fin']\<close>)
qed

lemma SendOnce_view:
  assumes "rel_dec rel" "TimerResult env WRMPTimeout = WEAVE_NO_ERROR" "refs_ok N M H s" "ec < N" "InUse (ctx s ec)" "H ec + M < 255"
    "RequestsAck (ctx s ec) fl AND 0x400 = 0"
  shows "gives (SendMessageWith rel env ec p ty b fl m mc s) (\<lambda>(err, t). refs_view t = refs_view s)"
proof -
  note al = refs_ok_alive [OF assms(3-5)]
  let ?s = "ExchAddRef ec s"
  have a: "refs_ok N M (H(ec := Suc (H ec))) ?s" using refs_ok_add [OF assms(3-6)] .
  have c: "ctx ?s ec = (ctx s ec)\<lparr>mRefCount := mRefCount (ctx s ec) + 1\<rparr>" using ExchAddRef_ctx al(4) .
  have l: "ec < length (ContextPool ?s)" using al(4) by (simp add: ExchAddRef_def)
  have fl: "RequestsAck (ctx ?s ec) fl AND 0x400 = 0" using assms(7) unfolding c by (simp add: RequestsAck_def split: if_splits)
  have "gives (SendBody rel env ec p ty b fl m mc ?s) (\<lambda>(err, t). refs_view t = refs_view ?s)"
    using al(3) fl l by (intro rv.SendBody_once [OF assms(2)]) (auto simp: con_alive_def c, simp add: ExchAddRef_def)
  moreover have "refs_view (drop_ref ec t) = refs_view s" if "refs_view t = refs_view ?s" for t
    using view_drop_ref [OF that] view_lengths(1) [OF that] l drop_add_ref [OF al(4,1)] by simp
  ultimately have "gives (SendBody rel env ec p ty b fl m mc ?s)
      (\<lambda>(err, t). refs_ok N M (H(ec := Suc (H ec))) t \<and> refs_view (drop_ref ec t) = refs_view s)"
    using refs_ok_view_imp [OF _ a] by (auto simp: gives_def)
  then have "gives (SendMessageWith rel env ec p ty b fl m mc s) (\<lambda>(err, t). refs_ok N M H t \<and> refs_view t = refs_view s)"
  proof (rule SendMessageWith_ends [OF assms(1,3,4,5,6)])
    have cnt: "unat (mRefCount (ctx s ec)) = table_refs s ec + H ec" using assms(3,4) by (simp add: refs_ok_def counts_ok_def)
    have nz: "unat (mRefCount (ctx s ec)) \<noteq> 0" using al(1) by (metis unat_eq_zero)
    fix t :: "'a ExchangeMgr"
    assume t: "refs_ok N M (H(ec := Suc (H ec))) t" "refs_view (drop_ref ec t) = refs_view s" "H ec = 0"
    show "0 < table_refs t ec" using view_table_refs [OF t(2), of ec] cnt nz t(3) by simp
  qed auto
  then show ?thesis by (rule gives_mono) auto
qed

lemma null_flags: "RequestsAck c 0x800 AND 0x400 = 0"
  by (simp add: RequestsAck_def)

lemma SendCommonNullMessage_view:
  assumes "rel_dec rel" "TimerResult env WRMPTimeout = WEAVE_NO_ERROR" "refs_ok N M H s" "ec < N" "InUse (ctx s ec)" "H ec + M < 255"
  shows "gives (SendCommonNullMessage rel env ec s) (\<lambda>(err, t). refs_view t = refs_view s)"
proof (cases "NewBuffer env (events s)")
  case (Some b)
  show ?thesis unfolding SendCommonNullMessage_def Some
    by (auto intro!: gives_bind [OF SendOnce_view [OF assms null_flags]])
qed (simp add: SendCommonNullMessage_def)

lemma DoClose_view:
  assumes "rel_dec rel" "TimerResult env WRMPTimeout = WEAVE_NO_ERROR" "refs_ok N M H s" "ec < N" "InUse (ctx s ec)" "H ec + M < 255"
  shows "gives (DoClose rel env False ec s) (\<lambda>t. refs_view t = refs_view s)"
proof (rule rv.DoClose [OF assms(2) TrueI])
  fix t :: "'a ExchangeMgr" assume v: "refs_view t = refs_view s"
  have ok: "refs_ok N M H t" using refs_ok_view_imp [OF v assms(3)] .
  have iu: "InUse (ctx t ec)" using view_contexts(1) [OF v] refs_ok_lengths [OF ok] assms(4,5) by simp
  show "gives (WRMPFlushAcks rel env ec t) (\<lambda>(err, u). refs_view u = refs_view s)"
    using SendCommonNullMessage_view [OF assms(1,2) ok assms(4) iu assms(6)] v by (auto simp: WRMPFlushAcks_def gives_def)
qed

text \<open>Two levels of nested releases suffice.\<close>

lemma ReleaseN_view:
  assumes "TimerResult env WRMPTimeout = WEAVE_NO_ERROR" "refs_ok N M H s" "ec < N" "InUse (ctx s ec)" "H ec + M < 255"
  shows "gives (ReleaseN (Suc (Suc n)) env ec s) (\<lambda>t. refs_view t = refs_view (drop_ref ec s))"
proof (cases "mRefCount (ctx s ec) = 1")
  case False
  then show ?thesis using refs_ok_alive(1) [OF assms(2-4)] assms(4) by (simp add: drop_ref_def)
next
  case True
  have fin: "refs_view ((upd_ctx ec (\<lambda>c. c\<lparr>mRefCount := 0, InUse := False\<rparr>) t)\<lparr>mContextsInUse := mContextsInUse t - 1\<rparr>) = refs_view (drop_ref ec s)"
    if v: "refs_view t = refs_view s" for t
    using view_count [OF view_upd_ctx [OF v, of "\<lambda>c. c\<lparr>mRefCount := 0, InUse := False\<rparr>" ec]] view_lengths(3) [OF v] True by (auto simp: drop_ref_def)
  show ?thesis unfolding ReleaseN.simps(2) [of "Suc n"]
    using True assms(4) by (auto intro!: gives_bind [OF DoClose_view [OF rel_dec_ReleaseN assms]] fin [unfolded One_nat_def] simp del: ReleaseN.simps)
qed

lemma Release_view:
  assumes "TimerResult env WRMPTimeout = WEAVE_NO_ERROR" "refs_ok N M H s" "ec < N" "InUse (ctx s ec)" "H ec + M < 255"
  shows "gives (Release env ec s) (\<lambda>t. refs_view t = refs_view (drop_ref ec s))"
  using ReleaseN_view [OF assms, of 0] by (simp add: Release_def numeral_2_eq_2 del: ReleaseN.simps)


section \<open>The retransmission table\<close>

lemma ClearEntry_view:
  assumes "TimerResult env WRMPTimeout = WEAVE_NO_ERROR" "exchContext (RetransTable s ! i) = Some ec"
    and rel: "gives (rel ec (WRMPExpireTicks s)) (\<lambda>t. refs_view t = refs_view (drop_ref ec s))"
  shows "gives (ClearEntry rel env i s) (\<lambda>t. refs_view t = refs_view (upd_entry i (\<lambda>_. zero_entry) (drop_ref ec s)))"
proof -
  have "gives (WRMPStartTimer env (upd_entry i (\<lambda>_. zero_entry) t)) (\<lambda>t. refs_view t = refs_view (upd_entry i (\<lambda>_. zero_entry) (drop_ref ec s)))"
    if "refs_view t = refs_view (drop_ref ec s)" for t
    using gives_mono [OF rv.WRMPStartTimer [OF assms(1)]] view_zero_entry [OF that] by simp
  then show ?thesis unfolding ClearEntry_def assms(2) option.case by (rule gives_bind [OF rel])
qed

lemma Release_from_view:
  assumes "TimerResult env WRMPTimeout = WEAVE_NO_ERROR" "refs_ok N M H s" "ec < N" "InUse (ctx s ec)" "H ec + M < 255"
    "refs_view t = refs_view s"
  shows "gives (Release env ec t) (\<lambda>u. refs_view u = refs_view (drop_ref ec s))"
proof -
  have l: "ec < length (ContextPool t)" using assms(2,3) view_lengths(1) [OF assms(6)] by (simp add: refs_ok_def)
  then have "InUse (ctx t ec)" using assms(4) view_contexts(1) [OF assms(6) l] by simp
  then show ?thesis
    using Release_view [OF assms(1) refs_ok_view_imp [OF assms(6,2)] assms(3) _ assms(5)] view_drop_ref [OF assms(6) l] by simp
qed

lemma ClearEntry_ok:
  assumes "TimerResult env WRMPTimeout = WEAVE_NO_ERROR" "refs_ok N M H s" "\<And>x. H x + M < 255" "i < M"
  shows "gives (ClearEntry (Release env) env i s) (refs_ok N M H)"
proof (cases "exchContext (RetransTable s ! i)")
  case None
  then show ?thesis using assms(2) by (simp add: ClearEntry_def)
next
  case (Some ec)
  note e = refs_ok_entry [OF assms(2,4) Some]
  have u: "InUse (ctx s ec)" using refs_ok_in_use(1) [OF assms(2) e(1)] e(2) by simp
  have r: "gives (Release env ec (WRMPExpireTicks s)) (\<lambda>t. refs_view t = refs_view (drop_ref ec s))"
    using Release_from_view [OF assms(1,2) e(1) u assms(3)] by simp
  show ?thesis
    by (rule gives_mono [OF ClearEntry_view [where rel = "Release env", OF assms(1) Some r]]) (rule refs_ok_view_imp [OF _ refs_ok_clear_entry [OF assms(2,4) Some]])
qed

lemma AddToRetransTable_ok:
  assumes "TimerResult env WRMPTimeout = WEAVE_NO_ERROR" "refs_ok N M H s" "ec < N" "InUse (ctx s ec)" "H ec + M < 255"
  shows "gives (AddToRetransTable env ec b mid mc s) (\<lambda>(err, i, t). refs_ok N M H t \<and> table_refs s ec \<le> table_refs t ec \<and>
    (err = WEAVE_NO_ERROR \<longrightarrow> i < M \<and> exchContext (RetransTable t ! i) = Some ec \<and> table_refs s ec < table_refs t ec))"
proof (cases "find (\<lambda>i. exchContext (RetransTable s ! i) = None) [0..<length (RetransTable s)]")
  case None
  then show ?thesis using assms(2) by (simp add: AddToRetransTable_def)
next
  case (Some i)
  have i: "i < length (RetransTable s)" "exchContext (RetransTable s ! i) = None"
    using Some by (auto simp: find_Some_iff)
  let ?s = "WRMPExpireTicks s"
  have v: "refs_view ?s = refs_view s" by simp
  have ok: "refs_ok N M H ?s" using refs_ok_view_imp [OF v assms(2)] .
  have M: "i < M" "i < length (RetransTable ?s)" using i(1) assms(2) view_lengths(2) [OF v] by (simp_all add: refs_ok_def)
  have free: "exchContext (RetransTable ?s ! i) = None" using view_entries(1) [OF v M(2)] i(2) by simp
  have u: "InUse (ctx ?s ec)" using view_contexts(1) [OF v] refs_ok_lengths [OF ok] assms(3,4) by simp
  have step: "gives (WRMPStartTimer env (ExchAddRef ec (upd_entry i (\<lambda>_. e) ?s)) \<bind> (\<lambda>t. Some (WEAVE_NO_ERROR, i, t)))
      (\<lambda>(err, i, t). refs_ok N M H t \<and> table_refs s ec \<le> table_refs t ec \<and>
        (err = WEAVE_NO_ERROR \<longrightarrow> i < M \<and> exchContext (RetransTable t ! i) = Some ec \<and> table_refs s ec < table_refs t ec))"
    if e: "exchContext e = Some ec" "msgBuf e \<noteq> None" for e
  proof -
    let ?t = "ExchAddRef ec (upd_entry i (\<lambda>_. e) ?s)"
    have t: "refs_ok N M H ?t" using refs_ok_use_entry [OF ok assms(3) u assms(5) M(1) free e] .
    have "table_refs ?t ec = Suc (table_refs s ec)"
      using table_refs_put [OF M(2) free e(1), of ec] view_table_refs [OF v, of ec] by (simp add: ExchAddRef_def)
    moreover have "exchContext (RetransTable ?t ! i) = Some ec" using M(2) e(1) by (simp add: ExchAddRef_def upd_entry_def)
    ultimately have "refs_ok N M H u \<and> table_refs s ec \<le> table_refs u ec \<and> table_refs s ec < table_refs u ec \<and> i < M \<and> exchContext (RetransTable u ! i) = Some ec"
      if "refs_view u = refs_view ?t" for u :: "'a ExchangeMgr"
      using refs_ok_view_imp [OF that t] view_table_refs [OF that, of ec] view_entries(1) [OF that, of i] view_lengths(2) [OF that] M
        refs_ok_lengths [OF t] by simp
    then show ?thesis using rv.WRMPStartTimer [OF assms(1), of ?t] by (auto simp: gives_def)
  qed
  show ?thesis unfolding AddToRetransTable_def Some option.case Let_def by (rule step) simp_all
qed

definition live_cons :: "'k ExchangeMgr \<Rightarrow> nat set" where
  "live_cons s = {con. CRefCount (Connections s con) \<noteq> 0}"

lemma view_live_cons: "refs_view s = refs_view t \<Longrightarrow> live_cons s = live_cons t"
  using view_lengths(4) by (auto simp: live_cons_def)

lemma SendFromRetransTable_ok:
  assumes "TimerResult env WRMPTimeout = WEAVE_NO_ERROR" "refs_ok N M H s" "i < M" "exchContext (RetransTable s ! i) = Some ec"
    and rel: "\<And>t. refs_view t = refs_view s \<Longrightarrow> gives (rel ec t) (\<lambda>u. refs_view u = refs_view (drop_ref ec s))"
  shows "gives (SendFromRetransTable rel env i s) (\<lambda>(err, t). refs_ok N M H t \<and> table_refs s ec \<le> Suc (table_refs t ec) \<and> live_cons t = live_cons s)"
proof -
  obtain b where b: "msgBuf (RetransTable s ! i) = Some b" using refs_ok_entry(3) [OF assms(2-4)] by auto
  obtain err s1 where r: "SendEncodedMessage env (PeerAddr (ctx s ec)) (PeerIntf (ctx s ec)) (contents b) 0x80 s = (err, s1)" by fastforce
  let ?t = "upd_entry i (\<lambda>e. e\<lparr>sendCount := sendCount e + 1\<rparr>) s1"
  have v: "refs_view ?t = refs_view s"
    using rv.SendEncodedMessage [of env "PeerAddr (ctx s ec)" "PeerIntf (ctx s ec)" "contents b" "0x80" s] r by (simp add: refs_view_upd_entry)
  have ok: "refs_ok N M H ?t" using refs_ok_view_imp [OF v assms(2)] .
  have li: "i < length (RetransTable ?t)" using refs_ok_lengths [OF ok] assms(3) by simp
  have e: "exchContext (RetransTable ?t ! i) = Some ec" using view_entries(1) [OF v li] assms(4) by simp
  have ecl: "ec < length (ContextPool ?t)" using refs_ok_entry(1) [OF ok assms(3) e] refs_ok_lengths [OF ok] by simp
  have d: "refs_view (drop_ref ec ?t) = refs_view (drop_ref ec s)" using view_drop_ref [OF v ecl] .
  have "gives (ClearEntry rel env i ?t) (\<lambda>u. refs_view u = refs_view (upd_entry i (\<lambda>_. zero_entry) (drop_ref ec ?t)))"
    using rel [of "WRMPExpireTicks ?t"] v d by (intro ClearEntry_view [OF assms(1) e]) simp
  then have c: "gives (ClearEntry rel env i ?t) (\<lambda>u. refs_ok N M H u \<and> table_refs s ec \<le> Suc (table_refs u ec) \<and> live_cons u = live_cons s)"
  proof (rule gives_mono)
    fix u assume u: "refs_view u = refs_view (upd_entry i (\<lambda>_. zero_entry) (drop_ref ec ?t))"
    have "table_refs (drop_ref ec ?t) ec = Suc (table_refs (upd_entry i (\<lambda>_. zero_entry) (drop_ref ec ?t)) ec)"
      using table_refs_zero [of i "drop_ref ec ?t" ec ec] li e by simp
    moreover have "live_cons u = live_cons s" using view_live_cons [OF u] view_live_cons [OF v] by (simp add: live_cons_def)
    ultimately show "refs_ok N M H u \<and> table_refs s ec \<le> Suc (table_refs u ec) \<and> live_cons u = live_cons s"
      using refs_ok_view_imp [OF u refs_ok_clear_entry [OF ok assms(3) e]] view_table_refs [OF u, of ec] view_table_refs [OF v, of ec] by simp
  qed
  show ?thesis unfolding SendFromRetransTable_def assms(4) b option.case Let_def r prod.case
    using ok view_live_cons [OF v] view_table_refs [OF v, of ec] by (auto intro!: gives_bind [OF c])
qed


text \<open>The postcondition of every stage of sending: the references are accounted for and no entry of the context is lost.\<close>

definition sent_ok :: "nat \<Rightarrow> nat \<Rightarrow> (nat \<Rightarrow> nat) \<Rightarrow> nat \<Rightarrow> nat \<Rightarrow> 'k ExchangeMgr \<Rightarrow> bool" where
  "sent_ok N M H ec n t \<longleftrightarrow> refs_ok N M H t \<and> n \<le> table_refs t ec"

lemma sent_ok_view:
  assumes "refs_view t = refs_view s" "sent_ok N M H ec n s"
  shows "sent_ok N M H ec n t"
  using refs_ok_view_imp [OF assms(1)] view_table_refs [OF assms(1), of ec] assms(2) by (simp add: sent_ok_def)

lemma sent_ok_alive:
  assumes "sent_ok N M H ec n s" "ec < N" "0 < H ec"
  shows "InUse (ctx s ec)" "refs_ok N M H s" "n \<le> table_refs s ec"
  using assms refs_ok_in_use(1) [of N M H s ec] by (simp_all add: sent_ok_def)

lemma SendFromRetransTable_dec:
  assumes "rel_dec rel" "TimerResult env WRMPTimeout = WEAVE_NO_ERROR" "refs_ok N M H s" "0 < H ec" "i < M"
    "exchContext (RetransTable s ! i) = Some ec"
  shows "gives (SendFromRetransTable rel env i s) (\<lambda>(err, t). refs_ok N M H t \<and> table_refs s ec \<le> Suc (table_refs t ec))"
proof -
  note e = refs_ok_entry [OF assms(3,5,6)]
  have cnt: "unat (mRefCount (ctx s ec)) = table_refs s ec + H ec" "InUse (ctx s ec)" "mRefCount (ctx s ec) \<noteq> 0"
    using assms(3,4) e(1) by (auto simp: refs_ok_def counts_ok_def)
  have one: "mRefCount (ctx s ec) \<noteq> 1" using cnt(1) e(2) assms(4) by auto
  have rel: "gives (rel ec u) (\<lambda>w. refs_view w = refs_view (drop_ref ec s))" if u: "refs_view u = refs_view s" for u
  proof -
    have l: "ec < length (ContextPool u)" using assms(3) e(1) view_lengths(1) [OF u] by (simp add: refs_ok_def)
    show ?thesis using assms(1) cnt one view_contexts [OF u l] view_drop_ref [OF u l] by (simp add: rel_dec_def)
  qed
  show ?thesis
    by (rule gives_mono [OF SendFromRetransTable_ok [where rel = rel and ec = ec, OF assms(2,3,5,6) rel]]) auto
qed

lemma SendReliably_ok:
  assumes "rel_dec rel" "TimerResult env WRMPTimeout = WEAVE_NO_ERROR" "sent_ok N M H ec n s" "ec < N" "0 < H ec" "H ec + M < 255"
  shows "gives (SendReliably rel env ec m b mc s) (\<lambda>(err, m1, b1, t). sent_ok N M H ec n t)"
proof -
  obtain err d a where r: "SelectDestNodeIdAndAddress (EFabric s) (DestNodeId m) (PeerAddr (ctx s ec)) = (err, d, a)" by (metis prod_cases3)
  let ?s1 = "upd_ctx ec (\<lambda>c. c\<lparr>PeerAddr := a\<rparr>) s"
  obtain err2 m2 b1 f acts where x: "EncodeMessageTo (Plat env) a (m\<lparr>DestNodeId := d\<rparr>) b (EFabric ?s1) = (err2, m2, b1, f, acts)"
    by (metis prod_cases5)
  let ?s2 = "after_encode f acts ?s1"
  have v: "refs_view ?s1 = refs_view s" "refs_view ?s2 = refs_view s" by (simp_all add: refs_view_upd_ctx)
  note ok = sent_ok_view [OF v(1) assms(3)] sent_ok_view [OF v(2) assms(3)]
  note al = sent_ok_alive [OF ok(2) assms(4,5)]
  have send: "gives (SendFromRetransTable rel env i t \<bind> (\<lambda>(err, s4). Some (err, m2, b1, s4))) (\<lambda>(err, m1, b1, t). sent_ok N M H ec n t)"
    if "refs_ok N M H t" "i < M" "exchContext (RetransTable t ! i) = Some ec" "table_refs ?s2 ec < table_refs t ec" for i t
    by (rule gives_bind [OF SendFromRetransTable_dec [OF assms(1,2) that(1) assms(5) that(2,3)]])
      (use that(4) al(3) in \<open>auto simp: sent_ok_def\<close>)
  show ?thesis unfolding SendReliably_def r prod.case Let_def x
    using ok al(3) by (auto intro!: gives_bind [OF AddToRetransTable_ok [OF assms(2) al(2) assms(4) al(1) assms(6)]] send [unfolded sent_ok_def] simp: sent_ok_def)
qed

lemma Transmit_ok:
  assumes "rel_dec rel" "TimerResult env WRMPTimeout = WEAVE_NO_ERROR" "sent_ok N M H ec n s" "ec < N" "0 < H ec" "H ec + M < 255"
  shows "gives (Transmit rel env ec fl m b mc s) (\<lambda>(err, t). sent_ok N M H ec n t)"
proof (cases "Con (ctx s ec) = None \<and> fl AND 0x400 \<noteq> 0")
  case True
  have w: "sent_ok N M H ec n (upd_ctx ec (\<lambda>c. c\<lparr>msg := x\<rparr>) t)" "sent_ok N M H ec n (upd_ctx ec (\<lambda>c. c\<lparr>currentBcastMsgID := y\<rparr>) t)"
    "sent_ok N M H ec n (snd (StartTimerT env ec t))" if "sent_ok N M H ec n t" for x y t
    using that by (auto elim!: sent_ok_view [rotated] simp: refs_view_upd_ctx)
  show ?thesis unfolding Transmit_def using True
    by (auto intro!: gives_bind [OF SendReliably_ok [OF assms]] w simp: Let_def)
next
  case False
  note al = sent_ok_alive [OF assms(3-5)]
  have once: "gives (Transmit rel env ec fl' m b mc s) (\<lambda>(err, t). sent_ok N M H ec n t)" if "fl' AND 0x400 = 0" for fl'
    by (rule gives_mono [OF rv.Transmit_once])
      (use that refs_ok_alive(3,4) [OF al(2) assms(4) al(1)] sent_ok_view [OF _ assms(3)] in \<open>auto simp: con_alive_def\<close>)
  show ?thesis
  proof (cases "fl AND 0x400 = 0")
    case False
    then obtain con where "Con (ctx s ec) = Some con" using \<open>\<not> (Con (ctx s ec) = None \<and> fl AND 0x400 \<noteq> 0)\<close> by auto
    then have "Transmit rel env ec fl m b mc s = Transmit rel env ec 0 m b mc s" by (simp add: Transmit_def)
    then show ?thesis using once [of 0] by simp
  qed (rule once)
qed


lemma SendBody_ok:
  assumes "rel_dec rel" "TimerResult env WRMPTimeout = WEAVE_NO_ERROR" "sent_ok N M H ec n s" "ec < N" "0 < H ec" "H ec + M < 255"
  shows "gives (SendBody rel env ec p ty b fl m mc s) (\<lambda>(err, t). sent_ok N M H ec n t)"
proof -
  obtain err fl' c1 where c: "CheckSend (ctx s ec) p ty b (RequestsAck (ctx s ec) fl) = (err, fl', c1)" by (metis prod_cases3)
  let ?s1 = "upd_ctx ec (\<lambda>_. c1) s"
  have v1: "refs_view ?s1 = refs_view s" by (rule rv.upd_ctx) (simp add: CheckSend_core [OF c])
  note ok1 = sent_ok_view [OF v1 assms(3)]
  have rest: "gives (case ExpectResponse env ec fl' t of (err, s4) \<Rightarrow>
        if err \<noteq> WEAVE_NO_ERROR then Some (err, s4)
        else Transmit rel env ec fl' m' b1 mc s4) (\<lambda>(err, t). sent_ok N M H ec n t)"
    if t: "refs_view t = refs_view s" for t m' b1
  proof -
    obtain e s4 where x: "ExpectResponse env ec fl' t = (e, s4)" by fastforce
    have "sent_ok N M H ec n s4" using rv.ExpectResponse [OF x] t sent_ok_view [OF _ assms(3)] by simp
    then show ?thesis using x Transmit_ok [where H = H, OF assms(1,2) _ assms(4-6)] by auto
  qed
  have e: "gives (EncodeExchHeader env ec p ty b fl' ?s1) (\<lambda>(err, b1, t). refs_view t = refs_view s)"
    using rv.EncodeExchHeader [OF assms(2) TrueI, of ec p ty b fl' ?s1] v1 by simp
  show ?thesis unfolding SendBody_def c prod.case Let_def
    using ok1 by (auto intro!: gives_bind [OF e] rest sent_ok_view [OF _ assms(3)] simp: refs_view_upd_ctx)
qed

lemma SendMessageWith_ok:
  assumes "rel_dec rel" "TimerResult env WRMPTimeout = WEAVE_NO_ERROR" "refs_ok N M H s" "ec < N" "InUse (ctx s ec)" "H ec + M < 254"
  shows "gives (SendMessageWith rel env ec p ty b fl m mc s) (\<lambda>(err, t). refs_ok N M H t)"
proof -
  let ?s = "ExchAddRef ec s" and ?H = "H(ec := Suc (H ec))"
  have cnt: "unat (mRefCount (ctx s ec)) = table_refs s ec + H ec" using assms(3,4) by (simp add: refs_ok_def counts_ok_def)
  have nz: "unat (mRefCount (ctx s ec)) \<noteq> 0" using refs_ok_alive(1) [OF assms(3-5)] by (metis unat_eq_zero)
  have H: "H ec + M < 255" using assms(6) by simp
  have ok: "sent_ok N M ?H ec (table_refs s ec) ?s"
    using refs_ok_add [OF assms(3-5) H] by (simp add: sent_ok_def ExchAddRef_def)
  have "gives (SendBody rel env ec p ty b fl m mc ?s) (\<lambda>(err, t). refs_ok N M ?H t \<and> table_refs s ec \<le> table_refs (drop_ref ec t) ec)"
    by (rule gives_mono [OF SendBody_ok [OF assms(1,2) ok assms(4)]]) (use assms(6) in \<open>auto simp: sent_ok_def\<close>)
  then have "gives (SendMessageWith rel env ec p ty b fl m mc s) (\<lambda>(err, t). refs_ok N M H t \<and> table_refs s ec \<le> table_refs t ec)"
    by (rule SendMessageWith_ends [OF assms(1,3,4,5) H]) (use cnt nz in \<open>auto dest: view_table_refs [where ec = ec]\<close>)
  then show ?thesis by (rule gives_mono) auto
qed

text \<open>Closing, with or without giving up on unacknowledged messages, then releases the caller's reference.\<close>

lemma ClearRetransmitTable_ok:
  assumes "TimerResult env WRMPTimeout = WEAVE_NO_ERROR" "refs_ok N M H s" "\<And>x. H x + M < 255"
  shows "gives (ClearRetransmitTable (Release env) env ec s) (refs_ok N M H)"
  unfolding ClearRetransmitTable_def
  by (rule gives_for_each [where P = "refs_ok N M H", OF assms(2)]) (use refs_ok_lengths [OF assms(2)] ClearEntry_ok [OF assms(1) _ assms(3)] in auto)

lemma DoClose_ok:
  assumes "TimerResult env WRMPTimeout = WEAVE_NO_ERROR" "refs_ok N M H s" "ec < N" "0 < H ec" "\<And>x. H x + M < 255"
  shows "gives (DoClose (Release env) env clear ec s) (refs_ok N M H)"
proof -
  have u: "InUse (ctx s ec)" using refs_ok_in_use(1) [OF assms(2,3)] assms(4) by simp
  let ?s1 = "WRMPExpireTicks (upd_ctx ec (\<lambda>c. c\<lparr>OnMsgRcvd := None, HasOnResponseTimeout := False,
         HasOnRetransmissionTimeout := False, HasOnConnectionClosed := False, HasOnKeyError := False\<rparr>) s)"
  let ?s2 = "upd_ctx ec (\<lambda>c. c\<lparr>HasOnThrottleRcvd := False, HasOnDDRcvd := False, HasOnSendError := False,
         HasOnAckRcvd := False\<rparr>) ?s1"
  have v: "refs_view ?s2 = refs_view s" by (simp add: refs_view_upd_ctx)
  have ok: "refs_ok N M H ?s2" using refs_ok_view_imp [OF v assms(2)] .
  have iu: "InUse (ctx ?s2 ec)" using refs_ok_in_use(1) [OF ok assms(3)] assms(4) by simp
  have f: "gives (WRMPFlushAcks (Release env) env ec ?s2) (\<lambda>(err, t). refs_ok N M H t)"
  proof (cases "IsAckPending (ctx ?s2 ec)")
    case True
    show ?thesis unfolding WRMPFlushAcks_def if_P [OF True]
      by (rule gives_mono [OF SendCommonNullMessage_view [OF rel_dec_Release assms(1) ok assms(3) iu assms(5)]])
        (use refs_ok_view_imp [OF _ ok] in auto)
  qed (simp add: WRMPFlushAcks_def ok)
  have cl: "gives (if clear then ClearRetransmitTable (Release env) env ec t else Some t) (refs_ok N M H)" if "refs_ok N M H t" for t
    using that ClearRetransmitTable_ok [OF assms(1) _ assms(5)] by simp
  have e: "gives (WRMPStartTimer env t \<bind> (\<lambda>s5. Some (CancelResponseTimer ec (TeardownTrickleRetransmit ec s5)))) (refs_ok N M H)"
    if "refs_ok N M H t" for t
    using rv.WRMPStartTimer [OF assms(1), of t] by (auto simp: gives_def intro!: refs_ok_view_imp [OF _ that])
  show ?thesis unfolding DoClose_def Let_def by (auto intro!: gives_bind [OF f] gives_bind [OF cl] e)
qed

lemma Release_ok:
  assumes "TimerResult env WRMPTimeout = WEAVE_NO_ERROR" "refs_ok N M (H(ec := Suc h)) s" "ec < N" "h + M < 254"
  shows "gives (Release env ec s) (refs_ok N M (H(ec := h)))"
proof -
  have u: "InUse (ctx s ec)" using refs_ok_in_use(1) [OF assms(2,3)] by simp
  show ?thesis
    by (rule gives_mono [OF Release_view [OF assms(1,2,3) u]]) (use assms(4) refs_ok_view_imp [OF _ refs_ok_drop [OF assms(2,3)]] in auto)
qed


end
