(* ===== verification/Exchange_Safety.thy ===== *)
theory Exchange_Safety
  imports Exchange_Refs Fabric_Tables Message_Codec
begin

text \<open>
  Every operation of the exchange layer keeps the reference counts right and never aborts.  \<open>H\<close> are the
  references outside the retransmission table: those of the application and, inside an operation, its own.
\<close>

definition room_for :: "(nat \<Rightarrow> nat) \<Rightarrow> nat \<Rightarrow> bool" where
  "room_for H M \<longleftrightarrow> (\<forall>x. H x + M < 250)"

section \<open>The retransmission timer\<close>

lemma refs_ok_upd_ctx:
  assumes "refs_ok N M H s" "\<And>c. InUse (g c) = InUse c" "\<And>c. mRefCount (g c) = mRefCount c" "\<And>c. Con (g c) = Con c"
  shows "refs_ok N M H (upd_ctx ec g s)"
  using refs_ok_view_imp [OF refs_view_upd_ctx assms(1)] assms(2-4) by blast

lemma refs_ok_upd_entry:
  assumes "refs_ok N M H s" "\<And>e. exchContext (g e) = exchContext e" "\<And>e. msgBuf (g e) = msgBuf e"
  shows "refs_ok N M H (upd_entry i g s)"
  using refs_ok_view_imp [OF refs_view_upd_entry assms(1)] assms(2,3) by blast

lemma refs_ok_emit [simp]: "refs_ok N M H (emit e s) \<longleftrightarrow> refs_ok N M H s"
  using refs_ok_view_imp [of "emit e s" s] refs_ok_view_imp [of s "emit e s"] by auto

lemma refs_ok_CancelTimer [simp]: "refs_ok N M H (CancelTimer x s) \<longleftrightarrow> refs_ok N M H s"
  using refs_ok_view_imp [of "CancelTimer x s" s] refs_ok_view_imp [of s "CancelTimer x s"] by auto

lemma refs_ok_WRMPExpireTicks [simp]: "refs_ok N M H (WRMPExpireTicks s) \<longleftrightarrow> refs_ok N M H s"
  using refs_ok_view_imp [of "WRMPExpireTicks s" s] refs_ok_view_imp [of s "WRMPExpireTicks s"] by auto

lemma refs_ok_Now [simp]: "refs_ok N M H (s\<lparr>Now := n\<rparr>) \<longleftrightarrow> refs_ok N M H s"
  using refs_ok_view_imp [of "s\<lparr>Now := n\<rparr>" s] refs_ok_view_imp [of s "s\<lparr>Now := n\<rparr>"] by auto

lemma WRMPStartTimer_ok:
  "\<lbrakk>TimerResult env WRMPTimeout = WEAVE_NO_ERROR; refs_ok N M H s\<rbrakk> \<Longrightarrow> gives (WRMPStartTimer env s) (refs_ok N M H)"
  by (rule gives_mono [OF rv.WRMPStartTimer]) (auto intro: refs_ok_view_imp)

lemma SendCommonNullMessage_ok:
  assumes "TimerResult env WRMPTimeout = WEAVE_NO_ERROR" "refs_ok N M H s" "room_for H M" "ec < N" "InUse (ctx s ec)"
  shows "gives (SendCommonNullMessage (Release env) env ec s) (\<lambda>(err, t). refs_ok N M H t \<and> InUse (ctx t ec))"
proof -
  have H: "H ec + M < 255" using assms(3) by (auto simp: room_for_def dest!: spec [of _ ec])
  have "InUse (ctx t ec)" if "refs_view t = refs_view s" for t
    using view_contexts(1) [OF that] view_lengths(1) [OF that] assms(4,5) refs_ok_lengths [OF assms(2)] by simp
  then show ?thesis
    by (intro gives_mono [OF SendCommonNullMessage_view [OF rel_dec_Release assms(1,2,4,5) H]]) (use refs_ok_view_imp [OF _ assms(2)] in auto)
qed

lemma ClearEntry_ok':
  assumes "TimerResult env WRMPTimeout = WEAVE_NO_ERROR" "refs_ok N M H s" "room_for H M" "i < M"
  shows "gives (ClearEntry (Release env) env i s) (refs_ok N M H)"
  by (rule ClearEntry_ok [OF assms(1,2) _ assms(4)]) (use assms(3) in \<open>auto simp: room_for_def intro: less_trans\<close>)

lemma SendFromRetransTable_any:
  assumes "TimerResult env WRMPTimeout = WEAVE_NO_ERROR" "refs_ok N M H s" "room_for H M" "i < M"
  shows "gives (SendFromRetransTable (Release env) env i s) (\<lambda>(err, t). refs_ok N M H t \<and> live_cons t = live_cons s)"
proof (cases "exchContext (RetransTable s ! i)")
  case None
  then show ?thesis using assms(2) by (simp add: SendFromRetransTable_def)
next
  case (Some ec)
  note e = refs_ok_entry [OF assms(2,4) Some]
  have u: "InUse (ctx s ec)" using refs_ok_in_use(1) [OF assms(2) e(1)] e(2) by simp
  have H: "H ec + M < 255" using assms(3) by (auto simp: room_for_def dest!: spec [of _ ec])
  show ?thesis
    by (rule gives_mono [OF SendFromRetransTable_ok [where rel = "Release env" and ec = ec, OF assms(1,2,4) Some]])
      (use Release_from_view [OF assms(1,2) e(1) u H] in auto)
qed

lemma SendDueAck_ok:
  assumes "TimerResult env WRMPTimeout = WEAVE_NO_ERROR" "refs_ok N M H s" "room_for H M" "ec < N"
  shows "gives (SendDueAck env ec s) (refs_ok N M H)"
  unfolding SendDueAck_def
  using assms(2) by (auto intro!: gives_bind [OF SendCommonNullMessage_ok [OF assms]] refs_ok_upd_ctx simp: flag_setters)

lemma RetransmitDue_ok:
  assumes "TimerResult env WRMPTimeout = WEAVE_NO_ERROR" "refs_ok N M H s" "room_for H M" "i < M"
  shows "gives (RetransmitDue env i s) (refs_ok N M H)"
  unfolding RetransmitDue_def Let_def
  using assms(2) by (auto intro!: gives_bind [OF ClearEntry_ok' [OF assms]] gives_bind [OF SendFromRetransTable_any [OF assms]]
    refs_ok_upd_entry split: option.splits)

lemma WRMPExecuteActions_ok:
  assumes "TimerResult env WRMPTimeout = WEAVE_NO_ERROR" "refs_ok N M H s" "room_for H M"
  shows "gives (WRMPExecuteActions env s) (refs_ok N M H)"
proof -
  have a: "gives (for_each (SendDueAck env) [0..<length (ContextPool s)] s) (refs_ok N M H)"
    by (rule gives_for_each [where P = "refs_ok N M H", OF assms(2)])
      (use SendDueAck_ok [OF assms(1) _ assms(3)] refs_ok_lengths [OF assms(2)] in auto)
  have b: "gives (for_each (RetransmitDue env) [0..<length (RetransTable t)] t) (refs_ok N M H)" if "refs_ok N M H t" for t
    by (rule gives_for_each [where P = "refs_ok N M H", OF that])
      (use RetransmitDue_ok [OF assms(1) _ assms(3)] refs_ok_lengths [OF that] in auto)
  show ?thesis unfolding WRMPExecuteActions_def by (rule gives_bind [OF a b])
qed

lemma WRMPTimeout_ok:
  assumes "TimerResult env WRMPTimeout = WEAVE_NO_ERROR" "refs_ok N M H s" "room_for H M"
  shows "gives (WRMPTimeout_handler env s) (refs_ok N M H)"
  unfolding WRMPTimeout_handler_def
  by (rule gives_bind [OF WRMPExecuteActions_ok [OF assms(1) _ assms(3)] WRMPStartTimer_ok [OF assms(1)]]) (use assms(2) in auto)

section \<open>Receiving\<close>

lemma WRMPHandleRcvdAck_ok:
  assumes "TimerResult env WRMPTimeout = WEAVE_NO_ERROR" "refs_ok N M H s" "room_for H M"
  shows "gives (WRMPHandleRcvdAck env ec h s) (\<lambda>(err, t). refs_ok N M H t)"
proof -
  have "gives (WRMPCheckAndRemRetransTable env ec a s) (\<lambda>(r, t). refs_ok N M H t)" for a
  proof (cases "find (\<lambda>i. exchContext (RetransTable s ! i) = Some ec \<and> msgId (RetransTable s ! i) = a) [0..<length (RetransTable s)]")
    case None
    then show ?thesis using assms(2) by (simp add: WRMPCheckAndRemRetransTable_def)
  next
    case (Some i)
    then have "i < M" using refs_ok_lengths [OF assms(2)] by (auto simp: find_Some_iff)
    then show ?thesis unfolding WRMPCheckAndRemRetransTable_def Some
      by (auto intro!: gives_bind [OF ClearEntry_ok' [OF assms]])
  qed
  then show ?thesis unfolding WRMPHandleRcvdAck_def
    by (rule gives_bind) (auto split: option.splits)
qed

lemma WRMPHandleNeedsAck_ok:
  assumes "TimerResult env WRMPTimeout = WEAVE_NO_ERROR" "refs_ok N M H s" "room_for H M" "ec < N" "0 < H ec"
  shows "gives (WRMPHandleNeedsAck env ec m s) (\<lambda>(err, t). refs_ok N M H t)"
proof -
  let ?s = "WRMPExpireTicks s"
  have ok: "refs_ok N M H ?s" using assms(2) by simp
  have null: "gives (SendCommonNullMessage (Release env) env ec t) (\<lambda>(err, t). refs_ok N M H t)" if t: "refs_ok N M H t" for t
    by (rule gives_mono [OF SendCommonNullMessage_ok [OF assms(1) t assms(3,4)]])
      (use refs_ok_in_use(1) [OF t assms(4)] assms(5) in auto)
  have fin: "gives (WRMPStartTimer env t \<bind> (\<lambda>s2. Some (err, s2))) (\<lambda>(err, t). refs_ok N M H t)" if "refs_ok N M H t" for t err
    by (rule gives_bind [OF WRMPStartTimer_ok [OF assms(1) that]]) simp
  have upd: "refs_ok N M H (upd_ctx ec (\<lambda>e. SetAckPending v (e\<lparr>mPendingPeerAckId := x\<rparr>)) t)"
    "refs_ok N M H (upd_ctx ec (\<lambda>e. SetAckPending v (e\<lparr>mPendingPeerAckId := x, mWRMPNextAckTime := y\<rparr>)) t)"
    "refs_ok N M H (upd_ctx ec (\<lambda>e. e\<lparr>mPendingPeerAckId := x\<rparr>) t)" if "refs_ok N M H t" for t v x y
    using refs_ok_upd_ctx [OF that] by (simp_all add: flag_setters)
  show ?thesis unfolding WRMPHandleNeedsAck_def Let_def
    by (rule gives_bind [where P = "\<lambda>(err, t). refs_ok N M H t"])
      (auto intro!: gives_bind [OF null] null fin upd ok)
qed

lemma HandleThrottleFlow_ok:
  assumes "TimerResult env WRMPTimeout = WEAVE_NO_ERROR" "refs_ok N M H s"
  shows "gives (HandleThrottleFlow env ec p s) (refs_ok N M H)"
  unfolding HandleThrottleFlow_def Let_def
  by (rule WRMPStartTimer_ok [OF assms(1)]) (auto intro!: refs_ok_upd_ctx refs_ok_upd_entry simp: assms(2) split: option.splits)

lemma HandleMessageBody_ok:
  assumes "TimerResult env WRMPTimeout = WEAVE_NO_ERROR" "refs_ok N M H s" "room_for H M" "ec < N" "0 < H ec" "4 \<le> length (raw_bytes b)"
  shows "gives (HandleMessageBody env ec m h b um s) (\<lambda>(err, t). refs_ok N M H t)"
proof -
  have pr: "refs_ok N M H (upd_ctx ec (SetPeerRequestedAck True) t)" "refs_ok N M H (upd_ctx ec (SetResponseExpected False) t)"
    if "refs_ok N M H t" for t using refs_ok_upd_ctx [OF that] by (simp_all add: flag_setters)
  note na = WRMPHandleNeedsAck_ok [OF assms(1) _ assms(3-5)]
  have a: "gives (if c then WRMPHandleRcvdAck env ec h s else Some (WEAVE_NO_ERROR, s)) (\<lambda>(err, t). refs_ok N M H t)" for c
    using WRMPHandleRcvdAck_ok [OF assms(1-3)] assms(2) by simp
  have n: "gives (if c then WRMPHandleNeedsAck env ec m' t else Some (err, t)) (\<lambda>(err, t). refs_ok N M H t)" if "refs_ok N M H t" for c m' t err
    using na that by simp
  have th: "gives (HandleThrottleFlow env ec x t \<bind> (\<lambda>s4. Some (WEAVE_NO_ERROR, s4))) (\<lambda>(err, t). refs_ok N M H t)" if "refs_ok N M H t" for x t
    by (rule gives_bind [OF HandleThrottleFlow_ok [OF assms(1) that]]) simp
  have tail: "gives (if d then Some (WEAVE_NO_ERROR, t)
     else if e then if length (raw_bytes b) < 4 then None
          else HandleThrottleFlow env ec (fst (Read32 (raw_bytes b))) t \<bind> (\<lambda>s4. Some (WEAVE_NO_ERROR, s4))
     else if f then Some (WEAVE_NO_ERROR, t)
     else case (if um \<noteq> None then um else OnMsgRcvd (ctx (upd_ctx ec (SetResponseExpected False) (CancelResponseTimer ec t)) ec)) of
         None \<Rightarrow> Some (err, upd_ctx ec (SetResponseExpected False) (CancelResponseTimer ec t))
       | Some handler \<Rightarrow> Some (err, emit (AppMessage handler ec m' p ty bs) (upd_ctx ec (SetResponseExpected False) (CancelResponseTimer ec t))))
      (\<lambda>(err, t). refs_ok N M H t)" if t: "refs_ok N M H t" for d e f t err m' p ty bs
    using t assms(6) by (auto intro!: th pr simp: CancelResponseTimer_def split: option.splits)
  show ?thesis unfolding HandleMessageBody_def Let_def
    apply (rule gives_bind [OF a])
    apply (simp only: split_beta)
    apply (rule gives_bind [OF n])
     apply (use pr in auto)[1]
    apply (simp only: split_beta)
    apply (rule tail)
    apply simp
    done
qed

lemma HandleMessage_ok:
  assumes "TimerResult env WRMPTimeout = WEAVE_NO_ERROR" "refs_ok N M H s" "\<And>x. H x + M < 249" "ec < N" "InUse (ctx s ec)" "4 \<le> length (raw_bytes b)"
  shows "gives (HandleMessage env ec m h b um s) (\<lambda>(err, t). refs_ok N M H t)"
proof -
  let ?H = "H(ec := Suc (H ec))"
  have b: "H ec + M < 249" using assms(3) .
  have "refs_ok N M ?H (ExchAddRef ec s)" using b by (intro refs_ok_add [OF assms(2,4,5)]) simp
  moreover have r: "room_for ?H M" unfolding room_for_def
  proof
    fix x show "?H x + M < 250" using assms(3) [of x] b by (cases "x = ec") simp_all
  qed
  ultimately have body: "gives (HandleMessageBody env ec m h b um (ExchAddRef ec s)) (\<lambda>(err, t). refs_ok N M ?H t)"
    using HandleMessageBody_ok [OF assms(1) _ r assms(4) _ assms(6)] by simp
  have rel: "gives (Release env ec t \<bind> (\<lambda>s2. Some (err, s2))) (\<lambda>(err, t). refs_ok N M H t)" if "refs_ok N M ?H t" for t err
    by (rule gives_bind [OF Release_ok [OF assms(1) that assms(4)]]) (use b in simp_all)
  show ?thesis unfolding HandleMessage_def by (rule gives_bind [OF body]) (auto intro: rel)
qed

section \<open>Creating and closing contexts\<close>

lemma AllocContext_ok:
  assumes "refs_ok N M H s" "AllocContext s = (r, t)"
  shows "case r of None \<Rightarrow> t = s | Some ec \<Rightarrow> ec < N \<and> H ec = 0 \<and> \<not> InUse (ctx s ec) \<and> refs_ok N M (H(ec := 1)) t \<and> InUse (ctx t ec) \<and>
    Connections t = Connections s"
proof (cases "find (\<lambda>i. \<not> InUse (ctx s i)) [0..<length (ContextPool s)]")
  case None
  then show ?thesis using assms(2) by (auto simp: AllocContext_def)
next
  case (Some ec)
  have ec: "ec < length (ContextPool s)" "\<not> InUse (ctx s ec)" using Some by (auto simp: find_Some_iff)
  obtain Z where Z: "Z = zero_context\<lparr>InUse := True, mRefCount := 1\<rparr>" "InUse Z" "mRefCount Z = 1" "Con Z = None"
    by (auto simp: zero_context_def)
  have r: "r = Some ec" "t = (upd_ctx ec (\<lambda>_. Z) s)\<lparr>mContextsInUse := mContextsInUse s + 1\<rparr>"
    using assms(2) Some Z(1) by (simp_all add: AllocContext_def)
  have N: "length (ContextPool s) = N" using assms(1) by (simp add: refs_ok_def)
  have z: "unat (mRefCount (ctx s ec)) = table_refs s ec + H ec" "mRefCount (ctx s ec) = 0"
    using assms(1) ec by (auto simp: refs_ok_def counts_ok_def)
  have c: "ctx t x = (if x = ec then Z else ctx s x)" for x
    using ctx_upd_ctx [OF ec(1)] r(2) by (simp add: ctx_def)
  have f: "RetransTable t = RetransTable s" "Connections t = Connections s" "length (ContextPool t) = length (ContextPool s)"
    "mContextsInUse t = Suc (mContextsInUse s)" using r(2) by simp_all
  have tr: "table_refs t x = table_refs s x" for x using f by (simp add: table_refs_def)
  have u: "in_use t = insert ec (in_use s)" using c f ec(1) Z by (auto simp: in_use_def)
  have "counts_ok (H(ec := 1)) t" unfolding counts_ok_def f tr c
    using assms(1) z Z by (auto simp: refs_ok_def counts_ok_def)
  moreover have "cons_ok t" unfolding cons_ok_def u f c using assms(1) Z ec(2) by (auto simp: refs_ok_def cons_ok_def)
  moreover have "mContextsInUse t = card (in_use t)"
    using assms(1) ec(2) u f by (simp add: refs_ok_def in_use_def)
  ultimately have "refs_ok N M (H(ec := 1)) t" using assms(1) f unfolding refs_ok_def entries_ok_def by auto
  then show ?thesis using r z ec N c Z f by simp
qed


lemma refs_ok_upd_con:
  assumes "refs_ok N M H s" "\<And>c. InUse (g c) = InUse c" "\<And>c. mRefCount (g c) = mRefCount c"
    "\<And>con. Con (g (ctx s ec)) = Some con \<Longrightarrow> CRefCount (Connections s con) \<noteq> 0"
  shows "refs_ok N M H (upd_ctx ec g s)"
proof (cases "ec < length (ContextPool s)")
  case False
  then show ?thesis using assms(1) by (simp add: upd_ctx_def list_update_beyond)
next
  case True
  note c = ctx_upd_ctx [OF True, of g]
  have u: "in_use (upd_ctx ec g s) = in_use s" using c assms(2) by (auto simp: in_use_def)
  have "counts_ok H (upd_ctx ec g s)" using assms(1-3) c by (auto simp: refs_ok_def counts_ok_def)
  moreover have "cons_ok (upd_ctx ec g s)" unfolding cons_ok_def u using assms(1,4) c by (auto simp: refs_ok_def cons_ok_def)
  ultimately show ?thesis using assms(1) u by (auto simp: refs_ok_def entries_ok_def)
qed

lemma Close_ok:
  assumes "TimerResult env WRMPTimeout = WEAVE_NO_ERROR" "refs_ok N M (H(ec := Suc h)) s" "ec < N" "room_for (H(ec := Suc h)) M"
  shows "gives (Close_ec env ec s) (refs_ok N M (H(ec := h)))" "gives (Abort_ec env ec s) (refs_ok N M (H(ec := h)))"
proof -
  have b: "(H(ec := Suc h)) x + M < 255" for x using assms(4) by (auto simp: room_for_def dest!: spec [of _ x])
  have u: "InUse (ctx s ec)" "mRefCount (ctx s ec) \<noteq> 0" using refs_ok_in_use [OF assms(2,3)] by simp_all
  have d: "gives (DoClose (Release env) env cl ec s) (refs_ok N M (H(ec := Suc h)))" for cl
    by (rule DoClose_ok [OF assms(1-3) _ b]) simp
  have h: "h + M < 254" using b [of ec] by simp
  have "gives (DoClose (Release env) env cl ec s \<bind> Release env ec) (refs_ok N M (H(ec := h)))" for cl
    by (rule gives_bind [OF d]) (rule Release_ok [OF assms(1) _ assms(3) h])
  then show "gives (Close_ec env ec s) (refs_ok N M (H(ec := h)))" "gives (Abort_ec env ec s) (refs_ok N M (H(ec := h)))"
    using u by (simp_all add: Close_ec_def Abort_ec_def)
qed

lemma InitContext_frame:
  "InUse (InitContext con pkt m h umh a c) = InUse c" "mRefCount (InitContext con pkt m h umh a c) = mRefCount c"
  "Con (InitContext con pkt m h umh a c) = con"
  by (simp_all add: InitContext_def Let_def flag_setters split: option.splits)

text \<open>One more reference to a context, if there is one.\<close>

definition give :: "nat option \<Rightarrow> (nat \<Rightarrow> nat) \<Rightarrow> nat \<Rightarrow> nat" where
  "give r H = (case r of None \<Rightarrow> H | Some ec \<Rightarrow> H(ec := Suc (H ec)))"

lemma give_simps [simp]: "give None H = H" "give (Some ec) H = H(ec := Suc (H ec))"
  by (simp_all add: give_def)

text \<open>The counts after the application was given a reference to a context it had none to.\<close>

definition handed :: "nat \<Rightarrow> nat \<Rightarrow> (nat \<Rightarrow> nat) \<Rightarrow> nat option \<Rightarrow> 'k ExchangeMgr \<Rightarrow> bool" where
  "handed N M H r t \<longleftrightarrow> refs_ok N M (give r H) t \<and> (case r of None \<Rightarrow> True | Some ec \<Rightarrow> ec < N \<and> H ec = 0)"

lemma handed_None [simp]: "handed N M H None t = refs_ok N M H t"
  by (simp add: handed_def)

text \<open>
  The context that is made for an unsolicited message for which a handler is registered: it is the application's, also if the message is one
  that \<^verbatim>\<open>HandleMessage\<close> keeps to itself.
\<close>

definition unsolicited_owner :: "nat option \<Rightarrow> WeaveMessageInfo \<Rightarrow> WeaveExchangeHeader \<Rightarrow> 'k ExchangeMgr \<Rightarrow> nat option" where
  "unsolicited_owner msgCon m h s =
     (let dupMsg = (Flags m AND kWeaveMessageFlag_DuplicateMessage \<noteq> 0);
          msgNeedsAck = (HFlags h AND kWeaveExchangeFlag_NeedsAck \<noteq> 0);
          notSynced = (Flags m AND kWeaveMessageFlag_PeerGroupMsgIdNotSynchronized \<noteq> 0)
      in case (if HFlags h AND kWeaveExchangeFlag_Initiator \<noteq> 0 then FindUMH msgCon dupMsg h None (UMHandlerPool s) else None) of
           None \<Rightarrow> None
         | Some u \<Rightarrow> if msgNeedsAck \<and> dupMsg \<and> \<not> UAllowDuplicateMsgs u \<and> \<not> notSynced then None else fst (AllocContext s))"

lemma HandleUnsolicited_ok:
  assumes "TimerResult env WRMPTimeout = WEAVE_NO_ERROR" "refs_ok N M H s" "\<And>x. H x + M < 248" "4 \<le> length (raw_bytes b)" "M < 248"
    "\<And>con. msgCon = Some con \<Longrightarrow> CRefCount (Connections s con) \<noteq> 0"
  shows "gives (HandleUnsolicited env msgCon pkt m h b s) (\<lambda>(err, t). handed N M H (unsolicited_owner msgCon m h s) t)"
proof -
  have run: "gives (HandleMessage env ec m h b um (upd_ctx ec (InitContext msgCon pkt m h umh a) t) \<bind>
      (\<lambda>(uu, s2). (if a then Close_ec env ec s2 else Some s2) \<bind> (\<lambda>s3. Some (WEAVE_NO_ERROR, s3))))
      (\<lambda>(err, t). handed N M H (if a then None else Some ec) t)"
    if A: "AllocContext s = (Some ec, t)" for ec t a um umh
  proof -
    let ?H = "H(ec := 1)" and ?t = "upd_ctx ec (InitContext msgCon pkt m h umh a) t"
    have al: "ec < N" "H ec = 0" "refs_ok N M ?H t" "InUse (ctx t ec)" "Connections t = Connections s"
      using AllocContext_ok [OF assms(2) A] by auto
    have ok: "refs_ok N M ?H ?t"
      using assms(6) by (intro refs_ok_upd_con [OF al(3)]) (simp_all add: InitContext_frame al(5))
    have b: "?H x + M < 249" for x using assms(3) [of x] assms(5) by simp
    have u: "InUse (ctx ?t ec)" using refs_ok_in_use(1) [OF ok al(1)] by simp
    have room: "room_for (H(ec := Suc 0)) M" unfolding room_for_def
    proof
      fix x show "(H(ec := Suc 0)) x + M < 250" using assms(3) [of x] assms(5) by simp
    qed
    have H0: "H(ec := 0) = H" using al(2) by auto
    have cl: "gives (Close_ec env ec w) (refs_ok N M H)" if "refs_ok N M ?H w" for w
      using Close_ok(1) [OF assms(1) _ al(1) room] that H0 by simp
    have fin: "gives ((if a then Close_ec env ec w else Some w) \<bind> (\<lambda>s3. Some (WEAVE_NO_ERROR, s3)))
        (\<lambda>(err, t). handed N M H (if a then None else Some ec) t)" if w: "refs_ok N M ?H w" for w
    proof (cases a)
      case True
      show ?thesis unfolding if_P [OF True] by (rule gives_bind [OF cl [OF w]]) simp
    next
      case False
      then show ?thesis using w al(1,2) by (simp add: handed_def)
    qed
    show ?thesis by (rule gives_bind [OF HandleMessage_ok [where H = ?H, OF assms(1) ok b al(1) u assms(4)]]) (simp only: split_beta fin)
  qed
  show ?thesis
  proof (cases "AllocContext s")
    case (Pair r t)
    show ?thesis
    proof (cases r)
      case None
      then have "t = s" using AllocContext_ok [OF assms(2) Pair] by simp
      then show ?thesis using assms(2) Pair None by (auto simp: HandleUnsolicited_def unsolicited_owner_def Let_def split: option.split)
    next
      case (Some ec)
      define umh where "umh = (if HFlags h AND kWeaveExchangeFlag_Initiator \<noteq> 0
        then FindUMH msgCon (Flags m AND kWeaveMessageFlag_DuplicateMessage \<noteq> 0) h None (UMHandlerPool s) else None)"
      define a where "a = (HFlags h AND kWeaveExchangeFlag_NeedsAck \<noteq> 0 \<and>
        (umh = None \<or> ((Flags m AND kWeaveMessageFlag_DuplicateMessage \<noteq> 0) \<and> \<not> UAllowDuplicateMsgs (the umh))) \<and>
        \<not> (Flags m AND kWeaveMessageFlag_PeerGroupMsgIdNotSynchronized \<noteq> 0))"
      have own: "unsolicited_owner msgCon m h s = (if umh \<noteq> None \<and> \<not> a then Some ec else None)"
        unfolding unsolicited_owner_def Let_def umh_def [symmetric] a_def using Pair Some by (cases umh) auto
      have init: "HFlags h AND kWeaveExchangeFlag_Initiator \<noteq> 0" if "umh \<noteq> None" using that by (simp add: umh_def split: if_splits)
      show ?thesis unfolding own HandleUnsolicited_def Let_def Pair umh_def [symmetric] a_def [symmetric]
        using assms(2) run [where ec = ec and t = t and a = a and umh = umh] Pair Some init by (cases "umh = None"; cases a) simp_all
    qed
  qed
qed

lemma RetransPendingAppGroupMsgs_ok:
  assumes "TimerResult env WRMPTimeout = WEAVE_NO_ERROR" "refs_ok N M H s" "room_for H M"
  shows "gives (RetransPendingAppGroupMsgs env peer s) (\<lambda>t. refs_ok N M H t \<and> live_cons t = live_cons s)"
  unfolding RetransPendingAppGroupMsgs_def
proof (rule gives_for_each [where P = "\<lambda>t. refs_ok N M H t \<and> live_cons t = live_cons s"])
  show "refs_ok N M H s \<and> live_cons s = live_cons s" using assms(2) by simp
  fix i and t :: "'a ExchangeMgr" assume "i \<in> set [0..<length (RetransTable s)]" and tt: "refs_ok N M H t \<and> live_cons t = live_cons s"
  then have i: "i < M" and t: "refs_ok N M H t" using refs_ok_lengths [OF assms(2)] by simp_all
  have "refs_ok N M H (upd_entry i (\<lambda>e. e\<lparr>sendCount := sendCount e - 1\<rparr>) t)" by (rule refs_ok_upd_entry [OF t]) simp_all
  note s = SendFromRetransTable_any [OF assms(1) this assms(3) i]
  show "gives (case exchContext (RetransTable t ! i) of None \<Rightarrow> Some t
      | Some ec \<Rightarrow>
          if EPeerNodeId (ctx t ec) = peer \<and> IsAppGroupKey (ucast (EKeyId (ctx t ec)))
          then SendFromRetransTable (Release env) env i (upd_entry i (\<lambda>e. e\<lparr>sendCount := sendCount e - 1\<rparr>) t) \<bind> (\<lambda>(err, t1). Some t1)
          else Some t) (\<lambda>t. refs_ok N M H t \<and> live_cons t = live_cons s)"
    using tt by (auto intro!: gives_bind [OF s] simp: live_cons_def split: option.splits)
qed


section \<open>Dispatch\<close>

lemma DispatchCounterSync_ok:
  assumes "TimerResult env WRMPTimeout = WEAVE_NO_ERROR" "refs_ok N M H s" "room_for H M"
  shows "gives (DispatchCounterSync env m h b s) (\<lambda>(r, t). refs_ok N M H t \<and> live_cons t = live_cons s)"
proof -
  have l: "live_cons (emit e t) = live_cons t" for e and t :: "'a ExchangeMgr" by (simp add: live_cons_def emit_def)
  have r: "gives (RetransPendingAppGroupMsgs env peer t \<bind> (\<lambda>u. Some (v, u))) (\<lambda>(r, t). refs_ok N M H t \<and> live_cons t = live_cons s)"
    if "refs_ok N M H t" "live_cons t = live_cons s" for peer t v
    by (rule gives_bind [OF RetransPendingAppGroupMsgs_ok [OF assms(1) that(1) assms(3)]]) (use that(2) in simp)
  show ?thesis unfolding DispatchCounterSync_def Let_def using assms(2) by (auto intro!: r simp: l)
qed

lemma WRMPProcessDDMessage_ok:
  assumes "TimerResult env WRMPTimeout = WEAVE_NO_ERROR" "refs_ok N M H s"
  shows "gives (WRMPProcessDDMessage env p n s) (refs_ok N M H)"
  unfolding WRMPProcessDDMessage_def Let_def
  by (rule gives_bind [OF gives_for_each [where P = "refs_ok N M H"] WRMPStartTimer_ok [OF assms(1)]])
    (use assms(2) in \<open>auto intro!: refs_ok_upd_entry split: option.splits\<close>)

lemma DecodeExchHeader_room:
  assumes "DecodeExchHeader h0 buf = (WEAVE_NO_ERROR, h, b)" "Start buf + 24 \<le> length (block buf)"
  shows "12 \<le> length (raw_bytes b)"
proof -
  have "b = SetStart (int (Start buf + 12)) buf \<or> b = SetStart (int (Start buf + 8)) buf"
    using assms(1) by (auto simp: DecodeExchHeader_def Let_def split: prod.splits if_splits)
  then show ?thesis using assms(2) by (auto simp: raw_bytes_def Start_def SetStart_def Let_def AllocSize_def nat_add_distrib)
qed

text \<open>The context whose reference a received message gives to the application, if any.\<close>

definition dispatch_owner ::
  "'k ExchEnv \<Rightarrow> nat option \<Rightarrow> WeaveMessageInfo \<Rightarrow> PacketBuffer \<Rightarrow> 'k ExchangeMgr \<Rightarrow> nat option" where
  "dispatch_owner env msgCon m buf s =
     (case DecodeExchHeader \<lparr>HVersion = 0, HFlags = 0, HExchangeId = 0, HProfileId = 0, HMessageType = 0, HAckMsgId = 0\<rparr> buf of (err, h, b) \<Rightarrow>
        if err \<noteq> WEAVE_NO_ERROR \<or> MessageVersion m \<noteq> kWeaveMessageVersion_V1 \<and> MessageVersion m \<noteq> kWeaveMessageVersion_V2 then None
        else case DispatchCounterSync env m h b s of
            None \<Rightarrow> None
          | Some (isResp, s1) \<Rightarrow>
              if isResp \<or> HProfileId h = kWeaveProfile_Common \<and> HMessageType h = kMsgType_WRMP_Delayed_Delivery \<or>
                 (\<exists>i < length (ContextPool s1). InUse (ctx s1 i) \<and> MatchExchange (LocalNodeId (EFabric s1)) msgCon m h (ctx s1 i))
              then None else unsolicited_owner msgCon m h s1)"

lemma DispatchMessage_ok:
  assumes "TimerResult env WRMPTimeout = WEAVE_NO_ERROR" "refs_ok N M H s" "\<And>x. H x + M < 248" "M < 248" "Start buf + 24 \<le> length (block buf)"
    "\<And>con. msgCon = Some con \<Longrightarrow> CRefCount (Connections s con) \<noteq> 0"
  shows "gives (DispatchMessage env msgCon pkt m buf s) (\<lambda>(err, t). handed N M H (dispatch_owner env msgCon m buf s) t)"
proof -
  obtain err h b where d: "DecodeExchHeader \<lparr>HVersion = 0, HFlags = 0, HExchangeId = 0, HProfileId = 0, HMessageType = 0, HAckMsgId = 0\<rparr> buf = (err, h, b)"
    by (metis prod_cases3)
  have room: "room_for H M" using assms(3) by (auto simp: room_for_def intro: less_trans)
  show ?thesis
  proof (cases "err = WEAVE_NO_ERROR \<and> (MessageVersion m = kWeaveMessageVersion_V1 \<or> MessageVersion m = kWeaveMessageVersion_V2)")
    case False
    then show ?thesis unfolding DispatchMessage_def dispatch_owner_def d using assms(2) by auto
  next
    case True
    then have e: "err = WEAVE_NO_ERROR" by simp
    have raw: "12 \<le> length (raw_bytes b)" using DecodeExchHeader_room [OF d [unfolded e] assms(5)] .
    obtain isResp t where cs: "DispatchCounterSync env m h b s = Some (isResp, t)" and t: "refs_ok N M H t" "live_cons t = live_cons s"
      using DispatchCounterSync_ok [OF assms(1,2) room, of m h b] by (auto simp: gives_def)
    let ?match = "\<lambda>i. InUse (ctx t i) \<and> MatchExchange (LocalNodeId (EFabric t)) msgCon m h (ctx t i)"
    have own: "dispatch_owner env msgCon m buf s = (if isResp \<or> HProfileId h = kWeaveProfile_Common \<and> HMessageType h = kMsgType_WRMP_Delayed_Delivery \<or>
        (\<exists>i < length (ContextPool t). ?match i) then None else unsolicited_owner msgCon m h t)"
      using True by (auto simp: dispatch_owner_def d cs)
    have dd: "gives (WRMPProcessDDMessage env p n t \<bind> (\<lambda>s2. Some (WEAVE_NO_ERROR, s2))) (\<lambda>(err, t). refs_ok N M H t)" for p n
      by (rule gives_bind [OF WRMPProcessDDMessage_ok [OF assms(1) t(1)]]) simp
    have hm: "gives (HandleMessage env ec m h b None (upd_ctx ec (SetMsgRcvdFromPeer True) t) \<bind> (\<lambda>(uu, s2). Some (WEAVE_NO_ERROR, s2)))
        (\<lambda>(err, t). refs_ok N M H t)" if ec: "ec < N" "InUse (ctx t ec)" for ec
    proof -
      let ?t = "upd_ctx ec (SetMsgRcvdFromPeer True) t"
      have ok: "refs_ok N M H ?t" by (rule refs_ok_upd_ctx [OF t(1)]) (simp_all add: flag_setters)
      have u: "InUse (ctx ?t ec)" using ec refs_ok_lengths [OF t(1)] by (simp add: ctx_upd_ctx flag_setters)
      have H: "H x + M < 249" for x using assms(3) [of x] by simp
      show ?thesis by (rule gives_bind [OF HandleMessage_ok [OF assms(1) ok H ec(1) u]]) (use raw in auto)
    qed
    have un: "gives (HandleUnsolicited env msgCon pkt m h b t) (\<lambda>(err, u). handed N M H (unsolicited_owner msgCon m h t) u)"
      using raw assms(6) t(2) by (intro HandleUnsolicited_ok [OF assms(1) t(1) assms(3) _ assms(4)]) (auto simp: live_cons_def)
    have match: "gives (case find ?match [0..<length (ContextPool t)] of
          Some ec \<Rightarrow> HandleMessage env ec m h b None (upd_ctx ec (SetMsgRcvdFromPeer True) t) \<bind> (\<lambda>(uu, s2). Some (WEAVE_NO_ERROR, s2))
        | None \<Rightarrow> HandleUnsolicited env msgCon pkt m h b t)
        (\<lambda>(err, u). handed N M H (if \<exists>i < length (ContextPool t). ?match i then None else unsolicited_owner msgCon m h t) u)"
    proof (cases "find ?match [0..<length (ContextPool t)]")
      case None
      then have neg: "(\<exists>i < length (ContextPool t). ?match i) = False" by (auto simp: find_None_iff)
      show ?thesis unfolding neg if_False using None un by simp
    next
      case (Some ec)
      then have ec: "ec < length (ContextPool t)" "?match ec" by (auto simp: find_Some_iff)
      then have pos: "(\<exists>i < length (ContextPool t). ?match i) = True" by blast
      show ?thesis unfolding pos if_True using Some hm [of ec] ec refs_ok_lengths [OF t(1)] by simp
    qed
    let ?dd = "HProfileId h = kWeaveProfile_Common \<and> HMessageType h = kMsgType_WRMP_Delayed_Delivery"
    have eq: "DispatchMessage env msgCon pkt m buf s = (if isResp then Some (WEAVE_NO_ERROR, t)
        else if ?dd then if Flags m AND kWeaveMessageFlag_DuplicateMessage \<noteq> 0 then Some (WEAVE_NO_ERROR, t)
          else WRMPProcessDDMessage env (fst (Read32 (raw_bytes b))) (fst (Read64 (drop 4 (raw_bytes b)))) t \<bind> (\<lambda>s2. Some (WEAVE_NO_ERROR, s2))
        else case find ?match [0..<length (ContextPool t)] of
          Some ec \<Rightarrow> HandleMessage env ec m h b None (upd_ctx ec (SetMsgRcvdFromPeer True) t) \<bind> (\<lambda>(uu, s2). Some (WEAVE_NO_ERROR, s2))
        | None \<Rightarrow> HandleUnsolicited env msgCon pkt m h b t)"
      using True raw by (auto simp: DispatchMessage_def d cs)
    consider "isResp" | "\<not> isResp" "?dd" | "\<not> isResp" "\<not> ?dd" by blast
    then show ?thesis
    proof cases
      case 1
      then show ?thesis unfolding eq own using t(1) by simp
    next
      case 2
      then have "dispatch_owner env msgCon m buf s = None" using own by simp
      then show ?thesis unfolding eq using t(1) dd 2 by simp
    next
      case 3
      then have o: "dispatch_owner env msgCon m buf s = (if \<exists>i < length (ContextPool t). ?match i then None else unsolicited_owner msgCon m h t)"
        unfolding own by (simp only: simp_thms)
      show ?thesis unfolding eq o using match 3 by (simp only: if_False simp_thms)
    qed
  qed
qed


section \<open>The other operations\<close>

lemma NewContext_ok:
  assumes "refs_ok N M H s" "NewContext p a po i st s = (r, t)"
  shows "handed N M H r t \<and> live_cons t = live_cons s"
proof (cases "AllocContext s")
  case (Pair r' u)
  note A = AllocContext_ok [OF assms(1) Pair]
  show ?thesis
  proof (cases r')
    case None
    then show ?thesis using A assms Pair by (auto simp: NewContext_def)
  next
    case (Some ec)
    let ?g = "\<lambda>c. SetDropAck False (SetMsgRcvdFromPeer False (SetAckPending False (SetInitiator True
             (c\<lparr>EExchangeId := NextExchangeId u, EPeerNodeId := p, PeerAddr := a,
               PeerPort := (if po \<noteq> 0 then po else WEAVE_PORT), PeerIntf := i, AppState := st,
               mMsgProtocolVersion := 0, mWRMPNextAckTime := 0, mWRMPConfig := gDefaultWRMPConfig, mWRMPThrottleTimeout := 0,
               HasOnThrottleRcvd := False, HasOnDDRcvd := False, HasOnAckRcvd := False, HasOnSendError := False\<rparr>))))"
    have t: "r = Some ec" "t = (upd_ctx ec ?g u)\<lparr>NextExchangeId := NextExchangeId u + 1\<rparr>"
      using assms(2) Pair Some by (simp_all add: NewContext_def)
    have "refs_view (upd_ctx ec ?g u) = refs_view u" by (rule refs_view_upd_ctx) (simp_all add: flag_setters)
    then have v: "refs_view t = refs_view u" using t(2) by (simp add: refs_view_def)
    have "live_cons t = live_cons s" using A Some view_live_cons [OF v] by (simp add: live_cons_def)
    then show ?thesis using A Some t(1) refs_ok_view_imp [OF v] by (simp add: handed_def)
  qed
qed

lemma NewContextOnConnection_ok:
  assumes "refs_ok N M H s" "con \<in> live_cons s" "NewContextOnConnection con st s = (r, t)"
  shows "handed N M H r t"
proof -
  let ?c = "Connections s con"
  obtain r' u where n: "NewContext (CPeerNodeId ?c) (CPeerAddr ?c) (CPeerPort ?c) 0 st s = (r', u)" by fastforce
  note A = NewContext_ok [OF assms(1) n]
  show ?thesis
  proof (cases r')
    case None
    then show ?thesis using A n assms(3) by (simp add: NewContextOnConnection_def Let_def)
  next
    case (Some ec)
    have A': "refs_ok N M (H(ec := 1)) u" using A Some by (auto simp: handed_def)
    have "CRefCount (Connections u con) \<noteq> 0" using A assms(2) by (auto simp: live_cons_def)
    then have "refs_ok N M (H(ec := 1)) (upd_ctx ec (\<lambda>e. e\<lparr>Con := Some con, EKeyId := DefaultKeyId ?c, EEncryptionType := DefaultEncryptionType ?c\<rparr>) u)"
      using A' by (intro refs_ok_upd_con) simp_all
    then show ?thesis using A n assms(3) Some by (auto simp: NewContextOnConnection_def Let_def handed_def)
  qed
qed

lemma FailRetransmitTableEntries_ok:
  assumes "TimerResult env WRMPTimeout = WEAVE_NO_ERROR" "refs_ok N M H s" "room_for H M"
  shows "gives (FailRetransmitTableEntries env ec err s) (refs_ok N M H)"
  unfolding FailRetransmitTableEntries_def
  by (rule gives_for_each [where P = "refs_ok N M H", OF assms(2)])
    (use refs_ok_lengths [OF assms(2)] in \<open>auto intro!: gives_bind [OF ClearEntry_ok' [OF assms(1) _ assms(3)]]\<close>)

lemma NotifySecureSessionFailed_ok:
  assumes "TimerResult env WRMPTimeout = WEAVE_NO_ERROR" "refs_ok N M H s" "\<And>x. H x + M < 249"
  shows "gives (NotifySecureSessionFailed env peer key err isKey s) (refs_ok N M H)"
proof -
  have one: "gives (FailRetransmitTableEntries env ec err (ExchAddRef ec t) \<bind>
      (\<lambda>t1. Release env ec (if isKey \<and> HasOnKeyError (ctx t1 ec) then emit (AppKeyError ec err) t1 else t1))) (refs_ok N M H)"
    if t: "refs_ok N M H t" "ec < N" "InUse (ctx t ec)" for ec t
  proof -
    let ?H = "H(ec := Suc (H ec))"
    have b: "H ec + M < 249" using assms(3) .
    have ok: "refs_ok N M ?H (ExchAddRef ec t)" using b by (intro refs_ok_add [OF t]) simp
    have r: "room_for ?H M" unfolding room_for_def
    proof
      fix x show "?H x + M < 250" using assms(3) [of x] b by (cases "x = ec") simp_all
    qed
    have rel: "gives (Release env ec u) (refs_ok N M H)" if "refs_ok N M ?H u" for u
      using Release_ok [OF assms(1) that t(2)] b by simp
    show ?thesis by (rule gives_bind [OF FailRetransmitTableEntries_ok [OF assms(1) ok r]]) (auto intro: rel)
  qed
  show ?thesis unfolding NotifySecureSessionFailed_def
  proof (rule gives_bind [OF gives_for_each [where P = "refs_ok N M H", OF assms(2)]])
    fix i and t :: "'a ExchangeMgr" assume "i \<in> set [0..<length (ContextPool s)]" and t: "refs_ok N M H t"
    then have "i < N" using refs_ok_lengths [OF assms(2)] by simp
    then show "gives (if InUse (ctx t i) \<and> EKeyId (ctx t i) = key \<and> EPeerNodeId (ctx t i) = peer
        then FailRetransmitTableEntries env i err (ExchAddRef i t) \<bind>
          (\<lambda>t1. Release env i (if isKey \<and> HasOnKeyError (ctx t1 i) then emit (AppKeyError i err) t1 else t1))
        else Some t) (refs_ok N M H)"
      using one [OF t] t by simp
  qed simp
qed

text \<open>When a connection is closed no context refers to it any more, so that it can be freed.\<close>

lemma ExchHandleConnectionClosed_ok:
  assumes "refs_ok N M H s"
  shows "gives (ExchHandleConnectionClosed con err s) (\<lambda>t. refs_ok N M H t \<and> (\<forall>ec \<in> in_use t. Con (ctx t ec) \<noteq> Some con))"
proof -
  let ?body = "\<lambda>ec t. if InUse (ctx t ec) \<and> Con (ctx t ec) = Some con
        then let t1 = upd_ctx ec (\<lambda>c. (SetConnectionClosed True c)\<lparr>Con := None\<rparr>) t
             in Some (if HasOnConnectionClosed (ctx t1 ec) then emit (AppConnectionClosed ec con err) t1 else t1)
        else Some t"
  let ?P = "\<lambda>k t. refs_ok N M H t \<and> (\<forall>ec < k. InUse (ctx t ec) \<longrightarrow> Con (ctx t ec) \<noteq> Some con)"
  have step: "gives (?body k t) (?P (Suc k))" if "?P k t" "k < N" for k and t :: "'a ExchangeMgr"
  proof (cases "InUse (ctx t k) \<and> Con (ctx t k) = Some con")
    case True
    let ?t = "upd_ctx k (\<lambda>c. (SetConnectionClosed True c)\<lparr>Con := None\<rparr>) t"
    have "refs_ok N M H ?t" using that(1) by (intro refs_ok_upd_con) (simp_all add: flag_setters)
    moreover have "\<forall>ec < Suc k. InUse (ctx ?t ec) \<longrightarrow> Con (ctx ?t ec) \<noteq> Some con"
      using that refs_ok_lengths [of N M H t] by (auto simp: ctx_upd_ctx less_Suc_eq)
    moreover have "ctx (emit e u) x = ctx u x" for e x and u :: "'a ExchangeMgr" by (simp add: ctx_def emit_def)
    ultimately show ?thesis using True by (simp add: Let_def)
  next
    case False
    then show ?thesis using that by (auto simp: less_Suc_eq)
  qed
  have len: "length (ContextPool s) = N" using refs_ok_lengths [OF assms] by simp
  have l: "gives (for_each ?body [0..<length (ContextPool s)] s) (?P N)" unfolding len
    by (rule gives_for_upt [where P = ?P]) (use assms step in auto)
  have fin: "refs_ok N M H (t\<lparr>UMHandlerPool := x\<rparr>) \<and> (\<forall>ec \<in> in_use (t\<lparr>UMHandlerPool := x\<rparr>). Con (ctx (t\<lparr>UMHandlerPool := x\<rparr>) ec) \<noteq> Some con)"
    if "?P N t" for t x
  proof -
    have "refs_view (t\<lparr>UMHandlerPool := x\<rparr>) = refs_view t" by (simp add: refs_view_def)
    then have "refs_ok N M H (t\<lparr>UMHandlerPool := x\<rparr>)" using refs_ok_view_imp that by blast
    then show ?thesis using that refs_ok_lengths [of N M H t] by (auto simp: in_use_def ctx_def)
  qed
  show ?thesis unfolding ExchHandleConnectionClosed_def by (rule gives_bind [OF l]) (use fin in simp)
qed

lemma ExchangeMgr_Shutdown_ok:
  assumes "TimerResult env WRMPTimeout = WEAVE_NO_ERROR" "refs_ok N M H s" "room_for H M"
  shows "gives (ExchangeMgr_Shutdown env s) (refs_ok N M H)"
  unfolding ExchangeMgr_Shutdown_def
  by (rule gives_for_each [where P = "refs_ok N M H"])
    (use assms(2) refs_ok_lengths [OF assms(2)] ClearEntry_ok' [OF assms(1) _ assms(3)] in \<open>auto simp: WRMPStopTimer_def\<close>)


section \<open>Runs\<close>

text \<open>
  What can happen to an exchange manager: calls of the application, the retransmission timer, received
  messages, the passing of time, and the end of sessions and connections.  A closed connection is freed.
\<close>

datatype ExchOp =
    OpNew u64 IPAddress u16 nat nat
  | OpNewOnConnection nat nat
  | OpAddRef nat
  | OpSend nat u32 u8 PacketBuffer u16 nat
  | OpClose nat
  | OpAbort nat
  | OpRelease nat
  | OpTime u64
  | OpTimeout
  | OpDispatch "nat option" "ExchPacketInfo option" WeaveMessageInfo PacketBuffer
  | OpSessionFailed u64 u16 WEAVE_ERROR bool
  | OpConnectionClosed nat WEAVE_ERROR

definition free_connection :: "nat \<Rightarrow> 'k ExchangeMgr \<Rightarrow> 'k ExchangeMgr" where
  "free_connection con s = s\<lparr>Connections := (Connections s)(con := (Connections s con)\<lparr>CRefCount := 0\<rparr>)\<rparr>"

fun exec :: "'k ExchEnv \<Rightarrow> ExchOp \<Rightarrow> 'k ExchangeMgr \<Rightarrow> 'k ExchangeMgr option" where
  "exec env (OpNew peer addr port intf st) s = Some (snd (NewContext peer addr port intf st s))"
| "exec env (OpNewOnConnection con st) s = Some (snd (NewContextOnConnection con st s))"
| "exec env (OpAddRef ec) s = Some (ExchAddRef ec s)"
| "exec env (OpSend ec p ty b fl mc) s = map_option snd (SendMessage env ec p ty b fl mc s)"
| "exec env (OpClose ec) s = Close_ec env ec s"
| "exec env (OpAbort ec) s = Abort_ec env ec s"
| "exec env (OpRelease ec) s = Release env ec s"
| "exec env (OpTime t) s = Some (s\<lparr>Now := t\<rparr>)"
| "exec env OpTimeout s = WRMPTimeout_handler env s"
| "exec env (OpDispatch con pkt m b) s = map_option snd (DispatchMessage env con pkt m b s)"
| "exec env (OpSessionFailed peer key err isKey) s = NotifySecureSessionFailed env peer key err isKey s"
| "exec env (OpConnectionClosed con err) s = map_option (free_connection con) (ExchHandleConnectionClosed con err s)"

text \<open>
  The references of the application, counted by what it was given and gave back: a context it opens or a handler of it is called with, and
  \<^verbatim>\<open>AddRef\<close>, are one more; \<^verbatim>\<open>Close\<close>, \<^verbatim>\<open>Abort\<close> and \<^verbatim>\<open>Release\<close> are one less.
\<close>

fun holds :: "'k ExchEnv \<Rightarrow> ExchOp \<Rightarrow> 'k ExchangeMgr \<Rightarrow> (nat \<Rightarrow> nat) \<Rightarrow> nat \<Rightarrow> nat" where
  "holds env (OpNew peer addr port intf st) s H = give (fst (NewContext peer addr port intf st s)) H"
| "holds env (OpNewOnConnection con st) s H = give (fst (NewContextOnConnection con st s)) H"
| "holds env (OpAddRef ec) s H = give (Some ec) H"
| "holds env (OpClose ec) s H = H(ec := H ec - 1)"
| "holds env (OpAbort ec) s H = H(ec := H ec - 1)"
| "holds env (OpRelease ec) s H = H(ec := H ec - 1)"
| "holds env (OpDispatch con pkt m b) s H = give (dispatch_owner env con m b s) H"
| "holds env _ s H = H"

text \<open>
  What the application has to respect: it uses and gives back only references it has, at most 200 for each context.
  A message comes in a buffer with some room behind its header, over a connection that is still there.
\<close>

fun allowed :: "ExchOp \<Rightarrow> (nat \<Rightarrow> nat) \<Rightarrow> 'k ExchangeMgr \<Rightarrow> bool" where
  "allowed (OpNewOnConnection con st) H s = (con \<in> live_cons s)"
| "allowed (OpAddRef ec) H s = (0 < H ec \<and> H ec < 200)"
| "allowed (OpSend ec p ty b fl mc) H s = (0 < H ec)"
| "allowed (OpClose ec) H s = (0 < H ec)"
| "allowed (OpAbort ec) H s = (0 < H ec)"
| "allowed (OpRelease ec) H s = (0 < H ec)"
| "allowed (OpDispatch con pkt m b) H s = (Start b + 24 \<le> length (block b) \<and> (\<forall>c. con = Some c \<longrightarrow> c \<in> live_cons s))"
| "allowed _ H s = True"

text \<open>The states a manager can reach, with the references the application then has.\<close>

inductive exch_run :: "nat \<Rightarrow> nat \<Rightarrow> (nat \<Rightarrow> nat) \<Rightarrow> 'k ExchangeMgr \<Rightarrow> bool" for N M where
  start: "exch_run N M (\<lambda>_. 0) (ExchangeMgr_Init fabric cons rand now N M K)"
| step: "\<lbrakk>exch_run N M H s; allowed op H s; TimerResult env WRMPTimeout = WEAVE_NO_ERROR; exec env op s = Some t\<rbrakk>
    \<Longrightarrow> exch_run N M (holds env op s H) t"

definition run_ok :: "nat \<Rightarrow> nat \<Rightarrow> (nat \<Rightarrow> nat) \<Rightarrow> 'k ExchangeMgr \<Rightarrow> bool" where
  "run_ok N M H s \<longleftrightarrow> refs_ok N M H s \<and> (\<forall>ec. H ec \<le> 200) \<and> (\<forall>ec. N \<le> ec \<longrightarrow> H ec = 0)"

lemma run_ok_handed: "\<lbrakk>run_ok N M H s; handed N M H r t\<rbrakk> \<Longrightarrow> run_ok N M (give r H) t"
  by (cases r) (auto simp: run_ok_def handed_def)

lemma run_ok_init: "run_ok N M (\<lambda>_. 0) (ExchangeMgr_Init fabric cons rand now N M K)"
  by (simp add: run_ok_def refs_ok_def entries_ok_def counts_ok_def cons_ok_def in_use_def ctx_def table_refs_def ExchangeMgr_Init_def
      zero_context_def zero_entry_def cong: conj_cong)

lemma free_connection_ok:
  assumes "refs_ok N M H s" "\<forall>ec \<in> in_use s. Con (ctx s ec) \<noteq> Some con"
  shows "refs_ok N M H (free_connection con s)"
  using assms by (auto simp: refs_ok_def entries_ok_def counts_ok_def cons_ok_def in_use_def ctx_def table_refs_def free_connection_def)

lemma exec_ok:
  assumes run: "run_ok N M H s" and M: "M \<le> 40" and "allowed op H s" and T: "TimerResult env WRMPTimeout = WEAVE_NO_ERROR"
  shows "gives (exec env op s) (run_ok N M (holds env op s H))"
proof -
  have ok: "refs_ok N M H s" and le: "H x \<le> 200" for x using run by (auto simp: run_ok_def)
  have b: "H x + M < 241" for x using le [of x] M by simp
  have room: "room_for H M" unfolding room_for_def
  proof
    fix x show "H x + M < 250" using b [of x] by simp
  qed
  have keep: "run_ok N M H t" if "refs_ok N M H t" for t :: "'a ExchangeMgr" using that run by (simp add: run_ok_def)
  have own: "ec < N" "InUse (ctx s ec)" if "0 < H ec" for ec
  proof -
    show "ec < N" using that run by (metis linorder_not_le less_irrefl run_ok_def)
    then show "InUse (ctx s ec)" using refs_ok_in_use(1) [OF ok] that by simp
  qed
  have gone: "gives m (run_ok N M (H(ec := H ec - 1)))"
    if pos: "0 < H ec" and giveback: "\<And>h. \<lbrakk>refs_ok N M (H(ec := Suc h)) s; ec < N; room_for (H(ec := Suc h)) M; H ec = Suc h\<rbrakk> \<Longrightarrow> gives m (refs_ok N M (H(ec := h)))" for ec m
  proof -
    obtain h where h: "H ec = Suc h" using pos by (cases "H ec") auto
    then have e: "H(ec := Suc h) = H" by auto
    have "gives m (refs_ok N M (H(ec := h)))" using giveback [of h] ok own(1) [OF pos] room h unfolding e by simp
    then show ?thesis using run h le [of ec] by (elim gives_mono) (auto simp: run_ok_def)
  qed
  show ?thesis
  proof (cases op)
    case (OpNew peer addr port intf st)
    obtain r t where n: "NewContext peer addr port intf st s = (r, t)" by fastforce
    have "run_ok N M (give r H) t" using NewContext_ok [OF ok n] by (intro run_ok_handed [OF run]) simp
    then show ?thesis using OpNew n by simp
  next
    case (OpNewOnConnection con st)
    obtain r t where n: "NewContextOnConnection con st s = (r, t)" by fastforce
    have live: "con \<in> live_cons s" using assms(3) OpNewOnConnection by simp
    have "run_ok N M (give r H) t" by (rule run_ok_handed [OF run NewContextOnConnection_ok [OF ok live n]])
    then show ?thesis using OpNewOnConnection n by simp
  next
    case (OpAddRef ec)
    have a: "0 < H ec" "H ec < 200" using assms(3) OpAddRef by simp_all
    have "refs_ok N M (H(ec := Suc (H ec))) (ExchAddRef ec s)" using b [of ec] by (intro refs_ok_add [OF ok own [OF a(1)]]) simp
    then show ?thesis using OpAddRef run a own(1) [OF a(1)] by (auto simp: run_ok_def)
  next
    case (OpSend ec p ty bu fl mc)
    have pos: "0 < H ec" using assms(3) OpSend by simp
    have "gives (SendMessageWith (Release env) env ec p ty bu fl (OwnMessageInfo s ec) mc s) (\<lambda>(err, t). run_ok N M H t)"
      by (rule gives_mono [OF SendMessageWith_ok [OF rel_dec_Release T ok own [OF pos]]]) (use b [of ec] keep in auto)
    then show ?thesis using OpSend by (auto simp: SendMessage_def gives_map_option gives_def)
  next
    case (OpClose ec)
    have pos: "0 < H ec" using assms(3) OpClose by simp
    show ?thesis unfolding OpClose exec.simps holds.simps by (rule gone [OF pos]) (auto intro!: Close_ok(1) [OF T])
  next
    case (OpAbort ec)
    have pos: "0 < H ec" using assms(3) OpAbort by simp
    show ?thesis unfolding OpAbort exec.simps holds.simps by (rule gone [OF pos]) (auto intro!: Close_ok(2) [OF T])
  next
    case (OpRelease ec)
    have pos: "0 < H ec" using assms(3) OpRelease by simp
    show ?thesis unfolding OpRelease exec.simps holds.simps by (rule gone [OF pos]) (use b [of ec] in \<open>auto intro!: Release_ok [OF T]\<close>)
  next
    case (OpTime t)
    then show ?thesis using keep [of "s\<lparr>Now := t\<rparr>"] ok by simp
  next
    case OpTimeout
    show ?thesis unfolding OpTimeout exec.simps holds.simps by (rule gives_mono [OF WRMPTimeout_ok [OF T ok room] keep])
  next
    case (OpDispatch con pkt m bu)
    have a: "Start bu + 24 \<le> length (block bu)" "\<And>c. con = Some c \<Longrightarrow> CRefCount (Connections s c) \<noteq> 0"
      using assms(3) OpDispatch by (auto simp: live_cons_def)
    have b': "H x + M < 248" for x using b [of x] by simp
    have "gives (DispatchMessage env con pkt m bu s) (\<lambda>(err, t). run_ok N M (give (dispatch_owner env con m bu s) H) t)"
      by (rule gives_mono [OF DispatchMessage_ok [OF T ok b' _ a]]) (use M run_ok_handed [OF run] in auto)
    then show ?thesis using OpDispatch by (auto simp: gives_map_option gives_def)
  next
    case (OpSessionFailed peer key err isKey)
    have b': "H x + M < 249" for x using b [of x] by simp
    show ?thesis unfolding OpSessionFailed exec.simps holds.simps by (rule gives_mono [OF NotifySecureSessionFailed_ok [OF T ok b'] keep])
  next
    case (OpConnectionClosed con err)
    show ?thesis unfolding OpConnectionClosed exec.simps holds.simps gives_map_option
      by (rule gives_mono [OF ExchHandleConnectionClosed_ok [OF ok]]) (use free_connection_ok keep in blast)
  qed
qed


lemma exch_run_ok: "\<lbrakk>exch_run N M H s; M \<le> 40\<rbrakk> \<Longrightarrow> run_ok N M H s"
proof (induction rule: exch_run.induct)
  case (step H s op env t)
  then show ?case using exec_ok [of N M H s op env] by (simp add: gives_def)
qed (rule run_ok_init)

text \<open>A manager with one context and one entry of the table, and an exchange that an application opened on it.\<close>

definition sample_world :: "unit ExchEnv" where
  "sample_world = \<lparr>Plat = sample_env, UdpResult = (\<lambda>_. WEAVE_NO_ERROR), TcpResult = (\<lambda>_. WEAVE_NO_ERROR), TimerResult = (\<lambda>_. WEAVE_NO_ERROR),
     NewBuffer = (\<lambda>_. Some sample_buf), GetRandU32 = (\<lambda>_. 0), mDropMessage = False, HasIPv4UDP = False, HasIPv6UDP = True,
     IsBoundToLocalIPv6Address = False, mInterfaces = [], mIPv6UDPLocalAddr = []\<rparr>"

definition no_connection :: WeaveConnection where
  "no_connection = \<lparr>CState = ConClosed, CPeerNodeId = 0, SendSourceNodeId = False, SendDestNodeId = False, CRefCount = 0,
     CPeerAddr = Any, CPeerPort = 0, DefaultKeyId = 0, DefaultEncryptionType = 0, HooksExchangeMgr = False\<rparr>"

definition sample_exchange :: "unit ExchangeMgr" where
  "sample_exchange = snd (NewContext 2 \<lparr>Addr0 = 0xFD, Addr1 = 0, Addr2 = 0, Addr3 = 2\<rparr> 11095 0 0
     (ExchangeMgr_Init (blank_fabric 1) (\<lambda>_. no_connection) 5 0 1 1 1))"

definition sample_refs :: "nat \<Rightarrow> nat" where
  "sample_refs = (\<lambda>_. 0)(0 := 1)"

lemma sample_exchange_run: "exch_run 1 1 sample_refs sample_exchange"
proof -
  let ?init = "ExchangeMgr_Init (blank_fabric 1) (\<lambda>_. no_connection) 5 0 1 1 1 :: unit ExchangeMgr"
  let ?op = "OpNew 2 \<lparr>Addr0 = 0xFD, Addr1 = 0, Addr2 = 0, Addr3 = 2\<rparr> 11095 0 0"
  have "fst (NewContext 2 \<lparr>Addr0 = 0xFD, Addr1 = 0, Addr2 = 0, Addr3 = 2\<rparr> 11095 0 0 ?init) = Some 0" by code_simp
  then have "holds sample_world ?op ?init (\<lambda>_. 0) = sample_refs" by (simp add: sample_refs_def)
  then show ?thesis
    using exch_run.step [where op = ?op and env = sample_world and t = sample_exchange, OF exch_run.start [of 1 1 "blank_fabric 1" "\<lambda>_. no_connection" 5 0 1]]
    by (simp add: sample_exchange_def sample_world_def)
qed



end
