(* ===== verification/Exchange_Retrans.thy ===== *)
theory Exchange_Retrans
  imports Exchange_Safety
begin

section \<open>Between ticks\<close>

text \<open>
  Everything the retransmission timer depends on.  While no tick is due, sending an acknowledgment or closing a
  context leaves it alone.
\<close>

definition timing_view :: "'k ExchangeMgr \<Rightarrow> RetransTableEntry list \<times> WRMPConfig list \<times> u64 \<times> u64 \<times> u16" where
  "timing_view s = (RetransTable s, map mWRMPConfig (ContextPool s), Now s, mWRMPTimeStampBase s, mWRMPTimerInterval s)"

definition ticks_due :: "RetransTableEntry list \<times> WRMPConfig list \<times> u64 \<times> u64 \<times> u16 \<Rightarrow> u16" where
  "ticks_due v = (case v of (table, configs, now, base, interval) \<Rightarrow> ucast ((ucast (now - base) :: u32) div ucast interval))"

abbreviation idle :: "'k ExchangeMgr \<Rightarrow> bool" where
  "idle s \<equiv> ticks_due (timing_view s) = 0"

lemma elapse_0 [simp]: "elapse 0 t = t"
  by (simp add: elapse_def)

lemma ExpireRetrans_0: "ExpireRetrans 0 es pool = (es, pool)"
proof (induction "0 :: u16" es pool rule: ExpireRetrans.induct)
  case (2 e es pool)
  have "pool[ec := (pool ! ec)\<lparr>mWRMPThrottleTimeout := mWRMPThrottleTimeout (pool ! ec)\<rparr>] = pool" for ec
    by (metis ExchangeContext.surjective ExchangeContext.update_convs(33) list_update_id)
  then show ?case using 2 by (simp split: option.splits)
qed simp

lemma WRMPExpireTicks_idle: "idle s \<Longrightarrow> WRMPExpireTicks s = s"
proof -
  assume i: "idle s"
  have "ExpireAcks 0 (ContextPool s) = ContextPool s" unfolding ExpireAcks_def by (rule map_idI) simp
  then show ?thesis using i by (simp add: WRMPExpireTicks_def Let_def GetTickCounterFromTimeDelta_def ticks_due_def timing_view_def ExpireRetrans_0)
qed

interpretation tv: quiet_view "\<lambda>s. (refs_view s, timing_view s)" "\<lambda>v. ticks_due (snd v) = 0"
proof
  fix s t :: "'a ExchangeMgr" and g and ec
  show "(refs_view (upd_ctx ec g s), timing_view (upd_ctx ec g s)) = (refs_view s, timing_view s)" if "core (g (ctx s ec)) = core (ctx s ec)"
    using that rv.upd_ctx [where g = g and s = s and ec = ec] by (simp add: timing_view_def upd_ctx_def core_def ctx_def map_update_same)
  show "(refs_view (WRMPExpireTicks s), timing_view (WRMPExpireTicks s)) = (refs_view s, timing_view s)"
    if "ticks_due (snd (refs_view s, timing_view s)) = 0" using that WRMPExpireTicks_idle [of s] by simp
  show "con_alive s ec \<longleftrightarrow> con_alive t ec" if "(refs_view s, timing_view s) = (refs_view t, timing_view t)"
    using that rv.alive by blast
qed (auto simp: refs_view_def timing_view_def emit_def after_encode_def)

lemma timing_upd_ctx: "(\<And>c. mWRMPConfig (g c) = mWRMPConfig c) \<Longrightarrow> timing_view (upd_ctx ec g s) = timing_view s"
  by (simp add: timing_view_def upd_ctx_def map_update_same)

lemma timing_refs [simp]: "timing_view (ExchAddRef ec s) = timing_view s" "timing_view (drop_ref ec s) = timing_view s"
proof -
  have u: "timing_view (s\<lparr>mContextsInUse := n\<rparr>) = timing_view s" for n and s :: "'a ExchangeMgr" by (simp add: timing_view_def)
  show "timing_view (ExchAddRef ec s) = timing_view s" by (simp add: ExchAddRef_def timing_upd_ctx)
  show "timing_view (drop_ref ec s) = timing_view s" by (simp add: drop_ref_def u timing_upd_ctx)
qed

lemma SendOnce_timing:
  assumes "rel_dec rel" "TimerResult env WRMPTimeout = WEAVE_NO_ERROR" "refs_ok N M H s" "ec < N" "InUse (ctx s ec)" "H ec + M < 255"
    "RequestsAck (ctx s ec) fl AND 0x400 = 0" "idle s"
  shows "gives (SendMessageWith rel env ec p ty b fl m mc s) (\<lambda>(err, t). timing_view t = timing_view s)"
proof -
  note al = refs_ok_alive [OF assms(3-5)]
  let ?s = "ExchAddRef ec s" and ?v = "\<lambda>s. (refs_view s, timing_view s)"
  have c: "ctx ?s ec = (ctx s ec)\<lparr>mRefCount := mRefCount (ctx s ec) + 1\<rparr>" using ExchAddRef_ctx al(4) .
  have l: "ec < length (ContextPool ?s)" using al(4) by (simp add: ExchAddRef_def)
  have fl: "RequestsAck (ctx ?s ec) fl AND 0x400 = 0" using assms(7) unfolding c by (simp add: RequestsAck_def split: if_splits)
  have less: "unat (mRefCount (ctx s ec)) < 255" using al(2) assms(6) by simp
  have r: "InUse (ctx ?s ec)" "mRefCount (ctx ?s ec) \<noteq> 0" "mRefCount (ctx ?s ec) \<noteq> 1"
    using assms(5) al(1) unat_Suc_u8 [OF less] unfolding c by auto
  have fin: "gives (rel ec t) (\<lambda>u. timing_view u = timing_view s)" if t: "?v t = ?v ?s" for t
  proof -
    have "refs_view t = refs_view ?s" using t by simp
    note x = view_contexts [OF this] view_lengths(1) [OF this]
    have "rel ec t = Some (drop_ref ec t)" using assms(1) r x l by (simp add: rel_dec_def)
    then show ?thesis using t by simp
  qed
  have fin': "gives (rel ec (if b then upd_ctx ec (SetResponseExpected False) (CancelTimer x t) else t)) (\<lambda>u. timing_view u = timing_view s)"
    if t: "?v t = ?v ?s" for b t x
  proof -
    have "?v (upd_ctx ec (SetResponseExpected False) (CancelTimer x t)) = ?v t"
      using tv.upd_ctx [where g = "SetResponseExpected False" and s = "CancelTimer x t" and ec = ec] tv.CancelTimer [of x t]
      by (simp add: flag_setters core_def)
    then show ?thesis using fin [OF t] fin t by simp
  qed
  have body: "gives (SendBody rel env ec p ty b fl m mc ?s) (\<lambda>(err, t). ?v t = ?v ?s)"
    using al(3) fl l assms(8) by (intro tv.SendBody_once [OF assms(2)]) (auto simp: con_alive_def c, simp add: ExchAddRef_def)
  show ?thesis unfolding SendMessageWith_def Let_def
    using assms(5) al(1) by (auto intro!: gives_bind [OF body] gives_bind [OF fin'])
qed

lemma SendCommonNullMessage_timing:
  assumes "rel_dec rel" "TimerResult env WRMPTimeout = WEAVE_NO_ERROR" "refs_ok N M H s" "ec < N" "InUse (ctx s ec)" "H ec + M < 255" "idle s"
  shows "gives (SendCommonNullMessage rel env ec s) (\<lambda>(err, t). timing_view t = timing_view s)"
proof (cases "NewBuffer env (events s)")
  case (Some b)
  show ?thesis unfolding SendCommonNullMessage_def Some
    by (auto intro!: gives_bind [OF SendOnce_timing [OF assms(1-6) null_flags assms(7)]])
qed (simp add: SendCommonNullMessage_def)

lemma Release_timing:
  assumes "TimerResult env WRMPTimeout = WEAVE_NO_ERROR" "refs_ok N M H s" "ec < N" "InUse (ctx s ec)" "H ec + M < 255" "idle s"
  shows "gives (Release env ec s) (\<lambda>t. timing_view t = timing_view s)"
proof (cases "mRefCount (ctx s ec) = 1")
  case False
  have "Release env ec s = Some (drop_ref ec s)"
    using rel_dec_Release [of env] False refs_ok_alive(1) [OF assms(2-4)] assms(4) by (simp add: rel_dec_def)
  then show ?thesis by simp
next
  case True
  let ?v = "\<lambda>s. (refs_view s, timing_view s)"
  have "gives (DoClose (ReleaseN 1 env) env False ec s) (\<lambda>t. ?v t = ?v s)"
  proof (rule tv.DoClose [OF assms(1)])
    fix t :: "'a ExchangeMgr" assume t: "?v t = ?v s"
    have v: "refs_view t = refs_view s" using t by simp
    have ok: "refs_ok N M H t" using refs_ok_view_imp [OF v assms(2)] .
    have iu: "InUse (ctx t ec)" using view_contexts(1) [OF v] refs_ok_lengths [OF ok] assms(3,4) by simp
    have rel: "rel_dec (ReleaseN 1 env)" using rel_dec_ReleaseN [of 0] by simp
    show "gives (WRMPFlushAcks (ReleaseN 1 env) env ec t) (\<lambda>(err, u). ?v u = ?v s)"
      using gives_conj [OF SendCommonNullMessage_view [OF rel assms(1) ok assms(3) iu assms(5)]
          SendCommonNullMessage_timing [OF rel assms(1) ok assms(3) iu assms(5)]] t assms(6)
      by (auto simp: WRMPFlushAcks_def gives_def)
  qed (use assms(6) in simp)
  then have c: "gives (DoClose (ReleaseN 1 env) env False ec s) (\<lambda>t. timing_view t = timing_view s)" by (rule gives_mono) simp
  have f: "timing_view ((upd_ctx ec (\<lambda>c. c\<lparr>mRefCount := 0, InUse := False\<rparr>) t)\<lparr>mContextsInUse := n\<rparr>) = timing_view t" for t :: "'a ExchangeMgr" and n
    using timing_upd_ctx [of "\<lambda>c. c\<lparr>mRefCount := 0, InUse := False\<rparr>" ec t] by (simp add: timing_view_def)
  show ?thesis unfolding Release_def numeral_2_eq_2 ReleaseN.simps(2) [of "Suc 0"]
    using True assms(4) by (auto intro!: gives_bind [OF c [unfolded One_nat_def]] simp del: ReleaseN.simps simp: f)
qed

section \<open>One round of the timer\<close>

lemma timing_put: "timing_view s = timing_view t \<Longrightarrow> timing_view (upd_entry i (\<lambda>_. e) s) = timing_view (upd_entry i (\<lambda>_. e) t)"
  by (simp add: timing_view_def upd_entry_def)

lemma timing_idle: "timing_view s = timing_view t \<Longrightarrow> idle s \<longleftrightarrow> idle t"
  by simp

lemma idle_upd_entry: "idle (upd_entry i g s) \<longleftrightarrow> idle s"
  by (simp add: timing_view_def ticks_due_def)

lemma WRMPStartTimer_timing:
  assumes "TimerResult env WRMPTimeout = WEAVE_NO_ERROR"
  shows "gives (WRMPStartTimer env s) (\<lambda>t. timing_view t = timing_view s)"
  by (rule gives_mono [OF tv.WRMPStartTimer [OF assms]]) simp

lemma ClearEntry_timing:
  assumes "TimerResult env WRMPTimeout = WEAVE_NO_ERROR" "refs_ok N M H s" "room_for H M" "i < M" "idle s"
    "exchContext (RetransTable s ! i) = Some ec"
  shows "gives (ClearEntry (Release env) env i s) (\<lambda>t. timing_view t = timing_view (upd_entry i (\<lambda>_. zero_entry) s))"
proof -
  note e = refs_ok_entry [OF assms(2,4,6)]
  have u: "InUse (ctx s ec)" using refs_ok_in_use(1) [OF assms(2) e(1)] e(2) by simp
  have b: "H ec + M < 255" using assms(3) by (auto simp: room_for_def dest!: spec [of _ ec])
  have "gives (WRMPStartTimer env (upd_entry i (\<lambda>_. zero_entry) t)) (\<lambda>t. timing_view t = timing_view (upd_entry i (\<lambda>_. zero_entry) s))"
    if "timing_view t = timing_view s" for t
    using gives_mono [OF WRMPStartTimer_timing [OF assms(1)]] timing_put [OF that] by simp
  then show ?thesis unfolding ClearEntry_def assms(6) option.case WRMPExpireTicks_idle [OF assms(5)]
    by (rule gives_bind [OF Release_timing [OF assms(1,2) e(1) u b assms(5)]])
qed

text \<open>What a round does to an entry whose time has come.\<close>

definition retried :: "WRMPConfig list \<Rightarrow> RetransTableEntry \<Rightarrow> RetransTableEntry \<Rightarrow> bool" where
  "retried configs e e' \<longleftrightarrow>
     (case exchContext e of
        None \<Rightarrow> e' = e
      | Some ec \<Rightarrow> exchContext e' = None \<or>
          sendCount e \<le> mMaxRetrans (configs ! ec) \<and> sendCount e' = sendCount e + 1 \<and> exchContext e' = Some ec)"

lemma SendFromRetransTable_timing:
  assumes "TimerResult env WRMPTimeout = WEAVE_NO_ERROR" "refs_ok N M H s" "room_for H M" "i < M" "idle s"
    "exchContext (RetransTable s ! i) = Some ec"
  shows "gives (SendFromRetransTable (Release env) env i s) (\<lambda>(err, t). timing_view t = timing_view (upd_entry i (\<lambda>_.
    if err = WEAVE_NO_ERROR then (RetransTable s ! i)\<lparr>sendCount := sendCount (RetransTable s ! i) + 1\<rparr> else zero_entry) s))"
proof -
  obtain b where b: "msgBuf (RetransTable s ! i) = Some b" using refs_ok_entry(3) [OF assms(2,4,6)] by auto
  obtain err s1 where r: "SendEncodedMessage env (PeerAddr (ctx s ec)) (PeerIntf (ctx s ec)) (contents b) 0x80 s = (err, s1)" by fastforce
  let ?t = "upd_entry i (\<lambda>e. e\<lparr>sendCount := sendCount e + 1\<rparr>) s1"
  let ?e = "(RetransTable s ! i)\<lparr>sendCount := sendCount (RetransTable s ! i) + 1\<rparr>"
  have v: "refs_view s1 = refs_view s" "timing_view s1 = timing_view s"
    using tv.SendEncodedMessage [of env "PeerAddr (ctx s ec)" "PeerIntf (ctx s ec)" "contents b" "0x80" s] r by simp_all
  have tab: "RetransTable s1 = RetransTable s" using v(2) by (simp add: timing_view_def)
  have t: "?t = upd_entry i (\<lambda>_. ?e) s1" by (simp add: upd_entry_def tab)
  have ok: "refs_ok N M H ?t" by (rule refs_ok_view_imp [OF _ assms(2)]) (simp add: refs_view_upd_entry v(1))
  have li: "i < length (RetransTable s1)" using refs_ok_lengths [OF assms(2)] assms(4) tab by simp
  have e: "exchContext (RetransTable ?t ! i) = Some ec" using assms(6) li by (simp add: upd_entry_def tab)
  have id: "idle ?t" using assms(5) v(2) by (simp add: idle_upd_entry)
  have z: "timing_view (upd_entry i (\<lambda>_. zero_entry) ?t) = timing_view (upd_entry i (\<lambda>_. zero_entry) s)"
    using timing_put [OF v(2), of i zero_entry] by (simp add: upd_entry_def)
  have c: "gives (ClearEntry (Release env) env i ?t) (\<lambda>u. timing_view u = timing_view (upd_entry i (\<lambda>_. zero_entry) s))"
    using ClearEntry_timing [OF assms(1) ok assms(3,4) id e] unfolding z .
  show ?thesis unfolding SendFromRetransTable_def assms(6) b option.case Let_def r prod.case
    using timing_put [OF v(2), of i ?e] by (auto intro!: gives_bind [OF c [unfolded t]] simp: t)
qed

lemma RetransmitDue_timing:
  assumes "TimerResult env WRMPTimeout = WEAVE_NO_ERROR" "refs_ok N M H s" "room_for H M" "i < M" "idle s"
    "nextRetransTime (RetransTable s ! i) = 0"
  shows "gives (RetransmitDue env i s) (\<lambda>t. \<exists>e'. timing_view t = timing_view (upd_entry i (\<lambda>_. e') s) \<and>
    retried (map mWRMPConfig (ContextPool s)) (RetransTable s ! i) e')"
proof (cases "exchContext (RetransTable s ! i)")
  case None
  then show ?thesis by (auto simp: RetransmitDue_def retried_def upd_entry_def intro!: exI [of _ "RetransTable s ! i"])
next
  case (Some ec)
  let ?Q = "\<lambda>t. \<exists>e'. timing_view t = timing_view (upd_entry i (\<lambda>_. e') s) \<and> retried (map mWRMPConfig (ContextPool s)) (RetransTable s ! i) e'"
  have ecl: "ec < length (ContextPool s)" using refs_ok_entry(1) [OF assms(2,4) Some] refs_ok_lengths [OF assms(2)] by simp
  have li: "i < length (RetransTable s)" using refs_ok_lengths [OF assms(2)] assms(4) by simp
  have em: "timing_view (emit ev t) = timing_view t" for ev and t :: "'a ExchangeMgr" by (simp add: timing_view_def emit_def)
  have gone: "?Q t" if "timing_view t = timing_view (upd_entry i (\<lambda>_. zero_entry) s)" for t
    using that Some by (auto simp: retried_def zero_entry_def)
  have sent: "?Q (upd_entry i (\<lambda>e. e\<lparr>nextRetransTime := x\<rparr>) t)"
    if "timing_view t = timing_view (upd_entry i (\<lambda>_. (RetransTable s ! i)\<lparr>sendCount := sendCount (RetransTable s ! i) + 1\<rparr>) s)"
      "sendCount (RetransTable s ! i) \<le> mMaxRetrans (mWRMPConfig (ctx s ec))" for t x
  proof -
    have "RetransTable t = (RetransTable s)[i := (RetransTable s ! i)\<lparr>sendCount := sendCount (RetransTable s ! i) + 1\<rparr>]"
      using that(1) by (simp add: timing_view_def upd_entry_def)
    then have "timing_view (upd_entry i (\<lambda>e. e\<lparr>nextRetransTime := x\<rparr>) t) =
        timing_view (upd_entry i (\<lambda>_. (RetransTable s ! i)\<lparr>sendCount := sendCount (RetransTable s ! i) + 1, nextRetransTime := x\<rparr>) s)"
      using that(1) li by (simp add: timing_view_def upd_entry_def)
    then show ?thesis using that(2) Some ecl by (auto simp: retried_def ctx_def)
  qed
  show ?thesis unfolding RetransmitDue_def Some option.case Let_def
    using assms(6) gone [OF refl]
    by (auto intro!: gives_bind [OF ClearEntry_timing [OF assms(1-5) Some]] gives_bind [OF SendFromRetransTable_timing [OF assms(1-5) Some]]
      sent simp: em not_less simp del: upd_entry_frame split: if_splits)
qed

lemma SendDueAck_timing:
  assumes "TimerResult env WRMPTimeout = WEAVE_NO_ERROR" "refs_ok N M H s" "room_for H M" "ec < N" "idle s"
  shows "gives (SendDueAck env ec s) (\<lambda>t. timing_view t = timing_view s)"
proof -
  have b: "H ec + M < 255" using assms(3) by (auto simp: room_for_def dest!: spec [of _ ec])
  have "timing_view (upd_ctx ec (SetAckPending False) t) = timing_view t" for t :: "'a ExchangeMgr"
    by (rule timing_upd_ctx) (simp add: flag_setters)
  then show ?thesis unfolding SendDueAck_def
    by (auto intro!: gives_bind [OF SendCommonNullMessage_timing [OF rel_dec_Release assms(1,2,4) _ b assms(5)]])
qed

text \<open>
  With \<open>n\<close> more rounds, an entry can still be sent as often as allowed and then be given up: the rounds
  that are left are enough, also if it was never sent.
\<close>

definition quota :: "nat \<Rightarrow> nat \<Rightarrow> RetransTableEntry \<Rightarrow> bool" where
  "quota K n e \<longleftrightarrow> (case exchContext e of None \<Rightarrow> True | Some ec \<Rightarrow> 1 \<le> n \<and> K + 2 \<le> unat (sendCount e) + n)"

definition retrans_bounded :: "nat \<Rightarrow> 'k ExchangeMgr \<Rightarrow> bool" where
  "retrans_bounded K s \<longleftrightarrow> (\<forall>c \<in> set (map mWRMPConfig (ContextPool s)). unat (mMaxRetrans c) \<le> K)"

lemma retried_quota:
  assumes "retried configs e e'" "quota K (Suc n) e" "K < 255"
    "\<And>ec. exchContext e = Some ec \<Longrightarrow> unat (mMaxRetrans (configs ! ec)) \<le> K"
  shows "quota K n e'"
proof (cases "exchContext e")
  case None
  then show ?thesis using assms(1) by (simp add: retried_def quota_def)
next
  case (Some ec)
  have "unat (sendCount e + 1) = Suc (unat (sendCount e))" if "sendCount e \<le> mMaxRetrans (configs ! ec)"
    using that assms(3,4) Some by (intro unat_Suc_u8) (auto simp: word_le_nat_alt)
  then show ?thesis using assms Some by (auto simp: retried_def quota_def word_le_nat_alt split: option.splits)
qed

lemma retrans_bounded_timing: "snd (timing_view s) = snd (timing_view t) \<Longrightarrow> retrans_bounded K s \<longleftrightarrow> retrans_bounded K t"
  by (simp add: timing_view_def retrans_bounded_def)

lemma RetransmitDue_round:
  assumes T: "TimerResult env WRMPTimeout = WEAVE_NO_ERROR" and ok: "refs_ok N M H s" and room: "room_for H M" and id: "idle s"
    and due: "\<And>e. \<lbrakk>e \<in> set (RetransTable s); exchContext e \<noteq> None\<rbrakk> \<Longrightarrow> nextRetransTime e = 0"
    and q: "\<And>e. e \<in> set (RetransTable s) \<Longrightarrow> quota K (Suc n) e" and K: "K < 255" "retrans_bounded K s"
  shows "gives (for_each (RetransmitDue env) [0..<length (RetransTable s)] s) (\<lambda>t. refs_ok N M H t \<and>
    snd (timing_view t) = snd (timing_view s) \<and> (\<forall>e \<in> set (RetransTable t). quota K n e))"
proof -
  let ?P = "\<lambda>k t. refs_ok N M H t \<and> snd (timing_view t) = snd (timing_view s) \<and>
    (\<forall>i < M. if i < k then quota K n (RetransTable t ! i) else RetransTable t ! i = RetransTable s ! i)"
  have len: "length (RetransTable t) = M" "length (ContextPool t) = N" if "refs_ok N M H t" for t :: "'a ExchangeMgr"
    using refs_ok_lengths [OF that] by auto
  have "gives (RetransmitDue env k t) (?P (Suc k))" if P: "?P k t" and k: "k < M" for k t
  proof -
    have tok: "refs_ok N M H t" and rest: "snd (timing_view t) = snd (timing_view s)" and ek: "RetransTable t ! k = RetransTable s ! k"
      using P k by auto
    have tid: "idle t" using id rest by (simp add: ticks_due_def timing_view_def)
    have ek': "RetransTable t ! k \<in> set (RetransTable s)" using ek k len(1) [OF ok] by (metis nth_mem)
    show ?thesis
    proof (cases "exchContext (RetransTable t ! k)")
      case None
      then have "quota K n (RetransTable t ! k)" by (simp add: quota_def)
      then show ?thesis using None P by (auto simp: RetransmitDue_def less_Suc_eq)
    next
      case (Some ec)
      have z: "nextRetransTime (RetransTable t ! k) = 0" using due [OF ek'] Some by simp
      have cfg: "map mWRMPConfig (ContextPool t) = map mWRMPConfig (ContextPool s)" using rest by (simp add: timing_view_def)
      have "ec < N" using refs_ok_entry(1) [OF tok k Some] .
      then have mx: "unat (mMaxRetrans (map mWRMPConfig (ContextPool t) ! ec)) \<le> K"
        unfolding cfg using K(2) len(2) [OF ok] by (simp add: retrans_bounded_def)
      have new: "?P (Suc k) u" if u: "refs_ok N M H u" "timing_view u = timing_view (upd_entry k (\<lambda>_. e') t)"
        "retried (map mWRMPConfig (ContextPool t)) (RetransTable t ! k) e'" for u e'
      proof -
        have "quota K n e'" using retried_quota [OF u(3) q [OF ek'] K(1)] mx Some by simp
        moreover have "RetransTable u = (RetransTable t)[k := e']" "snd (timing_view u) = snd (timing_view t)"
          using u(2) by (simp_all add: timing_view_def upd_entry_def)
        ultimately show ?thesis using u(1) P k len(1) [OF tok] by (auto simp: nth_list_update less_Suc_eq)
      qed
      show ?thesis
        by (rule gives_mono [OF gives_conj [OF RetransmitDue_ok [OF T tok room k] RetransmitDue_timing [OF T tok room k tid z]]])
          (use new in blast)
    qed
  qed
  then have "gives (for_each (RetransmitDue env) [0..<M] s) (?P M)"
    using ok by (intro gives_for_upt [where P = ?P]) auto
  then show ?thesis unfolding len(1) [OF ok] by (rule gives_mono) (auto simp: in_set_conv_nth len(1))
qed

section \<open>Long waits\<close>

text \<open>
  A wait of 65535 ticks of 200 ms, after which every retransmission is due.
\<close>

definition wait :: "'k ExchangeMgr \<Rightarrow> 'k ExchangeMgr" where
  "wait s = s\<lparr>Now := Now s + 13107000\<rparr>"

definition on_time :: "'k ExchangeMgr \<Rightarrow> bool" where
  "on_time s \<longleftrightarrow> Now s - mWRMPTimeStampBase s < 200 \<and> mWRMPTimerInterval s = 200"

lemma elapse_max: "elapse 0xFFFF t = 0"
proof (cases "0xFFFF \<le> t")
  case True
  then have "t = 0xFFFF" using unat_u16_less [of t] by (simp add: word_le_nat_alt word_unat_eq_iff)
  then show ?thesis by (simp add: elapse_def)
qed (simp add: elapse_def)

lemma ticks_of_delta:
  fixes d :: u64
  assumes "unat d < 2 ^ 24"
  shows "(ucast ((ucast d :: u32) div ucast (200 :: u16)) :: u16) = of_nat (unat d div 200)"
proof -
  have "unat (ucast d :: u32) = unat d" using assms by (simp add: unsigned_ucast_eq take_bit_nat_eq_self)
  then have "unat ((ucast d :: u32) div ucast (200 :: u16)) = unat d div 200" by (simp add: unat_div)
  then show ?thesis by (metis of_nat_unat)
qed

lemma waited_delta:
  fixes n b :: u64
  assumes "n - b < 200"
  shows "unat (n + 13107000 - b) = unat (n - b) + 13107000"
proof -
  have e: "n + 13107000 - b = (n - b) + 13107000" by simp
  have "unat (n - b) < 200" using assms by (simp add: word_less_nat_alt)
  then show ?thesis unfolding e by (simp only: unat_word_ariths) simp
qed

lemma ExpireRetrans_table:
  "fst (ExpireRetrans d es pool) = map (\<lambda>e. if exchContext e = None then e else e\<lparr>nextRetransTime := elapse d (nextRetransTime e)\<rparr>) es"
  by (induction es arbitrary: pool) (auto simp: Let_def split_beta split: option.splits)

lemma ExpireRetrans_configs: "map mWRMPConfig (snd (ExpireRetrans d es pool)) = map mWRMPConfig pool"
  by (induction es arbitrary: pool) (auto simp: Let_def split_beta map_update_same split: option.splits)

lemma ExpireAcks_configs: "map mWRMPConfig (ExpireAcks d pool) = map mWRMPConfig pool"
  by (simp add: ExpireAcks_def comp_def)

lemma on_time_idle: "on_time s \<Longrightarrow> idle s"
  using ticks_of_delta [of "Now s - mWRMPTimeStampBase s"]
  by (simp add: on_time_def ticks_due_def timing_view_def word_less_nat_alt)

lemma WRMPExpireTicks_wait:
  assumes "on_time s"
  shows "RetransTable (WRMPExpireTicks (wait s)) = map (\<lambda>e. if exchContext e = None then e else e\<lparr>nextRetransTime := 0\<rparr>) (RetransTable s)"
    "on_time (WRMPExpireTicks (wait s))" "retrans_bounded K (WRMPExpireTicks (wait s)) \<longleftrightarrow> retrans_bounded K s"
proof -
  have d: "Now s - mWRMPTimeStampBase s < 200" "mWRMPTimerInterval s = 200" using assms by (auto simp: on_time_def)
  have l: "unat (Now s - mWRMPTimeStampBase s) < 200" using d(1) by (simp add: word_less_nat_alt)
  have n: "(unat (Now s - mWRMPTimeStampBase s) + 13107000) div 200 = 65535" by (rule div_nat_eqI) (use l in simp_all)
  have k: "(ucast (GetTickCounterFromTimeDelta (Now (wait s)) (mWRMPTimeStampBase (wait s)) (wait s)) :: u16) = 0xFFFF"
    using ticks_of_delta [of "Now s + 13107000 - mWRMPTimeStampBase s"] l n
    unfolding waited_delta [OF d(1)] by (simp add: GetTickCounterFromTimeDelta_def Let_def wait_def d(2))
  obtain table pool where r: "ExpireRetrans 0xFFFF (RetransTable s) (ExpireAcks 0xFFFF (ContextPool s)) = (table, pool)" by fastforce
  have w: "WRMPExpireTicks (wait s) = (wait s)\<lparr>ContextPool := pool, RetransTable := table, mWRMPTimeStampBase := mWRMPTimeStampBase s + 13107000\<rparr>"
    unfolding WRMPExpireTicks_def Let_def k using r by (simp add: wait_def d(2))
  show "RetransTable (WRMPExpireTicks (wait s)) = map (\<lambda>e. if exchContext e = None then e else e\<lparr>nextRetransTime := 0\<rparr>) (RetransTable s)"
    using ExpireRetrans_table [of "0xFFFF" "RetransTable s" "ExpireAcks 0xFFFF (ContextPool s)"] r by (simp add: w elapse_max)
  show "on_time (WRMPExpireTicks (wait s))" unfolding w on_time_def using d by (simp add: wait_def)
  show "retrans_bounded K (WRMPExpireTicks (wait s)) \<longleftrightarrow> retrans_bounded K s"
    using ExpireRetrans_configs [of "0xFFFF" "RetransTable s" "ExpireAcks 0xFFFF (ContextPool s)"] r
    by (simp add: w retrans_bounded_def ExpireAcks_configs del: set_map)
qed

text \<open>The state between two rounds, with \<open>n\<close> rounds to go.\<close>

definition waiting :: "nat \<Rightarrow> nat \<Rightarrow> (nat \<Rightarrow> nat) \<Rightarrow> nat \<Rightarrow> nat \<Rightarrow> 'k ExchangeMgr \<Rightarrow> bool" where
  "waiting N M H K n s \<longleftrightarrow> refs_ok N M H s \<and> on_time s \<and> retrans_bounded K s \<and> (\<forall>e \<in> set (RetransTable s). quota K n e)"

lemma on_time_timing: "snd (timing_view s) = snd (timing_view t) \<Longrightarrow> on_time s \<longleftrightarrow> on_time t"
  by (simp add: timing_view_def on_time_def)

lemma round_waiting:
  assumes T: "TimerResult env WRMPTimeout = WEAVE_NO_ERROR" and room: "room_for H M" and K: "K < 255" and w: "waiting N M H K (Suc n) s"
  shows "gives (WRMPTimeout_handler env (wait s)) (waiting N M H K n)"
proof -
  let ?s = "WRMPExpireTicks (wait s)"
  have on: "on_time s" using w by (simp add: waiting_def)
  have "refs_view ?s = refs_view s" by (simp add: wait_def)
  then have ok: "refs_ok N M H ?s" using refs_ok_view_imp w by (auto simp: waiting_def)
  note x = WRMPExpireTicks_wait [OF on]
  let ?P = "\<lambda>t. refs_ok N M H t \<and> timing_view t = timing_view ?s"
  have a: "gives (for_each (SendDueAck env) [0..<length (ContextPool ?s)] ?s) ?P"
  proof (rule gives_for_each [where P = ?P])
    fix i and t :: "'a ExchangeMgr" assume i: "i \<in> set [0..<length (ContextPool ?s)]" and P: "?P t"
    have "i < N" using i refs_ok_lengths [OF ok] by simp
    moreover have "idle t" using on_time_idle [OF x(2)] P by simp
    ultimately show "gives (SendDueAck env i t) ?P"
      using gives_conj [OF SendDueAck_ok [OF T conjunct1 [OF P] room] SendDueAck_timing [OF T conjunct1 [OF P] room]] P by simp
  qed (use ok in simp)
  have b: "gives (for_each (RetransmitDue env) [0..<length (RetransTable t)] t) (waiting N M H K n)" if P: "?P t" for t
  proof -
    have tab: "RetransTable t = map (\<lambda>e. if exchContext e = None then e else e\<lparr>nextRetransTime := 0\<rparr>) (RetransTable s)"
      using P x(1) by (simp add: timing_view_def)
    have on': "on_time t" and bd: "retrans_bounded K t" using P x(2,3) on_time_timing [of t ?s] retrans_bounded_timing [of t ?s K] w
      by (auto simp: waiting_def)
    have "nextRetransTime e = 0" if "e \<in> set (RetransTable t)" "exchContext e \<noteq> None" for e using that unfolding tab by (auto split: if_splits)
    moreover have "quota K (Suc n) e" if "e \<in> set (RetransTable t)" for e
      using that w unfolding tab by (auto simp: waiting_def quota_def split: option.splits if_splits)
    ultimately show ?thesis
      by (intro gives_mono [OF RetransmitDue_round [OF T conjunct1 [OF P] room on_time_idle [OF on'] _ _ K bd]])
        (use on' bd in \<open>auto simp: waiting_def intro: iffD2 [OF on_time_timing [where t = t]] iffD2 [OF retrans_bounded_timing [where t = t]]\<close>)
  qed
  have c: "gives (WRMPStartTimer env t) (waiting N M H K n)" if W: "waiting N M H K n t" for t
  proof (rule gives_mono [OF tv.WRMPStartTimer [OF T]])
    fix u assume "(refs_view u, timing_view u) = (refs_view t, timing_view t)"
    then have v: "refs_view u = refs_view t" "timing_view u = timing_view t" by auto
    then have "RetransTable u = RetransTable t" by (simp add: timing_view_def)
    then show "waiting N M H K n u"
      using W v refs_ok_view_imp [OF v(1)] on_time_timing [of u t] retrans_bounded_timing [of u t K] by (simp add: waiting_def)
  qed
  show ?thesis unfolding WRMPTimeout_handler_def WRMPExecuteActions_def by (rule gives_bind [OF gives_bind [OF a b] c])
qed

text \<open>Waiting and handling the timer, \<open>n\<close> times; the platform may answer differently each time.\<close>

primrec wait_rounds :: "(nat \<Rightarrow> 'k ExchEnv) \<Rightarrow> nat \<Rightarrow> 'k ExchangeMgr \<Rightarrow> 'k ExchangeMgr option" where
  "wait_rounds envs 0 s = Some s"
| "wait_rounds envs (Suc n) s = do { t \<leftarrow> WRMPTimeout_handler (envs n) (wait s); wait_rounds envs n t }"

lemma wait_rounds_waiting:
  assumes "\<And>k. TimerResult (envs k) WRMPTimeout = WEAVE_NO_ERROR" "room_for H M" "K < 255"
  shows "waiting N M H K n s \<Longrightarrow> gives (wait_rounds envs n s) (waiting N M H K 0)"
  by (induction n arbitrary: s) (auto intro!: gives_bind [OF round_waiting [OF assms]])

text \<open>
  C10. Retransmission ends.  From any reachable state in which the timer is up to date, if no context allows more
  than \<open>K\<close> retransmissions, \<open>K\<close> is less than 255 and no acknowledgment arrives, then after \<open>K + 2\<close> waits of 65535 ticks every
  message has been given up: the table is empty, and the references to contexts that are left are the references \<open>H\<close> that the application has.
\<close>

theorem retransmission_ends:
  assumes "exch_run N M H s" "M \<le> 40" "\<And>k. TimerResult (envs k) WRMPTimeout = WEAVE_NO_ERROR" "on_time s" "retrans_bounded K s" "K < 255"
  shows "\<exists>t. wait_rounds envs (K + 2) s = Some t \<and> (\<forall>i < M. exchContext (RetransTable t ! i) = None) \<and>
    (\<forall>ec < N. unat (mRefCount (ctx t ec)) = H ec)"
proof -
  have run: "refs_ok N M H s" "\<forall>ec. H ec \<le> 200" using exch_run_ok [OF assms(1,2)] by (auto simp: run_ok_def)
  have "H x + M < 250" for x using spec [OF run(2), of x] assms(2) by simp
  then have room: "room_for H M" by (simp add: room_for_def)
  have "waiting N M H K (K + 2) s" using run(1) assms(4,5) by (auto simp: waiting_def quota_def split: option.splits)
  from wait_rounds_waiting [where envs = envs, OF assms(3) room assms(6) this] obtain t where
    t: "wait_rounds envs (K + 2) s = Some t" "waiting N M H K 0 t" by (auto simp: gives_def)
  have ok: "refs_ok N M H t" using t(2) by (simp add: waiting_def)
  have e: "exchContext (RetransTable t ! i) = None" if "i < M" for i
    using t(2) that refs_ok_lengths [OF ok] by (auto simp: waiting_def quota_def split: option.splits dest!: bspec [of _ _ "RetransTable t ! i"])
  then have "table_refs t ec = 0" for ec using refs_ok_lengths [OF ok] by (auto simp: table_refs_def)
  then have "unat (mRefCount (ctx t ec)) = H ec" if "ec < N" for ec using ok that by (auto simp: refs_ok_def counts_ok_def)
  then show ?thesis using t(1) e by blast
qed

theorem retransmission_ends_witness:
  "\<exists>t. wait_rounds (\<lambda>_. sample_world) 5 sample_exchange = Some t \<and> (\<forall>i < 1. exchContext (RetransTable t ! i) = None) \<and>
    (\<forall>ec < 1. unat (mRefCount (ctx t ec)) = sample_refs ec)"
proof -
  have "on_time sample_exchange" "retrans_bounded 3 sample_exchange" by code_simp+
  moreover have "TimerResult sample_world WRMPTimeout = WEAVE_NO_ERROR" by (simp add: sample_world_def)
  ultimately show ?thesis using retransmission_ends [OF sample_exchange_run, of "\<lambda>_. sample_world" 3] by simp
qed

end
