(* ===== verification/Ble_Engine.thy ===== *)
theory Ble_Engine
  imports Packet_Buffer "HOL-Library.Monad_Syntax"
begin

text \<open>
  Weave over Bluetooth: the engine that cuts a message into fragments of the size of a GATT characteristic and
  puts it together again (\<^verbatim>\<open>WoBle\<close> of \<^verbatim>\<open>src/src/ble/WoBle.{h,cpp}\<close>).  Fragments carry 8-bit sequence numbers and
  acknowledgments.  Messages and fragments are packet buffers in a pool; one operation is a function on the
  engine and the pool, and \<open>None\<close> is an access outside a buffer, through a null pointer, or an abort.
\<close>

section \<open>State\<close>

datatype BLE_ERROR =
    BLE_NO_ERROR
  | BLE_ERROR_NO_MEMORY
  | BLE_ERROR_INVALID_ACK
  | BLE_ERROR_REASSEMBLER_MISSING_DATA
  | BLE_ERROR_INVALID_BTP_HEADER_FLAGS
  | BLE_ERROR_INVALID_BTP_SEQUENCE_NUMBER
  | BLE_ERROR_REASSEMBLER_INCORRECT_STATE
  | BLE_ERROR_RECEIVED_MESSAGE_TOO_BIG

datatype State_t = kState_Idle | kState_InProgress | kState_Complete | kState_Error

abbreviation (input) kHeaderFlag_StartMessage :: u8 where "kHeaderFlag_StartMessage \<equiv> 0x01"
abbreviation (input) kHeaderFlag_ContinueMessage :: u8 where "kHeaderFlag_ContinueMessage \<equiv> 0x02"
abbreviation (input) kHeaderFlag_EndMessage :: u8 where "kHeaderFlag_EndMessage \<equiv> 0x04"
abbreviation (input) kHeaderFlag_FragmentAck :: u8 where "kHeaderFlag_FragmentAck \<equiv> 0x08"
abbreviation (input) sDefaultFragmentSize :: u16 where "sDefaultFragmentSize \<equiv> 20"
abbreviation (input) WEAVE_SYSTEM_CONFIG_HEADER_RESERVE_SIZE :: u16 where "WEAVE_SYSTEM_CONFIG_HEADER_RESERVE_SIZE \<equiv> 38"

record WoBle =
  mRxState :: State_t
  mRxLength :: u16
  mRxBuf :: "ptr option"
  mRxNextSeqNum :: u8
  mRxNewestUnackedSeqNum :: u8
  mRxOldestUnackedSeqNum :: u8
  mRxFragmentSize :: u16
  mTxState :: State_t
  mTxLength :: u16
  mTxBuf :: "ptr option"
  mTxNextSeqNum :: u8
  mTxNewestUnackedSeqNum :: u8
  mTxOldestUnackedSeqNum :: u8
  mExpectingAck :: bool
  mTxFragmentSize :: u16
  mRxCharCount :: u16
  mRxPacketCount :: u16
  mTxCharCount :: u16
  mTxPacketCount :: u16

text \<open>\<^verbatim>\<open>mRxLength\<close> and \<^verbatim>\<open>mTxLength\<close> are not initialized.\<close>

definition WoBle_Init :: "bool \<Rightarrow> WoBle \<Rightarrow> WoBle" where
  "WoBle_Init expect_first_ack w =
     (let w1 = w\<lparr>mRxState := kState_Idle, mRxBuf := None, mRxNewestUnackedSeqNum := 0, mRxOldestUnackedSeqNum := 0,
            mRxFragmentSize := sDefaultFragmentSize, mTxState := kState_Idle, mTxBuf := None,
            mTxFragmentSize := sDefaultFragmentSize, mRxCharCount := 0, mRxPacketCount := 0, mTxCharCount := 0,
            mTxPacketCount := 0, mTxNewestUnackedSeqNum := 0, mTxOldestUnackedSeqNum := 0\<rparr>
      in if expect_first_ack then w1\<lparr>mTxNextSeqNum := 1, mExpectingAck := True, mRxNextSeqNum := 0\<rparr>
         else w1\<lparr>mTxNextSeqNum := 0, mExpectingAck := False, mRxNextSeqNum := 1\<rparr>)"

definition SetTxFragmentSize :: "u8 \<Rightarrow> WoBle \<Rightarrow> WoBle" where
  "SetTxFragmentSize n w = w\<lparr>mTxFragmentSize := ucast n\<rparr>"

definition SetRxFragmentSize :: "u8 \<Rightarrow> WoBle \<Rightarrow> WoBle" where
  "SetRxFragmentSize n w = w\<lparr>mRxFragmentSize := ucast n\<rparr>"

section \<open>Sequence numbers and acknowledgments\<close>

definition IncSeqNum :: "u8 \<Rightarrow> u8" where
  "IncSeqNum a_seq_num = 0xFF AND (a_seq_num + 1)"

definition DidReceiveData :: "u8 \<Rightarrow> bool" where
  "DidReceiveData rx_flags \<longleftrightarrow> GetFlag rx_flags kHeaderFlag_StartMessage \<or> GetFlag rx_flags kHeaderFlag_ContinueMessage \<or>
     GetFlag rx_flags kHeaderFlag_EndMessage"

definition GetAndIncrementNextTxSeqNum :: "WoBle \<Rightarrow> u8 \<times> WoBle" where
  "GetAndIncrementNextTxSeqNum w =
     (let w1 = (if \<not> mExpectingAck w then w\<lparr>mExpectingAck := True, mTxOldestUnackedSeqNum := mTxNextSeqNum w\<rparr> else w)
      in (mTxNextSeqNum w, w1\<lparr>mTxNewestUnackedSeqNum := mTxNextSeqNum w, mTxNextSeqNum := IncSeqNum (mTxNextSeqNum w)\<rparr>))"

definition GetAndRecordRxAckSeqNum :: "WoBle \<Rightarrow> u8 \<times> WoBle" where
  "GetAndRecordRxAckSeqNum w =
     (mRxNewestUnackedSeqNum w, w\<lparr>mRxNewestUnackedSeqNum := mRxNextSeqNum w, mRxOldestUnackedSeqNum := mRxNextSeqNum w\<rparr>)"

definition HasUnackedData :: "WoBle \<Rightarrow> bool" where
  "HasUnackedData w \<longleftrightarrow> mRxOldestUnackedSeqNum w \<noteq> mRxNextSeqNum w"

definition IsValidAck :: "u8 \<Rightarrow> WoBle \<Rightarrow> bool" where
  "IsValidAck ack_num w =
     (if \<not> mExpectingAck w then False
      else if mTxNewestUnackedSeqNum w \<ge> mTxOldestUnackedSeqNum w
      then ack_num \<le> mTxNewestUnackedSeqNum w \<and> ack_num \<ge> mTxOldestUnackedSeqNum w
      else ack_num \<le> mTxNewestUnackedSeqNum w \<or> ack_num \<ge> mTxOldestUnackedSeqNum w)"

definition HandleAckReceived :: "u8 \<Rightarrow> WoBle \<Rightarrow> BLE_ERROR \<times> WoBle" where
  "HandleAckReceived ack_num w =
     (if \<not> IsValidAck ack_num w then (BLE_ERROR_INVALID_ACK, w)
      else if mTxNewestUnackedSeqNum w = ack_num
      then (BLE_NO_ERROR, w\<lparr>mTxOldestUnackedSeqNum := ack_num, mExpectingAck := False\<rparr>)
      else (BLE_NO_ERROR, w\<lparr>mTxOldestUnackedSeqNum := IncSeqNum ack_num\<rparr>))"

definition EncodeStandAloneAck :: "ptr \<Rightarrow> WoBle \<Rightarrow> BufferPool \<Rightarrow> BLE_ERROR \<times> WoBle \<times> BufferPool" where
  "EncodeStandAloneAck p w s =
     (case EnsureReservedSize 0 (heap s p) of (fits, b) \<Rightarrow>
        let s1 = s\<lparr>heap := (heap s)(p := b)\<rparr> in
        if \<not> fits \<or> MaxDataLength b < 3 then (BLE_ERROR_NO_MEMORY, w, s1)
        else
          let (ack, w1) = GetAndRecordRxAckSeqNum w; (seq, w2) = GetAndIncrementNextTxSeqNum w1
          in (BLE_NO_ERROR, w2, s1\<lparr>heap := (heap s1)(p := SetLen 3 (poke (Start b) [kHeaderFlag_FragmentAck, ack, seq] b))\<rparr>))"

section \<open>Reassembly\<close>

definition byte_at :: "PacketBuffer \<Rightarrow> nat \<Rightarrow> u8 option" where
  "byte_at b i = (if payload b + i < AllocSize b then Some (block b ! (payload b + i)) else None)"

text \<open>The head of a fragment: the error, its flags, the length of the head so far and the acknowledgment in it.\<close>

definition ReceiveHead :: "PacketBuffer \<Rightarrow> WoBle \<Rightarrow> (BLE_ERROR \<times> u8 \<times> nat \<times> u8 option \<times> WoBle) option" where
  "ReceiveHead b w = do {
     rx_flags \<leftarrow> byte_at b 0;
     let w1 = w\<lparr>mRxCharCount := mRxCharCount w + 1\<rparr>;
     (err, cursor, receivedAck, w2) \<leftarrow>
       (if GetFlag rx_flags kHeaderFlag_FragmentAck
        then do { a \<leftarrow> byte_at b 1; let (err, w2) = HandleAckReceived a w1; Some (err, 2, Some a, w2) }
        else Some (BLE_NO_ERROR, 1, None, w1));
     if err \<noteq> BLE_NO_ERROR then Some (err, rx_flags, cursor, receivedAck, w2)
     else do {
       n \<leftarrow> byte_at b cursor;
       let w3 = w2\<lparr>mRxNewestUnackedSeqNum := n\<rparr>;
       if n \<noteq> mRxNextSeqNum w3 then Some (BLE_ERROR_INVALID_BTP_SEQUENCE_NUMBER, rx_flags, cursor + 1, receivedAck, w3)
       else Some (BLE_NO_ERROR, rx_flags, cursor + 1, receivedAck, w3\<lparr>mRxNextSeqNum := IncSeqNum (mRxNextSeqNum w3)\<rparr>) } }"

definition Append :: "ptr \<Rightarrow> ptr \<Rightarrow> BufferPool \<Rightarrow> BufferPool option" where
  "Append q p s = do { h \<leftarrow> AddToEnd q p (heap s); CompactHead q (s\<lparr>heap := h\<rparr>) }"

definition FinishFragment :: "u8 \<Rightarrow> ptr \<Rightarrow> WoBle \<Rightarrow> BufferPool \<Rightarrow> BLE_ERROR \<times> ptr option \<times> WoBle \<times> BufferPool" where
  "FinishFragment rx_flags q w s =
     (if rx_flags AND kHeaderFlag_EndMessage = 0 then (BLE_NO_ERROR, None, w, s)
      else
        let padding = uint (DataLength (heap s q)) - uint (mRxLength w);
            s1 = (if padding > 0 then s\<lparr>heap := (heap s)(q := SetLen (mRxLength w) (heap s q))\<rparr> else s)
        in if DataLength (heap s1 q) \<noteq> mRxLength w then (BLE_ERROR_REASSEMBLER_MISSING_DATA, None, w, s1)
           else (BLE_NO_ERROR, None, w\<lparr>mRxState := kState_Complete, mRxPacketCount := mRxPacketCount w + 1\<rparr>, s1))"

text \<open>The payload of a fragment; the pointer of the result is the fragment if it is still the caller's.\<close>

definition Reassemble ::
  "ptr \<Rightarrow> u8 \<Rightarrow> nat \<Rightarrow> WoBle \<Rightarrow> BufferPool \<Rightarrow> (BLE_ERROR \<times> ptr option \<times> WoBle \<times> BufferPool) option" where
  "Reassemble p rx_flags cursor w s =
     (let b = heap s p in
      case mRxState w of
        kState_Idle \<Rightarrow>
          if rx_flags AND kHeaderFlag_StartMessage = 0 then Some (BLE_ERROR_INVALID_BTP_HEADER_FLAGS, Some p, w, s)
          else do {
            hi \<leftarrow> byte_at b (cursor + 1);
            lo \<leftarrow> byte_at b cursor;
            let w1 = w\<lparr>mRxLength := push_bit 8 (ucast hi) OR ucast lo, mRxState := kState_InProgress\<rparr>;
            let s1 = s\<lparr>heap := (heap s)(p := SetStart (int (payload b + (cursor + 2))) b)\<rparr>;
            case New_buf WEAVE_SYSTEM_CONFIG_HEADER_RESERVE_SIZE s1 of
              (None, s2) \<Rightarrow> Some (BLE_ERROR_NO_MEMORY, Some p, w1\<lparr>mRxBuf := None\<rparr>, s2)
            | (Some q, s2) \<Rightarrow> do { s3 \<leftarrow> Append q p s2; Some (FinishFragment rx_flags q (w1\<lparr>mRxBuf := Some q\<rparr>) s3) } }
      | kState_InProgress \<Rightarrow>
          if rx_flags AND kHeaderFlag_StartMessage \<noteq> 0 then Some (BLE_ERROR_INVALID_BTP_HEADER_FLAGS, Some p, w, s)
          else if rx_flags AND kHeaderFlag_ContinueMessage = 0 \<and> rx_flags AND kHeaderFlag_EndMessage = 0
          then Some (BLE_ERROR_INVALID_BTP_HEADER_FLAGS, Some p, w, s)
          else do {
            q \<leftarrow> mRxBuf w;
            s3 \<leftarrow> Append q p (s\<lparr>heap := (heap s)(p := SetStart (int (payload b + cursor)) b)\<rparr>);
            if Next_buf q (heap s3) \<noteq> None then Some (BLE_ERROR_RECEIVED_MESSAGE_TOO_BIG, None, w, s3)
            else Some (FinishFragment rx_flags q w s3) }
      | _ \<Rightarrow> Some (BLE_ERROR_REASSEMBLER_INCORRECT_STATE, Some p, w, s))"

definition HandleCharacteristicReceived ::
  "ptr \<Rightarrow> WoBle \<Rightarrow> BufferPool \<Rightarrow> (BLE_ERROR \<times> u8 option \<times> WoBle \<times> BufferPool) option" where
  "HandleCharacteristicReceived p w s = do {
     (err, rx_flags, cursor, receivedAck, w1) \<leftarrow> ReceiveHead (heap s p) w;
     (err, data, w2, s2) \<leftarrow>
       (if err \<noteq> BLE_NO_ERROR then Some (err, Some p, w1, s)
        else if \<not> DidReceiveData rx_flags then do { s1 \<leftarrow> Free (Some p) s; Some (BLE_NO_ERROR, None, w1, s1) }
        else Reassemble p rx_flags cursor w1
               (s\<lparr>heap := (heap s)(p := SetLen (min (DataLength (heap s p)) (mRxFragmentSize w1)) (heap s p))\<rparr>));
     if err = BLE_NO_ERROR then Some (err, receivedAck, w2, s2)
     else
       let w3 = w2\<lparr>mRxState := kState_Error\<rparr> in
       case data of
         None \<Rightarrow> Some (err, receivedAck, w3, s2)
       | Some d \<Rightarrow>
           (case mRxBuf w3 of
              None \<Rightarrow> Some (err, receivedAck, w3\<lparr>mRxBuf := Some d\<rparr>, s2)
            | Some q \<Rightarrow> do { h \<leftarrow> AddToEnd q d (heap s2); Some (err, receivedAck, w3, s2\<lparr>heap := h\<rparr>) }) }"

definition ClearRxPacket :: "WoBle \<Rightarrow> bool \<times> WoBle" where
  "ClearRxPacket w = (if mRxState w = kState_Complete then (True, w\<lparr>mRxState := kState_Idle, mRxBuf := None\<rparr>) else (False, w))"

section \<open>Fragmentation\<close>

text \<open>
  One fragment with its head at offset \<open>at\<close> of the block.  \<open>flags\<close> are its first flags and \<open>lenField\<close> what follows the sequence
  number.
\<close>

definition EmitFragment :: "ptr \<Rightarrow> nat \<Rightarrow> u8 \<Rightarrow> u8 list \<Rightarrow> bool \<Rightarrow> WoBle \<Rightarrow> BufferPool \<Rightarrow> (bool \<times> WoBle \<times> BufferPool) option" where
  "EmitFragment p at flags lenField send_ack w s =
     (let (ackField, w1) = (if send_ack then (case GetAndRecordRxAckSeqNum w of (a, w1) \<Rightarrow> ([a], w1)) else ([], w));
          (seq, w2) = GetAndIncrementNextTxSeqNum w1;
          flags1 = (if send_ack then SetFlag kHeaderFlag_FragmentAck True flags else flags);
          cursor = 1 + length ackField + 1 + length lenField;
          ends = (unat (mTxLength w2) + cursor \<le> unat (mTxFragmentSize w2));
          flags2 = (if ends then SetFlag kHeaderFlag_EndMessage True flags1 else flags1);
          n = (if ends then mTxLength w2 + of_nat cursor else mTxFragmentSize w2);
          b1 = poke at ([flags2] @ ackField @ [seq] @ lenField) (SetStart (int at) (heap s p));
          s1 = s\<lparr>heap := (heap s)(p := SetLen n b1)\<rparr>
      in if at + cursor > AllocSize (heap s p) then None
         else if ends then Some (True, w2\<lparr>mTxLength := 0, mTxState := kState_Complete, mTxPacketCount := mTxPacketCount w2 + 1\<rparr>, s1)
         else Some (True, w2\<lparr>mTxLength := mTxLength w2 - (mTxFragmentSize w2 - of_nat cursor)\<rparr>, s1))"

definition HandleCharacteristicSend :: "ptr option \<Rightarrow> bool \<Rightarrow> WoBle \<Rightarrow> BufferPool \<Rightarrow> (bool \<times> WoBle \<times> BufferPool) option" where
  "HandleCharacteristicSend data send_ack w s =
     (let w1 = w\<lparr>mTxCharCount := mTxCharCount w + 1\<rparr> in
      if send_ack \<and> \<not> HasUnackedData w1 then Some (False, w1, s)
      else case mTxState w1 of
        kState_Idle \<Rightarrow>
          (case data of
             None \<Rightarrow> Some (False, w1, s)
           | Some p \<Rightarrow>
               let w2 = w1\<lparr>mTxBuf := Some p, mTxState := kState_InProgress, mTxLength := DataLength (heap s p)\<rparr>;
                   header_size = (if send_ack then 5 else 4) :: u16 in
               case EnsureReservedSize header_size (heap s p) of (fits, b) \<Rightarrow>
                 let s1 = s\<lparr>heap := (heap s)(p := b)\<rparr> in
                 if \<not> fits then Some (False, w2\<lparr>mTxState := kState_Error, mTxBuf := None\<rparr>, s1)
                 else EmitFragment p (Start b - unat header_size) kHeaderFlag_StartMessage
                        [ucast (mTxLength w2 AND 0xFF), ucast (drop_bit 8 (mTxLength w2))] send_ack w2 s1)
      | kState_InProgress \<Rightarrow>
          if data \<noteq> None then Some (False, w1, s)
          else do {
            p \<leftarrow> mTxBuf w1;
            let hdr = (if send_ack then 3 else 2);
            if Start (heap s p) + unat (mTxFragmentSize w1) < hdr then None
            else EmitFragment p (Start (heap s p) + unat (mTxFragmentSize w1) - hdr) kHeaderFlag_ContinueMessage [] send_ack w1 s }
      | _ \<Rightarrow> Some (False, w1, s))"

definition ClearTxPacket :: "WoBle \<Rightarrow> bool \<times> WoBle" where
  "ClearTxPacket w = (if mTxState w = kState_Complete then (True, w\<lparr>mTxState := kState_Idle, mTxBuf := None\<rparr>) else (False, w))"

end
