(* ===== verification/Ble_Transfer.thy ===== *)
theory Ble_Transfer
  imports Packet_Buffer Ble_Engine
begin

text \<open>
  A message cut into fragments by one engine is put together by the other.
\<close>

section \<open>Buffers held by an engine\<close>

text \<open>
  \<open>ps\<close> are single buffers that nobody else refers to, \<open>fs\<close> the free ones; every block has the size of the pool.
\<close>

definition held :: "BufferPool \<Rightarrow> ptr list \<Rightarrow> ptr list \<Rightarrow> bool" where
  "held r ps fs \<longleftrightarrow> pool_ok r fs \<and> distinct (ps @ fs) \<and> (\<forall>x \<in> set (ps @ fs). AllocSize (heap r x) = ALLOCSIZE_MAX) \<and>
     (\<forall>x \<in> set ps. ref (heap r x) = 1 \<and> pnext (heap r x) = None \<and> wf_buf (heap r x))"

lemma buffer_frame [simp]:
  "pnext (SetLen n b) = pnext b" "ref (SetLen n b) = ref b" "block (SetLen n b) = block b" "payload (SetLen n b) = payload b"
  "pnext (SetStart i b) = pnext b" "ref (SetStart i b) = ref b" "block (SetStart i b) = block b"
  "pnext (poke k bs b) = pnext b" "ref (poke k bs b) = ref b" "payload (poke k bs b) = payload b" "len (poke k bs b) = len b"
  by (simp_all add: SetLen_def SetLength_def SetStart_def poke_def Let_def)

lemma AllocSize_frame [simp]: "AllocSize (SetLen n b) = AllocSize b" "AllocSize (SetStart i b) = AllocSize b"
  by (simp_all add: AllocSize_def)

lemma held_update:
  assumes "held r ps fs" "p \<in> set ps" "wf_buf b" "ref b = 1" "pnext b = None" "AllocSize b = ALLOCSIZE_MAX"
  shows "held (r\<lparr>heap := (heap r)(p := b)\<rparr>) ps fs"
proof -
  have "p \<notin> set fs" using assms(1,2) by (auto simp: held_def)
  then show ?thesis using assms pool_ok_update [of r fs p b] by (auto simp: held_def)
qed

lemma held_new:
  assumes "held r ps (p # fs)" "unat n \<le> ALLOCSIZE_MAX"
  obtains r' where "New_buf n r = (Some p, r')" "held r' (p # ps) fs" "contents (heap r' p) = []" "payload (heap r' p) = unat n"
    "\<And>x. x \<noteq> p \<Longrightarrow> heap r' x = heap r x"
proof -
  have s: "unat n + (if unat n < ALLOCSIZE_MAX then ALLOCSIZE_MAX - unat n else 0) \<le> ALLOCSIZE_MAX" using assms(2) by simp
  have pool: "pool_ok r (p # fs)" using assms(1) by (simp add: held_def)
  obtain r' where r': "New_buf n r = (Some p, r')" "pool_ok r' fs"
    "heap r' p = (heap r p)\<lparr>payload := unat n, len := 0, tot_len := 0, pnext := None, ref := 1\<rparr>" "\<forall>q. q \<noteq> p \<longrightarrow> heap r' q = heap r q"
    using NewWithAvailableSize_ok [OF pool s] unfolding New_buf_def Let_def by blast
  have a: "AllocSize (heap r p) = ALLOCSIZE_MAX" using assms(1) by (simp add: held_def)
  have same: "heap r' x = heap r x" if "x \<in> set (ps @ fs)" for x using that r'(4) assms(1) by (auto simp: held_def)
  have "held r' (p # ps) fs"
    using assms r'(2,3) same a by (auto simp: held_def wf_buf_def AllocSize_def)
  then show ?thesis using r' that by (simp add: contents_def)
qed

text \<open>Appending a buffer whose data fit: it is emptied and given back.\<close>

lemma FreeHead_single:
  "\<lbrakk>ref (heap s p) = 1\<rbrakk> \<Longrightarrow> FreeHead p s = Some (pnext (heap s p), give_back p (s\<lparr>heap := (heap s)(p := (heap s p)\<lparr>pnext := None\<rparr>)\<rparr>))"
  by (simp add: FreeHead_def Free_one)

lemma held_append:
  assumes "held r (p # q # ps) fs" "unat (len (heap r q)) + unat (len (heap r p)) \<le> ALLOCSIZE_MAX" "unat (len (heap r q)) < ALLOCSIZE_MAX"
  obtains r' where "Append q p r = Some r'" "held r' (q # ps) (p # fs)" "contents (heap r' q) = contents (heap r q) @ contents (heap r p)"
    "payload (heap r' q) = 0" "\<And>x. \<lbrakk>x \<noteq> p; x \<noteq> q\<rbrakk> \<Longrightarrow> heap r' x = heap r x"
proof -
  let ?b = "heap r q" and ?nb = "heap r p"
  have h: "p \<noteq> q" "ref ?b = 1" "ref ?nb = 1" "pnext ?b = None" "pnext ?nb = None" "wf_buf ?b" "wf_buf ?nb"
    "AllocSize ?b = ALLOCSIZE_MAX" "AllocSize ?nb = ALLOCSIZE_MAX" "p \<notin> set fs" "q \<notin> set fs" "pool_ok r fs" "p \<notin> set ps" "q \<notin> set ps"
    using assms(1) by (auto simp: held_def)
  define b0 where "b0 = ?b\<lparr>tot_len := tot_len ?b + tot_len ?nb, pnext := Some p\<rparr>"
  define r0 where "r0 = r\<lparr>heap := (heap r)(q := b0)\<rparr>"
  define b1 where "b1 = (if payload b0 \<noteq> 0 then b0\<lparr>block := overwrite 0 (contents b0) (block b0), payload := 0\<rparr> else b0)"
  have add: "AddToEnd q p (heap r) = Some (heap r0)" using h(4) by (subst AddToEnd.simps) (simp add: r0_def b0_def)
  have c0: "contents b0 = contents ?b" "len b0 = len ?b" "AllocSize b0 = ALLOCSIZE_MAX" "wf_buf b0" "ref b0 = 1"
    using h by (simp_all add: b0_def AllocSize_def wf_buf_def)
  have fit: "0 + length (contents b0) \<le> length (block b0)" using assms(3) c0 length_contents [OF h(6)] by (simp add: AllocSize_def)
  have b1: "payload b1 = 0" "len b1 = len ?b" "AllocSize b1 = ALLOCSIZE_MAX" "pnext b1 = Some p" "ref b1 = 1"
    using c0 length_overwrite [OF fit] by (auto simp: b1_def AllocSize_def b0_def)
  have wf1: "wf_buf b1" using b1 assms(3) by (simp add: wf_buf_def)
  have cb1: "contents b1 = contents ?b"
    using drop_overwrite [OF fit] c0 length_contents [OF h(6)] by (auto simp: b1_def contents_def [of "b0\<lparr>block := _, payload := _\<rparr>"])
  have av: "unat (AvailableDataLength b1) = ALLOCSIZE_MAX - unat (len ?b)" using AvailableDataLength_eq [OF wf1] b1 by simp
  have le: "len ?nb \<le> AvailableDataLength b1" using av assms(2) by (simp add: word_le_nat_alt)
  have nz: "AvailableDataLength b1 \<noteq> 0" using av assms(3) by auto
  note f = filled_ok [OF wf1 h(7) order_refl le]
  define b2 where "b2 = filled (len ?nb) ?nb b1"
  define r1 where "r1 = r0\<lparr>heap := (heap r0)(q := b1)\<rparr>"
  define r2 where "r2 = r1\<lparr>heap := (heap r1)(q := b2, p := emptied (len ?nb) ?nb)\<rparr>"
  define r3 where "r3 = give_back p (r2\<lparr>heap := (heap r2)(p := (heap r2 p)\<lparr>pnext := None\<rparr>)\<rparr>)"
  define r4 where "r4 = r3\<lparr>heap := (heap r3)(q := b2\<lparr>pnext := None\<rparr>)\<rparr>"
  have hp: "heap r1 p = ?nb" "heap r1 q = b1" using h(1) by (simp_all add: r1_def r0_def)
  have fr: "FreeHead p r2 = Some (None, r3)"
    using FreeHead_single [of r2 p] h(3,5) by (simp add: r2_def r3_def emptied_def)
  have r3q: "heap r3 q = b2" using h(1) by (simp add: r3_def r2_def)
  have "CompactLoop q (AvailableDataLength b1) r1 = CompactLoop q (AvailableDataLength b1 - len ?nb) r4"
    using CompactLoop_step [of r1 q p "AvailableDataLength b1" "len ?nb" r2] hp b1(4) nz h(3) le fr r3q
    by (simp add: r2_def b2_def r4_def min_absorb1)
  also have "\<dots> = Some r4" by (subst CompactLoop.simps) (simp add: r4_def)
  finally have loop: "CompactLoop q (AvailableDataLength b1) r1 = Some r4" .
  have hq: "heap r0 q = b0" by (simp add: r0_def)
  have comp: "CompactHead q r0 = Some r4"
    using loop unfolding CompactHead_def Let_def hq b1_def [symmetric] r1_def [symmetric] .
  have r: "Append q p r = Some r4" using add comp unfolding Append_def by (simp add: r0_def)
  have other: "heap r4 x = heap r x" if "x \<noteq> p" "x \<noteq> q" for x using that by (simp add: r4_def r3_def r2_def r1_def r0_def)
  have q: "heap r4 q = b2\<lparr>pnext := None\<rparr>" by (simp add: r4_def)
  have ab2: "AllocSize b2 = ALLOCSIZE_MAX" "payload b2 = 0" "ref b2 = 1" "wf_buf b2"
    using f(1) b1 length_overwrite [of "unat (len ?b)" "take (unat (len ?nb)) (drop (payload ?nb) (block ?nb))" "block b1"] assms(2)
    by (simp_all add: b2_def filled_def AllocSize_def)
  have p: "AllocSize (heap r4 p) = ALLOCSIZE_MAX" using h(1,9) by (simp add: r4_def r3_def r2_def give_back_def emptied_def AllocSize_def)
  have "pool_ok (r2\<lparr>heap := (heap r2)(p := (heap r2 p)\<lparr>pnext := None\<rparr>)\<rparr>) fs"
    unfolding r2_def r1_def r0_def using h(10-12) by (auto simp: pool_ok_def)
  then have "pool_ok r3 (p # fs)" unfolding r3_def using h(10) by (rule pool_ok_give_back)
  then have pool: "pool_ok r4 (p # fs)" unfolding r4_def using h(1,11) by (intro pool_ok_update) auto
  have "heap r4 x = heap r x" if "x \<in> set ps \<union> set fs" for x using that h(10,11,13,14) by (intro other) auto
  then have "held r4 (q # ps) (p # fs)" unfolding held_def
    using pool assms(1) q ab2 p h by (auto simp: held_def wf_buf_def AllocSize_def)
  moreover have "contents (heap r4 q) = contents ?b @ contents ?nb"
    using q f(2) cb1 length_contents [OF h(7)] by (simp add: b2_def)
  ultimately show ?thesis using that r other q ab2 by simp
qed

section \<open>Receiving a fragment\<close>

text \<open>The platform puts the bytes of a received characteristic into a new buffer.\<close>

definition incoming :: "u8 list \<Rightarrow> BufferPool \<Rightarrow> (ptr \<times> BufferPool) option" where
  "incoming bytes r =
     (case New_buf 0 r of
        (None, r1) \<Rightarrow> None
      | (Some p, r1) \<Rightarrow> Some (p, r1\<lparr>heap := (heap r1)(p := SetLen (of_nat (length bytes)) (poke 0 bytes (heap r1 p)))\<rparr>))"

lemma incoming_ok:
  assumes "held r ps (p # fs)" "length bytes \<le> ALLOCSIZE_MAX"
  obtains r' where "incoming bytes r = Some (p, r')" "held r' (p # ps) fs" "contents (heap r' p) = bytes" "payload (heap r' p) = 0"
    "\<And>x. x \<noteq> p \<Longrightarrow> heap r' x = heap r x"
proof -
  obtain r1 where r1: "New_buf 0 r = (Some p, r1)" "held r1 (p # ps) fs" "contents (heap r1 p) = []" "payload (heap r1 p) = 0"
    "\<And>x. x \<noteq> p \<Longrightarrow> heap r1 x = heap r x" by (rule held_new [OF assms(1), of 0]) simp_all
  let ?b = "poke 0 bytes (heap r1 p)" and ?n = "of_nat (length bytes) :: u16"
  have h: "wf_buf (heap r1 p)" "AllocSize (heap r1 p) = ALLOCSIZE_MAX" "ref (heap r1 p) = 1" "pnext (heap r1 p) = None"
    using r1(2) by (auto simp: held_def)
  have rm: "room (heap r1 p) = ALLOCSIZE_MAX" using h(2) r1(4) by (simp add: room_def)
  note st = pbuf.stored [OF h(1), of 0 bytes ?b, unfolded r1(4) rm]
  have b: "wf_buf ?b" "room ?b = ALLOCSIZE_MAX" "window (length bytes) ?b = bytes" "AllocSize ?b = ALLOCSIZE_MAX"
    using st assms(2) h(2) pbuf.length_view [OF h(1), of "length bytes"] rm r1(4) by (auto simp: room_def)
  have n: "unat ?n = length bytes" using assms(2) by (intro unat_of_nat_u16) simp
  note re = pbuf.resize [OF b(1), of ?n "SetLen ?n ?b", unfolded n b(2,3)]
  show ?thesis
  proof (rule that)
    show "incoming bytes r = Some (p, r1\<lparr>heap := (heap r1)(p := SetLen ?n ?b)\<rparr>)" using r1(1) by (simp add: incoming_def)
    show "held (r1\<lparr>heap := (heap r1)(p := SetLen ?n ?b)\<rparr>) (p # ps) fs" using re assms(2) b(4) h by (intro held_update [OF r1(2)]) auto
  qed (use re assms(2) r1(4,5) in auto)
qed

text \<open>The bytes of a fragment: flags, an acknowledgment if there is one, the sequence number, and the rest.\<close>

definition frag_flags :: "bool \<Rightarrow> bool \<Rightarrow> bool \<Rightarrow> u8" where
  "frag_flags first ack ends = (if first then 1 else 2) OR (if ack then 8 else 0) OR (if ends then 4 else 0)"

definition frag_head :: "bool \<Rightarrow> u8 option \<Rightarrow> bool \<Rightarrow> u8 \<Rightarrow> u8 list" where
  "frag_head first ack ends n = frag_flags first (ack \<noteq> None) ends # (case ack of None \<Rightarrow> [] | Some a \<Rightarrow> [a]) @ [n]"

lemma frag_flags_bits [simp]:
  "GetFlag (frag_flags first ack ends) 8 \<longleftrightarrow> ack" "frag_flags first ack ends AND 1 = 0 \<longleftrightarrow> \<not> first"
  "frag_flags first ack ends AND 2 = 0 \<longleftrightarrow> first" "frag_flags first ack ends AND 4 = 0 \<longleftrightarrow> \<not> ends"
  "DidReceiveData (frag_flags first ack ends)"
  by (cases first; cases ack; cases ends; simp add: frag_flags_def GetFlag_def DidReceiveData_def)+

lemma frag_head_length: "length (frag_head first ack ends n) = (if ack = None then 2 else 3)"
  by (simp add: frag_head_def split: option.splits)

lemma IncSeqNum_eq [simp]: "IncSeqNum n = n + 1"
proof -
  have "(0xFF :: u8) = - 1" by simp
  then show ?thesis unfolding IncSeqNum_def by (simp only: and.left_neutral)
qed

definition acked :: "u8 option \<Rightarrow> WoBle \<Rightarrow> WoBle" where
  "acked ack w = (case ack of None \<Rightarrow> w | Some a \<Rightarrow> snd (HandleAckReceived a w))"

definition head_taken :: "u8 option \<Rightarrow> WoBle \<Rightarrow> WoBle" where
  "head_taken ack w = (acked ack (w\<lparr>mRxCharCount := mRxCharCount w + 1\<rparr>))\<lparr>mRxNewestUnackedSeqNum := mRxNextSeqNum w, mRxNextSeqNum := mRxNextSeqNum w + 1\<rparr>"

definition ack_ok :: "u8 option \<Rightarrow> WoBle \<Rightarrow> bool" where
  "ack_ok ack w \<longleftrightarrow> (case ack of None \<Rightarrow> True | Some a \<Rightarrow> IsValidAck a w)"

lemma byte_at_contents: "\<lbrakk>wf_buf b; i < length (contents b)\<rbrakk> \<Longrightarrow> byte_at b i = Some (contents b ! i)"
  using length_contents [of b] by (auto simp: byte_at_def contents_def wf_buf_def AllocSize_def)

lemma ReceiveHead_ok:
  assumes "wf_buf b" "contents b = frag_head first ack ends n @ body" "n = mRxNextSeqNum w" "ack_ok ack w"
  shows "ReceiveHead b w = Some (BLE_NO_ERROR, frag_flags first (ack \<noteq> None) ends, length (frag_head first ack ends n), ack, head_taken ack w)"
proof (cases ack)
  case None
  have "byte_at b 0 = Some (frag_flags first False ends)" "byte_at b (Suc 0) = Some n"
    using byte_at_contents [OF assms(1), of 0] byte_at_contents [OF assms(1), of 1] assms(2) None by (simp_all add: frag_head_def)
  then show ?thesis using assms(3) None by (simp add: ReceiveHead_def head_taken_def acked_def frag_head_def)
next
  case (Some a)
  have bs: "byte_at b 0 = Some (frag_flags first True ends)" "byte_at b (Suc 0) = Some a" "byte_at b 2 = Some n"
    using byte_at_contents [OF assms(1), of 0] byte_at_contents [OF assms(1), of 1] byte_at_contents [OF assms(1), of 2] assms(2) Some
    by (simp_all add: frag_head_def)
  have "IsValidAck a (w\<lparr>mRxCharCount := m\<rparr>)" for m using assms(4) Some by (simp add: ack_ok_def IsValidAck_def split: if_splits)
  then have "fst (HandleAckReceived a (w\<lparr>mRxCharCount := m\<rparr>)) = BLE_NO_ERROR"
    "mRxNextSeqNum (snd (HandleAckReceived a (w\<lparr>mRxCharCount := m\<rparr>))) = mRxNextSeqNum w" for m
    by (simp_all add: HandleAckReceived_def)
  then show ?thesis using assms(3) Some bs
    by (simp add: ReceiveHead_def head_taken_def acked_def frag_head_def split_beta numeral_2_eq_2 numeral_3_eq_3)
qed

text \<open>What is left of a fragment once its length is limited and its head of \<open>k\<close> bytes is passed.\<close>

definition payload_of :: "nat \<Rightarrow> u16 \<Rightarrow> PacketBuffer \<Rightarrow> PacketBuffer" where
  "payload_of k limit b = SetStart (int (payload b + k)) (SetLen (min (DataLength b) limit) b)"

lemma payload_of_ok:
  assumes "wf_buf b" "len b \<le> limit" "contents b = hdr @ chunk" "k = length hdr"
  shows "contents (payload_of k limit b) = chunk" "wf_buf (payload_of k limit b)"
proof -
  let ?b = "SetLen (len b) b"
  have l: "unat (len b) \<le> room b" "payload b + room b = AllocSize b" using assms(1) by (auto simp: wf_buf_def room_def)
  have r: "wf_buf ?b" "contents ?b = contents b"
    using pbuf.resize [OF assms(1) l(1) refl] pbuf.data_view [OF assms(1)] length_contents [OF assms(1)] by auto
  have e: "payload_of k limit b = SetStart (int (payload ?b + k)) ?b"
    using assms(2) by (simp add: payload_of_def DataLength_def min_absorb1)
  have "k \<le> length (contents ?b)" using r(2) assms(3,4) by simp
  from pbuf.advance [OF r(1) this e] show "contents (payload_of k limit b) = chunk" "wf_buf (payload_of k limit b)"
    using r(2) assms(3,4) by auto
qed

lemma FinishFragment_ok:
  assumes "ends \<longrightarrow> length (contents (heap r q)) = unat (mRxLength v)" "wf_buf (heap r q)"
  shows "FinishFragment (frag_flags first ack ends) q v r = (BLE_NO_ERROR, None,
    if ends then v\<lparr>mRxState := kState_Complete, mRxPacketCount := mRxPacketCount v + 1\<rparr> else v, r)"
proof -
  have "len (heap r q) = mRxLength v" if ends using assms that length_contents [OF assms(2)] by (simp add: word_unat_eq_iff)
  then show ?thesis by (simp add: FinishFragment_def DataLength_def)
qed

lemma following_fragment:
  assumes "held r (p # q # ps) fs" "contents (heap r p) = frag_head False ack ends (mRxNextSeqNum v) @ chunk" "ack_ok ack v"
    "len (heap r p) \<le> mRxFragmentSize v" "mRxState v = kState_InProgress" "mRxBuf v = Some q"
    "length (contents (heap r q)) + length chunk \<le> ALLOCSIZE_MAX" "length (contents (heap r q)) < ALLOCSIZE_MAX"
    "ends \<longrightarrow> length (contents (heap r q)) + length chunk = unat (mRxLength v)"
  obtains r' where "HandleCharacteristicReceived p v r = Some (BLE_NO_ERROR, ack, if ends
      then (head_taken ack v)\<lparr>mRxState := kState_Complete, mRxPacketCount := mRxPacketCount v + 1\<rparr> else head_taken ack v, r')"
    "held r' (q # ps) (p # fs)" "contents (heap r' q) = contents (heap r q) @ chunk"
proof -
  let ?w = "head_taken ack v" and ?h = "frag_head False ack ends (mRxNextSeqNum v)"
  let ?b = "payload_of (length ?h) (mRxFragmentSize v) (heap r p)"
  have h: "wf_buf (heap r p)" "wf_buf (heap r q)" "AllocSize (heap r p) = ALLOCSIZE_MAX" "ref (heap r p) = 1" "pnext (heap r p) = None" "p \<noteq> q"
    using assms(1) by (auto simp: held_def)
  have w: "mRxState ?w = kState_InProgress" "mRxBuf ?w = Some q" "mRxFragmentSize ?w = mRxFragmentSize v" "mRxLength ?w = mRxLength v"
    "mRxPacketCount ?w = mRxPacketCount v"
    using assms(5,6) by (auto simp: head_taken_def acked_def HandleAckReceived_def split: option.splits)
  note pl = payload_of_ok [OF h(1) assms(4,2) refl]
  have hb: "held (r\<lparr>heap := (heap r)(p := ?b)\<rparr>) (p # q # ps) fs"
    using pl(2) h by (intro held_update [OF assms(1)]) (auto simp: payload_of_def)
  have lens: "unat (len ?b) = length chunk" "unat (len (heap r q)) = length (contents (heap r q))"
    using length_contents [OF pl(2)] pl(1) length_contents [OF h(2)] by simp_all
  obtain r' where r': "Append q p (r\<lparr>heap := (heap r)(p := ?b)\<rparr>) = Some r'" "held r' (q # ps) (p # fs)"
    "contents (heap r' q) = contents (heap r q) @ chunk"
    by (rule held_append [OF hb]) (use assms(7,8) h(6) lens pl(1) in auto)
  have nx: "Next_buf q (heap r') = None" "wf_buf (heap r' q)" using r'(2) by (auto simp: held_def Next_buf_def)
  have fin: "FinishFragment (frag_flags False (ack \<noteq> None) ends) q ?w r' = (BLE_NO_ERROR, None,
      if ends then ?w\<lparr>mRxState := kState_Complete, mRxPacketCount := mRxPacketCount v + 1\<rparr> else ?w, r')"
    using FinishFragment_ok [of ends r' q ?w] r'(3) nx(2) assms(9) w(4,5) by simp
  have "Reassemble p (frag_flags False (ack \<noteq> None) ends) (length ?h) ?w
      (r\<lparr>heap := (heap r)(p := SetLen (min (DataLength (heap r p)) (mRxFragmentSize ?w)) (heap r p))\<rparr>) =
    Some (BLE_NO_ERROR, None, if ends then ?w\<lparr>mRxState := kState_Complete, mRxPacketCount := mRxPacketCount v + 1\<rparr> else ?w, r')"
    using r'(1) nx(1) fin w by (simp add: Reassemble_def payload_of_def)
  then have "HandleCharacteristicReceived p v r = Some (BLE_NO_ERROR, ack, if ends
      then ?w\<lparr>mRxState := kState_Complete, mRxPacketCount := mRxPacketCount v + 1\<rparr> else ?w, r')"
    unfolding HandleCharacteristicReceived_def using ReceiveHead_ok [OF h(1) assms(2) refl assms(3)] by simp
  then show ?thesis using that r'(2,3) by blast
qed

lemma first_fragment:
  assumes "held r (p # ps) (q # fs)" "contents (heap r p) = frag_head True ack ends (mRxNextSeqNum v) @ [lo, hi] @ chunk" "ack_ok ack v"
    "len (heap r p) \<le> mRxFragmentSize v" "mRxState v = kState_Idle"
    "msgLen = push_bit 8 (ucast hi) OR ucast lo" "ends \<longrightarrow> length chunk = unat (msgLen :: u16)"
  obtains r' n where "HandleCharacteristicReceived p v r = Some (BLE_NO_ERROR, ack, (head_taken ack v)\<lparr>mRxLength := msgLen,
      mRxState := (if ends then kState_Complete else kState_InProgress), mRxBuf := Some q, mRxPacketCount := n\<rparr>, r')"
    "held r' (q # ps) (p # fs)" "contents (heap r' q) = chunk"
proof -
  let ?w = "head_taken ack v" and ?h = "frag_head True ack ends (mRxNextSeqNum v)"
  let ?b = "payload_of (length ?h + 2) (mRxFragmentSize v) (heap r p)"
  let ?l = "SetLen (min (DataLength (heap r p)) (mRxFragmentSize ?w)) (heap r p)"
  let ?v = "?w\<lparr>mRxLength := msgLen, mRxState := kState_InProgress, mRxBuf := Some q\<rparr>"
  have h: "wf_buf (heap r p)" "AllocSize (heap r p) = ALLOCSIZE_MAX" "ref (heap r p) = 1" "pnext (heap r p) = None" "p \<noteq> q"
    using assms(1) by (auto simp: held_def)
  have w: "mRxState ?w = kState_Idle" "mRxFragmentSize ?w = mRxFragmentSize v"
    using assms(5) by (auto simp: head_taken_def acked_def HandleAckReceived_def split: option.splits)
  have "contents (heap r p) = (?h @ [lo, hi]) @ chunk" using assms(2) by simp
  note pl = payload_of_ok [OF h(1) assms(4) this, of "length ?h + 2"]
  have hb: "held (r\<lparr>heap := (heap r)(p := ?b)\<rparr>) (p # ps) (q # fs)"
    using pl(2) h by (intro held_update [OF assms(1)]) (auto simp: payload_of_def)
  obtain r1 where r1: "New_buf 38 (r\<lparr>heap := (heap r)(p := ?b)\<rparr>) = (Some q, r1)" "held r1 (q # p # ps) fs" "contents (heap r1 q) = []"
    "\<And>x. x \<noteq> q \<Longrightarrow> heap r1 x = heap (r\<lparr>heap := (heap r)(p := ?b)\<rparr>) x"
    by (rule held_new [OF hb, of 38]) auto
  have hr1: "held r1 (p # q # ps) fs" using r1(2) by (auto simp: held_def)
  have c1: "heap r1 p = ?b" using r1(4) h(5) by simp
  have lens: "unat (len (heap r1 p)) = length chunk" "length chunk \<le> ALLOCSIZE_MAX" "unat (len (heap r1 q)) = 0"
    using length_contents [OF pl(2)] pl c1 h(2) length_contents [of "heap r1 q"] r1(2,3)
    by (auto simp: held_def wf_buf_def payload_of_def)
  obtain r' where r': "Append q p r1 = Some r'" "held r' (q # ps) (p # fs)" "contents (heap r' q) = chunk"
    by (rule held_append [OF hr1]) (use lens c1 pl(1) r1(3) in auto)
  have wq: "wf_buf (heap r' q)" using r'(2) by (simp add: held_def)
  have "wf_buf ?l" "contents ?l = contents (heap r p)"
    using payload_of_ok [OF h(1) assms(4), of "[]" "contents (heap r p)" 0] w(2) SetLength_wf(1) [OF h(1)]
      SetLength_truncate [OF h(1), of "len (heap r p)"] assms(4) length_contents [OF h(1)]
    by (simp_all add: SetLen_def DataLength_def min_absorb1)
  then have bytes: "byte_at ?l (Suc (length ?h)) = Some hi" "byte_at ?l (length ?h) = Some lo"
    using byte_at_contents [of ?l] assms(2) by (simp_all add: nth_append)
  have fin: "FinishFragment (frag_flags True (ack \<noteq> None) ends) q ?v r' = (BLE_NO_ERROR, None,
      if ends then ?v\<lparr>mRxState := kState_Complete, mRxPacketCount := mRxPacketCount ?v + 1\<rparr> else ?v, r')"
    using FinishFragment_ok [of ends r' q ?v] r'(3) wq assms(7) by simp
  have "Reassemble p (frag_flags True (ack \<noteq> None) ends) (length ?h) ?w (r\<lparr>heap := (heap r)(p := ?l)\<rparr>) =
    Some (BLE_NO_ERROR, None, if ends then ?v\<lparr>mRxState := kState_Complete, mRxPacketCount := mRxPacketCount ?v + 1\<rparr> else ?v, r')"
    using bytes r1(1) r'(1) fin w by (simp add: Reassemble_def payload_of_def assms(6) add.assoc)
  then have "HandleCharacteristicReceived p v r = Some (BLE_NO_ERROR, ack, if ends
      then ?v\<lparr>mRxState := kState_Complete, mRxPacketCount := mRxPacketCount ?v + 1\<rparr> else ?v, r')"
    unfolding HandleCharacteristicReceived_def using ReceiveHead_ok [OF h(1) assms(2) refl assms(3)] by simp
  then show ?thesis using that [of "if ends then mRxPacketCount ?w + 1 else mRxPacketCount ?w"] r'(2,3) by (cases ends) auto
qed

section \<open>Sending fragments\<close>

text \<open>
  In the middle of a message: the previous fragment fills the window of \<open>F\<close> bytes, and behind it are the bytes still to be
  sent.
\<close>

definition sending :: "WoBle \<Rightarrow> BufferPool \<Rightarrow> ptr \<Rightarrow> u8 list \<Rightarrow> bool" where
  "sending w s p rest \<longleftrightarrow>
     (let b = heap s p; F = unat (mTxFragmentSize w) in
      mTxState w = kState_InProgress \<and> mTxBuf w = Some p \<and> wf_buf b \<and> len b = mTxFragmentSize w \<and>
      unat (mTxLength w) = length rest \<and> F + length rest \<le> room b \<and> drop F (window (F + length rest) b) = rest)"

lemma sent_flags:
  "(if ends then SetFlag 4 True (if ack then SetFlag 8 True (if first then 1 else 2) else if first then 1 else 2)
    else if ack then SetFlag 8 True (if first then 1 else 2) else if first then 1 else 2) = frag_flags first ack ends"
  by (cases first; cases ack; cases ends; simp add: frag_flags_def SetFlag_def GetFlag_def Let_def)

text \<open>The engine after numbering a fragment, and after cutting \<open>j\<close> bytes off the message.\<close>

definition numbered :: "bool \<Rightarrow> WoBle \<Rightarrow> WoBle" where
  "numbered send_ack w = snd (GetAndIncrementNextTxSeqNum (if send_ack then snd (GetAndRecordRxAckSeqNum w) else w))"

definition cut :: "bool \<Rightarrow> u16 \<Rightarrow> WoBle \<Rightarrow> WoBle" where
  "cut ends j w = (if ends then w\<lparr>mTxLength := 0, mTxState := kState_Complete, mTxPacketCount := mTxPacketCount w + 1\<rparr>
     else w\<lparr>mTxLength := mTxLength w - j\<rparr>)"

lemma numbered_fields [simp]:
  "mTxNextSeqNum (numbered send_ack w) = mTxNextSeqNum w + 1" "mTxFragmentSize (numbered send_ack w) = mTxFragmentSize w"
  "mTxLength (numbered send_ack w) = mTxLength w" "mTxState (numbered send_ack w) = mTxState w" "mTxBuf (numbered send_ack w) = mTxBuf w"
  by (auto simp: numbered_def GetAndIncrementNextTxSeqNum_def GetAndRecordRxAckSeqNum_def Let_def)

lemma cut_fields [simp]:
  "mTxNextSeqNum (cut ends j w) = mTxNextSeqNum w" "mTxFragmentSize (cut ends j w) = mTxFragmentSize w" "mTxBuf (cut ends j w) = mTxBuf w"
  by (auto simp: cut_def)

lemma EmitFragment_eq:
  assumes "ack = (if send_ack then Some (mRxNewestUnackedSeqNum w) else None)" "k = (if send_ack then 3 else 2) + length lenField"
    "ends \<longleftrightarrow> unat (mTxLength w) + k \<le> unat (mTxFragmentSize w)"
  shows "EmitFragment p at (if first then 1 else 2) lenField send_ack w s =
    (if at + k > AllocSize (heap s p) then None
     else Some (True, cut ends (mTxFragmentSize w - of_nat k) (numbered send_ack w),
       s\<lparr>heap := (heap s)(p := SetLen (if ends then mTxLength w + of_nat k else mTxFragmentSize w)
         (poke at (frag_head first ack ends (mTxNextSeqNum w) @ lenField) (SetStart (int at) (heap s p))))\<rparr>))"
proof -
  have x: "(if send_ack then case GetAndRecordRxAckSeqNum w of (a, w1) \<Rightarrow> ([a], w1) else ([], w)) =
      (if send_ack then [mRxNewestUnackedSeqNum w] else [], if send_ack then snd (GetAndRecordRxAckSeqNum w) else w)"
    by (simp add: GetAndRecordRxAckSeqNum_def)
  have "fst (GetAndIncrementNextTxSeqNum (if send_ack then snd (GetAndRecordRxAckSeqNum w) else w)) = mTxNextSeqNum w"
    by (auto simp: GetAndIncrementNextTxSeqNum_def GetAndRecordRxAckSeqNum_def Let_def)
  then have y: "GetAndIncrementNextTxSeqNum (if send_ack then snd (GetAndRecordRxAckSeqNum w) else w) = (mTxNextSeqNum w, numbered send_ack w)"
    by (simp add: numbered_def prod_eq_iff)
  have z: "1 + length (if send_ack then [mRxNewestUnackedSeqNum w] else []) + 1 + length lenField = k" using assms(2) by simp
  have r: "unat (mTxLength (numbered send_ack w)) + k \<le> unat (mTxFragmentSize (numbered send_ack w)) \<longleftrightarrow> ends" using assms(3) by simp
  show ?thesis unfolding EmitFragment_def x Let_def prod.case y z r
    using sent_flags [of ends send_ack first] by (cases ends; cases send_ack) (simp_all add: cut_def frag_head_def assms(1))
qed

lemma EmitFragment_ok:
  assumes "wf_buf b" "payload b = at" "b = SetStart (int at) (heap s p)" "k + length rest \<le> room b"
    "drop k (window (k + length rest) b) = rest" "unat (mTxLength w) = length rest" "k < F" "F = unat (mTxFragmentSize w)"
    "ack = (if send_ack then Some (mRxNewestUnackedSeqNum w) else None)" "k = (if send_ack then 3 else 2) + length lenField"
    "ends \<longleftrightarrow> length rest + k \<le> F" "mTxState w = kState_InProgress" "mTxBuf w = Some p"
  obtains w' b' where
    "EmitFragment p at (if first then 1 else 2) lenField send_ack w s = Some (True, w', s\<lparr>heap := (heap s)(p := b')\<rparr>)"
    "contents b' = frag_head first ack ends (mTxNextSeqNum w) @ lenField @ take (F - k) rest" "wf_buf b'"
    "mTxNextSeqNum w' = mTxNextSeqNum w + 1" "mTxFragmentSize w' = mTxFragmentSize w" "mTxBuf w' = Some p"
    "mTxState w' = (if ends then kState_Complete else kState_InProgress)"
    "\<not> ends \<longrightarrow> sending w' (s\<lparr>heap := (heap s)(p := b')\<rparr>) p (drop (F - k) rest)"
proof -
  define hdr where "hdr = frag_head first ack ends (mTxNextSeqNum w) @ lenField"
  define b1 where "b1 = poke at hdr b"
  define m where "m = (if ends then mTxLength w + of_nat k else mTxFragmentSize w)"
  let ?b' = "SetLen m b1" and ?s' = "s\<lparr>heap := (heap s)(p := SetLen m b1)\<rparr>" and ?w' = "cut ends (mTxFragmentSize w - of_nat k) (numbered send_ack w)"
  have lh: "length hdr = k" using assms(9,10) by (simp add: hdr_def frag_head_length)
  have room: "payload b + room b = AllocSize b" "AllocSize b < 65536" using assms(1) by (auto simp: wf_buf_def room_def)
  have ku: "unat (of_nat k :: u16) = k" using assms(4) room by (intro unat_of_nat_u16) simp
  have um: "unat m = (if ends then length rest + k else F)" using assms(4,6,8) ku room by (simp add: m_def unat_word_ariths)
  have mr: "unat m \<le> room b" "k \<le> unat m" "unat m \<le> length rest + k" using um assms(4,7,11) by auto
  have st: "wf_buf b1" "payload b1 = at" "room b1 = room b" "\<And>j. \<lbrakk>k \<le> j; j \<le> room b\<rbrakk> \<Longrightarrow> window j b1 = hdr @ drop k (window j b)"
    using pbuf.stored [OF assms(1), of at hdr b1] assms(2,4) lh by (auto simp: b1_def)
  have wj: "window j b1 = hdr @ take (j - k) rest" if "k \<le> j" "j \<le> length rest + k" for j
  proof -
    have "window j b = take j (window (k + length rest) b)" using that by (simp add: window_def min_absorb1)
    then show ?thesis using st(4) [OF that(1)] that assms(4,5) by (simp add: drop_take)
  qed
  have re: "wf_buf ?b'" "room ?b' = room b" "contents ?b' = window (unat m) b1" using pbuf.resize [OF st(1), of m ?b'] st(2,3) mr(1) by auto
  have c: "contents ?b' = hdr @ take (F - k) rest" using re(3) wj [OF mr(2,3)] um assms(11) by auto
  have e: "EmitFragment p at (if first then 1 else 2) lenField send_ack w s = Some (True, ?w', ?s')"
    using EmitFragment_eq [OF assms(9,10), of ends p at first s] assms(2-4,6,8,11) room by (simp add: b1_def m_def hdr_def)
  have "sending ?w' ?s' p (drop (F - k) rest)" if "\<not> ends"
  proof -
    have le: "of_nat k \<le> mTxFragmentSize w" "F - k \<le> length rest" using ku assms(7,8,11) that by (auto simp: word_le_nat_alt)
    have "unat (mTxLength w - (mTxFragmentSize w - of_nat k)) = length rest - (F - k)"
      using unat_sub [of "mTxFragmentSize w - of_nat k" "mTxLength w"] unat_sub [OF le(1)] ku le(2) assms(6,8) by (simp add: word_le_nat_alt)
    moreover have "len ?b' = mTxFragmentSize w" using length_contents [OF re(1)] c lh le(2) assms(7,8) by (simp add: word_unat_eq_iff)
    moreover have "F + (length rest - (F - k)) = length rest + k" using le(2) assms(7) by simp
    moreover have "window (length rest + k) ?b' = hdr @ rest" using wj [of "length rest + k"] by (simp add: window_def)
    ultimately show ?thesis using that re(1,2) assms(4,7,8,12,13) lh by (simp add: sending_def Let_def cut_def)
  qed
  then show ?thesis using that [of ?w' ?b'] e c re(1) assms(12,13) by (simp add: hdr_def) (simp add: cut_def)
qed

lemma send_first:
  assumes "mTxState w = kState_Idle" "wf_buf (heap s p)" "contents (heap s p) = msg" "length msg + 5 \<le> AllocSize (heap s p)"
    "send_ack \<longrightarrow> HasUnackedData w" "F = unat (mTxFragmentSize w)" "6 \<le> F" "k = (if send_ack then 5 else 4)" "ends \<longleftrightarrow> length msg + k \<le> F"
    "ack = (if send_ack then Some (mRxNewestUnackedSeqNum w) else None)"
  obtains w' s' where "HandleCharacteristicSend (Some p) send_ack w s = Some (True, w', s')"
    "contents (heap s' p) = frag_head True ack ends (mTxNextSeqNum w) @ [ucast (len (heap s p) AND 0xFF), ucast (drop_bit 8 (len (heap s p)))] @ take (F - k) msg"
    "mTxNextSeqNum w' = mTxNextSeqNum w + 1" "mTxFragmentSize w' = mTxFragmentSize w" "mTxBuf w' = Some p"
    "mTxState w' = (if ends then kState_Complete else kState_InProgress)" "\<not> ends \<longrightarrow> sending w' s' p (drop (F - k) msg)"
proof -
  let ?hs = "(if send_ack then 5 else 4) :: u16"
  obtain fits b where er: "EnsureReservedSize ?hs (heap s p) = (fits, b)" by fastforce
  have l: "unat (len (heap s p)) = length msg" using length_contents [OF assms(2)] assms(3) by simp
  have "fits" using EnsureReservedSize_fails [OF assms(2), of ?hs b] er assms(4) l by (cases fits) (auto split: if_splits)
  then have eq: "EnsureReservedSize ?hs (heap s p) = (True, b)" using er by simp
  note b = EnsureReservedSize_ok [OF assms(2) eq]
  have hs: "unat ?hs = k" "k \<le> payload b" using b(3) assms(8) by (auto split: if_splits)
  define w2 where "w2 = w\<lparr>mTxCharCount := mTxCharCount w + 1, mTxBuf := Some p, mTxState := kState_InProgress, mTxLength := len (heap s p)\<rparr>"
  define s1 where "s1 = s\<lparr>heap := (heap s)(p := b)\<rparr>"
  let ?b = "SetStart (int (payload b - k)) b"
  have b1: "wf_buf ?b" "payload ?b = payload b - k" "room ?b = room b + k" "drop k (window (k + length msg) ?b) = msg"
    using pbuf.retract [OF b(1) hs(2) refl, of "length msg"] pbuf.data_view [OF b(1)] b(2) assms(3) by simp_all
  have r: "k + length msg \<le> room ?b" using b1(3) pbuf.data_fits [OF b(1)] b(2) assms(3) by simp
  have send: "HandleCharacteristicSend (Some p) send_ack w s = EmitFragment p (payload b - k) (if True then 1 else 2)
      [ucast (len (heap s p) AND 0xFF), ucast (drop_bit 8 (len (heap s p)))] send_ack w2 s1"
    using assms(1,5) eq hs by (auto simp: HandleCharacteristicSend_def HasUnackedData_def Let_def DataLength_def Start_def w2_def s1_def)
  let ?lf = "[ucast (len (heap s p) AND 0xFF), ucast (drop_bit 8 (len (heap s p)))] :: u8 list"
  have w2: "unat (mTxLength w2) = length msg" "F = unat (mTxFragmentSize w2)" "ack = (if send_ack then Some (mRxNewestUnackedSeqNum w2) else None)"
    "mTxState w2 = kState_InProgress" "mTxBuf w2 = Some p" "mTxNextSeqNum w2 = mTxNextSeqNum w" "mTxFragmentSize w2 = mTxFragmentSize w"
    using l assms(6,10) by (simp_all add: w2_def)
  have o: "?b = SetStart (int (payload b - k)) (heap s1 p)" "k < F" "k = (if send_ack then 3 else 2) + length ?lf" using assms(7,8) by (auto simp: s1_def)
  obtain w' b' where "EmitFragment p (payload b - k) (if True then 1 else 2) ?lf send_ack w2 s1 = Some (True, w', s1\<lparr>heap := (heap s1)(p := b')\<rparr>)"
    "contents b' = frag_head True ack ends (mTxNextSeqNum w2) @ ?lf @ take (F - k) msg" "wf_buf b'"
    "mTxNextSeqNum w' = mTxNextSeqNum w2 + 1" "mTxFragmentSize w' = mTxFragmentSize w2" "mTxBuf w' = Some p"
    "mTxState w' = (if ends then kState_Complete else kState_InProgress)" "\<not> ends \<longrightarrow> sending w' (s1\<lparr>heap := (heap s1)(p := b')\<rparr>) p (drop (F - k) msg)"
    by (rule EmitFragment_ok [where first = True, OF b1(1,2) o(1) r b1(4) w2(1) o(2) w2(2,3) o(3) assms(9) w2(4,5)])
  then show ?thesis using that [of w' "s1\<lparr>heap := (heap s1)(p := b')\<rparr>"] send w2(6,7) by simp
qed

lemma send_next:
  assumes "sending w s p rest" "F = unat (mTxFragmentSize w)" "3 \<le> F" "ends \<longleftrightarrow> length rest + 2 \<le> F"
  obtains w' s' where "HandleCharacteristicSend None False w s = Some (True, w', s')"
    "contents (heap s' p) = frag_head False None ends (mTxNextSeqNum w) @ take (F - 2) rest"
    "mTxNextSeqNum w' = mTxNextSeqNum w + 1" "mTxFragmentSize w' = mTxFragmentSize w" "mTxBuf w' = Some p"
    "mTxState w' = (if ends then kState_Complete else kState_InProgress)" "\<not> ends \<longrightarrow> sending w' s' p (drop (F - 2) rest)"
proof -
  let ?b = "heap s p"
  define w1 where "w1 = w\<lparr>mTxCharCount := mTxCharCount w + 1\<rparr>"
  have S: "mTxState w = kState_InProgress" "mTxBuf w = Some p" "wf_buf ?b" "len ?b = mTxFragmentSize w" "unat (mTxLength w) = length rest"
    "F + length rest \<le> room ?b" "drop F (window (F + length rest) ?b) = rest" using assms(1,2) by (auto simp: sending_def Let_def)
  let ?b1 = "SetStart (int (payload ?b + (F - 2))) ?b"
  have le: "payload ?b + (F - 2) \<le> payload ?b + unat (len ?b)" using S(4) assms(2) by simp
  note x = SetStart_inside [OF S(3) le]
  have b1: "wf_buf ?b1" "payload ?b1 = payload ?b + (F - 2)" "room ?b1 = room ?b - (F - 2)" using x by (simp_all add: room_def)
  have "window (2 + length rest) ?b1 = drop (F - 2) (window (F + length rest) ?b)"
    using x(2) assms(3) by (simp add: window_def drop_take ac_simps)
  moreover have "2 + (F - 2) = F" using assms(3) by simp
  then have "drop 2 (drop (F - 2) xs) = drop F xs" for xs :: "u8 list" by (metis drop_drop)
  ultimately have d: "drop 2 (window (2 + length rest) ?b1) = rest" using S(7) by simp
  have at: "payload ?b + F - 2 = payload ?b + (F - 2)" using assms(3) by simp
  have send: "HandleCharacteristicSend None False w s = EmitFragment p (payload ?b + (F - 2)) (if False then 1 else 2) [] False w1 s"
    using S(1,2) assms(2,3) at by (simp add: HandleCharacteristicSend_def Let_def Start_def w1_def)
  have w1: "unat (mTxLength w1) = length rest" "F = unat (mTxFragmentSize w1)" "None = (if False then Some (mRxNewestUnackedSeqNum w1) else None)"
    "mTxState w1 = kState_InProgress" "mTxBuf w1 = Some p" "mTxNextSeqNum w1 = mTxNextSeqNum w" "mTxFragmentSize w1 = mTxFragmentSize w"
    using S assms(2) by (simp_all add: w1_def)
  have o: "2 + length rest \<le> room ?b1" "2 < F" "2 = (if False then 3 else 2) + length ([] :: u8 list)" using b1(3) S(6) assms(3) by auto
  obtain w' b' where "EmitFragment p (payload ?b + (F - 2)) (if False then 1 else 2) [] False w1 s = Some (True, w', s\<lparr>heap := (heap s)(p := b')\<rparr>)"
    "contents b' = frag_head False None ends (mTxNextSeqNum w1) @ [] @ take (F - 2) rest" "wf_buf b'"
    "mTxNextSeqNum w' = mTxNextSeqNum w1 + 1" "mTxFragmentSize w' = mTxFragmentSize w1" "mTxBuf w' = Some p"
    "mTxState w' = (if ends then kState_Complete else kState_InProgress)" "\<not> ends \<longrightarrow> sending w' (s\<lparr>heap := (heap s)(p := b')\<rparr>) p (drop (F - 2) rest)"
    by (rule EmitFragment_ok [where first = False, OF b1(1,2) refl o(1) d w1(1) o(2) w1(2,3) o(3) assms(4) w1(4,5)])
  then show ?thesis using that [of w' "s\<lparr>heap := (heap s)(p := b')\<rparr>"] send w1(6,7) by simp
qed

section \<open>A whole message\<close>

text \<open>One fragment over the air: the bytes of the sender's buffer arrive at the receiver \<open>v\<close> with pool \<open>r\<close>.\<close>

definition deliver :: "WoBle \<Rightarrow> BufferPool \<Rightarrow> WoBle \<Rightarrow> BufferPool \<Rightarrow> (WoBle \<times> BufferPool) option" where
  "deliver w s v r = do {
     t \<leftarrow> mTxBuf w;
     (p, r1) \<leftarrow> incoming (contents (heap s t)) r;
     (err, ack, v1, r2) \<leftarrow> HandleCharacteristicReceived p v r1;
     if err = BLE_NO_ERROR then Some (v1, r2) else None }"

text \<open>Fragments until the sender has no more, at most \<open>n\<close>; \<open>None\<close> if an engine reports an error or \<open>n\<close> are not enough.\<close>

primrec send_rest :: "nat \<Rightarrow> WoBle \<Rightarrow> BufferPool \<Rightarrow> WoBle \<Rightarrow> BufferPool \<Rightarrow> (WoBle \<times> BufferPool \<times> WoBle \<times> BufferPool) option" where
  "send_rest 0 w s v r = (if mTxState w = kState_Complete then Some (w, s, v, r) else None)"
| "send_rest (Suc n) w s v r =
     (if mTxState w = kState_Complete then Some (w, s, v, r)
      else do {
        (sent, w1, s1) \<leftarrow> HandleCharacteristicSend None False w s;
        (v1, r1) \<leftarrow> (if sent then deliver w1 s1 v r else None);
        send_rest n w1 s1 v1 r1 })"

definition transfer :: "nat \<Rightarrow> ptr \<Rightarrow> bool \<Rightarrow> WoBle \<Rightarrow> BufferPool \<Rightarrow> WoBle \<Rightarrow> BufferPool \<Rightarrow> (WoBle \<times> BufferPool \<times> WoBle \<times> BufferPool) option" where
  "transfer n p send_ack w s v r = do {
     (sent, w1, s1) \<leftarrow> HandleCharacteristicSend (Some p) send_ack w s;
     (v1, r1) \<leftarrow> (if sent then deliver w1 s1 v r else None);
     send_rest n w1 s1 v1 r1 }"

lemma head_taken_fields [simp]:
  "mRxNextSeqNum (head_taken ack v) = mRxNextSeqNum v + 1" "mRxFragmentSize (head_taken ack v) = mRxFragmentSize v"
  "mRxState (head_taken ack v) = mRxState v" "mRxBuf (head_taken ack v) = mRxBuf v" "mRxLength (head_taken ack v) = mRxLength v"
  by (auto simp: head_taken_def acked_def HandleAckReceived_def split: option.splits)

text \<open>The receiver in the middle of a message of which \<open>got\<close> has arrived.\<close>

definition receiving :: "WoBle \<Rightarrow> BufferPool \<Rightarrow> ptr \<Rightarrow> ptr list \<Rightarrow> ptr list \<Rightarrow> u8 list \<Rightarrow> nat \<Rightarrow> bool" where
  "receiving v r q ps fs got n \<longleftrightarrow> held r (q # ps) fs \<and> mRxState v = kState_InProgress \<and> mRxBuf v = Some q \<and>
     contents (heap r q) = got \<and> unat (mRxLength v) = n \<and> n \<le> ALLOCSIZE_MAX"

definition received :: "WoBle \<Rightarrow> BufferPool \<Rightarrow> ptr \<Rightarrow> ptr list \<Rightarrow> ptr list \<Rightarrow> u8 list \<Rightarrow> bool" where
  "received v r q ps fs msg \<longleftrightarrow> held r (q # ps) fs \<and> mRxState v = kState_Complete \<and> mRxBuf v = Some q \<and> contents (heap r q) = msg"

text \<open>The two ends agree on the next number and on the size of a fragment.\<close>

definition in_step :: "WoBle \<Rightarrow> WoBle \<Rightarrow> bool" where
  "in_step w v \<longleftrightarrow> mRxNextSeqNum v = mTxNextSeqNum w \<and> mTxFragmentSize w \<le> mRxFragmentSize v \<and> mTxFragmentSize w \<le> 512"

lemma deliver_next:
  assumes "mTxBuf w = Some p" "contents (heap s p) = frag_head False None ends (mRxNextSeqNum v) @ chunk" "receiving v r q ps (f # fs) got n"
    "length (contents (heap s p)) \<le> unat (mRxFragmentSize v)" "length (contents (heap s p)) \<le> ALLOCSIZE_MAX" "chunk \<noteq> []"
    "length got + length chunk \<le> n" "ends \<longrightarrow> length got + length chunk = n"
  obtains v' r' where "deliver w s v r = Some (v', r')" "mRxNextSeqNum v' = mRxNextSeqNum v + 1" "mRxFragmentSize v' = mRxFragmentSize v"
    "if ends then received v' r' q ps (f # fs) (got @ chunk) else receiving v' r' q ps (f # fs) (got @ chunk) n"
proof -
  have R: "held r (q # ps) (f # fs)" "mRxState v = kState_InProgress" "mRxBuf v = Some q" "contents (heap r q) = got"
    "unat (mRxLength v) = n" "n \<le> ALLOCSIZE_MAX" using assms(3) by (auto simp: receiving_def)
  obtain r1 where r1: "incoming (contents (heap s p)) r = Some (f, r1)" "held r1 (f # q # ps) fs" "contents (heap r1 f) = contents (heap s p)"
    "\<And>x. x \<noteq> f \<Longrightarrow> heap r1 x = heap r x" by (rule incoming_ok [OF R(1) assms(5)]) blast
  have q: "heap r1 q = heap r q" using r1(4) R(1) by (simp add: held_def)
  have wf: "wf_buf (heap r1 f)" using r1(2) by (simp add: held_def)
  have le: "len (heap r1 f) \<le> mRxFragmentSize v" using length_contents [OF wf] r1(3) assms(4) by (simp add: word_le_nat_alt)
  have c: "contents (heap r1 f) = frag_head False None ends (mRxNextSeqNum v) @ chunk" using r1(3) assms(2) by simp
  have fit: "length (contents (heap r1 q)) + length chunk \<le> ALLOCSIZE_MAX" "length (contents (heap r1 q)) < ALLOCSIZE_MAX"
    "ends \<longrightarrow> length (contents (heap r1 q)) + length chunk = unat (mRxLength v)"
    using q R(4-6) assms(6-8) by (cases chunk; simp; fail)+
  have ok: "ack_ok None v" by (simp add: ack_ok_def)
  obtain r2 where r2: "HandleCharacteristicReceived f v r1 = Some (BLE_NO_ERROR, None, if ends
      then (head_taken None v)\<lparr>mRxState := kState_Complete, mRxPacketCount := mRxPacketCount v + 1\<rparr> else head_taken None v, r2)"
    "held r2 (q # ps) (f # fs)" "contents (heap r2 q) = contents (heap r1 q) @ chunk"
    by (rule following_fragment [OF r1(2) c ok le R(2,3) fit])
  let ?v = "if ends then (head_taken None v)\<lparr>mRxState := kState_Complete, mRxPacketCount := mRxPacketCount v + 1\<rparr> else head_taken None v"
  show ?thesis
  proof (rule that)
    show "deliver w s v r = Some (?v, r2)" using assms(1) r1(1) r2(1) by (simp add: deliver_def)
  qed (use r2(2,3) q R in \<open>auto simp: received_def receiving_def\<close>)
qed

lemma send_rest_ok:
  assumes "sending w s p rest" "receiving v r q ps (f # fs) got n" "in_step w v" "3 \<le> mTxFragmentSize w" "rest \<noteq> []"
    "length got + length rest = n" "length rest \<le> m"
  shows "\<exists>w' s' v' r'. send_rest m w s v r = Some (w', s', v', r') \<and> mTxState w' = kState_Complete \<and>
    received v' r' q ps (f # fs) (got @ rest) \<and> in_step w' v'"
  using assms
proof (induction m arbitrary: w s v r rest got)
  case (Suc m)
  define F where "F = unat (mTxFragmentSize w)"
  define ends where "ends \<longleftrightarrow> length rest + 2 \<le> F"
  have F: "3 \<le> F" "F \<le> 512" "F \<le> unat (mRxFragmentSize v)"
    using Suc.prems(3,4) by (auto simp: in_step_def F_def word_le_nat_alt)
  obtain w1 s1 where s1: "HandleCharacteristicSend None False w s = Some (True, w1, s1)"
    "contents (heap s1 p) = frag_head False None ends (mTxNextSeqNum w) @ take (F - 2) rest"
    "mTxNextSeqNum w1 = mTxNextSeqNum w + 1" "mTxFragmentSize w1 = mTxFragmentSize w" "mTxBuf w1 = Some p"
    "mTxState w1 = (if ends then kState_Complete else kState_InProgress)" "\<not> ends \<longrightarrow> sending w1 s1 p (drop (F - 2) rest)"
    by (rule send_next [OF Suc.prems(1) F_def F(1) ends_def])
  have seq: "mRxNextSeqNum v = mTxNextSeqNum w" using Suc.prems(3) by (simp add: in_step_def)
  have c: "contents (heap s1 p) = frag_head False None ends (mRxNextSeqNum v) @ take (F - 2) rest" using s1(2) seq by simp
  have sz: "length (contents (heap s1 p)) \<le> unat (mRxFragmentSize v)" "length (contents (heap s1 p)) \<le> ALLOCSIZE_MAX"
    "take (F - 2) rest \<noteq> []" "length got + length (take (F - 2) rest) \<le> n" "ends \<longrightarrow> length got + length (take (F - 2) rest) = n"
    using c F Suc.prems(5,6) by (auto simp: frag_head_length ends_def)
  obtain v1 r1 where d: "deliver w1 s1 v r = Some (v1, r1)" "mRxNextSeqNum v1 = mRxNextSeqNum v + 1" "mRxFragmentSize v1 = mRxFragmentSize v"
    "if ends then received v1 r1 q ps (f # fs) (got @ take (F - 2) rest) else receiving v1 r1 q ps (f # fs) (got @ take (F - 2) rest) n"
    by (rule deliver_next [OF s1(5) c Suc.prems(2) sz])
  have st: "in_step w1 v1" using Suc.prems(3) s1(3,4) d(2,3) by (simp add: in_step_def)
  have step: "send_rest (Suc m) w s v r = send_rest m w1 s1 v1 r1"
    using Suc.prems(1) s1(1) d(1) by (simp add: sending_def Let_def)
  show ?case
  proof (cases ends)
    case True
    then have "send_rest m w1 s1 v1 r1 = Some (w1, s1, v1, r1)" using s1(6) by (cases m) simp_all
    then show ?thesis using step st d(4) True s1(6) by (simp add: ends_def)
  next
    case False
    let ?rest = "drop (F - 2) rest" and ?got = "got @ take (F - 2) rest"
    have "?rest \<noteq> []" "length ?got + length ?rest = n" "length ?rest \<le> m" "3 \<le> mTxFragmentSize w1"
      using False F Suc.prems(4,6,7) s1(4) by (auto simp: ends_def)
    with Suc.IH [of w1 s1 ?rest v1 r1 ?got] step st d(4) s1(7) False show ?thesis by simp
  qed
qed simp

lemma length_field: "push_bit 8 (ucast (ucast (drop_bit 8 n) :: u8)) OR ucast (ucast (n AND 0xFF) :: u8) = (n :: u16)"
proof (rule bit_word_eqI)
  fix m
  assume "m < LENGTH(16)"
  have m8: "(0xFF :: u16) = mask 8" by (simp add: mask_eq_exp_minus_1)
  have "8 \<le> m \<Longrightarrow> 8 + (m - 8) = m" by simp
  then show "bit (push_bit 8 (ucast (ucast (drop_bit 8 n) :: u8)) OR ucast (ucast (n AND 0xFF) :: u8) :: u16) m = bit n m"
    unfolding m8 using \<open>m < LENGTH(16)\<close> by (auto simp: bit_simps)
qed

lemma deliver_first:
  fixes n :: u16
  assumes "mTxBuf w = Some p" "contents (heap s p) = frag_head True ack ends (mRxNextSeqNum v) @ [ucast (n AND 0xFF), ucast (drop_bit 8 n)] @ chunk"
    "held r ps (f # q # fs)" "mRxState v = kState_Idle" "ack_ok ack v" "length (contents (heap s p)) \<le> unat (mRxFragmentSize v)"
    "length (contents (heap s p)) \<le> ALLOCSIZE_MAX" "unat n \<le> ALLOCSIZE_MAX" "ends \<longrightarrow> length chunk = unat n"
  obtains v' r' where "deliver w s v r = Some (v', r')" "mRxNextSeqNum v' = mRxNextSeqNum v + 1" "mRxFragmentSize v' = mRxFragmentSize v"
    "if ends then received v' r' q ps (f # fs) chunk else receiving v' r' q ps (f # fs) chunk (unat n)"
proof -
  obtain r1 where r1: "incoming (contents (heap s p)) r = Some (f, r1)" "held r1 (f # ps) (q # fs)" "contents (heap r1 f) = contents (heap s p)"
    by (rule incoming_ok [OF assms(3,7)])
  have wf: "wf_buf (heap r1 f)" using r1(2) by (simp add: held_def)
  have le: "len (heap r1 f) \<le> mRxFragmentSize v" using length_contents [OF wf] r1(3) assms(6) by (simp add: word_le_nat_alt)
  have c: "contents (heap r1 f) = frag_head True ack ends (mRxNextSeqNum v) @ [ucast (n AND 0xFF), ucast (drop_bit 8 n)] @ chunk" using r1(3) assms(2) by simp
  obtain r2 m where r2: "HandleCharacteristicReceived f v r1 = Some (BLE_NO_ERROR, ack, (head_taken ack v)\<lparr>mRxLength := n,
      mRxState := (if ends then kState_Complete else kState_InProgress), mRxBuf := Some q, mRxPacketCount := m\<rparr>, r2)"
    "held r2 (q # ps) (f # fs)" "contents (heap r2 q) = chunk"
    by (rule first_fragment [OF r1(2) c assms(5) le assms(4) length_field [symmetric] assms(9)])
  let ?v = "(head_taken ack v)\<lparr>mRxLength := n, mRxState := (if ends then kState_Complete else kState_InProgress), mRxBuf := Some q, mRxPacketCount := m\<rparr>"
  show ?thesis
  proof (rule that)
    show "deliver w s v r = Some (?v, r2)" using assms(1) r1(1) r2(1) by (simp add: deliver_def)
  qed (use r2(2,3) assms(8) in \<open>auto simp: received_def receiving_def\<close>)
qed

text \<open>
  C11. A message sent over Bluetooth arrives.  Two engines that agree on the next sequence number and the size of fragments, of
  which the sender is idle, the receiver is idle and has two free buffers, transfer any message that fits in a buffer with
  room for a head: in at most one fragment more than the message has bytes, without an error of
  either engine, the receiver has exactly the message in one buffer of its own, has given every other buffer back, and the
  engines agree again, whatever the sequence number is and wherever it wraps around.  With the first fragment an
  acknowledgment can be sent, if the receiver waits for it.
\<close>

theorem fragmented_message_arrives:
  assumes "held s [p] gs" "length (contents (heap s p)) + 5 \<le> ALLOCSIZE_MAX" "held r ps (f # q # fs)" "mTxState w = kState_Idle"
    "mRxState v = kState_Idle" "in_step w v" "6 \<le> mTxFragmentSize w" "send_ack \<longrightarrow> HasUnackedData w \<and> IsValidAck (mRxNewestUnackedSeqNum w) v"
  shows "\<exists>w' s' v' r'. transfer (length (contents (heap s p))) p send_ack w s v r = Some (w', s', v', r') \<and> mTxState w' = kState_Complete \<and>
    received v' r' q ps (f # fs) (contents (heap s p)) \<and> in_step w' v'"
proof -
  let ?msg = "contents (heap s p)" and ?n = "len (heap s p)"
  define F where "F = unat (mTxFragmentSize w)"
  define k :: nat where "k = (if send_ack then 5 else 4)"
  define ends where "ends \<longleftrightarrow> length ?msg + k \<le> F"
  define ack where "ack = (if send_ack then Some (mRxNewestUnackedSeqNum w) else None)"
  have h: "wf_buf (heap s p)" "AllocSize (heap s p) = ALLOCSIZE_MAX" using assms(1) by (auto simp: held_def)
  have n: "unat ?n = length ?msg" using length_contents [OF h(1)] by simp
  have F: "6 \<le> F" "F \<le> 512" "F \<le> unat (mRxFragmentSize v)" and seq: "mRxNextSeqNum v = mTxNextSeqNum w"
    using assms(6,7) by (auto simp: in_step_def F_def word_le_nat_alt)
  have len: "length ?msg + 5 \<le> AllocSize (heap s p)" and un: "send_ack \<longrightarrow> HasUnackedData w" using assms(2,8) h(2) by auto
  obtain w1 s1 where s1: "HandleCharacteristicSend (Some p) send_ack w s = Some (True, w1, s1)"
    "contents (heap s1 p) = frag_head True ack ends (mTxNextSeqNum w) @ [ucast (?n AND 0xFF), ucast (drop_bit 8 ?n)] @ take (F - k) ?msg"
    "mTxNextSeqNum w1 = mTxNextSeqNum w + 1" "mTxFragmentSize w1 = mTxFragmentSize w" "mTxBuf w1 = Some p"
    "mTxState w1 = (if ends then kState_Complete else kState_InProgress)" "\<not> ends \<longrightarrow> sending w1 s1 p (drop (F - k) ?msg)"
    by (rule send_first [OF assms(4) h(1) refl len un F_def F(1) k_def ends_def ack_def])
  have c: "contents (heap s1 p) = frag_head True ack ends (mRxNextSeqNum v) @ [ucast (?n AND 0xFF), ucast (drop_bit 8 ?n)] @ take (F - k) ?msg"
    using s1(2) seq by simp
  have kF: "k \<le> F" "length (frag_head True ack ends (mRxNextSeqNum v)) + 2 = k" using F(1) by (auto simp: k_def ack_def frag_head_length)
  then have "length (contents (heap s1 p)) \<le> F" using c by simp
  then have sz: "length (contents (heap s1 p)) \<le> unat (mRxFragmentSize v)" "length (contents (heap s1 p)) \<le> ALLOCSIZE_MAX" "unat ?n \<le> ALLOCSIZE_MAX"
    "ends \<longrightarrow> length (take (F - k) ?msg) = unat ?n"
    using F(2,3) assms(2) n by (simp_all add: ends_def)
  have ok: "ack_ok ack v" using assms(8) by (simp add: ack_ok_def ack_def)
  obtain v1 r1 where d: "deliver w1 s1 v r = Some (v1, r1)" "mRxNextSeqNum v1 = mRxNextSeqNum v + 1" "mRxFragmentSize v1 = mRxFragmentSize v"
    "if ends then received v1 r1 q ps (f # fs) (take (F - k) ?msg) else receiving v1 r1 q ps (f # fs) (take (F - k) ?msg) (unat ?n)"
    by (rule deliver_first [OF s1(5) c assms(3,5) ok sz])
  have st: "in_step w1 v1" using assms(6) s1(3,4) d(2,3) by (simp add: in_step_def)
  have step: "transfer (length ?msg) p send_ack w s v r = send_rest (length ?msg) w1 s1 v1 r1" using s1(1) d(1) by (simp add: transfer_def)
  show ?thesis
  proof (cases ends)
    case True
    then have "send_rest (length ?msg) w1 s1 v1 r1 = Some (w1, s1, v1, r1)" using s1(6) by (cases "length ?msg") simp_all
    then show ?thesis using step st d(4) True s1(6) by (simp add: ends_def)
  next
    case False
    have "3 \<le> mTxFragmentSize w1" using assms(7) s1(4) by (simp add: word_le_nat_alt)
    moreover have "drop (F - k) ?msg \<noteq> []" "length (take (F - k) ?msg) + length (drop (F - k) ?msg) = unat ?n" "length (drop (F - k) ?msg) \<le> length ?msg"
      using False n kF(1) by (auto simp: ends_def)
    ultimately show ?thesis
      using send_rest_ok [of w1 s1 p "drop (F - k) ?msg" v1 r1 q ps f fs "take (F - k) ?msg" "unat ?n" "length ?msg"] step st d(4) s1(7) False
      by simp
  qed
qed

text \<open>Two new engines, the sender's pool with a message of a hundred bytes, the receiver's with two free buffers.\<close>

definition sample_engine :: "bool \<Rightarrow> WoBle" where
  "sample_engine expect_first_ack = WoBle_Init expect_first_ack
     \<lparr>mRxState = kState_Error, mRxLength = 0, mRxBuf = None, mRxNextSeqNum = 0, mRxNewestUnackedSeqNum = 0, mRxOldestUnackedSeqNum = 0,
      mRxFragmentSize = 0, mTxState = kState_Error, mTxLength = 0, mTxBuf = None, mTxNextSeqNum = 0, mTxNewestUnackedSeqNum = 0,
      mTxOldestUnackedSeqNum = 0, mExpectingAck = False, mTxFragmentSize = 0, mRxCharCount = 0, mRxPacketCount = 0,
      mTxCharCount = 0, mTxPacketCount = 0\<rparr>"

definition sample_sender :: BufferPool where
  "sample_sender = \<lparr>heap = (\<lambda>_. \<lparr>pnext = None, payload = 40, tot_len = 100, len = 100, ref = 1, block = replicate ALLOCSIZE_MAX 7\<rparr>), sFreeList = None\<rparr>"

definition sample_receiver :: BufferPool where
  "sample_receiver = BuildFreeList 2 (\<lambda>_. \<lparr>pnext = None, payload = 0, tot_len = 0, len = 0, ref = 0, block = replicate ALLOCSIZE_MAX 0\<rparr>)"

lemma sample_held: "held sample_sender [0] []" "held sample_receiver [] [Suc 0, 0]"
proof -
  show "held sample_sender [0] []" by (simp add: held_def sample_sender_def pool_ok_def AllocSize_def wf_buf_def)
  have "pool_ok sample_receiver [Suc 0, 0]"
    unfolding sample_receiver_def using BuildFreeList_ok [of 2] by (simp add: numeral_2_eq_2 del: BuildFreeList.simps)
  then show "held sample_receiver [] [Suc 0, 0]"
    by (simp add: held_def sample_receiver_def numeral_2_eq_2 Let_def AllocSize_def)
qed

lemma sample_message: "contents (heap sample_sender 0) = replicate 100 7"
  by (simp add: sample_sender_def contents_def)

theorem fragmented_message_arrives_witness:
  "\<exists>w' s' v' r'. transfer 100 0 False (sample_engine False) sample_sender (sample_engine True) sample_receiver = Some (w', s', v', r') \<and>
     mTxState w' = kState_Complete \<and> received v' r' 0 [] [Suc 0] (replicate 100 7) \<and> in_step w' v'"
proof -
  have "length (contents (heap sample_sender 0)) + 5 \<le> ALLOCSIZE_MAX" by (simp add: sample_message)
  moreover have "mTxState (sample_engine False) = kState_Idle" "mRxState (sample_engine True) = kState_Idle"
    "in_step (sample_engine False) (sample_engine True)" "6 \<le> mTxFragmentSize (sample_engine False)"
    by (simp_all add: sample_engine_def WoBle_Init_def in_step_def)
  ultimately show ?thesis
    using fragmented_message_arrives [OF sample_held(1) _ sample_held(2), of "sample_engine False" "sample_engine True" False]
    by (simp add: sample_message)
qed

end
