(* ===== verification/Time_Utils.thy ===== *)
theory Time_Utils
  imports Weave_Prelude "HOL-Library.Signed_Division"
begin

text \<open>
  Calendar dates and times (\<^verbatim>\<open>src/src/lib/support/TimeUtils.cpp\<close>): conversions between days or seconds since
  1970-01-01 and the Gregorian calendar, in integers of the widths of the source.
\<close>

section \<open>The conversions\<close>

abbreviation (input) kYearsPerCentury :: nat where "kYearsPerCentury \<equiv> 100"
abbreviation (input) kSecondsPerDay :: u32 where "kSecondsPerDay \<equiv> 86400"
abbreviation (input) kEpochOffsetDays :: u32 where "kEpochOffsetDays \<equiv> 719468"
abbreviation (input) kDaysPerCycle :: u32 where "kDaysPerCycle \<equiv> 146097"

definition IsLeapYear :: "u16 \<Rightarrow> bool" where
  "IsLeapYear year \<longleftrightarrow> year mod 4 = 0 \<and> (year mod 100 \<noteq> 0 \<or> year mod 400 = 0)"

definition DaysToMarch1 :: "u16 \<Rightarrow> u8" where
  "DaysToMarch1 year = (if IsLeapYear year then 60 else 59)"

definition MarchBasedMonthToDayOfYear :: "u8 \<Rightarrow> u16" where
  "MarchBasedMonthToDayOfYear month = word_of_int ((153 * uint month + 2) div 5)"

definition MarchBasedDayOfYearToMonth :: "u16 \<Rightarrow> u8" where
  "MarchBasedDayOfYearToMonth dayOfYear = word_of_int ((5 * uint dayOfYear + 2) div 153)"

definition daysInMonth :: "u8 list" where
  "daysInMonth = [31, 28, 31, 30, 31, 30, 31, 31, 30, 31, 30, 31]"

definition DaysInMonth :: "u16 \<Rightarrow> u8 \<Rightarrow> u8" where
  "DaysInMonth year month =
     (if month = 2 \<and> IsLeapYear year then 29
      else if 1 \<le> month \<and> month \<le> 12 then daysInMonth ! unat (month - 1)
      else 0)"

text \<open>\<^verbatim>\<open>year - 1\<close> is a signed number and \<^verbatim>\<open>%\<close> rounds towards zero.\<close>

definition FirstWeekdayOfYear :: "u16 \<Rightarrow> u8" where
  "FirstWeekdayOfYear year =
     (let y = uint year - 1 in word_of_int ((1 + 5 * (y smod 4) + 4 * (y smod 100) + 6 * (y smod 400)) smod 7))"

definition OrdinalDateToCalendarDate :: "u16 \<Rightarrow> u16 \<Rightarrow> u8 \<times> u8" where
  "OrdinalDateToCalendarDate year dayOfYear0 =
     (let daysToMarch1 = ucast (DaysToMarch1 year);
          dayOfYear1 = dayOfYear0 - 1;
          dayOfYear = (if dayOfYear1 < daysToMarch1 then dayOfYear1 + 306 else dayOfYear1 - daysToMarch1);
          month = MarchBasedDayOfYearToMonth dayOfYear;
          dayOfMonth = ucast (dayOfYear - MarchBasedMonthToDayOfYear month + 1)
      in (month + (if month < 10 then 3 else - 9), dayOfMonth))"

definition CalendarDateToOrdinalDate :: "u16 \<Rightarrow> u8 \<Rightarrow> u8 \<Rightarrow> u16" where
  "CalendarDateToOrdinalDate year month0 dayOfMonth =
     (let month = month0 + (if month0 > 2 then - 3 else 9);
          dayOfYear = MarchBasedMonthToDayOfYear month;
          dayOfYear1 = (if dayOfYear < 306 then dayOfYear + ucast (DaysToMarch1 year) else dayOfYear - 306)
      in dayOfYear1 + ucast dayOfMonth)"

definition CalendarDateToDaysSinceEpoch :: "u16 \<Rightarrow> u8 \<Rightarrow> u8 \<Rightarrow> bool \<times> u32" where
  "CalendarDateToDaysSinceEpoch year0 month0 dayOfMonth =
     (if year0 < 1970 \<or> year0 > 28276 then (False, 0xFFFFFFFF)
      else
        let (year, month) = (if month0 \<le> 2 then (year0 - 1, month0 + 9) else (year0, month0 - 3));
            dayOfYear = MarchBasedMonthToDayOfYear month + (ucast dayOfMonth - 1);
            cycle = year div 400;
            yearOfCycle = ucast year - ucast cycle * 400 :: u32;
            dayOfCycle = yearOfCycle * 365 + ucast dayOfYear - yearOfCycle div 100 + yearOfCycle div 4;
            daysSinceCalendarStart = ucast cycle * kDaysPerCycle + dayOfCycle
        in (True, daysSinceCalendarStart - kEpochOffsetDays))"

definition DaysSinceEpochToCalendarDate :: "u32 \<Rightarrow> u16 \<times> u8 \<times> u8" where
  "DaysSinceEpochToCalendarDate daysSinceEpoch0 =
     (let daysSinceEpoch = daysSinceEpoch0 + kEpochOffsetDays;
          cycle = daysSinceEpoch div kDaysPerCycle;
          dayOfCycle = daysSinceEpoch - cycle * kDaysPerCycle;
          yearOfCycle = ucast ((dayOfCycle - dayOfCycle div 1460 + dayOfCycle div 36524 - dayOfCycle div 146096) div 365) :: u16;
          dayOfYear = ucast (dayOfCycle - (ucast yearOfCycle * 365 + ucast (yearOfCycle div 4) - ucast (yearOfCycle div 100))) :: u16;
          month = MarchBasedDayOfYearToMonth dayOfYear;
          dayOfMonth = ucast (dayOfYear - MarchBasedMonthToDayOfYear month + 1);
          month1 = month + (if month < 10 then 3 else - 9);
          year = ucast (ucast yearOfCycle + cycle * 400) :: u16
      in (if month1 \<le> 2 then year + 1 else year, month1, dayOfMonth))"

definition AdjustCalendarDate :: "u16 \<times> u8 \<times> u8 \<Rightarrow> int \<Rightarrow> u16 \<times> u8 \<times> u8" where
  "AdjustCalendarDate date relativeDays =
     (case date of (year, month, dayOfMonth) \<Rightarrow>
        DaysSinceEpochToCalendarDate (snd (CalendarDateToDaysSinceEpoch year month dayOfMonth) + word_of_int relativeDays))"

definition CalendarTimeToSecondsSinceEpoch :: "u16 \<Rightarrow> u8 \<Rightarrow> u8 \<Rightarrow> u8 \<Rightarrow> u8 \<Rightarrow> u8 \<Rightarrow> bool \<times> u32" where
  "CalendarTimeToSecondsSinceEpoch year month dayOfMonth hour minute second =
     (if year < 1970 \<or> year > 2105 then (False, 0xFFFFFFFF)
      else
        let daysSinceEpoch = snd (CalendarDateToDaysSinceEpoch year month dayOfMonth)
        in (True, daysSinceEpoch * kSecondsPerDay + ucast hour * 3600 + ucast minute * 60 + ucast second))"

definition SecondsSinceEpochToCalendarTime :: "u32 \<Rightarrow> (u16 \<times> u8 \<times> u8) \<times> u8 \<times> u8 \<times> u8" where
  "SecondsSinceEpochToCalendarTime secondsSinceEpoch =
     (let daysSinceEpoch = secondsSinceEpoch div kSecondsPerDay;
          timeOfDay = secondsSinceEpoch - daysSinceEpoch * kSecondsPerDay;
          hour = ucast (timeOfDay div 3600) :: u8;
          timeOfDay1 = timeOfDay - ucast hour * 3600;
          minute = ucast (timeOfDay1 div 60) :: u8;
          timeOfDay2 = timeOfDay1 - ucast minute * 60
      in (DaysSinceEpochToCalendarDate daysSinceEpoch, hour, minute, ucast timeOfDay2))"

section \<open>Cycles of 400 years\<close>

text \<open>
  The conversions count days from 0000-03-01 in cycles of 400 years.  \<open>year_start\<close> is the first day of a year of the cycle, years
  beginning in March, and \<open>year_of_day\<close> the formula of the source for its inverse.
\<close>

definition year_start :: "int \<Rightarrow> int" where
  "year_start y = 365 * y + y div 4 - y div 100"

definition scaled_day :: "int \<Rightarrow> int" where
  "scaled_day d = d - d div 1460 + d div 36524 - d div 146096"

text \<open>A year that ends with a leap day has 366 days; the last one of a cycle does, those before other centuries do not.\<close>

definition year_length :: "int \<Rightarrow> int" where
  "year_length y = (if (y + 1) mod 4 = 0 \<and> ((y + 1) mod 100 \<noteq> 0 \<or> (y + 1) mod 400 = 0) then 366 else 365)"

lemma div_step: "int (Suc n) div int k = int n div int k + (if k dvd Suc n then 1 else 0)"
  unfolding zdiv_int [symmetric] div_Suc by (simp add: dvd_eq_mod_eq_0)

lemma year_split:
  assumes "0 \<le> y" "y < 400"
  obtains c q r where "y = 100 * c + 4 * q + r" "0 \<le> c" "c < 4" "0 \<le> q" "q < 25" "0 \<le> r" "r < (4 :: int)"
proof (rule that [of "y div 100" "y mod 100 div 4" "y mod 4"])
  have "y mod 100 mod 4 = y mod 4" by (simp add: mod_mod_cancel)
  then show "y = 100 * (y div 100) + 4 * (y mod 100 div 4) + y mod 4" using div_mult_mod_eq [of y 100] div_mult_mod_eq [of "y mod 100" 4] by linarith
qed (use assms in auto)

lemma year_parts:
  assumes "y = 100 * c + 4 * q + r" "0 \<le> c" "c < 4" "0 \<le> q" "q < 25" "0 \<le> r" "r < (4 :: int)"
  shows "year_start y = 36524 * c + 1461 * q + 365 * r"
    "year_length y = (if r = 3 \<and> (q < 24 \<or> c = 3) then 366 else 365)"
proof -
  have d: "y div 4 = 25 * c + q" "y div 100 = c" using assms by (auto intro: int_div_pos_eq [of _ _ _ r] int_div_pos_eq [of _ _ _ "4 * q + r"])
  then show "year_start y = 36524 * c + 1461 * q + 365 * r" using assms(1) by (simp add: year_start_def)
  have m4: "(y + 1) mod 4 = (if r = 3 then 0 else r + 1)"
    using assms by (auto intro: int_mod_pos_eq [of _ _ "25 * c + q + 1"] int_mod_pos_eq [of _ _ "25 * c + q"])
  have m100: "(y + 1) mod 100 = (if 4 * q + r = 99 then 0 else 4 * q + r + 1)"
    using assms by (auto intro: int_mod_pos_eq [of _ _ "c + 1"] int_mod_pos_eq [of _ _ c])
  have m400: "(y + 1) mod 400 = (if y = 399 then 0 else y + 1)" using assms by auto
  show "year_length y = (if r = 3 \<and> (q < 24 \<or> c = 3) then 366 else 365)"
    unfolding year_length_def m4 m100 m400 using assms by auto
qed

lemma scaled_day_parts:
  assumes "0 \<le> c" "c < 4" "0 \<le> q" "q < 25" "0 \<le> f" "f \<le> 1460" "f = 1460 \<longrightarrow> q < 24 \<or> c = (3 :: int)"
  shows "scaled_day (36524 * c + 1461 * q + f) = 36500 * c + 1460 * q + f - (if 24 * c + q + f \<ge> 1460 then 1 else 0)"
proof -
  let ?d = "36524 * c + 1461 * q + f" and ?x = "24 * c + q + f"
  have a: "?d div 1460 = 25 * c + q + (if ?x \<ge> 1460 then 1 else 0)"
    using assms by (intro int_div_pos_eq [of _ _ _ "if ?x \<ge> 1460 then ?x - 1460 else ?x"]) auto
  show ?thesis
  proof (cases "q = 24 \<and> f = 1460")
    case True
    then show ?thesis using a assms(7) by (simp add: scaled_day_def)
  next
    case False
    then have "1461 * q + f < 36524" using assms by auto
    then have "?d div 36524 = c" "?d div 146096 = 0"
      using assms by (auto intro!: int_div_pos_eq [of _ _ _ "1461 * q + f"])
    with a show ?thesis by (simp add: scaled_day_def)
  qed
qed

lemma year_of_day:
  assumes "0 \<le> y" "y < 400" "0 \<le> k" "k < year_length y"
  shows "scaled_day (year_start y + k) div 365 = y"
proof -
  obtain c q r where y: "y = 100 * c + 4 * q + r" "0 \<le> c" "c < 4" "0 \<le> q" "q < 25" "0 \<le> r" "r < 4"
    by (rule year_split [OF assms(1,2)])
  note p = year_parts [OF y]
  have k: "k \<le> 365" "k = 365 \<longrightarrow> r = 3 \<and> (q < 24 \<or> c = 3)" using assms(4) p(2) by (auto split: if_splits)
  have "scaled_day (36524 * c + 1461 * q + (365 * r + k)) = 36500 * c + 1460 * q + (365 * r + k) - (if 24 * c + q + (365 * r + k) \<ge> 1460 then 1 else 0)"
    using scaled_day_parts [OF y(2-5), of "365 * r + k"] y(6,7) assms(3) k by auto
  then have s: "scaled_day (year_start y + k) = 365 * y + (k - (if 24 * c + q + (365 * r + k) \<ge> 1460 then 1 else 0))"
    using p(1) y(1) by (simp add: algebra_simps)
  show ?thesis
  proof (rule int_div_pos_eq [OF s])
    show "0 \<le> k - (if 24 * c + q + (365 * r + k) \<ge> 1460 then 1 else 0)" using assms(3) y by auto
    show "k - (if 24 * c + q + (365 * r + k) \<ge> 1460 then 1 else 0) < 365" using k y by auto
  qed
qed

lemma year_start_step:
  assumes "0 \<le> y" "y < 400"
  shows "year_start y + year_length y = (if y < 399 then year_start (y + 1) else 146097)"
proof -
  obtain c q r where y: "y = 100 * c + 4 * q + r" "0 \<le> c" "c < 4" "0 \<le> q" "q < 25" "0 \<le> r" "r < 4"
    by (rule year_split [OF assms])
  note p = year_parts [OF y]
  consider (year) "r < 3" | (leap) "r = 3" "q < 24" | (century) "r = 3" "q = 24" "c < 3" | (cycle) "r = 3" "q = 24" "c = 3" using y by linarith
  then show ?thesis
  proof cases
    case year
    then show ?thesis using year_parts(1) [of "y + 1" c q "r + 1"] y p by simp
  next
    case leap
    then show ?thesis using year_parts(1) [of "y + 1" c "q + 1" 0] y p by simp
  next
    case century
    then show ?thesis using year_parts(1) [of "y + 1" "c + 1" 0 0] y p by simp
  next
    case cycle
    then show ?thesis using y p by simp
  qed
qed

lemma year_start_range:
  assumes "0 \<le> y" "y < 400"
  shows "0 \<le> year_start y" "year_start y + year_length y \<le> 146097"
proof -
  obtain c q r where y: "y = 100 * c + 4 * q + r" "0 \<le> c" "c < 4" "0 \<le> q" "q < 25" "0 \<le> r" "r < 4" by (rule year_split [OF assms])
  show "0 \<le> year_start y" "year_start y + year_length y \<le> 146097" using year_parts [OF y] y by auto
qed

section \<open>The calendar, day by day\<close>

type_synonym date = "int \<times> int \<times> int"

definition leap_year :: "int \<Rightarrow> bool" where
  "leap_year y \<longleftrightarrow> y mod 4 = 0 \<and> (y mod 100 \<noteq> 0 \<or> y mod 400 = 0)"

definition month_length :: "int \<Rightarrow> int \<Rightarrow> int" where
  "month_length y m = (if m = 2 then (if leap_year y then 29 else 28) else if m \<in> {4, 6, 9, 11} then 30 else 31)"

fun next_day :: "date \<Rightarrow> date" where
  "next_day (y, m, d) =
     (if d < month_length y m then (y, m, d + 1) else if m < 12 then (y, m + 1, 1) else (y + 1, 1, 1))"

text \<open>The date of day \<open>k\<close> of the year that begins on March 1 of \<open>y\<close>.\<close>

definition month_day :: "int \<Rightarrow> int \<times> int" where
  "month_day k = (let m = (5 * k + 2) div 153 in (if m < 10 then m + 3 else m - 9, k - (153 * m + 2) div 5 + 1))"

definition year_day :: "int \<Rightarrow> int \<Rightarrow> date" where
  "year_day y k = (let (m, d) = month_day k in (if m \<le> 2 then y + 1 else y, m, d))"

definition month_day_ok :: "int \<Rightarrow> bool" where
  "month_day_ok k \<longleftrightarrow> (case month_day k of (m, d) \<Rightarrow>
     1 \<le> m \<and> m \<le> 12 \<and> (m = 2 \<longrightarrow> d < 28) \<and>
     month_day (k + 1) = (if d < month_length 1 m then (m, d + 1) else (m mod 12 + 1, 1)))"

lemma month_day_ok_all: "list_all month_day_ok [0..363]"
  by code_simp

lemma year_day_step:
  assumes "0 \<le> k" "k < 364"
  shows "year_day y (k + 1) = next_day (year_day y k)"
proof -
  obtain m d where md: "month_day k = (m, d)" by fastforce
  have "month_day_ok k" using month_day_ok_all assms by (simp add: list_all_iff)
  then have ok: "1 \<le> m" "m \<le> 12" "m = 2 \<longrightarrow> d < 28" "month_day (k + 1) = (if d < month_length 1 m then (m, d + 1) else (m mod 12 + 1, 1))"
    using md by (simp_all add: month_day_ok_def)
  show ?thesis
  proof (cases "m = 2")
    case True
    then show ?thesis using ok md by (simp add: year_day_def month_length_def leap_year_def)
  next
    case False
    then have "month_length y m = month_length 1 m" "month_length (y + 1) m = month_length 1 m" by (simp_all add: month_length_def)
    moreover have "m < 12 \<Longrightarrow> m mod 12 = m" using ok(1) by simp
    ultimately show ?thesis using ok md False by (auto simp: year_day_def)
  qed
qed

lemma year_day_end:
  "leap_year (y + 1) \<Longrightarrow> year_day y 365 = next_day (year_day y 364)" "leap_year (y + 1) \<Longrightarrow> next_day (year_day y 365) = (y + 1, 3, 1)"
  "\<not> leap_year (y + 1) \<Longrightarrow> next_day (year_day y 364) = (y + 1, 3, 1)" "year_day y 0 = (y, 3, 1)"
  by (simp_all add: year_day_def month_day_def month_length_def)

lemma year_length_leap: "year_length y = (if leap_year (y + 1 + 400 * c) then 366 else 365)"
proof -
  have "(y + 1 + 400 * c) mod 4 = (y + 1) mod 4" "(y + 1 + 400 * c) mod 100 = (y + 1) mod 100" "(y + 1 + 400 * c) mod 400 = (y + 1) mod 400"
    using mod_mult_self2 [of "y + 1" 4 "100 * c"] mod_mult_self2 [of "y + 1" 100 "4 * c"] by simp_all
  then show ?thesis by (simp add: year_length_def leap_year_def)
qed

text \<open>Every day has a place in its cycle, and the date there is the one counted day by day from 0000-03-01.\<close>

definition place :: "int \<Rightarrow> int \<Rightarrow> int \<Rightarrow> int \<Rightarrow> bool" where
  "place n c y k \<longleftrightarrow> n = 146097 * c + year_start y + k \<and> 0 \<le> c \<and> 0 \<le> y \<and> y < 400 \<and> 0 \<le> k \<and> k < year_length y"

lemma place_step:
  assumes "place n c y k"
  obtains c' y' k' where "place (n + 1) c' y' k'" "year_day (400 * c' + y') k' = next_day (year_day (400 * c + y) k)"
proof -
  have p: "n = 146097 * c + year_start y + k" "0 \<le> c" "0 \<le> y" "y < 400" "0 \<le> k" "k < year_length y" using assms by (auto simp: place_def)
  have leap: "year_length y = (if leap_year (400 * c + y + 1) then 366 else 365)" using year_length_leap [of y c] by (simp add: ac_simps)
  consider (day) "k + 1 < year_length y" | (year) "k + 1 = year_length y" "y < 399" | (cycle) "k + 1 = year_length y" "y = 399" using p by linarith
  then show thesis
  proof cases
    case day
    have "k < 364 \<or> k = 364 \<and> leap_year (400 * c + y + 1)" using day leap by (auto split: if_splits)
    then have "year_day (400 * c + y) (k + 1) = next_day (year_day (400 * c + y) k)"
      using year_day_step p(5) year_day_end(1) by auto
    then show thesis using p day by (intro that [of c y "k + 1"]) (auto simp: place_def)
  next
    case year
    then have "k = (if leap_year (400 * c + y + 1) then 365 else 364)" using leap by (auto split: if_splits)
    then have "next_day (year_day (400 * c + y) k) = year_day (400 * c + (y + 1)) 0"
      using year_day_end [of "400 * c + y"] year_day_end(4) by (auto simp: ac_simps split: if_splits)
    moreover have "place (n + 1) c (y + 1) 0" using p year year_start_step [OF p(3,4)] by (simp add: place_def year_length_def)
    ultimately show thesis using that by simp
  next
    case cycle
    then have "k = (if leap_year (400 * c + y + 1) then 365 else 364)" using leap by (auto split: if_splits)
    then have "next_day (year_day (400 * c + y) k) = year_day (400 * (c + 1) + 0) 0"
      using year_day_end [of "400 * c + y"] year_day_end(4) cycle(2) by (auto simp: ac_simps split: if_splits)
    moreover have "place (n + 1) (c + 1) 0 0" using p cycle year_start_step [OF p(3,4)] by (simp add: place_def year_length_def year_start_def)
    ultimately show thesis using that by simp
  qed
qed

lemma place_exists: "\<exists>c y k. place (int n) c y k \<and> year_day (400 * c + y) k = (next_day ^^ n) (0, 3, 1)"
proof (induction n)
  case 0
  then show ?case by (intro exI [of _ 0]) (simp add: place_def year_start_def year_length_def year_day_end)
next
  case (Suc n)
  then obtain c y k where "place (int n) c y k" "year_day (400 * c + y) k = (next_day ^^ n) (0, 3, 1)" by blast
  moreover obtain c' y' k' where "place (int n + 1) c' y' k'" "year_day (400 * c' + y') k' = next_day (year_day (400 * c + y) k)"
    by (rule place_step [OF calculation(1)])
  ultimately show ?case by (auto simp: add.commute)
qed

section \<open>Days since the epoch\<close>

lemma place_unique:
  assumes "place n c y k"
  shows "n div 146097 = c" "n mod 146097 = year_start y + k" "scaled_day (n mod 146097) div 365 = y"
proof -
  have p: "n = 146097 * c + (year_start y + k)" "0 \<le> y" "y < 400" "0 \<le> k" "k < year_length y" using assms by (auto simp: place_def)
  have r: "0 \<le> year_start y + k" "year_start y + k < 146097" using year_start_range [OF p(2,3)] p(4,5) by linarith+
  show "n div 146097 = c" by (rule int_div_pos_eq [OF p(1) r])
  show m: "n mod 146097 = year_start y + k" by (rule int_mod_pos_eq [OF p(1) r])
  show "scaled_day (n mod 146097) div 365 = y" unfolding m by (rule year_of_day [OF p(2-5)])
qed

definition date_words :: "date \<Rightarrow> u16 \<times> u8 \<times> u8" where
  "date_words date = (case date of (y, m, d) \<Rightarrow> (word_of_int y, word_of_int m, word_of_int d))"

lemma of_int_div: "\<lbrakk>0 \<le> a; a < 2 ^ LENGTH('a :: len); 0 \<le> b; b < 2 ^ LENGTH('a)\<rbrakk> \<Longrightarrow> (of_int a :: 'a word) div of_int b = of_int (a div b)"
  by (simp add: word_div_def uint_word_of_int)

lemma ucast_of_int: "\<lbrakk>0 \<le> a; a < 2 ^ LENGTH('a :: len)\<rbrakk> \<Longrightarrow> ucast (of_int a :: 'a word) = (of_int a :: 'b :: len word)"
  by (metis of_int_uint uint_word_of_int mod_pos_pos_trivial)

lemma ucast_down_of_int: "LENGTH('b) \<le> LENGTH('a) \<Longrightarrow> ucast (of_int a :: 'a :: len word) = (of_int a :: 'b :: len word)"
  by (simp add: unsigned_of_int word_of_int_eq_iff take_bit_take_bit min_def)

lemma month_day_range: "\<lbrakk>0 \<le> k; k < 366\<rbrakk> \<Longrightarrow> 1 \<le> fst (month_day k) \<and> fst (month_day k) \<le> 12"
  by (auto simp: month_day_def Let_def)

lemma march_month:
  assumes "0 \<le> k" "k < 366" and "month = MarchBasedDayOfYearToMonth (of_int k)"
  shows "(month + (if month < 10 then 3 else - 9), ucast (of_int k - MarchBasedMonthToDayOfYear month + 1) :: u8) =
    (of_int (fst (month_day k)), of_int (snd (month_day k)))"
proof -
  define m where "m = (5 * k + 2) div 153"
  have m: "0 \<le> m" "m < 12" using assms by (auto simp: m_def)
  have m1: "month = of_int m" using assms by (simp add: MarchBasedDayOfYearToMonth_def m_def uint_word_of_int)
  have s: "MarchBasedMonthToDayOfYear month = of_int ((153 * m + 2) div 5)"
    unfolding m1 MarchBasedMonthToDayOfYear_def using m by (simp add: uint_word_of_int)
  have ten: "month < 10 \<longleftrightarrow> m < 10" unfolding m1 word_less_def using m by (simp add: uint_word_of_int)
  have "ucast (of_int k - of_int ((153 * m + 2) div 5) + 1 :: u16) = (ucast (of_int (k - (153 * m + 2) div 5 + 1) :: u16) :: u8)" by simp
  also have "\<dots> = of_int (k - (153 * m + 2) div 5 + 1)" by (rule ucast_down_of_int) simp
  finally show ?thesis using ten m1 s by (simp add: month_day_def m_def [symmetric] Let_def)
qed

lemma days_to_date:
  assumes "place (uint (n + kEpochOffsetDays)) c y k"
  shows "DaysSinceEpochToCalendarDate n = date_words (year_day (400 * c + y) k)"
proof -
  define N where "N = n + kEpochOffsetDays"
  have p: "place (uint N) c y k" using assms by (simp add: N_def)
  note u = place_unique [OF p]
  have yk: "0 \<le> y" "y < 400" "0 \<le> k" "k < 366" using p by (auto simp: place_def year_length_def split: if_splits)
  define d where "d = year_start y + k"
  have d: "0 \<le> d" "d < 146097" using u(2) pos_mod_bound [of 146097 "uint N"] yk year_start_range(1) [OF yk(1,2)] by (auto simp: d_def)
  have cy: "N div kDaysPerCycle = of_int c" using u(1) by (simp add: word_div_def)
  have dc: "N - N div kDaysPerCycle * kDaysPerCycle = of_int d" unfolding minus_div_mult_eq_mod using u(2) by (simp add: word_mod_def d_def)
  have div: "(of_int d :: u32) div 1460 = of_int (d div 1460)" "(of_int d :: u32) div 36524 = of_int (d div 36524)" "(of_int d :: u32) div 146096 = of_int (d div 146096)"
    using d of_int_div [where 'a = 32, of d 1460] of_int_div [where 'a = 32, of d 36524] of_int_div [where 'a = 32, of d 146096] by simp_all
  have sc: "0 \<le> scaled_day d" "scaled_day d < 146097" using d by (auto simp: scaled_day_def)
  have y: "scaled_day d div 365 = y" using u(2,3) by (simp add: d_def)
  have "((of_int d :: u32) - of_int d div 1460 + of_int d div 36524 - of_int d div 146096) div 365 = of_int (scaled_day d) div of_int 365"
    unfolding div by (simp add: scaled_day_def)
  also have "\<dots> = of_int y" unfolding y [symmetric] using sc by (intro of_int_div) simp_all
  finally have yc: "ucast (((of_int d :: u32) - of_int d div 1460 + of_int d div 36524 - of_int d div 146096) div 365) = (of_int y :: u16)"
    using yk by (simp add: ucast_of_int)
  have yd: "(of_int y :: u16) div 4 = of_int (y div 4)" "(of_int y :: u16) div 100 = of_int (y div 100)"
    using yk of_int_div [where 'a = 16, of y 4] of_int_div [where 'a = 16, of y 100] by simp_all
  have e: "of_int d - (ucast (of_int y :: u16) * 365 + ucast ((of_int y :: u16) div 4) - ucast ((of_int y :: u16) div 100)) = (of_int k :: u32)"
    unfolding yd using yk by (simp add: ucast_of_int year_start_def d_def)
  have doy: "ucast (of_int d - (ucast (of_int y :: u16) * 365 + ucast ((of_int y :: u16) div 4) - ucast ((of_int y :: u16) div 100)) :: u32) = (of_int k :: u16)"
    unfolding e using yk by (simp add: ucast_of_int)
  have yr: "ucast (ucast (of_int y :: u16) + of_int c * 400 :: u32) = (of_int (400 * c + y) :: u16)"
    using yk ucast_down_of_int [where 'a = 32 and 'b = 16, of "y + c * 400"] by (simp add: ucast_of_int ac_simps)
  define month where "month = MarchBasedDayOfYearToMonth (of_int k)"
  note mm = march_month [OF yk(3,4) month_def]
  have "DaysSinceEpochToCalendarDate n = (let month1 = month + (if month < 10 then 3 else - 9)
      in (if month1 \<le> 2 then of_int (400 * c + y) + 1 else of_int (400 * c + y), month1, ucast (of_int k - MarchBasedMonthToDayOfYear month + 1)))"
    unfolding DaysSinceEpochToCalendarDate_def Let_def N_def [symmetric] cy dc [unfolded cy] yc doy yr month_def [symmetric] by simp
  also have "\<dots> = date_words (year_day (400 * c + y) k)"
    using mm month_day_range [OF yk(3,4)] by (simp add: date_words_def year_day_def Let_def split_beta word_le_def uint_word_of_int)
  finally show ?thesis .
qed

lemma place_date: "place (int n) c y k \<Longrightarrow> year_day (400 * c + y) k = (next_day ^^ n) (0, 3, 1)"
  using place_exists [of n] place_unique by (metis add_left_cancel)

lemma epoch_date: "(next_day ^^ 719468) (0, 3, 1) = (1970, 1, 1)"
proof -
  have "place (int 719468) 4 369 306" by (simp add: place_def year_start_def year_length_def)
  from place_date [OF this] show ?thesis by (simp add: year_day_def month_day_def)
qed

lemma date_after_epoch: "(next_day ^^ (n + 719468)) (0, 3, 1) = (next_day ^^ n) (1970, 1, 1)"
  by (simp only: funpow_add comp_apply epoch_date)

lemma march_day:
  assumes "0 \<le> k" "k < 366" "m = (5 * k + 2) div 153"
  shows "0 \<le> m" "m < 12" "month_day k = (if m < 10 then m + 3 else m - 9, k - (153 * m + 2) div 5 + 1)"
    "1 \<le> k - (153 * m + 2) div 5 + 1" "k - (153 * m + 2) div 5 + 1 \<le> 31"
proof -
  have "153 * m + (5 * k + 2) mod 153 = 5 * k + 2" using div_mult_mod_eq [of "5 * k + 2" 153] assms(3) by simp
  moreover have "0 \<le> (5 * k + 2) mod 153" "(5 * k + 2) mod 153 < 153" by simp_all
  ultimately have "153 * m \<le> 5 * k + 2" "5 * k + 2 < 153 * m + 153" by linarith+
  then show "1 \<le> k - (153 * m + 2) div 5 + 1" "k - (153 * m + 2) div 5 + 1 \<le> 31" by linarith+
qed (use assms in \<open>auto simp: month_day_def Let_def\<close>)

lemma date_to_days:
  assumes "place n c y k" "year_day (400 * c + y) k = (Y, M, D)" "1970 \<le> Y" "Y \<le> 28276"
  shows "CalendarDateToDaysSinceEpoch (of_int Y) (of_int M) (of_int D) = (True, of_int n - kEpochOffsetDays)"
proof -
  define m where "m = (5 * k + 2) div 153"
  have p: "n = 146097 * c + (year_start y + k)" "0 \<le> c" "0 \<le> y" "y < 400" "0 \<le> k" "k < 366" using assms(1) by (auto simp: place_def year_length_def split: if_splits)
  note md = march_day [OF p(5,6) m_def]
  have YMD: "Y = (if m < 10 then 400 * c + y else 400 * c + y + 1)" "M = (if m < 10 then m + 3 else m - 9)" "D = k - (153 * m + 2) div 5 + 1"
    using assms(2) md(1-3) by (auto simp: year_day_def split: if_splits)
  have yr: "0 \<le> 400 * c + y" "400 * c + y < 65536" using p YMD(1) assms(4) by (auto split: if_splits)
  have range: "\<not> (of_int Y :: u16) < 1970" "\<not> (of_int Y :: u16) > 28276" using assms(3,4) by (simp_all add: word_less_def uint_word_of_int)
  have month: "(if (of_int M :: u8) \<le> 2 then (of_int Y - 1, of_int M + 9) else (of_int Y, of_int M - 3)) = (of_int (400 * c + y) :: u16, of_int m :: u8)"
    using YMD(1,2) md(1,2) by (auto simp: word_le_def uint_word_of_int)
  have s: "MarchBasedMonthToDayOfYear (of_int m) = of_int ((153 * m + 2) div 5)"
    unfolding MarchBasedMonthToDayOfYear_def using md(1,2) by (simp add: uint_word_of_int)
  have D: "ucast (of_int D :: u8) = (of_int D :: u16)" using md(4,5) YMD(3) by (intro ucast_of_int) simp_all
  have doy: "MarchBasedMonthToDayOfYear (of_int m) + (ucast (of_int D :: u8) - 1) = (of_int k :: u16)"
    unfolding s D using YMD(3) by simp
  have cyc: "(of_int (400 * c + y) :: u16) div 400 = of_int c" using yr p of_int_div [where 'a = 16, of "400 * c + y" 400] by simp
  have "ucast (of_int (400 * c + y) :: u16) = (of_int (400 * c + y) :: u32)" using yr by (intro ucast_of_int) simp_all
  then have yoc: "ucast (of_int c :: u16) = (of_int c :: u32)" "ucast (of_int (400 * c + y) :: u16) - of_int c * 400 = (of_int y :: u32)"
    using yr p by (simp_all add: ucast_of_int)
  have yd: "(of_int y :: u32) div 4 = of_int (y div 4)" "(of_int y :: u32) div 100 = of_int (y div 100)" "ucast (of_int k :: u16) = (of_int k :: u32)"
    using p of_int_div [where 'a = 32, of y 4] of_int_div [where 'a = 32, of y 100] by (simp_all add: ucast_of_int)
  show ?thesis
    unfolding CalendarDateToDaysSinceEpoch_def Let_def month prod.case doy cyc yoc yd using range p(1) by (simp add: year_start_def)
qed

lemma leap_year_uint: "leap_year (uint year) \<longleftrightarrow> IsLeapYear year"
  by (simp add: leap_year_def IsLeapYear_def uint_mod flip: word_uint_eq_iff) (simp add: word_uint_eq_iff uint_mod)

lemma DaysInMonth_eq: "uint (DaysInMonth year month) = (if 1 \<le> month \<and> month \<le> 12 then month_length (uint year) (uint month) else 0)"
proof -
  show ?thesis
  proof (cases "1 \<le> month \<and> month \<le> 12")
    case True
    define m where "m = unat month"
    have m: "month = of_nat m" by (simp add: m_def)
    have "m \<in> {1, 2, 3, 4, 5, 6, 7, 8, 9, 10, 11, 12}" using True by (simp add: m_def word_le_nat_alt; presburger)
    then show ?thesis unfolding month_length_def leap_year_uint m by (auto simp: DaysInMonth_def daysInMonth_def)
  qed (auto simp: DaysInMonth_def)
qed

lemma valid_place:
  assumes "1 \<le> M" "M \<le> 12" "1 \<le> D" "D \<le> month_length Y M" "1 \<le> Y"
  obtains n c y k where "place n c y k" "year_day (400 * c + y) k = (Y, M, D)"
proof -
  define Y' m where "Y' = (if M \<le> 2 then Y - 1 else Y)" and "m = (if M \<le> 2 then M + 9 else M - 3)"
  define k where "k = (153 * m + 2) div 5 + D - 1"
  have M: "M \<in> {1, 2, 3, 4, 5, 6, 7, 8, 9, 10, 11, 12}" using assms(1,2) by (simp; presburger)
  have D: "D \<le> 31" "M = 2 \<longrightarrow> D \<le> 29" "M \<in> {4, 6, 9, 11} \<longrightarrow> D \<le> 30" "M = 2 \<and> D = 29 \<longrightarrow> leap_year Y"
    using assms(4) by (auto simp: month_length_def split: if_splits)
  have "0 \<le> 5 * k + 2 - 153 * m" "5 * k + 2 - 153 * m < 153" using M D(1-3) assms(3) unfolding k_def m_def by (elim insertE; simp)+
  then have "(5 * k + 2) div 153 = m" using int_div_pos_eq [of "5 * k + 2" 153 m "5 * k + 2 - 153 * m"] by simp
  then have "month_day k = (M, D)" using assms(1,2) by (simp add: k_def m_def month_day_def)
  then have date: "year_day Y' k = (Y, M, D)" by (simp add: year_day_def Y'_def)
  have k: "0 \<le> k" "k \<le> 365" "k = 365 \<longrightarrow> M = 2 \<and> D = 29" using M D(1-3) assms(3) unfolding k_def m_def by (elim insertE; simp)+
  have "year_length (Y' mod 400) = (if leap_year (Y' + 1) then 366 else 365)"
    using year_length_leap [of "Y' mod 400" "Y' div 400"] by (simp add: algebra_simps)
  then have "k < year_length (Y' mod 400)" using k D(4) by (auto simp: Y'_def)
  then have "place (146097 * (Y' div 400) + year_start (Y' mod 400) + k) (Y' div 400) (Y' mod 400) k"
    using k(1) assms(5) by (auto simp: place_def Y'_def)
  then show thesis using that date by simp
qed

section \<open>Properties\<close>

text \<open>A date the source can convert, with its day number.\<close>

lemma day_number:
  assumes "1970 \<le> year" "year \<le> 28276" "1 \<le> dayOfMonth" "dayOfMonth \<le> DaysInMonth year month"
  obtains n c y k where "place (int n) c y k" "year_day (400 * c + y) k = (uint year, uint month, uint dayOfMonth)"
    "CalendarDateToDaysSinceEpoch year month dayOfMonth = (True, of_nat n - kEpochOffsetDays)" "719468 \<le> n" "n < 20000000"
proof -
  have Y: "1970 \<le> uint year" "uint year \<le> 28276" "1 \<le> uint dayOfMonth" "uint dayOfMonth \<le> uint (DaysInMonth year month)"
    using assms by (simp_all add: word_le_def)
  then have M: "1 \<le> uint month" "uint month \<le> 12" "uint dayOfMonth \<le> month_length (uint year) (uint month)"
    by (auto simp: DaysInMonth_eq word_le_def split: if_splits)
  have Y1: "1 \<le> uint year" using Y by simp
  obtain n c y k where p: "place n c y k" "year_day (400 * c + y) k = (uint year, uint month, uint dayOfMonth)"
    by (rule valid_place [OF M(1,2) Y(3) M(3) Y1])
  have q: "n = 146097 * c + (year_start y + k)" "0 \<le> c" "0 \<le> y" "y < 400" "0 \<le> k" "k < 366" using p(1) by (auto simp: place_def year_length_def split: if_splits)
  define m where "m = (5 * k + 2) div 153"
  note md = march_day [OF q(5,6) m_def]
  have mk: "10 \<le> m \<Longrightarrow> 306 \<le> k" by (simp add: m_def)
  have ymd: "uint year = (if m < 10 then 400 * c + y else 400 * c + y + 1)" "uint month = (if m < 10 then m + 3 else m - 9)"
    using p(2) md(1-3) by (auto simp: year_day_def split: if_splits)
  have yr: "uint year - 1 \<le> 400 * c + y" "400 * c + y \<le> uint year" and jan: "uint month > 2 \<longrightarrow> 400 * c + y = uint year" "uint month \<le> 2 \<longrightarrow> 306 \<le> k"
    unfolding ymd using md(1,2) mk by auto
  have st: "0 \<le> year_start y" "year_start y < 146097" using year_start_range [OF q(3,4)] by (auto simp: year_length_def split: if_splits)
  have "719468 \<le> n"
  proof (cases "c = 4")
    case True
    then have "369 \<le> y" "y = 369 \<longrightarrow> 306 \<le> k" using yr jan Y(1) by auto
    then show ?thesis using True q by (cases "y = 369") (auto simp: year_start_def)
  next
    case False
    then have "5 \<le> c" using yr Y(1) q(4) by linarith
    then show ?thesis using q(1,5) st(1) by linarith
  qed
  moreover have "n < 20000000" using q st yr Y(2) by linarith
  ultimately show thesis
    using that [of "nat n" c y k] p date_to_days [OF p Y(1,2)] by simp
qed

text \<open>
  C17. The conversion of dates is right: for every date of the Gregorian calendar from 1970 to 28276, \<^verbatim>\<open>CalendarDateToDaysSinceEpoch\<close>
  succeeds with a number of days such that counting so many days, one by one, from 1970-01-01 gives the date, and
  \<^verbatim>\<open>DaysSinceEpochToCalendarDate\<close> gives the date back.
\<close>

theorem calendar_date_roundtrip:
  assumes "1970 \<le> year" "year \<le> 28276" "1 \<le> dayOfMonth" "dayOfMonth \<le> DaysInMonth year month"
  shows "\<exists>n. CalendarDateToDaysSinceEpoch year month dayOfMonth = (True, n) \<and>
    (next_day ^^ unat n) (1970, 1, 1) = (uint year, uint month, uint dayOfMonth) \<and>
    DaysSinceEpochToCalendarDate n = (year, month, dayOfMonth)"
proof -
  obtain n c y k where d: "place (int n) c y k" "year_day (400 * c + y) k = (uint year, uint month, uint dayOfMonth)"
    "CalendarDateToDaysSinceEpoch year month dayOfMonth = (True, of_nat n - kEpochOffsetDays)" "719468 \<le> n" "n < 20000000"
    by (rule day_number [OF assms])
  define w where "w = (of_nat n - kEpochOffsetDays :: u32)"
  have u: "uint (w + kEpochOffsetDays) = int n" using d(5) by (simp add: w_def uint_nat unat_of_nat)
  have "w = of_nat (n - 719468)" using d(4) by (simp add: w_def of_nat_diff)
  then have "unat w = (n - 719468) mod 2 ^ 32" by (simp only: unat_of_nat) simp
  then have "unat w + 719468 = n" using d(4,5) by simp
  then have "(next_day ^^ unat w) (1970, 1, 1) = (uint year, uint month, uint dayOfMonth)"
    using place_date [OF d(1)] d(2) date_after_epoch [of "unat w"] by simp
  moreover have "DaysSinceEpochToCalendarDate w = (year, month, dayOfMonth)"
    using days_to_date [of w c y k] d(1,2) u by (simp add: date_words_def)
  ultimately show ?thesis using d(3) by (auto simp: w_def)
qed

theorem calendar_date_roundtrip_witness:
  "\<exists>n. CalendarDateToDaysSinceEpoch 2024 2 29 = (True, n) \<and> (next_day ^^ unat n) (1970, 1, 1) = (2024, 2, 29) \<and>
    DaysSinceEpochToCalendarDate n = (2024, 2, 29)"
  using calendar_date_roundtrip [of 2024 29 2] by (simp add: DaysInMonth_def IsLeapYear_def)

text \<open>
  A date is moved by any number of days, back or forth: from a date between 1970 and 28276, \<^verbatim>\<open>AdjustCalendarDate\<close> gives the date that
  many days later, or earlier, as far as 0000-03-01 and to the year 65535 (beyond it the year is truncated to 16 bits), although days
  before 1970 wrap around in the unsigned number of days.
\<close>

theorem adjust_moves_by_days:
  assumes "1970 \<le> year" "year \<le> 28276" "1 \<le> dayOfMonth" "dayOfMonth \<le> DaysInMonth year month"
  shows "\<exists>n. (next_day ^^ n) (0, 3, 1) = (uint year, uint month, uint dayOfMonth) \<and>
    (\<forall>relativeDays. 0 \<le> int n + relativeDays \<and> relativeDays < 2 ^ 31 \<longrightarrow>
       AdjustCalendarDate (year, month, dayOfMonth) relativeDays = date_words ((next_day ^^ nat (int n + relativeDays)) (0, 3, 1)))"
proof -
  obtain n c y k where d: "place (int n) c y k" "year_day (400 * c + y) k = (uint year, uint month, uint dayOfMonth)"
    "CalendarDateToDaysSinceEpoch year month dayOfMonth = (True, of_nat n - kEpochOffsetDays)" "n < 20000000"
    by (rule day_number [OF assms])
  have "AdjustCalendarDate (year, month, dayOfMonth) r = date_words ((next_day ^^ nat (int n + r)) (0, 3, 1))" if r: "0 \<le> int n + r" "r < 2 ^ 31" for r
  proof -
    let ?w = "of_nat n - kEpochOffsetDays + word_of_int r :: u32"
    have "?w + kEpochOffsetDays = word_of_int (int n + r)" by simp
    then have u: "uint (?w + kEpochOffsetDays) = int n + r" using r d(4) by (simp only: uint_word_of_int) simp
    obtain c' y' k' where "place (int (nat (int n + r))) c' y' k'" "year_day (400 * c' + y') k' = (next_day ^^ nat (int n + r)) (0, 3, 1)"
      using place_exists by blast
    then show ?thesis using days_to_date [of ?w c' y' k'] u r(1) d(3) by (simp add: AdjustCalendarDate_def)
  qed
  moreover have "(next_day ^^ n) (0, 3, 1) = (uint year, uint month, uint dayOfMonth)" using place_date [OF d(1)] d(2) by simp
  ultimately show ?thesis by blast
qed

theorem adjust_moves_by_days_witness:
  "\<exists>n. (next_day ^^ n) (0, 3, 1) = (1970, 1, 1) \<and>
    (0 \<le> int n - 1 \<longrightarrow> AdjustCalendarDate (1970, 1, 1) (- 1) = date_words ((next_day ^^ nat (int n - 1)) (0, 3, 1)))"
proof -
  have "(1::u8) \<le> DaysInMonth 1970 1" by (simp add: DaysInMonth_def daysInMonth_def)
  from adjust_moves_by_days [of 1970 1 1, OF _ _ _ this] obtain n where "(next_day ^^ n) (0, 3, 1) = (1970, 1, 1)"
    "\<And>r. 0 \<le> int n + r \<and> r < 2 ^ 31 \<Longrightarrow> AdjustCalendarDate (1970, 1, 1) r = date_words ((next_day ^^ nat (int n + r)) (0, 3, 1))"
    by auto
  then show ?thesis by (intro exI [of _ n]) auto
qed

lemma next_day_year: "m \<le> n \<Longrightarrow> fst ((next_day ^^ m) x) \<le> fst ((next_day ^^ n) x)"
proof (rule lift_Suc_mono_le)
  fix k
  have "fst d \<le> fst (next_day d)" for d by (cases d) auto
  then show "fst ((next_day ^^ k) x) \<le> fst ((next_day ^^ Suc k) x)" by simp
qed

lemma year_2105:
  assumes "n < 49673"
  shows "1970 \<le> fst ((next_day ^^ n) (1970, 1, 1))" "fst ((next_day ^^ n) (1970, 1, 1)) \<le> 2105"
proof -
  have "place (int (49672 + 719468)) 5 105 305" by (simp add: place_def year_start_def year_length_def)
  from place_date [OF this] have "(next_day ^^ 49672) (1970, 1, 1) = (2105, 12, 31)"
    unfolding date_after_epoch by (simp add: year_day_def month_day_def)
  then show "fst ((next_day ^^ n) (1970, 1, 1)) \<le> 2105" using next_day_year [of n 49672 "(1970, 1, 1)"] assms by simp
  show "1970 \<le> fst ((next_day ^^ n) (1970, 1, 1))" using next_day_year [of 0 n "(1970, 1, 1)"] by simp
qed

lemma split_seconds:
  assumes "t < 86400" "t1 = t - t div 3600 * 3600" "s = t1 - t1 div 60 * 60"
  shows "t div 3600 < 24" "t1 div 60 < 60" "s < (60 :: nat)" "t = t div 3600 * 3600 + t1 div 60 * 60 + s"
  using assms by (auto simp: minus_div_mult_eq_mod less_mult_imp_div_less)

lemma narrow_back: "unat (x :: u32) < 256 \<Longrightarrow> ucast (ucast x :: u8) = x"
  by (simp add: word_unat_eq_iff unsigned_ucast_eq unsigned_take_bit_eq take_bit_nat_eq_self)

lemma time_of_day:
  assumes "SecondsSinceEpochToCalendarTime s = (date, hour, minute, second)"
  shows "date = DaysSinceEpochToCalendarDate (s div kSecondsPerDay)" "unat hour < 24" "unat minute < 60" "unat second < 60"
    "unat s mod 86400 = unat hour * 3600 + unat minute * 60 + unat second"
proof -
  define t t1 where "t = s - s div kSecondsPerDay * kSecondsPerDay" and "t1 = t - ucast (ucast (t div 3600) :: u8) * 3600"
  have r: "date = DaysSinceEpochToCalendarDate (s div kSecondsPerDay)" "hour = ucast (t div 3600)" "minute = ucast (t1 div 60)"
    "second = ucast (t1 - ucast (ucast (t1 div 60) :: u8) * 60)"
    using assms by (auto simp: SecondsSinceEpochToCalendarTime_def Let_def t_def t1_def)
  have t: "unat t = unat s mod 86400" unfolding t_def minus_div_mult_eq_mod by (simp add: unat_mod)
  note s1 = split_seconds [of "unat t", OF _ refl refl]
  have small: "unat t < 86400" using t by simp
  have h: "unat (ucast (t div 3600) :: u8) = unat t div 3600" using s1(1) [OF small] by (simp add: unsigned_ucast_eq unat_div take_bit_nat_eq_self)
  have h': "ucast (ucast (t div 3600) :: u8) = t div 3600" using s1(1) [OF small] by (intro narrow_back) (simp add: unat_div)
  have t1: "unat t1 = unat t - unat t div 3600 * 3600" unfolding t1_def h' minus_div_mult_eq_mod by (simp add: unat_mod minus_div_mult_eq_mod)
  have m: "unat (ucast (t1 div 60) :: u8) = unat t1 div 60" using s1(2) [OF small] t1 by (simp add: unsigned_ucast_eq unat_div take_bit_nat_eq_self)
  have m': "ucast (ucast (t1 div 60) :: u8) = t1 div 60" using s1(2) [OF small] t1 by (intro narrow_back) (simp add: unat_div)
  have "unat (t1 - t1 div 60 * 60) = unat t1 - unat t1 div 60 * 60" unfolding minus_div_mult_eq_mod by (simp add: unat_mod minus_div_mult_eq_mod)
  moreover have "unat t1 - unat t1 div 60 * 60 < 60" using s1(3) [OF small] t1 by simp
  ultimately have s: "unat (ucast (t1 - t1 div 60 * 60) :: u8) = unat t1 - unat t1 div 60 * 60" by (simp add: unsigned_ucast_eq take_bit_nat_eq_self)
  show "date = DaysSinceEpochToCalendarDate (s div kSecondsPerDay)" by (rule r(1))
  show "unat hour < 24" "unat minute < 60" "unat second < 60" "unat s mod 86400 = unat hour * 3600 + unat minute * 60 + unat second"
    unfolding r(2-4) m' h m s t1 t [symmetric] using s1 [OF small] by simp_all
qed

text \<open>
  C25. Every number of seconds that falls in the years 1970 to 2105 is converted to a date and a time of day, and back to the same
  number: the date is the one counted day by day from 1970-01-01, and hour, minute and second are in their ranges.
\<close>

theorem calendar_time_roundtrip:
  assumes "unat s div 86400 < 49673" "SecondsSinceEpochToCalendarTime s = ((year, month, dayOfMonth), hour, minute, second)"
  shows "(year, month, dayOfMonth) = date_words ((next_day ^^ (unat s div 86400)) (1970, 1, 1)) \<and> hour < 24 \<and> minute < 60 \<and> second < 60 \<and>
    unat s mod 86400 = unat hour * 3600 + unat minute * 60 + unat second \<and>
    CalendarTimeToSecondsSinceEpoch year month dayOfMonth hour minute second = (True, s)"
proof -
  note td = time_of_day [OF assms(2)]
  define n where "n = unat s div 86400"
  have "unat (s div kSecondsPerDay) = n" by (simp add: n_def unat_div)
  then have w: "s div kSecondsPerDay = of_nat n" by auto
  obtain c y k where p: "place (int (n + 719468)) c y k" "year_day (400 * c + y) k = (next_day ^^ n) (1970, 1, 1)"
    using place_exists [of "n + 719468"] unfolding date_after_epoch by blast
  obtain Y M D where ymd: "(next_day ^^ n) (1970, 1, 1) = (Y, M, D)" by (cases "(next_day ^^ n) (1970, 1, 1)")
  have Y: "1970 \<le> Y" "Y \<le> 2105" using year_2105 [of n] assms(1) ymd by (auto simp: n_def)
  have "uint (s div kSecondsPerDay + kEpochOffsetDays) = int (n + 719468)"
    unfolding w using assms(1) by (simp add: uint_nat unat_word_ariths unat_of_nat n_def)
  then have date: "(year, month, dayOfMonth) = date_words (Y, M, D)" using days_to_date [of "s div kSecondsPerDay" c y k] p ymd td(1) by simp
  have "CalendarDateToDaysSinceEpoch year month dayOfMonth = (True, of_int (int (n + 719468)) - kEpochOffsetDays)"
    using date_to_days [OF p(1), of Y M D] p(2) ymd Y date by (simp add: date_words_def)
  then have days: "snd (CalendarDateToDaysSinceEpoch year month dayOfMonth) = of_nat n" by simp
  have "unat s = n * 86400 + unat s mod 86400" by (simp add: n_def)
  then have "unat s = n * 86400 + (unat hour * 3600 + unat minute * 60 + unat second)" using td(5) by simp
  then have "of_nat (unat s) = (of_nat (n * 86400 + (unat hour * 3600 + unat minute * 60 + unat second)) :: u32)" by (simp only:)
  then have "s = of_nat n * kSecondsPerDay + ucast hour * 3600 + ucast minute * 60 + ucast second" by (simp add: ac_simps)
  moreover have "\<not> year < 1970" "\<not> year > 2105" using date Y by (auto simp: date_words_def word_less_def uint_word_of_int)
  ultimately show ?thesis using date ymd td(2-5) days by (simp add: CalendarTimeToSecondsSinceEpoch_def n_def word_less_nat_alt)
qed

theorem calendar_time_roundtrip_witness:
  "CalendarTimeToSecondsSinceEpoch 2000 2 29 12 34 56 = (True, 951827696)"
proof -
  have "SecondsSinceEpochToCalendarTime 951827696 = ((2000, 2, 29), 12, 34, 56)" by code_simp
  from calendar_time_roundtrip [OF _ this] show ?thesis by simp
qed

section \<open>Days of a year and of a week\<close>

text \<open>January 1 is day 306 of the year that began in March.\<close>

lemma new_year:
  assumes "1 \<le> Y"
  obtains n c y where "place (int n) c y 306" "400 * c + y = Y - 1" "(next_day ^^ n) (0, 3, 1) = (Y, 1, 1)"
proof -
  let ?c = "(Y - 1) div 400" and ?y = "(Y - 1) mod 400"
  let ?n = "146097 * ?c + year_start ?y + 306"
  have p: "place ?n ?c ?y 306" using assms by (auto simp: place_def year_length_def)
  have "0 \<le> ?n" using year_start_range(1) [of ?y] assms by (simp add: pos_imp_zdiv_nonneg_iff)
  with p have q: "place (int (nat ?n)) ?c ?y 306" by simp
  from place_date [OF q] have "(next_day ^^ nat ?n) (0, 3, 1) = (Y, 1, 1)" by (simp add: year_day_def month_day_def)
  with q show thesis by (intro that [of "nat ?n" ?c ?y]) simp_all
qed

lemma day_of_year:
  assumes "1 \<le> Y" "M = (if leap_year Y then 60 else 59)" "j < 306 + M"
  shows "(next_day ^^ j) (Y, 1, 1) = (if j < M then year_day (Y - 1) (306 + int j) else year_day Y (int (j - M)))"
proof -
  obtain n c y where n: "place (int n) c y 306" "400 * c + y = Y - 1" "(next_day ^^ n) (0, 3, 1) = (Y, 1, 1)" by (rule new_year [OF assms(1)])
  have p: "int n = 146097 * c + year_start y + 306" "0 \<le> c" "0 \<le> y" "y < 400" using n(1) by (auto simp: place_def)
  have l: "year_length y = 306 + int M" using year_length_leap [of y c] n(2) assms(2) by (simp add: algebra_simps)
  have eq: "(next_day ^^ j) (Y, 1, 1) = (next_day ^^ (j + n)) (0, 3, 1)" by (simp add: funpow_add n(3))
  show ?thesis
  proof (cases "j < M")
    case True
    then have "place (int (j + n)) c y (306 + int j)" using p l by (simp add: place_def)
    from place_date [OF this] show ?thesis using True eq n(2) by simp
  next
    case False
    have k: "int (j - M) < 365" "int (j - M) = int j - int M" using assms(3) False by auto
    have "\<exists>c' y'. place (int (j + n)) c' y' (int (j - M)) \<and> 400 * c' + y' = Y"
    proof (cases "y < 399")
      case True
      then have "place (int (j + n)) c (y + 1) (int (j - M))" using p l k year_start_step [OF p(3,4)] by (simp add: place_def year_length_def)
      then show ?thesis using n(2) by (intro exI [of _ c] exI [of _ "y + 1"]) simp
    next
      case False
      then have "place (int (j + n)) (c + 1) 0 (int (j - M))" using p l k year_start_step [OF p(3,4)] by (simp add: place_def year_length_def year_start_def)
      then show ?thesis using n(2) p False by (intro exI [of _ "c + 1"] exI [of _ 0]) simp
    qed
    then show ?thesis using place_date False eq by metis
  qed
qed

text \<open>
  The conversion of a day of the year is right: for every year from 1 on and every day of it, \<^verbatim>\<open>OrdinalDateToCalendarDate\<close> gives the month and day counted
  day by day from January 1, and \<^verbatim>\<open>CalendarDateToOrdinalDate\<close> gives the day of the year back.
\<close>

theorem ordinal_date_roundtrip:
  assumes "1 \<le> year" "1 \<le> dayOfYear" "dayOfYear \<le> (if IsLeapYear year then 366 else 365)" "OrdinalDateToCalendarDate year dayOfYear = (month, dayOfMonth)"
  shows "(year, month, dayOfMonth) = date_words ((next_day ^^ (unat dayOfYear - 1)) (uint year, 1, 1)) \<and>
    CalendarDateToOrdinalDate year month dayOfMonth = dayOfYear"
proof -
  define M j where "M = (if leap_year (uint year) then 60 else 59 :: nat)" and "j = unat dayOfYear - 1"
  define k where "k = (if j < M then 306 + int j else int (j - M))"
  have d: "dayOfYear - 1 = of_nat j" "unat (of_nat j :: u16) = j" "j < 306 + M" "j < 366" "dayOfYear = of_nat j + 1"
    using assms(2,3) by (auto simp: j_def M_def leap_year_uint word_le_nat_alt unat_sub of_nat_diff split: if_splits)
  have m1: "ucast (DaysToMarch1 year) = (of_nat M :: u16)" "unat (of_nat M :: u16) = M" by (simp_all add: DaysToMarch1_def M_def leap_year_uint)
  have k: "0 \<le> k" "k < 366" using d(3,4) by (auto simp: k_def M_def)
  have kw: "(if dayOfYear - 1 < ucast (DaysToMarch1 year) then dayOfYear - 1 + 306 else dayOfYear - 1 - ucast (DaysToMarch1 year)) = of_int k"
    unfolding d(1) m1(1) using d(2) m1(2) by (auto simp: k_def word_less_nat_alt of_nat_diff)
  have "OrdinalDateToCalendarDate year dayOfYear = (of_int (fst (month_day k)), of_int (snd (month_day k)))"
    unfolding OrdinalDateToCalendarDate_def Let_def kw using march_month [OF k refl] by simp
  then have md: "month = of_int (fst (month_day k))" "dayOfMonth = of_int (snd (month_day k))" using assms(4) by simp_all
  define m where "m = (5 * k + 2) div 153"
  note a = march_day [OF k m_def]
  have mk: "m < 10 \<longleftrightarrow> k < 306" "k < 306 \<longleftrightarrow> \<not> j < M" using d(3) by (auto simp: m_def k_def)
  have "(year, month, dayOfMonth) = date_words ((next_day ^^ j) (uint year, 1, 1))"
    using day_of_year [of "uint year" M j] assms(1) d(3) md mk a(1-3) by (auto simp: M_def word_le_def date_words_def year_day_def k_def)
  moreover have "CalendarDateToOrdinalDate year month dayOfMonth = dayOfYear"
  proof -
    have mw: "month + (if month > 2 then - 3 else 9) = of_int m" using md(1) a(1-3) by (auto simp: word_less_def uint_word_of_int)
    have s: "MarchBasedMonthToDayOfYear (of_int m) = of_int ((153 * m + 2) div 5)"
      unfolding MarchBasedMonthToDayOfYear_def using a(1,2) by (simp add: uint_word_of_int)
    have lt: "(of_int ((153 * m + 2) div 5) :: u16) < 306 \<longleftrightarrow> m < 10" using a(1,2) by (auto simp: word_less_def uint_word_of_int)
    have D: "ucast dayOfMonth = (of_int (k - (153 * m + 2) div 5 + 1) :: u16)" unfolding md(2) using a(3-5) by (subst ucast_of_int) simp_all
    have "(if m < 10 then (153 * m + 2) div 5 + int M else (153 * m + 2) div 5 - 306) + (k - (153 * m + 2) div 5 + 1) = int j + 1"
      using mk by (auto simp: k_def)
    from arg_cong [OF this, of "of_int :: int \<Rightarrow> u16"] have "(if m < 10 then of_int ((153 * m + 2) div 5) + of_nat M else of_int ((153 * m + 2) div 5) - 306) + of_int (k - (153 * m + 2) div 5 + 1) = (of_int (int j + 1) :: u16)"
      by (cases "m < 10") simp_all
    then show ?thesis unfolding CalendarDateToOrdinalDate_def Let_def mw s lt D m1(1) d(5) by simp
  qed
  ultimately show ?thesis by (simp add: j_def)
qed

theorem ordinal_date_roundtrip_witness: "CalendarDateToOrdinalDate 2024 12 31 = 366"
proof -
  have "OrdinalDateToCalendarDate 2024 366 = (12, 31)" by code_simp
  from ordinal_date_roundtrip [OF _ _ _ this] show ?thesis by (simp add: IsLeapYear_def)
qed

lemma year_day_inj:
  assumes "year_day Y k = year_day Y' k'" "0 \<le> k" "k < 366" "0 \<le> k'" "k' < 366"
  shows "Y = Y' \<and> k = k'"
proof -
  define m m' where "m = (5 * k + 2) div 153" and "m' = (5 * k' + 2) div 153"
  note a = march_day [OF assms(2,3) m_def] and b = march_day [OF assms(4,5) m'_def]
  have "m = m'" using assms(1) a(1-3) b(1-3) by (auto simp: year_day_def split: if_splits)
  then show ?thesis using assms(1) a(1-3) b(1-3) by (auto simp: year_day_def split: if_splits)
qed

lemma days_inj:
  assumes "(next_day ^^ a) (0, 3, 1) = (next_day ^^ b) (0, 3, 1)"
  shows "a = b"
proof -
  obtain c y k c' y' k' where p: "place (int a) c y k" "place (int b) c' y' k'" and d: "year_day (400 * c + y) k = year_day (400 * c' + y') k'"
    using place_exists [of a] place_exists [of b] assms by metis
  have "0 \<le> k" "k < 366" "0 \<le> k'" "k' < 366" using p by (auto simp: place_def year_length_def split: if_splits)
  from year_day_inj [OF d this] have e: "400 * c + y = 400 * c' + y'" "k = k'" by simp_all
  have y: "0 \<le> y" "y < 400" "0 \<le> y'" "y' < 400" using p by (auto simp: place_def)
  have "c = (400 * c + y) div 400" "c' = (400 * c' + y') div 400" using y by simp_all
  then have "c = c'" "y = y'" using e(1) by simp_all
  then have "int a = int b" using p e(2) by (simp add: place_def)
  then show ?thesis by simp
qed

text \<open>
  The weekday of January 1 is right: for every year from 1970 on \<^verbatim>\<open>FirstWeekdayOfYear\<close> is the weekday counted day by day from
  1970-01-01, a Thursday.
\<close>

theorem first_weekday_is_counted:
  assumes "(next_day ^^ n) (1970, 1, 1) = (uint year, 1, 1)"
  shows "unat (FirstWeekdayOfYear year) = (4 + n) mod 7"
proof -
  have Y: "1970 \<le> uint year" using next_day_year [of 0 n "(1970, 1, 1)"] assms by simp
  obtain n' c y where n: "place (int n') c y 306" "400 * c + y = uint year - 1" "(next_day ^^ n') (0, 3, 1) = (uint year, 1, 1)"
    using new_year [of "uint year"] Y by auto
  have "n' = n + 719468" using n(3) assms date_after_epoch [of n] by (intro days_inj) simp
  then have day: "int n = 146097 * c + year_start y + 306 - 719468" and yb: "0 \<le> y" "y < 400" using n(1) by (auto simp: place_def)
  obtain a q r where y: "y = 100 * a + 4 * q + r" "0 \<le> a" "a < 4" "0 \<le> q" "q < 25" "0 \<le> r" "r < 4" by (rule year_split [OF yb])
  define z where "z = uint year - 1"
  have z: "z = 400 * c + (100 * a + 4 * q + r)" "0 < z" using n(2) y(1) Y by (simp_all add: z_def)
  have m: "z smod 4 = r" "z smod 100 = 4 * q + r" "z smod 400 = y"
    unfolding signed_modulo_int_def using z y
      int_mod_pos_eq [of z 4 "100 * c + 25 * a + q" r] int_mod_pos_eq [of z 100 "4 * c + a" "4 * q + r"] int_mod_pos_eq [of z 400 c y]
    by (auto simp: sgn_if)
  define v where "v = 1 + 5 * r + 4 * (4 * q + r) + 6 * y"
  have v: "0 \<le> v" using y by (simp add: v_def)
  have "v - (4 + int n) = 7 * (102737 - 50 * r - 203 * q - 5132 * a - 20871 * c)"
    unfolding v_def day year_parts(1) [OF y] using y(1) by simp
  then have "v mod 7 = (4 + int n) mod 7" unfolding mod_eq_dvd_iff by (rule dvdI)
  moreover have "FirstWeekdayOfYear year = word_of_int (v mod 7)"
    unfolding FirstWeekdayOfYear_def Let_def z_def [symmetric] m v_def [symmetric] using v by (simp add: signed_modulo_int_def sgn_if)
  ultimately have "uint (FirstWeekdayOfYear year) = (4 + int n) mod 7" by (simp add: uint_word_of_int)
  then have "int (unat (FirstWeekdayOfYear year)) = int ((4 + n) mod 7)" by (simp add: zmod_int)
  then show ?thesis by (simp only: of_nat_eq_iff)
qed

theorem first_weekday_is_counted_witness: "unat (FirstWeekdayOfYear 1970) = 4"
  using first_weekday_is_counted [of 0 1970] by simp

end
