(* ===== verification/Base64.thy ===== *)
theory Base64
  imports Weave_Prelude
begin

text \<open>
  Base-64 text (\<^verbatim>\<open>src/src/lib/support/Base64.cpp\<close>).  Encoding writes to a buffer of its own and is a function of the input.
  Decoding may work in place, so it is a function on a memory with the offsets of input and output.  The alphabets are the
  functions that the source passes as pointers; the locale \<open>base64\<close> states what decoding relies on.
\<close>

section \<open>Alphabets\<close>

text \<open>\<^verbatim>\<open>'+'\<close> is 43, \<^verbatim>\<open>'-'\<close> 45, \<^verbatim>\<open>'/'\<close> 47, \<^verbatim>\<open>'0'\<close> 48, \<^verbatim>\<open>'='\<close> 61, \<^verbatim>\<open>'A'\<close> 65, \<^verbatim>\<open>'_'\<close> 95 and \<^verbatim>\<open>'a'\<close> 97.\<close>

definition Base64ValToChar :: "u8 \<Rightarrow> u8" where
  "Base64ValToChar val =
     (if val < 26 then 65 + val
      else let val = val - 26 in
      if val < 26 then 97 + val
      else let val = val - 26 in
      if val < 10 then 48 + val
      else if val = 10 then 43
      else if val = 11 then 47
      else 61)"

definition Base64CharToVal :: "u8 \<Rightarrow> u8" where
  "Base64CharToVal c =
     (if c = 43 then 62
      else if c = 47 then 63
      else let c = c - 48 in
      if c < 10 then c + 52
      else let c = c - 17 in
      if c < 26 then c
      else let c = c - 32 in
      if c < 26 then c + 26
      else 0xFF)"

definition Base64URLValToChar :: "u8 \<Rightarrow> u8" where
  "Base64URLValToChar val =
     (if val < 26 then 65 + val
      else let val = val - 26 in
      if val < 26 then 97 + val
      else let val = val - 26 in
      if val < 10 then 48 + val
      else if val = 10 then 45
      else if val = 11 then 95
      else 61)"

definition Base64URLCharToVal :: "u8 \<Rightarrow> u8" where
  "Base64URLCharToVal c =
     (if c = 45 then 62
      else if c = 95 then 63
      else let c = c - 48 in
      if c < 10 then c + 52
      else let c = c - 17 in
      if c < 26 then c
      else let c = c - 32 in
      if c < 26 then c + 26
      else 0xFF)"

section \<open>Encoding\<close>

fun EncodeGroups :: "(u8 \<Rightarrow> u8) \<Rightarrow> u8 list \<Rightarrow> u8 list" where
  "EncodeGroups valToChar [] = []"
| "EncodeGroups valToChar (x # in1) =
     (let val1 = drop_bit 2 x; val2 = push_bit 4 x AND 0x3F in
      case in1 of
        [] \<Rightarrow> [valToChar val1, valToChar val2, valToChar 0xFF, valToChar 0xFF]
      | y # in2 \<Rightarrow>
          let val2 = val2 OR drop_bit 4 y; val3 = push_bit 2 y AND 0x3F in
          case in2 of
            [] \<Rightarrow> [valToChar val1, valToChar val2, valToChar val3, valToChar 0xFF]
          | z # in3 \<Rightarrow>
              let val3 = val3 OR drop_bit 6 z; val4 = z AND 0x3F
              in valToChar val1 # valToChar val2 # valToChar val3 # valToChar val4 # EncodeGroups valToChar in3)"

text \<open>The text written and the length returned, which has 16 bits.\<close>

definition Base64Encode :: "(u8 \<Rightarrow> u8) \<Rightarrow> u8 list \<Rightarrow> u8 list \<times> u16" where
  "Base64Encode valToChar bytes = (let out = EncodeGroups valToChar bytes in (out, of_nat (length out)))"

function Base64Encode32 :: "(u8 \<Rightarrow> u8) \<Rightarrow> u8 list \<Rightarrow> u8 list \<times> u32" where
  "Base64Encode32 valToChar bytes =
     (let inChunkLen = min 49149 (length bytes);
          (out, outChunkLen) = Base64Encode valToChar (take inChunkLen bytes);
          rest = drop inChunkLen bytes
      in if rest = [] then (out, ucast outChunkLen)
         else
           let (out', outLen) = Base64Encode32 valToChar rest
           in (take (unat outChunkLen) out @ out', ucast outChunkLen + outLen))"
  by pat_completeness auto
termination by (relation "measure (\<lambda>(_, bytes). length bytes)") auto

section \<open>Decoding\<close>

text \<open>The offset behind the output, or \<open>None\<close> on failure; in both cases the memory with what was written.\<close>

function DecodeGroups :: "(u8 \<Rightarrow> u8) \<Rightarrow> u8 list \<Rightarrow> nat \<Rightarrow> nat \<Rightarrow> nat \<Rightarrow> u8 list \<times> nat option" where
  "DecodeGroups charToVal m i inLen out =
     (if inLen = 0 then (m, Some out)
      else if inLen = 1 then (m, None)
      else
        let a = charToVal (m ! i); b = charToVal (m ! (i + 1)) in
        if a = 0xFF \<or> b = 0xFF then (m, None)
        else
          let m1 = m[out := push_bit 2 a OR drop_bit 4 b] in
          if inLen = 2 \<or> m1 ! (i + 2) = 61 then (m1, Some (out + 1))
          else
            let c = charToVal (m1 ! (i + 2)) in
            if c = 0xFF then (m1, None)
            else
              let m2 = m1[out + 1 := push_bit 4 b OR drop_bit 2 c] in
              if inLen = 3 \<or> m2 ! (i + 3) = 61 then (m2, Some (out + 2))
              else
                let d = charToVal (m2 ! (i + 3)) in
                if d = 0xFF then (m2, None)
                else DecodeGroups charToVal (m2[out + 2 := push_bit 6 c OR d]) (i + 4) (inLen - 4) (out + 3))"
  by pat_completeness auto
termination by (relation "measure (\<lambda>(_, _, _, n, _). n)") auto

declare Base64Encode32.simps [simp del] DecodeGroups.simps [simp del]

definition Base64Decode :: "(u8 \<Rightarrow> u8) \<Rightarrow> u8 list \<Rightarrow> nat \<Rightarrow> u16 \<Rightarrow> nat \<Rightarrow> u8 list \<times> u16" where
  "Base64Decode charToVal m i inLen out =
     (case DecodeGroups charToVal m i (unat inLen) out of
        (m', None) \<Rightarrow> (m', 0xFFFF)
      | (m', Some end_out) \<Rightarrow> (m', of_nat (end_out - out)))"

lemma chunk_rest:
  assumes "(inLen :: u32) - ucast (if inLen > 65532 then 65532 else ucast inLen :: u16) \<noteq> 0"
  shows "65532 < unat inLen" "unat (inLen - 65532) = unat inLen - 65532"
proof -
  have "ucast (ucast inLen :: u16) = inLen" if "\<not> inLen > 65532"
    using that by (simp add: word_unat_eq_iff unsigned_ucast_eq unsigned_take_bit_eq take_bit_nat_eq_self word_less_nat_alt)
  then have "inLen > 65532" using assms by (auto split: if_splits)
  then show "65532 < unat inLen" "unat (inLen - 65532) = unat inLen - 65532" by (simp_all add: word_less_nat_alt unat_sub word_le_nat_alt)
qed

function Decode32Loop :: "(u8 \<Rightarrow> u8) \<Rightarrow> u8 list \<Rightarrow> nat \<Rightarrow> u32 \<Rightarrow> nat \<Rightarrow> u32 \<Rightarrow> u8 list \<times> u32" where
  "Decode32Loop charToVal m i inLen out outLen =
     (let inChunkLen = (if inLen > 65532 then 65532 else ucast inLen) :: u16;
          (m1, outChunkLen) = Base64Decode charToVal m i inChunkLen out
      in if outChunkLen = 0xFFFF then (m1, 0xFFFFFFFF)
         else
           let inLen1 = inLen - ucast inChunkLen; outLen1 = outLen + ucast outChunkLen in
           if inLen1 = 0 then (m1, outLen1)
           else Decode32Loop charToVal m1 (i + unat inChunkLen) inLen1 (out + unat outChunkLen) outLen1)"
  by pat_completeness auto
termination
proof (relation "measure (\<lambda>(_, _, _, n, _). unat n)")
  fix inLen inLen1 :: u32 and inChunkLen :: u16
  assume "inChunkLen = (if inLen > 65532 then 65532 else ucast inLen)" "inLen1 = inLen - ucast inChunkLen" "inLen1 \<noteq> 0"
  with chunk_rest [of inLen] have "unat inLen1 < unat inLen" by (auto simp: word_less_nat_alt split: if_splits)
  then show "((f, m1, j, inLen1, o1, l1), (f, m, i, inLen, out, outLen)) \<in> measure (\<lambda>(_, _, _, n, _). unat n)"
    for f :: "u8 \<Rightarrow> u8" and m1 j o1 l1 m i out outLen by simp
qed simp

declare Decode32Loop.simps [simp del]

definition Base64Decode32 :: "(u8 \<Rightarrow> u8) \<Rightarrow> u8 list \<Rightarrow> nat \<Rightarrow> u32 \<Rightarrow> nat \<Rightarrow> u8 list \<times> u32" where
  "Base64Decode32 charToVal m i inLen out = Decode32Loop charToVal m i inLen out 0"

section \<open>Decoding as a function of the text\<close>

fun decode :: "(u8 \<Rightarrow> u8) \<Rightarrow> u8 list \<Rightarrow> u8 list option" where
  "decode f [] = Some []"
| "decode f [x] = None"
| "decode f (x # y # cs) =
     (let a = f x; b = f y; o1 = push_bit 2 a OR drop_bit 4 b in
      if a = 0xFF \<or> b = 0xFF then None
      else case cs of
        [] \<Rightarrow> Some [o1]
      | z # cs \<Rightarrow>
          if z = 61 then Some [o1]
          else let c = f z; o2 = push_bit 4 b OR drop_bit 2 c in
          if c = 0xFF then None
          else case cs of
            [] \<Rightarrow> Some [o1, o2]
          | u # cs \<Rightarrow>
              if u = 61 then Some [o1, o2]
              else let d = f u in
              if d = 0xFF then None
              else map_option (\<lambda>os. o1 # o2 # (push_bit 6 c OR d) # os) (decode f cs))"

text \<open>The text at an offset behind the output is not touched before it is read.\<close>

definition put :: "nat \<Rightarrow> u8 list \<Rightarrow> u8 list \<Rightarrow> u8 list" where
  "put k bs m = take k m @ bs @ drop (k + length bs) m"

lemma put_length [simp]: "k + length bs \<le> length m \<Longrightarrow> length (put k bs m) = length m"
  by (simp add: put_def)

lemma put_put: "k + length bs + length cs \<le> length m \<Longrightarrow> put (k + length bs) cs (put k bs m) = put k (bs @ cs) m"
  by (cases bs) (auto simp: put_def min_def ac_simps)

lemma put_1: "k < length m \<Longrightarrow> m[k := x] = put k [x] m"
  by (simp add: put_def upd_conv_take_nth_drop)

lemma put_nil [simp]: "put k [] m = m"
  by (simp add: put_def)

lemma put_drop: "\<lbrakk>k + length bs \<le> j; j \<le> length m\<rbrakk> \<Longrightarrow> drop j (put k bs m) = drop j m"
  by (simp add: put_def)

lemma put_nth: "\<lbrakk>k + length bs \<le> j; j < length m\<rbrakk> \<Longrightarrow> put k bs m ! j = m ! j"
  by (auto simp: put_def nth_append min_def)

lemma take_cons: "\<lbrakk>0 < n; i < length m\<rbrakk> \<Longrightarrow> take n (drop i m) = m ! i # take (n - 1) (drop (Suc i) m)"
  by (cases n) (simp_all flip: Cons_nth_drop_Suc)

lemma decode_length: "decode f cs = Some bs \<Longrightarrow> length bs \<le> length cs"
  by (induction f cs arbitrary: bs rule: decode.induct) (fastforce simp: Let_def split: if_splits list.splits)+

definition decodes :: "(u8 \<Rightarrow> u8) \<Rightarrow> u8 list \<Rightarrow> nat \<Rightarrow> nat \<Rightarrow> nat \<Rightarrow> bool" where
  "decodes f m i n out \<longleftrightarrow> (case decode f (take n (drop i m)) of
     None \<Rightarrow> \<exists>m'. DecodeGroups f m i n out = (m', None)
   | Some bs \<Rightarrow> DecodeGroups f m i n out = (put out bs m, Some (out + length bs)))"

lemma put_2: "k + 1 < length m \<Longrightarrow> m[k := x, k + 1 := y] = put k [x, y] m"
  using put_put [of k "[x]" "[y]" m] by (simp add: put_1)

lemma put_3: "k + 2 < length m \<Longrightarrow> m[k := x, k + 1 := y, k + 2 := z] = put k [x, y, z] m"
  using put_put [of k "[x, y]" "[z]" m] put_1 [of "k + 2" "put k [x, y] m" z] put_2 [of k m x y] by (simp add: numeral_2_eq_2)

lemma DecodeGroups_step:
  assumes "out \<le> i" "i + n \<le> length m" "2 \<le> n"
    "a = f (m ! i)" "b = f (m ! (i + 1))" "c = f (m ! (i + 2))" "d = f (m ! (i + 3))"
    "o1 = push_bit 2 a OR drop_bit 4 b" "o2 = push_bit 4 b OR drop_bit 2 c" "o3 = push_bit 6 c OR d"
  shows "DecodeGroups f m i n out =
    (if a = 0xFF \<or> b = 0xFF then (m, None)
     else if n = 2 \<or> m ! (i + 2) = 61 then (put out [o1] m, Some (out + 1))
     else if c = 0xFF then (put out [o1] m, None)
     else if n = 3 \<or> m ! (i + 3) = 61 then (put out [o1, o2] m, Some (out + 2))
     else if d = 0xFF then (put out [o1, o2] m, None)
     else DecodeGroups f (put out [o1, o2, o3] m) (i + 4) (n - 4) (out + 3))"
proof -
  have r: "m[out := x] ! (i + 2) = m ! (i + 2)" "m[out := x, out + 1 := y] ! (i + 3) = m ! (i + 3)" for x y using assms(1) by auto
  have e1: "m[out := x] = put out [x] m" for x using assms(1-3) by (simp add: put_1)
  have e2: "m[out := x, out + 1 := y] = put out [x, y] m" if "n \<noteq> 2" for x y using assms(1-3) that by (intro put_2) simp
  have e3: "m[out := x, out + 1 := y, out + 2 := z] = put out [x, y, z] m" if "n \<noteq> 2" "n \<noteq> 3" for x y z using assms(1-3) that by (intro put_3) simp
  have "DecodeGroups f m i n out =
    (if a = 0xFF \<or> b = 0xFF then (m, None)
     else if n = 2 \<or> m ! (i + 2) = 61 then (m[out := o1], Some (out + 1))
     else if c = 0xFF then (m[out := o1], None)
     else if n = 3 \<or> m ! (i + 3) = 61 then (m[out := o1, out + 1 := o2], Some (out + 2))
     else if d = 0xFF then (m[out := o1, out + 1 := o2], None)
     else DecodeGroups f (m[out := o1, out + 1 := o2, out + 2 := o3]) (i + 4) (n - 4) (out + 3))"
    unfolding DecodeGroups.simps [of f m] Let_def r assms(4-10) using assms(3) by simp
  then show ?thesis using e1 e2 e3 by simp
qed

lemma DecodeGroups_ok: "\<lbrakk>out \<le> i; i + n \<le> length m\<rbrakk> \<Longrightarrow> decodes f m i n out"
proof (induction n arbitrary: m i out rule: less_induct)
  case (less n)
  define a b c d where "a = f (m ! i)" and "b = f (m ! (i + 1))" and "c = f (m ! (i + 2))" and "d = f (m ! (i + 3))"
  define o1 o2 o3 where "o1 = push_bit 2 a OR drop_bit 4 b" and "o2 = push_bit 4 b OR drop_bit 2 c" and "o3 = push_bit 6 c OR d"
  note step = DecodeGroups_step [OF less.prems _ a_def b_def c_def d_def o1_def o2_def o3_def]
  consider "n = 0" | "n = 1" | "n = 2" | "n = 3" | "4 \<le> n" by linarith
  then show ?case
  proof cases
    case 1
    then show ?thesis by (simp add: decodes_def DecodeGroups.simps)
  next
    case 2
    then show ?thesis using less.prems by (simp add: decodes_def DecodeGroups.simps take_cons)
  next
    case 3
    then have "take n (drop i m) = [m ! i, m ! (i + 1)]" using less.prems by (simp add: take_cons)
    then show ?thesis using step 3 by (simp add: decodes_def Let_def a_def b_def o1_def)
  next
    case 4
    then have "take n (drop i m) = [m ! i, m ! (i + 1), m ! (i + 2)]" using less.prems by (simp add: take_cons numeral_2_eq_2)
    then show ?thesis using step 4 by (simp add: decodes_def Let_def a_def b_def c_def o1_def o2_def)
  next
    case 5
    let ?m = "put out [o1, o2, o3] m"
    have t: "take n (drop i m) = m ! i # m ! (i + 1) # m ! (i + 2) # m ! (i + 3) # take (n - 4) (drop (i + 4) m)"
      using 5 less.prems by (simp add: take_cons eval_nat_numeral)
    have l: "out + length [o1, o2, o3] \<le> length m" using 5 less.prems by simp
    have "decodes f ?m (i + 4) (n - 4) (out + 3)" using 5 less.prems l by (intro less.IH) simp_all
    moreover have "drop (i + 4) ?m = drop (i + 4) m" using less.prems 5 by (intro put_drop) simp_all
    moreover have "put (out + 3) bs ?m = put out (o1 # o2 # o3 # bs) m" if "decode f (take (n - 4) (drop (i + 4) m)) = Some bs" for bs
      using decode_length [OF that] less.prems 5 put_put [of out "[o1, o2, o3]" bs m] by (simp add: numeral_3_eq_3)
    moreover have "decode f (take n (drop i m)) = (if a = 0xFF \<or> b = 0xFF then None else if m ! (i + 2) = 61 then Some [o1]
        else if c = 0xFF then None else if m ! (i + 3) = 61 then Some [o1, o2]
        else if d = 0xFF then None else map_option (\<lambda>os. o1 # o2 # o3 # os) (decode f (take (n - 4) (drop (i + 4) m))))"
      unfolding t o1_def o2_def o3_def a_def b_def c_def d_def by (simp only: decode.simps Let_def list.case)
    moreover have "n \<noteq> 2" "n \<noteq> 3" "2 \<le> n" using 5 by simp_all
    ultimately show ?thesis using step
      by (simp add: decodes_def split: option.splits)
  qed
qed

section \<open>Round trips\<close>

lemma triples:
  "\<lbrakk>P []; \<And>x. P [x]; \<And>x y. P [x, y]; \<And>x y z bs. P bs \<Longrightarrow> P (x # y # z # bs)\<rbrakk> \<Longrightarrow> P bs"
  by induction_schema (pat_completeness, lexicographic_order)

lemma length_EncodeGroups: "length (EncodeGroups f bs) = 4 * ((length bs + 2) div 3)"
proof (induction bs rule: triples)
  case (4 x y z bs)
  have "(length (x # y # z # bs) + 2) div 3 = (length bs + 2) div 3 + 1" by simp
  with 4 show ?case by (simp add: Let_def)
qed (simp_all add: Let_def)

lemma EncodeGroups_append: "3 dvd length xs \<Longrightarrow> EncodeGroups f (xs @ ys) = EncodeGroups f xs @ EncodeGroups f ys"
proof (induction xs rule: triples)
  case (4 x y z bs)
  have "3 dvd length bs" using 4(2) by simp presburger
  with 4(1) show ?case by (simp add: Let_def)
qed (auto dest: dvd_imp_le)

lemma mask_6: "(0x3F :: u8) = mask 6"
  by (simp add: mask_eq_exp_minus_1)

lemma sextet_less: "(\<And>n. bit v n \<Longrightarrow> n < 6) \<Longrightarrow> v < (64 :: u8)"
proof -
  assume "\<And>n. bit v n \<Longrightarrow> n < 6"
  then have "v = take_bit 6 v" by (intro bit_word_eqI) (auto simp: bit_simps)
  then have "unat v = take_bit 6 (unat v)" by (metis unsigned_take_bit_eq)
  then have "unat v < 2 ^ 6" by (metis take_bit_nat_less_exp)
  then show ?thesis by (simp add: word_less_nat_alt)
qed

lemma sextets:
  "drop_bit 2 x < (64 :: u8)" "push_bit 4 x AND 0x3F < (64 :: u8)" "(push_bit 4 x AND 0x3F) OR drop_bit 4 y < (64 :: u8)"
  "push_bit 2 y AND 0x3F < (64 :: u8)" "(push_bit 2 y AND 0x3F) OR drop_bit 6 z < (64 :: u8)" "z AND 0x3F < (64 :: u8)"
  unfolding mask_6 by (rule sextet_less; auto simp: bit_simps dest: bit_imp_le_length; fail)+

lemma byte_eqI:
  "\<lbrakk>bit x 0 = bit y 0; bit x 1 = bit y 1; bit x 2 = bit y 2; bit x 3 = bit y 3; bit x 4 = bit y 4; bit x 5 = bit y 5;
    bit x 6 = bit y 6; bit x 7 = bit y 7\<rbrakk> \<Longrightarrow> x = (y :: u8)"
proof (rule bit_word_eqI)
  fix n
  assume bits: "bit x 0 = bit y 0" "bit x 1 = bit y 1" "bit x 2 = bit y 2" "bit x 3 = bit y 3" "bit x 4 = bit y 4" "bit x 5 = bit y 5"
    "bit x 6 = bit y 6" "bit x 7 = bit y 7"
  assume "n < LENGTH(8)"
  then have "n = 0 \<or> n = 1 \<or> n = 2 \<or> n = 3 \<or> n = 4 \<or> n = 5 \<or> n = 6 \<or> n = 7" by (simp; presburger)
  then show "bit x n = bit y n" using bits by blast
qed

lemma octets:
  "push_bit 2 (drop_bit 2 x) OR drop_bit 4 (push_bit 4 x AND 0x3F) = (x :: u8)"
  "push_bit 2 (drop_bit 2 x) OR drop_bit 4 ((push_bit 4 x AND 0x3F) OR drop_bit 4 y) = (x :: u8)"
  "push_bit 4 ((push_bit 4 x AND 0x3F) OR drop_bit 4 y) OR drop_bit 2 (push_bit 2 y AND 0x3F) = (y :: u8)"
  "push_bit 4 ((push_bit 4 x AND 0x3F) OR drop_bit 4 y) OR drop_bit 2 ((push_bit 2 y AND 0x3F) OR drop_bit 6 z) = (y :: u8)"
  "push_bit 6 ((push_bit 2 y AND 0x3F) OR drop_bit 6 z) OR (z AND 0x3F) = (z :: u8)"
  unfolding mask_6 by (rule byte_eqI; simp add: bit_simps; fail)+

locale base64 =
  fixes toChar toVal :: "u8 \<Rightarrow> u8"
  assumes val: "v < 64 \<Longrightarrow> toVal (toChar v) = v"
    and no_pad: "v < 64 \<Longrightarrow> toChar v \<noteq> 61"
    and pad: "toChar 0xFF = 61"
begin

lemma not_pad: "v < 64 \<Longrightarrow> v \<noteq> (0xFF :: u8)"
  by auto

lemmas group = EncodeGroups.simps decode.simps Let_def list.case if_True if_False simp_thms option.map octets pad
  sextets [THEN val] sextets [THEN no_pad] sextets [THEN not_pad]

lemma decode_encode: "decode toVal (EncodeGroups toChar bs) = Some bs"
proof (induction bs rule: triples)
  case (4 x y z bs)
  then show ?case by (simp only: group)
qed (simp_all only: group)

lemma decode_chunk:
  assumes "length bs \<le> 49149" "cs = EncodeGroups toChar bs" "out \<le> i" "i + length cs \<le> length m" "take (length cs) (drop i m) = cs"
  shows "Base64Decode toVal m i (of_nat (length cs)) out = (put out bs m, of_nat (length bs))" "unat (of_nat (length cs) :: u16) = length cs"
proof -
  have "(length bs + 2) div 3 \<le> 16383" using assms(1) by simp
  then have "length cs \<le> 65532" using assms(2) by (simp add: length_EncodeGroups)
  then show u: "unat (of_nat (length cs) :: u16) = length cs" by (simp add: unat_of_nat)
  from DecodeGroups_ok [OF assms(3,4), of toVal] assms(2,5)
  have "DecodeGroups toVal m i (length cs) out = (put out bs m, Some (out + length bs))" by (simp add: decodes_def decode_encode)
  then show "Base64Decode toVal m i (of_nat (length cs)) out = (put out bs m, of_nat (length bs))" by (simp add: Base64Decode_def u)
qed

lemma of_nat_16: "n \<le> 49149 \<Longrightarrow> (of_nat n :: u16) \<noteq> 0xFFFF" "n < 65536 \<Longrightarrow> ucast (of_nat n :: u16) = (of_nat n :: u32)"
  by (simp_all add: word_unat_eq_iff unat_of_nat unsigned_ucast_eq take_bit_nat_eq_self)

lemma decode_chunks:
  "\<lbrakk>cs = EncodeGroups toChar bs; length cs < 2 ^ 32; out \<le> i; i + length cs \<le> length m; take (length cs) (drop i m) = cs\<rbrakk> \<Longrightarrow>
    Decode32Loop toVal m i (of_nat (length cs)) out acc = (put out bs m, acc + of_nat (length bs))"
proof (induction "length bs" arbitrary: bs cs m i out acc rule: less_induct)
  case less
  have len: "length cs = 4 * ((length bs + 2) div 3)" using less.prems(1) by (simp add: length_EncodeGroups)
  have u: "unat (of_nat (length cs) :: u32) = length cs" using less.prems(2) by (simp add: unat_of_nat)
  show ?case
  proof (cases "length bs \<le> 49149")
    case True
    then have "(length bs + 2) div 3 \<le> 16383" by simp
    then have small: "length cs \<le> 65532" using len by simp
    then have "\<not> (of_nat (length cs) :: u32) > 65532" using u by (simp add: word_less_nat_alt)
    moreover have "ucast (of_nat (length cs) :: u32) = (of_nat (length cs) :: u16)"
      using small by (simp add: unsigned_of_nat take_bit_nat_eq_self)
    ultimately show ?thesis
      using decode_chunk [OF True less.prems(1,3-5)] of_nat_16 [of "length bs"] of_nat_16(2) [of "length cs"] True small
      by (subst Decode32Loop.simps) (simp add: Let_def)
  next
    case False
    define xs ys where "xs = take 49149 bs" and "ys = drop 49149 bs"
    define tx ty where "tx = EncodeGroups toChar xs" and "ty = EncodeGroups toChar ys"
    have l: "length xs = 49149" "length ys < length bs" "ys \<noteq> []" "bs = xs @ ys" using False by (simp_all add: xs_def ys_def)
    have t: "cs = tx @ ty" using less.prems(1) l EncodeGroups_append [of xs toChar ys] by (simp add: tx_def ty_def)
    have ltx: "length tx = 65532" by (simp add: tx_def length_EncodeGroups l(1))
    have "0 < (length ys + 2) div 3" using l(3) by (cases ys) (simp_all add: div_greater_zero_iff)
    then have lty: "0 < length ty" unfolding ty_def length_EncodeGroups by simp
    have big: "(of_nat (length cs) :: u32) > 65532" using u t ltx lty by (simp add: word_less_nat_alt)
    have "length xs \<le> 49149" "i + length tx \<le> length m" "take (length tx) (drop i m) = tx"
      using l(1) less.prems(4,5) t by (auto simp: take_add)
    note c = decode_chunk [OF this(1) tx_def less.prems(3) this(2,3)]
    let ?m = "put out xs m"
    have "drop (i + 65532) ?m = drop (i + 65532) m" using less.prems(3,4) l(1) t ltx by (intro put_drop) simp_all
    moreover have "drop 65532 (take (length cs) (drop i m)) = take (length ty) (drop (i + 65532) m)"
      using t ltx by (simp add: drop_take add.commute)
    then have "take (length ty) (drop (i + 65532) m) = ty" unfolding less.prems(5) using t ltx by simp
    ultimately have d: "take (length ty) (drop (i + 65532) ?m) = ty" by simp
    have lm: "length ?m = length m" using less.prems(3,4) l(1) t ltx by (intro put_length) simp
    have rest: "Decode32Loop toVal ?m (i + 65532) (of_nat (length ty)) (out + 49149) (acc + 49149) =
        (put (out + 49149) ys ?m, acc + 49149 + of_nat (length ys))"
      using less.prems(2-4) t ltx lm d l(2) by (intro less.hyps [OF l(2) ty_def]) simp_all
    have "out + length xs + length ys \<le> length m" using less.prems(3,4) len l(1,4) by simp
    then have p: "put (out + 49149) ys ?m = put out bs m" using put_put [of out xs ys m] l(1,4) by simp
    have sub: "of_nat (length cs) - 65532 = (of_nat (length ty) :: u32)" "(of_nat (length ty) :: u32) \<noteq> 0"
      using t ltx lty less.prems(2) by (simp_all add: word_unat_eq_iff unat_of_nat)
    have c1: "Base64Decode toVal m i 65532 out = (?m, 49149)" using c(1) ltx l(1) by simp
    have "Decode32Loop toVal m i (of_nat (length cs)) out acc =
        Decode32Loop toVal ?m (i + 65532) (of_nat (length ty)) (out + 49149) (acc + 49149)"
      by (subst Decode32Loop.simps) (simp add: Let_def big c1 sub)
    then show ?thesis using rest p l(1,4) by simp
  qed
qed

end

lemma alphabet_ok:
  "list_all (\<lambda>v. Base64CharToVal (Base64ValToChar v) = v \<and> Base64ValToChar v \<noteq> 61) (map word_of_int [0..63])"
  "list_all (\<lambda>v. Base64URLCharToVal (Base64URLValToChar v) = v \<and> Base64URLValToChar v \<noteq> 61) (map word_of_int [0..63])"
  by code_simp+

lemma sextet_cases: "v < (64 :: u8) \<Longrightarrow> v \<in> set (map word_of_int [0..63])"
  by (auto simp: word_less_def intro!: image_eqI [of _ _ "uint v"])

interpretation standard: base64 Base64ValToChar Base64CharToVal
proof
  show "v < 64 \<Longrightarrow> Base64CharToVal (Base64ValToChar v) = v" "v < 64 \<Longrightarrow> Base64ValToChar v \<noteq> 61" for v
    using alphabet_ok(1) sextet_cases [of v] unfolding list_all_iff by blast+
qed (simp add: Base64ValToChar_def)

interpretation url: base64 Base64URLValToChar Base64URLCharToVal
proof
  show "v < 64 \<Longrightarrow> Base64URLCharToVal (Base64URLValToChar v) = v" "v < 64 \<Longrightarrow> Base64URLValToChar v \<noteq> 61" for v
    using alphabet_ok(2) sextet_cases [of v] unfolding list_all_iff by blast+
qed (simp add: Base64URLValToChar_def)

lemma Base64Encode32_eq:
  "4 * ((length bs + 2) div 3) < 2 ^ 32 \<Longrightarrow> Base64Encode32 f bs = (EncodeGroups f bs, of_nat (length (EncodeGroups f bs)))"
proof (induction "length bs" arbitrary: bs rule: less_induct)
  case less
  show ?case
  proof (cases "length bs \<le> 49149")
    case True
    then have "(length bs + 2) div 3 \<le> 16383" by simp
    then have "ucast (of_nat (length (EncodeGroups f bs)) :: u16) = (of_nat (length (EncodeGroups f bs)) :: u32)"
      by (intro base64.of_nat_16(2) [OF standard.base64_axioms]) (simp add: length_EncodeGroups)
    then show ?thesis using True by (subst Base64Encode32.simps) (simp add: Let_def Base64Encode_def)
  next
    case False
    let ?xs = "take 49149 bs" and ?ys = "drop 49149 bs"
    have e: "EncodeGroups f bs = EncodeGroups f ?xs @ EncodeGroups f ?ys" using EncodeGroups_append [of ?xs f ?ys] False by simp
    have lx: "length (EncodeGroups f ?xs) = 65532" using False by (simp add: length_EncodeGroups)
    have "(length ?ys + 2) div 3 \<le> (length bs + 2) div 3" by (intro div_le_mono) simp
    then have "Base64Encode32 f ?ys = (EncodeGroups f ?ys, of_nat (length (EncodeGroups f ?ys)))" using less False by (intro less.hyps) simp_all
    moreover have "bs \<noteq> []" "min 49149 (length bs) = 49149" using False by auto
    ultimately show ?thesis using e lx False
      by (subst Base64Encode32.simps) (simp add: Let_def Base64Encode_def)
  qed
qed

text \<open>
  C18. Base-64 text decodes to what was encoded, in place or not.  With the standard alphabet or the one for URLs, if the text for some bytes has a length of 32 bits, then
  \<^verbatim>\<open>Base64Encode32\<close> returns its length, four characters for three bytes; and \<^verbatim>\<open>Base64Decode32\<close>, with the text anywhere in a memory
  and the output anywhere up to where the text begins, writes exactly the bytes there, leaves the memory behind them alone, and returns their number.
\<close>

theorem base64_roundtrip:
  assumes "(toChar, toVal) \<in> {(Base64ValToChar, Base64CharToVal), (Base64URLValToChar, Base64URLCharToVal)}"
    "4 * ((length bs + 2) div 3) < 2 ^ 32" "Base64Encode32 toChar bs = (chars, n)"
    "out \<le> i" "i + length chars \<le> length m" "take (length chars) (drop i m) = chars"
  shows "unat n = length chars \<and> length chars = 4 * ((length bs + 2) div 3) \<and>
    Base64Decode32 toVal m i n out = (take out m @ bs @ drop (out + length bs) m, of_nat (length bs))"
proof -
  have b: "base64 toChar toVal" using assms(1) standard.base64_axioms url.base64_axioms by auto
  have e: "chars = EncodeGroups toChar bs" "n = of_nat (length chars)" using Base64Encode32_eq [OF assms(2), of toChar] assms(3) by simp_all
  have l: "length chars = 4 * ((length bs + 2) div 3)" using e(1) by (simp add: length_EncodeGroups)
  then have small: "length chars < 2 ^ 32" using assms(2) by simp
  then have "unat n = length chars" using e(2) by (simp add: unat_of_nat)
  then show ?thesis using base64.decode_chunks [OF b e(1) small assms(4-6), of 0] l e(2) by (simp add: Base64Decode32_def put_def)
qed

theorem base64_roundtrip_witness:
  "Base64Decode32 Base64CharToVal [90, 109, 56, 61] 0 4 0 = ([102, 111, 56, 61], 2)"
proof -
  have e: "Base64Encode32 Base64ValToChar [102, 111] = ([90, 109, 56, 61], 4)"
    using Base64Encode32_eq [of "[102, 111]" Base64ValToChar] by (simp add: Let_def Base64ValToChar_def)
  from base64_roundtrip [where toChar = Base64ValToChar and toVal = Base64CharToVal and out = 0 and i = 0 and m = "[90, 109, 56, 61]", OF _ _ e]
  show ?thesis by simp
qed

text \<open>The 16-bit function writes all characters of the text but returns its length modulo 65536: the text for 49150 bytes has length zero.\<close>

lemma Base64Encode_wraps: "length bs = 49150 \<Longrightarrow> snd (Base64Encode f bs) = 0"
  by (simp add: Base64Encode_def Let_def length_EncodeGroups)

end
