(* ===== verification/Verhoeff.thy ===== *)
theory Verhoeff
  imports Weave_Prelude
begin

text \<open>
  Check characters by Verhoeff's method for strings in base 10, 16, 32 and 36 (\<^verbatim>\<open>src/src/lib/support/verhoeff\<close>).  The four classes
  of the source are four values of a record; a \<^verbatim>\<open>char\<close> is a byte.  The locale \<open>check_digits\<close> states what the method relies on of
  the tables of a class, and shows once that every wrong character and every transposition of neighbours is detected.
\<close>

section \<open>The dihedral group\<close>

definition DihedralMultiply :: "int \<Rightarrow> int \<Rightarrow> int \<Rightarrow> int" where
  "DihedralMultiply x0 y0 n =
     (let n2 = n * 2; x = x0 mod n2; y = y0 mod n2 in
      if x < n
      then if y < n then (x + y) mod n else (x + (y - n)) mod n + n
      else if y < n then (n + (x - n) - y) mod n + n else (n + (x - n) - (y - n)) mod n)"

definition DihedralInvert :: "int \<Rightarrow> int \<Rightarrow> int" where
  "DihedralInvert val n = (if val > 0 \<and> val < n then n - val else val)"

fun Permute :: "int \<Rightarrow> int list \<Rightarrow> int \<Rightarrow> nat \<Rightarrow> int" where
  "Permute val permTable permTableLen 0 = val mod permTableLen"
| "Permute val permTable permTableLen (Suc iterCount) = Permute (permTable ! nat (val mod permTableLen)) permTable permTableLen iterCount"

section \<open>The classes\<close>

record VerhoeffClass =
  Base :: int
  PolygonSize :: int
  sMultiplyTable :: "int list"
  sPermTable :: "int list"
  CharToVal :: "u8 \<Rightarrow> int"
  ValToChar :: "int \<Rightarrow> u8"

text \<open>The loop over the characters from the last one; \<open>None\<close> at an invalid character.\<close>

fun CheckLoop :: "VerhoeffClass \<Rightarrow> u8 list \<Rightarrow> nat \<Rightarrow> int \<Rightarrow> int option" where
  "CheckLoop V [] i c = Some c"
| "CheckLoop V (ch # rest) i c =
     (let val = CharToVal V ch in
      if val < 0 then None
      else
        let p = Permute val (sPermTable V) (Base V) i
        in CheckLoop V rest (Suc i) (sMultiplyTable V ! nat (c * Base V + p)))"

definition ComputeCheckChar :: "VerhoeffClass \<Rightarrow> u8 list \<Rightarrow> u8" where
  "ComputeCheckChar V str =
     (case CheckLoop V (rev str) 1 0 of
        None \<Rightarrow> 0
      | Some c \<Rightarrow> ValToChar V (DihedralInvert c (PolygonSize V)))"

definition ValidateCheckChar :: "VerhoeffClass \<Rightarrow> u8 \<Rightarrow> u8 list \<Rightarrow> bool" where
  "ValidateCheckChar V checkChar str \<longleftrightarrow> ComputeCheckChar V str = checkChar"

definition ValidateCheckChar_last :: "VerhoeffClass \<Rightarrow> u8 list \<Rightarrow> bool" where
  "ValidateCheckChar_last V str \<longleftrightarrow> (if str = [] then False else ValidateCheckChar V (last str) (butlast str))"

text \<open>Characters: \<^verbatim>\<open>'0'\<close> is 48, \<^verbatim>\<open>'A'\<close> 65 and \<^verbatim>\<open>'a'\<close> 97.\<close>

definition sMultiplyTable10 :: "int list" where
  "sMultiplyTable10 =
     [0, 1, 2, 3, 4, 5, 6, 7, 8, 9,
      1, 2, 3, 4, 0, 6, 7, 8, 9, 5,
      2, 3, 4, 0, 1, 7, 8, 9, 5, 6,
      3, 4, 0, 1, 2, 8, 9, 5, 6, 7,
      4, 0, 1, 2, 3, 9, 5, 6, 7, 8,
      5, 9, 8, 7, 6, 0, 4, 3, 2, 1,
      6, 5, 9, 8, 7, 1, 0, 4, 3, 2,
      7, 6, 5, 9, 8, 2, 1, 0, 4, 3,
      8, 7, 6, 5, 9, 3, 2, 1, 0, 4,
      9, 8, 7, 6, 5, 4, 3, 2, 1, 0]"

definition sPermTable10 :: "int list" where
  "sPermTable10 =
     [1, 5, 7, 6, 2, 8, 3, 0, 9, 4]"

definition CharToVal10 :: "u8 \<Rightarrow> int" where
  "CharToVal10 ch =
     (if 48 \<le> ch \<and> ch \<le> 57 then uint ch - 48 else - 1)"

definition ValToChar10 :: "int \<Rightarrow> u8" where
  "ValToChar10 val =
     (if 0 \<le> val \<and> val \<le> 10 then 48 + word_of_int val else 0)"

definition Verhoeff10 :: VerhoeffClass where
  "Verhoeff10 = \<lparr>Base = 10, PolygonSize = 5,
     sMultiplyTable = sMultiplyTable10, sPermTable = sPermTable10,
     CharToVal = CharToVal10, ValToChar = ValToChar10\<rparr>"

definition sMultiplyTable16 :: "int list" where
  "sMultiplyTable16 =
     [0, 1, 2, 3, 4, 5, 6, 7, 8, 9, 10, 11, 12, 13, 14, 15,
      1, 2, 3, 4, 5, 6, 7, 0, 9, 10, 11, 12, 13, 14, 15, 8,
      2, 3, 4, 5, 6, 7, 0, 1, 10, 11, 12, 13, 14, 15, 8, 9,
      3, 4, 5, 6, 7, 0, 1, 2, 11, 12, 13, 14, 15, 8, 9, 10,
      4, 5, 6, 7, 0, 1, 2, 3, 12, 13, 14, 15, 8, 9, 10, 11,
      5, 6, 7, 0, 1, 2, 3, 4, 13, 14, 15, 8, 9, 10, 11, 12,
      6, 7, 0, 1, 2, 3, 4, 5, 14, 15, 8, 9, 10, 11, 12, 13,
      7, 0, 1, 2, 3, 4, 5, 6, 15, 8, 9, 10, 11, 12, 13, 14,
      8, 15, 14, 13, 12, 11, 10, 9, 0, 7, 6, 5, 4, 3, 2, 1,
      9, 8, 15, 14, 13, 12, 11, 10, 1, 0, 7, 6, 5, 4, 3, 2,
      10, 9, 8, 15, 14, 13, 12, 11, 2, 1, 0, 7, 6, 5, 4, 3,
      11, 10, 9, 8, 15, 14, 13, 12, 3, 2, 1, 0, 7, 6, 5, 4,
      12, 11, 10, 9, 8, 15, 14, 13, 4, 3, 2, 1, 0, 7, 6, 5,
      13, 12, 11, 10, 9, 8, 15, 14, 5, 4, 3, 2, 1, 0, 7, 6,
      14, 13, 12, 11, 10, 9, 8, 15, 6, 5, 4, 3, 2, 1, 0, 7,
      15, 14, 13, 12, 11, 10, 9, 8, 7, 6, 5, 4, 3, 2, 1, 0]"

definition sPermTable16 :: "int list" where
  "sPermTable16 =
     [4, 7, 5, 14, 8, 12, 15, 0, 2, 11, 3, 13, 10, 6, 9, 1]"

definition CharToVal16 :: "u8 \<Rightarrow> int" where
  "CharToVal16 ch =
     (if 48 \<le> ch \<and> ch \<le> 57 then uint ch - 48
      else if 65 \<le> ch \<and> ch \<le> 70 then uint ch - 65 + 10
      else if 97 \<le> ch \<and> ch \<le> 102 then uint ch - 97 + 10
      else - 1)"

definition ValToChar16 :: "int \<Rightarrow> u8" where
  "ValToChar16 val =
     (if 0 \<le> val \<and> val < 10 then 48 + word_of_int val
      else if 10 \<le> val \<and> val < 16 then 65 + word_of_int (val - 10) else 0)"

definition Verhoeff16 :: VerhoeffClass where
  "Verhoeff16 = \<lparr>Base = 16, PolygonSize = 8,
     sMultiplyTable = sMultiplyTable16, sPermTable = sPermTable16,
     CharToVal = CharToVal16, ValToChar = ValToChar16\<rparr>"

definition sCharToValTable32 :: "int list" where
  "sCharToValTable32 =
     [0, 1, 2, 3, 4, 5, 6, 7, 8, 9, - 1, - 1, - 1, - 1, - 1, - 1,
      - 1, 10, 11, 12, 13, 14, 15, 16, 17, - 1, 18, 19, 20, 21, 22, - 1,
      23, - 1, 24, 25, 26, 27, 28, 29, 30, 31, - 1, - 1, - 1, - 1, - 1, - 1,
      - 1, 10, 11, 12, 13, 14, 15, 16, 17, - 1, 18, 19, 20, 21, 22, - 1,
      23, - 1, 24, 25, 26, 27, 28, 29, 30, 31]"

definition sValToCharTable32 :: "u8 list" where
  "sValToCharTable32 =
     [48, 49, 50, 51, 52, 53, 54, 55, 56, 57, 65, 66, 67, 68, 69, 70, 71, 72, 74, 75, 76, 77, 78, 80, 82, 83, 84, 85, 86, 87, 88, 89]"

definition sMultiplyTable32 :: "int list" where
  "sMultiplyTable32 =
     [0, 1, 2, 3, 4, 5, 6, 7, 8, 9, 10, 11, 12, 13, 14, 15, 16, 17, 18, 19, 20, 21, 22, 23, 24, 25, 26, 27, 28, 29, 30, 31,
      1, 2, 3, 4, 5, 6, 7, 8, 9, 10, 11, 12, 13, 14, 15, 0, 17, 18, 19, 20, 21, 22, 23, 24, 25, 26, 27, 28, 29, 30, 31, 16,
      2, 3, 4, 5, 6, 7, 8, 9, 10, 11, 12, 13, 14, 15, 0, 1, 18, 19, 20, 21, 22, 23, 24, 25, 26, 27, 28, 29, 30, 31, 16, 17,
      3, 4, 5, 6, 7, 8, 9, 10, 11, 12, 13, 14, 15, 0, 1, 2, 19, 20, 21, 22, 23, 24, 25, 26, 27, 28, 29, 30, 31, 16, 17, 18,
      4, 5, 6, 7, 8, 9, 10, 11, 12, 13, 14, 15, 0, 1, 2, 3, 20, 21, 22, 23, 24, 25, 26, 27, 28, 29, 30, 31, 16, 17, 18, 19,
      5, 6, 7, 8, 9, 10, 11, 12, 13, 14, 15, 0, 1, 2, 3, 4, 21, 22, 23, 24, 25, 26, 27, 28, 29, 30, 31, 16, 17, 18, 19, 20,
      6, 7, 8, 9, 10, 11, 12, 13, 14, 15, 0, 1, 2, 3, 4, 5, 22, 23, 24, 25, 26, 27, 28, 29, 30, 31, 16, 17, 18, 19, 20, 21,
      7, 8, 9, 10, 11, 12, 13, 14, 15, 0, 1, 2, 3, 4, 5, 6, 23, 24, 25, 26, 27, 28, 29, 30, 31, 16, 17, 18, 19, 20, 21, 22,
      8, 9, 10, 11, 12, 13, 14, 15, 0, 1, 2, 3, 4, 5, 6, 7, 24, 25, 26, 27, 28, 29, 30, 31, 16, 17, 18, 19, 20, 21, 22, 23,
      9, 10, 11, 12, 13, 14, 15, 0, 1, 2, 3, 4, 5, 6, 7, 8, 25, 26, 27, 28, 29, 30, 31, 16, 17, 18, 19, 20, 21, 22, 23, 24,
      10, 11, 12, 13, 14, 15, 0, 1, 2, 3, 4, 5, 6, 7, 8, 9, 26, 27, 28, 29, 30, 31, 16, 17, 18, 19, 20, 21, 22, 23, 24, 25,
      11, 12, 13, 14, 15, 0, 1, 2, 3, 4, 5, 6, 7, 8, 9, 10, 27, 28, 29, 30, 31, 16, 17, 18, 19, 20, 21, 22, 23, 24, 25, 26,
      12, 13, 14, 15, 0, 1, 2, 3, 4, 5, 6, 7, 8, 9, 10, 11, 28, 29, 30, 31, 16, 17, 18, 19, 20, 21, 22, 23, 24, 25, 26, 27,
      13, 14, 15, 0, 1, 2, 3, 4, 5, 6, 7, 8, 9, 10, 11, 12, 29, 30, 31, 16, 17, 18, 19, 20, 21, 22, 23, 24, 25, 26, 27, 28,
      14, 15, 0, 1, 2, 3, 4, 5, 6, 7, 8, 9, 10, 11, 12, 13, 30, 31, 16, 17, 18, 19, 20, 21, 22, 23, 24, 25, 26, 27, 28, 29,
      15, 0, 1, 2, 3, 4, 5, 6, 7, 8, 9, 10, 11, 12, 13, 14, 31, 16, 17, 18, 19, 20, 21, 22, 23, 24, 25, 26, 27, 28, 29, 30,
      16, 31, 30, 29, 28, 27, 26, 25, 24, 23, 22, 21, 20, 19, 18, 17, 0, 15, 14, 13, 12, 11, 10, 9, 8, 7, 6, 5, 4, 3, 2, 1,
      17, 16, 31, 30, 29, 28, 27, 26, 25, 24, 23, 22, 21, 20, 19, 18, 1, 0, 15, 14, 13, 12, 11, 10, 9, 8, 7, 6, 5, 4, 3, 2,
      18, 17, 16, 31, 30, 29, 28, 27, 26, 25, 24, 23, 22, 21, 20, 19, 2, 1, 0, 15, 14, 13, 12, 11, 10, 9, 8, 7, 6, 5, 4, 3,
      19, 18, 17, 16, 31, 30, 29, 28, 27, 26, 25, 24, 23, 22, 21, 20, 3, 2, 1, 0, 15, 14, 13, 12, 11, 10, 9, 8, 7, 6, 5, 4,
      20, 19, 18, 17, 16, 31, 30, 29, 28, 27, 26, 25, 24, 23, 22, 21, 4, 3, 2, 1, 0, 15, 14, 13, 12, 11, 10, 9, 8, 7, 6, 5,
      21, 20, 19, 18, 17, 16, 31, 30, 29, 28, 27, 26, 25, 24, 23, 22, 5, 4, 3, 2, 1, 0, 15, 14, 13, 12, 11, 10, 9, 8, 7, 6,
      22, 21, 20, 19, 18, 17, 16, 31, 30, 29, 28, 27, 26, 25, 24, 23, 6, 5, 4, 3, 2, 1, 0, 15, 14, 13, 12, 11, 10, 9, 8, 7,
      23, 22, 21, 20, 19, 18, 17, 16, 31, 30, 29, 28, 27, 26, 25, 24, 7, 6, 5, 4, 3, 2, 1, 0, 15, 14, 13, 12, 11, 10, 9, 8,
      24, 23, 22, 21, 20, 19, 18, 17, 16, 31, 30, 29, 28, 27, 26, 25, 8, 7, 6, 5, 4, 3, 2, 1, 0, 15, 14, 13, 12, 11, 10, 9,
      25, 24, 23, 22, 21, 20, 19, 18, 17, 16, 31, 30, 29, 28, 27, 26, 9, 8, 7, 6, 5, 4, 3, 2, 1, 0, 15, 14, 13, 12, 11, 10,
      26, 25, 24, 23, 22, 21, 20, 19, 18, 17, 16, 31, 30, 29, 28, 27, 10, 9, 8, 7, 6, 5, 4, 3, 2, 1, 0, 15, 14, 13, 12, 11,
      27, 26, 25, 24, 23, 22, 21, 20, 19, 18, 17, 16, 31, 30, 29, 28, 11, 10, 9, 8, 7, 6, 5, 4, 3, 2, 1, 0, 15, 14, 13, 12,
      28, 27, 26, 25, 24, 23, 22, 21, 20, 19, 18, 17, 16, 31, 30, 29, 12, 11, 10, 9, 8, 7, 6, 5, 4, 3, 2, 1, 0, 15, 14, 13,
      29, 28, 27, 26, 25, 24, 23, 22, 21, 20, 19, 18, 17, 16, 31, 30, 13, 12, 11, 10, 9, 8, 7, 6, 5, 4, 3, 2, 1, 0, 15, 14,
      30, 29, 28, 27, 26, 25, 24, 23, 22, 21, 20, 19, 18, 17, 16, 31, 14, 13, 12, 11, 10, 9, 8, 7, 6, 5, 4, 3, 2, 1, 0, 15,
      31, 30, 29, 28, 27, 26, 25, 24, 23, 22, 21, 20, 19, 18, 17, 16, 15, 14, 13, 12, 11, 10, 9, 8, 7, 6, 5, 4, 3, 2, 1, 0]"

definition sPermTable32 :: "int list" where
  "sPermTable32 =
     [7, 2, 1, 30, 16, 20, 27, 11, 31, 6, 8, 13, 29, 5, 10, 21, 22, 3, 24, 0, 23, 25, 12, 9, 28, 14, 4, 15, 17, 18, 19, 26]"

definition CharToVal32 :: "u8 \<Rightarrow> int" where
  "CharToVal32 ch =
     (if 48 \<le> ch \<and> ch \<le> 121 then sCharToValTable32 ! (unat ch - 48) else - 1)"

definition ValToChar32 :: "int \<Rightarrow> u8" where
  "ValToChar32 val =
     (if 0 \<le> val \<and> val < 32 then sValToCharTable32 ! nat val else 0)"

definition Verhoeff32 :: VerhoeffClass where
  "Verhoeff32 = \<lparr>Base = 32, PolygonSize = 16,
     sMultiplyTable = sMultiplyTable32, sPermTable = sPermTable32,
     CharToVal = CharToVal32, ValToChar = ValToChar32\<rparr>"

definition sCharToValTable36 :: "int list" where
  "sCharToValTable36 =
     [0, 1, 2, 3, 4, 5, 6, 7, 8, 9, - 1, - 1, - 1, - 1, - 1, - 1,
      - 1, 10, 11, 12, 13, 14, 15, 16, 17, 18, 19, 20, 21, 22, 23, 24,
      25, 26, 27, 28, 29, 30, 31, 32, 33, 34, 35, - 1, - 1, - 1, - 1, - 1,
      - 1, 10, 11, 12, 13, 14, 15, 16, 17, 18, 19, 20, 21, 22, 23, 24,
      25, 26, 27, 28, 29, 30, 31, 32, 33, 34, 35]"

definition sValToCharTable36 :: "u8 list" where
  "sValToCharTable36 =
     [48, 49, 50, 51, 52, 53, 54, 55, 56, 57, 65, 66, 67, 68, 69, 70, 71, 72, 73, 74, 75, 76, 77, 78, 79, 80, 81, 82, 83, 84, 85, 86,
      87, 88, 89, 90]"

definition sMultiplyTable36 :: "int list" where
  "sMultiplyTable36 =
     [0, 1, 2, 3, 4, 5, 6, 7, 8, 9, 10, 11, 12, 13, 14, 15, 16, 17, 18, 19, 20, 21, 22, 23, 24, 25, 26, 27, 28, 29, 30, 31, 32, 33, 34, 35,
      1, 2, 3, 4, 5, 6, 7, 8, 9, 10, 11, 12, 13, 14, 15, 16, 17, 0, 19, 20, 21, 22, 23, 24, 25, 26, 27, 28, 29, 30, 31, 32, 33, 34, 35, 18,
      2, 3, 4, 5, 6, 7, 8, 9, 10, 11, 12, 13, 14, 15, 16, 17, 0, 1, 20, 21, 22, 23, 24, 25, 26, 27, 28, 29, 30, 31, 32, 33, 34, 35, 18, 19,
      3, 4, 5, 6, 7, 8, 9, 10, 11, 12, 13, 14, 15, 16, 17, 0, 1, 2, 21, 22, 23, 24, 25, 26, 27, 28, 29, 30, 31, 32, 33, 34, 35, 18, 19, 20,
      4, 5, 6, 7, 8, 9, 10, 11, 12, 13, 14, 15, 16, 17, 0, 1, 2, 3, 22, 23, 24, 25, 26, 27, 28, 29, 30, 31, 32, 33, 34, 35, 18, 19, 20, 21,
      5, 6, 7, 8, 9, 10, 11, 12, 13, 14, 15, 16, 17, 0, 1, 2, 3, 4, 23, 24, 25, 26, 27, 28, 29, 30, 31, 32, 33, 34, 35, 18, 19, 20, 21, 22,
      6, 7, 8, 9, 10, 11, 12, 13, 14, 15, 16, 17, 0, 1, 2, 3, 4, 5, 24, 25, 26, 27, 28, 29, 30, 31, 32, 33, 34, 35, 18, 19, 20, 21, 22, 23,
      7, 8, 9, 10, 11, 12, 13, 14, 15, 16, 17, 0, 1, 2, 3, 4, 5, 6, 25, 26, 27, 28, 29, 30, 31, 32, 33, 34, 35, 18, 19, 20, 21, 22, 23, 24,
      8, 9, 10, 11, 12, 13, 14, 15, 16, 17, 0, 1, 2, 3, 4, 5, 6, 7, 26, 27, 28, 29, 30, 31, 32, 33, 34, 35, 18, 19, 20, 21, 22, 23, 24, 25,
      9, 10, 11, 12, 13, 14, 15, 16, 17, 0, 1, 2, 3, 4, 5, 6, 7, 8, 27, 28, 29, 30, 31, 32, 33, 34, 35, 18, 19, 20, 21, 22, 23, 24, 25, 26,
      10, 11, 12, 13, 14, 15, 16, 17, 0, 1, 2, 3, 4, 5, 6, 7, 8, 9, 28, 29, 30, 31, 32, 33, 34, 35, 18, 19, 20, 21, 22, 23, 24, 25, 26, 27,
      11, 12, 13, 14, 15, 16, 17, 0, 1, 2, 3, 4, 5, 6, 7, 8, 9, 10, 29, 30, 31, 32, 33, 34, 35, 18, 19, 20, 21, 22, 23, 24, 25, 26, 27, 28,
      12, 13, 14, 15, 16, 17, 0, 1, 2, 3, 4, 5, 6, 7, 8, 9, 10, 11, 30, 31, 32, 33, 34, 35, 18, 19, 20, 21, 22, 23, 24, 25, 26, 27, 28, 29,
      13, 14, 15, 16, 17, 0, 1, 2, 3, 4, 5, 6, 7, 8, 9, 10, 11, 12, 31, 32, 33, 34, 35, 18, 19, 20, 21, 22, 23, 24, 25, 26, 27, 28, 29, 30,
      14, 15, 16, 17, 0, 1, 2, 3, 4, 5, 6, 7, 8, 9, 10, 11, 12, 13, 32, 33, 34, 35, 18, 19, 20, 21, 22, 23, 24, 25, 26, 27, 28, 29, 30, 31,
      15, 16, 17, 0, 1, 2, 3, 4, 5, 6, 7, 8, 9, 10, 11, 12, 13, 14, 33, 34, 35, 18, 19, 20, 21, 22, 23, 24, 25, 26, 27, 28, 29, 30, 31, 32,
      16, 17, 0, 1, 2, 3, 4, 5, 6, 7, 8, 9, 10, 11, 12, 13, 14, 15, 34, 35, 18, 19, 20, 21, 22, 23, 24, 25, 26, 27, 28, 29, 30, 31, 32, 33,
      17, 0, 1, 2, 3, 4, 5, 6, 7, 8, 9, 10, 11, 12, 13, 14, 15, 16, 35, 18, 19, 20, 21, 22, 23, 24, 25, 26, 27, 28, 29, 30, 31, 32, 33, 34,
      18, 35, 34, 33, 32, 31, 30, 29, 28, 27, 26, 25, 24, 23, 22, 21, 20, 19, 0, 17, 16, 15, 14, 13, 12, 11, 10, 9, 8, 7, 6, 5, 4, 3, 2, 1,
      19, 18, 35, 34, 33, 32, 31, 30, 29, 28, 27, 26, 25, 24, 23, 22, 21, 20, 1, 0, 17, 16, 15, 14, 13, 12, 11, 10, 9, 8, 7, 6, 5, 4, 3, 2,
      20, 19, 18, 35, 34, 33, 32, 31, 30, 29, 28, 27, 26, 25, 24, 23, 22, 21, 2, 1, 0, 17, 16, 15, 14, 13, 12, 11, 10, 9, 8, 7, 6, 5, 4, 3,
      21, 20, 19, 18, 35, 34, 33, 32, 31, 30, 29, 28, 27, 26, 25, 24, 23, 22, 3, 2, 1, 0, 17, 16, 15, 14, 13, 12, 11, 10, 9, 8, 7, 6, 5, 4,
      22, 21, 20, 19, 18, 35, 34, 33, 32, 31, 30, 29, 28, 27, 26, 25, 24, 23, 4, 3, 2, 1, 0, 17, 16, 15, 14, 13, 12, 11, 10, 9, 8, 7, 6, 5,
      23, 22, 21, 20, 19, 18, 35, 34, 33, 32, 31, 30, 29, 28, 27, 26, 25, 24, 5, 4, 3, 2, 1, 0, 17, 16, 15, 14, 13, 12, 11, 10, 9, 8, 7, 6,
      24, 23, 22, 21, 20, 19, 18, 35, 34, 33, 32, 31, 30, 29, 28, 27, 26, 25, 6, 5, 4, 3, 2, 1, 0, 17, 16, 15, 14, 13, 12, 11, 10, 9, 8, 7,
      25, 24, 23, 22, 21, 20, 19, 18, 35, 34, 33, 32, 31, 30, 29, 28, 27, 26, 7, 6, 5, 4, 3, 2, 1, 0, 17, 16, 15, 14, 13, 12, 11, 10, 9, 8,
      26, 25, 24, 23, 22, 21, 20, 19, 18, 35, 34, 33, 32, 31, 30, 29, 28, 27, 8, 7, 6, 5, 4, 3, 2, 1, 0, 17, 16, 15, 14, 13, 12, 11, 10, 9,
      27, 26, 25, 24, 23, 22, 21, 20, 19, 18, 35, 34, 33, 32, 31, 30, 29, 28, 9, 8, 7, 6, 5, 4, 3, 2, 1, 0, 17, 16, 15, 14, 13, 12, 11, 10,
      28, 27, 26, 25, 24, 23, 22, 21, 20, 19, 18, 35, 34, 33, 32, 31, 30, 29, 10, 9, 8, 7, 6, 5, 4, 3, 2, 1, 0, 17, 16, 15, 14, 13, 12, 11,
      29, 28, 27, 26, 25, 24, 23, 22, 21, 20, 19, 18, 35, 34, 33, 32, 31, 30, 11, 10, 9, 8, 7, 6, 5, 4, 3, 2, 1, 0, 17, 16, 15, 14, 13, 12,
      30, 29, 28, 27, 26, 25, 24, 23, 22, 21, 20, 19, 18, 35, 34, 33, 32, 31, 12, 11, 10, 9, 8, 7, 6, 5, 4, 3, 2, 1, 0, 17, 16, 15, 14, 13,
      31, 30, 29, 28, 27, 26, 25, 24, 23, 22, 21, 20, 19, 18, 35, 34, 33, 32, 13, 12, 11, 10, 9, 8, 7, 6, 5, 4, 3, 2, 1, 0, 17, 16, 15, 14,
      32, 31, 30, 29, 28, 27, 26, 25, 24, 23, 22, 21, 20, 19, 18, 35, 34, 33, 14, 13, 12, 11, 10, 9, 8, 7, 6, 5, 4, 3, 2, 1, 0, 17, 16, 15,
      33, 32, 31, 30, 29, 28, 27, 26, 25, 24, 23, 22, 21, 20, 19, 18, 35, 34, 15, 14, 13, 12, 11, 10, 9, 8, 7, 6, 5, 4, 3, 2, 1, 0, 17, 16,
      34, 33, 32, 31, 30, 29, 28, 27, 26, 25, 24, 23, 22, 21, 20, 19, 18, 35, 16, 15, 14, 13, 12, 11, 10, 9, 8, 7, 6, 5, 4, 3, 2, 1, 0, 17,
      35, 34, 33, 32, 31, 30, 29, 28, 27, 26, 25, 24, 23, 22, 21, 20, 19, 18, 17, 16, 15, 14, 13, 12, 11, 10, 9, 8, 7, 6, 5, 4, 3, 2, 1, 0]"

definition sPermTable36 :: "int list" where
  "sPermTable36 =
     [29, 0, 32, 11, 35, 20, 7, 27, 2, 4, 19, 28, 30, 1, 5, 12, 3, 9, 16, 22, 6, 33, 8, 24, 26, 21, 14, 10, 34, 31, 15, 25, 17, 13, 23, 18]"

definition CharToVal36 :: "u8 \<Rightarrow> int" where
  "CharToVal36 ch =
     (if 48 \<le> ch \<and> ch \<le> 122 then sCharToValTable36 ! (unat ch - 48) else - 1)"

definition ValToChar36 :: "int \<Rightarrow> u8" where
  "ValToChar36 val =
     (if 0 \<le> val \<and> val < 36 then sValToCharTable36 ! nat val else 0)"

definition Verhoeff36 :: VerhoeffClass where
  "Verhoeff36 = \<lparr>Base = 36, PolygonSize = 18,
     sMultiplyTable = sMultiplyTable36, sPermTable = sPermTable36,
     CharToVal = CharToVal36, ValToChar = ValToChar36\<rparr>"


section \<open>What the method relies on\<close>

text \<open>The sum of the values of a string, from its last character on, which is at place \<open>i\<close>.\<close>

fun check_sum :: "(int \<Rightarrow> int \<Rightarrow> int) \<Rightarrow> (int \<Rightarrow> int) \<Rightarrow> nat \<Rightarrow> int \<Rightarrow> int list \<Rightarrow> int" where
  "check_sum mul perm i c [] = c"
| "check_sum mul perm i c (v # vs) = check_sum mul perm (Suc i) (mul c ((perm ^^ i) v)) vs"

locale check_digits =
  fixes b :: int and mul :: "int \<Rightarrow> int \<Rightarrow> int" and invert :: "int \<Rightarrow> int" and perm :: "int \<Rightarrow> int"
  assumes mul_range: "\<lbrakk>x \<in> {0..<b}; y \<in> {0..<b}\<rbrakk> \<Longrightarrow> mul x y \<in> {0..<b}"
    and assoc: "\<lbrakk>x \<in> {0..<b}; y \<in> {0..<b}; z \<in> {0..<b}\<rbrakk> \<Longrightarrow> mul (mul x y) z = mul x (mul y z)"
    and unit: "x \<in> {0..<b} \<Longrightarrow> mul 0 x = x" "x \<in> {0..<b} \<Longrightarrow> mul x 0 = x"
    and invert_range: "x \<in> {0..<b} \<Longrightarrow> invert x \<in> {0..<b}"
    and inverse: "x \<in> {0..<b} \<Longrightarrow> mul (invert x) x = 0" "x \<in> {0..<b} \<Longrightarrow> mul x (invert x) = 0"
    and perm_range: "x \<in> {0..<b} \<Longrightarrow> perm x \<in> {0..<b}"
    and perm_inj: "inj_on perm {0..<b}"
    and no_swap: "\<lbrakk>x \<in> {0..<b}; y \<in> {0..<b}; x \<noteq> y\<rbrakk> \<Longrightarrow> mul x (perm y) \<noteq> mul y (perm x)"
begin

lemma left_cancel:
  assumes "x \<in> {0..<b}" "y \<in> {0..<b}" "z \<in> {0..<b}" "mul x y = mul x z"
  shows "y = z"
  using assms assoc [OF invert_range, of x x y] assoc [OF invert_range, of x x z] inverse(1) unit(1) by metis

lemma right_cancel:
  assumes "x \<in> {0..<b}" "y \<in> {0..<b}" "z \<in> {0..<b}" "mul y x = mul z x"
  shows "y = z"
  using assms assoc [OF _ _ invert_range, of y x x] assoc [OF _ _ invert_range, of z x x] inverse(2) unit(2) by metis

lemma perms_range: "x \<in> {0..<b} \<Longrightarrow> (perm ^^ i) x \<in> {0..<b}"
  by (induction i) (simp_all only: funpow.simps comp_apply id_apply perm_range)

lemma perms_inj: "\<lbrakk>x \<in> {0..<b}; y \<in> {0..<b}; (perm ^^ i) x = (perm ^^ i) y\<rbrakk> \<Longrightarrow> x = y"
  by (induction i) (auto dest!: inj_onD [OF perm_inj] intro: perms_range simp only: funpow.simps comp_apply id_apply)

lemma check_sum_range: "\<lbrakk>c \<in> {0..<b}; set vs \<subseteq> {0..<b}\<rbrakk> \<Longrightarrow> check_sum mul perm i c vs \<in> {0..<b}"
  by (induction vs arbitrary: i c) (simp_all only: check_sum.simps list.set insert_subset mul_range perms_range)

lemma check_sum_mul:
  "\<lbrakk>x \<in> {0..<b}; c \<in> {0..<b}; set vs \<subseteq> {0..<b}\<rbrakk> \<Longrightarrow> check_sum mul perm i (mul x c) vs = mul x (check_sum mul perm i c vs)"
  by (induction vs arbitrary: i c) (simp_all only: check_sum.simps list.set insert_subset mul_range perms_range assoc)

lemma check_sum_inj:
  "\<lbrakk>c \<in> {0..<b}; d \<in> {0..<b}; set vs \<subseteq> {0..<b}; check_sum mul perm i c vs = check_sum mul perm i d vs\<rbrakk> \<Longrightarrow> c = d"
proof (induction vs arbitrary: i c d)
  case (Cons v vs)
  have v: "(perm ^^ i) v \<in> {0..<b}" "set vs \<subseteq> {0..<b}" using Cons.prems(3) perms_range by auto
  have eq: "check_sum mul perm (Suc i) (mul c ((perm ^^ i) v)) vs = check_sum mul perm (Suc i) (mul d ((perm ^^ i) v)) vs"
    using Cons.prems(4) by (simp only: check_sum.simps)
  from Cons.IH [OF mul_range [OF Cons.prems(1) v(1)] mul_range [OF Cons.prems(2) v(1)] v(2) eq]
  show ?case by (rule right_cancel [OF v(1) Cons.prems(1,2)])
qed simp

lemma check_sum_append: "check_sum mul perm i c (us @ vs) = check_sum mul perm (i + length us) (check_sum mul perm i c us) vs"
  by (induction us arbitrary: i c) simp_all

lemma wrong_value:
  assumes "c \<in> {0..<b}" "set us \<subseteq> {0..<b}" "v \<in> {0..<b}" "w \<in> {0..<b}" "set vs \<subseteq> {0..<b}" "v \<noteq> w"
  shows "check_sum mul perm i c (us @ v # vs) \<noteq> check_sum mul perm i c (us @ w # vs)"
proof
  let ?c = "check_sum mul perm i c us" and ?j = "i + length us"
  assume "check_sum mul perm i c (us @ v # vs) = check_sum mul perm i c (us @ w # vs)"
  then have eq: "check_sum mul perm (Suc ?j) (mul ?c ((perm ^^ ?j) v)) vs = check_sum mul perm (Suc ?j) (mul ?c ((perm ^^ ?j) w)) vs"
    by (simp only: check_sum_append check_sum.simps)
  have c: "?c \<in> {0..<b}" by (rule check_sum_range [OF assms(1,2)])
  note p = perms_range [OF assms(3), of ?j] perms_range [OF assms(4), of ?j]
  from check_sum_inj [OF mul_range [OF c p(1)] mul_range [OF c p(2)] assms(5) eq] have "(perm ^^ ?j) v = (perm ^^ ?j) w"
    by (rule left_cancel [OF c p])
  with perms_inj [OF assms(3,4)] assms(6) show False by blast
qed

lemma wrong_order:
  assumes "c \<in> {0..<b}" "set us \<subseteq> {0..<b}" "v \<in> {0..<b}" "w \<in> {0..<b}" "set vs \<subseteq> {0..<b}" "v \<noteq> w"
  shows "check_sum mul perm i c (us @ v # w # vs) \<noteq> check_sum mul perm i c (us @ w # v # vs)"
proof
  let ?c = "check_sum mul perm i c us" and ?j = "i + length us"
  let ?x = "(perm ^^ ?j) v" and ?y = "(perm ^^ ?j) w"
  assume "check_sum mul perm i c (us @ v # w # vs) = check_sum mul perm i c (us @ w # v # vs)"
  then have eq: "check_sum mul perm (Suc (Suc ?j)) (mul (mul ?c ?x) (perm ?y)) vs = check_sum mul perm (Suc (Suc ?j)) (mul (mul ?c ?y) (perm ?x)) vs"
    by (simp only: check_sum_append check_sum.simps funpow.simps comp_apply)
  have c: "?c \<in> {0..<b}" by (rule check_sum_range [OF assms(1,2)])
  note p = perms_range [OF assms(3), of ?j] perms_range [OF assms(4), of ?j]
  note q = perm_range [OF p(1)] perm_range [OF p(2)]
  have "mul (mul ?c ?x) (perm ?y) = mul (mul ?c ?y) (perm ?x)"
    by (rule check_sum_inj [OF mul_range [OF mul_range [OF c p(1)] q(2)] mul_range [OF mul_range [OF c p(2)] q(1)] assms(5) eq])
  then have "mul ?c (mul ?x (perm ?y)) = mul ?c (mul ?y (perm ?x))" by (simp only: assoc [OF c p(1) q(2)] assoc [OF c p(2) q(1)])
  then have "mul ?x (perm ?y) = mul ?y (perm ?x)" by (rule left_cancel [OF c mul_range [OF p(1) q(2)] mul_range [OF p(2) q(1)]])
  moreover have "?x \<noteq> ?y" using perms_inj [OF assms(3,4)] assms(6) by blast
  ultimately show False using no_swap [OF p] by blast
qed

end


section \<open>The dihedral group is one\<close>

lemma dihedral:
  assumes "0 \<le> x" "x < n" "0 \<le> y" "y < n"
  shows "DihedralMultiply x y n = (x + y) mod n" "DihedralMultiply x (n + y) n = n + (x + y) mod n"
    "DihedralMultiply (n + x) y n = n + (x - y) mod n" "DihedralMultiply (n + x) (n + y) n = (x - y) mod n"
proof -
  have "(n + (n + x - n) - y) mod n = (x - y) mod n" by (metis add.commute add_diff_cancel_left' add_diff_eq mod_add_self1)
  then show "DihedralMultiply (n + x) y n = n + (x - y) mod n" "DihedralMultiply (n + x) (n + y) n = (x - y) mod n"
    using assms by (simp_all add: DihedralMultiply_def Let_def)
qed (use assms in \<open>simp_all add: DihedralMultiply_def Let_def\<close>)

lemma dihedral_cases:
  assumes "x \<in> {0..<2 * n}"
  obtains (rotation) "0 \<le> x" "x < (n :: int)" | (reflection) r where "x = n + r" "0 \<le> r" "r < n"
  using assms by (cases "x < n") (auto intro: that(2) [of "x - n"])

lemma mod_less_double: "0 < n \<Longrightarrow> k mod n < 2 * (n :: int)"
  using pos_mod_bound [of n k] by linarith

lemma dihedral_range: "\<lbrakk>x \<in> {0..<2 * n}; y \<in> {0..<2 * n}; 0 < n\<rbrakk> \<Longrightarrow> DihedralMultiply x y n \<in> {0..<2 * n}"
  by (erule dihedral_cases; erule dihedral_cases) (simp_all add: dihedral mod_less_double)

lemma dihedral_assoc:
  assumes "x \<in> {0..<2 * n}" "y \<in> {0..<2 * n}" "z \<in> {0..<2 * n}" "0 < n"
  shows "DihedralMultiply (DihedralMultiply x y n) z n = DihedralMultiply x (DihedralMultiply y z n) n"
proof -
  have bounds: "0 \<le> k mod n" "k mod n < n" for k using assms(4) by simp_all
  show ?thesis
    by (rule dihedral_cases [OF assms(1)]; rule dihedral_cases [OF assms(2)]; rule dihedral_cases [OF assms(3)];
      hypsubst?; simp only: dihedral bounds; simp add: mod_simps add.assoc diff_diff_eq2 diff_diff_eq add_diff_eq diff_add_eq)
qed

lemma dihedral_unit: "x \<in> {0..<2 * n} \<Longrightarrow> DihedralMultiply 0 x n = x" "x \<in> {0..<2 * n} \<Longrightarrow> DihedralMultiply x 0 n = x"
  by (erule dihedral_cases; simp add: dihedral)+

lemma dihedral_inverse:
  assumes "x \<in> {0..<2 * n}"
  shows "DihedralInvert x n \<in> {0..<2 * n}" "DihedralMultiply (DihedralInvert x n) x n = 0" "DihedralMultiply x (DihedralInvert x n) n = 0"
proof -
  show "DihedralInvert x n \<in> {0..<2 * n}" using assms by (auto simp: DihedralInvert_def)
  show "DihedralMultiply (DihedralInvert x n) x n = 0" "DihedralMultiply x (DihedralInvert x n) n = 0"
    using assms by (cases rule: dihedral_cases; cases "x = 0"; simp add: DihedralInvert_def dihedral)+
qed


section \<open>Detection of errors\<close>

definition table_of :: "int \<Rightarrow> int list" where
  "table_of b = concat (map (\<lambda>x. map (\<lambda>y. DihedralMultiply x y (b div 2)) [0..b - 1]) [0..b - 1])"

definition perm_ok :: "int \<Rightarrow> int list \<Rightarrow> bool" where
  "perm_ok b perm \<longleftrightarrow> distinct perm \<and> list_all (\<lambda>x. 0 \<le> x \<and> x < b) perm"

text \<open>With each value, its permuted one: no two give the same sum in both orders.\<close>

definition swap_free :: "int \<Rightarrow> int list \<Rightarrow> bool" where
  "swap_free n perm \<longleftrightarrow> (let vs = zip [0..2 * n - 1] perm in
     list_all (\<lambda>(x, px). list_all (\<lambda>(y, py). y \<le> x \<or> DihedralMultiply x py n \<noteq> DihedralMultiply y px n) vs) vs)"

lemma perms: "perm_ok 10 sPermTable10" "perm_ok 16 sPermTable16" "perm_ok 32 sPermTable32" "perm_ok 36 sPermTable36"
  by code_simp+

lemma swaps: "swap_free 5 sPermTable10" "swap_free 8 sPermTable16" "swap_free 16 sPermTable32" "swap_free 18 sPermTable36"
  by code_simp+

lemma tables:
  "sMultiplyTable10 = table_of 10" "sMultiplyTable16 = table_of 16" "sMultiplyTable32 = table_of 32" "sMultiplyTable36 = table_of 36"
  by code_simp+

lemma concat_nth:
  "\<lbrakk>\<And>r. r \<in> set rss \<Longrightarrow> length r = b; i < length rss; j < b\<rbrakk> \<Longrightarrow> concat rss ! (i * b + j) = rss ! i ! j"
proof (induction rss arbitrary: i)
  case (Cons r rss)
  have "i * b + j - b = (i - 1) * b + j" "b \<le> i * b" if "0 < i" using that by (cases i; simp)+
  with Cons show ?case by (cases i) (auto simp: nth_append)
qed simp

lemma table_of_nth:
  assumes "x \<in> {0..<b}" "y \<in> {0..<b}"
  shows "table_of b ! nat (x * b + y) = DihedralMultiply x y (b div 2)"
proof -
  have "nat (x * b + y) = nat x * nat b + nat y" using assms by (simp add: nat_add_distrib nat_mult_distrib)
  moreover have "concat (map (\<lambda>x. map (\<lambda>y. DihedralMultiply x y (b div 2)) [0..b - 1]) [0..b - 1]) ! (nat x * nat b + nat y) =
      map (\<lambda>x. map (\<lambda>y. DihedralMultiply x y (b div 2)) [0..b - 1]) [0..b - 1] ! nat x ! nat y"
    using assms by (intro concat_nth) auto
  ultimately show ?thesis using assms by (simp add: table_of_def)
qed

locale verhoeff =
  fixes V :: VerhoeffClass
  assumes polygon: "0 < PolygonSize V" "Base V = 2 * PolygonSize V"
    and table: "sMultiplyTable V = table_of (Base V)"
    and permutation: "perm_ok (Base V) (sPermTable V)" "int (length (sPermTable V)) = Base V" "swap_free (PolygonSize V) (sPermTable V)"
    and value_bound: "CharToVal V ch < Base V"
    and char_value: "\<lbrakk>0 \<le> v; v < Base V\<rbrakk> \<Longrightarrow> CharToVal V (ValToChar V v) = v"
    and nul: "CharToVal V 0 < 0"
begin

lemma perm_nth: "x \<in> {0..<Base V} \<Longrightarrow> sPermTable V ! nat x \<in> {0..<Base V}"
  using permutation(1,2) nth_mem [of "nat x" "sPermTable V"] by (auto simp: perm_ok_def list_all_iff)

lemma swap_nth:
  assumes "x \<in> {0..<Base V}" "y \<in> {0..<Base V}" "x < y"
  shows "DihedralMultiply x (sPermTable V ! nat y) (PolygonSize V) \<noteq> DihedralMultiply y (sPermTable V ! nat x) (PolygonSize V)"
proof -
  let ?vs = "zip [0..2 * PolygonSize V - 1] (sPermTable V)"
  have "(z, sPermTable V ! nat z) \<in> set ?vs" if "z \<in> {0..<Base V}" for z
    using that permutation(2) polygon(2) by (auto simp: in_set_zip intro!: exI [of _ "nat z"])
  from this [OF assms(1)] this [OF assms(2)] show ?thesis
    using permutation(3) assms(3) unfolding swap_free_def Let_def list_all_iff by fastforce
qed

end

sublocale verhoeff \<subseteq> check_digits "Base V" "\<lambda>x y. DihedralMultiply x y (PolygonSize V)" "\<lambda>x. DihedralInvert x (PolygonSize V)"
  "\<lambda>x. sPermTable V ! nat x"
proof
  fix x y z
  show "x \<in> {0..<Base V} \<Longrightarrow> sPermTable V ! nat x \<in> {0..<Base V}" by (rule perm_nth)
  show "inj_on (\<lambda>x. sPermTable V ! nat x) {0..<Base V}"
    using permutation(1,2) by (auto simp: perm_ok_def inj_on_def nth_eq_iff_index_eq)
  show "\<lbrakk>x \<in> {0..<Base V}; y \<in> {0..<Base V}; x \<noteq> y\<rbrakk> \<Longrightarrow>
      DihedralMultiply x (sPermTable V ! nat y) (PolygonSize V) \<noteq> DihedralMultiply y (sPermTable V ! nat x) (PolygonSize V)"
    using swap_nth [of x y] swap_nth [of y x] by (metis linorder_less_linear)
qed (use polygon dihedral_range dihedral_assoc dihedral_unit dihedral_inverse in \<open>simp_all only:\<close>)

definition verhoeff_sum :: "VerhoeffClass \<Rightarrow> nat \<Rightarrow> int \<Rightarrow> int list \<Rightarrow> int" where
  "verhoeff_sum V = check_sum (\<lambda>x y. DihedralMultiply x y (PolygonSize V)) (\<lambda>x. sPermTable V ! nat x)"

context verhoeff
begin

lemma Permute_eq: "x \<in> {0..<Base V} \<Longrightarrow> Permute x (sPermTable V) (Base V) i = ((\<lambda>x. sPermTable V ! nat x) ^^ i) x"
proof (induction i arbitrary: x)
  case (Suc i)
  from Suc.prems have "x mod Base V = x" by simp
  with Suc.IH [OF perm_range [OF Suc.prems]] show ?case by (simp add: funpow_Suc_right del: funpow.simps(2))
qed simp

lemma CheckLoop_valid:
  "\<lbrakk>c \<in> {0..<Base V}; \<And>ch. ch \<in> set chs \<Longrightarrow> 0 \<le> CharToVal V ch\<rbrakk> \<Longrightarrow> CheckLoop V chs i c = Some (verhoeff_sum V i c (map (CharToVal V) chs))"
proof (induction chs arbitrary: i c)
  case (Cons ch chs)
  let ?v = "CharToVal V ch" and ?p = "((\<lambda>x. sPermTable V ! nat x) ^^ i) (CharToVal V ch)"
  have v: "0 \<le> ?v" "?v \<in> {0..<Base V}" using Cons.prems(2) [of ch] value_bound by simp_all
  have m: "sMultiplyTable V ! nat (c * Base V + ?p) = DihedralMultiply c ?p (PolygonSize V)"
    using table_of_nth [OF Cons.prems(1) perms_range [OF v(2)]] polygon(2) by (simp add: table)
  have "CheckLoop V chs (Suc i) (DihedralMultiply c ?p (PolygonSize V)) =
      Some (verhoeff_sum V (Suc i) (DihedralMultiply c ?p (PolygonSize V)) (map (CharToVal V) chs))"
    by (rule Cons.IH [OF mul_range [OF Cons.prems(1) perms_range [OF v(2)]]]) (simp add: Cons.prems(2))
  moreover have "\<not> ?v < 0" using v(1) by simp
  ultimately show ?case using m by (simp only: CheckLoop.simps Let_def if_False Permute_eq [OF v(2)] verhoeff_sum_def list.map check_sum.simps)
qed (simp add: verhoeff_sum_def)

lemma CheckLoop_invalid: "\<lbrakk>ch \<in> set chs; CharToVal V ch < 0\<rbrakk> \<Longrightarrow> CheckLoop V chs i c = None"
  by (induction chs arbitrary: i c) (auto simp: Let_def)

lemma values_range: "\<lbrakk>\<And>ch. ch \<in> set chs \<Longrightarrow> 0 \<le> CharToVal V ch\<rbrakk> \<Longrightarrow> set (map (CharToVal V) chs) \<subseteq> {0..<Base V}"
  using value_bound by auto

lemma validated:
  assumes "ValidateCheckChar_last V str" "0 \<notin> set str"
  shows "ch \<in> set str \<Longrightarrow> 0 \<le> CharToVal V ch" "verhoeff_sum V 0 0 (map (CharToVal V) (rev str)) = 0"
proof -
  obtain xs k where str: "str = xs @ [k]" using assms(1) by (cases str rule: rev_cases) (auto simp: ValidateCheckChar_last_def)
  have k: "ComputeCheckChar V xs = k" "k \<noteq> 0" using assms str by (auto simp: ValidateCheckChar_last_def ValidateCheckChar_def)
  have valid: "0 \<le> CharToVal V ch" if "ch \<in> set (rev xs)" for ch
  proof (rule ccontr)
    assume "\<not> 0 \<le> CharToVal V ch"
    then show False using CheckLoop_invalid [OF that, of 1 0] k by (simp add: ComputeCheckChar_def)
  qed
  define c where "c = verhoeff_sum V 1 0 (map (CharToVal V) (rev xs))"
  have zero: "0 \<in> {0..<Base V}" using polygon by simp
  have vr: "set (map (CharToVal V) (rev xs)) \<subseteq> {0..<Base V}" by (rule values_range) (rule valid)
  have c: "c \<in> {0..<Base V}" unfolding c_def verhoeff_sum_def by (rule check_sum_range [OF zero vr])
  have "k = ValToChar V (DihedralInvert c (PolygonSize V))"
    using k(1) CheckLoop_valid [where c = 0 and chs = "rev xs" and i = 1] zero valid by (simp add: ComputeCheckChar_def c_def)
  then have vk: "CharToVal V k = DihedralInvert c (PolygonSize V)" using char_value invert_range [OF c] by auto
  have r: "CharToVal V k \<in> {0..<Base V}" using vk invert_range [OF c] by simp
  show "ch \<in> set str \<Longrightarrow> 0 \<le> CharToVal V ch" using valid [of ch] r str by auto
  have "verhoeff_sum V 0 0 (map (CharToVal V) (rev str)) = verhoeff_sum V 1 (DihedralMultiply (CharToVal V k) 0 (PolygonSize V)) (map (CharToVal V) (rev xs))"
    using str by (simp only: verhoeff_sum_def rev_append rev.simps append.simps list.map check_sum.simps funpow.simps id_apply unit [OF r] One_nat_def)
  also have "\<dots> = DihedralMultiply (CharToVal V k) c (PolygonSize V)"
    using check_sum_mul [OF r zero vr, of 1] by (simp add: verhoeff_sum_def c_def)
  also have "\<dots> = 0" using inverse(1) [OF c] vk by simp
  finally show "verhoeff_sum V 0 0 (map (CharToVal V) (rev str)) = 0" .
qed

lemma wrong_character:
  assumes "ValidateCheckChar_last V str" "0 \<notin> set str" "i < length str" "ch \<noteq> 0" "CharToVal V ch \<noteq> CharToVal V (str ! i)"
  shows "\<not> ValidateCheckChar_last V (str[i := ch])"
proof
  assume bad: "ValidateCheckChar_last V (str[i := ch])"
  have z: "0 \<notin> set (str[i := ch])" using assms(2,4) set_update_subset_insert by fastforce
  let ?us = "map (CharToVal V) (rev (drop (Suc i) str))" and ?vs = "map (CharToVal V) (rev (take i str))"
  have s: "map (CharToVal V) (rev str) = ?us @ CharToVal V (str ! i) # ?vs" by (subst id_take_nth_drop [OF assms(3)]) simp
  have s': "map (CharToVal V) (rev (str[i := ch])) = ?us @ CharToVal V ch # ?vs" using assms(3) by (simp add: upd_conv_take_nth_drop)
  have valid: "0 \<le> CharToVal V x" if "x \<in> set str" for x by (rule validated(1) [OF assms(1,2) that])
  have "ch \<in> set (str[i := ch])" using assms(3) by (rule set_update_memI)
  from validated(1) [OF bad z this] have ch: "CharToVal V ch \<in> {0..<Base V}" using value_bound by simp
  have "set ?us \<subseteq> {0..<Base V}" "set ?vs \<subseteq> {0..<Base V}" "CharToVal V (str ! i) \<in> {0..<Base V}"
    using valid value_bound assms(3) by (auto dest: in_set_dropD in_set_takeD)
  moreover have "0 \<in> {0..<Base V}" using polygon by simp
  ultimately show False
    using wrong_value [of 0 ?us "CharToVal V (str ! i)" "CharToVal V ch" ?vs 0] ch assms(5) validated(2) [OF assms(1,2)] validated(2) [OF bad z] s s'
    by (simp add: verhoeff_sum_def)
qed

lemma wrong_neighbours:
  assumes "ValidateCheckChar_last V (us @ x # y # vs)" "0 \<notin> set (us @ x # y # vs)" "CharToVal V x \<noteq> CharToVal V y"
  shows "\<not> ValidateCheckChar_last V (us @ y # x # vs)"
proof
  assume bad: "ValidateCheckChar_last V (us @ y # x # vs)"
  have z: "0 \<notin> set (us @ y # x # vs)" using assms(2) by auto
  have valid: "0 \<le> CharToVal V c" if "c \<in> set (us @ x # y # vs)" for c by (rule validated(1) [OF assms(1,2) that])
  let ?us = "map (CharToVal V) (rev vs)" and ?vs = "map (CharToVal V) (rev us)"
  have "set ?us \<subseteq> {0..<Base V}" "set ?vs \<subseteq> {0..<Base V}" "CharToVal V x \<in> {0..<Base V}" "CharToVal V y \<in> {0..<Base V}"
    using valid value_bound by auto
  moreover have "0 \<in> {0..<Base V}" using polygon by simp
  ultimately show False
    using wrong_order [of 0 ?us "CharToVal V y" "CharToVal V x" ?vs 0] assms(3) validated(2) [OF assms(1,2)] validated(2) [OF bad z]
    by (simp add: verhoeff_sum_def)
qed

end

section \<open>The four classes\<close>

lemma table_bound: "\<lbrakk>list_all (\<lambda>x. x < (b :: int)) xs; i < length xs\<rbrakk> \<Longrightarrow> xs ! i < b"
  by (simp add: list_all_iff)

lemma char_tables:
  "list_all (\<lambda>x. x < 32) sCharToValTable32" "length sCharToValTable32 = 74" "list_all (\<lambda>x. x < 36) sCharToValTable36" "length sCharToValTable36 = 75"
  by (simp_all add: sCharToValTable32_def sCharToValTable36_def)

lemma char_values:
  "list_all (\<lambda>v. CharToVal10 (ValToChar10 v) = v) [0..9]" "list_all (\<lambda>v. CharToVal16 (ValToChar16 v) = v) [0..15]"
  "list_all (\<lambda>v. CharToVal32 (ValToChar32 v) = v) [0..31]" "list_all (\<lambda>v. CharToVal36 (ValToChar36 v) = v) [0..35]"
  by code_simp+

interpretation v10: verhoeff Verhoeff10
proof
  fix ch v
  show "CharToVal Verhoeff10 ch < Base Verhoeff10" by (auto simp: Verhoeff10_def CharToVal10_def word_le_def)
  show "\<lbrakk>0 \<le> v; v < Base Verhoeff10\<rbrakk> \<Longrightarrow> CharToVal Verhoeff10 (ValToChar Verhoeff10 v) = v" using char_values(1) by (simp add: Verhoeff10_def list_all_iff)
qed (simp_all add: Verhoeff10_def tables(1) perms(1) swaps(1) CharToVal10_def, simp add: sPermTable10_def)

interpretation v16: verhoeff Verhoeff16
proof
  fix ch v
  show "CharToVal Verhoeff16 ch < Base Verhoeff16" by (auto simp: Verhoeff16_def CharToVal16_def word_le_def)
  show "\<lbrakk>0 \<le> v; v < Base Verhoeff16\<rbrakk> \<Longrightarrow> CharToVal Verhoeff16 (ValToChar Verhoeff16 v) = v" using char_values(2) by (simp add: Verhoeff16_def list_all_iff)
qed (simp_all add: Verhoeff16_def tables(2) perms(2) swaps(2) CharToVal16_def, simp add: sPermTable16_def)

interpretation v32: verhoeff Verhoeff32
proof
  fix ch v
  show "CharToVal Verhoeff32 ch < Base Verhoeff32" using table_bound [OF char_tables(1), of "unat ch - 48"]
    by (auto simp: Verhoeff32_def CharToVal32_def char_tables word_le_nat_alt)
  show "\<lbrakk>0 \<le> v; v < Base Verhoeff32\<rbrakk> \<Longrightarrow> CharToVal Verhoeff32 (ValToChar Verhoeff32 v) = v" using char_values(3) by (simp add: Verhoeff32_def list_all_iff)
qed (simp_all add: Verhoeff32_def tables(3) perms(3) swaps(3) CharToVal32_def, simp add: sPermTable32_def)

interpretation v36: verhoeff Verhoeff36
proof
  fix ch v
  show "CharToVal Verhoeff36 ch < Base Verhoeff36" using table_bound [OF char_tables(3), of "unat ch - 48"]
    by (auto simp: Verhoeff36_def CharToVal36_def char_tables word_le_nat_alt)
  show "\<lbrakk>0 \<le> v; v < Base Verhoeff36\<rbrakk> \<Longrightarrow> CharToVal Verhoeff36 (ValToChar Verhoeff36 v) = v" using char_values(4) by (simp add: Verhoeff36_def list_all_iff)
qed (simp_all add: Verhoeff36_def tables(4) perms(4) swaps(4) CharToVal36_def, simp add: sPermTable36_def)

text \<open>
  C16. Check characters detect errors.  For each of the four classes, if a string with its check character at the end is valid, then changing
  any one of its characters to one with another value, or exchanging two neighbours with different values, gives a string
  that is not valid, also where the check character itself is concerned.
\<close>

theorem check_characters_detect_errors:
  assumes "V \<in> {Verhoeff10, Verhoeff16, Verhoeff32, Verhoeff36}" "ValidateCheckChar_last V str" "0 \<notin> set str"
  shows "(\<forall>i ch. i < length str \<and> ch \<noteq> 0 \<and> CharToVal V ch \<noteq> CharToVal V (str ! i) \<longrightarrow> \<not> ValidateCheckChar_last V (str[i := ch])) \<and>
    (\<forall>us x y vs. str = us @ x # y # vs \<and> CharToVal V x \<noteq> CharToVal V y \<longrightarrow> \<not> ValidateCheckChar_last V (us @ y # x # vs))"
proof -
  have "verhoeff V" using assms(1) v10.verhoeff_axioms v16.verhoeff_axioms v32.verhoeff_axioms v36.verhoeff_axioms by auto
  from verhoeff.wrong_character [OF this] verhoeff.wrong_neighbours [OF this] show ?thesis using assms(2,3) by blast
qed

theorem check_characters_detect_errors_witness:
  "ValidateCheckChar_last Verhoeff10 [50, 51, 54, 51] \<and> \<not> ValidateCheckChar_last Verhoeff10 [50, 54, 51, 51]"
proof -
  have v: "ValidateCheckChar_last Verhoeff10 [50, 51, 54, 51]" by code_simp
  have "(0 :: u8) \<notin> set [50, 51, 54, 51]" by simp
  from check_characters_detect_errors [OF _ v this] have "\<forall>us x y vs. [50, 51, 54, 51] = us @ x # y # vs \<and> CharToVal Verhoeff10 x \<noteq> CharToVal Verhoeff10 y \<longrightarrow>
    \<not> ValidateCheckChar_last Verhoeff10 (us @ y # x # vs)" by blast
  from spec [OF spec [OF spec [OF spec [OF this, of "[50]"], of 51], of 54], of "[51]"] v show ?thesis
    by (simp add: Verhoeff10_def CharToVal10_def)
qed

end
