(* ===== verification/Pairing_Code.thy ===== *)
theory Pairing_Code
  imports Verhoeff
begin

text \<open>
  Pairing codes: device numbers as base-32 numerals with a check character
  (\<^verbatim>\<open>src/src/lib/support/pairing-code\<close>).  Buffers are lists of bytes, and a string argument is its characters without
  the terminating zero.
\<close>

section \<open>Codes\<close>

abbreviation (input) kPairingCodeLenMin :: nat where "kPairingCodeLenMin \<equiv> 2"
abbreviation (input) kBitsPerCharacter :: nat where "kBitsPerCharacter \<equiv> 5"
abbreviation (input) kCharacterValueMask :: u64 where "kCharacterValueMask \<equiv> 0x1F"
abbreviation (input) kUInt64OverflowMask :: u64 where "kUInt64OverflowMask \<equiv> push_bit 59 kCharacterValueMask"

definition VerifyPairingCode :: "u8 list \<Rightarrow> WEAVE_ERROR" where
  "VerifyPairingCode pairingCode =
     (if length pairingCode < kPairingCodeLenMin then WEAVE_ERROR_INVALID_ARGUMENT
      else if \<not> ValidateCheckChar Verhoeff32 (last pairingCode) (butlast pairingCode) then WEAVE_ERROR_INVALID_ARGUMENT
      else WEAVE_NO_ERROR)"

definition toupper :: "u8 \<Rightarrow> u8" where
  "toupper ch = (if 97 \<le> ch \<and> ch \<le> 122 then ch - 32 else ch)"

text \<open>\<^verbatim>\<open>I\<close> is 73, \<^verbatim>\<open>O\<close> 79, \<^verbatim>\<open>Q\<close> 81 and \<^verbatim>\<open>Z\<close> 90.\<close>

definition NormalizeChar :: "u8 \<Rightarrow> u8" where
  "NormalizeChar ch0 =
     (let ch = toupper ch0 in
      if ch = 73 then 49 else if ch = 79 \<or> ch = 81 then 48 else if ch = 90 then 50 else ch)"

function NormalizeLoop :: "nat \<Rightarrow> nat \<Rightarrow> u8 list \<Rightarrow> nat \<Rightarrow> u8 list \<times> nat" where
  "NormalizeLoop i pairingCodeLen pairingCode newLen =
     (if i < pairingCodeLen
      then
        let ch = NormalizeChar (pairingCode ! i) in
        if CharToVal32 ch < 0 then NormalizeLoop (i + 1) pairingCodeLen pairingCode newLen
        else NormalizeLoop (i + 1) pairingCodeLen (pairingCode[newLen := ch]) (newLen + 1)
      else (pairingCode, newLen))"
  by pat_completeness auto
termination by (relation "measure (\<lambda>(i, n, _). n - i)") auto

declare NormalizeLoop.simps [simp del]

definition NormalizePairingCode :: "u8 list \<Rightarrow> nat \<Rightarrow> u8 list \<times> nat" where
  "NormalizePairingCode pairingCode pairingCodeLen =
     (let (buf, newLen) = NormalizeLoop 0 pairingCodeLen pairingCode 0
      in (if newLen < pairingCodeLen then buf[newLen := 0] else buf, newLen))"

fun EncodeLoop :: "nat \<Rightarrow> u64 \<Rightarrow> u8 list \<Rightarrow> u64 \<times> u8 list" where
  "EncodeLoop 0 val outBuf = (val, outBuf)"
| "EncodeLoop (Suc i) val outBuf =
     EncodeLoop i (drop_bit kBitsPerCharacter val) (outBuf[i := ValToChar32 (uint (val AND kCharacterValueMask))])"

definition IntToPairingCode :: "u64 \<Rightarrow> u8 \<Rightarrow> u8 list \<Rightarrow> WEAVE_ERROR \<times> u8 list" where
  "IntToPairingCode val pairingCodeLen outBuf =
     (let len = unat pairingCodeLen in
      if len < kPairingCodeLenMin then (WEAVE_ERROR_INVALID_ARGUMENT, outBuf)
      else
        let (rest, buf1) = EncodeLoop (len - 1) val outBuf in
        if rest \<noteq> 0 then (WEAVE_ERROR_INVALID_ARGUMENT, buf1)
        else
          let buf2 = buf1[len - 1 := ComputeCheckChar Verhoeff32 (take (len - 1) buf1)]
          in (WEAVE_NO_ERROR, buf2[len := 0]))"

fun DecodeLoop :: "u8 list \<Rightarrow> u64 \<Rightarrow> WEAVE_ERROR \<times> u64" where
  "DecodeLoop [] val = (WEAVE_NO_ERROR, val)"
| "DecodeLoop (ch # rest) val =
     (let chVal = CharToVal32 ch in
      if chVal < 0 then (WEAVE_ERROR_INVALID_ARGUMENT, val)
      else if val AND kUInt64OverflowMask \<noteq> 0 then (WEAVE_ERROR_INVALID_ARGUMENT, val)
      else DecodeLoop rest (push_bit kBitsPerCharacter val OR word_of_int chVal))"

definition PairingCodeToInt :: "u8 list \<Rightarrow> WEAVE_ERROR \<times> u64" where
  "PairingCodeToInt pairingCode =
     (if length pairingCode < kPairingCodeLenMin then (WEAVE_ERROR_INVALID_ARGUMENT, 0)
      else DecodeLoop (butlast pairingCode) 0)"

definition IsValidPairingCodeChar :: "u8 \<Rightarrow> bool" where
  "IsValidPairingCodeChar ch \<longleftrightarrow> CharToVal32 ch \<ge> 0"

section \<open>Device ids\<close>

abbreviation (input) kStandardPairingCodeLength :: nat where "kStandardPairingCodeLength \<equiv> 6"
abbreviation (input) kKryptonitePairingCodeLength :: nat where "kKryptonitePairingCodeLength \<equiv> 9"
abbreviation (input) kKryptoniteDeviceIdBase :: u64 where "kKryptoniteDeviceIdBase \<equiv> 0x18B430C000000000"
abbreviation (input) kKryptoniteDeviceIdMax :: u64 where "kKryptoniteDeviceIdMax \<equiv> 0x18B430CFFFFFFFFF"
abbreviation (input) kNevisDeviceIdBase :: u64 where "kNevisDeviceIdBase \<equiv> 0x18B4300400000000"
abbreviation (input) kNevisDeviceIdMax :: u64 where "kNevisDeviceIdMax \<equiv> 0x18B4300401FFFFFF"

definition KryptonitePairingCodeToDeviceId :: "u8 list \<Rightarrow> u64 \<Rightarrow> WEAVE_ERROR \<times> u64" where
  "KryptonitePairingCodeToDeviceId pairingCode deviceId =
     (if length pairingCode \<noteq> kKryptonitePairingCodeLength then (WEAVE_ERROR_INVALID_ARGUMENT, deviceId)
      else
        let err = VerifyPairingCode pairingCode in
        if err \<noteq> WEAVE_NO_ERROR then (err, deviceId)
        else
          let (err, val) = PairingCodeToInt pairingCode in
          if err \<noteq> WEAVE_NO_ERROR then (err, val) else (WEAVE_NO_ERROR, val + kKryptoniteDeviceIdBase))"

definition KryptoniteDeviceIdToPairingCode :: "u64 \<Rightarrow> u8 list \<Rightarrow> WEAVE_ERROR \<times> u8 list" where
  "KryptoniteDeviceIdToPairingCode deviceId pairingCodeBuf =
     (if \<not> (deviceId \<ge> kKryptoniteDeviceIdBase \<and> deviceId \<le> kKryptoniteDeviceIdMax) then (WEAVE_ERROR_INVALID_ARGUMENT, pairingCodeBuf)
      else if length pairingCodeBuf < kKryptonitePairingCodeLength + 1 then (WEAVE_ERROR_BUFFER_TOO_SMALL, pairingCodeBuf)
      else IntToPairingCode (deviceId - kKryptoniteDeviceIdBase) (of_nat kKryptonitePairingCodeLength) pairingCodeBuf)"

definition NevisPairingCodeToDeviceId :: "u8 list \<Rightarrow> u64 \<Rightarrow> WEAVE_ERROR \<times> u64" where
  "NevisPairingCodeToDeviceId pairingCode deviceId =
     (if length pairingCode \<noteq> kStandardPairingCodeLength then (WEAVE_ERROR_INVALID_ARGUMENT, deviceId)
      else
        let err = VerifyPairingCode pairingCode in
        if err \<noteq> WEAVE_NO_ERROR then (err, deviceId)
        else
          let (err, val) = PairingCodeToInt pairingCode in
          if err \<noteq> WEAVE_NO_ERROR then (err, val) else (WEAVE_NO_ERROR, val + kNevisDeviceIdBase))"

definition NevisDeviceIdToPairingCode :: "u64 \<Rightarrow> u8 list \<Rightarrow> WEAVE_ERROR \<times> u8 list" where
  "NevisDeviceIdToPairingCode deviceId pairingCodeBuf =
     (if \<not> (deviceId \<ge> kNevisDeviceIdBase \<and> deviceId \<le> kNevisDeviceIdMax) then (WEAVE_ERROR_INVALID_ARGUMENT, pairingCodeBuf)
      else if length pairingCodeBuf < kStandardPairingCodeLength + 1 then (WEAVE_ERROR_BUFFER_TOO_SMALL, pairingCodeBuf)
      else IntToPairingCode (deviceId - kNevisDeviceIdBase) (of_nat kStandardPairingCodeLength) pairingCodeBuf)"

section \<open>Digits\<close>

fun digits :: "nat \<Rightarrow> u64 \<Rightarrow> u64 list" where
  "digits 0 val = []"
| "digits (Suc n) val = digits n (drop_bit kBitsPerCharacter val) @ [val AND kCharacterValueMask]"

lemma length_digits [simp]: "length (digits n val) = n"
  by (induction n arbitrary: val) simp_all

lemma EncodeLoop_eq:
  "n \<le> length buf \<Longrightarrow> EncodeLoop n val buf = (drop_bit (5 * n) val, map (\<lambda>d. ValToChar32 (uint d)) (digits n val) @ drop n buf)"
proof (induction n arbitrary: val buf)
  case (Suc n)
  then have "drop n (buf[n := x]) = x # drop (Suc n) buf" for x
    by (simp add: drop_update_swap flip: Cons_nth_drop_Suc)
  with Suc show ?case by (simp add: drop_bit_drop_bit ac_simps)
qed simp

lemma mask_5: "kCharacterValueMask = mask 5"
  by (simp add: mask_eq_exp_minus_1)

lemma digit_value: "CharToVal32 (ValToChar32 (uint (val AND kCharacterValueMask))) = uint (val AND kCharacterValueMask)"
proof -
  have "uint (val AND kCharacterValueMask) < 32" unfolding mask_5 unfolding take_bit_eq_mask [symmetric] unsigned_take_bit_eq using take_bit_int_less_exp [of 5] by simp
  then show ?thesis using v32.char_value [of "uint (val AND kCharacterValueMask)"] by (simp add: Verhoeff32_def)
qed

lemma DecodeLoop_snoc:
  "DecodeLoop (xs @ [ch]) acc = (case DecodeLoop xs acc of (err, val) \<Rightarrow> if err = WEAVE_NO_ERROR then DecodeLoop [ch] val else (err, val))"
  by (induction xs arbitrary: acc) (auto simp: Let_def)

lemma DecodeLoop_digits:
  "DecodeLoop (map (\<lambda>d. ValToChar32 (uint d)) (digits n val)) 0 = (WEAVE_NO_ERROR, take_bit (5 * n) val)"
proof (induction n arbitrary: val)
  case (Suc n)
  let ?v = "take_bit (5 * n) (drop_bit 5 val)"
  have o: "?v AND kUInt64OverflowMask = 0" unfolding mask_5 by (rule bit_word_eqI) (auto simp: bit_simps dest: bit_imp_le_length)
  have "push_bit 5 ?v OR (val AND kCharacterValueMask) = take_bit (5 + 5 * n) val" unfolding mask_5
  proof (rule bit_word_eqI)
    fix m
    assume "m < LENGTH(64)"
    moreover have "5 \<le> m \<Longrightarrow> 5 + (m - 5) = m" "5 \<le> m \<Longrightarrow> m - 5 < 5 * n \<longleftrightarrow> m < 5 + 5 * n" by auto
    ultimately show "bit (push_bit 5 ?v OR (val AND mask 5)) m = bit (take_bit (5 + 5 * n) val) m" by (auto simp: bit_simps)
  qed
  with o Suc [of "drop_bit 5 val"] digit_value [of val] show ?case by (simp add: DecodeLoop_snoc)
qed simp

lemma unat_drop_bit: "unat (drop_bit n (val :: u64)) = unat val div 2 ^ n"
proof -
  have "unat val < 2 ^ LENGTH(64)" by (rule unsigned_less)
  then have "take_bit 64 (unat val) = unat val" by (simp add: take_bit_nat_eq_self)
  then show ?thesis unfolding unsigned_drop_bit_eq by (simp add: drop_bit_eq_div)
qed

lemma take_bit_small: "unat val < 2 ^ n \<Longrightarrow> take_bit n val = (val :: u64)" "unat val < 2 ^ n \<Longrightarrow> drop_bit n val = (0 :: u64)"
proof -
  assume v: "unat val < 2 ^ n"
  show "take_bit n val = val" using v by (simp add: word_unat_eq_iff unsigned_take_bit_eq take_bit_nat_eq_self)
  show "drop_bit n val = 0" using v by (simp only: word_unat_eq_iff unat_drop_bit) simp
qed

lemma drop_bit_large: "\<not> unat val < 2 ^ n \<Longrightarrow> drop_bit n val \<noteq> (0 :: u64)"
  by (simp only: word_unat_eq_iff unat_drop_bit) (simp add: div_eq_0_iff)

text \<open>What \<^verbatim>\<open>IntToPairingCode\<close> leaves in the buffer.\<close>

definition code_of :: "nat \<Rightarrow> u64 \<Rightarrow> u8 list" where
  "code_of len val = (let cs = map (\<lambda>d. ValToChar32 (uint d)) (digits (len - 1) val) in cs @ [ComputeCheckChar Verhoeff32 cs])"

lemma length_code_of [simp]: "0 < len \<Longrightarrow> length (code_of len val) = len"
  by (simp add: code_of_def Let_def)

lemma IntToPairingCode_ok:
  assumes "2 \<le> unat len" "unat len < length buf" "unat val < 2 ^ (5 * (unat len - 1))"
  shows "IntToPairingCode val len buf = (WEAVE_NO_ERROR, code_of (unat len) val @ 0 # drop (Suc (unat len)) buf)"
proof -
  obtain k where k: "unat len = Suc k" using assms(1) by (cases "unat len") auto
  obtain x y ys where d: "drop k buf = x # y # ys" "ys = drop (Suc (Suc k)) buf"
    using assms(2) k by (metis Cons_nth_drop_Suc Suc_lessD)
  show ?thesis using assms k d by (simp add: IntToPairingCode_def EncodeLoop_eq take_bit_small Let_def code_of_def list_update_append)
qed

lemma code_of_ok:
  assumes "2 \<le> len" "unat val < 2 ^ (5 * (len - 1))"
  shows "VerifyPairingCode (code_of len val) = WEAVE_NO_ERROR" "PairingCodeToInt (code_of len val) = (WEAVE_NO_ERROR, val)"
  using assms by (simp_all add: VerifyPairingCode_def PairingCodeToInt_def code_of_def Let_def ValidateCheckChar_def DecodeLoop_digits take_bit_small)

text \<open>
  C26. A number is encoded as a pairing code exactly if it fits: \<^verbatim>\<open>IntToPairingCode\<close> succeeds if and only if the code has room for a digit and the value is less
  than 32 to the number of digits.  The code then has the given length and a terminating zero, leaves the rest of the buffer alone,
  passes \<^verbatim>\<open>VerifyPairingCode\<close>, and \<^verbatim>\<open>PairingCodeToInt\<close> gives the number back.
\<close>

theorem pairing_code_roundtrip:
  assumes "unat len < length buf" "IntToPairingCode val len buf = (err, buf')"
  shows "(err = WEAVE_NO_ERROR \<longleftrightarrow> 2 \<le> unat len \<and> unat val < 32 ^ (unat len - 1)) \<and>
    (err = WEAVE_NO_ERROR \<longrightarrow> (\<exists>code. buf' = code @ 0 # drop (Suc (unat len)) buf \<and> length code = unat len \<and>
       VerifyPairingCode code = WEAVE_NO_ERROR \<and> PairingCodeToInt code = (WEAVE_NO_ERROR, val)))"
proof -
  have p: "(32 :: nat) ^ k = 2 ^ (5 * k)" for k by (simp add: power_mult)
  show ?thesis
  proof (cases "2 \<le> unat len \<and> unat val < 2 ^ (5 * (unat len - 1))")
    case True
    then have b: "err = WEAVE_NO_ERROR" "buf' = code_of (unat len) val @ 0 # drop (Suc (unat len)) buf"
      using IntToPairingCode_ok [of len buf val] assms by auto
    with True code_of_ok [of "unat len" val] show ?thesis unfolding p by auto
  next
    case False
    then have "err = WEAVE_ERROR_INVALID_ARGUMENT"
      using assms drop_bit_large [of val "5 * (unat len - 1)"] by (auto simp: IntToPairingCode_def Let_def EncodeLoop_eq split: if_splits)
    with False show ?thesis unfolding p by auto
  qed
qed

theorem pairing_code_roundtrip_witness:
  "\<exists>buf' code. IntToPairingCode 4711 6 (replicate 8 7) = (WEAVE_NO_ERROR, buf') \<and> buf' = code @ [0, 7] \<and> length code = 6 \<and>
     VerifyPairingCode code = WEAVE_NO_ERROR \<and> PairingCodeToInt code = (WEAVE_NO_ERROR, 4711)"
proof -
  obtain err buf' where e: "IntToPairingCode 4711 6 (replicate 8 7) = (err, buf')" by fastforce
  have "unat (6 :: u8) < length (replicate 8 (7 :: u8))" by simp
  from pairing_code_roundtrip [OF this e] show ?thesis using e by auto
qed

text \<open>
  Device ids and their codes correspond: for both products, a device id in the range of the product and a buffer of sufficient size give a code from which
  exactly this device id is decoded, whatever was in the buffer; a device id outside the range is refused.
\<close>

theorem device_id_roundtrip:
  shows "(case KryptoniteDeviceIdToPairingCode deviceId buf of (err, buf') \<Rightarrow>
      if deviceId < kKryptoniteDeviceIdBase \<or> kKryptoniteDeviceIdMax < deviceId then err = WEAVE_ERROR_INVALID_ARGUMENT
      else if length buf < 10 then err = WEAVE_ERROR_BUFFER_TOO_SMALL
      else err = WEAVE_NO_ERROR \<and> buf' ! 9 = 0 \<and> KryptonitePairingCodeToDeviceId (take 9 buf') x = (WEAVE_NO_ERROR, deviceId)) \<and>
    (case NevisDeviceIdToPairingCode deviceId buf of (err, buf') \<Rightarrow>
      if deviceId < kNevisDeviceIdBase \<or> kNevisDeviceIdMax < deviceId then err = WEAVE_ERROR_INVALID_ARGUMENT
      else if length buf < 7 then err = WEAVE_ERROR_BUFFER_TOO_SMALL
      else err = WEAVE_NO_ERROR \<and> buf' ! 6 = 0 \<and> NevisPairingCodeToDeviceId (take 6 buf') x = (WEAVE_NO_ERROR, deviceId))"
proof -
  have k: "unat (deviceId - kKryptoniteDeviceIdBase) < 2 ^ (5 * (9 - 1))" if "kKryptoniteDeviceIdBase \<le> deviceId" "deviceId \<le> kKryptoniteDeviceIdMax"
    using that by (simp add: unat_sub word_le_nat_alt)
  have n: "unat (deviceId - kNevisDeviceIdBase) < 2 ^ (5 * (6 - 1))" if "kNevisDeviceIdBase \<le> deviceId" "deviceId \<le> kNevisDeviceIdMax"
    using that by (simp add: unat_sub word_le_nat_alt)
  show ?thesis
  proof (rule conjI)
    show "case KryptoniteDeviceIdToPairingCode deviceId buf of (err, buf') \<Rightarrow>
      if deviceId < kKryptoniteDeviceIdBase \<or> kKryptoniteDeviceIdMax < deviceId then err = WEAVE_ERROR_INVALID_ARGUMENT
      else if length buf < 10 then err = WEAVE_ERROR_BUFFER_TOO_SMALL
      else err = WEAVE_NO_ERROR \<and> buf' ! 9 = 0 \<and> KryptonitePairingCodeToDeviceId (take 9 buf') x = (WEAVE_NO_ERROR, deviceId)"
    proof (cases "kKryptoniteDeviceIdBase \<le> deviceId \<and> deviceId \<le> kKryptoniteDeviceIdMax \<and> 10 \<le> length buf")
      case True
      then have v: "unat (deviceId - kKryptoniteDeviceIdBase) < 2 ^ (5 * (9 - 1))" using k by blast
      have "IntToPairingCode (deviceId - kKryptoniteDeviceIdBase) 9 buf = (WEAVE_NO_ERROR, code_of 9 (deviceId - kKryptoniteDeviceIdBase) @ 0 # drop 10 buf)"
        using IntToPairingCode_ok [of 9 buf "deviceId - kKryptoniteDeviceIdBase"] v True by simp
      then show ?thesis using True code_of_ok [OF _ v]
        by (simp add: KryptoniteDeviceIdToPairingCode_def KryptonitePairingCodeToDeviceId_def nth_append not_less)
    qed (auto simp: KryptoniteDeviceIdToPairingCode_def not_le)
    show "case NevisDeviceIdToPairingCode deviceId buf of (err, buf') \<Rightarrow>
      if deviceId < kNevisDeviceIdBase \<or> kNevisDeviceIdMax < deviceId then err = WEAVE_ERROR_INVALID_ARGUMENT
      else if length buf < 7 then err = WEAVE_ERROR_BUFFER_TOO_SMALL
      else err = WEAVE_NO_ERROR \<and> buf' ! 6 = 0 \<and> NevisPairingCodeToDeviceId (take 6 buf') x = (WEAVE_NO_ERROR, deviceId)"
    proof (cases "kNevisDeviceIdBase \<le> deviceId \<and> deviceId \<le> kNevisDeviceIdMax \<and> 7 \<le> length buf")
      case True
      then have v: "unat (deviceId - kNevisDeviceIdBase) < 2 ^ (5 * (6 - 1))" using n by blast
      have "IntToPairingCode (deviceId - kNevisDeviceIdBase) 6 buf = (WEAVE_NO_ERROR, code_of 6 (deviceId - kNevisDeviceIdBase) @ 0 # drop 7 buf)"
        using IntToPairingCode_ok [of 6 buf "deviceId - kNevisDeviceIdBase"] v True by simp
      then show ?thesis using True code_of_ok [OF _ v]
        by (simp add: NevisDeviceIdToPairingCode_def NevisPairingCodeToDeviceId_def nth_append not_less)
    qed (auto simp: NevisDeviceIdToPairingCode_def not_le)
  qed
qed

section \<open>Normalization\<close>

lemma NormalizeLoop_eq:
  assumes "i \<le> n" "n \<le> length buf0" "k \<le> i" "length buf = length buf0" "drop i buf = drop i buf0"
    "take k buf = filter (\<lambda>ch. 0 \<le> CharToVal32 ch) (map NormalizeChar (take i buf0))"
  shows "\<exists>buf' k'. NormalizeLoop i n buf k = (buf', k') \<and> k' \<le> n \<and> length buf' = length buf0 \<and> drop n buf' = drop n buf0 \<and>
    take k' buf' = filter (\<lambda>ch. 0 \<le> CharToVal32 ch) (map NormalizeChar (take n buf0))"
  using assms
proof (induction i n buf k rule: NormalizeLoop.induct)
  case (1 i n buf k)
  show ?case
  proof (cases "i < n")
    case True
    let ?ch = "NormalizeChar (buf ! i)"
    have i: "i < length buf0" using True 1(4) by simp
    then have bi: "buf ! i = buf0 ! i" "drop (Suc i) buf = drop (Suc i) buf0" using 1(6,7) by (metis Cons_nth_drop_Suc list.inject)+
    have t: "take (Suc i) buf0 = take i buf0 @ [buf0 ! i]" using i by (simp add: take_Suc_conv_app_nth)
    show ?thesis
    proof (cases "CharToVal32 ?ch < 0")
      case neg: True
      then have "NormalizeLoop i n buf k = NormalizeLoop (i + 1) n buf k" using True by (subst NormalizeLoop.simps) simp
      then show ?thesis using 1(1) [OF True refl neg] 1(3-8) True bi t neg by simp
    next
      case pos: False
      then have e: "NormalizeLoop i n buf k = NormalizeLoop (i + 1) n (buf[k := ?ch]) (k + 1)" using True by (subst NormalizeLoop.simps) (simp add: Let_def)
      have "k < length buf" using 1(5,6) i by simp
      then have "take (Suc k) (buf[k := ?ch]) = take k buf @ [?ch]" by (simp add: take_Suc_conv_app_nth)
      moreover have "drop (Suc i) (buf[k := ?ch]) = drop (Suc i) buf0" using 1(5) bi(2) by simp
      ultimately show ?thesis using 1(2) [OF True refl pos] 1(3-8) True bi t pos e by simp
    qed
  next
    case False
    then have "NormalizeLoop i n buf k = (buf, k)" by (subst NormalizeLoop.simps) simp
    then show ?thesis using 1(3-8) False by simp
  qed
qed

text \<open>
  Normalizing in place leaves, in front of the buffer, the characters of the code in upper case, with look-alikes replaced and all
  others dropped.
\<close>

theorem normalized_code:
  assumes "n \<le> length buf" "NormalizePairingCode buf n = (buf', k)"
  shows "take k buf' = filter (\<lambda>ch. 0 \<le> CharToVal32 ch) (map NormalizeChar (take n buf)) \<and> k \<le> n \<and> drop n buf' = drop n buf"
proof -
  obtain b where b: "NormalizeLoop 0 n buf 0 = (b, k)" "k \<le> n" "length b = length buf" "drop n b = drop n buf"
    "take k b = filter (\<lambda>ch. 0 \<le> CharToVal32 ch) (map NormalizeChar (take n buf))"
    using NormalizeLoop_eq [of 0 n buf 0 buf] assms by (auto simp: NormalizePairingCode_def split: prod.splits)
  have "buf' = (if k < n then b[k := 0] else b)" using assms(2) b(1) by (simp add: NormalizePairingCode_def)
  then show ?thesis using b by auto
qed

text \<open>Two gaps: a code with an invalid character passes if its check character is a zero byte, and a Kryptonite code can stand for more than the ids of the product.\<close>

lemma invalid_code_verified: "VerifyPairingCode [33, 0] = WEAVE_NO_ERROR"
  by (simp add: VerifyPairingCode_def ValidateCheckChar_def ComputeCheckChar_def CharToVal32_def Verhoeff32_def)

lemma kryptonite_code_out_of_range:
  "KryptonitePairingCodeToDeviceId (code_of 9 0x1000000000) x = (WEAVE_NO_ERROR, kKryptoniteDeviceIdMax + 1)"
  using code_of_ok [of 9 "0x1000000000"] by (simp add: KryptonitePairingCodeToDeviceId_def)

end
