(* ===== verification/Asn1_Writer.thy ===== *)
theory Asn1_Writer
  imports Weave_Prelude
begin

text \<open>
  The ASN.1 writer (\<^verbatim>\<open>src/src/lib/support/ASN1Writer.cpp\<close>).  A pointer into the buffer is an offset from \<^verbatim>\<open>mBuf\<close>.
  The list of length fields still to be filled in grows downwards from the end of the buffer; the model keeps its entries, newest
  first, apart from the bytes, and computes the address where they begin.  An entry is \<open>None\<close> while its cell has not been written.
  A write that would reach these cells, or the memory behind the buffer, is the error \<open>ASN1_MEMORY_FAULT\<close>, which is no code of the source.
\<close>

section \<open>Errors\<close>

datatype ASN1_ERROR =
    ASN1_NO_ERROR
  | ASN1_END
  | ASN1_ERROR_UNDERRUN
  | ASN1_ERROR_OVERFLOW
  | ASN1_ERROR_INVALID_STATE
  | ASN1_ERROR_MAX_DEPTH_EXCEEDED
  | ASN1_ERROR_INVALID_ENCODING
  | ASN1_ERROR_UNSUPPORTED_ENCODING
  | ASN1_ERROR_TAG_OVERFLOW
  | ASN1_ERROR_LENGTH_OVERFLOW
  | ASN1_ERROR_VALUE_OVERFLOW
  | ASN1_ERROR_UNKNOWN_OBJECT_ID
  | ASN1_MEMORY_FAULT

definition asn1_then :: "ASN1_ERROR \<times> 's \<Rightarrow> ('s \<Rightarrow> ASN1_ERROR \<times> 's) \<Rightarrow> ASN1_ERROR \<times> 's" where
  "asn1_then res k = (case res of (err, s) \<Rightarrow> if err = ASN1_NO_ERROR then k s else (err, s))"

lemma asn1_then_ok [simp]: "asn1_then (ASN1_NO_ERROR, s) k = k s"
  by (simp add: asn1_then_def)

lemma asn1_then_err [simp]: "err \<noteq> ASN1_NO_ERROR \<Longrightarrow> asn1_then (err, s) k = (err, s)"
  by (simp add: asn1_then_def)

section \<open>State\<close>

record ASN1Writer =
  mBuf :: "u8 list"
  mBufEnd :: int
  mWritePoint :: nat
  mDeferredLengthList :: "nat option list"
  pointerSize :: nat

text \<open>\<open>address\<close> is the address of the buffer, on which the alignment of its end depends.\<close>

definition InitWriter :: "nat \<Rightarrow> nat \<Rightarrow> u8 list \<Rightarrow> ASN1Writer" where
  "InitWriter pointerSz address buf =
     \<lparr>mBuf = buf, mBufEnd = int (4 * ((address + length buf) div 4)) - int address, mWritePoint = 0,
      mDeferredLengthList = [], pointerSize = pointerSz\<rparr>"

definition listStart :: "ASN1Writer \<Rightarrow> int" where
  "listStart w = mBufEnd w - int (pointerSize w * length (mDeferredLengthList w))"

definition store :: "u8 list \<Rightarrow> nat \<Rightarrow> u8 list \<Rightarrow> u8 list" where
  "store m p bs = take p m @ bs @ drop (p + length bs) m"

definition memmove :: "u8 list \<Rightarrow> nat \<Rightarrow> nat \<Rightarrow> nat \<Rightarrow> u8 list" where
  "memmove m dst src n = store m dst (take n (drop src m))"

text \<open>Bytes copied to the write point, which moves behind them.\<close>

definition writeBytes :: "ASN1Writer \<Rightarrow> u8 list \<Rightarrow> ASN1_ERROR \<times> ASN1Writer" where
  "writeBytes w bs =
     (if int (mWritePoint w + length bs) \<le> listStart w
      then (ASN1_NO_ERROR, w\<lparr>mBuf := store (mBuf w) (mWritePoint w) bs, mWritePoint := mWritePoint w + length bs\<rparr>)
      else (ASN1_MEMORY_FAULT, w))"

section \<open>Heads and lengths\<close>

definition GetLengthOfLength :: "int \<Rightarrow> nat" where
  "GetLengthOfLength len =
     (if len = -1 then 5 else if len < 128 then 1 else if len < 256 then 2 else if len < 65536 then 3
      else if len < 2 ^ 24 then 4 else 5)"

text \<open>The loop fills the bytes of the length from the last to the first.\<close>

fun lengthBytes :: "nat \<Rightarrow> int \<Rightarrow> u8 list" where
  "lengthBytes 0 lenToEncode = []"
| "lengthBytes (Suc n) lenToEncode = lengthBytes n (lenToEncode div 256) @ [word_of_int lenToEncode]"

definition EncodeLength :: "nat \<Rightarrow> int \<Rightarrow> u8 list" where
  "EncodeLength lenOfLen lenToEncode =
     (if lenOfLen = 1 then [word_of_int lenToEncode]
      else (0x80 OR of_nat (lenOfLen - 1)) # lengthBytes (lenOfLen - 1) lenToEncode)"

definition tagByte :: "u8 \<Rightarrow> u32 \<Rightarrow> bool \<Rightarrow> u8" where
  "tagByte cls tag isConstructed = cls OR (if isConstructed then 0x20 else 0) OR ucast tag"

definition EncodeHead :: "ASN1Writer \<Rightarrow> u8 \<Rightarrow> u32 \<Rightarrow> bool \<Rightarrow> int \<Rightarrow> ASN1_ERROR \<times> ASN1Writer" where
  "EncodeHead w cls tag isConstructed len =
     (if tag \<ge> 0x1F then (ASN1_ERROR_UNSUPPORTED_ENCODING, w)
      else
        let lenOfLen = GetLengthOfLength len;
            w1 = (if len = -1 then w\<lparr>mDeferredLengthList := None # mDeferredLengthList w\<rparr> else w);
            totalLen = (word_of_int (1 + int lenOfLen + (if len \<noteq> -1 then len else 0)) :: u16)
        in if int (mWritePoint w1) + uint totalLen > listStart w1 then (ASN1_ERROR_OVERFLOW, w1)
        else asn1_then (writeBytes w1 [tagByte cls tag isConstructed]) (\<lambda>w2.
          if len \<noteq> -1 then writeBytes w2 (EncodeLength lenOfLen len)
          else (ASN1_NO_ERROR,
                w2\<lparr>mBuf := store (mBuf w2) (mWritePoint w2) [0xFF],
                   mDeferredLengthList := Some (mWritePoint w2) # tl (mDeferredLengthList w2),
                   mWritePoint := mWritePoint w2 + lenOfLen\<rparr>)))"

definition fieldLen :: "u8 \<Rightarrow> nat" where
  "fieldLen lenFieldFirstByte = (if lenFieldFirstByte < 128 then 1 else unat (lenFieldFirstByte AND 0x7F) + 1)"

text \<open>The scan of the list of deferred lengths, from its newest entry on; \<open>lenAdj\<close> is subtracted in 32 bits at the end.\<close>

fun scanDeferred :: "u8 list \<Rightarrow> nat \<Rightarrow> nat option list \<Rightarrow> int \<Rightarrow> ASN1_ERROR \<times> u8 list" where
  "scanDeferred m wp [] lenAdj = (ASN1_ERROR_INVALID_STATE, m)"
| "scanDeferred m wp (None # entries) lenAdj = (ASN1_MEMORY_FAULT, m)"
| "scanDeferred m wp (Some lenField # entries) lenAdj =
     (if m ! lenField = 0xFF then
        let elemLen = (word_of_int (int wp - int lenField - lenAdj) :: u32) in
        if uint elemLen > 2 ^ 31 - 1 then (ASN1_ERROR_LENGTH_OVERFLOW, m)
        else (ASN1_NO_ERROR, store m lenField (EncodeLength (GetLengthOfLength (uint elemLen)) (uint elemLen)))
      else scanDeferred m wp entries (lenAdj + (5 - int (fieldLen (m ! lenField)))))"

definition WriteDeferredLength :: "ASN1Writer \<Rightarrow> ASN1_ERROR \<times> ASN1Writer" where
  "WriteDeferredLength w =
     (let (err, m) = scanDeferred (mBuf w) (mWritePoint w) (mDeferredLengthList w) 5 in (err, w\<lparr>mBuf := m\<rparr>))"

section \<open>Values\<close>

text \<open>The value is the \<^verbatim>\<open>valLen\<close> bytes at \<^verbatim>\<open>val\<close>; as \<^verbatim>\<open>valLen\<close> has 16 bits, they are fewer than 65536.\<close>

definition PutValue :: "ASN1Writer \<Rightarrow> u8 \<Rightarrow> u32 \<Rightarrow> bool \<Rightarrow> u8 list \<Rightarrow> ASN1_ERROR \<times> ASN1Writer" where
  "PutValue w cls tag isConstructed val =
     asn1_then (EncodeHead w cls tag isConstructed (int (length val))) (\<lambda>w1. writeBytes w1 val)"

primrec to_be :: "nat \<Rightarrow> 'a::len word \<Rightarrow> u8 list" where
  "to_be 0 v = []"
| "to_be (Suc n) v = ucast (drop_bit (8 * n) v) # to_be n v"

text \<open>The first byte of the shortest two's complement encoding: the loop over \<^verbatim>\<open>valStart\<close>.\<close>

fun dropSignBytes :: "u8 list \<Rightarrow> u8 list" where
  "dropSignBytes (a # b # bs) =
     (if a = 0 \<and> b AND 0x80 = 0 then dropSignBytes (b # bs)
      else if a = 0xFF \<and> b AND 0x80 = 0x80 then dropSignBytes (b # bs)
      else a # b # bs)"
| "dropSignBytes bs = bs"

definition integerBytes :: "u64 \<Rightarrow> u8 list" where
  "integerBytes val = dropSignBytes (to_be 8 val)"

definition PutInteger :: "ASN1Writer \<Rightarrow> u64 \<Rightarrow> ASN1_ERROR \<times> ASN1Writer" where
  "PutInteger w val = PutValue w 0 2 False (integerBytes val)"

definition PutBoolean_asn1 :: "ASN1Writer \<Rightarrow> bool \<Rightarrow> ASN1_ERROR \<times> ASN1Writer" where
  "PutBoolean_asn1 w val = asn1_then (EncodeHead w 0 1 False 1) (\<lambda>w1. writeBytes w1 [if val then 0xFF else 0])"

definition PutObjectId :: "ASN1Writer \<Rightarrow> u8 list \<Rightarrow> ASN1_ERROR \<times> ASN1Writer" where
  "PutObjectId w val = PutValue w 0 6 False val"

definition PutString_asn1 :: "ASN1Writer \<Rightarrow> u32 \<Rightarrow> u8 list \<Rightarrow> ASN1_ERROR \<times> ASN1Writer" where
  "PutString_asn1 w tag val = PutValue w 0 tag False val"

definition PutOctetString :: "ASN1Writer \<Rightarrow> u8 list \<Rightarrow> ASN1_ERROR \<times> ASN1Writer" where
  "PutOctetString w val = PutValue w 0 4 False val"

definition PutTaggedOctetString :: "ASN1Writer \<Rightarrow> u8 \<Rightarrow> u32 \<Rightarrow> u8 list \<Rightarrow> ASN1_ERROR \<times> ASN1Writer" where
  "PutTaggedOctetString w cls tag val = PutValue w cls tag False val"

definition ReverseBits :: "u8 \<Rightarrow> u8" where
  "ReverseBits v =
     (let v = (drop_bit 1 v AND 0x55) OR push_bit 1 (v AND 0x55);
          v = (drop_bit 2 v AND 0x33) OR push_bit 2 (v AND 0x33)
      in drop_bit 4 v OR push_bit 4 v)"

definition HighestBit :: "u32 \<Rightarrow> u8" where
  "HighestBit v =
     (let (h, v) = (if v > 0xFFFF then (16, drop_bit 16 v) else (0 :: u32, v));
          (h, v) = (if v > 0xFF then (h OR 8, drop_bit 8 v) else (h, v));
          (h, v) = (if v > 0xF then (h OR 4, drop_bit 4 v) else (h, v));
          (h, v) = (if v > 0x3 then (h OR 2, drop_bit 2 v) else (h, v))
      in ucast (h OR drop_bit 1 v))"

definition bitStringLen :: "u32 \<Rightarrow> nat" where
  "bitStringLen val =
     (if val = 0 then 1 else if val < 256 then 2 else if val < 65536 then 3 else if val < 2 ^ 24 then 4 else 5)"

text \<open>\<^verbatim>\<open>val\<close> is shifted as its bytes are written; the count of unused bits is taken from what is left of it.\<close>

definition bitStringBytes :: "u32 \<Rightarrow> u8 list" where
  "bitStringBytes val =
     (let len = bitStringLen val in
      if val = 0 then [0]
      else (7 - HighestBit (drop_bit (8 * (len - 2)) val)) #
           map (\<lambda>i. ReverseBits (ucast (drop_bit (8 * i) val))) [0..<len - 1])"

definition PutBitString :: "ASN1Writer \<Rightarrow> u32 \<Rightarrow> ASN1_ERROR \<times> ASN1Writer" where
  "PutBitString w val =
     asn1_then (EncodeHead w 0 3 False (int (bitStringLen val))) (\<lambda>w1. writeBytes w1 (bitStringBytes val))"

definition PutEncodedBitString :: "ASN1Writer \<Rightarrow> u8 \<Rightarrow> u8 list \<Rightarrow> ASN1_ERROR \<times> ASN1Writer" where
  "PutEncodedBitString w unusedBitCount encodedBits =
     asn1_then (EncodeHead w 0 3 False (int (length encodedBits) + 1)) (\<lambda>w1.
     asn1_then (writeBytes w1 [unusedBitCount]) (\<lambda>w2. writeBytes w2 encodedBits))"

record ASN1UniversalTime =
  tYear :: u16
  tMonth :: u8
  tDay :: u8
  tHour :: u8
  tMinute :: u8
  tSecond :: u8

definition itoa2 :: "nat \<Rightarrow> u8 list" where
  "itoa2 val = [of_nat (48 + val div 10 mod 10), of_nat (48 + val mod 10)]"

definition timeBytes :: "ASN1UniversalTime \<Rightarrow> u8 list" where
  "timeBytes val =
     itoa2 (unat (tYear val) div 100) @ itoa2 (unat (tYear val)) @ itoa2 (unat (tMonth val)) @ itoa2 (unat (tDay val)) @
     itoa2 (unat (tHour val)) @ itoa2 (unat (tMinute val)) @ itoa2 (unat (tSecond val)) @ [90]"

definition PutTime :: "ASN1Writer \<Rightarrow> ASN1UniversalTime \<Rightarrow> ASN1_ERROR \<times> ASN1Writer" where
  "PutTime w val =
     (if tYear val \<ge> 2050 then PutValue w 0 24 False (timeBytes val) else PutValue w 0 23 False (drop 2 (timeBytes val)))"

definition PutNull_asn1 :: "ASN1Writer \<Rightarrow> ASN1_ERROR \<times> ASN1Writer" where
  "PutNull_asn1 w = EncodeHead w 0 5 False 0"

section \<open>Containers\<close>

definition StartConstructedType :: "ASN1Writer \<Rightarrow> u8 \<Rightarrow> u32 \<Rightarrow> ASN1_ERROR \<times> ASN1Writer" where
  "StartConstructedType w cls tag = EncodeHead w cls tag True (-1)"

definition EndConstructedType :: "ASN1Writer \<Rightarrow> ASN1_ERROR \<times> ASN1Writer" where
  "EndConstructedType w = WriteDeferredLength w"

definition StartEncapsulatedType :: "ASN1Writer \<Rightarrow> u8 \<Rightarrow> u32 \<Rightarrow> bool \<Rightarrow> ASN1_ERROR \<times> ASN1Writer" where
  "StartEncapsulatedType w cls tag bitStringEncoding =
     asn1_then (EncodeHead w cls tag False (-1)) (\<lambda>w1.
       if bitStringEncoding
       then if int (mWritePoint w1) = listStart w1 then (ASN1_ERROR_OVERFLOW, w1) else writeBytes w1 [0]
       else (ASN1_NO_ERROR, w1))"

definition EndEncapsulatedType :: "ASN1Writer \<Rightarrow> ASN1_ERROR \<times> ASN1Writer" where
  "EndEncapsulatedType w = WriteDeferredLength w"

section \<open>Compaction\<close>

text \<open>The loop of \<^verbatim>\<open>Finalize\<close> over the entries from the oldest on; it returns the memory, \<^verbatim>\<open>compactPoint\<close> and \<^verbatim>\<open>spanStart\<close>.\<close>

fun compactLoop :: "u8 list \<Rightarrow> nat \<Rightarrow> nat \<Rightarrow> nat option list \<Rightarrow> ASN1_ERROR \<times> u8 list \<times> nat \<times> nat" where
  "compactLoop m compactPoint spanStart [] = (ASN1_NO_ERROR, m, compactPoint, spanStart)"
| "compactLoop m compactPoint spanStart (None # entries) = (ASN1_MEMORY_FAULT, m, compactPoint, spanStart)"
| "compactLoop m compactPoint spanStart (Some lenField # entries) =
     (if m ! lenField = 0xFF then (ASN1_ERROR_INVALID_STATE, m, compactPoint, spanStart)
      else
        let spanEnd = lenField + fieldLen (m ! lenField) in
        if spanStart = compactPoint then compactLoop m spanEnd (lenField + 5) entries
        else
          let spanLen = spanEnd - spanStart in
          compactLoop (memmove m compactPoint spanStart spanLen) (compactPoint + spanLen) (lenField + 5) entries)"

definition Finalize :: "ASN1Writer \<Rightarrow> ASN1_ERROR \<times> ASN1Writer" where
  "Finalize w =
     (let (err, m, compactPoint, spanStart) = compactLoop (mBuf w) 0 0 (rev (mDeferredLengthList w)) in
      if err \<noteq> ASN1_NO_ERROR then (err, w\<lparr>mBuf := m\<rparr>)
      else if spanStart > compactPoint then
        let spanLen = mWritePoint w - spanStart in
        (ASN1_NO_ERROR, w\<lparr>mBuf := memmove m compactPoint spanStart spanLen, mWritePoint := compactPoint + spanLen\<rparr>)
      else (ASN1_NO_ERROR, w\<lparr>mBuf := m, mWritePoint := compactPoint\<rparr>))"

definition GetLengthWritten_asn1 :: "ASN1Writer \<Rightarrow> u16" where
  "GetLengthWritten_asn1 w = of_nat (mWritePoint w)"

end
