(* ===== verification/Asn1_Deferred.thy ===== *)
theory Asn1_Deferred
  imports Asn1_Writer
begin

text \<open>
  The deferred lengths of the ASN.1 writer: the reference for the length of DER, the memory between two calls as a sequence of
  spans and length fields (the relation \<open>holds\<close>), what starting and ending an element do to it, and that compaction leaves the
  spans with the final form of the fields.
\<close>

section \<open>Lengths in DER\<close>

text \<open>The reference: the definite length of DER, in one byte below 128 and otherwise in as few bytes as it needs.\<close>

fun be_bytes :: "nat \<Rightarrow> u8 list" where
  "be_bytes n = (if n = 0 then [] else be_bytes (n div 256) @ [of_nat n])"

declare be_bytes.simps [simp del]

definition der_length :: "nat \<Rightarrow> u8 list" where
  "der_length n = (if n < 128 then [of_nat n] else of_nat (128 + length (be_bytes n)) # be_bytes n)"

lemma lengthBytes_be_bytes:
  "\<lbrakk>n < 256 ^ k; 0 < k \<Longrightarrow> 256 ^ (k - 1) \<le> n\<rbrakk> \<Longrightarrow> lengthBytes k (int n) = be_bytes n"
proof (induction k arbitrary: n)
  case 0
  then show ?case by (simp add: be_bytes.simps)
next
  case (Suc k)
  have le: "256 ^ k \<le> n" using Suc.prems(2) by simp
  then have n0: "n \<noteq> 0" by (metis not_less zero_less_numeral zero_less_power)
  have "lengthBytes k (int (n div 256)) = be_bytes (n div 256)"
  proof (rule Suc.IH)
    show "n div 256 < 256 ^ k" using Suc.prems(1) by (simp add: less_mult_imp_div_less mult.commute)
    show "256 ^ (k - 1) \<le> n div 256" if "0 < k"
    proof -
      have "256 ^ (k - 1) * 256 \<le> n" using le that by (simp add: power_eq_if mult.commute)
      then show ?thesis by (simp add: less_eq_div_iff_mult_less_eq)
    qed
  qed
  then show ?case using n0 by (subst be_bytes.simps) (simp add: zdiv_int)
qed

lemma length_lengthBytes [simp]: "length (lengthBytes k v) = k"
  by (induction k arbitrary: v) auto

lemma GetLengthOfLength_long: "128 \<le> n \<Longrightarrow> n < 2 ^ 32 \<Longrightarrow>
   n < 256 ^ (GetLengthOfLength (int n) - 1) \<and> 256 ^ (GetLengthOfLength (int n) - 1 - 1) \<le> n \<and> 1 < GetLengthOfLength (int n)
   \<and> GetLengthOfLength (int n) \<le> 5"
  by (auto simp: GetLengthOfLength_def)

lemma marker_byte: "1 < k \<Longrightarrow> k \<le> 5 \<Longrightarrow> (0x80 OR of_nat (k - 1) :: u8) = of_nat (128 + (k - 1))"
proof -
  assume "1 < k" "k \<le> 5"
  then have "k = 2 \<or> k = 3 \<or> k = 4 \<or> k = 5" by auto
  then show ?thesis by auto
qed

lemma EncodeLength_der:
  assumes "n < 2 ^ 32"
  shows "EncodeLength (GetLengthOfLength (int n)) (int n) = der_length n"
proof (cases "n < 128")
  case True
  then show ?thesis by (simp add: EncodeLength_def GetLengthOfLength_def der_length_def)
next
  case False
  define k where "k = GetLengthOfLength (int n)"
  have k: "n < 256 ^ (k - 1)" "256 ^ (k - 1 - 1) \<le> n" "1 < k" "k \<le> 5"
    using GetLengthOfLength_long [of n] False assms unfolding k_def by auto
  have b: "lengthBytes (k - 1) (int n) = be_bytes n" using k by (intro lengthBytes_be_bytes) auto
  then have "length (be_bytes n) = k - 1" by (metis length_lengthBytes)
  then show ?thesis
    using k(3,4) b False marker_byte [of k] unfolding EncodeLength_def k_def [symmetric] der_length_def by auto
qed

lemma length_der_length:
  assumes "n < 2 ^ 32"
  shows "length (der_length n) = GetLengthOfLength (int n)"
proof -
  have "length (EncodeLength k v) = k" if "0 < k" for k v using that by (auto simp: EncodeLength_def)
  then show ?thesis using EncodeLength_der [OF assms] by (metis GetLengthOfLength_def zero_less_numeral zero_less_one)
qed

lemma der_length_first:
  assumes "n < 2 ^ 32"
  shows "der_length n ! 0 \<noteq> 0xFF" and "fieldLen (der_length n ! 0) = length (der_length n)"
proof -
  have "der_length n ! 0 \<noteq> 0xFF \<and> fieldLen (der_length n ! 0) = length (der_length n)"
  proof (cases "n < 128")
    case True
    have b: "uint (of_nat n :: u8) = int n" using True by (simp add: uint_nat unat_of_nat take_bit_nat_eq_self)
    have "(of_nat n :: u8) < 128" using b True by (simp add: word_less_def)
    moreover have "(of_nat n :: u8) \<noteq> 0xFF" using calculation by auto
    ultimately show ?thesis using True by (simp add: der_length_def fieldLen_def)
  next
    case False
    define k where "k = GetLengthOfLength (int n)"
    have k: "1 < k" "k \<le> 5" using GetLengthOfLength_long [of n] False assms unfolding k_def by auto
    have l: "length (be_bytes n) = k - 1"
      using length_der_length [OF assms] False unfolding k_def der_length_def by auto
    have "k = 2 \<or> k = 3 \<or> k = 4 \<or> k = 5" using k by auto
    then show ?thesis using False l by (auto simp: der_length_def fieldLen_def)
  qed
  then show "der_length n ! 0 \<noteq> 0xFF" "fieldLen (der_length n ! 0) = length (der_length n)" by auto
qed

lemma GetLengthOfLength_le5: "GetLengthOfLength len \<le> 5"
  by (simp add: GetLengthOfLength_def)

section \<open>The memory as a sequence of spans and length fieldOffsets\<close>

datatype seg = Lit "u8 list" | Field "u8 list"

primrec raw :: "seg \<Rightarrow> u8 list" where
  "raw (Lit bs) = bs"
| "raw (Field f) = f"

primrec final :: "seg \<Rightarrow> u8 list" where
  "final (Lit bs) = bs"
| "final (Field f) = take (fieldLen (f ! 0)) f"

primrec closed :: "seg \<Rightarrow> bool" where
  "closed (Lit bs) = True"
| "closed (Field f) = (f ! 0 \<noteq> 0xFF \<and> fieldLen (f ! 0) \<le> 5)"

primrec five :: "seg \<Rightarrow> bool" where
  "five (Lit bs) = True"
| "five (Field f) = (length f = 5)"

abbreviation raws :: "seg list \<Rightarrow> u8 list" where
  "raws segs \<equiv> concat (map raw segs)"

abbreviation finals :: "seg list \<Rightarrow> u8 list" where
  "finals segs \<equiv> concat (map final segs)"

fun fieldOffsets :: "nat \<Rightarrow> seg list \<Rightarrow> nat list" where
  "fieldOffsets p [] = []"
| "fieldOffsets p (Lit bs # segs) = fieldOffsets (p + length bs) segs"
| "fieldOffsets p (Field f # segs) = p # fieldOffsets (p + 5) segs"

fun slack :: "seg list \<Rightarrow> nat" where
  "slack [] = 0"
| "slack (Lit bs # segs) = slack segs"
| "slack (Field f # segs) = (5 - fieldLen (f ! 0)) + slack segs"

lemma fieldOffsets_append: "list_all five xs \<Longrightarrow> fieldOffsets p (xs @ ys) = fieldOffsets p xs @ fieldOffsets (p + length (raws xs)) ys"
  by (induction p xs rule: fieldOffsets.induct) (auto simp: algebra_simps)

lemma slack_append [simp]: "slack (xs @ ys) = slack xs + slack ys"
  by (induction xs rule: slack.induct) auto

lemma raws_finals: "list_all five segs \<Longrightarrow> list_all closed segs \<Longrightarrow> length (raws segs) = length (finals segs) + slack segs"
  by (induction segs rule: slack.induct) auto

definition holds :: "ASN1Writer \<Rightarrow> seg list \<Rightarrow> bool" where
  "holds w segs \<longleftrightarrow>
     mWritePoint w = length (raws segs) \<and> take (mWritePoint w) (mBuf w) = raws segs \<and>
     mDeferredLengthList w = map Some (rev (fieldOffsets 0 segs)) \<and> list_all five segs \<and>
     int (mWritePoint w) \<le> listStart w \<and> mBufEnd w \<le> int (length (mBuf w))"

lemma length_store [simp]: "p + length bs \<le> length m \<Longrightarrow> length (store m p bs) = length m"
  by (simp add: store_def)

lemma take_store: "p \<le> length m \<Longrightarrow> take (p + length bs) (store m p bs) = take p m @ bs"
  by (simp add: store_def min_absorb2)

lemma take_prefixE:
  assumes "take (length xs) m = xs"
  obtains r where "m = xs @ r"
  using assms append_take_drop_id [of "length xs" m] by metis

lemma take_after:
  assumes "take (length (xs @ ys)) (drop p m) = xs @ ys"
  shows "take (length ys) (drop (p + length xs) m) = ys"
proof -
  obtain r where "drop p m = (xs @ ys) @ r" using assms by (rule take_prefixE)
  moreover have "drop (p + length xs) m = drop (length xs) (drop p m)" by (simp add: add.commute)
  ultimately show ?thesis by simp
qed

lemma nth_drop_hd: "drop p m = x # r \<Longrightarrow> m ! p = x"
  by (metis Cons_nth_drop_Suc drop_all list.distinct(1) list.inject not_le)

lemma holdsD:
  assumes "holds w segs"
  shows "mWritePoint w = length (raws segs)" and "take (length (raws segs)) (mBuf w) = raws segs"
    and "mDeferredLengthList w = map Some (rev (fieldOffsets 0 segs))" and "list_all five segs"
    and "int (length (raws segs)) \<le> listStart w" and "mBufEnd w \<le> int (length (mBuf w))"
  using assms by (auto simp: holds_def)

lemma listStart_le: "listStart w \<le> mBufEnd w"
  by (simp add: listStart_def)

lemma holds_room: "holds w segs \<Longrightarrow> listStart w \<le> int (length (mBuf w))"
  using listStart_le [of w] holdsD(6) [of w segs] by linarith

lemma writeBytes_ok:
  "int (mWritePoint w + length bs) \<le> listStart w \<Longrightarrow>
    writeBytes w bs = (ASN1_NO_ERROR, w\<lparr>mBuf := store (mBuf w) (mWritePoint w) bs, mWritePoint := mWritePoint w + length bs\<rparr>)"
  by (simp add: writeBytes_def)

lemma writeBytes_holds:
  assumes h: "holds w segs" and fit: "int (mWritePoint w + length bs) \<le> listStart w"
  shows "holds (w\<lparr>mBuf := store (mBuf w) (mWritePoint w) bs, mWritePoint := mWritePoint w + length bs\<rparr>) (segs @ [Lit bs])"
    (is "holds ?w _")
proof -
  have room: "mWritePoint w + length bs \<le> length (mBuf w)" using fit holds_room [OF h] by linarith
  have "take (mWritePoint w + length bs) (store (mBuf w) (mWritePoint w) bs) = take (mWritePoint w) (mBuf w) @ bs"
    using room by (intro take_store) simp
  moreover have "listStart ?w = listStart w" by (simp add: listStart_def)
  ultimately show ?thesis using holdsD [OF h] fit room by (auto simp: holds_def fieldOffsets_append)
qed

section \<open>Starting an element\<close>

lemma totalLen_word: "0 \<le> v \<Longrightarrow> v < 65536 \<Longrightarrow> uint (word_of_int v :: u16) = v"
  by (simp add: unsigned_of_int take_bit_int_eq_self)

definition headLen :: "nat \<Rightarrow> nat" where
  "headLen n = 1 + GetLengthOfLength (int n)"

lemma EncodeHead_known:
  assumes h: "holds w segs" and tag: "tag < 0x1F" and small: "headLen n + n < 65536"
    and fit: "int (mWritePoint w + headLen n + n) \<le> listStart w"
  obtains w' where "EncodeHead w cls tag c (int n) = (ASN1_NO_ERROR, w')"
    and "holds w' (segs @ [Lit [tagByte cls tag c], Lit (der_length n)])"
    and "listStart w' = listStart w" and "mWritePoint w' = mWritePoint w + headLen n"
    and "pointerSize w' = pointerSize w"
proof -
  let ?t = "[tagByte cls tag c]" and ?l = "der_length n"
  have n32: "n < 2 ^ 32" using small by simp
  have len: "length ?l = GetLengthOfLength (int n)" by (rule length_der_length [OF n32])
  let ?w1 = "w\<lparr>mBuf := store (mBuf w) (mWritePoint w) ?t, mWritePoint := mWritePoint w + 1\<rparr>"
  let ?w2 = "?w1\<lparr>mBuf := store (mBuf ?w1) (mWritePoint ?w1) ?l, mWritePoint := mWritePoint ?w1 + length ?l\<rparr>"
  have ls: "listStart ?w1 = listStart w" "listStart ?w2 = listStart w" by (simp_all add: listStart_def)
  have f1: "int (mWritePoint w + length ?t) \<le> listStart w" using fit by (simp add: headLen_def)
  have f2: "int (mWritePoint ?w1 + length ?l) \<le> listStart ?w1" using fit ls len by (simp add: headLen_def)
  have h1: "holds ?w1 (segs @ [Lit ?t])" using writeBytes_holds [OF h f1] by simp
  have h2: "holds ?w2 ((segs @ [Lit ?t]) @ [Lit ?l])" by (rule writeBytes_holds [OF h1 f2])
  have tl: "uint (word_of_int (1 + int (GetLengthOfLength (int n)) + int n) :: u16) = int (headLen n + n)"
    using small by (subst totalLen_word) (auto simp: headLen_def)
  have "EncodeHead w cls tag c (int n) = (ASN1_NO_ERROR, ?w2)"
    using tag fit tl writeBytes_ok [OF f1] writeBytes_ok [OF f2] EncodeLength_der [OF n32]
    by (simp add: EncodeHead_def Let_def not_le)
  with h2 ls(2) len show thesis by (intro that [of ?w2]) (simp_all add: headLen_def)
qed

lemma EncodeHead_unknown:
  assumes h: "holds w segs" and tag: "tag < 0x1F"
    and fit: "int (mWritePoint w + 6 + pointerSize w) \<le> listStart w"
  obtains w' g where "EncodeHead w cls tag c (-1) = (ASN1_NO_ERROR, w')" and "length g = 4"
    and "holds w' (segs @ [Lit [tagByte cls tag c], Field (0xFF # g)])"
    and "listStart w' = listStart w - int (pointerSize w)" and "mWritePoint w' = mWritePoint w + 6"
    and "pointerSize w' = pointerSize w"
proof -
  let ?t = "[tagByte cls tag c]" and ?m = "mBuf w" and ?p = "mWritePoint w"
  let ?w1 = "w\<lparr>mDeferredLengthList := None # mDeferredLengthList w\<rparr>"
  let ?m1 = "store ?m ?p ?t"
  let ?m2 = "store ?m1 (?p + 1) [0xFF]"
  let ?w2 = "?w1\<lparr>mBuf := ?m1, mWritePoint := ?p + 1\<rparr>"
  let ?w3 = "w\<lparr>mBuf := ?m2, mDeferredLengthList := Some (?p + 1) # mDeferredLengthList w, mWritePoint := ?p + 1 + 5\<rparr>"
  let ?g = "take 4 (drop (?p + 2) ?m)"
  have room: "?p + 6 + pointerSize w \<le> length ?m" using fit holds_room [OF h] by linarith
  have ls1: "listStart ?w1 = listStart w - int (pointerSize w)" "listStart ?w3 = listStart w - int (pointerSize w)"
    by (simp_all add: listStart_def algebra_simps)
  have f1: "int (mWritePoint ?w1 + length ?t) \<le> listStart ?w1" using fit ls1 by simp
  have e: "EncodeHead w cls tag c (-1) = (ASN1_NO_ERROR, ?w3)"
    using tag fit ls1 writeBytes_ok [OF f1] by (simp add: EncodeHead_def Let_def GetLengthOfLength_def not_le)
  have m2: "?m2 = take ?p ?m @ tagByte cls tag c # 0xFF # drop (?p + 2) ?m"
    using room by (simp add: store_def min_absorb2)
  have "take (?p + 1 + 5) ?m2 = take ?p ?m @ tagByte cls tag c # 0xFF # ?g"
    using room unfolding m2 by (simp add: min_absorb2 numeral_eq_Suc)
  moreover have "length ?m2 = length ?m" using room by (simp add: m2)
  moreover have len: "length ?g = 4" using room by simp
  ultimately have "holds ?w3 (segs @ [Lit ?t, Field (0xFF # ?g)])"
    using holdsD [OF h] fit ls1 by (auto simp: holds_def fieldOffsets_append numeral_eq_Suc)
  then show thesis using e len ls1 by (intro that [of ?w3 ?g]) simp_all
qed


section \<open>Filling in a deferred length\<close>

text \<open>Fields that are filled in are passed over; each adds to \<open>lenAdj\<close> what compaction will take away.\<close>

lemma scanDeferred_skip:
  assumes "take (length (raws ys)) (drop p m) = raws ys" "list_all five ys" "list_all closed ys"
  shows "scanDeferred m wp (map Some (rev (fieldOffsets p ys)) @ rest) adj = scanDeferred m wp rest (adj + int (slack ys))"
  using assms
proof (induction p ys arbitrary: rest adj rule: fieldOffsets.induct)
  case (1 p)
  show ?case by simp
next
  case (2 p bs segs)
  have "take (length (raws segs)) (drop (p + length bs) m) = raws segs"
    using 2(2) by (intro take_after) simp
  then show ?case using 2 by simp
next
  case (3 p f segs)
  have l: "length f = 5" using 3(3) by simp
  have t: "take (length (raws (Field f # segs))) (drop p m) = f @ raws segs" using 3(2) by simp
  have "take (length (raws segs)) (drop (p + 5) m) = raws segs"
    using take_after [of f "raws segs" p m] t l by simp
  then have ih: "scanDeferred m wp (map Some (rev (fieldOffsets (p + 5) segs)) @ Some p # rest) adj =
      scanDeferred m wp (Some p # rest) (adj + int (slack segs))" using 3 by (intro 3(1)) simp_all
  have "drop p m \<noteq> []" using t l by (cases "drop p m") auto
  then have "m ! p = hd (drop p m)" by (simp add: hd_drop_conv_nth)
  also have "\<dots> = hd (take (length (raws (Field f # segs))) (drop p m))" using l by (intro hd_take [symmetric]) (cases f; simp)
  also have "\<dots> = f ! 0" unfolding t using l by (cases f) auto
  finally have "m ! p = f ! 0" .
  then show ?case using ih 3(4) by (simp add: algebra_simps)
qed

lemma take_drop_middle:
  assumes "take (length (xs @ ys @ zs)) m = xs @ ys @ zs"
  shows "take (length ys) (drop (length xs) m) = ys"
    and "take (length zs) (drop (length xs + length ys) m) = zs"
proof -
  have "m = (xs @ ys @ zs) @ drop (length (xs @ ys @ zs)) m" using assms by (metis append_take_drop_id)
  then obtain r where m: "m = xs @ ys @ zs @ r" by auto
  show "take (length ys) (drop (length xs) m) = ys" "take (length zs) (drop (length xs + length ys) m) = zs"
    by (simp_all add: m)
qed

lemma store_middle:
  assumes "take (length (xs @ ys @ zs)) m = xs @ ys @ zs" and "length bs \<le> length ys"
  shows "take (length (xs @ ys @ zs)) (store m (length xs) bs) = xs @ (bs @ drop (length bs) ys) @ zs"
    and "length (store m (length xs) bs) = length m"
proof -
  have "m = (xs @ ys @ zs) @ drop (length (xs @ ys @ zs)) m" using assms by (metis append_take_drop_id)
  then obtain r where m: "m = xs @ ys @ zs @ r" by auto
  show "take (length (xs @ ys @ zs)) (store m (length xs) bs) = xs @ (bs @ drop (length bs) ys) @ zs"
    "length (store m (length xs) bs) = length m"
    using assms(2) by (simp_all add: m store_def)
qed

lemma nth_of_take: "take n m = xs @ y # ys \<Longrightarrow> m ! length xs = y"
  by (metis append_take_drop_id append_Cons append_assoc nth_append_length)

lemma WriteDeferredLength_closes:
  assumes h: "holds w (xs @ Field (0xFF # g) # ys)" and c: "list_all closed ys" and n: "length (finals ys) < 2 ^ 31"
  obtains w' f where "WriteDeferredLength w = (ASN1_NO_ERROR, w')" and "holds w' (xs @ Field f # ys)"
    and "closed (Field f)" and "final (Field f) = der_length (length (finals ys))"
    and "fieldLen (f ! 0) = GetLengthOfLength (int (length (finals ys)))"
    and "listStart w' = listStart w" and "mWritePoint w' = mWritePoint w" and "pointerSize w' = pointerSize w"
proof -
  define f0 where "f0 = 0xFF # g"
  define n where "n = length (finals ys)"
  define d where "d = der_length n"
  define f where "f = d @ drop (length d) f0"
  let ?p = "length (raws xs)"
  note hd = holdsD [OF h]
  have n32: "n < 2 ^ 32" "n < 2 ^ 31" using n by (simp_all add: n_def)
  have five: "list_all five xs" "list_all five ys" "length f0 = 5" using hd(4) by (simp_all add: f0_def)
  have mem: "take (length (raws xs @ f0 @ raws ys)) (mBuf w) = raws xs @ f0 @ raws ys" using hd(2) by (simp add: f0_def)
  have offs: "mDeferredLengthList w = map Some (rev (fieldOffsets (?p + 5) ys)) @ Some ?p # map Some (rev (fieldOffsets 0 xs))"
    using hd(3) five by (simp add: fieldOffsets_append)
  have b: "mBuf w ! ?p = 0xFF" by (rule nth_of_take [of "length (raws xs @ f0 @ raws ys)" _ _ _ "g @ raws ys"]) (use mem in \<open>simp add: f0_def\<close>)
  have skip: "scanDeferred (mBuf w) (mWritePoint w) (mDeferredLengthList w) 5 =
      scanDeferred (mBuf w) (mWritePoint w) (Some ?p # map Some (rev (fieldOffsets 0 xs))) (5 + int (slack ys))"
    unfolding offs using take_drop_middle(2) [OF mem] five c by (intro scanDeferred_skip) simp_all
  have e: "int (mWritePoint w) - int ?p - (5 + int (slack ys)) = int n"
    using hd(1) raws_finals [OF five(2) c] five(3) by (simp add: n_def f0_def)
  have u: "uint (of_nat n :: u32) = int n" using n32 by (simp add: uint_nat unat_of_nat take_bit_nat_eq_self)
  have ld: "length d = GetLengthOfLength (int n)" by (simp add: d_def length_der_length [OF n32(1)])
  then have d5: "length d \<le> length f0" using GetLengthOfLength_le5 [of "int n"] five by simp
  have dne: "d \<noteq> []" using ld by (auto simp: GetLengthOfLength_def split: if_splits)
  let ?w = "w\<lparr>mBuf := store (mBuf w) ?p d\<rparr>"
  have w: "WriteDeferredLength w = (ASN1_NO_ERROR, ?w)"
    using skip b n32 EncodeLength_der [OF n32(1)] by (simp add: WriteDeferredLength_def e u d_def Let_def)
  have f: "length f = 5" "f ! 0 = d ! 0" using d5 five dne by (auto simp: f_def nth_append)
  note st = store_middle [OF mem d5]
  have "take (length (raws (xs @ Field f # ys))) (store (mBuf w) ?p d) = raws (xs @ Field f # ys)"
    using st(1) f(1) five(3) by (simp add: f_def)
  then have hw: "holds ?w (xs @ Field f # ys)"
    using hd five f st(2) by (simp add: holds_def fieldOffsets_append listStart_def ac_simps)
  have fl: "fieldLen (f ! 0) = length d" "f ! 0 \<noteq> 0xFF" using der_length_first [OF n32(1)] f by (simp_all add: d_def)
  show thesis
  proof (rule that [OF w hw])
    show "closed (Field f)" using fl d5 five by simp
    show "final (Field f) = der_length (length (finals ys))" using fl by (simp add: f_def d_def n_def)
    show "fieldLen (f ! 0) = GetLengthOfLength (int (length (finals ys)))" using fl ld by (simp add: n_def)
  qed (simp_all add: listStart_def)
qed

section \<open>Compaction\<close>

lemma memmove_down:
  assumes "dst \<le> src" "src + n \<le> length m"
  shows "take (dst + n) (memmove m dst src n) = take dst m @ take n (drop src m)"
    and "src + n \<le> q \<Longrightarrow> drop q (memmove m dst src n) = drop q m"
    and "length (memmove m dst src n) = length m"
  using assms by (simp_all add: memmove_def store_def min_absorb2 drop_append)

lemma compactLoop_finals:
  assumes "cp \<le> ss" "take (length (pend @ raws zs)) (drop ss m) = pend @ raws zs" "list_all five zs" "list_all closed zs"
    "ss + length (pend @ raws zs) = wp" "wp \<le> length m"
  shows "\<exists>m' cp' ss'. compactLoop m cp ss (map Some (fieldOffsets (ss + length pend) zs)) = (ASN1_NO_ERROR, m', cp', ss') \<and>
    take cp' m' @ take (wp - ss') (drop ss' m') = take cp m @ pend @ finals zs \<and> ss' = cp' + (ss - cp) + slack zs \<and> ss' \<le> wp \<and>
    length m' = length m"
  using assms
proof (induction zs arbitrary: m cp ss pend)
  case Nil
  then show ?case by auto
next
  case (Cons z zs)
  show ?case
  proof (cases z)
    case (Lit bs)
    then show ?thesis using Cons.IH [of cp ss "pend @ bs" m] Cons.prems by (simp add: add.assoc)
  next
    case (Field f)
    define p where "p = ss + length pend"
    define k where "k = fieldLen (f ! 0)"
    have l: "length f = 5" "f ! 0 \<noteq> 0xFF" "k \<le> 5" using Cons.prems Field by (simp_all add: k_def)
    then obtain b r where br: "f = b # r" by (cases f) auto
    have "k \<ge> 1" by (simp add: k_def fieldLen_def)
    obtain tl where "drop ss m = (pend @ raws (z # zs)) @ tl" using Cons.prems(2) by (rule take_prefixE)
    then have d: "drop ss m = pend @ f @ raws zs @ tl" using Field by simp
    have dp: "drop p m = f @ raws zs @ tl" unfolding p_def using d by (metis add.commute append_eq_conv_conj drop_drop)
    have mp: "m ! p = f ! 0" using nth_drop_hd [of p m b] dp br by simp
    have dp5: "drop (p + 5) m = raws zs @ tl" using dp l(1) by (metis add.commute append_eq_conv_conj drop_drop)
    have moved: "take (p + k - ss) (drop ss m) = pend @ take k f" using d l by (simp add: p_def)
    define m1 where "m1 = (if ss = cp then m else memmove m cp ss (p + k - ss))"
    define cp1 where "cp1 = cp + (p + k - ss)"
    have bound: "ss + (p + k - ss) \<le> length m" "p + 5 + length (raws zs) = wp"
      using Cons.prems(5,6) Field l by (simp_all add: p_def)
    have m1: "take cp1 m1 = take cp m @ pend @ take k f" "drop (p + 5) m1 = drop (p + 5) m" "length m1 = length m"
    proof -
      note md = memmove_down [OF Cons.prems(1) bound(1)]
      show "take cp1 m1 = take cp m @ pend @ take k f"
        using md(1) moved unfolding m1_def cp1_def by (cases "ss = cp") (auto simp: take_add)
      show "drop (p + 5) m1 = drop (p + 5) m" using md(2) [of "p + 5"] l(3) by (simp add: m1_def p_def)
      show "length m1 = length m" using md(3) by (simp add: m1_def)
    qed
    have step: "compactLoop m cp ss (map Some (fieldOffsets (ss + length pend) (z # zs))) =
        compactLoop m1 cp1 (p + 5) (map Some (fieldOffsets (p + 5 + length ([] :: u8 list)) zs))"
      using mp l(2) unfolding Field by (simp add: p_def [symmetric] k_def [symmetric] Let_def m1_def cp1_def) (simp add: p_def add.assoc)
    have cp1: "cp1 \<le> p + 5" using Cons.prems(1) l(3) by (simp add: cp1_def p_def)
    have "take (length ([] @ raws zs)) (drop (p + 5) m1) = [] @ raws zs" using m1(2) dp5 by simp
    from Cons.IH [OF cp1 this] Cons.prems bound m1(3)
    obtain m' cp' ss' where r: "compactLoop m1 cp1 (p + 5) (map Some (fieldOffsets (p + 5 + length ([] :: u8 list)) zs)) = (ASN1_NO_ERROR, m', cp', ss')"
      "take cp' m' @ take (wp - ss') (drop ss' m') = take cp1 m1 @ finals zs" "ss' = cp' + (p + 5 - cp1) + slack zs" "ss' \<le> wp"
      "length m' = length m1" by auto
    have "p + 5 - cp1 = (ss - cp) + (5 - k)" using Cons.prems(1) l(3) by (simp add: cp1_def p_def)
    then show ?thesis using r m1 step Field by (simp add: k_def)
  qed
qed

theorem Finalize_compacts:
  assumes h: "holds w segs" and c: "list_all closed segs"
  obtains w' where "Finalize w = (ASN1_NO_ERROR, w')"
    and "0 < slack segs \<Longrightarrow> take (mWritePoint w') (mBuf w') = finals segs"
    and "0 < slack segs \<Longrightarrow> mWritePoint w' = length (finals segs)"
proof -
  note hd = holdsD [OF h]
  have "length (raws segs) \<le> length (mBuf w)" using hd(5) holds_room [OF h] by linarith
  with compactLoop_finals [of 0 0 "[]" segs "mBuf w" "length (raws segs)"] hd(2,4) c
  obtain m cp ss where r: "compactLoop (mBuf w) 0 0 (map Some (fieldOffsets 0 segs)) = (ASN1_NO_ERROR, m, cp, ss)"
    "take cp m @ take (length (raws segs) - ss) (drop ss m) = finals segs" "ss = cp + slack segs" "ss \<le> length (raws segs)"
    "length m = length (mBuf w)" by auto
  have l: "rev (mDeferredLengthList w) = map Some (fieldOffsets 0 segs)" using hd(3) by (simp add: rev_map)
  show thesis
  proof (cases "slack segs = 0")
    case True
    then show thesis using r(1,3) l by (intro that [of "w\<lparr>mBuf := m, mWritePoint := cp\<rparr>"]) (simp_all add: Finalize_def)
  next
    case False
    let ?n = "length (raws segs) - ss"
    let ?w = "w\<lparr>mBuf := memmove m cp ss ?n, mWritePoint := cp + ?n\<rparr>"
    have "Finalize w = (ASN1_NO_ERROR, ?w)" using r(1,3) l False hd(1) by (simp add: Finalize_def Let_def)
    moreover have t: "take (cp + ?n) (memmove m cp ss ?n) = finals segs"
      using memmove_down(1) [of cp ss ?n m] r \<open>length (raws segs) \<le> length (mBuf w)\<close> by simp
    moreover have "cp + ?n \<le> length m" using r \<open>length (raws segs) \<le> length (mBuf w)\<close> by simp
    moreover have "cp + ?n = length (finals segs)"
      using raws_finals [OF hd(4) c] r(3,4) by linarith
    ultimately show thesis by (intro that [of ?w]) simp_all
  qed
qed

end
