(* ===== verification/Asn1_Der.thy ===== *)
theory Asn1_Der
  imports Asn1_Deferred
begin

text \<open>
  Values of ASN.1 as trees, their DER encoding as the reference, the calls of the writer for a tree, and that these calls,
  followed by \<^verbatim>\<open>Finalize\<close>, leave the encoding in the buffer.
\<close>

section \<open>Values and their encoding\<close>

text \<open>
  A value of ASN.1 as a tree: a primitive element, a constructed one, and one whose octets are themselves an encoding (a \<^verbatim>\<open>BIT STRING\<close>
  begins with a byte for the count of unused bits).
\<close>

datatype asn1 =
    Primitive u8 u32 "u8 list"
  | Constructed u8 u32 "asn1 list"
  | Encapsulated u8 u32 bool "asn1 list"

definition asn1Tlv :: "u8 \<Rightarrow> u8 list \<Rightarrow> u8 list" where
  "asn1Tlv t content = t # der_length (length content) @ content"

primrec der :: "asn1 \<Rightarrow> u8 list" and ders :: "asn1 list \<Rightarrow> u8 list" where
  "der (Primitive cls tag val) = asn1Tlv (tagByte cls tag False) val"
| "der (Constructed cls tag kids) = asn1Tlv (tagByte cls tag True) (ders kids)"
| "der (Encapsulated cls tag bits kids) = asn1Tlv (tagByte cls tag False) ((if bits then [0] else []) @ ders kids)"
| "ders [] = []"
| "ders (t # ts) = der t @ ders ts"

text \<open>The calls of the writer for a tree, and the space they take, of the deferred list too.\<close>

primrec putTree :: "asn1 \<Rightarrow> ASN1Writer \<Rightarrow> ASN1_ERROR \<times> ASN1Writer"
  and putTrees :: "asn1 list \<Rightarrow> ASN1Writer \<Rightarrow> ASN1_ERROR \<times> ASN1Writer" where
  "putTree (Primitive cls tag val) w = PutValue w cls tag False val"
| "putTree (Constructed cls tag kids) w =
     asn1_then (StartConstructedType w cls tag) (\<lambda>w1. asn1_then (putTrees kids w1) EndConstructedType)"
| "putTree (Encapsulated cls tag bits kids) w =
     asn1_then (StartEncapsulatedType w cls tag bits) (\<lambda>w1. asn1_then (putTrees kids w1) EndEncapsulatedType)"
| "putTrees [] w = (ASN1_NO_ERROR, w)"
| "putTrees (t # ts) w = asn1_then (putTree t w) (putTrees ts)"

primrec treeSpace :: "nat \<Rightarrow> asn1 \<Rightarrow> nat" and treeSpaces :: "nat \<Rightarrow> asn1 list \<Rightarrow> nat" where
  "treeSpace ps (Primitive cls tag val) = headLen (length val) + length val"
| "treeSpace ps (Constructed cls tag kids) = 6 + ps + treeSpaces ps kids"
| "treeSpace ps (Encapsulated cls tag bits kids) = 6 + ps + (if bits then 1 else 0) + treeSpaces ps kids"
| "treeSpaces ps [] = 0"
| "treeSpaces ps (t # ts) = treeSpace ps t + treeSpaces ps ts"

text \<open>What the writer can encode: tags of one byte, and primitive values whose size with the head fits 16 bits.\<close>

primrec encodableTree :: "asn1 \<Rightarrow> bool" and encodableTrees :: "asn1 list \<Rightarrow> bool" where
  "encodableTree (Primitive cls tag val) = (tag < 0x1F \<and> headLen (length val) + length val < 65536)"
| "encodableTree (Constructed cls tag kids) = (tag < 0x1F \<and> encodableTrees kids)"
| "encodableTree (Encapsulated cls tag bits kids) = (tag < 0x1F \<and> encodableTrees kids)"
| "encodableTrees [] = True"
| "encodableTrees (t # ts) = (encodableTree t \<and> encodableTrees ts)"

primrec isPrimitive :: "asn1 \<Rightarrow> bool" where
  "isPrimitive (Primitive cls tag val) = True"
| "isPrimitive (Constructed cls tag kids) = False"
| "isPrimitive (Encapsulated cls tag bits kids) = False"

section \<open>The calls leave the encoding behind\<close>

definition wrote :: "ASN1Writer \<Rightarrow> seg list \<Rightarrow> nat \<Rightarrow> ASN1_ERROR \<times> ASN1Writer \<Rightarrow> u8 list \<Rightarrow> bool \<Rightarrow> bool" where
  "wrote w segs sp res bytes short \<longleftrightarrow>
     (\<exists>w' new. res = (ASN1_NO_ERROR, w') \<and> holds w' (segs @ new) \<and> list_all closed new \<and> finals new = bytes \<and>
        (short \<longrightarrow> 0 < slack new) \<and> pointerSize w' = pointerSize w \<and>
        listStart w' - int (mWritePoint w') = listStart w - int (mWritePoint w) - int sp)"

lemma PutValue_segs:
  assumes h: "holds w segs" and t: "tag < 0x1F" and small: "headLen (length val) + length val < 65536"
    and fit: "int (mWritePoint w + headLen (length val) + length val) \<le> listStart w"
  obtains w' where "PutValue w cls tag c val = (ASN1_NO_ERROR, w')"
    and "holds w' (segs @ [Lit [tagByte cls tag c], Lit (der_length (length val)), Lit val])" and "listStart w' = listStart w"
    and "mWritePoint w' = mWritePoint w + headLen (length val) + length val" and "pointerSize w' = pointerSize w"
proof -
  obtain w1 where w1: "EncodeHead w cls tag c (int (length val)) = (ASN1_NO_ERROR, w1)"
    "holds w1 (segs @ [Lit [tagByte cls tag c], Lit (der_length (length val))])" "listStart w1 = listStart w"
    "mWritePoint w1 = mWritePoint w + headLen (length val)" "pointerSize w1 = pointerSize w"
    using EncodeHead_known [OF h t small fit] by blast
  have fit1: "int (mWritePoint w1 + length val) \<le> listStart w1" using fit w1 by simp
  let ?w = "w1\<lparr>mBuf := store (mBuf w1) (mWritePoint w1) val, mWritePoint := mWritePoint w1 + length val\<rparr>"
  have "PutValue w cls tag c val = (ASN1_NO_ERROR, ?w)" using w1(1) writeBytes_ok [OF fit1] by (simp add: PutValue_def)
  moreover have "holds ?w (segs @ [Lit [tagByte cls tag c], Lit (der_length (length val)), Lit val])"
    using writeBytes_holds [OF w1(2) fit1] by simp
  moreover have "listStart ?w = listStart w" using w1(3) by (simp add: listStart_def)
  ultimately show thesis using w1(4,5) by (intro that [of ?w]) simp_all
qed

lemma PutValue_wrote:
  assumes h: "holds w segs" and t: "tag < 0x1F" and small: "headLen (length val) + length val < 65536"
    and fit: "int (mWritePoint w + headLen (length val) + length val) \<le> listStart w"
  shows "wrote w segs (headLen (length val) + length val) (PutValue w cls tag c val) (asn1Tlv (tagByte cls tag c) val) False"
proof -
  let ?new = "[Lit [tagByte cls tag c], Lit (der_length (length val)), Lit val]"
  obtain w' where "PutValue w cls tag c val = (ASN1_NO_ERROR, w')" "holds w' (segs @ ?new)" "listStart w' = listStart w"
    "mWritePoint w' = mWritePoint w + headLen (length val) + length val" "pointerSize w' = pointerSize w"
    using PutValue_segs [OF assms] by metis
  then show ?thesis unfolding wrote_def by (intro exI [of _ w'] exI [of _ ?new]) (simp add: asn1Tlv_def)
qed

text \<open>A container: its head was written, its content follows, and the length is filled in.\<close>

lemma close_wrote:
  assumes h: "holds w1 (segs @ [Lit [t], Field (0xFF # g)] @ pre)" and c: "list_all closed pre"
    and ptr: "pointerSize w1 = pointerSize w"
    and left: "listStart w1 - int (mWritePoint w1) = listStart w - int (mWritePoint w) - int sp1"
    and kids: "wrote w1 (segs @ [Lit [t], Field (0xFF # g)] @ pre) sp2 res bytes s"
    and n: "length (finals pre @ bytes) < 2 ^ 24"
  shows "wrote w segs (sp1 + sp2) (asn1_then res WriteDeferredLength) (asn1Tlv t (finals pre @ bytes)) True"
proof -
  from kids obtain w2 new where w2: "res = (ASN1_NO_ERROR, w2)" "holds w2 ((segs @ [Lit [t], Field (0xFF # g)] @ pre) @ new)"
    "list_all closed new" "finals new = bytes" "pointerSize w2 = pointerSize w1"
    "listStart w2 - int (mWritePoint w2) = listStart w1 - int (mWritePoint w1) - int sp2"
    unfolding wrote_def by blast
  let ?ys = "pre @ new"
  have "holds w2 ((segs @ [Lit [t]]) @ Field (0xFF # g) # ?ys)" using w2(2) by simp
  moreover have "list_all closed ?ys" using c w2(3) by simp
  moreover have len: "length (finals ?ys) = length (finals pre @ bytes)" using w2(4) by simp
  moreover have "length (finals ?ys) < 2 ^ 31" using n len by simp
  ultimately obtain w3 f where w3: "WriteDeferredLength w2 = (ASN1_NO_ERROR, w3)"
    "holds w3 ((segs @ [Lit [t]]) @ Field f # ?ys)" "closed (Field f)" "final (Field f) = der_length (length (finals ?ys))"
    "fieldLen (f ! 0) = GetLengthOfLength (int (length (finals ?ys)))"
    "listStart w3 = listStart w2" "mWritePoint w3 = mWritePoint w2" "pointerSize w3 = pointerSize w2"
    by (metis WriteDeferredLength_closes)
  have "fieldLen (f ! 0) < 5" using n len w3(5) by (simp add: GetLengthOfLength_def)
  then have "0 < slack (Lit [t] # Field f # ?ys)" by simp
  moreover have "finals (Lit [t] # Field f # ?ys) = asn1Tlv t (finals pre @ bytes)"
    using w3(4) w2(4) by (simp add: asn1Tlv_def)
  moreover have "holds w3 (segs @ Lit [t] # Field f # ?ys)" using w3(2) by simp
  moreover have "list_all closed (Lit [t] # Field f # ?ys)" using w3(3) c w2(3) by simp
  moreover have "asn1_then res WriteDeferredLength = (ASN1_NO_ERROR, w3)" using w2(1) w3(1) by simp
  moreover have "pointerSize w3 = pointerSize w" using w3(8) w2(5) ptr by simp
  moreover have "listStart w3 - int (mWritePoint w3) = listStart w - int (mWritePoint w) - int (sp1 + sp2)"
    using w3(6,7) w2(6) left by simp
  ultimately show ?thesis unfolding wrote_def by (intro exI [of _ w3] exI [of _ "Lit [t] # Field f # ?ys"] conjI impI)
qed

lemma der_small: "length (ders kids) \<le> length (asn1Tlv t (xs @ ders kids))" and "length xs \<le> length (asn1Tlv t xs)"
  by (simp_all add: asn1Tlv_def)

lemma wrote_trans:
  assumes "wrote w segs sp1 r1 b1 s1"
    and "\<And>w1 new. r1 = (ASN1_NO_ERROR, w1) \<Longrightarrow> holds w1 (segs @ new) \<Longrightarrow> pointerSize w1 = pointerSize w \<Longrightarrow>
      listStart w1 - int (mWritePoint w1) = listStart w - int (mWritePoint w) - int sp1 \<Longrightarrow> wrote w1 (segs @ new) sp2 (k w1) b2 s2"
  shows "wrote w segs (sp1 + sp2) (asn1_then r1 k) (b1 @ b2) (s1 \<or> s2)"
proof -
  from assms(1) obtain w1 new where w1: "r1 = (ASN1_NO_ERROR, w1)" "holds w1 (segs @ new)" "list_all closed new" "finals new = b1"
    "s1 \<longrightarrow> 0 < slack new" "pointerSize w1 = pointerSize w"
    "listStart w1 - int (mWritePoint w1) = listStart w - int (mWritePoint w) - int sp1" unfolding wrote_def by blast
  from assms(2) [OF w1(1,2,6,7)] obtain w2 new2 where w2: "k w1 = (ASN1_NO_ERROR, w2)" "holds w2 ((segs @ new) @ new2)"
    "list_all closed new2" "finals new2 = b2" "s2 \<longrightarrow> 0 < slack new2" "pointerSize w2 = pointerSize w1"
    "listStart w2 - int (mWritePoint w2) = listStart w1 - int (mWritePoint w1) - int sp2" unfolding wrote_def by blast
  show ?thesis unfolding wrote_def
    by (rule exI [of _ w2], rule exI [of _ "new @ new2"]) (use w1 w2 in auto)
qed

lemma putTree_wrote:
  "\<lbrakk>holds w segs; encodableTree t; length (der t) < 2 ^ 24; int (mWritePoint w + treeSpace (pointerSize w) t) \<le> listStart w\<rbrakk> \<Longrightarrow>
    wrote w segs (treeSpace (pointerSize w) t) (putTree t w) (der t) (\<not> isPrimitive t)"
  "\<lbrakk>holds w segs; encodableTrees ts; length (ders ts) < 2 ^ 24; int (mWritePoint w + treeSpaces (pointerSize w) ts) \<le> listStart w\<rbrakk> \<Longrightarrow>
    wrote w segs (treeSpaces (pointerSize w) ts) (putTrees ts w) (ders ts) (\<not> list_all isPrimitive ts)"
proof (induction t and ts arbitrary: w segs and w segs rule: der.induct ders.induct)
  case (Primitive cls tag val)
  then show ?case using PutValue_wrote [of w segs tag val cls False] by simp
next
  case (Constructed cls tag kids)
  have t: "tag < 0x1F" "encodableTrees kids" using Constructed.prems(2) by simp_all
  have fit: "int (mWritePoint w + 6 + pointerSize w) \<le> listStart w" using Constructed.prems(4) by simp
  obtain w1 g where w1: "EncodeHead w cls tag True (-1) = (ASN1_NO_ERROR, w1)"
    "holds w1 (segs @ [Lit [tagByte cls tag True], Field (0xFF # g)])"
    "listStart w1 = listStart w - int (pointerSize w)" "mWritePoint w1 = mWritePoint w + 6" "pointerSize w1 = pointerSize w"
    using EncodeHead_unknown [OF Constructed.prems(1) t(1) fit] by metis
  have "wrote w1 (segs @ [Lit [tagByte cls tag True], Field (0xFF # g)]) (treeSpaces (pointerSize w1) kids) (putTrees kids w1)
      (ders kids) (\<not> list_all isPrimitive kids)"
    using Constructed.prems(3,4) w1 t(2) by (intro Constructed.IH) (simp_all add: asn1Tlv_def)
  with close_wrote [of w1 segs "tagByte cls tag True" g "[]" w "6 + pointerSize w" "treeSpaces (pointerSize w1) kids" "putTrees kids w1" "ders kids"]
  show ?case using w1 Constructed.prems(3) by (simp add: StartConstructedType_def EndConstructedType_def [abs_def] asn1Tlv_def)
next
  case (Encapsulated cls tag bits kids)
  let ?t = "tagByte cls tag False" and ?pre = "if bits then [Lit [0]] else []"
  have t: "tag < 0x1F" "encodableTrees kids" using Encapsulated.prems(2) by simp_all
  have fit: "int (mWritePoint w + 6 + pointerSize w) \<le> listStart w" using Encapsulated.prems(4) by simp
  obtain w1 g where w1: "EncodeHead w cls tag False (-1) = (ASN1_NO_ERROR, w1)"
    "holds w1 (segs @ [Lit [?t], Field (0xFF # g)])"
    "listStart w1 = listStart w - int (pointerSize w)" "mWritePoint w1 = mWritePoint w + 6" "pointerSize w1 = pointerSize w"
    using EncodeHead_unknown [OF Encapsulated.prems(1) t(1) fit] by metis
  obtain w2 where w2: "StartEncapsulatedType w cls tag bits = (ASN1_NO_ERROR, w2)"
    "holds w2 (segs @ [Lit [?t], Field (0xFF # g)] @ ?pre)" "pointerSize w2 = pointerSize w"
    "listStart w2 - int (mWritePoint w2) = listStart w - int (mWritePoint w) - int (6 + pointerSize w + (if bits then 1 else 0))"
  proof (cases bits)
    case True
    have f: "int (mWritePoint w1 + length [0 :: u8]) \<le> listStart w1" using Encapsulated.prems(4) True w1 by simp
    show thesis using that [of "w1\<lparr>mBuf := store (mBuf w1) (mWritePoint w1) [0], mWritePoint := mWritePoint w1 + length [0 :: u8]\<rparr>"]
        writeBytes_holds [OF w1(2) f] writeBytes_ok [OF f] f w1 True by (simp add: StartEncapsulatedType_def listStart_def)
  next
    case False
    then show thesis using that [of w1] w1 by (simp add: StartEncapsulatedType_def)
  qed
  have fin: "finals ?pre = (if bits then [0] else [])" by simp
  have "wrote w2 (segs @ [Lit [?t], Field (0xFF # g)] @ ?pre) (treeSpaces (pointerSize w2) kids) (putTrees kids w2)
      (ders kids) (\<not> list_all isPrimitive kids)"
    using Encapsulated.prems(3,4) w2 t(2) by (intro Encapsulated.IH) (simp_all add: asn1Tlv_def split: if_splits)
  from close_wrote [OF w2(2) _ w2(3,4) this] Encapsulated.prems(3) w2(1,3)
  show ?case unfolding fin by (simp add: EndEncapsulatedType_def [abs_def] asn1Tlv_def split: if_splits)
next
  case Nil_asn1
  then show ?case by (auto simp: wrote_def intro!: exI [of _ "[]"])
next
  case (Cons_asn1 t ts)
  have "wrote w segs (treeSpace (pointerSize w) t + treeSpaces (pointerSize w) ts) (asn1_then (putTree t w) (putTrees ts))
      (der t @ ders ts) (\<not> isPrimitive t \<or> \<not> list_all isPrimitive ts)"
  proof (rule wrote_trans)
    show "wrote w segs (treeSpace (pointerSize w) t) (putTree t w) (der t) (\<not> isPrimitive t)"
      using Cons_asn1.prems by (intro Cons_asn1.IH(1)) simp_all
    fix w1 new assume "putTree t w = (ASN1_NO_ERROR, w1)" "holds w1 (segs @ new)" "pointerSize w1 = pointerSize w"
      "listStart w1 - int (mWritePoint w1) = listStart w - int (mWritePoint w) - int (treeSpace (pointerSize w) t)"
    then show "wrote w1 (segs @ new) (treeSpaces (pointerSize w) ts) (putTrees ts w1) (ders ts) (\<not> list_all isPrimitive ts)"
      using Cons_asn1.IH(2) [of w1 "segs @ new"] Cons_asn1.prems by simp
  qed
  then show ?case by simp
qed

section \<open>The writer against the encoding\<close>

lemma InitWriter_holds: "holds (InitWriter ps address buf) [] \<or> mBufEnd (InitWriter ps address buf) < 0"
  by (auto simp: holds_def InitWriter_def listStart_def)

text \<open>
  C12. Encoding of values: given room for the elements, for five bytes of every length that is deferred and for its entry in the list, all the
  calls of the writer for a sequence of values succeed, so does \<^verbatim>\<open>Finalize\<close>, and the buffer then holds exactly the DER encoding of the values.
\<close>

theorem writer_encodes_der:
  fixes ts :: "asn1 list"
  assumes "encodableTrees ts" and "\<not> list_all isPrimitive ts" and "length (ders ts) < 2 ^ 24"
    and "int (treeSpaces ps ts) \<le> mBufEnd (InitWriter ps address buf)"
  shows "\<exists>w w'. putTrees ts (InitWriter ps address buf) = (ASN1_NO_ERROR, w) \<and> Finalize w = (ASN1_NO_ERROR, w') \<and>
    take (mWritePoint w') (mBuf w') = ders ts \<and> mWritePoint w' = length (ders ts)"
proof -
  let ?w = "InitWriter ps address buf"
  have p: "pointerSize ?w = ps" "mWritePoint ?w = 0" "listStart ?w = mBufEnd ?w" by (simp_all add: InitWriter_def listStart_def)
  have "holds ?w []" using InitWriter_holds [of ps address buf] assms(4) by linarith
  with assms p have "wrote ?w [] (treeSpaces ps ts) (putTrees ts ?w) (ders ts) (\<not> list_all isPrimitive ts)"
    using putTree_wrote(2) [of ?w "[]" ts] by simp
  then obtain w new where w: "putTrees ts ?w = (ASN1_NO_ERROR, w)" "holds w new" "list_all closed new" "finals new = ders ts" "0 < slack new"
    using assms(2) unfolding wrote_def by auto
  obtain w' where "Finalize w = (ASN1_NO_ERROR, w')" "take (mWritePoint w') (mBuf w') = finals new" "mWritePoint w' = length (finals new)"
    using Finalize_compacts [OF w(2,3)] w(5) by metis
  then show ?thesis using w by auto
qed

text \<open>A sequence of primitive values alone is lost: nothing was deferred, so \<^verbatim>\<open>Finalize\<close> moves the write point back to the start.\<close>

theorem finalize_drops_primitives:
  assumes "mDeferredLengthList w = []"
  shows "Finalize w = (ASN1_NO_ERROR, w\<lparr>mWritePoint := 0\<rparr>)"
  using assms by (simp add: Finalize_def)

theorem writer_encodes_der_witness:
  "encodableTrees [Constructed 0 16 [Primitive 0 2 [5]]] \<and>
   (\<exists>w w'. putTrees [Constructed 0 16 [Primitive 0 2 [5]]] (InitWriter 8 0 (replicate 64 0)) = (ASN1_NO_ERROR, w) \<and>
      Finalize w = (ASN1_NO_ERROR, w') \<and> take (mWritePoint w') (mBuf w') = [0x30, 3, 2, 1, 5])"
proof -
  let ?ts = "[Constructed 0 16 [Primitive 0 2 [5]]]"
  have e: "encodableTrees ?ts" by (simp add: headLen_def GetLengthOfLength_def)
  have d: "ders ?ts = [0x30, 3, 2, 1, 5]" by (simp add: asn1Tlv_def der_length_def tagByte_def)
  have "\<exists>w w'. putTrees ?ts (InitWriter 8 0 (replicate 64 0)) = (ASN1_NO_ERROR, w) \<and> Finalize w = (ASN1_NO_ERROR, w') \<and>
      take (mWritePoint w') (mBuf w') = ders ?ts \<and> mWritePoint w' = length (ders ?ts)"
  proof (rule writer_encodes_der [OF e])
    show "length (ders ?ts) < 2 ^ 24" unfolding d by simp
    show "int (treeSpaces 8 ?ts) \<le> mBufEnd (InitWriter 8 0 (replicate 64 0))"
      by (simp add: InitWriter_def headLen_def GetLengthOfLength_def)
  qed simp
  then show ?thesis using e unfolding d by blast
qed

text \<open>
  The size of an element is computed in 16 bits before it is compared with the room that is left: a value of 65532 bytes passes the
  test in a buffer with four bytes, and the copy runs over the end of the buffer.
\<close>

theorem long_value_passes_the_check:
  assumes "length val = 65532" and "tag < 0x1F"
    and "int (mWritePoint w) + 4 \<le> listStart w" and "listStart w < int (mWritePoint w) + 65536"
  shows "fst (PutValue w cls tag con val) = ASN1_MEMORY_FAULT"
proof -
  have l: "GetLengthOfLength 65532 = 3" by (simp add: GetLengthOfLength_def)
  have e: "length (EncodeLength 3 65532) = 3" by (simp add: EncodeLength_def)
  obtain w1 where w1: "EncodeHead w cls tag con 65532 = (ASN1_NO_ERROR, w1)" "mWritePoint w1 = mWritePoint w + 4" "listStart w1 = listStart w"
    using assms(2,3) e by (simp add: EncodeHead_def Let_def l writeBytes_def not_le listStart_def)
  then show ?thesis using assms(1,4) by (simp add: PutValue_def writeBytes_def)
qed

end
