(* ===== verification/Asn1_Reader.thy ===== *)
theory Asn1_Reader
  imports Asn1_Writer
begin

text \<open>
  The ASN.1 reader (\<^verbatim>\<open>src/src/lib/support/ASN1Reader.cpp\<close>).  The input is a list of bytes and a pointer an offset into it, which may
  lie behind its end; the address treeSpace is taken to be larger than any offset.  \<^verbatim>\<open>mSavedContexts\<close> is a stack, newest first.
  Reading a byte behind the input is the error \<open>ASN1_MEMORY_FAULT\<close>.  A loop that need not end is a partial function; \<open>None\<close> is not returning.
\<close>

section \<open>State\<close>

record ASN1ParseContext =
  cElemStart :: nat
  cHeadLen :: u32
  cValueLen :: u32
  cIsIndefiniteLen :: bool
  cContainerEnd :: nat

record ASN1Reader =
  rInput :: "u8 list"
  rClass :: u8
  rTag :: u32
  rValue :: "nat option"
  rValueLen :: u32
  rIsConstructed :: bool
  rIsIndefiniteLen :: bool
  rIsEndOfContents :: bool
  mElemStart :: nat
  mContainerEnd :: nat
  mHeadLen :: u32
  mSavedContexts :: "ASN1ParseContext list"

definition ResetElementState :: "ASN1Reader \<Rightarrow> ASN1Reader" where
  "ResetElementState r =
     r\<lparr>rClass := 0, rTag := 0, rValue := None, rValueLen := 0, rIsConstructed := False, rIsIndefiniteLen := False,
       rIsEndOfContents := False, mHeadLen := 0\<rparr>"

definition InitReader :: "u8 list \<Rightarrow> ASN1Reader" where
  "InitReader buf =
     \<lparr>rInput = buf, rClass = 0, rTag = 0, rValue = None, rValueLen = 0, rIsConstructed = False, rIsIndefiniteLen = False,
      rIsEndOfContents = False, mElemStart = 0, mContainerEnd = length buf, mHeadLen = 0, mSavedContexts = []\<rparr>"

section \<open>Heads\<close>

text \<open>
  The loop over the bytes of a long tag.  It does not advance \<^verbatim>\<open>p\<close>: every round reads the same byte \<open>b\<close>.  The result is an error and
  the tag so far.
\<close>

partial_function (option) tagLoop :: "u8 \<Rightarrow> u32 \<Rightarrow> (ASN1_ERROR \<times> u32) option" where
  "tagLoop b tag =
     (if tag AND 0xFE000000 \<noteq> 0 then Some (ASN1_ERROR_TAG_OVERFLOW, tag)
      else
        let tag' = push_bit 7 tag OR ucast (b AND 0x7F)
        in if b AND 0x80 \<noteq> 0 then tagLoop b tag' else Some (ASN1_NO_ERROR, tag'))"

declare tagLoop.simps [code]

definition decodeTag :: "u8 list \<Rightarrow> nat \<Rightarrow> u8 \<Rightarrow> (ASN1_ERROR \<times> u32) option" where
  "decodeTag buf p first =
     (if first AND 0x1F = 0x1F
      then if p \<ge> length buf then Some (ASN1_ERROR_UNDERRUN, 0) else tagLoop (buf ! p) 0
      else Some (ASN1_NO_ERROR, ucast (first AND 0x1F)))"

text \<open>The bytes of a long length: the error, the pointer behind them and the length so far.\<close>

fun lenLoop :: "u8 list \<Rightarrow> nat \<Rightarrow> nat \<Rightarrow> u32 \<Rightarrow> ASN1_ERROR \<times> nat \<times> u32" where
  "lenLoop buf 0 p len = (ASN1_NO_ERROR, p, len)"
| "lenLoop buf (Suc lenLen) p len =
     (if p \<ge> length buf then (ASN1_ERROR_UNDERRUN, p, len)
      else if len AND 0xFF000000 \<noteq> 0 then (ASN1_ERROR_LENGTH_OVERFLOW, p, len)
      else lenLoop buf lenLen (p + 1) (push_bit 8 len OR ucast (buf ! p)))"

text \<open>The length field at \<open>p\<close>: an error, the pointer behind it, the length and whether it is indefinite.\<close>

definition decodeLength :: "u8 list \<Rightarrow> nat \<Rightarrow> ASN1_ERROR \<times> nat \<times> u32 \<times> bool" where
  "decodeLength buf p =
     (if buf ! p AND 0x80 = 0 then (ASN1_NO_ERROR, p + 1, ucast (buf ! p AND 0x7F), False)
      else if buf ! p = 0x80 then (ASN1_NO_ERROR, p + 1, 0, True)
      else let (err, q, len) = lenLoop buf (unat (buf ! p AND 0x7F)) (p + 1) 0 in (err, q, len, False))"

definition DecodeHead :: "ASN1Reader \<Rightarrow> (ASN1_ERROR \<times> ASN1Reader) option" where
  "DecodeHead r =
     (let p = mElemStart r; buf = rInput r in
      if p \<ge> length buf then Some (ASN1_ERROR_UNDERRUN, r)
      else
        let first = buf ! p;
            r = r\<lparr>rClass := first AND 0xC0, rIsConstructed := first AND 0x20 \<noteq> 0\<rparr>
        in Option.bind (decodeTag buf (p + 1) first) (\<lambda>(err, tag).
          let r = r\<lparr>rTag := tag\<rparr> in
          if err \<noteq> ASN1_NO_ERROR then Some (err, r)
          else if p + 1 \<ge> length buf then Some (ASN1_ERROR_UNDERRUN, r)
          else
            let (err, q, len, indefinite) = decodeLength buf (p + 1);
                r = r\<lparr>rValueLen := len\<rparr>
            in if err \<noteq> ASN1_NO_ERROR then Some (err, r)
               else Some (ASN1_NO_ERROR,
                      r\<lparr>rIsIndefiniteLen := indefinite, mHeadLen := of_nat (q - p),
                        rIsEndOfContents := (rClass r = 0 \<and> tag = 0 \<and> \<not> rIsConstructed r \<and> len = 0),
                        rValue := Some q\<rparr>)))"

section \<open>Moving\<close>

definition Next_asn1 :: "ASN1Reader \<Rightarrow> (ASN1_ERROR \<times> ASN1Reader) option" where
  "Next_asn1 r =
     (if rIsEndOfContents r then Some (ASN1_END, r)
      else if rIsIndefiniteLen r then Some (ASN1_ERROR_UNSUPPORTED_ENCODING, r)
      else
        let r = ResetElementState (r\<lparr>mElemStart := mElemStart r + unat (mHeadLen r + rValueLen r)\<rparr>) in
        if mElemStart r = mContainerEnd r then Some (ASN1_END, r) else DecodeHead r)"

definition EnterContainer_asn1 :: "nat \<Rightarrow> ASN1Reader \<Rightarrow> ASN1_ERROR \<times> ASN1Reader" where
  "EnterContainer_asn1 offset r =
     (if length (mSavedContexts r) = 32 then (ASN1_ERROR_MAX_DEPTH_EXCEEDED, r)
      else
        case rValue r of
          None \<Rightarrow> (ASN1_MEMORY_FAULT, r)
        | Some vp \<Rightarrow>
            let ctx = \<lparr>cElemStart = mElemStart r, cHeadLen = mHeadLen r, cValueLen = rValueLen r,
                       cIsIndefiniteLen = rIsIndefiniteLen r, cContainerEnd = mContainerEnd r\<rparr>;
                r1 = r\<lparr>mSavedContexts := ctx # mSavedContexts r, mElemStart := vp + offset,
                       mContainerEnd := (if rIsIndefiniteLen r then mContainerEnd r else vp + unat (rValueLen r))\<rparr>
            in (ASN1_NO_ERROR, ResetElementState r1))"

definition EnterConstructedType :: "ASN1Reader \<Rightarrow> ASN1_ERROR \<times> ASN1Reader" where
  "EnterConstructedType r = (if \<not> rIsConstructed r then (ASN1_ERROR_INVALID_STATE, r) else EnterContainer_asn1 0 r)"

definition EnterEncapsulatedType :: "ASN1Reader \<Rightarrow> ASN1_ERROR \<times> ASN1Reader" where
  "EnterEncapsulatedType r =
     (if rClass r \<noteq> 0 \<or> rTag r \<noteq> 4 \<and> rTag r \<noteq> 3 then (ASN1_ERROR_INVALID_STATE, r)
      else if rIsConstructed r then (ASN1_ERROR_UNSUPPORTED_ENCODING, r)
      else EnterContainer_asn1 (if rTag r = 3 then 1 else 0) r)"

definition ExitContainer_asn1 :: "ASN1Reader \<Rightarrow> ASN1_ERROR \<times> ASN1Reader" where
  "ExitContainer_asn1 r =
     (case mSavedContexts r of
        [] \<Rightarrow> (ASN1_ERROR_INVALID_STATE, r)
      | prev # ctxs \<Rightarrow>
          let r = r\<lparr>mSavedContexts := ctxs\<rparr> in
          if cIsIndefiniteLen prev then (ASN1_ERROR_UNSUPPORTED_ENCODING, r)
          else (ASN1_NO_ERROR, ResetElementState
                 (r\<lparr>mElemStart := cElemStart prev + unat (cHeadLen prev) + unat (cValueLen prev),
                    mContainerEnd := cContainerEnd prev\<rparr>)))"

definition ExitConstructedType :: "ASN1Reader \<Rightarrow> ASN1_ERROR \<times> ASN1Reader" where
  "ExitConstructedType r = ExitContainer_asn1 r"

definition ExitEncapsulatedType :: "ASN1Reader \<Rightarrow> ASN1_ERROR \<times> ASN1Reader" where
  "ExitEncapsulatedType r = ExitContainer_asn1 r"

definition IsContained :: "ASN1Reader \<Rightarrow> bool" where
  "IsContained r \<longleftrightarrow> length (mSavedContexts r) > 0"

section \<open>Values\<close>

text \<open>\<^verbatim>\<open>mElemStart + mHeadLen + ValueLen > mContainerEnd\<close>\<close>

definition passesContainer :: "ASN1Reader \<Rightarrow> bool" where
  "passesContainer r \<longleftrightarrow> mElemStart r + unat (mHeadLen r) + unat (rValueLen r) > mContainerEnd r"

text \<open>The bytes of the value, if all of them are in the input; where the source reads only some of them it reads the same ones.\<close>

definition valueBytes :: "ASN1Reader \<Rightarrow> nat \<Rightarrow> u8 list option" where
  "valueBytes r vp =
     (if vp + unat (rValueLen r) \<le> length (rInput r) then Some (take (unat (rValueLen r)) (drop vp (rInput r))) else None)"

fun shiftIn :: "u64 \<Rightarrow> u8 list \<Rightarrow> u64" where
  "shiftIn val [] = val"
| "shiftIn val (b # bs) = shiftIn (push_bit 8 val OR ucast b) bs"

definition GetInteger :: "ASN1Reader \<Rightarrow> ASN1_ERROR + u64" where
  "GetInteger r =
     (case rValue r of
        None \<Rightarrow> Inl ASN1_ERROR_INVALID_STATE
      | Some vp \<Rightarrow>
          if rValueLen r < 1 then Inl ASN1_ERROR_INVALID_ENCODING
          else if rValueLen r > 8 then Inl ASN1_ERROR_VALUE_OVERFLOW
          else if passesContainer r then Inl ASN1_ERROR_UNDERRUN
          else
            (case valueBytes r vp of
              None \<Rightarrow> Inl ASN1_MEMORY_FAULT
            | Some bs \<Rightarrow> Inr (shiftIn (if hd bs AND 0x80 = 0 then 0 else -1) bs)))"

definition GetBoolean_asn1 :: "ASN1Reader \<Rightarrow> ASN1_ERROR + bool" where
  "GetBoolean_asn1 r =
     (case rValue r of
        None \<Rightarrow> Inl ASN1_ERROR_INVALID_STATE
      | Some vp \<Rightarrow>
          if rValueLen r \<noteq> 1 then Inl ASN1_ERROR_INVALID_ENCODING
          else if passesContainer r then Inl ASN1_ERROR_UNDERRUN
          else
            (case valueBytes r vp of
              None \<Rightarrow> Inl ASN1_MEMORY_FAULT
            | Some bs \<Rightarrow>
                if hd bs = 0 then Inr False else if hd bs = 0xFF then Inr True else Inl ASN1_ERROR_INVALID_ENCODING))"

definition isdigit :: "u8 \<Rightarrow> bool" where
  "isdigit c \<longleftrightarrow> 48 \<le> c \<and> c \<le> 57"

definition digits2 :: "u8 list \<Rightarrow> nat \<Rightarrow> nat" where
  "digits2 bs i = (unat (bs ! i) - 48) * 10 + (unat (bs ! (i + 1)) - 48)"

definition GetUTCTime :: "ASN1Reader \<Rightarrow> ASN1_ERROR + ASN1UniversalTime" where
  "GetUTCTime r =
     (case rValue r of
        None \<Rightarrow> Inl ASN1_ERROR_INVALID_STATE
      | Some vp \<Rightarrow>
          if rValueLen r < 1 then Inl ASN1_ERROR_INVALID_ENCODING
          else if passesContainer r then Inl ASN1_ERROR_UNDERRUN
          else if rValueLen r \<noteq> 13 then Inl ASN1_ERROR_UNSUPPORTED_ENCODING
          else
            (case valueBytes r vp of
              None \<Rightarrow> Inl ASN1_MEMORY_FAULT
            | Some bs \<Rightarrow>
                if bs ! 12 \<noteq> 90 then Inl ASN1_ERROR_UNSUPPORTED_ENCODING
                else if \<not> list_all isdigit (take 12 bs) then Inl ASN1_ERROR_INVALID_ENCODING
                else
                  let year = digits2 bs 0 in
                  Inr \<lparr>tYear = of_nat (if year \<ge> 50 then year + 1900 else year + 2000), tMonth = of_nat (digits2 bs 2),
                       tDay = of_nat (digits2 bs 4), tHour = of_nat (digits2 bs 6), tMinute = of_nat (digits2 bs 8),
                       tSecond = of_nat (digits2 bs 10)\<rparr>))"

definition GetGeneralizedTime :: "ASN1Reader \<Rightarrow> ASN1_ERROR + ASN1UniversalTime" where
  "GetGeneralizedTime r =
     (case rValue r of
        None \<Rightarrow> Inl ASN1_ERROR_INVALID_STATE
      | Some vp \<Rightarrow>
          if rValueLen r < 1 then Inl ASN1_ERROR_INVALID_ENCODING
          else if passesContainer r then Inl ASN1_ERROR_UNDERRUN
          else if rValueLen r \<noteq> 15 then Inl ASN1_ERROR_UNSUPPORTED_ENCODING
          else
            (case valueBytes r vp of
              None \<Rightarrow> Inl ASN1_MEMORY_FAULT
            | Some bs \<Rightarrow>
                if bs ! 14 \<noteq> 90 then Inl ASN1_ERROR_UNSUPPORTED_ENCODING
                else if \<not> list_all isdigit (take 14 bs) then Inl ASN1_ERROR_INVALID_ENCODING
                else
                  Inr \<lparr>tYear = of_nat (digits2 bs 0 * 100 + digits2 bs 2), tMonth = of_nat (digits2 bs 4),
                       tDay = of_nat (digits2 bs 6), tHour = of_nat (digits2 bs 8), tMinute = of_nat (digits2 bs 10),
                       tSecond = of_nat (digits2 bs 12)\<rparr>))"

fun orBits :: "nat \<Rightarrow> u8 list \<Rightarrow> u32" where
  "orBits shift [] = 0"
| "orBits shift (b # bs) = push_bit shift (ucast (ReverseBits b)) OR orBits (shift + 8) bs"

definition GetBitString :: "ASN1Reader \<Rightarrow> ASN1_ERROR + u32" where
  "GetBitString r =
     (case rValue r of
        None \<Rightarrow> Inl ASN1_ERROR_INVALID_STATE
      | Some vp \<Rightarrow>
          if rValueLen r < 1 then Inl ASN1_ERROR_INVALID_ENCODING
          else if rValueLen r > 5 then Inl ASN1_ERROR_UNSUPPORTED_ENCODING
          else if passesContainer r then Inl ASN1_ERROR_UNDERRUN
          else if rValueLen r = 1 then Inr 0
          else
            (case valueBytes r vp of
              None \<Rightarrow> Inl ASN1_MEMORY_FAULT
            | Some bs \<Rightarrow> Inr (orBits 0 (tl bs))))"

section \<open>Printing an encoding\<close>

text \<open>\<^verbatim>\<open>DumpASN1\<close>: the name it prints for an element, and a line, with its nesting and the length (\<open>None\<close> if indefinite).\<close>

definition typeName :: "bool \<Rightarrow> u8 \<Rightarrow> u32 \<Rightarrow> string \<times> u32 option" where
  "typeName isEndOfContents cls tag =
     (if isEndOfContents then (''END-OF-CONTENTS'', None)
      else if cls = 0 then
        if tag = 1 then (''BOOLEAN'', None) else if tag = 2 then (''INTEGER'', None)
        else if tag = 3 then (''BIT STRING'', None) else if tag = 4 then (''OCTET STRING'', None)
        else if tag = 5 then (''NULL'', None) else if tag = 6 then (''OBJECT IDENTIFIER'', None)
        else if tag = 7 then (''OBJECT DESCRIPTOR'', None) else if tag = 8 then (''EXTERNAL'', None)
        else if tag = 9 then (''REAL'', None) else if tag = 10 then (''ENUMERATED'', None)
        else if tag = 16 then (''SEQUENCE'', None) else if tag = 17 then (''SET'', None)
        else if tag \<in> {18, 19, 20, 21, 22, 25, 26, 27} then (''STRING'', None)
        else if tag \<in> {23, 24} then (''TIME'', None)
        else (''UNIVERSAL'', Some (tag))
      else if cls = 0x40 then (''APPLICATION'', Some (tag))
      else if cls = 0x80 then ('''', Some (tag))
      else if cls = 0xC0 then (''PRIVATE'', Some (tag))
      else ('''', None))"

record dumpLine =
  nesting :: int
  name :: "string \<times> u32 option"
  constructed :: bool
  lineLength :: "u32 option"

definition dumpLineOf :: "int \<Rightarrow> ASN1Reader \<Rightarrow> dumpLine" where
  "dumpLineOf nestLevel r =
     \<lparr>nesting = nestLevel, name = typeName (rIsEndOfContents r) (rClass r) (rTag r), constructed = rIsConstructed r,
      lineLength = (if rIsIndefiniteLen r then None else Some (rValueLen r))\<rparr>"

partial_function (option) dumpLoop :: "ASN1Reader \<Rightarrow> int \<Rightarrow> dumpLine list \<Rightarrow> (ASN1_ERROR \<times> dumpLine list) option" where
  "dumpLoop r nestLevel out =
     Option.bind (Next_asn1 r) (\<lambda>(err, r).
       if err = ASN1_END then
         if IsContained r then
           (case ExitConstructedType r of (err, r) \<Rightarrow>
              if err \<noteq> ASN1_NO_ERROR then Some (err, out) else dumpLoop r (nestLevel - 1) out)
         else Some (err, out)
       else if err \<noteq> ASN1_NO_ERROR then Some (err, out)
       else
         (let out = out @ [dumpLineOf nestLevel r] in
          if rIsConstructed r then
            (case EnterConstructedType r of (err, r) \<Rightarrow>
               if err \<noteq> ASN1_NO_ERROR then Some (err, out) else dumpLoop r (nestLevel + 1) out)
          else dumpLoop r nestLevel out))"

declare dumpLoop.simps [code]

definition DumpASN1 :: "ASN1Reader \<Rightarrow> (ASN1_ERROR \<times> dumpLine list) option" where
  "DumpASN1 r = dumpLoop r 0 []"

end
