(* ===== verification/Asn1_Oid.thy ===== *)
theory Asn1_Oid
  imports Asn1_Reader
begin

text \<open>
  Object identifiers (\<^verbatim>\<open>src/src/lib/support/ASN1OID.cpp\<close>): the tables of \<^verbatim>\<open>ASN1OID.h\<close>, which end with an entry that the loops, over
  \<^verbatim>\<open>sOIDTableSize\<close> entries, do not reach, and the lookups in both directions.
\<close>

type_synonym OID = u16

definition sOIDTable :: "(OID \<times> u8 list) list" where
  "sOIDTable =
    [(0x0101, [42, 134, 72, 134, 247, 13, 1, 1, 1]), (0x0102, [42, 134, 72, 206, 61, 2, 1]), (0x0103, [43, 129, 4, 1, 12]),
     (0x0104, [43, 129, 4, 1, 13]), (0x0201, [42, 134, 72, 134, 247, 13, 1, 1, 2]),
     (0x0202, [42, 134, 72, 134, 247, 13, 1, 1, 4]), (0x0203, [42, 134, 72, 134, 247, 13, 1, 1, 5]),
     (0x0204, [42, 134, 72, 206, 61, 4, 1]), (0x0205, [42, 134, 72, 206, 61, 4, 3, 2]),
     (0x0206, [42, 134, 72, 134, 247, 13, 2, 9]), (0x0301, [85, 4, 3]), (0x0302, [85, 4, 4]), (0x0303, [85, 4, 5]),
     (0x0304, [85, 4, 6]), (0x0305, [85, 4, 7]), (0x0306, [85, 4, 8]), (0x0307, [85, 4, 10]), (0x0308, [85, 4, 11]),
     (0x0309, [85, 4, 12]), (0x030a, [85, 4, 41]), (0x030b, [85, 4, 42]), (0x030c, [85, 4, 43]), (0x030d, [85, 4, 44]),
     (0x030e, [85, 4, 46]), (0x030f, [85, 4, 65]), (0x0310, [9, 146, 38, 137, 147, 242, 44, 100, 1, 25]),
     (0x0311, [43, 6, 1, 4, 1, 130, 195, 43, 1, 1]), (0x0312, [43, 6, 1, 4, 1, 130, 195, 43, 1, 2]),
     (0x0313, [43, 6, 1, 4, 1, 130, 195, 43, 1, 3]), (0x0314, [43, 6, 1, 4, 1, 130, 195, 43, 1, 4]),
     (0x0401, [42, 134, 72, 206, 61, 3, 0, 1]), (0x0402, [42, 134, 72, 206, 61, 3, 0, 2]),
     (0x0403, [42, 134, 72, 206, 61, 3, 0, 3]), (0x0404, [42, 134, 72, 206, 61, 3, 0, 4]),
     (0x0405, [42, 134, 72, 206, 61, 3, 0, 5]), (0x0406, [42, 134, 72, 206, 61, 3, 0, 6]),
     (0x0407, [42, 134, 72, 206, 61, 3, 0, 7]), (0x0408, [42, 134, 72, 206, 61, 3, 0, 8]),
     (0x0409, [42, 134, 72, 206, 61, 3, 0, 9]), (0x040a, [42, 134, 72, 206, 61, 3, 0, 10]),
     (0x040b, [42, 134, 72, 206, 61, 3, 0, 11]), (0x040c, [42, 134, 72, 206, 61, 3, 0, 12]),
     (0x040d, [42, 134, 72, 206, 61, 3, 0, 13]), (0x040e, [42, 134, 72, 206, 61, 3, 0, 14]),
     (0x040f, [42, 134, 72, 206, 61, 3, 0, 15]), (0x0410, [42, 134, 72, 206, 61, 3, 0, 16]),
     (0x0411, [42, 134, 72, 206, 61, 3, 0, 17]), (0x0412, [42, 134, 72, 206, 61, 3, 0, 18]),
     (0x0413, [42, 134, 72, 206, 61, 3, 0, 19]), (0x0414, [42, 134, 72, 206, 61, 3, 0, 20]),
     (0x0415, [42, 134, 72, 206, 61, 3, 1, 1]), (0x0416, [42, 134, 72, 206, 61, 3, 1, 2]),
     (0x0417, [42, 134, 72, 206, 61, 3, 1, 3]), (0x0418, [42, 134, 72, 206, 61, 3, 1, 4]),
     (0x0419, [42, 134, 72, 206, 61, 3, 1, 5]), (0x041a, [42, 134, 72, 206, 61, 3, 1, 6]),
     (0x041b, [42, 134, 72, 206, 61, 3, 1, 7]), (0x041c, [43, 129, 4, 0, 6]), (0x041d, [43, 129, 4, 0, 7]),
     (0x041e, [43, 129, 4, 0, 28]), (0x041f, [43, 129, 4, 0, 29]), (0x0420, [43, 129, 4, 0, 9]), (0x0421, [43, 129, 4, 0, 8]),
     (0x0422, [43, 129, 4, 0, 30]), (0x0423, [43, 129, 4, 0, 31]), (0x0424, [43, 129, 4, 0, 32]), (0x0425, [43, 129, 4, 0, 33]),
     (0x0426, [43, 129, 4, 0, 10]), (0x0427, [43, 129, 4, 0, 34]), (0x0428, [43, 129, 4, 0, 35]), (0x0429, [43, 129, 4, 0, 4]),
     (0x042a, [43, 129, 4, 0, 5]), (0x042b, [43, 129, 4, 0, 22]), (0x042c, [43, 129, 4, 0, 23]), (0x042d, [43, 129, 4, 0, 1]),
     (0x042e, [43, 129, 4, 0, 2]), (0x042f, [43, 129, 4, 0, 15]), (0x0430, [43, 129, 4, 0, 24]), (0x0431, [43, 129, 4, 0, 25]),
     (0x0432, [43, 129, 4, 0, 26]), (0x0433, [43, 129, 4, 0, 27]), (0x0434, [43, 129, 4, 0, 3]), (0x0435, [43, 129, 4, 0, 16]),
     (0x0436, [43, 129, 4, 0, 17]), (0x0437, [43, 129, 4, 0, 36]), (0x0438, [43, 129, 4, 0, 37]), (0x0439, [43, 129, 4, 0, 38]),
     (0x043a, [43, 129, 4, 0, 39]), (0x0501, [85, 29, 35]), (0x0502, [85, 29, 14]), (0x0503, [85, 29, 15]),
     (0x0504, [85, 29, 19]), (0x0505, [85, 29, 37]), (0x0601, [43, 6, 1, 5, 5, 7, 3, 1]), (0x0602, [43, 6, 1, 5, 5, 7, 3, 2]),
     (0x0603, [43, 6, 1, 5, 5, 7, 3, 3]), (0x0604, [43, 6, 1, 5, 5, 7, 3, 4]), (0x0605, [43, 6, 1, 5, 5, 7, 3, 8]),
     (0x0606, [43, 6, 1, 5, 5, 7, 3, 9])]"

definition sOIDNameTable :: "(OID \<times> string) list" where
  "sOIDNameTable =
    [(0x0101, ''RSAEncryption''), (0x0102, ''ECPublicKey''), (0x0103, ''ECDH''), (0x0104, ''ECMQV''),
     (0x0201, ''MD2WithRSAEncryption''), (0x0202, ''MD5WithRSAEncryption''), (0x0203, ''SHA1WithRSAEncryption''),
     (0x0204, ''ECDSAWithSHA1''), (0x0205, ''ECDSAWithSHA256''), (0x0206, ''HMACWithSHA256''), (0x0301, ''CommonName''),
     (0x0302, ''Surname''), (0x0303, ''SerialNumber''), (0x0304, ''CountryName''), (0x0305, ''LocalityName''),
     (0x0306, ''StateOrProvinceName''), (0x0307, ''OrganizationName''), (0x0308, ''OrganizationalUnitName''),
     (0x0309, ''Title''), (0x030a, ''Name''), (0x030b, ''GivenName''), (0x030c, ''Initials''),
     (0x030d, ''GenerationQualifier''), (0x030e, ''DNQualifier''), (0x030f, ''Pseudonym''), (0x0310, ''DomainComponent''),
     (0x0311, ''WeaveDeviceId''), (0x0312, ''WeaveServiceEndpointId''), (0x0313, ''WeaveCAId''),
     (0x0314, ''WeaveSoftwarePublisherId''), (0x0401, ''c2pnb163v1''), (0x0402, ''c2pnb163v2''), (0x0403, ''c2pnb163v3''),
     (0x0404, ''c2pnb176w1''), (0x0405, ''c2tnb191v1''), (0x0406, ''c2tnb191v2''), (0x0407, ''c2tnb191v3''),
     (0x0408, ''c2onb191v4''), (0x0409, ''c2onb191v5''), (0x040a, ''c2pnb208w1''), (0x040b, ''c2tnb239v1''),
     (0x040c, ''c2tnb239v2''), (0x040d, ''c2tnb239v3''), (0x040e, ''c2onb239v4''), (0x040f, ''c2onb239v5''),
     (0x0410, ''c2pnb272w1''), (0x0411, ''c2pnb304w1''), (0x0412, ''c2tnb359v1''), (0x0413, ''c2pnb368w1''),
     (0x0414, ''c2tnb431r1''), (0x0415, ''prime192v1''), (0x0416, ''prime192v2''), (0x0417, ''prime192v3''),
     (0x0418, ''prime239v1''), (0x0419, ''prime239v2''), (0x041a, ''prime239v3''), (0x041b, ''prime256v1''),
     (0x041c, ''secp112r1''), (0x041d, ''secp112r2''), (0x041e, ''secp128r1''), (0x041f, ''secp128r2''),
     (0x0420, ''secp160k1''), (0x0421, ''secp160r1''), (0x0422, ''secp160r2''), (0x0423, ''secp192k1''),
     (0x0424, ''secp224k1''), (0x0425, ''secp224r1''), (0x0426, ''secp256k1''), (0x0427, ''secp384r1''),
     (0x0428, ''secp521r1''), (0x0429, ''sect113r1''), (0x042a, ''sect113r2''), (0x042b, ''sect131r1''),
     (0x042c, ''sect131r2''), (0x042d, ''sect163k1''), (0x042e, ''sect163r1''), (0x042f, ''sect163r2''),
     (0x0430, ''sect193r1''), (0x0431, ''sect193r2''), (0x0432, ''sect233k1''), (0x0433, ''sect233r1''),
     (0x0434, ''sect239k1''), (0x0435, ''sect283k1''), (0x0436, ''sect283r1''), (0x0437, ''sect409k1''),
     (0x0438, ''sect409r1''), (0x0439, ''sect571k1''), (0x043a, ''sect571r1''), (0x0501, ''AuthorityKeyIdentifier''),
     (0x0502, ''SubjectKeyIdentifier''), (0x0503, ''KeyUsage''), (0x0504, ''BasicConstraints''), (0x0505, ''ExtendedKeyUsage''),
     (0x0601, ''ServerAuth''), (0x0602, ''ClientAuth''), (0x0603, ''CodeSigning''), (0x0604, ''EmailProtection''),
     (0x0605, ''TimeStamping''), (0x0606, ''OCSPSigning'')]"

abbreviation kOID_NotSpecified :: OID where "kOID_NotSpecified \<equiv> 0"
abbreviation kOID_Unknown :: OID where "kOID_Unknown \<equiv> 0xFFFF"

text \<open>A null pointer is \<open>None\<close>.\<close>

definition ParseObjectID :: "u8 list option \<Rightarrow> OID" where
  "ParseObjectID encodedOID =
     (case encodedOID of
        None \<Rightarrow> kOID_NotSpecified
      | Some bs \<Rightarrow>
          if length bs = 0 then kOID_NotSpecified
          else case find (\<lambda>entry. length bs = length (snd entry) \<and> bs = snd entry) sOIDTable of
            Some entry \<Rightarrow> fst entry
          | None \<Rightarrow> kOID_Unknown)"

definition GetEncodedObjectID :: "OID \<Rightarrow> u8 list option" where
  "GetEncodedObjectID oid = map_option snd (find (\<lambda>entry. oid = fst entry) sOIDTable)"

definition GetOIDCategory :: "OID \<Rightarrow> u16" where
  "GetOIDCategory oid =
     (if oid = kOID_Unknown then 0x0F00 else if oid = kOID_NotSpecified then 0 else oid AND 0x0F00)"

definition GetOIDName :: "OID \<Rightarrow> string" where
  "GetOIDName oid =
     (if oid = kOID_Unknown then ''Unknown''
      else if oid = kOID_NotSpecified then ''NotSpecified''
      else case find (\<lambda>entry. oid = fst entry) sOIDNameTable of Some entry \<Rightarrow> snd entry | None \<Rightarrow> ''Unknown'')"

text \<open>The length is passed on as 16 bits; the bytes it counts must lie in the input.\<close>

definition GetObjectId :: "ASN1Reader \<Rightarrow> ASN1_ERROR + OID" where
  "GetObjectId r =
     (case rValue r of
        None \<Rightarrow> Inl ASN1_ERROR_INVALID_STATE
      | Some vp \<Rightarrow>
          if rValueLen r < 1 then Inl ASN1_ERROR_INVALID_ENCODING
          else if passesContainer r then Inl ASN1_ERROR_UNDERRUN
          else
            let encodedOIDLen = unat (ucast (rValueLen r) :: u16) in
            if vp + encodedOIDLen \<le> length (rInput r) then Inr (ParseObjectID (Some (take encodedOIDLen (drop vp (rInput r)))))
            else Inl ASN1_MEMORY_FAULT)"

definition PutObjectId_oid :: "ASN1Writer \<Rightarrow> OID \<Rightarrow> ASN1_ERROR \<times> ASN1Writer" where
  "PutObjectId_oid w oid =
     (case GetEncodedObjectID oid of
        None \<Rightarrow> (ASN1_ERROR_UNKNOWN_OBJECT_ID, w)
      | Some encodedOID \<Rightarrow> PutObjectId w encodedOID)"

section \<open>The two directions of the table\<close>

lemma sOIDTable_distinct: "distinct (map (\<lambda>entry. map uint (snd entry)) sOIDTable)"
  by (simp add: sOIDTable_def)

lemma sOIDTable_encodings: "list_all (\<lambda>entry. snd entry \<noteq> [] \<and> length (snd entry) \<le> 16) sOIDTable"
  by (simp add: sOIDTable_def)

lemma find_snd:
  assumes "distinct (map snd xs)" and "(a, b) \<in> set xs"
  shows "find (\<lambda>entry. b = snd entry) xs = Some (a, b)"
  using assms by (induction xs) (auto simp: rev_image_eqI)

lemma ParseObjectID_encoded:
  assumes "GetEncodedObjectID oid = Some bs"
  shows "ParseObjectID (Some bs) = oid" and "bs \<noteq> []" and "length bs \<le> 16"
proof -
  have d: "distinct (map snd sOIDTable)" using sOIDTable_distinct distinct_map [of "map uint" "map snd sOIDTable"] by (simp add: comp_def)
  obtain entry where f: "find (\<lambda>entry. oid = fst entry) sOIDTable = Some entry" "bs = snd entry"
    using assms by (auto simp: GetEncodedObjectID_def)
  then have e: "(oid, bs) \<in> set sOIDTable" by (auto simp: find_Some_iff dest: nth_mem)
  have eq: "(\<lambda>entry. length bs = length (snd entry) \<and> bs = snd entry) = (\<lambda>entry :: OID \<times> u8 list. bs = snd entry)" by auto
  show ne: "bs \<noteq> []" "length bs \<le> 16" using e sOIDTable_encodings by (auto simp: list_all_iff)
  then show "ParseObjectID (Some bs) = oid" using find_snd [OF d e] by (simp add: ParseObjectID_def eq)
qed

end
