(* ===== verification/Asn1_Decode.thy ===== *)
theory Asn1_Decode
  imports Asn1_Der Asn1_Oid
begin

text \<open>
  Decoding of a head: the length and the tag that the reader finds are those that were encoded.
\<close>

section \<open>Words\<close>

lemma and_high_0:
  fixes v :: u32
  assumes "v AND NOT (mask k) = 0" and "k < 32"
  shows "unat v < 2 ^ k"
proof -
  have "v = take_bit k v"
  proof (rule bit_word_eqI)
    fix n assume "n < LENGTH(32)"
    have "bit (v AND NOT (mask k)) n = bit 0 n" using assms by simp
    then show "bit v n = bit (take_bit k v) n" using \<open>n < LENGTH(32)\<close> by (auto simp: bit_simps)
  qed
  then have "unat v = take_bit k (unat v)" by (metis unsigned_take_bit_eq)
  then show ?thesis by (metis take_bit_nat_less_exp)
qed

lemma take_bit_u32: "unat (v :: u32) < 2 ^ k \<Longrightarrow> take_bit k v = v"
  by (simp add: word_unat_eq_iff unsigned_take_bit_eq take_bit_nat_eq_self)

lemma high_and_0:
  fixes v :: u32
  assumes "unat v < 2 ^ k"
  shows "v AND NOT (mask k) = 0"
proof -
  have "take_bit k v = v" using assms by (rule take_bit_u32)
  then have "v AND NOT (mask k) = take_bit k v AND NOT (mask k)" by simp
  also have "\<dots> = 0" by (rule bit_word_eqI) (auto simp: bit_simps)
  finally show ?thesis .
qed

lemma high_masks: "(0xFE000000 :: u32) = NOT (mask 25)" "(0xFF000000 :: u32) = NOT (mask 24)"
  by (simp_all add: mask_eq_exp_minus_1)

lemma unat_shift_in:
  fixes v w :: u32
  assumes "unat v < 2 ^ (32 - k)" and "unat w < 2 ^ k" and "k \<le> 32"
  shows "unat (push_bit k v OR w) = unat v * 2 ^ k + unat w"
proof -
  have w: "take_bit k w = w" using assms(2) by (rule take_bit_u32)
  have "push_bit k v AND w = 0"
  proof (rule bit_word_eqI)
    fix n
    have "bit w n \<Longrightarrow> n < k" using w by (metis bit_take_bit_iff)
    then show "bit (push_bit k v AND w) n = bit 0 n" by (auto simp: bit_simps)
  qed
  then have s: "push_bit k v OR w = push_bit k v + w" by (simp add: disjunctive_add_eq_or)
  have lt: "unat v * 2 ^ k + unat w < 2 ^ 32"
  proof -
    have "unat v * 2 ^ k + unat w < (unat v + 1) * 2 ^ k" using assms(2) by simp
    also have "\<dots> \<le> 2 ^ (32 - k) * 2 ^ k" using assms(1) by (intro mult_right_mono) simp_all
    also have "\<dots> = 2 ^ 32" using assms(3) by (simp flip: power_add)
    finally show ?thesis .
  qed
  have "push_bit k v + w = of_nat (unat v * 2 ^ k + unat w)" by (simp add: push_bit_eq_mult)
  then show ?thesis using unat_of_nat_u32 [OF lt] s by metis
qed

lemma take_prefix: "take (length (xs @ ys)) m = xs @ ys \<Longrightarrow> take (length xs) m = xs"
  by (erule take_prefixE) simp

section \<open>Decoding the length\<close>

fun be_value :: "nat \<Rightarrow> u8 list \<Rightarrow> nat" where
  "be_value x [] = x"
| "be_value x (b # bs) = be_value (x * 256 + unat b) bs"

lemma be_value_append: "be_value x (xs @ ys) = be_value (be_value x xs) ys"
  by (induction x xs rule: be_value.induct) auto

lemma be_value_be_bytes: "be_value 0 (be_bytes n) = n"
proof (induction n rule: be_bytes.induct)
  case (1 n)
  have u: "unat (of_nat n :: u8) = n mod 256" by (simp add: unat_of_nat take_bit_eq_mod)
  show ?case
  proof (cases "n = 0")
    case True
    then show ?thesis by (simp add: be_bytes.simps)
  next
    case False
    have "be_bytes n = be_bytes (n div 256) @ [of_nat n]" using False by (subst be_bytes.simps) simp
    then show ?thesis using 1 [OF False] u by (simp add: be_value_append)
  qed
qed

lemma be_value_mono: "x * 256 ^ length bs \<le> be_value x bs"
proof (induction x bs rule: be_value.induct)
  case (2 x b bs)
  have "x * 256 ^ length (b # bs) \<le> (x * 256 + unat b) * 256 ^ length bs" by (simp add: algebra_simps)
  also have "\<dots> \<le> be_value (x * 256 + unat b) bs" by (rule 2)
  finally show ?case by simp
qed simp

lemma unat_ucast_u8: "unat (ucast (b :: u8) :: u32) = unat b"
  by (simp add: unsigned_ucast_eq take_bit_nat_eq_self_iff order_less_le_trans [OF unsigned_less])

lemma lenLoop_bytes:
  "\<lbrakk>take (length bs) (drop p buf) = bs; be_value (unat v) bs < 2 ^ 32\<rbrakk> \<Longrightarrow>
    lenLoop buf (length bs) p v = (ASN1_NO_ERROR, p + length bs, of_nat (be_value (unat v) bs))"
proof (induction bs arbitrary: p v)
  case Nil
  then show ?case by simp
next
  case (Cons b bs)
  obtain r where r: "drop p buf = (b # bs) @ r" using Cons.prems(1) by (rule take_prefixE)
  have p: "p < length buf" "buf ! p = b" using r nth_drop_hd [of p buf b] by (auto intro: ccontr)
  have "unat v * 256 ^ length (b # bs) < 2 ^ 32" using be_value_mono [of "unat v" "b # bs"] Cons.prems(2) by linarith
  moreover have "unat v * 256 \<le> unat v * 256 ^ length (b # bs)" by simp
  ultimately have "unat v * 256 < 2 ^ 32" by linarith
  then have v: "unat v < 2 ^ 24" by simp
  have u: "unat (push_bit 8 v OR ucast b) = unat v * 256 + unat b"
    using unat_shift_in [of v 8 "ucast b"] v by (simp add: unat_ucast_u8 order_less_le_trans [OF unsigned_less])
  have "take (length bs) (drop (p + 1) buf) = bs" using take_after [of "[b]" bs p buf] Cons.prems(1) by simp
  then have "lenLoop buf (length bs) (p + 1) (push_bit 8 v OR ucast b) =
      (ASN1_NO_ERROR, p + 1 + length bs, of_nat (be_value (unat v * 256 + unat b) bs))"
    using Cons.IH [of "p + 1" "push_bit 8 v OR ucast b"] Cons.prems(2) u by simp
  then show ?case using p high_and_0 [OF v] by (simp add: high_masks)
qed

lemma decodeLength_der:
  assumes t: "take (length (der_length n)) (drop p buf) = der_length n" and n: "n < 2 ^ 32"
  shows "p < length buf" and "decodeLength buf p = (ASN1_NO_ERROR, p + length (der_length n), of_nat n, False)"
proof -
  obtain r where r: "drop p buf = der_length n @ r" using t by (rule take_prefixE)
  then show p: "p < length buf" by (auto simp: der_length_def split: if_splits intro: ccontr)
  show "decodeLength buf p = (ASN1_NO_ERROR, p + length (der_length n), of_nat n, False)"
  proof (cases "n < 128")
    case True
    have b: "buf ! p = of_nat n" using r True nth_drop_hd [of p buf] by (simp add: der_length_def)
    have "take_bit 7 (of_nat n :: u8) = of_nat n"
      using True by (simp add: take_bit_of_nat take_bit_nat_eq_self)
    then have m: "(of_nat n :: u8) = of_nat n AND 0x7F" by (simp add: take_bit_eq_mask mask_eq_exp_minus_1)
    then have "(of_nat n :: u8) AND 0x80 = of_nat n AND (0x7F AND 0x80)" by (metis and.assoc)
    moreover have "ucast (of_nat n :: u8) = (of_nat n :: u32)"
      using True by (simp add: word_unat_eq_iff unat_ucast_u8 unat_of_nat take_bit_nat_eq_self)
    ultimately show ?thesis using b m True by (simp add: decodeLength_def der_length_def)
  next
    case False
    define k where "k = length (be_bytes n)"
    have "k + 1 = GetLengthOfLength (int n)" using length_der_length [OF n] False by (simp add: der_length_def k_def)
    then have "k = 1 \<or> k = 2 \<or> k = 3 \<or> k = 4"
      using GetLengthOfLength_long [of n] False n by auto
    then have k: "(of_nat (128 + k) :: u8) AND 0x80 \<noteq> 0" "(of_nat (128 + k) :: u8) \<noteq> 0x80"
      "unat ((of_nat (128 + k) :: u8) AND 0x7F) = k" by auto
    have b: "buf ! p = of_nat (128 + k)" using r False nth_drop_hd [of p buf] by (simp add: der_length_def k_def)
    have "take (length (be_bytes n)) (drop (p + 1) buf) = be_bytes n"
      using take_after [of "[of_nat (128 + k)]" "be_bytes n" p buf] t False by (simp add: der_length_def k_def)
    then have "lenLoop buf k (p + 1) 0 = (ASN1_NO_ERROR, p + 1 + k, of_nat n)"
      using lenLoop_bytes [of "be_bytes n" "p + 1" buf 0] n by (simp add: be_value_be_bytes k_def)
    then show ?thesis using b k False by (simp add: decodeLength_def der_length_def k_def)
  qed
qed

section \<open>Decoding a head\<close>

definition tagClass :: "u8 \<Rightarrow> bool" where
  "tagClass cls \<longleftrightarrow> cls AND 0x3F = 0"

lemma tagByte_fields:
  assumes c: "tagClass cls" and t: "tag < 0x1F"
  shows "tagByte cls tag con AND 0xC0 = cls" and "(tagByte cls tag con AND 0x20 \<noteq> 0) = con"
    and "ucast (tagByte cls tag con AND 0x1F) = tag" and "tagByte cls tag con AND 0x1F \<noteq> 0x1F"
proof -
  have m: "(0xC0 :: u8) = NOT (mask 6)" "(0x3F :: u8) = mask 6" "(0x1F :: u8) = mask 5"
    by (simp_all add: mask_eq_exp_minus_1)
  have b20: "bit (0x20 :: int) n \<longleftrightarrow> n = 5" for n
    using bit_exp_iff [of 5 n, where 'a = int] by auto
  have "unat tag < 2 ^ 5" using t by (simp add: word_less_nat_alt)
  then have tag: "take_bit 5 tag = tag" by (rule take_bit_u32)
  then have bt: "bit tag n \<Longrightarrow> n < 5" for n by (metis bit_take_bit_iff)
  have bc: "bit cls n \<Longrightarrow> 6 \<le> n" for n
    using c bit_and_iff [of cls "mask 6" n] by (auto simp: tagClass_def m(2) bit_simps)
  show "tagByte cls tag con AND 0xC0 = cls"
    unfolding m tagByte_def by (rule bit_word_eqI) (auto simp: bit_simps b20 dest: bc bt)
  have "bit (tagByte cls tag con AND 0x20) n = (con \<and> n = 5)" for n
    unfolding m tagByte_def by (auto simp: bit_simps b20 dest: bc bt)
  then show "(tagByte cls tag con AND 0x20 \<noteq> 0) = con" by (metis bit_0_eq bot_apply bot_bool_def bit_word_eqI)
  have low: "tagByte cls tag con AND 0x1F = ucast tag"
    unfolding m tagByte_def by (rule bit_word_eqI) (auto simp: bit_simps b20 dest: bc bt)
  have "ucast (ucast tag :: u8) = tag" by (rule bit_word_eqI) (auto simp: bit_simps dest: bt)
  then show l: "ucast (tagByte cls tag con AND 0x1F) = tag" unfolding low .
  show "tagByte cls tag con AND 0x1F \<noteq> 0x1F"
  proof
    assume a: "tagByte cls tag con AND 0x1F = 0x1F"
    have "tag = 0x1F" using l unfolding a by simp
    then show False using t by simp
  qed
qed

text \<open>The state of a reader on an element.\<close>

definition onElement :: "ASN1Reader \<Rightarrow> nat \<Rightarrow> u8 \<Rightarrow> u32 \<Rightarrow> bool \<Rightarrow> nat \<Rightarrow> ASN1Reader" where
  "onElement r p cls tag con n =
     r\<lparr>rClass := cls, rTag := tag, rValue := Some (p + headLen n), rValueLen := of_nat n, rIsConstructed := con,
       rIsIndefiniteLen := False, rIsEndOfContents := (cls = 0 \<and> tag = 0 \<and> \<not> con \<and> n = 0), mElemStart := p,
       mHeadLen := of_nat (headLen n)\<rparr>"

lemma of_nat_u32_0: "n < 2 ^ 32 \<Longrightarrow> (of_nat n :: u32) = 0 \<longleftrightarrow> n = 0"
  by (simp add: word_unat_eq_iff unat_of_nat_u32)

lemma DecodeHead_asn1Tlv:
  assumes t: "take (length (asn1Tlv (tagByte cls tag con) val)) (drop (mElemStart r) (rInput r)) = asn1Tlv (tagByte cls tag con) val"
    and c: "tagClass cls" and tag: "tag < 0x1F" and n: "length val < 2 ^ 32"
  shows "DecodeHead r = Some (ASN1_NO_ERROR, onElement r (mElemStart r) cls tag con (length val))"
proof -
  let ?p = "mElemStart r" and ?b = "tagByte cls tag con" and ?n = "length val" and ?buf = "rInput r"
  obtain q where q: "drop ?p ?buf = asn1Tlv ?b val @ q" using t by (rule take_prefixE)
  have p: "?p < length ?buf" "?buf ! ?p = ?b"
    using q nth_drop_hd [of ?p ?buf ?b] by (auto simp: asn1Tlv_def intro: ccontr)
  have "take (length (der_length ?n @ val)) (drop (?p + length [?b]) ?buf) = der_length ?n @ val"
    using t by (intro take_after) (simp add: asn1Tlv_def)
  from take_prefix [OF this] have l: "take (length (der_length ?n)) (drop (?p + 1) ?buf) = der_length ?n" by simp
  note dl = decodeLength_der [OF l n]
  have h: "length (der_length ?n) + 1 = headLen ?n" by (simp add: headLen_def length_der_length [OF n])
  then have h2: "Suc (?p + length (der_length ?n)) = ?p + headLen ?n" by simp
  note tf = tagByte_fields [OF c tag, of con]
  have "decodeTag ?buf (?p + 1) ?b = Some (ASN1_NO_ERROR, tag)" using tf(3,4) by (simp add: decodeTag_def)
  then show ?thesis
    using p dl tf(1,2) h2 of_nat_u32_0 [OF n] by (simp add: DecodeHead_def Let_def onElement_def)
qed

end
