(* ===== verification/Asn1_Dump.thy ===== *)
theory Asn1_Dump
  imports Asn1_Decode
begin

text \<open>
  Walking through an encoding: \<^verbatim>\<open>DumpASN1\<close> on the DER encoding of a sequence of trees prints one line for every element.
\<close>

section \<open>The lines of a tree\<close>

definition lineOf :: "int \<Rightarrow> u8 \<Rightarrow> u32 \<Rightarrow> bool \<Rightarrow> nat \<Rightarrow> dumpLine" where
  "lineOf nest cls tag con n = \<lparr>nesting = nest, name = typeName False cls tag, constructed = con, lineLength = Some (of_nat n)\<rparr>"

primrec listing :: "int \<Rightarrow> asn1 \<Rightarrow> dumpLine list" and listings :: "int \<Rightarrow> asn1 list \<Rightarrow> dumpLine list" where
  "listing nest (Primitive cls tag val) = [lineOf nest cls tag False (length val)]"
| "listing nest (Constructed cls tag kids) = lineOf nest cls tag True (length (ders kids)) # listings (nest + 1) kids"
| "listing nest (Encapsulated cls tag bits kids) = [lineOf nest cls tag False ((if bits then 1 else 0) + length (ders kids))]"
| "listings nest [] = []"
| "listings nest (t # ts) = listing nest t @ listings nest ts"

text \<open>
  What the reader can walk through: tags of one byte, no element that looks like the end of contents, and constructed elements nested no
  deeper than the contexts that can be saved.
\<close>

primrec walkable :: "nat \<Rightarrow> asn1 \<Rightarrow> bool" and walkables :: "nat \<Rightarrow> asn1 list \<Rightarrow> bool" where
  "walkable d (Primitive cls tag val) = (tagClass cls \<and> tag < 0x1F \<and> \<not> (cls = 0 \<and> tag = 0 \<and> val = []))"
| "walkable d (Constructed cls tag kids) = (tagClass cls \<and> tag < 0x1F \<and> 0 < d \<and> walkables (d - 1) kids)"
| "walkable d (Encapsulated cls tag bits kids) = (tagClass cls \<and> tag < 0x1F \<and> \<not> (cls = 0 \<and> tag = 0 \<and> \<not> bits \<and> ders kids = []))"
| "walkables d [] = True"
| "walkables d (t # ts) = (walkable d t \<and> walkables d ts)"

section \<open>Readers between elements\<close>

definition ready :: "ASN1Reader \<Rightarrow> u8 list \<Rightarrow> nat \<Rightarrow> ASN1ParseContext list \<Rightarrow> nat \<Rightarrow> bool" where
  "ready r buf q ctxs end \<longleftrightarrow>
     rInput r = buf \<and> \<not> rIsEndOfContents r \<and> \<not> rIsIndefiniteLen r \<and> mElemStart r + unat (mHeadLen r + rValueLen r) = q \<and>
     mSavedContexts r = ctxs \<and> mContainerEnd r = end"

lemma Reset_simps [simp]:
  "rInput (ResetElementState r) = rInput r" "rIsEndOfContents (ResetElementState r) = False"
  "rIsIndefiniteLen (ResetElementState r) = False" "mElemStart (ResetElementState r) = mElemStart r"
  "mHeadLen (ResetElementState r) = 0" "rValueLen (ResetElementState r) = 0"
  "mSavedContexts (ResetElementState r) = mSavedContexts r" "mContainerEnd (ResetElementState r) = mContainerEnd r"
  "rValue (ResetElementState r) = None"
  by (simp_all add: ResetElementState_def)

lemma onElement_simps [simp]:
  "rInput (onElement r p cls tag con n) = rInput r" "rIsIndefiniteLen (onElement r p cls tag con n) = False"
  "rIsEndOfContents (onElement r p cls tag con n) = (cls = 0 \<and> tag = 0 \<and> \<not> con \<and> n = 0)"
  "mElemStart (onElement r p cls tag con n) = p" "mHeadLen (onElement r p cls tag con n) = of_nat (headLen n)"
  "rValueLen (onElement r p cls tag con n) = of_nat n" "mSavedContexts (onElement r p cls tag con n) = mSavedContexts r"
  "mContainerEnd (onElement r p cls tag con n) = mContainerEnd r" "rIsConstructed (onElement r p cls tag con n) = con"
  "rValue (onElement r p cls tag con n) = Some (p + headLen n)" "rClass (onElement r p cls tag con n) = cls"
  "rTag (onElement r p cls tag con n) = tag"
  by (simp_all add: onElement_def)

lemma length_asn1Tlv: "length val < 2 ^ 32 \<Longrightarrow> length (asn1Tlv t val) = headLen (length val) + length val"
  by (simp add: asn1Tlv_def headLen_def length_der_length)

lemma headLen_le: "headLen n \<le> 6"
  by (simp add: headLen_def GetLengthOfLength_def)

text \<open>Between elements, \<^verbatim>\<open>Next\<close> either finds the end of the container or lands on the next element.\<close>

lemma Next_end:
  assumes "ready r buf q ctxs q"
  obtains r' where "Next_asn1 r = Some (ASN1_END, r')" and "mSavedContexts r' = ctxs" and "rInput r' = buf"
  using assms by (simp add: ready_def Next_asn1_def Let_def)

lemma Next_element:
  assumes rd: "ready r buf q ctxs end" and t: "take (length (asn1Tlv (tagByte cls tag con) val)) (drop q buf) = asn1Tlv (tagByte cls tag con) val"
    and c: "tagClass cls" "tag < 0x1F" and fit: "q + length (asn1Tlv (tagByte cls tag con) val) \<le> end" and n: "length buf < 2 ^ 32"
  obtains r0 where "Next_asn1 r = Some (ASN1_NO_ERROR, onElement r0 q cls tag con (length val))"
    and "rInput r0 = buf" and "mSavedContexts r0 = ctxs" and "mContainerEnd r0 = end"
    and "headLen (length val) + length val < 2 ^ 32" and "length val < 2 ^ 32"
proof -
  let ?asn1Tlv = "asn1Tlv (tagByte cls tag con) val"
  obtain x where "drop q buf = ?asn1Tlv @ x" using t by (rule take_prefixE)
  then have "length ?asn1Tlv \<le> length buf" by (metis length_append length_drop le_add1 diff_le_self order_trans)
  moreover have "length val < length ?asn1Tlv" by (simp add: asn1Tlv_def)
  ultimately have l: "length ?asn1Tlv < 2 ^ 32" "length val < 2 ^ 32" using n by simp_all
  have ne: "q \<noteq> end" using fit by (auto simp: asn1Tlv_def)
  let ?r = "ResetElementState (r\<lparr>mElemStart := mElemStart r + unat (mHeadLen r + rValueLen r)\<rparr>)"
  have r: "mElemStart ?r = q" "rInput ?r = buf" "mSavedContexts ?r = ctxs" "mContainerEnd ?r = end"
    using rd by (simp_all add: ready_def)
  have d: "DecodeHead ?r = Some (ASN1_NO_ERROR, onElement ?r q cls tag con (length val))"
    using DecodeHead_asn1Tlv [of cls tag con val ?r] t c l(2) r by simp
  have "Next_asn1 r = DecodeHead ?r" using rd r ne by (simp add: Next_asn1_def ready_def Let_def)
  then show thesis using d r l length_asn1Tlv [OF l(2)] by (intro that [of ?r]) simp_all
qed

lemma onElement_ready:
  assumes "\<not> (cls = 0 \<and> tag = 0 \<and> \<not> con \<and> n = 0)" and "headLen n + n < 2 ^ 32"
  shows "ready (onElement r q cls tag con n) (rInput r) (q + headLen n + n) (mSavedContexts r) (mContainerEnd r)"
proof -
  have "(of_nat (headLen n) + of_nat n :: u32) = of_nat (headLen n + n)" by simp
  then have "unat (of_nat (headLen n) + of_nat n :: u32) = headLen n + n" using unat_of_nat_u32 [OF assms(2)] by metis
  then show ?thesis using assms(1) by (auto simp: ready_def)
qed

section \<open>Printing a tree\<close>

lemma dumpLoop_leaf:
  assumes rd: "ready r buf q ctxs end" and t: "take (length (asn1Tlv (tagByte cls tag False) val)) (drop q buf) = asn1Tlv (tagByte cls tag False) val"
    and c: "tagClass cls" "tag < 0x1F" "\<not> (cls = 0 \<and> tag = 0 \<and> val = [])"
    and fit: "q + length (asn1Tlv (tagByte cls tag False) val) \<le> end" and n: "length buf < 2 ^ 32"
  shows "\<exists>r'. ready r' buf (q + length (asn1Tlv (tagByte cls tag False) val)) ctxs end \<and>
    dumpLoop r nest out = dumpLoop r' nest (out @ [lineOf nest cls tag False (length val)])"
proof -
  obtain r0 where r0: "Next_asn1 r = Some (ASN1_NO_ERROR, onElement r0 q cls tag False (length val))"
    "rInput r0 = buf" "mSavedContexts r0 = ctxs" "mContainerEnd r0 = end" "headLen (length val) + length val < 2 ^ 32" "length val < 2 ^ 32"
    using Next_element [OF rd t c(1,2) fit n] by metis
  let ?r = "onElement r0 q cls tag False (length val)"
  have eoc: "\<not> (cls = 0 \<and> tag = 0 \<and> \<not> False \<and> length val = 0)" using c(3) by simp
  have line: "dumpLineOf nest ?r = lineOf nest cls tag False (length val)" using eoc by (auto simp: dumpLineOf_def lineOf_def)
  have "dumpLoop r nest out = dumpLoop ?r nest (out @ [lineOf nest cls tag False (length val)])"
    using r0(1) line by (subst dumpLoop.simps) (simp add: Let_def)
  moreover have "ready ?r buf (q + length (asn1Tlv (tagByte cls tag False) val)) ctxs end"
    using onElement_ready [OF eoc r0(5), of r0 q] r0 length_asn1Tlv [OF r0(6)] by (simp add: add.assoc)
  ultimately show ?thesis by blast
qed

lemma dumpLoop_tree:
  "\<lbrakk>ready r buf q ctxs end; take (length (der t)) (drop q buf) = der t; q + length (der t) \<le> end; length buf < 2 ^ 32;
    walkable d t; length ctxs + d = 32\<rbrakk> \<Longrightarrow>
    \<exists>r'. ready r' buf (q + length (der t)) ctxs end \<and> dumpLoop r nest out = dumpLoop r' nest (out @ listing nest t)"
  "\<lbrakk>ready r buf q ctxs end; take (length (ders ts)) (drop q buf) = ders ts; q + length (ders ts) \<le> end; length buf < 2 ^ 32;
    walkables d ts; length ctxs + d = 32\<rbrakk> \<Longrightarrow>
    \<exists>r'. ready r' buf (q + length (ders ts)) ctxs end \<and> dumpLoop r nest out = dumpLoop r' nest (out @ listings nest ts)"
proof (induction t and ts arbitrary: r q ctxs "end" d nest out and r q ctxs "end" d nest out rule: der.induct ders.induct)
  case (Primitive cls tag val)
  then show ?case using dumpLoop_leaf [of r buf q ctxs "end" cls tag val nest out] by simp
next
  case (Encapsulated cls tag bits kids)
  then show ?case
    using dumpLoop_leaf [of r buf q ctxs "end" cls tag "(if bits then [0] else []) @ ders kids" nest out]
    by (cases bits) auto
next
  case (Constructed cls tag kids)
  let ?val = "ders kids" and ?asn1Tlv = "asn1Tlv (tagByte cls tag True) (ders kids)"
  let ?n = "length ?val"
  have c: "tagClass cls" "tag < 0x1F" "0 < d" "walkables (d - 1) kids" using Constructed.prems(5) by simp_all
  have t: "take (length ?asn1Tlv) (drop q buf) = ?asn1Tlv" "q + length ?asn1Tlv \<le> end" using Constructed.prems(2,3) by simp_all
  obtain r0 where r0: "Next_asn1 r = Some (ASN1_NO_ERROR, onElement r0 q cls tag True ?n)"
    "rInput r0 = buf" "mSavedContexts r0 = ctxs" "mContainerEnd r0 = end" "headLen ?n + ?n < 2 ^ 32" "?n < 2 ^ 32"
    using Next_element [OF Constructed.prems(1) t(1) c(1,2) t(2) Constructed.prems(4)] by metis
  let ?r1 = "onElement r0 q cls tag True ?n"
  let ?v = "q + headLen ?n"
  let ?ctx = "\<lparr>cElemStart = q, cHeadLen = of_nat (headLen ?n), cValueLen = of_nat ?n, cIsIndefiniteLen = False, cContainerEnd = end\<rparr>"
  have len: "length ?asn1Tlv = headLen ?n + ?n" by (rule length_asn1Tlv [OF r0(6)])
  have u: "unat (of_nat ?n :: u32) = ?n" "unat (of_nat (headLen ?n) :: u32) = headLen ?n"
    using r0(5,6) headLen_le [of ?n] by (simp_all add: unat_of_nat_u32)
  obtain r2 where r2: "EnterConstructedType ?r1 = (ASN1_NO_ERROR, r2)" "ready r2 buf ?v (?ctx # ctxs) (?v + ?n)"
    using r0 c(3) Constructed.prems(6) u by (simp add: EnterConstructedType_def EnterContainer_asn1_def ready_def Let_def)
  have "take ?n (drop (q + length (tagByte cls tag True # der_length ?n)) buf) = ?val"
    using t(1) by (intro take_after) (simp add: asn1Tlv_def)
  then have kt: "take ?n (drop ?v buf) = ?val" by (simp add: headLen_def length_der_length [OF r0(6)])
  have d: "length (?ctx # ctxs) + (d - 1) = 32" using Constructed.prems(6) c(3) by simp
  obtain r3 where r3: "ready r3 buf (?v + ?n) (?ctx # ctxs) (?v + ?n)"
    "dumpLoop r2 (nest + 1) (out @ [lineOf nest cls tag True ?n]) =
      dumpLoop r3 (nest + 1) ((out @ [lineOf nest cls tag True ?n]) @ listings (nest + 1) kids)"
    using Constructed.IH [OF r2(2) kt le_refl Constructed.prems(4) c(4) d] by blast
  obtain r4 where r4: "Next_asn1 r3 = Some (ASN1_END, r4)" "mSavedContexts r4 = ?ctx # ctxs" "rInput r4 = buf"
    using Next_end [OF r3(1)] by metis
  obtain r5 where r5: "ExitConstructedType r4 = (ASN1_NO_ERROR, r5)" "ready r5 buf (?v + ?n) ctxs end"
    using r4 u by (simp add: ExitConstructedType_def ExitContainer_asn1_def ready_def Let_def)
  have "dumpLoop r nest out = dumpLoop r2 (nest + 1) (out @ [lineOf nest cls tag True ?n])"
    using r0(1) r2(1) by (subst dumpLoop.simps) (simp add: Let_def dumpLineOf_def lineOf_def)
  also have "\<dots> = dumpLoop r5 nest (out @ listing nest (Constructed cls tag kids))"
    unfolding r3(2) using r4 r5 by (subst dumpLoop.simps) (simp add: IsContained_def)
  finally show ?case using r5(2) len by (auto simp: add.assoc)
next
  case Nil_asn1
  then show ?case by auto
next
  case (Cons_asn1 t ts)
  have t: "take (length (der t)) (drop q buf) = der t" using Cons_asn1.prems(2) using take_prefix [of "der t" "ders ts" "drop q buf"] by simp
  have ts: "take (length (ders ts)) (drop (q + length (der t)) buf) = ders ts"
    using Cons_asn1.prems(2) by (intro take_after) simp
  have fit: "q + length (der t) \<le> end" "q + length (der t) + length (ders ts) \<le> end" using Cons_asn1.prems(3) by simp_all
  have w: "walkable d t" "walkables d ts" using Cons_asn1.prems(5) by simp_all
  obtain r1 where r1: "ready r1 buf (q + length (der t)) ctxs end" "dumpLoop r nest out = dumpLoop r1 nest (out @ listing nest t)"
    using Cons_asn1.IH(1) [OF Cons_asn1.prems(1) t fit(1) Cons_asn1.prems(4) w(1) Cons_asn1.prems(6)] by blast
  obtain r2 where "ready r2 buf (q + length (der t) + length (ders ts)) ctxs end"
    "dumpLoop r1 nest (out @ listing nest t) = dumpLoop r2 nest ((out @ listing nest t) @ listings nest ts)"
    using Cons_asn1.IH(2) [OF r1(1) ts fit(2) Cons_asn1.prems(4) w(2) Cons_asn1.prems(6)] by blast
  then show ?case using r1 by (auto simp: add.assoc)
qed

text \<open>
  C13. Reading back what the encoding says: printing the DER encoding of a sequence of values gives one line for every element that is not
  inside a primitive one, in order, with its nesting, name, form and length, and ends with the end of the input.
\<close>

theorem dump_lists_values:
  assumes "walkables 32 ts" and "length (ders ts) < 2 ^ 32"
  shows "DumpASN1 (InitReader (ders ts)) = Some (ASN1_END, listings 0 ts)"
proof -
  let ?buf = "ders ts"
  have r: "ready (InitReader ?buf) ?buf 0 [] (length ?buf)" by (simp add: ready_def InitReader_def)
  obtain r' where r': "ready r' ?buf (length ?buf) [] (length ?buf)"
    "dumpLoop (InitReader ?buf) 0 [] = dumpLoop r' 0 ([] @ listings 0 ts)"
    using dumpLoop_tree(2) [OF r, of ts 32 0 "[]"] assms by auto
  obtain r1 where "Next_asn1 r' = Some (ASN1_END, r1)" "mSavedContexts r1 = []" using Next_end [OF r'(1)] by metis
  then have "dumpLoop r' 0 (listings 0 ts) = Some (ASN1_END, listings 0 ts)" by (subst dumpLoop.simps) (simp add: IsContained_def)
  then show ?thesis using r'(2) by (simp add: DumpASN1_def)
qed

theorem dump_lists_values_witness:
  "walkables 32 [Constructed 0 16 [Primitive 0 2 [5], Constructed 0 17 []]] \<and>
   DumpASN1 (InitReader (ders [Constructed 0 16 [Primitive 0 2 [5], Constructed 0 17 []]])) =
     Some (ASN1_END, listings 0 [Constructed 0 16 [Primitive 0 2 [5], Constructed 0 17 []]])"
proof -
  have w: "walkables 32 [Constructed 0 16 [Primitive 0 2 [5], Constructed 0 17 []]]" by (simp add: tagClass_def)
  have "length (ders [Constructed 0 16 [Primitive 0 2 [5], Constructed 0 17 []]]) < 2 ^ 32"
    by (simp add: asn1Tlv_def der_length_def)
  then show ?thesis using dump_lists_values [OF w] w by simp
qed

end
