(* ===== verification/Asn1_Values.thy ===== *)
theory Asn1_Values
  imports Asn1_Dump
begin

text \<open>
  Values: the functions that read a value stay inside the input, and get back what the writer put.
\<close>

section \<open>Reading stays inside the input\<close>

text \<open>
  The readers that arise when a program only enters a container whose value lies inside the container around it.  The source does not
  check this when a container is entered; the functions that read a value check it for the value.
\<close>

inductive reads :: "u8 list \<Rightarrow> ASN1Reader \<Rightarrow> bool" for buf where
  Init: "reads buf (InitReader buf)"
| Next: "reads buf r \<Longrightarrow> Next_asn1 r = Some (err, r') \<Longrightarrow> reads buf r'"
| EnterConstructed: "reads buf r \<Longrightarrow> \<not> passesContainer r \<Longrightarrow> EnterConstructedType r = (err, r') \<Longrightarrow> reads buf r'"
| EnterEncapsulated: "reads buf r \<Longrightarrow> \<not> passesContainer r \<Longrightarrow> EnterEncapsulatedType r = (err, r') \<Longrightarrow> reads buf r'"
| ExitConstructed: "reads buf r \<Longrightarrow> ExitConstructedType r = (err, r') \<Longrightarrow> reads buf r'"
| ExitEncapsulated: "reads buf r \<Longrightarrow> ExitEncapsulatedType r = (err, r') \<Longrightarrow> reads buf r'"

definition inside :: "u8 list \<Rightarrow> ASN1Reader \<Rightarrow> bool" where
  "inside buf r \<longleftrightarrow> rInput r = buf \<and> mContainerEnd r \<le> length buf \<and>
     list_all (\<lambda>ctx. cContainerEnd ctx \<le> length buf) (mSavedContexts r) \<and>
     (\<forall>vp. rValue r = Some vp \<longrightarrow> vp = mElemStart r + unat (mHeadLen r))"

lemma lenLoop_le: "lenLoop buf k p v = (err, q, len) \<Longrightarrow> p \<le> q \<and> q \<le> p + k"
  by (induction buf k p v rule: lenLoop.induct) (fastforce split: if_splits)+

lemma unat_u8_less: "unat (b :: u8) < 256"
  by (rule order_less_le_trans [OF unsigned_less]) simp

lemma decodeLength_le: "decodeLength buf p = (err, q, len, ind) \<Longrightarrow> p < q \<and> q \<le> p + 256"
  using unat_u8_less [of "buf ! p AND 0x7F"]
  by (auto simp: decodeLength_def split: if_splits prod.splits dest!: lenLoop_le)

lemma DecodeHead_inside:
  assumes "inside buf r" and "rValue r = None" and d: "DecodeHead r = Some (err, r')"
  shows "inside buf r'"
proof (cases "mElemStart r < length (rInput r)")
  case False
  then show ?thesis using assms by (simp add: DecodeHead_def Let_def)
next
  case True
  let ?p = "mElemStart r" and ?buf = "rInput r"
  obtain e1 tag where dt: "decodeTag ?buf (Suc ?p) (?buf ! ?p) = Some (e1, tag)"
    using d True by (cases "decodeTag ?buf (Suc ?p) (?buf ! ?p)") (auto simp: DecodeHead_def Let_def)
  obtain e q len ind where dl: "decodeLength ?buf (Suc ?p) = (e, q, len, ind)" by (metis prod_cases4)
  then have q: "?p < q" "q - ?p < 2 ^ 32" using decodeLength_le [OF dl] by auto
  then have "?p + unat (of_nat (q - ?p) :: u32) = q" by (simp only: unat_of_nat_u32)
  moreover from this have "?p + unat (of_nat q - of_nat ?p :: u32) = q" using q(1) by simp
  ultimately show ?thesis
    using d True dt dl assms(1,2) by (auto simp: DecodeHead_def Let_def inside_def split: if_splits)
qed

lemma Next_inside:
  assumes "inside buf r" and "Next_asn1 r = Some (err, r')"
  shows "inside buf r'"
proof (cases "rIsEndOfContents r \<or> rIsIndefiniteLen r")
  case True
  then show ?thesis using assms by (auto simp: Next_asn1_def split: if_splits)
next
  case False
  let ?r = "ResetElementState (r\<lparr>mElemStart := mElemStart r + unat (mHeadLen r + rValueLen r)\<rparr>)"
  have "inside buf ?r" using assms(1) by (simp add: inside_def)
  then show ?thesis
    using assms(2) False DecodeHead_inside [of buf ?r err r'] by (auto simp: Next_asn1_def Let_def split: if_splits)
qed

lemma EnterContainer_inside:
  assumes i: "inside buf r" and "\<not> passesContainer r" and e: "EnterContainer_asn1 offset r = (err, r')"
  shows "inside buf r'"
proof (cases "length (mSavedContexts r) = 32 \<or> rValue r = None")
  case True
  then show ?thesis using i e by (auto simp: EnterContainer_asn1_def split: if_splits)
next
  case False
  then obtain vp where "rValue r = Some vp" "length (mSavedContexts r) \<noteq> 32" by auto
  then show ?thesis using assms by (auto simp: EnterContainer_asn1_def Let_def inside_def passesContainer_def)
qed

lemma ExitContainer_inside:
  assumes "inside buf r" and "ExitContainer_asn1 r = (err, r')"
  shows "inside buf r'"
  using assms by (auto simp: ExitContainer_asn1_def Let_def inside_def split: list.splits if_splits)

lemma reads_inside: "reads buf r \<Longrightarrow> inside buf r"
proof (induction rule: reads.induct)
  case Init
  show ?case by (simp add: inside_def InitReader_def)
next
  case (EnterConstructed r err r')
  then show ?case by (auto simp: EnterConstructedType_def intro: EnterContainer_inside split: if_splits)
next
  case (EnterEncapsulated r err r')
  then show ?case by (auto simp: EnterEncapsulatedType_def intro: EnterContainer_inside split: if_splits)
qed (auto simp: ExitConstructedType_def ExitEncapsulatedType_def intro: Next_inside ExitContainer_inside)

lemma inside_valueBytes:
  assumes "inside buf r" and "rValue r = Some vp" and "\<not> passesContainer r"
  shows "valueBytes r vp \<noteq> None"
  using assms by (auto simp: inside_def valueBytes_def passesContainer_def)

lemma unat_ucast_u16_le: "unat (ucast (x :: u32) :: u16) \<le> unat x"
  by (simp add: unsigned_ucast_eq)

text \<open>C31. No function that reads a value leaves the input.\<close>

theorem asn1_values_read_inside:
  assumes "reads buf r"
  shows "GetInteger r \<noteq> Inl ASN1_MEMORY_FAULT \<and> GetBoolean_asn1 r \<noteq> Inl ASN1_MEMORY_FAULT \<and> GetBitString r \<noteq> Inl ASN1_MEMORY_FAULT \<and>
    GetUTCTime r \<noteq> Inl ASN1_MEMORY_FAULT \<and> GetGeneralizedTime r \<noteq> Inl ASN1_MEMORY_FAULT \<and> GetObjectId r \<noteq> Inl ASN1_MEMORY_FAULT"
proof -
  have v: "passesContainer r" if "rValue r = Some vp" "valueBytes r vp = None" for vp
    using inside_valueBytes [OF reads_inside [OF assms] that(1)] that(2) by blast
  have "GetInteger r \<noteq> Inl ASN1_MEMORY_FAULT" by (auto simp: GetInteger_def split: option.splits dest: v)
  moreover have "GetBoolean_asn1 r \<noteq> Inl ASN1_MEMORY_FAULT" by (auto simp: GetBoolean_asn1_def split: option.splits dest: v)
  moreover have "GetBitString r \<noteq> Inl ASN1_MEMORY_FAULT" by (auto simp: GetBitString_def split: option.splits dest: v)
  moreover have "GetUTCTime r \<noteq> Inl ASN1_MEMORY_FAULT" by (auto simp: GetUTCTime_def Let_def split: option.splits dest: v)
  moreover have "GetGeneralizedTime r \<noteq> Inl ASN1_MEMORY_FAULT" by (auto simp: GetGeneralizedTime_def split: option.splits dest: v)
  moreover have "GetObjectId r \<noteq> Inl ASN1_MEMORY_FAULT"
    using v unat_ucast_u16_le [of "rValueLen r"] by (fastforce simp: GetObjectId_def Let_def valueBytes_def split: option.splits if_splits)
  ultimately show ?thesis by blast
qed

theorem asn1_values_read_inside_witness:
  "\<exists>r. Next_asn1 (InitReader [0x02, 0x08, 0x01]) = Some (ASN1_NO_ERROR, r) \<and> reads [0x02, 0x08, 0x01] r \<and> GetInteger r \<noteq> Inl ASN1_MEMORY_FAULT"
proof -
  have "map_option fst (Next_asn1 (InitReader [0x02, 0x08, 0x01])) = Some ASN1_NO_ERROR" by code_simp
  then obtain r where n: "Next_asn1 (InitReader [0x02, 0x08, 0x01]) = Some (ASN1_NO_ERROR, r)" by auto
  then have "reads [0x02, 0x08, 0x01] r" by (rule reads.Next [OF reads.Init])
  then show ?thesis using asn1_values_read_inside n by blast
qed

section \<open>Writing a value and reading it back\<close>

lemma PutValue_read:
  assumes fit: "int (headLen (length val) + length val) \<le> mBufEnd (InitWriter ps address buf)"
    and small: "headLen (length val) + length val < 65536" and c: "tagClass cls" "tag < 0x1F"
  obtains w r where "PutValue (InitWriter ps address buf) cls tag con val = (ASN1_NO_ERROR, w)"
    and "Next_asn1 (InitReader (take (mWritePoint w) (mBuf w))) = Some (ASN1_NO_ERROR, r)"
    and "\<exists>vp. rValue r = Some vp \<and> valueBytes r vp = Some val"
    and "rValueLen r = of_nat (length val)" and "\<not> passesContainer r" and "rTag r = tag" and "rClass r = cls" and "rIsConstructed r = con"
proof -
  let ?w = "InitWriter ps address buf" and ?t = "tagByte cls tag con"
  have p: "mWritePoint ?w = 0" "listStart ?w = mBufEnd ?w" by (simp_all add: InitWriter_def listStart_def)
  have h: "holds ?w []" using InitWriter_holds [of ps address buf] fit by linarith
  obtain w where w: "PutValue ?w cls tag con val = (ASN1_NO_ERROR, w)" "holds w [Lit [?t], Lit (der_length (length val)), Lit val]"
    using PutValue_segs [OF h c(2) small, of cls con] fit p by auto
  note hd = holdsD [OF w(2)]
  have b: "take (mWritePoint w) (mBuf w) = asn1Tlv ?t val" using hd(1,2) by (simp add: asn1Tlv_def)
  let ?r = "InitReader (asn1Tlv ?t val)"
  have rd: "ready ?r (asn1Tlv ?t val) 0 [] (length (asn1Tlv ?t val))" by (simp add: ready_def InitReader_def)
  have len: "length (asn1Tlv ?t val) = headLen (length val) + length val" using small by (intro length_asn1Tlv) simp
  obtain r0 where r0: "Next_asn1 ?r = Some (ASN1_NO_ERROR, onElement r0 0 cls tag con (length val))" "rInput r0 = asn1Tlv ?t val"
    "mContainerEnd r0 = length (asn1Tlv ?t val)"
    using Next_element [OF rd, of cls tag con val] c small len by auto
  have u: "unat (of_nat (length val) :: u32) = length val" "unat (of_nat (headLen (length val)) :: u32) = headLen (length val)"
    using small by (simp_all add: unat_of_nat_u32)
  have dr: "drop (headLen (length val)) (asn1Tlv ?t val) = val"
    using small by (simp add: asn1Tlv_def headLen_def length_der_length [symmetric])
  show thesis
    by (rule that [OF w(1), of "onElement r0 0 cls tag con (length val)"])
      (use r0 b u dr len in \<open>simp_all add: valueBytes_def passesContainer_def\<close>)
qed

subsection \<open>Integers\<close>

lemma length_to_be [simp]: "length (to_be n v) = n"
  by (induction n) auto

lemma shift_byte:
  "push_bit a (push_bit 8 s OR ucast (ucast (drop_bit a v) :: u8)) OR take_bit a v = push_bit (a + 8) s OR take_bit (a + 8) (v :: u64)"
proof (rule bit_word_eqI)
  fix n assume "n < LENGTH(64)"
  then show "bit (push_bit a (push_bit 8 s OR ucast (ucast (drop_bit a v) :: u8)) OR take_bit a v) n =
      bit (push_bit (a + 8) s OR take_bit (a + 8) v) n"
    by (cases "n < a"; cases "n < a + 8") (auto simp: bit_simps)
qed

lemma shiftIn_to_be: "shiftIn s (to_be n v) = push_bit (8 * n) s OR take_bit (8 * n) (v :: u64)"
proof (induction n arbitrary: s)
  case 0
  show ?case by simp
next
  case (Suc n)
  have "push_bit (8 * n) (push_bit 8 s OR ucast (ucast (drop_bit (8 * n) v) :: u8)) OR take_bit (8 * n) v =
      push_bit (8 * Suc n) s OR take_bit (8 * Suc n) v"
    using shift_byte [of "8 * n" s v] by (simp add: add.commute)
  then show ?case using Suc by simp
qed

definition signOf :: "u8 list \<Rightarrow> u64" where
  "signOf bs = (if hd bs AND 0x80 = 0 then 0 else -1)"

lemma shiftIn_sign: "shiftIn (-1) (0xFF # bs) = shiftIn (-1) bs" "shiftIn 0 (0 # bs) = shiftIn 0 bs"
proof -
  have "push_bit 8 (-1) OR ucast (0xFF :: u8) = (-1 :: u64)" by (simp add: mask_eq_exp_minus_1)
  then show "shiftIn (-1) (0xFF # bs) = shiftIn (-1) bs" by (simp only: shiftIn.simps)
  show "shiftIn 0 (0 # bs) = shiftIn 0 bs" by simp
qed

lemma shiftIn_dropSignBytes: "bs \<noteq> [] \<Longrightarrow> shiftIn (signOf (dropSignBytes bs)) (dropSignBytes bs) = shiftIn (signOf bs) bs"
proof (induction bs rule: dropSignBytes.induct)
  case (1 a b bs)
  consider "a = 0 \<and> b AND 0x80 = 0" | "a = 0xFF \<and> b AND 0x80 = 0x80"
    | "\<not> (a = 0 \<and> b AND 0x80 = 0)" "\<not> (a = 0xFF \<and> b AND 0x80 = 0x80)" by blast
  then show ?case
  proof cases
    case 1
    then show ?thesis using "1.IH"(1) shiftIn_sign(2) [of "b # bs"] by (simp add: signOf_def del: shiftIn.simps)
  next
    case 2
    then show ?thesis using "1.IH"(2) shiftIn_sign(1) [of "b # bs"] by (simp add: signOf_def del: shiftIn.simps)
  next
    case 3
    then have "dropSignBytes (a # b # bs) = a # b # bs" by auto
    then show ?thesis by simp
  qed
qed (auto simp: signOf_def)

lemma dropSignBytes_length: "bs \<noteq> [] \<Longrightarrow> dropSignBytes bs \<noteq> [] \<and> length (dropSignBytes bs) \<le> length bs"
  by (induction bs rule: dropSignBytes.induct) auto

lemma integerBytes_facts:
  "integerBytes v \<noteq> []" "length (integerBytes v) \<le> 8" "shiftIn (signOf (integerBytes v)) (integerBytes v) = v"
proof -
  have ne: "to_be 8 v \<noteq> []" using length_to_be [of 8 v] by (metis list.size(3) zero_neq_numeral)
  show "integerBytes v \<noteq> []" "length (integerBytes v) \<le> 8"
    using dropSignBytes_length [OF ne] by (simp_all add: integerBytes_def)
  show "shiftIn (signOf (integerBytes v)) (integerBytes v) = v"
    unfolding integerBytes_def shiftIn_dropSignBytes [OF ne] shiftIn_to_be by (rule bit_word_eqI) (simp add: bit_simps)
qed

subsection \<open>Bit strings\<close>

lemma ReverseBits_all: "list_all (\<lambda>i. ReverseBits (ReverseBits (word_of_int i)) = word_of_int i) [0..255]"
  by code_simp

lemma ReverseBits_twice: "ReverseBits (ReverseBits v) = v"
proof -
  have "uint v < 2 ^ LENGTH(8)" by (rule unsigned_less)
  then have "uint v \<in> set [0..255]" by simp
  then have "ReverseBits (ReverseBits (word_of_int (uint v))) = word_of_int (uint v)"
    using ReverseBits_all unfolding list_all_iff by blast
  then show ?thesis by simp
qed

lemma or_byte:
  assumes "a + 8 \<le> b"
  shows "push_bit a (ucast (ucast (drop_bit a v) :: u8)) OR take_bit b (push_bit (a + 8) (drop_bit (a + 8) v)) =
    take_bit b (push_bit a (drop_bit a (v :: u32)))"
proof (rule bit_word_eqI)
  fix n assume "n < LENGTH(32)"
  then show "bit (push_bit a (ucast (ucast (drop_bit a v) :: u8)) OR take_bit b (push_bit (a + 8) (drop_bit (a + 8) v))) n =
      bit (take_bit b (push_bit a (drop_bit a v))) n"
    using assms by (cases "n < a"; cases "n < a + 8") (auto simp: bit_simps)
qed

lemma orBits_bytes:
  "orBits (8 * i) (map (\<lambda>j. ReverseBits (ucast (drop_bit (8 * j) v))) [i..<i + k]) = take_bit (8 * (i + k)) (push_bit (8 * i) (drop_bit (8 * i) v))"
proof (induction k arbitrary: i)
  case 0
  show ?case by (simp add: bit_eq_iff bit_simps)
next
  case (Suc k)
  have e: "[i..<i + Suc k] = i # [Suc i..<Suc i + k]" by (simp add: upt_conv_Cons)
  have "push_bit (8 * i) (ucast (ucast (drop_bit (8 * i) v) :: u8)) OR
      take_bit (8 * (Suc i + k)) (push_bit (8 * Suc i) (drop_bit (8 * Suc i) v)) =
      take_bit (8 * (i + Suc k)) (push_bit (8 * i) (drop_bit (8 * i) v))"
    using or_byte [of "8 * i" "8 * (i + Suc k)" v] by (simp add: add.commute)
  then show ?case using Suc [of "Suc i"] unfolding e by (simp add: ReverseBits_twice add.commute)
qed

lemma length_bitStringBytes: "length (bitStringBytes v) = bitStringLen v"
  by (simp add: bitStringBytes_def bitStringLen_def)

lemma bitStringLen_bounds: "1 \<le> bitStringLen v \<and> bitStringLen v \<le> 5 \<and> (bitStringLen v = 1 \<longleftrightarrow> v = 0) \<and> unat v < 2 ^ (8 * (bitStringLen v - 1))"
  using unat_u32_less [of v] by (auto simp: bitStringLen_def word_less_nat_alt not_less unat_eq_zero)

lemma orBits_bitStringBytes:
  assumes "v \<noteq> 0"
  shows "orBits 0 (tl (bitStringBytes v)) = v"
proof -
  let ?k = "bitStringLen v - 1"
  have "take_bit (8 * ?k) v = v" using bitStringLen_bounds [of v] by (intro take_bit_u32) simp
  then show ?thesis using orBits_bytes [of 0 v ?k] assms by (simp add: bitStringBytes_def Let_def)
qed

lemma PutBitString_PutValue: "PutBitString w v = PutValue w 0 3 False (bitStringBytes v)"
  by (simp add: PutBitString_def PutValue_def length_bitStringBytes)

lemma PutBoolean_PutValue: "PutBoolean_asn1 w b = PutValue w 0 1 False [if b then 0xFF else 0]"
  by (simp add: PutBoolean_asn1_def PutValue_def)

subsection \<open>Times\<close>

lemma unat_of_nat_u8: "n < 256 \<Longrightarrow> unat (of_nat n :: u8) = n"
  by (simp add: unat_of_nat take_bit_nat_eq_self)

definition tens :: "nat \<Rightarrow> u8" where
  "tens n = of_nat (48 + n div 10 mod 10)"

definition ones :: "nat \<Rightarrow> u8" where
  "ones n = of_nat (48 + n mod 10)"

lemma itoa2_digits: "itoa2 n = [tens n, ones n]"
  by (simp add: itoa2_def tens_def ones_def)

lemma digit_facts: "isdigit (tens n)" "isdigit (ones n)" "(unat (tens n) - 48) * 10 + (unat (ones n) - 48) = n mod 100"
proof -
  have b: "unat (tens n) = 48 + n div 10 mod 10" "unat (ones n) = 48 + n mod 10"
    unfolding tens_def ones_def by (rule unat_of_nat_u8, simp)+
  show "isdigit (tens n)" "isdigit (ones n)"
    unfolding isdigit_def word_le_nat_alt b by simp_all
  have "n mod 100 = 10 * (n div 10 mod 10) + n mod 10" using mod_mult2_eq [of n 10 10] by simp
  then show "(unat (tens n) - 48) * 10 + (unat (ones n) - 48) = n mod 100" unfolding b by simp
qed

text \<open>The times both encodings can express.\<close>

definition encodableTime :: "ASN1UniversalTime \<Rightarrow> bool" where
  "encodableTime t \<longleftrightarrow> 1950 \<le> tYear t \<and> tYear t \<le> 9999 \<and> tMonth t < 100 \<and> tDay t < 100 \<and> tHour t < 100 \<and> tMinute t < 100 \<and> tSecond t < 100"

lemma of_nat_mod100: "(v :: u8) < 100 \<Longrightarrow> of_nat (unat v mod 100) = v"
  by (simp add: word_less_nat_alt)

lemma year_digits:
  assumes "unat (y :: u16) \<le> 9999"
  shows "unat y div 100 mod 100 * 100 + unat y mod 100 = unat y"
proof -
  have "unat y div 100 mod 100 = unat y div 100" using assms by (intro mod_less) simp
  then show ?thesis by simp
qed

lemma short_year:
  assumes "1950 \<le> unat (y :: u16)" and "unat y < 2050"
  shows "(if unat y mod 100 \<ge> 50 then unat y mod 100 + 1900 else unat y mod 100 + 2000) = unat y"
proof (cases "unat y < 2000")
  case True
  then have "unat y mod 100 = unat y - 1900" using assms by (simp add: mod_if)
  then show ?thesis using assms True by simp
next
  case False
  then have "unat y mod 100 = unat y - 2000" using assms by (simp add: mod_if)
  then show ?thesis using assms False by simp
qed

lemma GetGeneralizedTime_bytes:
  assumes t: "encodableTime t" and r: "rValue r = Some vp" "valueBytes r vp = Some (timeBytes t)" "rValueLen r = 15" "\<not> passesContainer r"
  shows "GetGeneralizedTime r = Inr t"
proof -
  have "unat (tYear t) \<le> 9999" using t by (simp add: encodableTime_def word_le_nat_alt)
  then have y: "of_nat (unat (tYear t) div 100 mod 100 * 100 + unat (tYear t) mod 100) = tYear t" by (simp only: year_digits) simp
  show ?thesis
    using t r y by (simp add: GetGeneralizedTime_def timeBytes_def itoa2_digits digits2_def digit_facts encodableTime_def of_nat_mod100)
qed

lemma GetUTCTime_bytes:
  assumes t: "encodableTime t" "tYear t < 2050"
    and r: "rValue r = Some vp" "valueBytes r vp = Some (drop 2 (timeBytes t))" "rValueLen r = 13" "\<not> passesContainer r"
  shows "GetUTCTime r = Inr t"
proof -
  have "1950 \<le> unat (tYear t)" "unat (tYear t) < 2050"
    using t by (simp_all add: encodableTime_def word_le_nat_alt word_less_nat_alt)
  from short_year [OF this]
  have y: "of_nat (if 50 \<le> unat (tYear t) mod 100 then unat (tYear t) mod 100 + 1900 else unat (tYear t) mod 100 + 2000) = tYear t"
    by (simp only:) simp
  show ?thesis
    using t r y by (simp add: GetUTCTime_def timeBytes_def itoa2_digits digits2_def digit_facts encodableTime_def of_nat_mod100 Let_def del: of_nat_add split del: if_split)
qed

subsection \<open>All kinds\<close>

text \<open>What is put into a fresh writer is what the reader gets from the bytes written.\<close>

definition readBack :: "ASN1Writer \<Rightarrow> (ASN1Writer \<Rightarrow> ASN1_ERROR \<times> ASN1Writer) \<Rightarrow> (ASN1Reader \<Rightarrow> ASN1_ERROR + 'v) \<Rightarrow> 'v \<Rightarrow> bool" where
  "readBack w0 put get v \<longleftrightarrow>
     (\<exists>w r. put w0 = (ASN1_NO_ERROR, w) \<and> Next_asn1 (InitReader (take (mWritePoint w) (mBuf w))) = Some (ASN1_NO_ERROR, r) \<and> get r = Inr v)"

lemma GetInteger_bytes:
  assumes "rValue r = Some vp" "valueBytes r vp = Some (integerBytes v)" "rValueLen r = of_nat (length (integerBytes v))" "\<not> passesContainer r"
  shows "GetInteger r = Inr v"
proof -
  let ?n = "length (integerBytes v)"
  have n: "integerBytes v \<noteq> []" "?n \<le> 8" using integerBytes_facts [of v] by auto
  then have "unat (of_nat ?n :: u32) = ?n" by (intro unat_of_nat_u32) simp
  then have "\<not> (of_nat ?n :: u32) < 1" "\<not> (of_nat ?n :: u32) > 8" using n by (simp_all add: word_less_nat_alt)
  then show ?thesis using assms integerBytes_facts(3) [of v] by (simp add: GetInteger_def signOf_def)
qed

lemma GetBitString_bytes:
  assumes "rValue r = Some vp" "valueBytes r vp = Some (bitStringBytes v)" "rValueLen r = of_nat (length (bitStringBytes v))" "\<not> passesContainer r"
  shows "GetBitString r = Inr v"
proof -
  let ?n = "bitStringLen v"
  have n: "1 \<le> ?n" "?n \<le> 5" "?n = 1 \<longleftrightarrow> v = 0" using bitStringLen_bounds [of v] by auto
  then have "unat (of_nat ?n :: u32) = ?n" by (intro unat_of_nat_u32) simp
  then have "\<not> (of_nat ?n :: u32) < 1" "\<not> (of_nat ?n :: u32) > 5" "(of_nat ?n :: u32) = 1 \<longleftrightarrow> ?n = 1"
    using n by (simp_all add: word_less_nat_alt word_unat_eq_iff)
  then show ?thesis using assms n(3) orBits_bitStringBytes [of v] by (auto simp: GetBitString_def length_bitStringBytes)
qed

lemma GetObjectId_bytes:
  assumes e: "GetEncodedObjectID oid = Some bs"
    and "rValue r = Some vp" "valueBytes r vp = Some bs" "rValueLen r = of_nat (length bs)" "\<not> passesContainer r"
  shows "GetObjectId r = Inr oid"
proof -
  note f = ParseObjectID_encoded [OF e]
  have "unat (of_nat (length bs) :: u32) = length bs" using f(3) by (intro unat_of_nat_u32) simp
  then have "\<not> (of_nat (length bs) :: u32) < 1" using f(2) by (simp add: word_less_nat_alt Suc_le_eq)
  moreover have "unat (ucast (of_nat (length bs) :: u32) :: u16) = length bs"
    using f(3) by (simp add: unat_of_nat take_bit_nat_eq_self unsigned_ucast_eq)
  moreover have "vp + length bs \<le> length (rInput r)" "take (length bs) (drop vp (rInput r)) = bs"
    using assms(3,4) \<open>unat (of_nat (length bs) :: u32) = length bs\<close> by (auto simp: valueBytes_def split: if_splits)
  ultimately show ?thesis using assms(2-5) f(1) by (simp add: GetObjectId_def)
qed

subsection \<open>The contract of a kind of value\<close>

text \<open>
  Each kind of value has a tag, the bytes that the writer copies and a function of the reader, which must accept these bytes.  That is all
  the round trip needs.
\<close>

locale asn1_value =
  fixes tag :: u32 and bytes :: "'v \<Rightarrow> u8 list" and valid :: "'v \<Rightarrow> bool" and get :: "ASN1Reader \<Rightarrow> ASN1_ERROR + 'v"
  assumes one_byte_tag: "tag < 0x1F"
    and short: "valid v \<Longrightarrow> length (bytes v) \<le> 16"
    and got: "\<lbrakk>valid v; rValue r = Some vp; valueBytes r vp = Some (bytes v); rValueLen r = of_nat (length (bytes v)); \<not> passesContainer r\<rbrakk>
      \<Longrightarrow> get r = Inr v"
begin

lemma read_back:
  assumes room: "32 \<le> mBufEnd (InitWriter ps address buf)" and v: "valid v"
  shows "readBack (InitWriter ps address buf) (\<lambda>w. PutValue w 0 tag False (bytes v)) get v"
proof -
  have n: "length (bytes v) \<le> 16" by (rule short [OF v])
  then have h: "headLen (length (bytes v)) = 2" by (simp add: headLen_def GetLengthOfLength_def)
  have c: "tagClass 0" by (simp add: tagClass_def)
  have fit: "int (headLen (length (bytes v)) + length (bytes v)) \<le> mBufEnd (InitWriter ps address buf)"
    "headLen (length (bytes v)) + length (bytes v) < 65536" using h n room by simp_all
  obtain w r where wr: "PutValue (InitWriter ps address buf) 0 tag False (bytes v) = (ASN1_NO_ERROR, w)"
    "Next_asn1 (InitReader (take (mWritePoint w) (mBuf w))) = Some (ASN1_NO_ERROR, r)"
    "\<exists>vp. rValue r = Some vp \<and> valueBytes r vp = Some (bytes v)" "rValueLen r = of_nat (length (bytes v))" "\<not> passesContainer r"
    using PutValue_read [OF fit c one_byte_tag, where con = False] by metis
  then obtain vp where "rValue r = Some vp" "valueBytes r vp = Some (bytes v)" by blast
  then have "get r = Inr v" using wr by (intro got [OF v]) simp_all
  then show ?thesis unfolding readBack_def using wr(1,2) by blast
qed

end

interpretation integer: asn1_value 2 integerBytes "\<lambda>_. True" GetInteger
proof unfold_locales
  show "length (integerBytes v) \<le> 16" for v using integerBytes_facts(2) [of v] by simp
qed (simp_all add: GetInteger_bytes)

interpretation boolean: asn1_value 1 "\<lambda>b. [if b then 0xFF else 0]" "\<lambda>_. True" GetBoolean_asn1
  by unfold_locales (simp_all add: GetBoolean_asn1_def)

interpretation bit_string: asn1_value 3 bitStringBytes "\<lambda>_. True" GetBitString
proof unfold_locales
  show "length (bitStringBytes v) \<le> 16" for v using bitStringLen_bounds [of v] by (simp add: length_bitStringBytes)
qed (simp_all add: GetBitString_bytes)

interpretation object_id: asn1_value 6 "\<lambda>oid. the (GetEncodedObjectID oid)" "\<lambda>oid. GetEncodedObjectID oid \<noteq> None" GetObjectId
  by unfold_locales (auto simp: ParseObjectID_encoded intro: GetObjectId_bytes)

lemma length_timeBytes: "length (timeBytes t) = 15"
  by (simp add: timeBytes_def itoa2_def)

interpretation utc_time: asn1_value 23 "\<lambda>t. drop 2 (timeBytes t)" "\<lambda>t. encodableTime t \<and> tYear t < 2050" GetUTCTime
  by unfold_locales (auto simp: length_timeBytes intro: GetUTCTime_bytes)

interpretation generalized_time: asn1_value 24 timeBytes encodableTime GetGeneralizedTime
  by unfold_locales (auto simp: length_timeBytes intro: GetGeneralizedTime_bytes)

text \<open>
  C14. Round trip of every kind of value: an integer of 64 bits, a truth value, a bit string of up to 32 bits, an object identifier of the
  table and a time from 1950 to 9999, each put into a fresh writer and got back by the matching function of the reader.
\<close>

theorem asn1_values_roundtrip:
  assumes room: "32 \<le> mBufEnd (InitWriter ps address buf)" and oid: "GetEncodedObjectID oid \<noteq> None" and t: "encodableTime t"
  shows "readBack (InitWriter ps address buf) (\<lambda>w. PutInteger w i) GetInteger i \<and>
    readBack (InitWriter ps address buf) (\<lambda>w. PutBoolean_asn1 w b) GetBoolean_asn1 b \<and>
    readBack (InitWriter ps address buf) (\<lambda>w. PutBitString w bits) GetBitString bits \<and>
    readBack (InitWriter ps address buf) (\<lambda>w. PutObjectId_oid w oid) GetObjectId oid \<and>
    readBack (InitWriter ps address buf) (\<lambda>w. PutTime w t) (if tYear t \<ge> 2050 then GetGeneralizedTime else GetUTCTime) t"
proof (intro conjI)
  show "readBack (InitWriter ps address buf) (\<lambda>w. PutInteger w i) GetInteger i"
    unfolding PutInteger_def using room by (rule integer.read_back) simp
  show "readBack (InitWriter ps address buf) (\<lambda>w. PutBoolean_asn1 w b) GetBoolean_asn1 b"
    unfolding PutBoolean_PutValue using room by (rule boolean.read_back) simp
  show "readBack (InitWriter ps address buf) (\<lambda>w. PutBitString w bits) GetBitString bits"
    unfolding PutBitString_PutValue using room by (rule bit_string.read_back) simp
  show "readBack (InitWriter ps address buf) (\<lambda>w. PutObjectId_oid w oid) GetObjectId oid"
    using object_id.read_back [OF room oid] oid by (auto simp: PutObjectId_oid_def PutObjectId_def)
  show "readBack (InitWriter ps address buf) (\<lambda>w. PutTime w t) (if tYear t \<ge> 2050 then GetGeneralizedTime else GetUTCTime) t"
    using utc_time.read_back [OF room, of t] generalized_time.read_back [OF room t] t
    by (cases "2050 \<le> tYear t") (simp_all add: PutTime_def not_le [symmetric])
qed

theorem asn1_values_roundtrip_witness:
  "readBack (InitWriter 8 0 (replicate 64 0)) (\<lambda>w. PutInteger w (-300)) GetInteger (-300) \<and>
   readBack (InitWriter 8 0 (replicate 64 0)) (\<lambda>w. PutObjectId_oid w 0x0205) GetObjectId 0x0205"
proof -
  have "32 \<le> mBufEnd (InitWriter 8 0 (replicate 64 0))" by (simp add: InitWriter_def)
  moreover have "GetEncodedObjectID 0x0205 \<noteq> None" by (simp add: GetEncodedObjectID_def sOIDTable_def)
  moreover have "encodableTime \<lparr>tYear = 2020, tMonth = 2, tDay = 29, tHour = 12, tMinute = 0, tSecond = 0\<rparr>"
    by (simp add: encodableTime_def)
  ultimately show ?thesis using asn1_values_roundtrip by blast
qed

section \<open>A value read past the end of the input\<close>

text \<open>Entering a container does not check its length, so the end of the container it sets may lie behind the input.\<close>

theorem nested_value_passes_the_input:
  "Option.bind (Next_asn1 (InitReader [0x30, 0x10, 0x02, 0x08])) (\<lambda>(err1, r1).
     Option.bind (Next_asn1 (snd (EnterConstructedType r1))) (\<lambda>(err2, r2). Some (err1, fst (EnterConstructedType r1), err2, GetInteger r2))) =
   Some (ASN1_NO_ERROR, ASN1_NO_ERROR, ASN1_NO_ERROR, Inl ASN1_MEMORY_FAULT)"
  by code_simp

end
