(* ===== verification/Asn1_Halt.thy ===== *)
theory Asn1_Halt
  imports Asn1_Dump
begin

text \<open>
  When \<^verbatim>\<open>DumpASN1\<close> returns: on every input whose heads all end, and inputs on which it runs for ever.
\<close>

section \<open>The tag loop\<close>

lemma tagLoop_hangs: "tagLoop 0x80 0 = None"
proof (rule ccontr)
  assume "tagLoop 0x80 0 \<noteq> None"
  then obtain y where "tagLoop 0x80 0 = Some y" by blast
  moreover have "\<not> (b = 0x80 \<and> tag = 0)" if "tagLoop b tag = Some y" for b tag y
    by (rule tagLoop.raw_induct [where P = "\<lambda>b tag y. \<not> (b = 0x80 \<and> tag = 0)", OF _ that]) fastforce
  ultimately show False by blast
qed

lemma tagLoop_returns_nonzero: "b AND 0x7F \<noteq> 0 \<Longrightarrow> 0 < unat tag \<Longrightarrow> \<exists>x. tagLoop b tag = Some x"
proof (induction "2 ^ 25 - unat tag" arbitrary: tag rule: less_induct)
  case less
  show ?case
  proof (cases "tag AND 0xFE000000 = 0")
    case False
    then show ?thesis by (subst tagLoop.simps) simp
  next
    case True
    then have t: "unat tag < 2 ^ 25" by (intro and_high_0) (simp_all add: high_masks)
    let ?tag = "push_bit 7 tag OR ucast (b AND 0x7F)"
    have "b AND 0x7F \<le> 0x7F" by (rule word_and_le1)
    then have "unat (ucast (b AND 0x7F) :: u32) < 2 ^ 7" by (simp add: unat_ucast_u8 word_le_nat_alt)
    then have u: "unat ?tag = unat tag * 2 ^ 7 + unat (ucast (b AND 0x7F) :: u32)" using t by (intro unat_shift_in) simp_all
    then have "2 ^ 25 - unat ?tag < 2 ^ 25 - unat tag" "0 < unat ?tag" using t less.prems(2) by simp_all
    then obtain x where "tagLoop b ?tag = Some x" using less.hyps [of ?tag] less.prems(1) by blast
    then show ?thesis using True by (subst tagLoop.simps) (simp add: Let_def)
  qed
qed

lemma tagLoop_returns:
  assumes "b \<noteq> 0x80"
  shows "\<exists>x. tagLoop b 0 = Some x"
proof (cases "b AND 0x80 = 0")
  case True
  then show ?thesis by (subst tagLoop.simps) simp
next
  case False
  have "b AND 0x7F \<noteq> 0"
  proof
    assume z: "b AND 0x7F = 0"
    then have "take_bit 7 b = 0" by (simp add: take_bit_eq_mask mask_eq_exp_minus_1)
    then have "unat b mod 2 ^ 7 = 0" by (metis take_bit_eq_mod unat_0 unsigned_take_bit_eq)
    moreover have "unat b < 256" by (rule order_less_le_trans [OF unsigned_less]) simp
    ultimately have "unat b = 0 \<or> unat b = 128" by auto
    then have "b = 0 \<or> b = 0x80" by (auto simp: word_unat_eq_iff)
    then have "b = 0x80" using False by auto
    then show False using assms by simp
  qed
  moreover have "(ucast (b AND 0x7F) :: u32) \<noteq> 0" using calculation unat_ucast_u8 [of "b AND 0x7F"] by (auto simp: word_unat_eq_iff)
  then have "0 < unat (push_bit 7 0 OR ucast (b AND 0x7F) :: u32)" by (simp add: word_unat_eq_iff)
  ultimately obtain x where "tagLoop b (push_bit 7 0 OR ucast (b AND 0x7F)) = Some x" using tagLoop_returns_nonzero by blast
  then show ?thesis using False by (subst tagLoop.simps) (simp add: Let_def)
qed

section \<open>Heads that end\<close>

text \<open>
  Two things keep the reader from moving on: the byte \<^verbatim>\<open>0x80\<close> behind a tag of the long form, which the tag loop reads for ever, and a
  length so close to \<^verbatim>\<open>2^32\<close> that adding the length of the head wraps.
\<close>

definition headEnds :: "u8 list \<Rightarrow> nat \<Rightarrow> bool" where
  "headEnds buf p \<longleftrightarrow>
     p + 1 < length buf \<longrightarrow>
       \<not> (buf ! p AND 0x1F = 0x1F \<and> buf ! (p + 1) = 0x80) \<and>
       (case decodeLength buf (p + 1) of (err, q, len, indefinite) \<Rightarrow> err = ASN1_NO_ERROR \<longrightarrow> int (q - p) + uint len < 2 ^ 32)"

definition headsEnd :: "u8 list \<Rightarrow> bool" where
  "headsEnd buf \<longleftrightarrow> list_all (headEnds buf) [0..<length buf]"

lemma lenLoop_ge: "lenLoop buf k p v = (err, q, len) \<Longrightarrow> p \<le> q"
  by (induction buf k p v rule: lenLoop.induct) (auto split: if_splits)

lemma decodeLength_ge: "decodeLength buf p = (err, q, len, ind) \<Longrightarrow> p < q"
  by (auto simp: decodeLength_def split: if_splits prod.splits dest: lenLoop_ge)

definition pos :: "ASN1Reader \<Rightarrow> nat" where
  "pos r = mElemStart r + unat (mHeadLen r + rValueLen r)"

lemma decodeTag_returns:
  assumes "headEnds buf p" and "p < length buf"
  shows "\<exists>err tag. decodeTag buf (p + 1) (buf ! p) = Some (err, tag)"
proof (cases "buf ! p AND 0x1F = 0x1F \<and> p + 1 < length buf")
  case True
  then have "buf ! (p + 1) \<noteq> 0x80" using assms by (simp add: headEnds_def)
  then show ?thesis using True tagLoop_returns [of "buf ! (p + 1)"] by (auto simp: decodeTag_def)
next
  case False
  then show ?thesis by (auto simp: decodeTag_def)
qed

text \<open>What a decoded head leaves in the reader.\<close>

definition decoded :: "ASN1Reader \<Rightarrow> ASN1Reader \<Rightarrow> bool" where
  "decoded r r' \<longleftrightarrow> mElemStart r' = mElemStart r \<and> mElemStart r < length (rInput r) \<and> mElemStart r < pos r' \<and>
     pos r' = mElemStart r' + unat (mHeadLen r') + unat (rValueLen r') \<and> rValue r' \<noteq> None"

lemma DecodeHead_returns:
  assumes h: "headsEnd (rInput r)"
  obtains err r' where "DecodeHead r = Some (err, r')" and "rInput r' = rInput r" and "mSavedContexts r' = mSavedContexts r"
    and "err = ASN1_NO_ERROR \<longrightarrow> decoded r r'"
proof (cases "mElemStart r < length (rInput r)")
  case False
  then show thesis by (intro that [of ASN1_ERROR_UNDERRUN r]) (simp_all add: DecodeHead_def Let_def)
next
  case True
  let ?p = "mElemStart r" and ?buf = "rInput r"
  have he: "headEnds ?buf ?p" using h True by (simp add: headsEnd_def list_all_iff)
  obtain err tag where dt: "decodeTag ?buf (Suc ?p) (?buf ! ?p) = Some (err, tag)" using decodeTag_returns [OF he True] by auto
  obtain e q len ind where dl: "decodeLength ?buf (Suc ?p) = (e, q, len, ind)" by (metis prod_cases4)
  note q = decodeLength_ge [OF dl]
  show thesis
  proof (cases "err = ASN1_NO_ERROR \<and> Suc ?p < length ?buf \<and> e = ASN1_NO_ERROR")
    case False
    then obtain err' r' where "DecodeHead r = Some (err', r')" "rInput r' = ?buf" "mSavedContexts r' = mSavedContexts r" "err' \<noteq> ASN1_NO_ERROR"
      using True dt dl by (cases "err = ASN1_NO_ERROR"; cases "Suc ?p < length ?buf") (simp_all add: DecodeHead_def Let_def)
    then show thesis by (intro that [of err' r']) simp_all
  next
    case ok: True
    have "int (q - ?p) + uint len < 2 ^ 32" using he ok dl by (simp add: headEnds_def)
    then have small: "q - ?p + unat len < 2 ^ 32" by (simp add: uint_nat del: of_nat_unat)
    have hl: "unat (of_nat (q - ?p) :: u32) = q - ?p" using small by (intro unat_of_nat_u32) simp
    have sum: "unat (of_nat (q - ?p) + len) = q - ?p + unat len"
      using small hl unat_add_u32 [of "of_nat (q - ?p)" len] by simp
    obtain r' where r': "DecodeHead r = Some (ASN1_NO_ERROR, r')" "rInput r' = ?buf" "mSavedContexts r' = mSavedContexts r"
      "mElemStart r' = ?p" "mHeadLen r' = of_nat (q - ?p)" "rValueLen r' = len" "rValue r' = Some q"
      using True ok dt dl by (simp add: DecodeHead_def Let_def)
    have "pos r' = ?p + (q - ?p) + unat len" using r' sum by (simp add: pos_def)
    then have "decoded r r'" using r' hl q True by (simp add: decoded_def)
    then show thesis using r' by (intro that [of ASN1_NO_ERROR r']) simp_all
  qed
qed

lemma Next_returns:
  assumes h: "headsEnd (rInput r)"
  obtains err r' where "Next_asn1 r = Some (err, r')" and "rInput r' = rInput r" and "mSavedContexts r' = mSavedContexts r"
    and "err = ASN1_NO_ERROR \<longrightarrow> pos r < length (rInput r) \<and> pos r < pos r' \<and>
      pos r' = mElemStart r' + unat (mHeadLen r') + unat (rValueLen r') \<and> rValue r' \<noteq> None"
proof (cases "rIsEndOfContents r \<or> rIsIndefiniteLen r")
  case True
  then show thesis
    by (cases "rIsEndOfContents r") (auto simp: Next_asn1_def intro: that [of ASN1_END r] that [of ASN1_ERROR_UNSUPPORTED_ENCODING r])
next
  case False
  let ?r = "ResetElementState (r\<lparr>mElemStart := pos r\<rparr>)"
  have n: "Next_asn1 r = (if pos r = mContainerEnd r then Some (ASN1_END, ?r) else DecodeHead ?r)"
    using False by (simp add: Next_asn1_def Let_def pos_def)
  show thesis
  proof (cases "pos r = mContainerEnd r")
    case True
    then show thesis using n by (intro that [of ASN1_END ?r]) simp_all
  next
    case ne: False
    have "headsEnd (rInput ?r)" using h by simp
    then obtain err r' where d: "DecodeHead ?r = Some (err, r')" "rInput r' = rInput ?r" "mSavedContexts r' = mSavedContexts ?r"
      "err = ASN1_NO_ERROR \<longrightarrow> decoded ?r r'" by (rule DecodeHead_returns)
    show thesis
    proof (rule that)
      show "Next_asn1 r = Some (err, r')" using n ne d(1) by simp
    qed (use d in \<open>auto simp: decoded_def\<close>)
  qed
qed

section \<open>The printing loop\<close>

definition exitPos :: "ASN1ParseContext \<Rightarrow> nat" where
  "exitPos ctx = cElemStart ctx + unat (cHeadLen ctx) + unat (cValueLen ctx)"

text \<open>The loop returns, or it leaves the container it is in and goes on behind it.\<close>

definition leaves :: "ASN1Reader \<Rightarrow> int \<Rightarrow> dumpLine list \<Rightarrow> bool" where
  "leaves r nest out \<longleftrightarrow> (\<exists>x. dumpLoop r nest out = Some x) \<or>
     (\<exists>prev ctxs r' nest' out'. mSavedContexts r = prev # ctxs \<and> dumpLoop r nest out = dumpLoop r' nest' out' \<and>
        mSavedContexts r' = ctxs \<and> rInput r' = rInput r \<and> pos r' = exitPos prev)"

lemma leaves_step:
  assumes "dumpLoop r nest out = dumpLoop r1 nest1 out1" and "leaves r1 nest1 out1"
    and "mSavedContexts r1 = mSavedContexts r" and "rInput r1 = rInput r"
  shows "leaves r nest out"
  using assms unfolding leaves_def by metis

lemma leavesE:
  assumes "leaves r nest out" and "mSavedContexts r = ctx # ctxs"
  obtains x where "dumpLoop r nest out = Some x"
    | r' nest' out' where "dumpLoop r nest out = dumpLoop r' nest' out'" and "mSavedContexts r' = ctxs" and "rInput r' = rInput r"
      and "pos r' = exitPos ctx"
  using assms unfolding leaves_def by (metis list.inject)

lemma leaves_error: "dumpLoop r nest out = Some x \<Longrightarrow> leaves r nest out"
  by (auto simp: leaves_def)

lemma dumpLoop_leaves:
  "\<lbrakk>headsEnd buf; rInput r = buf; length (mSavedContexts r) + m = 32\<rbrakk> \<Longrightarrow> leaves r nest out"
proof (induction m arbitrary: r nest out rule: less_induct)
  case outer: (less m r nest out)
  from outer.prems(2,3) show ?case
  proof (induction "length buf - pos r" arbitrary: r nest out rule: less_induct)
    case (less r nest out)
    note inner = less.hyps
    obtain err r' where n: "Next_asn1 r = Some (err, r')" "rInput r' = buf" "mSavedContexts r' = mSavedContexts r"
      "err = ASN1_NO_ERROR \<longrightarrow> pos r < length buf \<and> pos r < pos r' \<and>
        pos r' = mElemStart r' + unat (mHeadLen r') + unat (rValueLen r') \<and> rValue r' \<noteq> None"
      using Next_returns [of r] outer.prems(1) less.prems(1) by metis
    consider "err = ASN1_END" | "err \<noteq> ASN1_END" "err \<noteq> ASN1_NO_ERROR" | "err = ASN1_NO_ERROR" by blast
    then show ?case
    proof cases
      case 1
      show ?thesis
      proof (cases "mSavedContexts r")
        case Nil
        then show ?thesis using n 1 by (intro leaves_error) (subst dumpLoop.simps, simp add: IsContained_def)
      next
        case (Cons prev ctxs)
        show ?thesis
        proof (cases "cIsIndefiniteLen prev")
          case True
          then show ?thesis using n 1 Cons
            by (intro leaves_error) (subst dumpLoop.simps, simp add: IsContained_def ExitConstructedType_def ExitContainer_asn1_def Let_def)
        next
          case False
          let ?r = "ResetElementState (r'\<lparr>mSavedContexts := ctxs, mElemStart := exitPos prev, mContainerEnd := cContainerEnd prev\<rparr>)"
          have "ExitConstructedType r' = (ASN1_NO_ERROR, ?r)"
            using n Cons False by (simp add: ExitConstructedType_def ExitContainer_asn1_def Let_def exitPos_def)
          then have "dumpLoop r nest out = dumpLoop ?r (nest - 1) out"
            using n 1 Cons by (subst dumpLoop.simps) (simp add: IsContained_def)
          moreover have "mSavedContexts ?r = ctxs" "rInput ?r = rInput r" "pos ?r = exitPos prev"
            using n(2) less.prems(1) by (simp_all add: pos_def)
          ultimately show ?thesis unfolding leaves_def using Cons by blast
        qed
      qed
    next
      case 2
      then show ?thesis using n by (intro leaves_error) (subst dumpLoop.simps, simp)
    next
      case 3
      note p = n(4) [rule_format, OF 3]
      have less_pos: "length buf - pos r' < length buf - pos r" using p diff_less_mono2 by blast
      let ?out = "out @ [dumpLineOf nest r']"
      show ?thesis
      proof (cases "rIsConstructed r'")
        case False
        have "dumpLoop r nest out = dumpLoop r' nest ?out" using n 3 False by (subst dumpLoop.simps) (simp add: Let_def)
        moreover have "leaves r' nest ?out" using n less.prems by (intro inner [OF less_pos]) simp_all
        ultimately show ?thesis by (rule leaves_step) (use n less.prems in simp_all)
      next
        case True
        show ?thesis
        proof (cases "m = 0")
          case True
          then show ?thesis using n 3 \<open>rIsConstructed r'\<close> less.prems(2)
            by (intro leaves_error) (subst dumpLoop.simps, simp add: Let_def EnterConstructedType_def EnterContainer_asn1_def)
        next
          case m: False
          let ?ctx = "\<lparr>cElemStart = mElemStart r', cHeadLen = mHeadLen r', cValueLen = rValueLen r',
            cIsIndefiniteLen = rIsIndefiniteLen r', cContainerEnd = mContainerEnd r'\<rparr>"
          obtain r1 where r1: "EnterConstructedType r' = (ASN1_NO_ERROR, r1)" "mSavedContexts r1 = ?ctx # mSavedContexts r" "rInput r1 = buf"
            using p n True m less.prems(2) by (auto simp: EnterConstructedType_def EnterContainer_asn1_def Let_def)
          have s: "dumpLoop r nest out = dumpLoop r1 (nest + 1) ?out"
            using n 3 True r1(1) by (subst dumpLoop.simps) (simp add: Let_def)
          have "leaves r1 (nest + 1) ?out" using r1 m less.prems(2) outer.prems(1) by (intro outer.IH [of "m - 1"]) simp_all
          then show ?thesis
          proof (rule leavesE [OF _ r1(2)])
            fix x assume "dumpLoop r1 (nest + 1) ?out = Some x"
            then show ?thesis using s by (intro leaves_error) simp
          next
            fix r2 nest2 out2 assume 2: "dumpLoop r1 (nest + 1) ?out = dumpLoop r2 nest2 out2" "mSavedContexts r2 = mSavedContexts r"
              "rInput r2 = rInput r1" "pos r2 = exitPos ?ctx"
            have "pos r2 = pos r'" using p 2(4) by (simp add: exitPos_def)
            then have "length buf - pos r2 < length buf - pos r" using less_pos by simp
            then have "leaves r2 nest2 out2" using 2 r1(3) less.prems by (intro inner) simp_all
            with s [unfolded 2(1)] show ?thesis by (rule leaves_step) (use 2 r1(3) less.prems in simp_all)
          qed
        qed
      qed
    qed
  qed
qed

text \<open>
  C15. Termination: on every input whose heads all end, however malformed it is otherwise, and whether or not lengths agree with the
  containers, printing returns.
\<close>

theorem dump_returns:
  assumes "headsEnd buf"
  shows "\<exists>err out. DumpASN1 (InitReader buf) = Some (err, out)"
proof -
  have "leaves (InitReader buf) 0 []" using assms by (intro dumpLoop_leaves [of buf _ 32]) (simp_all add: InitReader_def)
  then show ?thesis by (auto simp: leaves_def DumpASN1_def InitReader_def)
qed

theorem dump_returns_witness:
  "headsEnd [0x30, 0x05, 0x31, 0x04, 0x02, 0x01] \<and> (\<exists>err out. DumpASN1 (InitReader [0x30, 0x05, 0x31, 0x04, 0x02, 0x01]) = Some (err, out))"
proof -
  have "headsEnd [0x30, 0x05, 0x31, 0x04, 0x02, 0x01]" by code_simp
  then show ?thesis using dump_returns by blast
qed

section \<open>Inputs that stop the reader\<close>

definition stuck :: "u8 list \<Rightarrow> ASN1Reader \<Rightarrow> bool" where
  "stuck buf r \<longleftrightarrow> rInput r = buf \<and> pos r = 0 \<and> \<not> rIsEndOfContents r \<and> \<not> rIsIndefiniteLen r \<and> mContainerEnd r \<noteq> 0"

definition wrappingInput :: "u8 list" where
  "wrappingInput = [0x04, 0x84, 0xFF, 0xFF, 0xFF, 0xFA]"

lemma wrappingInput_facts:
  "length wrappingInput = 6" "wrappingInput ! 0 = 4" "decodeTag wrappingInput (Suc 0) 4 = Some (ASN1_NO_ERROR, 4)"
  "decodeLength wrappingInput (Suc 0) = (ASN1_NO_ERROR, 6, 0xFFFFFFFA, False)"
  by code_simp+

lemma Next_stuck:
  assumes "stuck wrappingInput r"
  obtains r' where "Next_asn1 r = Some (ASN1_NO_ERROR, r')" and "stuck wrappingInput r'" and "\<not> rIsConstructed r'"
  using assms by (simp add: stuck_def Next_asn1_def Let_def DecodeHead_def pos_def wrappingInput_facts)

text \<open>
  C33. Two bytes are enough for the tag loop not to end; six bytes give a primitive element whose length makes \<^verbatim>\<open>Next\<close> return to its start, so
  that it is printed for ever.
\<close>

theorem dump_hangs:
  "DumpASN1 (InitReader [0x1F, 0x80]) = None \<and> DumpASN1 (InitReader [0x04, 0x84, 0xFF, 0xFF, 0xFF, 0xFA]) = None"
proof
  show "DumpASN1 (InitReader [0x1F, 0x80]) = None"
    unfolding DumpASN1_def
    by (subst dumpLoop.simps) (simp add: Next_asn1_def DecodeHead_def decodeTag_def InitReader_def ResetElementState_def Let_def tagLoop_hangs)
  have "\<not> stuck wrappingInput r" if "dumpLoop r nest out = Some y" for r nest out y
  proof (rule dumpLoop.raw_induct [where P = "\<lambda>r nest out y. \<not> stuck wrappingInput r", OF _ that], rule notI)
    fix f r nest out y
    assume ih: "\<And>r nest out y. f r nest out = Some y \<Longrightarrow> \<not> stuck wrappingInput r" and s: "stuck wrappingInput r"
      and e: "Option.bind (Next_asn1 r) (\<lambda>(err, r).
            if err = ASN1_END
            then if IsContained r
                 then case ExitConstructedType r of
                      (err, r) \<Rightarrow>
                        if err \<noteq> ASN1_NO_ERROR then Some (err, out)
                        else f r (nest - 1) out
                 else Some (err, out)
            else if err \<noteq> ASN1_NO_ERROR then Some (err, out)
                 else let out = out @ [dumpLineOf nest r]
                      in if rIsConstructed r
                         then case EnterConstructedType r of
                              (err, r) \<Rightarrow>
                                if err \<noteq> ASN1_NO_ERROR then Some (err, out)
                                else f r (nest + 1) out
                         else f r nest out) = Some y"
    obtain r' where r': "Next_asn1 r = Some (ASN1_NO_ERROR, r')" "stuck wrappingInput r'" "\<not> rIsConstructed r'"
      using s by (rule Next_stuck)
    then have "f r' nest (out @ [dumpLineOf nest r']) = Some y" using e by (simp add: Let_def)
    then show False using ih r'(2) by blast
  qed
  moreover have "stuck wrappingInput (InitReader wrappingInput)" by (simp add: stuck_def InitReader_def pos_def wrappingInput_def)
  ultimately have "DumpASN1 (InitReader wrappingInput) = None" unfolding DumpASN1_def by (meson not_Some_eq)
  then show "DumpASN1 (InitReader [0x04, 0x84, 0xFF, 0xFF, 0xFF, 0xFA]) = None" by (simp add: wrappingInput_def)
qed

end
