(* ===== verification/Spec2Isabelle.thy ===== *)
theory Spec2Isabelle
  imports TLV_Theorems App_Keys Counters Fabric_Tables IP_Address Key_Ids Message_Codec Message_Replay Packet_Buffer Replay_Window
    Exchange_Retrans Ble_Transfer Time_Utils Base64 Pairing_Code Asn1_Values Asn1_Halt
begin

text \<open>
  A verification library for the core of OpenWeave, a C++ implementation of a messaging stack for home
  devices.  A device sends \<^emph>\<open>messages\<close> to other nodes of its \<^emph>\<open>fabric\<close>.  A message has a header, a payload
  that most profiles encode in TLV, and, if it is encrypted, a keyed hash; it lives in a packet buffer and is
  protected with a session key or with a key derived from the fabric's group keys.  Paths below are relative
  to \<^verbatim>\<open>src/src\<close>.

  \<^bold>\<open>Conventions.\<close>  Machine integers are words of their width.  Error codes are the datatype \<open>WEAVE_ERROR\<close>; its
  constructor \<open>UNDEFINED_BEHAVIOR\<close> is no code of the source but marks the places where the C++ would leave a
  buffer or follow a null pointer.  A pointer into a buffer is an offset or the list of bytes still ahead, a
  pointer into a table an index.  Loops that the source does not bound are \<^verbatim>\<open>partial_function (option)\<close>, where
  \<open>None\<close> is divergence or an abort, and their results are proved to be \<open>Some\<close>; where a draw of random
  numbers decides when a loop ends, the list of draws is an argument.

  \<^bold>\<open>Shared.\<close>
  \<^item> \<^verbatim>\<open>Weave_Prelude\<close>: integer types, error codes, \<^verbatim>\<open>SuccessOrExit\<close>, list and word lemmas.
  \<^item> \<^verbatim>\<open>Weave_Encoding\<close>: the little-endian readers and writers of \<^verbatim>\<open>lib/core/WeaveEncoding.h\<close>; the locale
    \<open>fixed_codec\<close> states their contract and is interpreted for every width.

  \<^bold>\<open>TLV\<close> (\<^verbatim>\<open>lib/core/WeaveTLV*.{h,cpp}\<close>).
  \<^item> \<^verbatim>\<open>TLV_Types\<close>, \<^verbatim>\<open>TLV_Reader\<close>, \<^verbatim>\<open>TLV_Writer\<close>: element types and tags, and every method of \<^verbatim>\<open>TLVReader\<close> and
    \<^verbatim>\<open>TLVWriter\<close> over one buffer or a chain of buffers.  The state of a reader or writer is a record with the
    fields of the class.
  \<^item> \<^verbatim>\<open>TLV_Stream\<close>, \<^verbatim>\<open>TLV_Syntax\<close>, \<^verbatim>\<open>TLV_Codec\<close>, \<^verbatim>\<open>TLV_Input\<close>, \<^verbatim>\<open>TLV_Output\<close>, \<^verbatim>\<open>TLV_Theorems\<close>: TLV trees as the abstract
    specification, the reader as a byte stream, and the properties: the round trip of any tree, memory
    safety of reader and writer for every sequence of calls (with the two calls for strings that can write out of bounds named exactly),
    chains without empty buffers read like one buffer, and what the code
    gets wrong at the end of a chain, without memory, and on lengths beyond 32 bits.

  \<^bold>\<open>Packet buffers\<close> (\<^verbatim>\<open>system/SystemPacketBuffer.cpp\<close>).  \<^verbatim>\<open>Packet_Buffer\<close> has a heap of buffers with reference
  counts, chains and the free list of the fixed pool (the configuration without LwIP).  Chain operations are
  proved against lists of buffers; the locale \<open>memory_window\<close> is what the message layer relies on of one buffer.

  \<^bold>\<open>Keys and counters.\<close>
  \<^item> \<^verbatim>\<open>Message_Crypto\<close>: counter mode, HMAC and digest comparison (\<^verbatim>\<open>lib/support/crypto\<close>); the block cipher and
    the hash belong to the platform and are parameters.  Counter mode encrypts the numbered blocks of its
    specification, is its own inverse (locale \<open>stream_cipher\<close>), and the hash is that of RFC 2104.
  \<^item> \<^verbatim>\<open>Key_Ids\<close>: the bit fields of key ids (\<^verbatim>\<open>lib/core/WeaveKeyIds.*\<close>).
  \<^item> \<^verbatim>\<open>App_Keys\<close>: HKDF (RFC 5869), the group key store, the choice of the current epoch key and the
    derivation of application keys (\<^verbatim>\<open>lib/profiles/security/WeaveApplicationKeys.*\<close>); the storage and clock of the
    platform are a record of operations.
  \<^item> \<^verbatim>\<open>Counters\<close>: the persisted message counter (\<^verbatim>\<open>lib/support/PersistedCounter.cpp\<close>); no value is used twice over any
    draws and restarts while storage works and the \<open>2 ^ 32\<close> values last, and what happens when it fails.
  \<^item> \<^verbatim>\<open>Replay_Window\<close>: duplicate detection; against the set of all ids received.

  \<^bold>\<open>The fabric state\<close> (\<^verbatim>\<open>lib/core/WeaveFabricState.*\<close>, \<^verbatim>\<open>inet/IPAddress.cpp\<close>).  \<^verbatim>\<open>IP_Address\<close> has the addresses and their
  relation to node ids.  \<^verbatim>\<open>Fabric_State\<close> has the tables of session keys, shared sessions, peers and cached keys,
  session lookup, and the synchronization of message counters; a \<^verbatim>\<open>WeaveSessionState\<close>, a bundle of pointers into
  these tables, is a record of references.  \<^verbatim>\<open>Fabric_Tables\<close> proves the invariant of the peer table over all
  runs of these operations, that an established session is found with the key installed, and the faults of the
  key cache, the shared sessions and the synchronization window.

  \<^bold>\<open>The message layer\<close> (\<^verbatim>\<open>lib/core/WeaveMessageLayer.cpp\<close>).  \<^verbatim>\<open>Message_Layer\<close> has the header, encoding, protection,
  decoding, framing and the receipt of a UDP packet, composed of all of the above.  \<^verbatim>\<open>Message_Codec\<close> shows that
  a message is received as it was sent, that an accepted one is authentic, that frame lengths wrap, and which
  packets are neither delivered nor released.  \<^verbatim>\<open>Message_Replay\<close> and this theory show that a replayed message
  is recognised.

  \<^bold>\<open>Exchanges\<close> (\<^verbatim>\<open>lib/core/WeaveExchangeMgr.*\<close>, \<^verbatim>\<open>lib/core/ExchangeContext.cpp\<close>).  An exchange is a conversation with
  a peer; it can ask for acknowledgments, and messages without one are sent again from a table with a timer
  that counts ticks.
  \<^item> \<^verbatim>\<open>Exchange_Types\<close>: contexts, the table and the manager as records, the exchange header, and sending over
    UDP end points and connections.  Packets and calls of application or security manager are events of a
    trace; an application acts between operations, not inside its handlers.  What the platform answers is the
    record \<open>ExchEnv\<close>, the clock a field of the state.
  \<^item> \<^verbatim>\<open>Exchange_Mgr\<close>: ticks, the retransmission table, sending and closing.  \<^verbatim>\<open>Release\<close> of the last reference closes
    the context, which may send and so release again: the recursion is cut at depth 2, which is shown to be enough.
  \<^item> \<^verbatim>\<open>Exchange_Dispatch\<close>: received messages, handlers, timers, trickle retransmission.
  \<^item> \<^verbatim>\<open>Exchange_Quiet\<close>: rules for total correctness (\<open>gives\<close>) and the locale \<open>quiet_view\<close>: what sending and closing
    leave alone, for any view of the state that does not see flags, timers and the trace.
  \<^item> \<^verbatim>\<open>Exchange_Refs\<close>, \<^verbatim>\<open>Exchange_Safety\<close>: in every reachable state the reference counts are the entries of the table plus
    the references the application was given and has not given back, and nothing aborts.
  \<^item> \<^verbatim>\<open>Exchange_Retrans\<close>: retransmission ends.  A wait lets 65535 ticks pass, the largest time an entry can have left, and the
    timer expire; if the timer can be started, \<open>K + 2\<close> waits are enough for at most \<open>K\<close> retransmissions.

  \<^bold>\<open>Bluetooth\<close> (\<^verbatim>\<open>ble/WoBle.*\<close>).  \<^verbatim>\<open>Ble_Engine\<close> has the engine that cuts messages into fragments and reassembles them in the
  pool of packet buffers; \<^verbatim>\<open>Ble_Transfer\<close> composes two engines: a message arrives as it was sent.  Sending is bounded by
  a number of fragments, for which the length of the message is shown to be enough.

  \<^bold>\<open>Support utilities\<close> (\<^verbatim>\<open>lib/support\<close>).
  \<^item> \<^verbatim>\<open>Time_Utils\<close>: dates and times.  The closed formulas of \<^verbatim>\<open>TimeUtils.cpp\<close> agree with counting days one by one.
  \<^item> \<^verbatim>\<open>Base64\<close>: text and bytes, in place, in both alphabets (locale \<open>base64\<close>).
  \<^item> \<^verbatim>\<open>Verhoeff\<close>, \<^verbatim>\<open>Pairing_Code\<close>: check characters and pairing codes.  The locale \<open>check_digits\<close> shows that wrong characters and
    exchanged neighbours are detected in any group with a suitable permutation; the locale \<open>verhoeff\<close> gives it for a class with tables, and is
    interpreted for all four.

  \<^bold>\<open>ASN.1\<close> (\<^verbatim>\<open>lib/support/ASN1*.cpp\<close>).
  \<^item> \<^verbatim>\<open>Asn1_Writer\<close>, \<^verbatim>\<open>Asn1_Reader\<close>, \<^verbatim>\<open>Asn1_Oid\<close>: the methods of the writer (on plain bytes) and of the reader, \<^verbatim>\<open>DumpASN1\<close>, and the table of
    object identifiers.  Errors are the datatype \<open>ASN1_ERROR\<close>; \<open>ASN1_MEMORY_FAULT\<close> is no code of the source but marks an access outside a buffer.
  \<^item> \<^verbatim>\<open>Asn1_Deferred\<close>, \<^verbatim>\<open>Asn1_Der\<close>: the lengths that the writer fills in later and the compaction at the end, against DER encodings of trees.
  \<^item> \<^verbatim>\<open>Asn1_Decode\<close>, \<^verbatim>\<open>Asn1_Dump\<close>, \<^verbatim>\<open>Asn1_Halt\<close>: heads, the walk through an encoding, and when it ends: on which inputs it does, and two on which it
    does not.
  \<^item> \<^verbatim>\<open>Asn1_Values\<close>: reading stays inside the input; the locale \<open>asn1_value\<close> gives the round trip of a kind of value and is interpreted for six.

  \<^bold>\<open>Configuration.\<close>  Default build options: application group keys for message encryption, persistent message
  ids, tunneling, reliable messaging; no LwIP.

  \<^bold>\<open>Not modelled.\<close>  Creating and joining a fabric (\<^verbatim>\<open>CreateFabric\<close>, \<^verbatim>\<open>GetFabricState\<close>, \<^verbatim>\<open>JoinExistingFabric\<close>), end points
  and sockets, connections (but for sending), bindings, the Bluetooth end points, the session establishment protocols
  (CASE, PASE, TAKE, key export) and their certificates, the profiles above the message layer, the device
  manager and the language bindings.  The manifest of components says so for each.
\<close>

section \<open>Properties that span components\<close>

text \<open>
  C1. A replayed message is recognised.  A message protected with a session key that has been
  received once, and arrives a second time with the same bytes, is decoded again but marked as a duplicate,
  whatever its message id and whatever the state of the receive window was.
\<close>

theorem replayed_message_is_marked:
  fixes env :: "'k Platform"
  assumes "wf_buf b" and "sha1_length env" and "Flags m AND kWeaveMessageFlag_MessageEncoded = 0" and "reserve \<le> 2"
    and "EncodeMessage env m b con maxLen reserve f = (WEAVE_NO_ERROR, m', b', f', acts)"
    and "GetSessionState (KeyOps env) (SHA1 env) (if DestNodeId m = kAnyNodeId then SourceNodeId m else DestNodeId m)
      (MsgKeyId m) (EncryptionType m) con f = (err, ss, f1)"
    and "Flags m AND kWeaveMessageFlag_SourceNodeId \<noteq> 0 \<or> src = SourceNodeId m"
    and "Flags m AND kWeaveMessageFlag_DestNodeId \<noteq> 0 \<or> LocalNodeId g = DestNodeId m"
    and "EncryptionType m \<noteq> 0" and "IsSessionKey (ucast (MsgKeyId m))"
    and "GetSessionState (KeyOps env) (SHA1 env) (SourceNodeId m) (MsgKeyId m) (EncryptionType m) rcon g = (WEAVE_NO_ERROR, rs, g1)"
    and "map_option EncKey (get_key rs g1) = map_option EncKey (get_key ss f1)"
    and "SessionState_IsDuplicateMessage rs (MessageId m') g1 = Some (dup, g2)"
  shows "\<exists>d1 b1 d2 b2. DecodeMessage env b' src rcon d g = (WEAVE_NO_ERROR, d1, b1, g2) \<and>
    DecodeMessage env b' src rcon d g2 = (WEAVE_NO_ERROR, d2, b2, g2) \<and> Flags (DInfo d2) AND kWeaveMessageFlag_DuplicateMessage \<noteq> 0"
proof -
  obtain i where i: "g1 = g" "i < length (SessionKeys g)" "SS_Rcv rs = SessionWindow i" "SS_MsgEncKey rs = Some (SessionKeyRef i)"
    by (rule GetSessionState_session [OF assms(11,10)]) (simp add: that)
  have key: "get_key rs g1 = Some (MsgEncKey (SessionKeys g1 ! i))" "get_rcv rs g1 = Some (SessionRcv (SessionKeys g1 ! i))"
    using i(3,4) by (simp_all add: get_key_def get_rcv_def)
  obtain w where w: "IsDuplicateMessage (Some (KeyId (MsgEncKey (SessionKeys g1 ! i)))) (MessageId m') (get_rcv rs g1) = Some (dup, Some w)"
    and g2: "g2 = put_rcv rs (Some w) g1"
    using assms(13) key IsDuplicateMessage_Some by (fastforce simp: SessionState_IsDuplicateMessage_def)
  have again: "SessionState_IsDuplicateMessage rs (MessageId m') g2 = Some (True, g2)"
    using IsDuplicateMessage_again [OF w] key(1) i g2
    by (simp add: SessionState_IsDuplicateMessage_def get_key_put_rcv get_put_rcv put_put_rcv)
  have s2: "GetSessionState (KeyOps env) (SHA1 env) (SourceNodeId m) (MsgKeyId m) (EncryptionType m) rcon g2 = (WEAVE_NO_ERROR, rs, g2)"
    using GetSessionState_again [OF assms(11,10), of w] g2 by simp
  have l2: "LocalNodeId g2 = LocalNodeId g" using g2 i by (simp add: put_rcv_def update_session_def)
  have dst: "Flags m AND kWeaveMessageFlag_DestNodeId \<noteq> 0 \<or> LocalNodeId g2 = DestNodeId m" using assms(8) l2 by simp
  have k2: "EncryptionType m = 0 \<or> map_option EncKey (get_key rs g2) = map_option EncKey (get_key ss f1)"
    using assms(12) g2 by (simp add: get_key_put_rcv)
  from encode_decode [OF assms(1-7) dst _ k2 again, of rcon d] s2 assms(9)
  obtain d2 b2 where "DecodeMessage env b' src rcon d g2 = (WEAVE_NO_ERROR, d2, b2, g2)" "Flags (DInfo d2) AND kWeaveMessageFlag_DuplicateMessage \<noteq> 0"
    by auto
  moreover from encode_decode [OF assms(1-8) _ _ assms(13), of rcon d] assms(9,11,12)
  obtain d1 b1 where "DecodeMessage env b' src rcon d g = (WEAVE_NO_ERROR, d1, b1, g2)" by auto
  ultimately show ?thesis by blast
qed

theorem replayed_message_is_marked_witness:
  "\<exists>d1 b1 d2 b2 g2. DecodeMessage sample_env (fst (snd (snd sample_encoded))) 0 None \<lparr>DInfo = MsgInfo_Clear, DPayload = 0, DPayloadLen = 0\<rparr>
      (sample_fabric 9 5) = (WEAVE_NO_ERROR, d1, b1, g2) \<and>
    DecodeMessage sample_env (fst (snd (snd sample_encoded))) 0 None \<lparr>DInfo = MsgInfo_Clear, DPayload = 0, DPayloadLen = 0\<rparr> g2 =
      (WEAVE_NO_ERROR, d2, b2, g2) \<and> Flags (DInfo d2) AND kWeaveMessageFlag_DuplicateMessage \<noteq> 0"
proof -
  obtain m' b' f' acts dup g2 where e: "EncodeMessage sample_env sample_msg sample_buf None 0xFFFF 0 (sample_fabric 5 9) = (WEAVE_NO_ERROR, m', b', f', acts)"
    "sample_encoded = (WEAVE_NO_ERROR, m', b', f', acts)" "SessionState_IsDuplicateMessage sample_ss (MessageId m') (sample_fabric 9 5) = Some (dup, g2)"
    by (rule sample_encoded_cases)
  have t: "EncryptionType sample_msg \<noteq> 0" "IsSessionKey (ucast (MsgKeyId sample_msg))"
    by (simp_all add: sample_msg_def IsSessionKey_def GetKeyType_def)
  have s: "GetSessionState (KeyOps sample_env) (SHA1 sample_env) (SourceNodeId sample_msg) (MsgKeyId sample_msg) (EncryptionType sample_msg) None
      (sample_fabric 9 5) = (WEAVE_NO_ERROR, sample_ss, sample_fabric 9 5)" using sample_hyps(7) t(1) by simp
  have k: "map_option EncKey (get_key sample_ss (sample_fabric 9 5)) = map_option EncKey (get_key sample_ss (sample_fabric 5 9))"
    using sample_hyps(8) t(1) by simp
  show ?thesis
    using replayed_message_is_marked [OF sample_hyps(1) sample_env_ok sample_hyps(2,3) e(1) sample_hyps(4-6) t s k e(3)]
    unfolding e(2) fst_conv snd_conv by blast
qed

end
